(* ===== verification/AgentOE_Prelude.thy ===== *)
theory AgentOE_Prelude
  imports Main "HOL-Library.Multiset"
begin

text \<open>
  Shared vocabulary of the AgentOE development: the types that stand for Python values, the pieces
  of the Python language and standard library the backend uses (slices, substring search, ordered
  dictionaries, string splitting, exceptions), the collections of rewrite rules the component
  theories fill, and three interface locales that several components provide:

  \<^item> \<open>guarded_machine\<close>: a state machine whose moves are allowed by an edge relation
    (provided by \<open>Session_FSM\<close>);
  \<^item> \<open>bounded_buffer\<close>: a container whose operations never exceed a capacity (provided by the
    WebSocket send queue, the compiled-graph cache and the in-memory conversation history);
  \<^item> \<open>effect_frame\<close>: a preorder on states that every effect of a component stays within (provided by
    the hand-over service, the pipeline and the orchestrator).

  Conventions. Identifiers, enum values and protocol constants are \<^typ>\<open>string\<close>s; natural-language
  text (utterances, answers, announcements), whose slices count code points, is a list of Unicode
  code points. Readings of the clock are integers, in milliseconds.
\<close>

section \<open>Rule collections\<close>

named_theorems fsm_simps \<open>characteristic equations of the session state machine\<close>
named_theorems cb_simps \<open>characteristic equations of the circuit breaker\<close>
named_theorems enum_simps \<open>encodings of the enumerations and their inverses\<close>
named_theorems store_simps \<open>laws of the external stores, as rewrite rules\<close>

section \<open>Values\<close>

type_synonym time = int
type_synonym ustr = "nat list"
type_synonym bytes = "nat list"

definition of_str :: "string \<Rightarrow> ustr" where
  "of_str s = map of_char s"

datatype pyval =
    VNone
  | VBool bool
  | VInt int
  | VStr ustr
  | VList "pyval list"
  | VDict "(string \<times> pyval) list"

type_synonym meta = "(string \<times> pyval) list"

text \<open>Python truth value testing.\<close>

fun truthy :: "pyval \<Rightarrow> bool" where
  "truthy VNone = False"
| "truthy (VBool b) = b"
| "truthy (VInt i) = (i \<noteq> 0)"
| "truthy (VStr t) = (t \<noteq> [])"
| "truthy (VList xs) = (xs \<noteq> [])"
| "truthy (VDict d) = (d \<noteq> [])"

text \<open>
  Exceptions the modelled code raises or tells apart. \<open>CancelledError\<close> derives from
  \<open>BaseException\<close>, so an \<open>except Exception\<close> clause does not catch it.
\<close>

datatype pyexc =
    ValueError
  | KeyError
  | RuntimeError ustr
  | CircuitBreakerOpenError string
  | ExternalTimeoutError string
  | QuotaExceededError bool string
  | SessionNotFoundError string
  | PyMongoError
  | CancelledError
  | OtherException ustr

definition is_Exception :: "pyexc \<Rightarrow> bool" where
  "is_Exception e \<longleftrightarrow> e \<noteq> CancelledError"

section \<open>Effects\<close>

text \<open>
  A coroutine run to completion: its result or the exception it raised, with the state it leaves.
  Effects made before a raise stay.
\<close>

type_synonym ('a, 's) io = "(pyexc + 'a) \<times> 's"

definition io_bind :: "('a, 's) io \<Rightarrow> ('a \<Rightarrow> 's \<Rightarrow> ('b, 's) io) \<Rightarrow> ('b, 's) io" where
  "io_bind m f = (case m of (Inl e, s) \<Rightarrow> (Inl e, s) | (Inr a, s) \<Rightarrow> f a s)"

lemma io_bind_simps [simp]:
  "io_bind (Inl e, s) f = (Inl e, s)"
  "io_bind (Inr a, s) f = f a s"
  by (simp_all add: io_bind_def)

lemma io_bind_split:
  "P (io_bind m f) \<longleftrightarrow> (\<forall>e s. m = (Inl e, s) \<longrightarrow> P (Inl e, s)) \<and> (\<forall>a s. m = (Inr a, s) \<longrightarrow> P (f a s))"
  by (auto simp: io_bind_def split: prod.split sum.split)

section \<open>Python sequences\<close>

text \<open>\<open>xs[-n:]\<close> for a positive \<open>n\<close>.\<close>

definition last_n :: "nat \<Rightarrow> 'a list \<Rightarrow> 'a list" where
  "last_n n xs = drop (length xs - n) xs"

lemma length_last_n [simp]: "length (last_n n xs) = min n (length xs)"
  by (simp add: last_n_def)

lemma last_n_all: "length xs \<le> n \<Longrightarrow> last_n n xs = xs"
  by (simp add: last_n_def)

lemma last_n_Nil [simp]: "last_n n [] = []"
  by (simp add: last_n_def)

lemma last_n_suffix: "\<exists>ys. xs = ys @ last_n n xs"
  by (metis append_take_drop_id last_n_def)

lemma set_last_n: "set (last_n n xs) \<subseteq> set xs"
  by (simp add: last_n_def set_drop_subset)

lemma last_n_append_ge: "length ys \<le> n \<Longrightarrow> last_n n (xs @ ys) = last_n (n - length ys) xs @ ys"
  by (simp add: last_n_def)

lemma find_append: "find P (xs @ ys) = (case find P xs of None \<Rightarrow> find P ys | Some x \<Rightarrow> Some x)"
  by (induction xs) simp_all

lemma find_SomeD: "find P xs = Some x \<Longrightarrow> x \<in> set xs \<and> P x"
  by (induction xs) (auto split: if_splits)

lemma find_filter: "find P xs = (case filter P xs of [] \<Rightarrow> None | x # _ \<Rightarrow> Some x)"
  by (induction xs) auto

text \<open>What \<open>update_one\<close>, \<open>find_one_and_update\<close> and \<open>delete_one\<close> do to a collection: they change the first match.\<close>

fun update_first :: "('a \<Rightarrow> bool) \<Rightarrow> ('a \<Rightarrow> 'a) \<Rightarrow> 'a list \<Rightarrow> 'a list" where
  "update_first P f [] = []"
| "update_first P f (x # xs) = (if P x then f x # xs else x # update_first P f xs)"

fun delete_first :: "('a \<Rightarrow> bool) \<Rightarrow> 'a list \<Rightarrow> 'a list" where
  "delete_first P [] = []"
| "delete_first P (x # xs) = (if P x then xs else x # delete_first P xs)"

lemma update_first_split:
  obtains "\<forall>x\<in>set xs. \<not> P x" "update_first P f xs = xs" "find P xs = None"
  | ys x zs where "xs = ys @ x # zs" "P x" "\<forall>y\<in>set ys. \<not> P y" "update_first P f xs = ys @ f x # zs" "find P xs = Some x"
proof (induction xs arbitrary: thesis)
  case (Cons a xs)
  show ?case
  proof (cases "P a")
    case True
    then show ?thesis by (intro Cons.prems(2) [of "[]" a xs]) auto
  next
    case False
    show ?thesis
    proof (rule Cons.IH)
      assume "\<forall>x\<in>set xs. \<not> P x" "update_first P f xs = xs" "find P xs = None"
      with False show ?thesis by (intro Cons.prems(1)) auto
    next
      fix ys x zs assume "xs = ys @ x # zs" "P x" "\<forall>y\<in>set ys. \<not> P y" "update_first P f xs = ys @ f x # zs" "find P xs = Some x"
      with False show ?thesis by (intro Cons.prems(2) [of "a # ys" x zs]) auto
    qed
  qed
qed simp

lemma delete_first_split:
  obtains "delete_first P xs = xs" "\<forall>x\<in>set xs. \<not> P x" | ys x zs where "xs = ys @ x # zs" "P x" "delete_first P xs = ys @ zs"
proof (induction xs arbitrary: thesis)
  case (Cons a xs)
  show ?case
  proof (cases "P a")
    case True
    then show ?thesis by (intro Cons.prems(2) [of "[]" a xs]) auto
  next
    case False
    show ?thesis
    proof (rule Cons.IH)
      assume "delete_first P xs = xs" "\<forall>x\<in>set xs. \<not> P x"
      with False show ?thesis by (intro Cons.prems(1)) auto
    next
      fix ys x zs assume "xs = ys @ x # zs" "P x" "delete_first P xs = ys @ zs"
      with False show ?thesis by (intro Cons.prems(2) [of "a # ys" x zs]) auto
    qed
  qed
qed simp

lemma update_first_find: "find P xs = Some x \<Longrightarrow> \<exists>us vs. xs = us @ x # vs \<and> P x \<and> update_first P f xs = us @ f x # vs"
  by (cases rule: update_first_split [of xs P f]) auto

lemma update_first_none: "find P xs = None \<Longrightarrow> update_first P f xs = xs"
  by (cases rule: update_first_split [of xs P f]) auto

text \<open>Substring search \<open>sub in s\<close> and prefix tests.\<close>

fun starts_with :: "'a list \<Rightarrow> 'a list \<Rightarrow> bool" where
  "starts_with [] ys = True"
| "starts_with (x # xs) [] = False"
| "starts_with (x # xs) (y # ys) = (x = y \<and> starts_with xs ys)"

fun contains :: "'a list \<Rightarrow> 'a list \<Rightarrow> bool" where
  "contains sub [] = (sub = [])"
| "contains sub (y # ys) = (starts_with sub (y # ys) \<or> contains sub ys)"

lemma starts_with_iff: "starts_with xs ys \<longleftrightarrow> (\<exists>zs. ys = xs @ zs)"
  by (induction xs ys rule: starts_with.induct) auto

lemma contains_iff: "contains sub s \<longleftrightarrow> (\<exists>us vs. s = us @ sub @ vs)"
proof (induction s)
  case Nil
  show ?case by auto
next
  case (Cons y ys)
  show ?case (is "?L \<longleftrightarrow> ?R")
  proof
    assume ?L
    then consider "starts_with sub (y # ys)" | "contains sub ys" by auto
    then show ?R
    proof cases
      case 1
      then obtain zs where "y # ys = sub @ zs" by (auto simp: starts_with_iff)
      then have "y # ys = [] @ sub @ zs" by simp
      then show ?thesis by blast
    next
      case 2
      then obtain us vs where "ys = us @ sub @ vs" using Cons.IH by blast
      then have "y # ys = (y # us) @ sub @ vs" by simp
      then show ?thesis by blast
    qed
  next
    assume ?R
    then obtain us vs where eq: "y # ys = us @ sub @ vs" by blast
    show ?L
    proof (cases us)
      case Nil
      with eq have "starts_with sub (y # ys)" by (auto simp: starts_with_iff)
      then show ?thesis by simp
    next
      case (Cons u us')
      with eq have "ys = us' @ sub @ vs" by simp
      then show ?thesis using Cons.IH by auto
    qed
  qed
qed

text \<open>
  \<open>str.lower()\<close>. Besides ASCII, the only code points whose lower case reaches the ASCII range are
  U+0130 and U+212A; every other cased letter maps outside ASCII and outside Hangul, so leaving it
  unchanged cannot make or break a match with an ASCII or Hangul keyword, the only use the modelled
  code makes of it.
\<close>

definition lower_cp :: "nat \<Rightarrow> ustr" where
  "lower_cp c =
     (if 65 \<le> c \<and> c \<le> 90 then [c + 32]
      else if c = 304 then [105, 775]
      else if c = 8490 then [107]
      else [c])"

definition lower :: "ustr \<Rightarrow> ustr" where
  "lower t = concat (map lower_cp t)"

lemma lower_append: "lower (s @ t) = lower s @ lower t"
  by (simp add: lower_def)

lemma contains_lower: "contains k t \<Longrightarrow> contains (lower k) (lower t)"
  unfolding contains_iff by (metis lower_append)

text \<open>\<open>sep.join(parts)\<close>.\<close>

fun join :: "'a list \<Rightarrow> 'a list list \<Rightarrow> 'a list" where
  "join sep [] = []"
| "join sep [p] = p"
| "join sep (p # q # ps) = p @ sep @ join sep (q # ps)"

lemma join_Cons: "ps \<noteq> [] \<Longrightarrow> join sep (p # ps) = p @ sep @ join sep ps"
  by (cases ps) simp_all

text \<open>A separator that does not occur in the first piece determines it.\<close>

lemma append_sep_inject:
  assumes "c \<notin> set a" and "c \<notin> set b" and "a @ c # x = b @ c # y"
  shows "a = b \<and> x = y"
  using assms
proof (induction a arbitrary: b)
  case Nil
  then show ?case by (cases b) auto
next
  case (Cons u a)
  then obtain b' where "b = u # b'" by (cases b) auto
  with Cons show ?case by auto
qed

text \<open>
  \<open>s.split(c)\<close> for a one-character separator: always at least one piece, and the pieces joined
  again give the string back.
\<close>

fun split_on :: "'a \<Rightarrow> 'a list \<Rightarrow> 'a list list" where
  "split_on c [] = [[]]"
| "split_on c (x # xs) =
     (if x = c then [] # split_on c xs
      else (case split_on c xs of [] \<Rightarrow> [[x]] | p # ps \<Rightarrow> (x # p) # ps))"

lemma split_on_nonempty [simp]: "split_on c xs \<noteq> []"
  by (induction xs) (auto split: list.splits)

lemma join_split_on: "join [c] (split_on c xs) = xs"
proof (induction xs)
  case Nil
  show ?case by simp
next
  case (Cons x xs)
  obtain p ps where pps: "split_on c xs = p # ps"
    by (metis split_on_nonempty neq_Nil_conv)
  show ?case
  proof (cases "x = c")
    case True
    with Cons pps show ?thesis by simp
  next
    case False
    with Cons pps show ?thesis by (cases ps) auto
  qed
qed

section \<open>Python dictionaries\<close>

text \<open>
  A \<open>dict\<close> keeps insertion order: assigning an existing key keeps its place, a new key goes last.
\<close>

fun dict_set :: "'k \<Rightarrow> 'v \<Rightarrow> ('k \<times> 'v) list \<Rightarrow> ('k \<times> 'v) list" where
  "dict_set k v [] = [(k, v)]"
| "dict_set k v ((k', v') # d) = (if k' = k then (k, v) # d else (k', v') # dict_set k v d)"

definition dict_pop :: "'k \<Rightarrow> ('k \<times> 'v) list \<Rightarrow> ('k \<times> 'v) list" where
  "dict_pop k d = filter (\<lambda>p. fst p \<noteq> k) d"

definition dict_update :: "('k \<times> 'v) list \<Rightarrow> ('k \<times> 'v) list \<Rightarrow> ('k \<times> 'v) list" where
  "dict_update d u = fold (\<lambda>(k, v). dict_set k v) u d"

abbreviation dict_get :: "('k \<times> 'v) list \<Rightarrow> 'k \<Rightarrow> 'v option" where
  "dict_get d k \<equiv> map_of d k"

lemma dict_get_set [simp]: "dict_get (dict_set k v d) k' = (if k' = k then Some v else dict_get d k')"
  by (induction d) auto

lemma dict_get_pop [simp]: "dict_get (dict_pop k d) k' = (if k' = k then None else dict_get d k')"
  by (induction d) (auto simp: dict_pop_def)

lemma dict_keys_set: "fst ` set (dict_set k v d) = insert k (fst ` set d)"
proof (induction d)
  case Nil
  show ?case by simp
next
  case (Cons p d)
  then show ?case by (cases p) (simp add: insert_commute)
qed

lemma dict_set_distinct: "distinct (map fst d) \<Longrightarrow> distinct (map fst (dict_set k v d))"
proof (induction d)
  case Nil
  show ?case by simp
next
  case (Cons p d)
  then show ?case
    using dict_keys_set [of k v d] by (cases p) auto
qed

lemma dict_get_update:
  "distinct (map fst u) \<Longrightarrow>
   dict_get (dict_update d u) k = (case dict_get u k of Some v \<Rightarrow> Some v | None \<Rightarrow> dict_get d k)"
proof (induction u arbitrary: d)
  case Nil
  show ?case by (simp add: dict_update_def)
next
  case (Cons p u)
  obtain k0 v0 where p: "p = (k0, v0)" by (cases p)
  have "dict_get (dict_update d (p # u)) k = dict_get (dict_update (dict_set k0 v0 d) u) k"
    by (simp add: dict_update_def p)
  also have "\<dots> = (case dict_get u k of Some v \<Rightarrow> Some v | None \<Rightarrow> dict_get (dict_set k0 v0 d) k)"
    using Cons by (simp add: p)
  finally have "dict_get (dict_update d (p # u)) k =
    (case dict_get u k of Some v \<Rightarrow> Some v | None \<Rightarrow> dict_get (dict_set k0 v0 d) k)" .
  moreover have "dict_get u k0 = None"
    using Cons.prems by (simp add: p map_of_eq_None_iff)
  ultimately show ?case
    by (simp add: p split: option.splits)
qed

text \<open>Building a dictionary from pairs: the last value given for a key wins.\<close>

lemma dict_get_update_last:
  "dict_get (dict_update d u) k = (case map_of (rev u) k of Some v \<Rightarrow> Some v | None \<Rightarrow> dict_get d k)"
proof (induction u arbitrary: d)
  case Nil
  show ?case by (simp add: dict_update_def)
next
  case (Cons p u)
  obtain k0 v0 where p: "p = (k0, v0)" by (cases p)
  have "dict_get (dict_update d (p # u)) k = dict_get (dict_update (dict_set k0 v0 d) u) k"
    by (simp add: dict_update_def p)
  then show ?case unfolding Cons.IH by (auto simp: p map_of_append map_add_def split: option.split)
qed

section \<open>Interfaces\<close>

text \<open>A walk along an edge relation, as the list of the states entered.\<close>

fun walk :: "('s \<Rightarrow> 's \<Rightarrow> bool) \<Rightarrow> 's \<Rightarrow> 's list \<Rightarrow> bool" where
  "walk E s [] = True"
| "walk E s (t # ts) = (E s t \<and> walk E t ts)"

lemma walk_append: "walk E s (ts @ us) \<longleftrightarrow> walk E s ts \<and> walk E (last (s # ts)) us"
  by (induction ts arbitrary: s) auto

text \<open>
  If every edge into \<open>g\<close> leaves from \<open>via\<close>, a walk that ends in \<open>g\<close> visits \<open>via\<close> just before.
\<close>

lemma walk_must_visit:
  assumes "\<And>a. E a g \<Longrightarrow> a = via" and "walk E s ts" and "ts \<noteq> []" and "last ts = g"
  shows "last (s # butlast ts) = via"
proof -
  obtain us where ts: "ts = us @ [g]"
    using assms(3,4) append_butlast_last_id by metis
  with assms(2) have "E (last (s # us)) g"
    by (simp add: walk_append del: last.simps)
  with assms(1) ts show ?thesis by simp
qed

locale guarded_machine =
  fixes st :: "'m \<Rightarrow> 's"
    and edge :: "'s \<Rightarrow> 's \<Rightarrow> bool"
    and fire :: "'s \<Rightarrow> 'm \<Rightarrow> 'm option"
  assumes fire_allowed: "edge (st m) s \<Longrightarrow> \<exists>m'. fire s m = Some m' \<and> st m' = s"
    and fire_refused: "\<not> edge (st m) s \<Longrightarrow> fire s m = None"
begin

fun fire_all :: "'s list \<Rightarrow> 'm \<Rightarrow> 'm option" where
  "fire_all [] m = Some m"
| "fire_all (s # ss) m = (case fire s m of None \<Rightarrow> None | Some m' \<Rightarrow> fire_all ss m')"

lemma fire_state: "fire s m = Some m' \<Longrightarrow> edge (st m) s \<and> st m' = s"
  by (metis fire_allowed fire_refused option.distinct(1) option.inject)

text \<open>A sequence of moves is accepted exactly when it is a walk of the edge relation.\<close>

lemma fire_all_iff_walk: "(\<exists>m'. fire_all ss m = Some m') \<longleftrightarrow> walk edge (st m) ss"
proof (induction ss arbitrary: m)
  case Nil
  show ?case by simp
next
  case (Cons s ss)
  show ?case
  proof (cases "fire s m")
    case None
    then have "\<not> edge (st m) s" using fire_allowed by fastforce
    with None show ?thesis by simp
  next
    case (Some m')
    then show ?thesis using fire_state [OF Some] Cons.IH [of m'] by simp
  qed
qed

lemma fire_all_state: "fire_all ss m = Some m' \<Longrightarrow> st m' = last (st m # ss)"
proof (induction ss arbitrary: m)
  case Nil
  then show ?case by simp
next
  case (Cons s ss)
  then obtain m1 where m1: "fire s m = Some m1" and "fire_all ss m1 = Some m'"
    by (cases "fire s m") simp_all
  then have "st m' = last (st m1 # ss)" by (intro Cons.IH)
  with fire_state [OF m1] show ?case by simp
qed

text \<open>A state with no outgoing edge is final: no further move is ever accepted.\<close>

lemma final_absorbing:
  assumes "\<And>s. \<not> edge (st m) s" and "fire_all ss m = Some m'"
  shows "ss = [] \<and> m' = m"
proof (cases ss)
  case Nil
  with assms(2) show ?thesis by simp
next
  case (Cons s ss')
  then show ?thesis using assms(2) fire_refused [OF assms(1)] by simp
qed

end

locale bounded_buffer =
  fixes op :: "'i \<Rightarrow> 'b \<Rightarrow> 'b"
    and size_of :: "'b \<Rightarrow> nat"
    and cap :: "'b \<Rightarrow> nat"
  assumes op_cap: "cap (op i b) = cap b"
    and op_bound: "size_of b \<le> cap b \<Longrightarrow> size_of (op i b) \<le> cap b"
begin

lemma run_cap: "cap (fold op is b) = cap b"
  by (induction "is" arbitrary: b) (simp_all add: op_cap)

lemma run_bound: "size_of b \<le> cap b \<Longrightarrow> size_of (fold op is b) \<le> cap b"
proof (induction "is" arbitrary: b)
  case Nil
  then show ?case by simp
next
  case (Cons i "is")
  then have "size_of (op i b) \<le> cap (op i b)"
    by (simp add: op_cap op_bound)
  then have "size_of (fold op is (op i b)) \<le> cap (op i b)"
    by (rule Cons.IH)
  then show ?case by (simp add: op_cap)
qed

end

text \<open>
  What an effect does to the state, as a preorder: a sequence of effects that each stay within it stays
  within it, whether or not one of them raises.
\<close>

locale effect_frame =
  fixes R :: "'s \<Rightarrow> 's \<Rightarrow> bool"
  assumes frame_refl: "R s s"
    and frame_trans: "R s t \<Longrightarrow> R t u \<Longrightarrow> R s u"
begin

lemma frame_bind:
  assumes "R s (snd m)" and "\<And>a s'. m = (Inr a, s') \<Longrightarrow> R s' (snd (k a s'))"
  shows "R s (snd (io_bind m k))"
proof (cases m)
  case (Pair r s')
  with assms show ?thesis
    by (cases r) (auto intro: frame_trans)
qed

lemma frame_fold:
  assumes "\<And>i s. R s (step i s)"
  shows "R s (fold step is s)"
  by (induction "is" arbitrary: s) (auto intro: frame_refl frame_trans assms)

end

end
