(* ===== verification/Policy_Gate.thy ===== *)
theory Policy_Gate
  imports AgentOE_Prelude
begin

text \<open>
  The policy gate, \<^verbatim>\<open>app/domain/policy_gate.py\<close>: risk levels \<open>G1\<close> to \<open>G5\<close>, one handler per
  level, and the dispatch \<open>evaluate\<close>. The handlers look only at the level and at two flags of the
  session's authentication state; the action and the context are passed on but not read.
\<close>

datatype PolicyLevel = G1 | G2 | G3 | G4 | G5

fun PolicyLevel_value :: "PolicyLevel \<Rightarrow> string" where
  "PolicyLevel_value G1 = ''G1''"
| "PolicyLevel_value G2 = ''G2''"
| "PolicyLevel_value G3 = ''G3''"
| "PolicyLevel_value G4 = ''G4''"
| "PolicyLevel_value G5 = ''G5''"

record PolicyEvaluationResult =
  pe_allowed :: bool
  pe_level :: PolicyLevel
  pe_reason :: string
  pe_required_steps :: "string list"

text \<open>\<open>auth_state and auth_state.get(key)\<close>, as a truth value.\<close>

definition auth_flag :: "string \<Rightarrow> meta option \<Rightarrow> bool" where
  "auth_flag k auth_state =
     (case auth_state of None \<Rightarrow> False
      | Some d \<Rightarrow> (case dict_get d k of None \<Rightarrow> False | Some v \<Rightarrow> truthy v))"

definition handle_g1 :: "string \<Rightarrow> meta \<Rightarrow> meta option \<Rightarrow> PolicyEvaluationResult" where
  "handle_g1 action context auth_state =
     \<lparr>pe_allowed = True, pe_level = G1, pe_reason = ''G1_PASS'', pe_required_steps = []\<rparr>"

definition handle_g2 :: "string \<Rightarrow> meta \<Rightarrow> meta option \<Rightarrow> PolicyEvaluationResult" where
  "handle_g2 action context auth_state =
     \<lparr>pe_allowed = True, pe_level = G2, pe_reason = ''G2_LOG_REQUIRED'',
      pe_required_steps = [''audit_log'']\<rparr>"

definition handle_g3 :: "string \<Rightarrow> meta \<Rightarrow> meta option \<Rightarrow> PolicyEvaluationResult" where
  "handle_g3 action context auth_state =
     (if auth_flag ''sms_verified'' auth_state
      then \<lparr>pe_allowed = True, pe_level = G3, pe_reason = ''G3_AUTH_VERIFIED'', pe_required_steps = []\<rparr>
      else \<lparr>pe_allowed = False, pe_level = G3, pe_reason = ''AUTH_REQUIRED'',
            pe_required_steps = [''sms_otp'']\<rparr>)"

definition handle_g4 :: "string \<Rightarrow> meta \<Rightarrow> meta option \<Rightarrow> PolicyEvaluationResult" where
  "handle_g4 action context auth_state =
     (if auth_flag ''dual_approved'' auth_state
      then \<lparr>pe_allowed = True, pe_level = G4, pe_reason = ''G4_DUAL_APPROVED'', pe_required_steps = []\<rparr>
      else \<lparr>pe_allowed = False, pe_level = G4, pe_reason = ''DUAL_APPROVAL_REQUIRED'',
            pe_required_steps = [''sms_otp'', ''supervisor_approval'']\<rparr>)"

definition handle_g5 :: "string \<Rightarrow> meta \<Rightarrow> meta option \<Rightarrow> PolicyEvaluationResult" where
  "handle_g5 action context auth_state =
     \<lparr>pe_allowed = False, pe_level = G5, pe_reason = ''LEGALLY_PROHIBITED'', pe_required_steps = []\<rparr>"

fun evaluate ::
  "string \<Rightarrow> PolicyLevel \<Rightarrow> meta \<Rightarrow> meta option \<Rightarrow> PolicyEvaluationResult" where
  "evaluate action G1 context auth_state = handle_g1 action context auth_state"
| "evaluate action G2 context auth_state = handle_g2 action context auth_state"
| "evaluate action G3 context auth_state = handle_g3 action context auth_state"
| "evaluate action G4 context auth_state = handle_g4 action context auth_state"
| "evaluate action G5 context auth_state = handle_g5 action context auth_state"

lemmas handle_defs = handle_g1_def handle_g2_def handle_g3_def handle_g4_def handle_g5_def

text \<open>The decision in one line: which levels pass, given the two flags.\<close>

lemma evaluate_allowed:
  "pe_allowed (evaluate a l c au) \<longleftrightarrow>
     l \<in> {G1, G2} \<or> l = G3 \<and> auth_flag ''sms_verified'' au \<or> l = G4 \<and> auth_flag ''dual_approved'' au"
  by (cases l) (simp_all add: handle_defs)

lemma evaluate_level [simp]: "pe_level (evaluate a l c au) = l"
  by (cases l) (simp_all add: handle_defs)

lemma auth_flag_None [simp]: "\<not> auth_flag k None"
  by (simp add: auth_flag_def)

text \<open>
  The gate decides by level and authentication state alone, for every action and context:
  \<open>G1\<close> and \<open>G2\<close> pass, \<open>G3\<close> passes exactly with SMS verification, \<open>G4\<close> exactly with dual approval,
  \<open>G5\<close> never. The answer carries the level asked for; a refusal the caller can repair names the
  missing steps, a legal prohibition names none; and what passes without authentication passes with
  any.
\<close>

theorem policy_decision:
  "(pe_allowed (evaluate a l c au) \<longleftrightarrow>
      l = G1 \<or> l = G2 \<or> l = G3 \<and> auth_flag ''sms_verified'' au \<or>
      l = G4 \<and> auth_flag ''dual_approved'' au) \<and>
   pe_level (evaluate a l c au) = l \<and>
   (\<not> pe_allowed (evaluate a l c au) \<longrightarrow>
      (pe_required_steps (evaluate a l c au) = [] \<longleftrightarrow> l = G5)) \<and>
   (pe_allowed (evaluate a l c None) \<longrightarrow> pe_allowed (evaluate a l c au))"
  by (cases l) (auto simp: handle_defs)

theorem policy_decision_witness:
  "\<not> pe_allowed (evaluate ''llm_inference'' G4 [] (Some [(''sms_verified'', VBool True)])) \<and>
   pe_required_steps (evaluate ''llm_inference'' G4 [] (Some [(''sms_verified'', VBool True)])) \<noteq> [] \<and>
   pe_allowed (evaluate ''llm_inference'' G2 [] None) \<and>
   pe_allowed (evaluate ''llm_inference'' G2 [] (Some [(''sms_verified'', VBool True)]))"
  using policy_decision [of "''llm_inference''" G4 "[]" "Some [(''sms_verified'', VBool True)]"]
    policy_decision [of "''llm_inference''" G2 "[]" "Some [(''sms_verified'', VBool True)]"]
  by (simp add: auth_flag_def handle_defs)

end
