(* ===== verification/Circuit_Breaker.thy ===== *)
theory Circuit_Breaker
  imports AgentOE_Prelude
begin

text \<open>
  The in-process circuit breaker, \<^verbatim>\<open>app/domain/circuit_breaker.py\<close>: configuration, statistics, the
  admission check, success and failure handling, the context-manager protocol, the manual reset and
  the registry. Each method that holds the lock is one atomic step; calls interleave freely between
  their entry and their exit, which \<open>cb_reachable\<close> captures. Times are milliseconds, so the settings given in
  seconds appear times 1000.
\<close>

section \<open>Data\<close>

datatype CircuitState = CLOSED | OPEN | HALF_OPEN

fun CircuitState_value :: "CircuitState \<Rightarrow> string" where
  "CircuitState_value CLOSED = ''CLOSED''"
| "CircuitState_value OPEN = ''OPEN''"
| "CircuitState_value HALF_OPEN = ''HALF_OPEN''"

text \<open>Exception classes that a configuration can exclude, and \<open>isinstance\<close> on them.\<close>

datatype exc_class = Class_RuntimeError | Class_ValueError | Class_Exception

fun py_isinstance :: "pyexc \<Rightarrow> exc_class \<Rightarrow> bool" where
  "py_isinstance e Class_RuntimeError = (case e of RuntimeError _ \<Rightarrow> True | _ \<Rightarrow> False)"
| "py_isinstance e Class_ValueError = (e = ValueError)"
| "py_isinstance e Class_Exception = is_Exception e"

record CircuitBreakerConfig =
  failure_threshold :: int
  recovery_timeout :: time
  half_open_max_calls :: int
  success_threshold :: int
  excluded_exceptions :: "exc_class list"

record CircuitBreakerStats =
  cb_state :: CircuitState
  failure_count :: int
  success_count :: int
  last_failure_time :: time
  total_calls :: int
  total_failures :: int
  half_open_calls :: int

definition new_stats :: CircuitBreakerStats where
  "new_stats = \<lparr>cb_state = CLOSED, failure_count = 0, success_count = 0, last_failure_time = 0,
                total_calls = 0, total_failures = 0, half_open_calls = 0\<rparr>"

record CircuitBreaker =
  service_name :: string
  cb_config :: CircuitBreakerConfig
  cb_stats :: CircuitBreakerStats

section \<open>Operations\<close>

definition is_excluded :: "CircuitBreakerConfig \<Rightarrow> pyexc \<Rightarrow> bool" where
  "is_excluded cfg e =
     (if excluded_exceptions cfg = [] then False
      else list_ex (py_isinstance e) (excluded_exceptions cfg))"

text \<open>
  \<open>_check_state\<close>: the flag is \<open>True\<close> when the call is admitted and \<open>False\<close> when
  \<open>CircuitBreakerOpenError\<close> is raised. A move from \<open>OPEN\<close> to \<open>HALF_OPEN\<close> made before the raise stays.
\<close>

definition check_state ::
  "CircuitBreakerConfig \<Rightarrow> time \<Rightarrow> CircuitBreakerStats \<Rightarrow> bool \<times> CircuitBreakerStats" where
  "check_state cfg now st =
     (let gate = (\<lambda>st. if cb_state st = HALF_OPEN then
                         (if half_open_calls st \<ge> half_open_max_calls cfg then (False, st)
                          else (True, st\<lparr>half_open_calls := half_open_calls st + 1\<rparr>))
                       else (True, st))
      in if cb_state st = OPEN then
           (if now - last_failure_time st \<ge> recovery_timeout cfg
            then gate (st\<lparr>cb_state := HALF_OPEN, half_open_calls := 0, success_count := 0\<rparr>)
            else (False, st))
         else gate st)"

definition aenter ::
  "CircuitBreakerConfig \<Rightarrow> time \<Rightarrow> CircuitBreakerStats \<Rightarrow> bool \<times> CircuitBreakerStats" where
  "aenter cfg now st =
     (case check_state cfg now st of
        (False, st') \<Rightarrow> (False, st')
      | (True, st') \<Rightarrow> (True, st'\<lparr>total_calls := total_calls st' + 1\<rparr>))"

definition on_success :: "CircuitBreakerConfig \<Rightarrow> CircuitBreakerStats \<Rightarrow> CircuitBreakerStats" where
  "on_success cfg st =
     (let st1 = st\<lparr>failure_count := 0\<rparr>
      in if cb_state st1 = HALF_OPEN then
           (let st2 = st1\<lparr>success_count := success_count st1 + 1\<rparr>
            in if success_count st2 \<ge> success_threshold cfg
               then st2\<lparr>cb_state := CLOSED, success_count := 0, half_open_calls := 0\<rparr>
               else st2)
         else st1)"

definition on_failure ::
  "CircuitBreakerConfig \<Rightarrow> time \<Rightarrow> CircuitBreakerStats \<Rightarrow> CircuitBreakerStats" where
  "on_failure cfg now st =
     (let st1 = st\<lparr>failure_count := failure_count st + 1, total_failures := total_failures st + 1,
                   last_failure_time := now\<rparr>
      in if cb_state st1 = HALF_OPEN then st1\<lparr>cb_state := OPEN, half_open_calls := 0\<rparr>
         else if cb_state st1 = CLOSED \<and> failure_count st1 \<ge> failure_threshold cfg
           then st1\<lparr>cb_state := OPEN\<rparr>
         else st1)"

definition is_open_error :: "pyexc \<Rightarrow> bool" where
  "is_open_error e = (case e of CircuitBreakerOpenError _ \<Rightarrow> True | _ \<Rightarrow> False)"

text \<open>
  \<open>__aexit__\<close>, with the exception the block left with, if any; it never suppresses it. A
  \<open>CancelledError\<close> reaches \<open>__aexit__\<close> like any other exception.
\<close>

definition aexit ::
  "CircuitBreakerConfig \<Rightarrow> time \<Rightarrow> pyexc option \<Rightarrow> CircuitBreakerStats \<Rightarrow> CircuitBreakerStats" where
  "aexit cfg now exc st =
     (case exc of
        None \<Rightarrow> on_success cfg st
      | Some e \<Rightarrow> if \<not> is_open_error e \<and> \<not> is_excluded cfg e then on_failure cfg now st else st)"

text \<open>
  \<open>async with cb: ...\<close> and \<open>call()\<close>: the entry at \<open>t0\<close>, the body with the given outcome, the exit
  at \<open>t1\<close>.
\<close>

definition cb_call ::
  "time \<Rightarrow> time \<Rightarrow> (pyexc + 'a) \<Rightarrow> CircuitBreaker \<Rightarrow> (pyexc + 'a) \<times> CircuitBreaker" where
  "cb_call t0 t1 outcome cb =
     (case aenter (cb_config cb) t0 (cb_stats cb) of
        (False, st) \<Rightarrow> (Inl (CircuitBreakerOpenError (service_name cb)), cb\<lparr>cb_stats := st\<rparr>)
      | (True, st) \<Rightarrow>
          (outcome,
           cb\<lparr>cb_stats := aexit (cb_config cb) t1
                (case outcome of Inl e \<Rightarrow> Some e | Inr _ \<Rightarrow> None) st\<rparr>))"

definition cb_reset :: "CircuitBreakerStats \<Rightarrow> CircuitBreakerStats" where
  "cb_reset st = new_stats"

text \<open>\<open>get_status\<close>; the error rate is kept as the fraction it rounds.\<close>

record cb_status =
  cbs_service :: string
  cbs_state :: string
  cbs_failure_count :: int
  cbs_total_calls :: int
  cbs_total_failures :: int
  cbs_last_failure_time :: time
  cbs_error_rate :: "int \<times> int"

definition get_status :: "CircuitBreaker \<Rightarrow> cb_status" where
  "get_status cb =
     (let s = cb_stats cb
      in \<lparr>cbs_service = service_name cb, cbs_state = CircuitState_value (cb_state s),
          cbs_failure_count = failure_count s, cbs_total_calls = total_calls s,
          cbs_total_failures = total_failures s, cbs_last_failure_time = last_failure_time s,
          cbs_error_rate = (total_failures s, max (total_calls s) 1)\<rparr>)"

section \<open>Registry and service configurations\<close>

type_synonym cb_registry = "(string \<times> CircuitBreaker) list"

definition new_breaker :: "string \<Rightarrow> CircuitBreakerConfig \<Rightarrow> CircuitBreaker" where
  "new_breaker name cfg = \<lparr>service_name = name, cb_config = cfg, cb_stats = new_stats\<rparr>"

definition DEFAULT_CONFIG :: CircuitBreakerConfig where
  "DEFAULT_CONFIG = \<lparr>failure_threshold = 5, recovery_timeout = 30000, half_open_max_calls = 3,
                     success_threshold = 2, excluded_exceptions = []\<rparr>"

definition get_circuit_breaker ::
  "string \<Rightarrow> CircuitBreakerConfig option \<Rightarrow> cb_registry \<Rightarrow> CircuitBreaker \<times> cb_registry" where
  "get_circuit_breaker name config reg =
     (case dict_get reg name of
        Some cb \<Rightarrow> (cb, reg)
      | None \<Rightarrow>
          (let cb = new_breaker name (case config of None \<Rightarrow> DEFAULT_CONFIG | Some c \<Rightarrow> c)
           in (cb, dict_set name cb reg)))"

record cb_settings =
  CB_FAILURE_THRESHOLD :: int
  CB_SUCCESS_THRESHOLD :: int
  CB_STT_RECOVERY_TIMEOUT :: time
  CB_STT_HALF_OPEN_MAX_CALLS :: int
  CB_LLM_RECOVERY_TIMEOUT :: time
  CB_LLM_HALF_OPEN_MAX_CALLS :: int
  CB_TTS_RECOVERY_TIMEOUT :: time
  CB_TTS_HALF_OPEN_MAX_CALLS :: int

definition default_cb_settings :: cb_settings where
  "default_cb_settings =
     \<lparr>CB_FAILURE_THRESHOLD = 5, CB_SUCCESS_THRESHOLD = 2,
      CB_STT_RECOVERY_TIMEOUT = 30000, CB_STT_HALF_OPEN_MAX_CALLS = 3,
      CB_LLM_RECOVERY_TIMEOUT = 30000, CB_LLM_HALF_OPEN_MAX_CALLS = 2,
      CB_TTS_RECOVERY_TIMEOUT = 20000, CB_TTS_HALF_OPEN_MAX_CALLS = 3\<rparr>"

definition make_service_config :: "cb_settings \<Rightarrow> string \<Rightarrow> CircuitBreakerConfig" where
  "make_service_config s key =
     (let common = DEFAULT_CONFIG\<lparr>failure_threshold := CB_FAILURE_THRESHOLD s,
                                  success_threshold := CB_SUCCESS_THRESHOLD s,
                                  excluded_exceptions := [Class_RuntimeError]\<rparr>
      in if key = ''groq-stt'' then
           common\<lparr>recovery_timeout := CB_STT_RECOVERY_TIMEOUT s,
                  half_open_max_calls := CB_STT_HALF_OPEN_MAX_CALLS s\<rparr>
         else if key = ''groq-llm-primary'' \<or> key = ''groq-llm-fallback'' then
           common\<lparr>recovery_timeout := CB_LLM_RECOVERY_TIMEOUT s,
                  half_open_max_calls := CB_LLM_HALF_OPEN_MAX_CALLS s\<rparr>
         else if key = ''google-tts'' then
           common\<lparr>recovery_timeout := CB_TTS_RECOVERY_TIMEOUT s,
                  half_open_max_calls := CB_TTS_HALF_OPEN_MAX_CALLS s\<rparr>
         else common)"

definition get_all_statuses :: "cb_registry \<Rightarrow> cb_status list" where
  "get_all_statuses reg = map (get_status \<circ> snd) reg"

section \<open>Lemmas on single steps\<close>

lemma check_state_CLOSED [cb_simps]: "cb_state st = CLOSED \<Longrightarrow> check_state cfg now st = (True, st)"
  by (simp add: check_state_def)

lemma check_state_OPEN_early [cb_simps]:
  "cb_state st = OPEN \<Longrightarrow> now - last_failure_time st < recovery_timeout cfg \<Longrightarrow>
   check_state cfg now st = (False, st)"
  by (simp add: check_state_def)

lemma check_state_OPEN_late [cb_simps]:
  "cb_state st = OPEN \<Longrightarrow> recovery_timeout cfg \<le> now - last_failure_time st \<Longrightarrow>
   0 < half_open_max_calls cfg \<Longrightarrow>
   check_state cfg now st =
     (True, st\<lparr>cb_state := HALF_OPEN, success_count := 0, half_open_calls := 1\<rparr>)"
  by (cases st) (simp add: check_state_def)

lemma check_state_HALF_full [cb_simps]:
  "cb_state st = HALF_OPEN \<Longrightarrow> half_open_max_calls cfg \<le> half_open_calls st \<Longrightarrow>
   check_state cfg now st = (False, st)"
  by (simp add: check_state_def)

lemma check_state_HALF_free [cb_simps]:
  "cb_state st = HALF_OPEN \<Longrightarrow> half_open_calls st < half_open_max_calls cfg \<Longrightarrow>
   check_state cfg now st = (True, st\<lparr>half_open_calls := half_open_calls st + 1\<rparr>)"
  by (simp add: check_state_def)

section \<open>Interleaved calls\<close>

text \<open>
  The sane configurations: positive thresholds. The invariant ties the counters to the state.
\<close>

definition cfg_ok :: "CircuitBreakerConfig \<Rightarrow> bool" where
  "cfg_ok cfg \<longleftrightarrow> 0 < failure_threshold cfg \<and> 0 < half_open_max_calls cfg \<and> 0 < success_threshold cfg"

definition cb_inv :: "CircuitBreakerConfig \<Rightarrow> CircuitBreakerStats \<Rightarrow> bool" where
  "cb_inv cfg st \<longleftrightarrow>
     0 \<le> failure_count st \<and> failure_count st \<le> total_failures st \<and> 0 \<le> total_calls st \<and>
     (cb_state st = CLOSED \<longrightarrow> failure_count st < failure_threshold cfg) \<and>
     (cb_state st = HALF_OPEN \<longrightarrow>
        0 \<le> success_count st \<and> success_count st < success_threshold cfg \<and>
        0 \<le> half_open_calls st \<and> half_open_calls st \<le> half_open_max_calls cfg)"

lemma cb_inv_new: "cfg_ok cfg \<Longrightarrow> cb_inv cfg new_stats"
  by (simp add: cfg_ok_def cb_inv_def new_stats_def)

lemma cb_inv_check:
  assumes "cfg_ok cfg" and "cb_inv cfg st"
  shows "cb_inv cfg (snd (check_state cfg now st))"
  using assms by (auto simp: check_state_def cb_inv_def cfg_ok_def)

lemma cb_inv_aenter: "cfg_ok cfg \<Longrightarrow> cb_inv cfg st \<Longrightarrow> cb_inv cfg (snd (aenter cfg now st))"
  using cb_inv_check [of cfg st now]
  by (auto simp: aenter_def cb_inv_def split: prod.split bool.split)

lemma cb_inv_on_success: "cfg_ok cfg \<Longrightarrow> cb_inv cfg st \<Longrightarrow> cb_inv cfg (on_success cfg st)"
  by (auto simp: on_success_def cb_inv_def cfg_ok_def Let_def)

lemma cb_inv_on_failure: "cfg_ok cfg \<Longrightarrow> cb_inv cfg st \<Longrightarrow> cb_inv cfg (on_failure cfg now st)"
  by (auto simp: on_failure_def cb_inv_def cfg_ok_def Let_def)

lemma cb_inv_aexit: "cfg_ok cfg \<Longrightarrow> cb_inv cfg st \<Longrightarrow> cb_inv cfg (aexit cfg now exc st)"
  by (auto simp: aexit_def cb_inv_on_success cb_inv_on_failure split: option.split)

text \<open>Any number of calls in flight, entering and leaving in any order, with resets in between.\<close>

inductive cb_reachable :: "CircuitBreakerConfig \<Rightarrow> CircuitBreakerStats \<Rightarrow> nat \<Rightarrow> bool" for cfg where
  init: "cb_reachable cfg new_stats 0"
| admitted: "cb_reachable cfg st n \<Longrightarrow> aenter cfg now st = (True, st') \<Longrightarrow> cb_reachable cfg st' (Suc n)"
| rejected: "cb_reachable cfg st n \<Longrightarrow> aenter cfg now st = (False, st') \<Longrightarrow> cb_reachable cfg st' n"
| leave: "cb_reachable cfg st (Suc n) \<Longrightarrow> cb_reachable cfg (aexit cfg now exc st) n"
| reset: "cb_reachable cfg st n \<Longrightarrow> cb_reachable cfg (cb_reset st) n"

lemma cb_reachable_inv: "cb_reachable cfg st n \<Longrightarrow> cfg_ok cfg \<Longrightarrow> cb_inv cfg st"
proof (induction rule: cb_reachable.induct)
  case (admitted st n now st')
  then show ?case using cb_inv_aenter [of cfg st now] by simp
next
  case (rejected st n now st')
  then show ?case using cb_inv_aenter [of cfg st now] by simp
qed (simp_all add: cb_inv_new cb_inv_aexit cb_reset_def)

text \<open>\<open>n\<close> consecutive failing calls, each entering and leaving before the next.\<close>

fun failing_calls :: "CircuitBreakerConfig \<Rightarrow> (time \<times> time) list \<Rightarrow> pyexc \<Rightarrow> CircuitBreakerStats \<Rightarrow> CircuitBreakerStats" where
  "failing_calls cfg [] e st = st"
| "failing_calls cfg ((t0, t1) # ts) e st =
     failing_calls cfg ts e
       (case aenter cfg t0 st of (False, st') \<Rightarrow> st' | (True, st') \<Rightarrow> aexit cfg t1 (Some e) st')"

definition counts_as_failure :: "CircuitBreakerConfig \<Rightarrow> pyexc \<Rightarrow> bool" where
  "counts_as_failure cfg e \<longleftrightarrow> \<not> is_open_error e \<and> \<not> is_excluded cfg e"

lemma failing_call_CLOSED:
  assumes "cb_state st = CLOSED" and "counts_as_failure cfg e"
  shows "(case aenter cfg t0 st of (False, st') \<Rightarrow> st' | (True, st') \<Rightarrow> aexit cfg t1 (Some e) st') =
     st\<lparr>cb_state := (if failure_count st + 1 \<ge> failure_threshold cfg then OPEN else CLOSED),
        failure_count := failure_count st + 1, last_failure_time := t1,
        total_calls := total_calls st + 1, total_failures := total_failures st + 1\<rparr>"
  using assms
  by (cases st) (simp add: aenter_def aexit_def on_failure_def counts_as_failure_def cb_simps)

lemma failing_calls_below:
  assumes "cb_state st = CLOSED" and "counts_as_failure cfg e"
    and "failure_count st + int (length ts) < failure_threshold cfg"
  shows "cb_state (failing_calls cfg ts e st) = CLOSED \<and>
         failure_count (failing_calls cfg ts e st) = failure_count st + int (length ts)"
  using assms
proof (induction ts arbitrary: st)
  case Nil
  then show ?case by simp
next
  case (Cons t ts)
  obtain t0 t1 where t: "t = (t0, t1)" by (cases t)
  show ?case
    using Cons.prems Cons.IH failing_call_CLOSED [of st cfg e, where ?t0.0 = t0 and ?t1.0 = t1] by (simp add: t)
qed

lemma failing_calls_append:
  "failing_calls cfg (ts @ us) e st = failing_calls cfg us e (failing_calls cfg ts e st)"
  by (induction cfg ts e st rule: failing_calls.induct) simp_all

section \<open>Properties\<close>

text \<open>
  C14. Under any interleaving of calls, exits and resets the counters agree with the state: while
  \<open>CLOSED\<close> the consecutive failures stay below the threshold, while \<open>HALF_OPEN\<close> the probe calls stay
  within their limit and the successes below the closing threshold.
\<close>

theorem breaker_invariant:
  assumes "cb_reachable cfg st n" and "cfg_ok cfg"
  shows "0 \<le> failure_count st \<and> failure_count st \<le> total_failures st \<and> 0 \<le> total_calls st \<and>
     (cb_state st = CLOSED \<longrightarrow> failure_count st < failure_threshold cfg) \<and>
     (cb_state st = HALF_OPEN \<longrightarrow>
        0 \<le> success_count st \<and> success_count st < success_threshold cfg \<and>
        0 \<le> half_open_calls st \<and> half_open_calls st \<le> half_open_max_calls cfg)"
  using cb_reachable_inv [OF assms] by (simp add: cb_inv_def)

abbreviation llm_config :: CircuitBreakerConfig where
  "llm_config \<equiv> make_service_config default_cb_settings ''groq-llm-primary''"

lemma llm_config_simps [simp, cb_simps]:
  "failure_threshold llm_config = 5" "recovery_timeout llm_config = 30000"
  "half_open_max_calls llm_config = 2" "success_threshold llm_config = 2"
  "excluded_exceptions llm_config = [Class_RuntimeError]"
  by (simp_all add: make_service_config_def default_cb_settings_def DEFAULT_CONFIG_def Let_def)

theorem breaker_invariant_witness:
  "cb_reachable llm_config (snd (aenter llm_config 7 new_stats)) 1 \<and> cfg_ok llm_config \<and>
   failure_count (snd (aenter llm_config 7 new_stats)) < failure_threshold llm_config"
proof -
  have e: "aenter llm_config 7 new_stats = (True, snd (aenter llm_config 7 new_stats))"
    by (simp add: aenter_def check_state_def new_stats_def)
  have r: "cb_reachable llm_config (snd (aenter llm_config 7 new_stats)) 1"
    using cb_reachable.admitted [OF cb_reachable.init e] by simp
  have ok: "cfg_ok llm_config" by (simp add: cfg_ok_def)
  have "cb_state (snd (aenter llm_config 7 new_stats)) = CLOSED"
    by (simp add: aenter_def check_state_def new_stats_def)
  then show ?thesis using r ok breaker_invariant [OF r ok] by simp
qed

text \<open>
  C15. The breaker opens exactly at the configured number of consecutive counted failures: after
  fewer failing calls it still admits every call; the call that reaches the threshold opens it, and
  from then on every entry before the recovery timeout is refused without a call being counted.
\<close>

theorem opens_at_threshold:
  assumes "cfg_ok cfg" and "counts_as_failure cfg e" and "int (length ts) + 1 = failure_threshold cfg"
  shows "cb_state (failing_calls cfg ts e new_stats) = CLOSED \<and>
     fst (aenter cfg t0 (failing_calls cfg ts e new_stats)) \<and>
     (let st = failing_calls cfg (ts @ [(t0, t1)]) e new_stats
      in cb_state st = OPEN \<and> last_failure_time st = t1 \<and>
         (\<forall>now. now - t1 < recovery_timeout cfg \<longrightarrow> aenter cfg now st = (False, st)))"
proof -
  let ?s = "failing_calls cfg ts e new_stats"
  have closed: "cb_state ?s = CLOSED" "failure_count ?s = int (length ts)"
    using failing_calls_below [of new_stats cfg e ts] assms by (simp_all add: new_stats_def)
  moreover have "failing_calls cfg (ts @ [(t0, t1)]) e new_stats =
      ?s\<lparr>cb_state := OPEN, failure_count := failure_count ?s + 1, last_failure_time := t1,
         total_calls := total_calls ?s + 1, total_failures := total_failures ?s + 1\<rparr>"
    using failing_call_CLOSED [OF closed(1) assms(2), where ?t0.0 = t0 and ?t1.0 = t1] closed assms(3)
    by (simp add: failing_calls_append)
  ultimately show ?thesis
    by (simp add: aenter_def cb_simps)
qed

theorem opens_at_threshold_witness:
  "let st = failing_calls llm_config [(1,2), (3,4), (5,6), (7,8), (9,10)] (ExternalTimeoutError ''llm'') new_stats
   in cb_state st = OPEN \<and> aenter llm_config 30009 st = (False, st)"
proof -
  have h: "cfg_ok llm_config" "counts_as_failure llm_config (ExternalTimeoutError ''llm'')"
    "int (length [(1,2), (3,4), (5,6), (7,8::time)]) + 1 = failure_threshold llm_config"
    by (simp_all add: cfg_ok_def counts_as_failure_def is_open_error_def is_excluded_def)
  show ?thesis using opens_at_threshold [OF h, of 9 10] by (simp add: Let_def)
qed

fun successful_calls :: "CircuitBreakerConfig \<Rightarrow> time list \<Rightarrow> CircuitBreakerStats \<Rightarrow> CircuitBreakerStats" where
  "successful_calls cfg [] st = st"
| "successful_calls cfg (t # ts) st =
     successful_calls cfg ts
       (case aenter cfg t st of (False, st') \<Rightarrow> st' | (True, st') \<Rightarrow> aexit cfg t None st')"

lemma successful_calls_HALF:
  assumes "cb_state st = HALF_OPEN" and "success_count st = half_open_calls st"
    and "success_count st + int (length ts) = success_threshold cfg" and "ts \<noteq> []"
    and "success_threshold cfg \<le> half_open_max_calls cfg"
  shows "cb_state (successful_calls cfg ts st) = CLOSED \<and>
         failure_count (successful_calls cfg ts st) = 0"
  using assms
proof (induction ts arbitrary: st)
  case Nil
  then show ?case by simp
next
  case (Cons t ts)
  let ?st = "case aenter cfg t st of (False, st') \<Rightarrow> st' | (True, st') \<Rightarrow> aexit cfg t None st'"
  have room: "half_open_calls st < half_open_max_calls cfg"
    using Cons.prems by simp
  show ?case
  proof (cases "ts = []")
    case True
    with Cons.prems room show ?thesis
      by (simp add: aenter_def aexit_def on_success_def cb_simps)
  next
    case False
    then have "success_count st + 1 < success_threshold cfg"
      using Cons.prems by (cases ts) simp_all
    with Cons.prems room have "cb_state ?st = HALF_OPEN" "success_count ?st = half_open_calls ?st"
      "success_count ?st = success_count st + 1"
      by (simp_all add: aenter_def aexit_def on_success_def cb_simps Let_def)
    with Cons.prems False show ?thesis
      using Cons.IH [of ?st] by simp
  qed
qed

text \<open>
  Recovery: once the timeout has passed, the successful probe calls the configuration asks for
  close an open breaker, provided it also admits that many probes; it is then as good as new with no
  failure counted.
\<close>

theorem recovers_after_timeout:
  assumes "cfg_ok cfg" and "success_threshold cfg \<le> half_open_max_calls cfg"
    and "cb_state st = OPEN" and "recovery_timeout cfg \<le> t - last_failure_time st"
    and "int (length ts) + 1 = success_threshold cfg"
  shows "cb_state (successful_calls cfg (t # ts) st) = CLOSED \<and>
         failure_count (successful_calls cfg (t # ts) st) = 0"
proof -
  let ?st = "case aenter cfg t st of (False, st') \<Rightarrow> st' | (True, st') \<Rightarrow> aexit cfg t None st'"
  note enter = check_state_OPEN_late [OF assms(3,4)]
  show ?thesis
  proof (cases ts)
    case Nil
    with assms enter show ?thesis
      by (simp add: aenter_def aexit_def on_success_def cfg_ok_def)
  next
    case (Cons t' ts')
    with assms enter have "cb_state ?st = HALF_OPEN" "success_count ?st = 1" "half_open_calls ?st = 1"
      by (simp_all add: aenter_def aexit_def on_success_def cfg_ok_def)
    with assms Cons show ?thesis
      using successful_calls_HALF [of ?st ts cfg] by simp
  qed
qed

theorem recovers_after_timeout_witness:
  "cb_state (successful_calls llm_config [30010, 30011] (new_stats\<lparr>cb_state := OPEN, last_failure_time := 10\<rparr>)) = CLOSED"
  using recovers_after_timeout [of llm_config "new_stats\<lparr>cb_state := OPEN, last_failure_time := 10\<rparr>" 30010 "[30011]"]
  by (simp add: cfg_ok_def)

definition half_open_jammed :: CircuitBreakerStats where
  "half_open_jammed =
     (let st0 = failing_calls llm_config [(1,2), (3,4), (5,6), (7,8), (9,10)] (ExternalTimeoutError ''llm'') new_stats;
          st1 = aexit llm_config 30011 None (snd (aenter llm_config 30010 st0))
      in aexit llm_config 30013 (Some (RuntimeError [])) (snd (aenter llm_config 30012 st1)))"

text \<open>
  A probe that ends with an excluded exception keeps its half-open slot. When the slots are used up and no call is in flight, the breaker refuses every
  later call at every time: it neither closes nor reopens, and only a manual reset frees it. With
  the deployed LLM settings one successful probe and one \<open>RuntimeError\<close> reach that state.
\<close>

theorem half_open_slots_leak:
  "cb_state half_open_jammed = HALF_OPEN \<and>
   (\<forall>now. aenter llm_config now half_open_jammed = (False, half_open_jammed)) \<and>
   cb_state (cb_reset half_open_jammed) = CLOSED"
proof -
  have jam: "half_open_jammed = \<lparr>cb_state = HALF_OPEN, failure_count = 0, success_count = 1,
      last_failure_time = 10, total_calls = 7, total_failures = 5, half_open_calls = 2\<rparr>"
    by (simp add: half_open_jammed_def aenter_def aexit_def check_state_def on_failure_def
        on_success_def new_stats_def is_open_error_def is_excluded_def Let_def)
  show ?thesis
    unfolding jam by (simp add: aenter_def check_state_def cb_reset_def new_stats_def)
qed

lemma cancelled_counts: "counts_as_failure (make_service_config s key) CancelledError"
  by (simp add: counts_as_failure_def is_open_error_def is_excluded_def make_service_config_def Let_def)

text \<open>
  Cancellation is a failure: a call cancelled inside the breaker leaves through \<open>__aexit__\<close>
  with \<open>CancelledError\<close>, which is neither an open-circuit error nor excluded by any service
  configuration, so it is counted; as many cancelled calls as the threshold open the breaker of a
  healthy service. (The module comment says that cancellations are not counted.)
\<close>

theorem cancelled_calls_open_breaker:
  assumes "cfg_ok (make_service_config s key)"
    and "int (length ts) + 1 = failure_threshold (make_service_config s key)"
  shows "cb_state (failing_calls (make_service_config s key) (ts @ [(t0, t1)]) CancelledError new_stats) = OPEN"
proof -
  let ?cfg = "make_service_config s key" and ?s = "failing_calls (make_service_config s key) ts CancelledError new_stats"
  have "cb_state ?s = CLOSED" "failure_count ?s = int (length ts)"
    using failing_calls_below [of new_stats ?cfg CancelledError ts] assms cancelled_counts
    by (simp_all add: new_stats_def)
  then show ?thesis
    using failing_call_CLOSED [of ?s ?cfg CancelledError, where ?t0.0 = t0 and ?t1.0 = t1] cancelled_counts assms(2)
    by (simp add: failing_calls_append)
qed

theorem cancelled_calls_open_breaker_witness:
  "cb_state (failing_calls llm_config ([(1,2), (3,4), (5,6), (7,8)] @ [(9,10)]) CancelledError new_stats) = OPEN"
  using cancelled_calls_open_breaker [of default_cb_settings "''groq-llm-primary''" "[(1,2), (3,4), (5,6), (7,8)]" 9 10]
  by (simp add: cfg_ok_def)

end
