(* ===== verification/Session_FSM.thy ===== *)
theory Session_FSM
  imports AgentOE_Prelude
begin

text \<open>
  The call session state machine, \<^verbatim>\<open>app/domain/session_fsm.py\<close>: the states and overlay
  events, the transition table, \<open>SessionFSM\<close> with its event history, the snapshot written to
  Redis and MongoDB and the restore path. The main results: every reachable machine's history is a
  legal run that ends in its current state, a snapshot restores the state and the last 50 events,
  \<open>ENDED\<close> is absorbing, and an answer is only ever given after inference.
\<close>

section \<open>States and events\<close>

datatype SessionState =
    IDLE | LISTENING | SPEAKING_DETECTED | PROCESSING | INFERRING | RESPONDING
  | TRANSFER_REQUESTED | TRANSFER_ACCEPTED | TRANSFER_FAILED | ENDED

datatype SessionEventType =
    STATE_CHANGED | CALLBACK_SCHEDULED | TOOL_TIMEOUT | POLICY_BLOCKED
  | KILL_SWITCH_TRIGGERED | VENDOR_DEGRADED | SESSION_RESTORED | TRANSFER_QUEUED

fun SessionState_value :: "SessionState \<Rightarrow> string" where
  "SessionState_value IDLE = ''IDLE''"
| "SessionState_value LISTENING = ''LISTENING''"
| "SessionState_value SPEAKING_DETECTED = ''SPEAKING_DETECTED''"
| "SessionState_value PROCESSING = ''PROCESSING''"
| "SessionState_value INFERRING = ''INFERRING''"
| "SessionState_value RESPONDING = ''RESPONDING''"
| "SessionState_value TRANSFER_REQUESTED = ''TRANSFER_REQUESTED''"
| "SessionState_value TRANSFER_ACCEPTED = ''TRANSFER_ACCEPTED''"
| "SessionState_value TRANSFER_FAILED = ''TRANSFER_FAILED''"
| "SessionState_value ENDED = ''ENDED''"

fun SessionEventType_value :: "SessionEventType \<Rightarrow> string" where
  "SessionEventType_value STATE_CHANGED = ''STATE_CHANGED''"
| "SessionEventType_value CALLBACK_SCHEDULED = ''CALLBACK_SCHEDULED''"
| "SessionEventType_value TOOL_TIMEOUT = ''TOOL_TIMEOUT''"
| "SessionEventType_value POLICY_BLOCKED = ''POLICY_BLOCKED''"
| "SessionEventType_value KILL_SWITCH_TRIGGERED = ''KILL_SWITCH_TRIGGERED''"
| "SessionEventType_value VENDOR_DEGRADED = ''VENDOR_DEGRADED''"
| "SessionEventType_value SESSION_RESTORED = ''SESSION_RESTORED''"
| "SessionEventType_value TRANSFER_QUEUED = ''TRANSFER_QUEUED''"

text \<open>The \<open>StrEnum\<close> constructors \<open>SessionState(s)\<close>, \<open>SessionEventType(s)\<close>: \<open>None\<close> is \<open>ValueError\<close>.\<close>

definition SessionState_of :: "string \<Rightarrow> SessionState option" where
  "SessionState_of s =
     find (\<lambda>st. SessionState_value st = s)
       [IDLE, LISTENING, SPEAKING_DETECTED, PROCESSING, INFERRING, RESPONDING,
        TRANSFER_REQUESTED, TRANSFER_ACCEPTED, TRANSFER_FAILED, ENDED]"

definition SessionEventType_of :: "string \<Rightarrow> SessionEventType option" where
  "SessionEventType_of s =
     find (\<lambda>t. SessionEventType_value t = s)
       [STATE_CHANGED, CALLBACK_SCHEDULED, TOOL_TIMEOUT, POLICY_BLOCKED,
        KILL_SWITCH_TRIGGERED, VENDOR_DEGRADED, SESSION_RESTORED, TRANSFER_QUEUED]"

lemma SessionState_of_value [simp, enum_simps]: "SessionState_of (SessionState_value s) = Some s"
  by (cases s) (simp_all add: SessionState_of_def)

lemma SessionEventType_of_value [simp, enum_simps]:
  "SessionEventType_of (SessionEventType_value t) = Some t"
  by (cases t) (simp_all add: SessionEventType_of_def)

lemma SessionState_value_nonempty [simp, enum_simps]: "SessionState_value s \<noteq> []"
  by (cases s) simp_all

record SessionEvent =
  ev_type :: SessionEventType
  ev_from :: "SessionState option"
  ev_to :: "SessionState option"
  ev_timestamp :: time
  ev_metadata :: meta

record SessionFSM =
  fsm_state :: SessionState
  fsm_events :: "SessionEvent list"

section \<open>Transitions\<close>

fun VALID_TRANSITIONS :: "SessionState \<Rightarrow> SessionState set" where
  "VALID_TRANSITIONS IDLE = {LISTENING, ENDED}"
| "VALID_TRANSITIONS LISTENING = {SPEAKING_DETECTED, IDLE, TRANSFER_REQUESTED, ENDED}"
| "VALID_TRANSITIONS SPEAKING_DETECTED = {PROCESSING, LISTENING, TRANSFER_REQUESTED, ENDED}"
| "VALID_TRANSITIONS PROCESSING = {INFERRING, LISTENING, TRANSFER_REQUESTED, ENDED}"
| "VALID_TRANSITIONS INFERRING = {RESPONDING, LISTENING, TRANSFER_REQUESTED, ENDED}"
| "VALID_TRANSITIONS RESPONDING = {LISTENING, IDLE, TRANSFER_REQUESTED, ENDED}"
| "VALID_TRANSITIONS TRANSFER_REQUESTED = {TRANSFER_ACCEPTED, TRANSFER_FAILED, ENDED}"
| "VALID_TRANSITIONS TRANSFER_ACCEPTED = {ENDED}"
| "VALID_TRANSITIONS TRANSFER_FAILED = {LISTENING, ENDED}"
| "VALID_TRANSITIONS ENDED = {}"

definition new_fsm :: "SessionState \<Rightarrow> SessionFSM" where
  "new_fsm initial_state = \<lparr>fsm_state = initial_state, fsm_events = []\<rparr>"

definition can_transition :: "SessionState \<Rightarrow> SessionFSM \<Rightarrow> bool" where
  "can_transition to f \<longleftrightarrow> to \<in> VALID_TRANSITIONS (fsm_state f)"

definition meta_or_empty :: "meta option \<Rightarrow> meta" where
  "meta_or_empty m = (case m of None \<Rightarrow> [] | Some d \<Rightarrow> d)"

text \<open>On success the previous state is returned with the changed machine.\<close>

definition transition ::
  "time \<Rightarrow> SessionState \<Rightarrow> meta option \<Rightarrow> SessionFSM \<Rightarrow> pyexc + SessionState \<times> SessionFSM" where
  "transition now to metadata f =
     (if \<not> can_transition to f then Inl ValueError
      else let previous = fsm_state f;
               f' = f\<lparr>fsm_state := to\<rparr>;
               e = \<lparr>ev_type = STATE_CHANGED, ev_from = Some previous, ev_to = Some to,
                    ev_timestamp = now, ev_metadata = meta_or_empty metadata\<rparr>
           in Inr (previous, f'\<lparr>fsm_events := fsm_events f' @ [e]\<rparr>))"

definition record_event ::
  "time \<Rightarrow> SessionEventType \<Rightarrow> meta option \<Rightarrow> SessionFSM \<Rightarrow> SessionFSM" where
  "record_event now event_type metadata f =
     f\<lparr>fsm_events := fsm_events f @
        [\<lparr>ev_type = event_type, ev_from = Some (fsm_state f), ev_to = None,
          ev_timestamp = now, ev_metadata = meta_or_empty metadata\<rparr>]\<rparr>"

definition is_transfer_in_progress :: "SessionFSM \<Rightarrow> bool" where
  "is_transfer_in_progress f \<longleftrightarrow> fsm_state f \<in> {TRANSFER_REQUESTED, TRANSFER_ACCEPTED}"

definition is_active :: "SessionFSM \<Rightarrow> bool" where
  "is_active f \<longleftrightarrow> fsm_state f \<noteq> ENDED"

section \<open>Snapshots\<close>

text \<open>
  The JSON snapshot. Keys that the reader looks up with a default, or that raise \<open>KeyError\<close> when
  absent, are options. Timestamps travel as ISO 8601 strings, which \<open>fromisoformat\<close> reads back
  unchanged, so they are kept as clock values.
\<close>

record raw_event =
  raw_event_type :: "string option"
  raw_from :: "string option"
  raw_to :: "string option"
  raw_timestamp :: "time option"
  raw_metadata :: "meta option"

record snapshot =
  snap_state :: "string option"
  snap_events :: "raw_event list option"

definition SNAPSHOT_EVENTS :: nat where
  "SNAPSHOT_EVENTS = 50"

definition event_to_raw :: "SessionEvent \<Rightarrow> raw_event" where
  "event_to_raw e =
     \<lparr>raw_event_type = Some (SessionEventType_value (ev_type e)),
      raw_from = map_option SessionState_value (ev_from e),
      raw_to = map_option SessionState_value (ev_to e),
      raw_timestamp = Some (ev_timestamp e),
      raw_metadata = Some (ev_metadata e)\<rparr>"

definition to_snapshot :: "SessionFSM \<Rightarrow> snapshot" where
  "to_snapshot f =
     \<lparr>snap_state = Some (SessionState_value (fsm_state f)),
      snap_events = Some (map event_to_raw (last_n SNAPSHOT_EVENTS (fsm_events f)))\<rparr>"

text \<open>\<open>SessionState(raw[k]) if raw.get(k) else None\<close>: an absent or empty value gives \<open>None\<close>.\<close>

definition raw_state :: "string option \<Rightarrow> pyexc + SessionState option" where
  "raw_state v =
     (case v of None \<Rightarrow> Inr None
      | Some s \<Rightarrow> if s = [] then Inr None
          else (case SessionState_of s of None \<Rightarrow> Inl ValueError | Some st \<Rightarrow> Inr (Some st)))"

definition event_from_raw :: "raw_event \<Rightarrow> pyexc + SessionEvent" where
  "event_from_raw r =
     (case raw_event_type r of None \<Rightarrow> Inl KeyError
      | Some ty \<Rightarrow> (case SessionEventType_of ty of None \<Rightarrow> Inl ValueError
        | Some et \<Rightarrow> (case raw_state (raw_from r) of Inl e \<Rightarrow> Inl e
          | Inr fs \<Rightarrow> (case raw_state (raw_to r) of Inl e \<Rightarrow> Inl e
            | Inr ts \<Rightarrow> (case raw_timestamp r of None \<Rightarrow> Inl KeyError
              | Some t \<Rightarrow> Inr \<lparr>ev_type = et, ev_from = fs, ev_to = ts, ev_timestamp = t,
                               ev_metadata = meta_or_empty (raw_metadata r)\<rparr>)))))"

fun events_from_raw :: "raw_event list \<Rightarrow> pyexc + SessionEvent list" where
  "events_from_raw [] = Inr []"
| "events_from_raw (r # rs) =
     (case event_from_raw r of Inl e \<Rightarrow> Inl e
      | Inr ev \<Rightarrow> (case events_from_raw rs of Inl e \<Rightarrow> Inl e | Inr evs \<Rightarrow> Inr (ev # evs)))"

definition RESTORED_META :: meta where
  "RESTORED_META = [(''restored_from'', VStr (of_str ''snapshot''))]"

definition from_snapshot :: "time \<Rightarrow> snapshot \<Rightarrow> pyexc + SessionFSM" where
  "from_snapshot now s =
     (case SessionState_of (case snap_state s of None \<Rightarrow> SessionState_value IDLE | Some v \<Rightarrow> v) of
        None \<Rightarrow> Inl ValueError
      | Some st \<Rightarrow>
          (case events_from_raw (case snap_events s of None \<Rightarrow> [] | Some rs \<Rightarrow> rs) of
             Inl e \<Rightarrow> Inl e
           | Inr evs \<Rightarrow> Inr (record_event now SESSION_RESTORED (Some RESTORED_META)
                             ((new_fsm st)\<lparr>fsm_events := evs\<rparr>))))"

section \<open>Characteristic equations\<close>

lemma transition_ok [fsm_simps]:
  "to \<in> VALID_TRANSITIONS (fsm_state f) \<Longrightarrow>
   transition now to md f =
     Inr (fsm_state f,
          \<lparr>fsm_state = to,
           fsm_events = fsm_events f @
             [\<lparr>ev_type = STATE_CHANGED, ev_from = Some (fsm_state f), ev_to = Some to,
               ev_timestamp = now, ev_metadata = meta_or_empty md\<rparr>]\<rparr>)"
  by (cases f) (simp add: transition_def can_transition_def Let_def)

lemma transition_refused [fsm_simps]:
  "to \<notin> VALID_TRANSITIONS (fsm_state f) \<Longrightarrow> transition now to md f = Inl ValueError"
  by (simp add: transition_def can_transition_def)

lemma transition_InrD:
  "transition now to md f = Inr (p, f') \<Longrightarrow>
   to \<in> VALID_TRANSITIONS (fsm_state f) \<and> p = fsm_state f \<and> fsm_state f' = to \<and>
   (\<exists>e. fsm_events f' = fsm_events f @ [e] \<and> ev_type e = STATE_CHANGED \<and>
        ev_from e = Some (fsm_state f) \<and> ev_to e = Some to)"
  by (cases "to \<in> VALID_TRANSITIONS (fsm_state f)") (auto simp: fsm_simps)

lemma record_event_simps [simp, fsm_simps]:
  "fsm_state (record_event now ty md f) = fsm_state f"
  "fsm_events (record_event now ty md f) = fsm_events f @
     [\<lparr>ev_type = ty, ev_from = Some (fsm_state f), ev_to = None,
       ev_timestamp = now, ev_metadata = meta_or_empty md\<rparr>]"
  by (simp_all add: record_event_def)

lemma new_fsm_simps [simp, fsm_simps]:
  "fsm_state (new_fsm s) = s" "fsm_events (new_fsm s) = []"
  by (simp_all add: new_fsm_def)

text \<open>The machine as an instance of the interface its clients use.\<close>

definition fire_fsm :: "SessionState \<Rightarrow> SessionFSM \<Rightarrow> SessionFSM option" where
  "fire_fsm to f = (case transition 0 to None f of Inl _ \<Rightarrow> None | Inr (_, f') \<Rightarrow> Some f')"

interpretation sfsm: guarded_machine fsm_state "\<lambda>a b. b \<in> VALID_TRANSITIONS a" fire_fsm
proof unfold_locales
  fix f :: SessionFSM and s :: SessionState
  assume "s \<in> VALID_TRANSITIONS (fsm_state f)"
  then show "\<exists>f'. fire_fsm s f = Some f' \<and> fsm_state f' = s"
    by (simp add: fire_fsm_def transition_ok)
next
  fix f :: SessionFSM and s :: SessionState
  assume "s \<notin> VALID_TRANSITIONS (fsm_state f)"
  then show "fire_fsm s f = None"
    by (simp add: fire_fsm_def transition_refused)
qed

section \<open>Histories\<close>

text \<open>
  Reading a history as a run: a \<open>STATE_CHANGED\<close> entry moves along an allowed edge from the state
  reached so far, any other entry records that state and leaves it alone.
\<close>

fun replay :: "SessionState \<Rightarrow> SessionEvent list \<Rightarrow> SessionState option" where
  "replay s [] = Some s"
| "replay s (e # es) =
     (if ev_from e \<noteq> Some s then None
      else if ev_type e = STATE_CHANGED then
        (case ev_to e of None \<Rightarrow> None
         | Some t \<Rightarrow> if t \<in> VALID_TRANSITIONS s then replay t es else None)
      else if ev_to e = None then replay s es else None)"

lemma replay_append:
  "replay s (es @ es') = (case replay s es of None \<Rightarrow> None | Some t \<Rightarrow> replay t es')"
  by (induction es arbitrary: s) (auto split: option.splits)

lemma replay_snoc: "replay s es = Some u \<Longrightarrow> replay s (es @ [e]) = replay u [e]"
  by (simp add: replay_append)

lemma replay_suffix: "replay s (es @ es') = Some t \<Longrightarrow> \<exists>u. replay u es' = Some t"
  by (auto simp: replay_append split: option.splits)

definition history_ok :: "SessionFSM \<Rightarrow> bool" where
  "history_ok f \<longleftrightarrow> (\<exists>s. replay s (fsm_events f) = Some (fsm_state f))"

lemma history_ok_new: "history_ok (new_fsm s)"
  by (simp add: history_ok_def)

lemma history_ok_extend:
  assumes "history_ok f" and "fsm_events f' = fsm_events f @ [e]"
    and "replay (fsm_state f) [e] = Some (fsm_state f')"
  shows "history_ok f'"
  using assms unfolding history_ok_def by (metis replay_snoc)

lemma history_ok_transition:
  assumes "history_ok f" and "transition now to md f = Inr (p, f')"
  shows "history_ok f'"
proof -
  from transition_InrD [OF assms(2)] obtain e where
    "fsm_events f' = fsm_events f @ [e]" and "replay (fsm_state f) [e] = Some (fsm_state f')"
    by auto
  with assms(1) show ?thesis by (rule history_ok_extend)
qed

lemma history_ok_record:
  assumes "history_ok f" and "ty \<noteq> STATE_CHANGED"
  shows "history_ok (record_event now ty md f)"
  using assms by (intro history_ok_extend [OF assms(1) record_event_simps(2)]) simp

lemma event_from_to_raw: "event_from_raw (event_to_raw e) = Inr e"
  by (cases e)
     (auto simp: event_from_raw_def event_to_raw_def raw_state_def meta_or_empty_def
           split: option.splits)

lemma events_from_to_raw: "events_from_raw (map event_to_raw es) = Inr es"
  by (induction es) (simp_all add: event_from_to_raw)

lemma from_to_snapshot:
  "from_snapshot now (to_snapshot f) =
     Inr (record_event now SESSION_RESTORED (Some RESTORED_META)
            \<lparr>fsm_state = fsm_state f, fsm_events = last_n SNAPSHOT_EVENTS (fsm_events f)\<rparr>)"
  by (simp add: from_snapshot_def to_snapshot_def events_from_to_raw new_fsm_def)

lemma history_ok_last_n:
  assumes "history_ok f"
  shows "history_ok \<lparr>fsm_state = fsm_state f, fsm_events = last_n n (fsm_events f)\<rparr>"
proof -
  obtain ys where "fsm_events f = ys @ last_n n (fsm_events f)"
    using last_n_suffix by blast
  moreover obtain s where "replay s (fsm_events f) = Some (fsm_state f)"
    using assms by (auto simp: history_ok_def)
  ultimately have "\<exists>u. replay u (last_n n (fsm_events f)) = Some (fsm_state f)"
    by (metis replay_suffix)
  then show ?thesis by (simp add: history_ok_def)
qed

lemma history_ok_restore:
  "history_ok f \<Longrightarrow> from_snapshot now (to_snapshot f) = Inr f' \<Longrightarrow> history_ok f'"
  by (auto simp: from_to_snapshot intro!: history_ok_record history_ok_last_n)

text \<open>The machines a session can hold: started, moved, annotated, or restored from a snapshot.\<close>

inductive fsm_reachable :: "SessionFSM \<Rightarrow> bool" where
  start: "fsm_reachable (new_fsm s)"
| move: "fsm_reachable f \<Longrightarrow> transition now to md f = Inr (p, f') \<Longrightarrow> fsm_reachable f'"
| overlay: "fsm_reachable f \<Longrightarrow> ty \<noteq> STATE_CHANGED \<Longrightarrow> fsm_reachable (record_event now ty md f)"
| restore: "fsm_reachable f \<Longrightarrow> from_snapshot now (to_snapshot f) = Inr f' \<Longrightarrow> fsm_reachable f'"

lemma fsm_reachable_history: "fsm_reachable f \<Longrightarrow> history_ok f"
  by (induction rule: fsm_reachable.induct)
     (blast intro: history_ok_new history_ok_transition history_ok_record history_ok_restore)+

text \<open>
  How a machine may change under any of its clients: an ended session stays ended, and a faithful
  history stays faithful.
\<close>

definition evolves :: "SessionFSM \<Rightarrow> SessionFSM \<Rightarrow> bool" where
  "evolves f f' \<longleftrightarrow>
     (fsm_state f = ENDED \<longrightarrow> fsm_state f' = ENDED) \<and> (history_ok f \<longrightarrow> history_ok f')"

lemma evolves_refl [simp]: "evolves f f"
  by (simp add: evolves_def)

lemma evolves_trans: "evolves f g \<Longrightarrow> evolves g h \<Longrightarrow> evolves f h"
  by (simp add: evolves_def)

lemma evolves_transition: "transition now to md f = Inr (p, f') \<Longrightarrow> evolves f f'"
  using transition_InrD [of now to md f p f'] history_ok_transition [of f now to md p f']
  by (auto simp: evolves_def)

lemma evolves_record: "ty \<noteq> STATE_CHANGED \<Longrightarrow> evolves f (record_event now ty md f)"
  by (simp add: evolves_def history_ok_record)

section \<open>Properties\<close>

text \<open>
  C1. The audit trail is faithful: in every machine a session can hold, the event history, read
  from some starting state, is a run along the transition table that ends in the machine's current
  state. This covers restarts from a snapshot, which keeps only the last 50 events.
\<close>

theorem reachable_history_is_run:
  assumes "fsm_reachable f"
  shows "\<exists>s. replay s (fsm_events f) = Some (fsm_state f)"
  using fsm_reachable_history [OF assms] by (simp add: history_ok_def)

definition demo_fsm :: SessionFSM where
  "demo_fsm = record_event 2 VENDOR_DEGRADED None
     \<lparr>fsm_state = LISTENING,
      fsm_events = [\<lparr>ev_type = STATE_CHANGED, ev_from = Some IDLE, ev_to = Some LISTENING,
                     ev_timestamp = 1, ev_metadata = []\<rparr>]\<rparr>"

lemma demo_fsm_reachable: "fsm_reachable demo_fsm"
  unfolding demo_fsm_def
  by (intro fsm_reachable.overlay fsm_reachable.move [OF fsm_reachable.start [of IDLE],
        of 1 LISTENING None IDLE])
     (simp_all add: fsm_simps meta_or_empty_def)

theorem reachable_history_is_run_witness:
  "\<exists>s. replay s (fsm_events demo_fsm) = Some (fsm_state demo_fsm)"
  by (rule reachable_history_is_run [OF demo_fsm_reachable])

text \<open>
  C2. Reconnect round trip: restoring a machine from its own snapshot never fails; it gives back
  the state and the last 50 events unchanged and adds exactly one \<open>SESSION_RESTORED\<close> entry.
\<close>

theorem snapshot_roundtrip:
  "\<exists>f'. from_snapshot now (to_snapshot f) = Inr f' \<and> fsm_state f' = fsm_state f \<and>
        fsm_events f' = last_n 50 (fsm_events f) @
          [\<lparr>ev_type = SESSION_RESTORED, ev_from = Some (fsm_state f), ev_to = None,
            ev_timestamp = now, ev_metadata = RESTORED_META\<rparr>]"
  by (simp add: from_to_snapshot SNAPSHOT_EVENTS_def meta_or_empty_def)

text \<open>
  A sequence of state changes is accepted exactly when it is a walk of the transition table;
  from \<open>ENDED\<close> only the empty sequence is; and a walk that reaches \<open>RESPONDING\<close> was in
  \<open>INFERRING\<close> immediately before, so no answer is played that inference did not produce.
\<close>

theorem accepted_runs:
  "((\<exists>f'. sfsm.fire_all ss f = Some f') \<longleftrightarrow>
      walk (\<lambda>a b. b \<in> VALID_TRANSITIONS a) (fsm_state f) ss) \<and>
   (\<forall>f'. sfsm.fire_all ss f = Some f' \<longrightarrow>
      (fsm_state f = ENDED \<longrightarrow> ss = [] \<and> f' = f) \<and>
      (ss \<noteq> [] \<and> fsm_state f' = RESPONDING \<longrightarrow> last (fsm_state f # butlast ss) = INFERRING))"
proof (intro conjI allI impI)
  let ?E = "\<lambda>a b. b \<in> VALID_TRANSITIONS a"
  show "(\<exists>f'. sfsm.fire_all ss f = Some f') \<longleftrightarrow> walk ?E (fsm_state f) ss"
    by (rule sfsm.fire_all_iff_walk)
  fix f'
  assume run: "sfsm.fire_all ss f = Some f'"
  { assume "fsm_state f = ENDED"
    then have "\<not> ?E (fsm_state f) s" for s by simp
    from sfsm.final_absorbing [OF this run] show "ss = []" "f' = f" by auto }
  assume "ss \<noteq> [] \<and> fsm_state f' = RESPONDING"
  moreover have "a = INFERRING" if "?E a RESPONDING" for a
    using that by (cases a) auto
  moreover have "walk ?E (fsm_state f) ss"
    using run sfsm.fire_all_iff_walk by blast
  moreover have "fsm_state f' = last (fsm_state f # ss)"
    by (rule sfsm.fire_all_state [OF run])
  ultimately show "last (fsm_state f # butlast ss) = INFERRING"
    by (intro walk_must_visit [where E = ?E and g = RESPONDING]) auto
qed

theorem accepted_runs_witness:
  "(\<exists>f'. sfsm.fire_all [LISTENING, SPEAKING_DETECTED, PROCESSING, INFERRING, RESPONDING]
      (new_fsm IDLE) = Some f' \<and> fsm_state f' = RESPONDING) \<and>
   last (fsm_state (new_fsm IDLE) #
     butlast [LISTENING, SPEAKING_DETECTED, PROCESSING, INFERRING, RESPONDING]) = INFERRING"
proof -
  let ?ss = "[LISTENING, SPEAKING_DETECTED, PROCESSING, INFERRING, RESPONDING]"
  obtain f' where run: "sfsm.fire_all ?ss (new_fsm IDLE) = Some f'"
    using accepted_runs [of ?ss "new_fsm IDLE"] by auto
  have "fsm_state f' = RESPONDING"
    using sfsm.fire_all_state [OF run] by simp
  then show ?thesis using run accepted_runs [of ?ss "new_fsm IDLE"] by auto
qed

end
