(* ===== verification/Session_Repository.thy ===== *)
theory Session_Repository
  imports Session_FSM
begin

text \<open>
  Session persistence: the key builder and the session, lease and state helpers of
  \<^verbatim>\<open>app/core/redis_client.py\<close>, and \<^verbatim>\<open>app/repositories/session_repository.py\<close> on top of them and of
  MongoDB.

  Redis and MongoDB are services outside the repository. They enter as a record \<open>session_db\<close> of the
  commands the code issues, over an abstract state \<open>'w\<close>; what the code relies on is the predicate
  \<open>session_db_laws\<close>, the documented effect of each command. A command fails exactly in the states
  where the service is down (\<open>redis_ok\<close>, \<open>mongo_ok\<close>), and nothing is assumed about when that is.
\<close>

section \<open>Keys\<close>

record redis_settings =
  REDIS_KEY_NAMESPACE :: string
  REDIS_TENANT_SCOPED_KEYS :: bool

definition scoped_key :: "redis_settings \<Rightarrow> string \<Rightarrow> string list \<Rightarrow> string option \<Rightarrow> string" where
  "scoped_key cfg kind parts tenant_id =
     join '':''
       ([REDIS_KEY_NAMESPACE cfg] @
        (case tenant_id of
           None \<Rightarrow> []
         | Some t \<Rightarrow> if t \<noteq> [] \<and> REDIS_TENANT_SCOPED_KEYS cfg then [''t'', t] else []) @
        [kind] @ parts)"

section \<open>Documents\<close>

type_synonym message = "string \<times> ustr"

text \<open>The hot state is a JSON object; every key is optional because writers fill it piecemeal.\<close>

record hot_state =
  hs_status :: "string option"
  hs_snapshot :: "snapshot option"
  hs_history :: "message list option"
  hs_tenant_id :: "string option"
  hs_client_id :: "string option"
  hs_transfer_status :: "string option"

definition empty_hot :: hot_state where
  "empty_hot = \<lparr>hs_status = None, hs_snapshot = None, hs_history = None, hs_tenant_id = None,
                hs_client_id = None, hs_transfer_status = None\<rparr>"

record transfer_info =
  ti_reason :: string
  ti_context_summary :: ustr
  ti_policy_level :: string
  ti_priority :: int
  ti_retry_count :: nat
  ti_requested_at :: time
  ti_status :: string

record session_doc =
  sd_session_id :: string
  sd_tenant_id :: string
  sd_client_id :: string
  sd_status :: string
  sd_snapshot :: snapshot
  sd_history_count :: nat
  sd_transfer_info :: "transfer_info option"
  sd_end_reason :: "string option"
  sd_created_at :: time
  sd_updated_at :: time
  sd_ended_at :: "time option"

record turn_doc =
  td_session_id :: string
  td_turn_index :: nat
  td_user_text :: ustr
  td_ai_text :: ustr
  td_policy_level :: string
  td_latency :: "(string \<times> time) list"
  td_created_at :: time

section \<open>The external services\<close>

record 'w session_db =
  db_redis_settings :: redis_settings
  redis_ok :: "'w \<Rightarrow> bool"
  mongo_ok :: "'w \<Rightarrow> bool"
  r_get_state :: "string \<Rightarrow> 'w \<Rightarrow> hot_state option"
  r_setex_state :: "string \<Rightarrow> nat \<Rightarrow> hot_state \<Rightarrow> 'w \<Rightarrow> 'w"
  r_delete :: "string \<Rightarrow> 'w \<Rightarrow> 'w"
  r_set_nx :: "string \<Rightarrow> nat \<Rightarrow> 'w \<Rightarrow> bool \<times> 'w"
  m_insert_session :: "session_doc \<Rightarrow> 'w \<Rightarrow> bool \<times> 'w"
  m_find_session :: "string \<Rightarrow> 'w \<Rightarrow> session_doc option"
  m_update_session :: "string \<Rightarrow> (session_doc \<Rightarrow> session_doc) \<Rightarrow> 'w \<Rightarrow> bool \<times> 'w"
  m_find_and_update :: "string \<Rightarrow> (session_doc \<Rightarrow> session_doc) \<Rightarrow> 'w \<Rightarrow> session_doc option \<times> 'w"
  m_insert_turn :: "turn_doc \<Rightarrow> 'w \<Rightarrow> 'w"
  m_recent_turns :: "string \<Rightarrow> nat \<Rightarrow> 'w \<Rightarrow> turn_doc list"

text \<open>
  Documented behaviour. \<open>GET\<close> returns the last value \<open>SETEX\<close> stored, \<open>DEL\<close> removes it, commands on
  one key leave the others alone. \<open>insert_one\<close> is refused (flag \<open>False\<close>, \<open>DuplicateKeyError\<close>) when
  the unique index on \<open>session_id\<close> already has the id; \<open>update_one\<close> and \<open>find_one_and_update\<close> change
  the matching document and report whether, or which, one matched. The two services do not touch each
  other's data.
\<close>

definition redis_state_laws :: "'w session_db \<Rightarrow> bool" where
  "redis_state_laws S \<longleftrightarrow>
     (\<forall>k k' ttl h w. r_get_state S k' (r_setex_state S k ttl h w) =
        (if k' = k then Some h else r_get_state S k' w)) \<and>
     (\<forall>k k' w. r_get_state S k' (r_delete S k w) = (if k' = k then None else r_get_state S k' w)) \<and>
     (\<forall>d k w. r_get_state S k (snd (m_insert_session S d w)) = r_get_state S k w) \<and>
     (\<forall>i f k w. r_get_state S k (snd (m_update_session S i f w)) = r_get_state S k w) \<and>
     (\<forall>i f k w. r_get_state S k (snd (m_find_and_update S i f w)) = r_get_state S k w) \<and>
     (\<forall>t k w. r_get_state S k (m_insert_turn S t w) = r_get_state S k w)"

definition mongo_session_laws :: "'w session_db \<Rightarrow> bool" where
  "mongo_session_laws S \<longleftrightarrow>
     (\<forall>k ttl h i w. m_find_session S i (r_setex_state S k ttl h w) = m_find_session S i w) \<and>
     (\<forall>k i w. m_find_session S i (r_delete S k w) = m_find_session S i w) \<and>
     (\<forall>t i w. m_find_session S i (m_insert_turn S t w) = m_find_session S i w) \<and>
     (\<forall>d w. fst (m_insert_session S d w) \<longleftrightarrow> m_find_session S (sd_session_id d) w = None) \<and>
     (\<forall>d i w. m_find_session S i (snd (m_insert_session S d w)) =
        (if m_find_session S (sd_session_id d) w = None \<and> i = sd_session_id d then Some d
         else m_find_session S i w)) \<and>
     (\<forall>i f w. fst (m_update_session S i f w) \<longleftrightarrow> m_find_session S i w \<noteq> None) \<and>
     (\<forall>i i' f w. m_find_session S i' (snd (m_update_session S i f w)) =
        (if i' = i then map_option f (m_find_session S i w) else m_find_session S i' w)) \<and>
     (\<forall>i f w. fst (m_find_and_update S i f w) = m_find_session S i w) \<and>
     (\<forall>i i' f w. m_find_session S i' (snd (m_find_and_update S i f w)) =
        (if i' = i then map_option f (m_find_session S i w) else m_find_session S i' w))"

definition session_db_laws :: "'w session_db \<Rightarrow> bool" where
  "session_db_laws S \<longleftrightarrow> redis_state_laws S \<and> mongo_session_laws S"

section \<open>Redis helpers\<close>

definition SESSION_TTL :: nat where "SESSION_TTL = 3600"
definition LEASE_TTL :: nat where "LEASE_TTL = 30"

definition session_key :: "'w session_db \<Rightarrow> string \<Rightarrow> string option \<Rightarrow> string" where
  "session_key S session_id tenant_id =
     scoped_key (db_redis_settings S) ''session'' [session_id] tenant_id"

definition lease_key :: "'w session_db \<Rightarrow> string \<Rightarrow> string option \<Rightarrow> string" where
  "lease_key S session_id tenant_id =
     scoped_key (db_redis_settings S) ''lease'' [session_id] tenant_id"

definition set_session_state ::
  "'w session_db \<Rightarrow> string \<Rightarrow> hot_state \<Rightarrow> string option \<Rightarrow> 'w \<Rightarrow> bool \<times> 'w" where
  "set_session_state S session_id state tenant_id w =
     (if redis_ok S w then (True, r_setex_state S (session_key S session_id tenant_id) SESSION_TTL state w)
      else (False, w))"

definition get_session_state :: "'w session_db \<Rightarrow> string \<Rightarrow> string option \<Rightarrow> 'w \<Rightarrow> hot_state option" where
  "get_session_state S session_id tenant_id w =
     (if redis_ok S w then r_get_state S (session_key S session_id tenant_id) w else None)"

definition delete_session_state :: "'w session_db \<Rightarrow> string \<Rightarrow> string option \<Rightarrow> 'w \<Rightarrow> 'w" where
  "delete_session_state S session_id tenant_id w =
     (if redis_ok S w then r_delete S (session_key S session_id tenant_id) w else w)"

definition acquire_lease :: "'w session_db \<Rightarrow> string \<Rightarrow> string option \<Rightarrow> 'w \<Rightarrow> bool \<times> 'w" where
  "acquire_lease S session_id tenant_id w =
     (if redis_ok S w then r_set_nx S (lease_key S session_id tenant_id) LEASE_TTL w else (False, w))"

definition release_lease :: "'w session_db \<Rightarrow> string \<Rightarrow> string option \<Rightarrow> 'w \<Rightarrow> 'w" where
  "release_lease S session_id tenant_id w =
     (if redis_ok S w then r_delete S (lease_key S session_id tenant_id) w else w)"

section \<open>SessionRepository\<close>

definition MAX_HISTORY_TURNS :: nat where "MAX_HISTORY_TURNS = 100"
definition REDIS_HISTORY_TURNS :: nat where "REDIS_HISTORY_TURNS = 20"

text \<open>\<open>{"state": "IDLE", "events": []}\<close>.\<close>

definition IDLE_SNAPSHOT :: snapshot where
  "IDLE_SNAPSHOT = \<lparr>snap_state = Some ''IDLE'', snap_events = Some []\<rparr>"

text \<open>The dictionary given to \<open>create\<close>: what is absent is filled by \<open>setdefault\<close>.\<close>

record session_data =
  in_session_id :: string
  in_tenant_id :: string
  in_client_id :: string
  in_status :: "string option"

definition repo_create ::
  "'w session_db \<Rightarrow> time \<Rightarrow> session_data \<Rightarrow> 'w \<Rightarrow> (session_doc, 'w) io" where
  "repo_create S now d w =
     (let doc = \<lparr>sd_session_id = in_session_id d, sd_tenant_id = in_tenant_id d,
                 sd_client_id = in_client_id d,
                 sd_status = (case in_status d of None \<Rightarrow> ''IDLE'' | Some s \<Rightarrow> s),
                 sd_snapshot = IDLE_SNAPSHOT, sd_history_count = 0, sd_transfer_info = None,
                 sd_end_reason = None, sd_created_at = now, sd_updated_at = now, sd_ended_at = None\<rparr>
      in if \<not> mongo_ok S w then (Inl PyMongoError, w)
         else (case m_insert_session S doc w of
             (False, w1) \<Rightarrow> (Inl PyMongoError, w1)
           | (True, w1) \<Rightarrow>
               (Inr doc,
                snd (set_session_state S (sd_session_id doc)
                  \<lparr>hs_status = Some (sd_status doc), hs_snapshot = Some (sd_snapshot doc),
                   hs_history = Some [], hs_tenant_id = Some (sd_tenant_id doc),
                   hs_client_id = Some (sd_client_id doc), hs_transfer_status = None\<rparr> None w1))))"

definition get_by_id :: "'w session_db \<Rightarrow> string \<Rightarrow> 'w \<Rightarrow> pyexc + session_doc" where
  "get_by_id S session_id w =
     (if \<not> mongo_ok S w then Inl PyMongoError
      else (case m_find_session S session_id w of
          None \<Rightarrow> Inl (SessionNotFoundError session_id)
        | Some d \<Rightarrow> Inr d))"

text \<open>\<open>get_recent_history\<close>: the newest turns first from MongoDB, reversed, two messages per turn.\<close>

definition turn_messages :: "turn_doc \<Rightarrow> message list" where
  "turn_messages t = [(''user'', td_user_text t), (''assistant'', td_ai_text t)]"

definition get_recent_history :: "'w session_db \<Rightarrow> string \<Rightarrow> nat \<Rightarrow> 'w \<Rightarrow> pyexc + message list" where
  "get_recent_history S session_id limit w =
     (if \<not> mongo_ok S w then Inl PyMongoError
      else Inr (concat (map turn_messages (rev (m_recent_turns S session_id limit w)))))"

definition restore_hot_state ::
  "'w session_db \<Rightarrow> string \<Rightarrow> 'w \<Rightarrow> (hot_state option, 'w) io" where
  "restore_hot_state S session_id w =
     (case get_session_state S session_id None w of
        Some hot \<Rightarrow> if hs_status hot = Some ''ENDED'' then (Inr None, w) else (Inr (Some hot), w)
      | None \<Rightarrow>
          (case get_by_id S session_id w of
             Inl (SessionNotFoundError _) \<Rightarrow> (Inr None, w)
           | Inl e \<Rightarrow> (Inl e, w)
           | Inr doc \<Rightarrow>
               if sd_status doc = ''ENDED'' then (Inr None, w)
               else (case get_recent_history S session_id REDIS_HISTORY_TURNS w of
                   Inl e \<Rightarrow> (Inl e, w)
                 | Inr history \<Rightarrow>
                     (let hot = \<lparr>hs_status = Some (sd_status doc), hs_snapshot = Some (sd_snapshot doc),
                                 hs_history = Some history, hs_tenant_id = Some (sd_tenant_id doc),
                                 hs_client_id = Some (sd_client_id doc), hs_transfer_status = None\<rparr>
                      in (Inr (Some hot), snd (set_session_state S session_id hot None w))))))"

definition save_turn ::
  "'w session_db \<Rightarrow> time \<Rightarrow> string \<Rightarrow> SessionFSM \<Rightarrow> ustr \<Rightarrow> ustr \<Rightarrow> (string \<times> time) list \<Rightarrow> string
   \<Rightarrow> 'w \<Rightarrow> (unit, 'w) io" where
  "save_turn S now session_id fsm user_text ai_text latency policy_level w =
     (let snap = to_snapshot fsm in
      if \<not> mongo_ok S w then (Inl PyMongoError, w)
      else (case m_find_and_update S session_id
              (\<lambda>d. d\<lparr>sd_status := SessionState_value (fsm_state fsm), sd_snapshot := snap,
                     sd_updated_at := now, sd_history_count := sd_history_count d + 1\<rparr>) w of
        (before, w1) \<Rightarrow>
          let turn_index = (case before of None \<Rightarrow> 0 | Some d \<Rightarrow> sd_history_count d) in
          if \<not> mongo_ok S w1 then (Inl PyMongoError, w1)
          else
            (let w2 = m_insert_turn S
                   \<lparr>td_session_id = session_id, td_turn_index = turn_index, td_user_text = user_text,
                    td_ai_text = ai_text, td_policy_level = policy_level, td_latency = latency,
                    td_created_at = now\<rparr> w1;
                 hot = (case get_session_state S session_id None w2 of None \<Rightarrow> empty_hot | Some h \<Rightarrow> h);
                 history = (case hs_history hot of None \<Rightarrow> [] | Some hs \<Rightarrow> hs) @
                   [(''user'', user_text), (''assistant'', ai_text)];
                 history' = (if length history > REDIS_HISTORY_TURNS * 2
                             then last_n (REDIS_HISTORY_TURNS * 2) history else history);
                 hot' = hot\<lparr>hs_history := Some history',
                            hs_status := Some (SessionState_value (fsm_state fsm)),
                            hs_snapshot := Some snap\<rparr>
             in (Inr (), snd (set_session_state S session_id hot' None w2)))))"

text \<open>
  \<open>update_state\<close>: the only extra field any caller passes is \<open>transfer_info.status\<close>, a nested field
  in MongoDB and a plain key of the hot state.
\<close>

definition update_state ::
  "'w session_db \<Rightarrow> time \<Rightarrow> string \<Rightarrow> string \<Rightarrow> string option \<Rightarrow> SessionFSM option \<Rightarrow> 'w \<Rightarrow> (unit, 'w) io" where
  "update_state S now session_id state transfer_status fsm w =
     (if \<not> mongo_ok S w then (Inl PyMongoError, w)
      else (case m_update_session S session_id
              (\<lambda>d. let d1 = d\<lparr>sd_status := state, sd_updated_at := now\<rparr>;
                       d2 = (case transfer_status of None \<Rightarrow> d1
                             | Some ts \<Rightarrow> d1\<lparr>sd_transfer_info :=
                                 map_option (\<lambda>ti. ti\<lparr>ti_status := ts\<rparr>) (sd_transfer_info d1)\<rparr>)
                   in (case fsm of None \<Rightarrow> d2 | Some f \<Rightarrow> d2\<lparr>sd_snapshot := to_snapshot f\<rparr>)) w of
        (False, w1) \<Rightarrow> (Inl (SessionNotFoundError session_id), w1)
      | (True, w1) \<Rightarrow>
          (let hot = (case get_session_state S session_id None w1 of None \<Rightarrow> empty_hot | Some h \<Rightarrow> h);
               hot1 = hot\<lparr>hs_status := Some state\<rparr>;
               hot2 = (case fsm of None \<Rightarrow> hot1 | Some f \<Rightarrow> hot1\<lparr>hs_snapshot := Some (to_snapshot f)\<rparr>);
               hot3 = (case transfer_status of None \<Rightarrow> hot2
                       | Some ts \<Rightarrow> hot2\<lparr>hs_transfer_status := Some ts\<rparr>)
           in (Inr (), snd (set_session_state S session_id hot3 None w1)))))"

definition repo_end_session ::
  "'w session_db \<Rightarrow> time \<Rightarrow> string \<Rightarrow> string \<Rightarrow> SessionFSM option \<Rightarrow> 'w \<Rightarrow> (unit, 'w) io" where
  "repo_end_session S now session_id reason fsm w =
     (if \<not> mongo_ok S w then (Inl PyMongoError, w)
      else (case m_update_session S session_id
              (\<lambda>d. let d1 = d\<lparr>sd_status := ''ENDED'', sd_ended_at := Some now, sd_updated_at := now,
                              sd_end_reason := Some reason\<rparr>
                   in (case fsm of None \<Rightarrow> d1 | Some f \<Rightarrow> d1\<lparr>sd_snapshot := to_snapshot f\<rparr>)) w of
        (_, w1) \<Rightarrow> (Inr (), delete_session_state S session_id None w1)))"

definition save_transfer_info ::
  "'w session_db \<Rightarrow> time \<Rightarrow> string \<Rightarrow> transfer_info \<Rightarrow> 'w \<Rightarrow> (unit, 'w) io" where
  "save_transfer_info S now session_id ti w =
     (if \<not> mongo_ok S w then (Inl PyMongoError, w)
      else (Inr (), snd (m_update_session S session_id
              (\<lambda>d. d\<lparr>sd_transfer_info := Some ti, sd_updated_at := now\<rparr>) w)))"

definition acquire_session_lease :: "'w session_db \<Rightarrow> string \<Rightarrow> string option \<Rightarrow> 'w \<Rightarrow> bool \<times> 'w" where
  "acquire_session_lease S session_id tenant_id w = acquire_lease S session_id tenant_id w"

definition release_session_lease :: "'w session_db \<Rightarrow> string \<Rightarrow> string option \<Rightarrow> 'w \<Rightarrow> 'w" where
  "release_session_lease S session_id tenant_id w = release_lease S session_id tenant_id w"

section \<open>Lemmas\<close>

lemma session_key_inject [simp]: "session_key S a None = session_key S b None \<longleftrightarrow> a = b"
  by (simp add: session_key_def scoped_key_def)

text \<open>The laws as rewrite rules.\<close>

lemma redis_state_rules:
  assumes "session_db_laws S"
  shows "r_get_state S k' (r_setex_state S k ttl h w) = (if k' = k then Some h else r_get_state S k' w)"
    and "r_get_state S k' (r_delete S k w) = (if k' = k then None else r_get_state S k' w)"
    and "r_get_state S k (snd (m_insert_session S d w)) = r_get_state S k w"
    and "r_get_state S k (snd (m_update_session S i f w)) = r_get_state S k w"
    and "r_get_state S k (snd (m_find_and_update S i f w)) = r_get_state S k w"
    and "r_get_state S k (m_insert_turn S t w) = r_get_state S k w"
  using assms unfolding session_db_laws_def redis_state_laws_def by simp_all

lemma mongo_session_rules:
  assumes "session_db_laws S"
  shows "m_find_session S i (r_setex_state S k ttl h w) = m_find_session S i w"
    and "m_find_session S i (r_delete S k w) = m_find_session S i w"
    and "m_find_session S i (m_insert_turn S t w) = m_find_session S i w"
    and "fst (m_insert_session S d w) \<longleftrightarrow> m_find_session S (sd_session_id d) w = None"
    and "m_find_session S i (snd (m_insert_session S d w)) =
      (if m_find_session S (sd_session_id d) w = None \<and> i = sd_session_id d then Some d
       else m_find_session S i w)"
    and "fst (m_update_session S i f w) \<longleftrightarrow> m_find_session S i w \<noteq> None"
    and "m_find_session S i' (snd (m_update_session S i f w)) =
      (if i' = i then map_option f (m_find_session S i w) else m_find_session S i' w)"
    and "fst (m_find_and_update S i f w) = m_find_session S i w"
    and "m_find_session S i' (snd (m_find_and_update S i f w)) =
      (if i' = i then map_option f (m_find_session S i w) else m_find_session S i' w)"
  using assms unfolding session_db_laws_def mongo_session_laws_def by simp_all

lemmas session_db_rules = redis_state_rules mongo_session_rules

text \<open>Cache coherence: where both copies of a session exist, they agree.\<close>

fun agree :: "hot_state option \<Rightarrow> session_doc option \<Rightarrow> bool" where
  "agree (Some h) (Some d) \<longleftrightarrow>
     hs_status h = Some (sd_status d) \<and>
     (hs_snapshot h = None \<or> hs_snapshot h = Some (sd_snapshot d))"
| "agree None d = True"
| "agree h None = True"

lemma agree_None [simp]: "agree h None"
  by (cases h) simp_all

definition coherent :: "'w session_db \<Rightarrow> string \<Rightarrow> 'w \<Rightarrow> bool" where
  "coherent S sid w \<longleftrightarrow> agree (r_get_state S (session_key S sid None) w) (m_find_session S sid w)"

definition no_outage :: "'w session_db \<Rightarrow> bool" where
  "no_outage S \<longleftrightarrow> (\<forall>w. redis_ok S w \<and> mongo_ok S w)"

lemmas coherent_simps = coherent_def no_outage_def case_prod_unfold Let_def set_session_state_def
  delete_session_state_def get_session_state_def

lemma coherent_create:
  assumes "session_db_laws S" and "no_outage S" and "coherent S sid w"
  shows "coherent S sid (snd (repo_create S now d w))"
  using assms(2,3)
  by (cases "m_find_session S (in_session_id d) w")
     (simp_all add: repo_create_def coherent_simps session_db_rules [OF assms(1)] split: bool.split)

lemma coherent_restore:
  assumes "session_db_laws S" and "no_outage S" and "coherent S sid w"
  shows "coherent S sid (snd (restore_hot_state S i w))"
proof (cases "r_get_state S (session_key S i None) w")
  case None
  with assms(2,3) show ?thesis
    by (cases "m_find_session S i w")
       (simp_all add: restore_hot_state_def get_by_id_def get_recent_history_def coherent_simps
          session_db_rules [OF assms(1)])
next
  case (Some h)
  with assms(2,3) show ?thesis by (simp add: restore_hot_state_def coherent_simps)
qed

lemma coherent_save_turn:
  assumes "session_db_laws S" and "no_outage S" and "coherent S sid w"
  shows "coherent S sid (snd (save_turn S now i fsm u a l p w))"
  using assms(2,3)
  by (cases "m_find_session S i w")
     (simp_all add: save_turn_def coherent_simps session_db_rules [OF assms(1)])

lemma coherent_update:
  assumes "session_db_laws S" and "no_outage S" and "coherent S sid w"
  shows "coherent S sid (snd (update_state S now i st ts fsm w))"
proof (cases "m_find_session S i w")
  case None
  with assms(2,3) show ?thesis
    by (simp add: update_state_def coherent_simps session_db_rules [OF assms(1)])
next
  case (Some d)
  with assms(2,3) show ?thesis
    by (cases "r_get_state S (session_key S i None) w"; cases fsm; cases ts; cases "i = sid")
       (simp_all add: update_state_def coherent_simps session_db_rules [OF assms(1)] empty_hot_def)
qed

lemma coherent_end:
  assumes "session_db_laws S" and "no_outage S" and "coherent S sid w"
  shows "coherent S sid (snd (repo_end_session S now i reason fsm w))"
  using assms(2,3)
  by (cases "i = sid") (simp_all add: repo_end_session_def coherent_simps session_db_rules [OF assms(1)])

lemma coherent_transfer_info:
  assumes "session_db_laws S" and "no_outage S" and "coherent S sid w"
  shows "coherent S sid (snd (save_transfer_info S now i ti w))"
  using assms(2,3)
  by (cases "r_get_state S (session_key S sid None) w"; cases "m_find_session S i w"; cases "i = sid")
     (simp_all add: save_transfer_info_def coherent_simps session_db_rules [OF assms(1)])

section \<open>A reference store\<close>

text \<open>
  An in-memory store that obeys the laws: it shows that they are consistent and serves as the
  concrete environment of the examples.
\<close>

record mem_store =
  mem_redis_up :: bool
  mem_mongo_up :: bool
  mem_hot :: "string \<Rightarrow> hot_state option"
  mem_leases :: "string list"
  mem_sessions :: "string \<Rightarrow> session_doc option"
  mem_turns :: "turn_doc list"

definition empty_mem :: mem_store where
  "empty_mem = \<lparr>mem_redis_up = True, mem_mongo_up = True, mem_hot = Map.empty, mem_leases = [],
                mem_sessions = Map.empty, mem_turns = []\<rparr>"

definition mem_update :: "string \<Rightarrow> (session_doc \<Rightarrow> session_doc) \<Rightarrow> mem_store \<Rightarrow> mem_store" where
  "mem_update i f w = w\<lparr>mem_sessions := (mem_sessions w)(i := map_option f (mem_sessions w i))\<rparr>"

definition default_redis_settings :: redis_settings where
  "default_redis_settings = \<lparr>REDIS_KEY_NAMESPACE = ''agentoe'', REDIS_TENANT_SCOPED_KEYS = True\<rparr>"

definition mem_db :: "(mem_store \<Rightarrow> bool) \<Rightarrow> (mem_store \<Rightarrow> bool) \<Rightarrow> mem_store session_db" where
  "mem_db up_redis up_mongo =
     \<lparr>db_redis_settings = default_redis_settings,
      redis_ok = up_redis, mongo_ok = up_mongo,
      r_get_state = (\<lambda>k w. mem_hot w k),
      r_setex_state = (\<lambda>k ttl h w. w\<lparr>mem_hot := (mem_hot w)(k \<mapsto> h)\<rparr>),
      r_delete = (\<lambda>k w. w\<lparr>mem_hot := (mem_hot w)(k := None), mem_leases := removeAll k (mem_leases w)\<rparr>),
      r_set_nx = (\<lambda>k ttl w. if k \<in> set (mem_leases w) then (False, w)
                            else (True, w\<lparr>mem_leases := k # mem_leases w\<rparr>)),
      m_insert_session = (\<lambda>d w. if mem_sessions w (sd_session_id d) = None
                                 then (True, w\<lparr>mem_sessions := (mem_sessions w)(sd_session_id d \<mapsto> d)\<rparr>)
                                 else (False, w)),
      m_find_session = (\<lambda>i w. mem_sessions w i),
      m_update_session = (\<lambda>i f w. (mem_sessions w i \<noteq> None, mem_update i f w)),
      m_find_and_update = (\<lambda>i f w. (mem_sessions w i, mem_update i f w)),
      m_insert_turn = (\<lambda>t w. w\<lparr>mem_turns := t # mem_turns w\<rparr>),
      m_recent_turns = (\<lambda>i n w. take n (filter (\<lambda>t. td_session_id t = i) (mem_turns w)))\<rparr>"

abbreviation mem_up :: "mem_store session_db" where
  "mem_up \<equiv> mem_db (\<lambda>_. True) (\<lambda>_. True)"

lemma mem_db_laws: "session_db_laws (mem_db ur um)"
  by (simp add: session_db_laws_def redis_state_laws_def mongo_session_laws_def mem_db_def mem_update_def)

lemma mem_up_no_outage: "no_outage mem_up"
  by (simp add: no_outage_def mem_db_def)

section \<open>Properties\<close>

text \<open>Any sequence of repository calls, on any sessions.\<close>

datatype repo_op =
    RepoCreate time session_data
  | RepoRestore string
  | RepoSaveTurn time string SessionFSM ustr ustr "(string \<times> time) list" string
  | RepoUpdate time string string "string option" "SessionFSM option"
  | RepoEnd time string string "SessionFSM option"
  | RepoTransferInfo time string transfer_info

fun repo_exec :: "'w session_db \<Rightarrow> repo_op \<Rightarrow> 'w \<Rightarrow> 'w" where
  "repo_exec S (RepoCreate now d) w = snd (repo_create S now d w)"
| "repo_exec S (RepoRestore i) w = snd (restore_hot_state S i w)"
| "repo_exec S (RepoSaveTurn now i f u a l p) w = snd (save_turn S now i f u a l p w)"
| "repo_exec S (RepoUpdate now i st ts f) w = snd (update_state S now i st ts f w)"
| "repo_exec S (RepoEnd now i r f) w = snd (repo_end_session S now i r f w)"
| "repo_exec S (RepoTransferInfo now i ti) w = snd (save_transfer_info S now i ti w)"

lemma coherent_exec:
  assumes "session_db_laws S" and "no_outage S" and "coherent S sid w"
  shows "coherent S sid (repo_exec S op w)"
  using assms
  by (cases op)
     (simp_all add: coherent_create coherent_restore coherent_save_turn coherent_update coherent_end
        coherent_transfer_info)

text \<open>
  C11. Write-through keeps the cache coherent: while no store is down, after any sequence of
  repository calls on any sessions, a session that has both a hot state in Redis and a document in
  MongoDB has the same status in both, and the same state-machine snapshot if the hot state holds one.
\<close>

theorem cache_stays_coherent:
  assumes "session_db_laws S" and "no_outage S" and "coherent S sid w"
  shows "coherent S sid (fold (repo_exec S) ops w)"
  using assms(3) by (induction ops arbitrary: w) (simp_all add: coherent_exec assms(1,2))

definition demo_data :: session_data where
  "demo_data = \<lparr>in_session_id = ''s1'', in_tenant_id = ''acme'', in_client_id = ''c1'', in_status = None\<rparr>"

theorem cache_stays_coherent_witness:
  "coherent mem_up ''s1''
     (fold (repo_exec mem_up)
        [RepoCreate 1 demo_data, RepoSaveTurn 2 ''s1'' demo_fsm [] [] [] ''G1'', RepoRestore ''s1'']
        empty_mem)"
  by (rule cache_stays_coherent [OF mem_db_laws mem_up_no_outage])
     (simp add: coherent_def empty_mem_def mem_db_def)

lemma restore_not_ended:
  "restore_hot_state S i w = (Inr (Some h), w') \<Longrightarrow> hs_status h \<noteq> Some ''ENDED''"
  by (auto simp: restore_hot_state_def Let_def split: option.splits sum.splits pyexc.splits if_splits)

text \<open>
  C12. An ended session stays ended: after \<open>end_session\<close> with both stores up, the document says
  \<open>ENDED\<close> with the reason, no hot state is left, and a reconnect finds nothing to restore. More
  generally a reconnect never restores a state marked \<open>ENDED\<close>.
\<close>

theorem ended_session_not_restored:
  assumes "session_db_laws S" and "no_outage S" and "m_find_session S sid w = Some d"
  shows "\<exists>w'. repo_end_session S now sid reason fsm w = (Inr (), w') \<and>
     (\<exists>d'. m_find_session S sid w' = Some d' \<and> sd_status d' = ''ENDED'' \<and> sd_end_reason d' = Some reason) \<and>
     r_get_state S (session_key S sid None) w' = None \<and>
     restore_hot_state S sid w' = (Inr None, w')"
proof -
  let ?w' = "snd (repo_end_session S now sid reason fsm w)"
  have ret: "repo_end_session S now sid reason fsm w = (Inr (), ?w')"
    using assms(2) by (simp add: repo_end_session_def no_outage_def case_prod_unfold)
  have gone: "r_get_state S (session_key S sid None) ?w' = None"
    using assms(2) by (simp add: repo_end_session_def coherent_simps session_db_rules [OF assms(1)])
  have "\<exists>d'. m_find_session S sid ?w' = Some d' \<and> sd_status d' = ''ENDED'' \<and> sd_end_reason d' = Some reason"
    using assms(2,3)
    by (cases fsm) (simp_all add: repo_end_session_def coherent_simps session_db_rules [OF assms(1)])
  then obtain d' where d': "m_find_session S sid ?w' = Some d'" "sd_status d' = ''ENDED''"
    "sd_end_reason d' = Some reason" by blast
  then have "restore_hot_state S sid ?w' = (Inr None, ?w')"
    using assms(2) gone
    by (simp add: restore_hot_state_def get_by_id_def get_session_state_def no_outage_def)
  with ret gone d' show ?thesis by blast
qed

theorem ended_session_not_restored_witness:
  "\<exists>w'. repo_end_session mem_up 5 ''s1'' ''normal'' None (snd (repo_create mem_up 1 demo_data empty_mem)) = (Inr (), w') \<and>
     restore_hot_state mem_up ''s1'' w' = (Inr None, w')"
proof -
  have "\<exists>d. m_find_session mem_up ''s1'' (snd (repo_create mem_up 1 demo_data empty_mem)) = Some d"
    by (simp add: repo_create_def mem_db_def demo_data_def empty_mem_def Let_def set_session_state_def)
  then obtain d where "m_find_session mem_up ''s1'' (snd (repo_create mem_up 1 demo_data empty_mem)) = Some d" ..
  from ended_session_not_restored [OF mem_db_laws mem_up_no_outage this, of 5 "''normal''" None]
  show ?thesis by blast
qed

lemma scoped_key_tenant:
  "REDIS_TENANT_SCOPED_KEYS cfg \<Longrightarrow> t \<noteq> [] \<Longrightarrow>
   scoped_key cfg kind parts (Some t) =
     REDIS_KEY_NAMESPACE cfg @ '':t:'' @ t @ CHR '':'' # join '':'' (kind # parts)"
  by (simp add: scoped_key_def join_Cons)

text \<open>
  Tenant isolation of keys: with tenant scoping on, two different tenants never share a Redis
  key, whatever the kinds and parts, as long as their ids hold no colon.
\<close>

theorem tenant_keys_disjoint:
  assumes "REDIS_TENANT_SCOPED_KEYS cfg" and "t1 \<noteq> []" and "t2 \<noteq> []" and "t1 \<noteq> t2"
    and "CHR '':'' \<notin> set t1" and "CHR '':'' \<notin> set t2"
  shows "scoped_key cfg kind1 parts1 (Some t1) \<noteq> scoped_key cfg kind2 parts2 (Some t2)"
proof
  assume "scoped_key cfg kind1 parts1 (Some t1) = scoped_key cfg kind2 parts2 (Some t2)"
  then have "t1 @ CHR '':'' # join '':'' (kind1 # parts1) = t2 @ CHR '':'' # join '':'' (kind2 # parts2)"
    using assms by (simp add: scoped_key_tenant)
  with append_sep_inject [OF assms(5,6)] assms(4) show False by blast
qed

theorem tenant_keys_disjoint_witness:
  "scoped_key default_redis_settings ''session'' [''s1''] (Some ''acme'') \<noteq>
   scoped_key default_redis_settings ''session'' [''s1''] (Some ''globex'')"
  by (rule tenant_keys_disjoint) (simp_all add: default_redis_settings_def)

end
