(* ===== verification/Transfer_Service.thy ===== *)
theory Transfer_Service
  imports Session_Repository
begin

text \<open>
  Hand-over to a human agent, \<^verbatim>\<open>app/services/transfer_service.py\<close>: the request with its retries, the
  dispatch to the CTI connector, the accepted path and the fallbacks, the keyword test for a
  hand-over wish and the summary given to the agent. The CTI connector is outside the repository: a
  parameter that gives the outcome of each dispatch, \<open>None\<close> when no connector is configured. All
  readings of the clock inside one request are the same value \<open>now\<close>.
\<close>

section \<open>Data\<close>

datatype TransferReason =
  G4_POLICY | G5_POLICY | CUSTOMER_REQUEST | REPEATED_FAILURE | REASON_TOOL_TIMEOUT | MANUAL

fun TransferReason_value :: "TransferReason \<Rightarrow> string" where
  "TransferReason_value G4_POLICY = ''G4_POLICY''"
| "TransferReason_value G5_POLICY = ''G5_POLICY''"
| "TransferReason_value CUSTOMER_REQUEST = ''CUSTOMER_REQUEST''"
| "TransferReason_value REPEATED_FAILURE = ''REPEATED_FAILURE''"
| "TransferReason_value REASON_TOOL_TIMEOUT = ''TOOL_TIMEOUT''"
| "TransferReason_value MANUAL = ''MANUAL''"

definition TransferReason_of :: "string \<Rightarrow> TransferReason option" where
  "TransferReason_of s = find (\<lambda>r. TransferReason_value r = s)
     [G4_POLICY, G5_POLICY, CUSTOMER_REQUEST, REPEATED_FAILURE, REASON_TOOL_TIMEOUT, MANUAL]"

datatype TransferFallback = RETRY | CALLBACK | AI_RESUME

fun TransferFallback_value :: "TransferFallback \<Rightarrow> string" where
  "TransferFallback_value RETRY = ''RETRY''"
| "TransferFallback_value CALLBACK = ''CALLBACK''"
| "TransferFallback_value AI_RESUME = ''AI_RESUME''"

datatype TransferStatus =
  PENDING | ACCEPTED | FAILED | TIMED_OUT | FALLBACK_CALLBACK | FALLBACK_AI_RESUME

fun TransferStatus_value :: "TransferStatus \<Rightarrow> string" where
  "TransferStatus_value PENDING = ''PENDING''"
| "TransferStatus_value ACCEPTED = ''ACCEPTED''"
| "TransferStatus_value FAILED = ''FAILED''"
| "TransferStatus_value TIMED_OUT = ''TIMED_OUT''"
| "TransferStatus_value FALLBACK_CALLBACK = ''FALLBACK_CALLBACK''"
| "TransferStatus_value FALLBACK_AI_RESUME = ''FALLBACK_AI_RESUME''"

definition TransferStatus_of :: "string \<Rightarrow> TransferStatus option" where
  "TransferStatus_of s = find (\<lambda>r. TransferStatus_value r = s)
     [PENDING, ACCEPTED, FAILED, TIMED_OUT, FALLBACK_CALLBACK, FALLBACK_AI_RESUME]"

lemma transfer_enum_roundtrip [simp, enum_simps]:
  "TransferReason_of (TransferReason_value r) = Some r"
  "TransferStatus_of (TransferStatus_value s) = Some s"
  by (cases r; simp add: TransferReason_of_def) (cases s; simp add: TransferStatus_of_def)

record TransferRequest =
  tr_session_id :: string
  tr_tenant_id :: string
  tr_reason :: TransferReason
  tr_context_summary :: ustr
  tr_policy_level :: string
  tr_priority :: int
  tr_requested_at :: time

record TransferResult =
  res_status :: TransferStatus
  res_agent_id :: "ustr option"
  res_agent_name :: "ustr option"
  res_queue_position :: "int option"
  res_fallback_action :: "TransferFallback option"
  res_message :: ustr

definition plain_result :: "TransferStatus \<Rightarrow> ustr \<Rightarrow> TransferResult" where
  "plain_result st msg = \<lparr>res_status = st, res_agent_id = None, res_agent_name = None,
     res_queue_position = None, res_fallback_action = None, res_message = msg\<rparr>"

definition MAX_TRANSFER_RETRIES :: nat where "MAX_TRANSFER_RETRIES = 3"

subsection \<open>Announcements\<close>

text \<open>The fixed Korean sentences, as code points.\<close>

definition MSG_NOT_TRANSFERABLE :: ustr where
  "MSG_NOT_TRANSFERABLE =
     [49464, 49496, 32, 49345, 53468, 47196, 32, 51064, 54644, 32, 51060, 44288, 51060, 32,
     48520, 44032, 45733, 54633, 45768, 45796, 46]"

definition MSG_CTI_TIMEOUT :: ustr where
  "MSG_CTI_TIMEOUT =
     [49345, 45812, 49324, 32, 50672, 44208, 32, 49884, 44036, 51060, 32, 52488, 44284,
     46104, 50632, 49845, 45768, 45796, 46]"

definition MSG_CTI_ERROR :: ustr where
  "MSG_CTI_ERROR =
     [49345, 45812, 49324, 32, 49884, 49828, 53596, 32, 50724, 47448, 44032, 32, 48156,
     49373, 54664, 49845, 45768, 45796, 46]"

definition MSG_MOCK_NO_AGENT :: ustr where
  "MSG_MOCK_NO_AGENT =
     [91, 77, 79, 67, 75, 93, 32, 54788, 51116, 32, 44032, 50857, 32, 49345, 45812, 49324,
     44032, 32, 50630, 49845, 45768, 45796, 46]"

definition MSG_CTI_UNPARSABLE :: ustr where
  "MSG_CTI_UNPARSABLE =
     [67, 84, 73, 32, 51025, 45813, 32, 54028, 49905, 32, 49892, 54056]"

definition MSG_ACCEPTED_PREFIX :: ustr where
  "MSG_ACCEPTED_PREFIX =
     [49345, 45812, 49324, 32]"

definition MSG_ACCEPTED_SUFFIX :: ustr where
  "MSG_ACCEPTED_SUFFIX =
     [45784, 44760, 32, 50672, 44208, 46121, 45768, 45796, 46, 32, 51104, 49884, 47564, 32,
     44592, 45796, 47140, 32, 51452, 49464, 50836, 46]"

definition MSG_CALLBACK :: ustr where
  "MSG_CALLBACK =
     [54788, 51116, 32, 47784, 46304, 32, 49345, 45812, 49324, 44032, 32, 53685, 54868, 32,
     51473, 51077, 45768, 45796, 46, 32, 44256, 44061, 45784, 51032, 32, 50672, 46973,
     52376, 47196, 32, 48736, 47480, 32, 49884, 44036, 32, 45236, 50640, 32, 45796, 49884,
     32, 50672, 46973, 46300, 47532, 44192, 49845, 45768, 45796, 46]"

definition MSG_AI_RESUME :: ustr where
  "MSG_AI_RESUME =
     [54788, 51116, 32, 49345, 45812, 49324, 32, 50672, 44208, 51060, 32, 50612, 47157,
     49845, 45768, 45796, 46, 32, 51228, 44032, 32, 44228, 49549, 32, 46020, 50752, 46300,
     47532, 44192, 49845, 45768, 45796, 46, 32, 50612, 46500, 32, 46020, 50880, 51060, 32,
     54596, 50836, 54616, 49888, 44032, 50836, 63]"

definition MSG_NO_ISSUE :: ustr where
  "MSG_NO_ISSUE =
     [44256, 44061, 32, 47928, 51032, 32, 45236, 50857, 32, 50630, 51020]"

definition LABEL_CUSTOMER :: ustr where
  "LABEL_CUSTOMER =
     [44256, 44061]"

definition LABEL_CURRENT_ISSUE :: ustr where
  "LABEL_CURRENT_ISSUE =
     [54788, 51116, 32, 47928, 51032, 58, 32]"

definition LABEL_RECENT_TURNS :: ustr where
  "LABEL_RECENT_TURNS =
     [10, 10, 52572, 44540, 32, 45824, 54868, 58, 10]"

definition TRANSFER_KEYWORDS :: "ustr list" where
  "TRANSFER_KEYWORDS =
     [[49345, 45812, 49324],
      [45812, 45817, 51088],
      [49324, 46988],
      [51649, 50896],
      [50672, 44208],
      [48148, 45012],
      of_str ''agent'',
      of_str ''human'',
      of_str ''operator'',
      of_str ''representative'',
      [49324, 46988, 51060, 46993],
      [49324, 46988, 44284],
      [51649, 51217],
      [51204, 54868],
      [53685, 54868]]"

section \<open>CTI dispatch\<close>

record cti_response =
  resp_status :: "string option"
  resp_agent_id :: "ustr option"
  resp_agent_name :: "ustr option"
  resp_queue_position :: "int option"
  resp_message :: "ustr option"

text \<open>What \<open>wait_for(cti.transfer(...))\<close> gives: a time-out, an exception, a dictionary, or something else.\<close>

datatype cti_outcome = CtiTimeout | CtiRaises pyexc | CtiDict cti_response | CtiOther

type_synonym cti_connector = "(nat \<Rightarrow> cti_outcome) option"

definition mock_cti_dispatch :: "TransferRequest \<Rightarrow> TransferResult" where
  "mock_cti_dispatch req = plain_result FAILED MSG_MOCK_NO_AGENT"

text \<open>\<open>_parse_cti_response\<close>: an unknown status string raises \<open>ValueError\<close>.\<close>

definition parse_cti_response :: "cti_response \<Rightarrow> pyexc + TransferResult" where
  "parse_cti_response r =
     (case TransferStatus_of (case resp_status r of None \<Rightarrow> ''FAILED'' | Some s \<Rightarrow> s) of
        None \<Rightarrow> Inl ValueError
      | Some st \<Rightarrow> Inr \<lparr>res_status = st, res_agent_id = resp_agent_id r,
                        res_agent_name = resp_agent_name r,
                        res_queue_position = resp_queue_position r, res_fallback_action = None,
                        res_message = (case resp_message r of None \<Rightarrow> [] | Some m \<Rightarrow> m)\<rparr>)"

definition dispatch_to_cti :: "cti_connector \<Rightarrow> nat \<Rightarrow> TransferRequest \<Rightarrow> pyexc + TransferResult" where
  "dispatch_to_cti cti n req =
     (case cti of
        None \<Rightarrow> Inr (mock_cti_dispatch req)
      | Some conn \<Rightarrow>
          (case conn n of
             CtiTimeout \<Rightarrow> Inr (plain_result TIMED_OUT MSG_CTI_TIMEOUT)
           | CtiRaises e \<Rightarrow> if is_Exception e then Inr (plain_result FAILED MSG_CTI_ERROR) else Inl e
           | CtiOther \<Rightarrow> Inr (plain_result FAILED MSG_CTI_UNPARSABLE)
           | CtiDict r \<Rightarrow>
               (case parse_cti_response r of
                  Inl e \<Rightarrow> Inr (plain_result FAILED MSG_CTI_ERROR)
                | Inr res \<Rightarrow> Inr res)))"

section \<open>The request\<close>

text \<open>Machine moves and repository calls on the pair of the session's machine and the stores.\<close>

definition fsm_go ::
  "time \<Rightarrow> SessionState \<Rightarrow> meta option \<Rightarrow> SessionFSM \<times> 'w \<Rightarrow> (unit, SessionFSM \<times> 'w) io" where
  "fsm_go now to md s =
     (case transition now to md (fst s) of Inl e \<Rightarrow> (Inl e, s) | Inr (_, f') \<Rightarrow> (Inr (), (f', snd s)))"

definition in_db :: "('w \<Rightarrow> ('a, 'w) io) \<Rightarrow> SessionFSM \<times> 'w \<Rightarrow> ('a, SessionFSM \<times> 'w) io" where
  "in_db act s = (case act (snd s) of (r, w') \<Rightarrow> (r, (fst s, w')))"

definition agent_label :: "TransferResult \<Rightarrow> ustr" where
  "agent_label r =
     (case res_agent_name r of
        Some n \<Rightarrow> if n \<noteq> [] then n
                  else (case res_agent_id r of None \<Rightarrow> of_str ''None'' | Some i \<Rightarrow> i)
      | None \<Rightarrow> (case res_agent_id r of None \<Rightarrow> of_str ''None'' | Some i \<Rightarrow> i))"

definition opt_val :: "ustr option \<Rightarrow> pyval" where
  "opt_val v = (case v of None \<Rightarrow> VNone | Some t \<Rightarrow> VStr t)"

definition on_transfer_accepted ::
  "'w session_db \<Rightarrow> time \<Rightarrow> string \<Rightarrow> TransferResult \<Rightarrow> SessionFSM \<times> 'w
   \<Rightarrow> (TransferResult, SessionFSM \<times> 'w) io" where
  "on_transfer_accepted S now session_id result s =
     io_bind (fsm_go now TRANSFER_ACCEPTED
         (Some [(''agent_id'', opt_val (res_agent_id result)), (''agent_name'', opt_val (res_agent_name result))]) s)
       (\<lambda>_ s1. io_bind (in_db (update_state S now session_id (SessionState_value TRANSFER_ACCEPTED)
                  (Some (TransferStatus_value ACCEPTED)) (Some (fst s1))) s1)
         (\<lambda>_ s2. (Inr (result\<lparr>res_message := MSG_ACCEPTED_PREFIX @ agent_label result @ MSG_ACCEPTED_SUFFIX\<rparr>), s2)))"

definition handle_callback_fallback ::
  "'w session_db \<Rightarrow> time \<Rightarrow> string \<Rightarrow> TransferResult \<Rightarrow> SessionFSM \<times> 'w
   \<Rightarrow> (TransferResult, SessionFSM \<times> 'w) io" where
  "handle_callback_fallback S now session_id result s =
     (let s1 = (record_event now CALLBACK_SCHEDULED
                  (Some [(''reason'', VStr (of_str ''transfer_fallback''))]) (fst s), snd s)
      in io_bind (in_db (update_state S now session_id (SessionState_value TRANSFER_FAILED)
                    (Some (TransferStatus_value FALLBACK_CALLBACK)) (Some (fst s1))) s1)
           (\<lambda>_ s2. (Inr (result\<lparr>res_status := FALLBACK_CALLBACK, res_fallback_action := Some CALLBACK,
                                res_message := MSG_CALLBACK\<rparr>), s2)))"

definition handle_ai_resume_fallback ::
  "'w session_db \<Rightarrow> time \<Rightarrow> string \<Rightarrow> TransferResult \<Rightarrow> SessionFSM \<times> 'w
   \<Rightarrow> (TransferResult, SessionFSM \<times> 'w) io" where
  "handle_ai_resume_fallback S now session_id result s =
     io_bind (fsm_go now LISTENING (Some [(''reason'', VStr (of_str ''transfer_failed_ai_resume''))]) s)
       (\<lambda>_ s1. io_bind (in_db (update_state S now session_id (SessionState_value LISTENING)
                  (Some (TransferStatus_value FALLBACK_AI_RESUME)) (Some (fst s1))) s1)
         (\<lambda>_ s2. (Inr (result\<lparr>res_status := FALLBACK_AI_RESUME, res_fallback_action := Some AI_RESUME,
                              res_message := MSG_AI_RESUME\<rparr>), s2)))"

text \<open>
  \<open>_on_transfer_failed\<close> once the retries are over. The three fallbacks are all the enumeration has,
  so the source's last \<open>else\<close> branch is unreachable.
\<close>

definition apply_fallback ::
  "'w session_db \<Rightarrow> time \<Rightarrow> string \<Rightarrow> TransferFallback \<Rightarrow> TransferResult \<Rightarrow> SessionFSM \<times> 'w
   \<Rightarrow> (TransferResult, SessionFSM \<times> 'w) io" where
  "apply_fallback S now session_id fallback result s =
     io_bind (fsm_go now TRANSFER_FAILED
         (Some [(''fallback'', VStr (of_str (TransferFallback_value fallback))),
                (''reason'', VStr (of_str (TransferStatus_value (res_status result))))]) s)
       (\<lambda>_ s1. if fallback = AI_RESUME then handle_ai_resume_fallback S now session_id result s1
               else handle_callback_fallback S now session_id result s1)"

text \<open>Steps 1 and 2 of \<open>request\<close> after the machine has moved: record the request, store the state.\<close>

definition persist_request ::
  "'w session_db \<Rightarrow> time \<Rightarrow> TransferRequest \<Rightarrow> nat \<Rightarrow> SessionFSM \<times> 'w \<Rightarrow> (unit, SessionFSM \<times> 'w) io" where
  "persist_request S now req retry_count s =
     io_bind (in_db (save_transfer_info S now (tr_session_id req)
         \<lparr>ti_reason = TransferReason_value (tr_reason req), ti_context_summary = tr_context_summary req,
          ti_policy_level = tr_policy_level req, ti_priority = tr_priority req,
          ti_retry_count = retry_count, ti_requested_at = tr_requested_at req,
          ti_status = TransferStatus_value PENDING\<rparr>) s)
       (\<lambda>_ s1. in_db (update_state S now (tr_session_id req) (SessionState_value TRANSFER_REQUESTED)
                 None (Some (fst s1))) s1)"

definition request_meta :: "TransferRequest \<Rightarrow> nat \<Rightarrow> meta" where
  "request_meta req retry_count =
     [(''reason'', VStr (of_str (TransferReason_value (tr_reason req)))),
      (''priority'', VInt (tr_priority req)), (''retry_count'', VInt (int retry_count))]"

function transfer_request ::
  "'w session_db \<Rightarrow> cti_connector \<Rightarrow> time \<Rightarrow> TransferRequest \<Rightarrow> TransferFallback \<Rightarrow> nat
   \<Rightarrow> SessionFSM \<times> 'w \<Rightarrow> (TransferResult, SessionFSM \<times> 'w) io" where
  "transfer_request S cti now req fallback retry_count s =
     (case fsm_go now TRANSFER_REQUESTED (Some (request_meta req retry_count)) s of
        (Inl _, _) \<Rightarrow> (Inr (plain_result FAILED MSG_NOT_TRANSFERABLE), s)
      | (Inr _, s1) \<Rightarrow>
          io_bind (persist_request S now req retry_count s1)
            (\<lambda>_ s2.
               (case dispatch_to_cti cti retry_count req of
                  Inl e \<Rightarrow> (Inl e, s2)
                | Inr result \<Rightarrow>
                    if res_status result = ACCEPTED
                    then on_transfer_accepted S now (tr_session_id req) result s2
                    else if fallback = RETRY \<and> retry_count < MAX_TRANSFER_RETRIES
                    then io_bind (fsm_go now TRANSFER_FAILED None s2)
                           (\<lambda>_ s3. io_bind (fsm_go now LISTENING None s3)
                             (\<lambda>_ s4. transfer_request S cti now req fallback (retry_count + 1) s4))
                    else apply_fallback S now (tr_session_id req) fallback result s2)))"
  by pat_completeness auto
termination
  by (relation "measure (\<lambda>(S, cti, now, req, fallback, retry_count, s). MAX_TRANSFER_RETRIES - retry_count)")
     auto

declare transfer_request.simps [simp del]

section \<open>Static helpers\<close>

definition detect_transfer_intent :: "ustr \<Rightarrow> bool" where
  "detect_transfer_intent txt = list_ex (\<lambda>kw. contains kw (lower txt)) TRANSFER_KEYWORDS"

definition build_context_summary :: "message list \<Rightarrow> ustr \<Rightarrow> ustr" where
  "build_context_summary history current_issue =
     (if history = [] then (if current_issue \<noteq> [] then current_issue else MSG_NO_ISSUE)
      else
        (let turns = map (\<lambda>(role, content).
                (if role = ''user'' then LABEL_CUSTOMER else of_str ''AI'') @ of_str '': '' @ take 100 content)
              (last_n 10 history);
             summary = join [10] turns
         in if current_issue \<noteq> []
            then LABEL_CURRENT_ISSUE @ current_issue @ LABEL_RECENT_TURNS @ summary
            else summary))"

section \<open>Lemmas\<close>

lemma fsm_go_ok:
  "to \<in> VALID_TRANSITIONS (fsm_state (fst s)) \<Longrightarrow>
   \<exists>f'. fsm_go now to md s = (Inr (), (f', snd s)) \<and> fsm_state f' = to"
  by (simp add: fsm_go_def transition_ok)

lemma fsm_go_refused:
  "to \<notin> VALID_TRANSITIONS (fsm_state (fst s)) \<Longrightarrow> fsm_go now to md s = (Inl ValueError, s)"
  by (simp add: fsm_go_def transition_refused)

text \<open>What the store calls of this component can raise.\<close>

definition repo_error :: "string \<Rightarrow> pyexc \<Rightarrow> bool" where
  "repo_error sid e \<longleftrightarrow> e = PyMongoError \<or> e = SessionNotFoundError sid"

lemma update_state_cases:
  "(\<exists>e w'. update_state S now sid st ts f w = (Inl e, w') \<and> repo_error sid e) \<or>
   (\<exists>w'. update_state S now sid st ts f w = (Inr (), w'))"
  by (auto simp: update_state_def repo_error_def Let_def split: prod.split bool.split)

lemma save_transfer_info_cases:
  "(\<exists>e w'. save_transfer_info S now sid ti w = (Inl e, w') \<and> repo_error sid e) \<or>
   (\<exists>w'. save_transfer_info S now sid ti w = (Inr (), w'))"
  by (auto simp: save_transfer_info_def repo_error_def)

lemma in_db_Inr [simp]: "act (snd s) = (Inr a, w') \<Longrightarrow> in_db act s = (Inr a, (fst s, w'))"
  by (simp add: in_db_def)

lemma in_db_Inl [simp]: "act (snd s) = (Inl e, w') \<Longrightarrow> in_db act s = (Inl e, (fst s, w'))"
  by (simp add: in_db_def)

text \<open>A stored session mirrors a machine when its status and snapshot are the machine's.\<close>

definition mirrors :: "'w session_db \<Rightarrow> string \<Rightarrow> SessionFSM \<times> 'w \<Rightarrow> bool" where
  "mirrors S sid s \<longleftrightarrow>
     (\<exists>d. m_find_session S sid (snd s) = Some d \<and>
          sd_status d = SessionState_value (fsm_state (fst s)) \<and> sd_snapshot d = to_snapshot (fst s))"

lemma update_state_found:
  assumes "session_db_laws S" and "update_state S now sid st ts (Some f) w = (Inr (), w')"
  shows "\<exists>d. m_find_session S sid w' = Some d \<and> sd_status d = st \<and> sd_snapshot d = to_snapshot f"
proof -
  obtain d where d: "m_find_session S sid w = Some d"
    using assms(2) mongo_session_rules(6) [OF assms(1)]
    by (cases "m_find_session S sid w")
       (auto simp: update_state_def case_prod_unfold Let_def split: if_splits bool.splits)
  moreover from this have "fst (m_update_session S sid g w)" for g
    by (simp add: mongo_session_rules [OF assms(1)])
  ultimately show ?thesis
    using assms(2)
    by (auto simp: update_state_def case_prod_unfold Let_def set_session_state_def
        mongo_session_rules [OF assms(1)] split: if_splits option.split)
qed

text \<open>The outcome of a request: what is returned and where it leaves the machine.\<close>

definition transfer_post ::
  "string \<Rightarrow> TransferFallback \<Rightarrow> pyexc + TransferResult \<Rightarrow> SessionFSM \<Rightarrow> bool" where
  "transfer_post sid fallback r f \<longleftrightarrow>
     (case r of
        Inl e \<Rightarrow> repo_error sid e \<or> \<not> is_Exception e
      | Inr res \<Rightarrow>
          res_status res = ACCEPTED \<and> fsm_state f = TRANSFER_ACCEPTED \<or>
          fallback \<noteq> AI_RESUME \<and> res_status res = FALLBACK_CALLBACK \<and> fsm_state f = TRANSFER_FAILED \<and>
            fsm_events f \<noteq> [] \<and> ev_type (last (fsm_events f)) = CALLBACK_SCHEDULED \<or>
          fallback = AI_RESUME \<and> res_status res = FALLBACK_AI_RESUME \<and> fsm_state f = LISTENING)"

definition transfer_ok ::
  "'w session_db \<Rightarrow> string \<Rightarrow> TransferFallback \<Rightarrow> pyexc + TransferResult \<Rightarrow> SessionFSM \<times> 'w \<Rightarrow> bool" where
  "transfer_ok S sid fallback r s \<longleftrightarrow>
     transfer_post sid fallback r (fst s) \<and>
     (\<forall>res. r = Inr res \<longrightarrow> session_db_laws S \<longrightarrow> mirrors S sid s)"

lemma accepted_post:
  assumes "fsm_state (fst s) = TRANSFER_REQUESTED" and "res_status result = ACCEPTED"
    and "on_transfer_accepted S now sid result s = (r, s')"
  shows "transfer_ok S sid fb r s'"
proof -
  obtain f' where go: "fsm_go now TRANSFER_ACCEPTED (Some [(''agent_id'', opt_val (res_agent_id result)),
      (''agent_name'', opt_val (res_agent_name result))]) s = (Inr (), (f', snd s))"
    and f': "fsm_state f' = TRANSFER_ACCEPTED"
    using fsm_go_ok [of TRANSFER_ACCEPTED s] assms(1) by fastforce
  from update_state_cases [of S now sid "''TRANSFER_ACCEPTED''" "Some ''ACCEPTED''" "Some f'" "snd s"]
  show ?thesis
  proof (elim disjE exE conjE)
    fix w' assume up: "update_state S now sid ''TRANSFER_ACCEPTED'' (Some ''ACCEPTED'') (Some f') (snd s) = (Inr (), w')"
    with go assms have "s' = (f', w')" and "\<exists>res. r = Inr res \<and> res_status res = ACCEPTED"
      by (auto simp: on_transfer_accepted_def)
    with f' show ?thesis
      using update_state_found [OF _ up] by (auto simp: transfer_ok_def transfer_post_def mirrors_def)
  next
    fix e w' assume "update_state S now sid ''TRANSFER_ACCEPTED'' (Some ''ACCEPTED'') (Some f') (snd s) = (Inl e, w')"
      and "repo_error sid e"
    with go assms show ?thesis
      by (auto simp: on_transfer_accepted_def transfer_ok_def transfer_post_def)
  qed
qed

lemma callback_post:
  assumes "fsm_state (fst s) = TRANSFER_FAILED" and "fb \<noteq> AI_RESUME"
    and "handle_callback_fallback S now sid result s = (r, s')"
  shows "transfer_ok S sid fb r s'"
proof -
  let ?f = "record_event now CALLBACK_SCHEDULED (Some [(''reason'', VStr (of_str ''transfer_fallback''))]) (fst s)"
  from update_state_cases [of S now sid "''TRANSFER_FAILED''" "Some ''FALLBACK_CALLBACK''" "Some ?f" "snd s"]
  show ?thesis
  proof (elim disjE exE conjE)
    fix w' assume up: "update_state S now sid ''TRANSFER_FAILED'' (Some ''FALLBACK_CALLBACK'') (Some ?f) (snd s) = (Inr (), w')"
    with assms(3) have "s' = (?f, w')" and "\<exists>res. r = Inr res \<and> res_status res = FALLBACK_CALLBACK"
      by (auto simp: handle_callback_fallback_def Let_def)
    with assms(1,2) show ?thesis
      using update_state_found [OF _ up] by (auto simp: transfer_ok_def transfer_post_def mirrors_def)
  next
    fix e w' assume "update_state S now sid ''TRANSFER_FAILED'' (Some ''FALLBACK_CALLBACK'') (Some ?f) (snd s) = (Inl e, w')"
      and "repo_error sid e"
    with assms(3) show ?thesis
      by (auto simp: handle_callback_fallback_def Let_def transfer_ok_def transfer_post_def)
  qed
qed

lemma ai_resume_post:
  assumes "fsm_state (fst s) = TRANSFER_FAILED"
    and "handle_ai_resume_fallback S now sid result s = (r, s')"
  shows "transfer_ok S sid AI_RESUME r s'"
proof -
  obtain f' where go: "fsm_go now LISTENING (Some [(''reason'', VStr (of_str ''transfer_failed_ai_resume''))]) s
      = (Inr (), (f', snd s))" and f': "fsm_state f' = LISTENING"
    using fsm_go_ok [of LISTENING s] assms(1) by fastforce
  from update_state_cases [of S now sid "''LISTENING''" "Some ''FALLBACK_AI_RESUME''" "Some f'" "snd s"]
  show ?thesis
  proof (elim disjE exE conjE)
    fix w' assume up: "update_state S now sid ''LISTENING'' (Some ''FALLBACK_AI_RESUME'') (Some f') (snd s) = (Inr (), w')"
    with go assms(2) have "s' = (f', w')" and "\<exists>res. r = Inr res \<and> res_status res = FALLBACK_AI_RESUME"
      by (auto simp: handle_ai_resume_fallback_def)
    with f' show ?thesis
      using update_state_found [OF _ up] by (auto simp: transfer_ok_def transfer_post_def mirrors_def)
  next
    fix e w' assume "update_state S now sid ''LISTENING'' (Some ''FALLBACK_AI_RESUME'') (Some f') (snd s) = (Inl e, w')"
      and "repo_error sid e"
    with go assms(2) show ?thesis
      by (auto simp: handle_ai_resume_fallback_def transfer_ok_def transfer_post_def)
  qed
qed

lemma fallback_post:
  assumes "fsm_state (fst s) = TRANSFER_REQUESTED"
    and "apply_fallback S now sid fb result s = (r, s')"
  shows "transfer_ok S sid fb r s'"
proof -
  obtain f' where "fsm_go now TRANSFER_FAILED (Some [(''fallback'', VStr (of_str (TransferFallback_value fb))),
      (''reason'', VStr (of_str (TransferStatus_value (res_status result))))]) s = (Inr (), (f', snd s))"
    and "fsm_state f' = TRANSFER_FAILED"
    using fsm_go_ok [of TRANSFER_FAILED s] assms(1) by fastforce
  with assms(2) show ?thesis
    by (cases "fb = AI_RESUME")
       (simp_all add: apply_fallback_def ai_resume_post [where s = "(f', snd s)"]
          callback_post [where s = "(f', snd s)"])
qed

text \<open>The store calls that precede the dispatch.\<close>

lemma persist_request_cases:
  "(\<exists>e w'. persist_request S now req n s = (Inl e, (fst s, w')) \<and> repo_error (tr_session_id req) e) \<or>
   (\<exists>w'. persist_request S now req n s = (Inr (), (fst s, w')))"
proof -
  let ?sid = "tr_session_id req"
  let ?ti = "\<lparr>ti_reason = TransferReason_value (tr_reason req), ti_context_summary = tr_context_summary req,
    ti_policy_level = tr_policy_level req, ti_priority = tr_priority req, ti_retry_count = n,
    ti_requested_at = tr_requested_at req, ti_status = TransferStatus_value PENDING\<rparr>"
  from save_transfer_info_cases [of S now ?sid ?ti "snd s"] show ?thesis
  proof (elim disjE exE conjE)
    fix w1 assume "save_transfer_info S now ?sid ?ti (snd s) = (Inr (), w1)"
    then show ?thesis
      using update_state_cases [of S now ?sid "''TRANSFER_REQUESTED''" None "Some (fst s)" w1]
      by (auto simp: persist_request_def)
  qed (auto simp: persist_request_def)
qed

lemma dispatch_to_cti_raises: "dispatch_to_cti cti n req = Inl e \<Longrightarrow> \<not> is_Exception e"
  by (auto simp: dispatch_to_cti_def split: option.splits cti_outcome.splits if_splits sum.splits)

text \<open>The part of a request after the dispatch, from a machine in \<open>TRANSFER_REQUESTED\<close>.\<close>

definition after_dispatch ::
  "'w session_db \<Rightarrow> cti_connector \<Rightarrow> time \<Rightarrow> TransferRequest \<Rightarrow> TransferFallback \<Rightarrow> nat
   \<Rightarrow> SessionFSM \<times> 'w \<Rightarrow> (TransferResult, SessionFSM \<times> 'w) io" where
  "after_dispatch S cti now req fb n s =
     (case dispatch_to_cti cti n req of
        Inl e \<Rightarrow> (Inl e, s)
      | Inr result \<Rightarrow>
          if res_status result = ACCEPTED then on_transfer_accepted S now (tr_session_id req) result s
          else if fb = RETRY \<and> n < MAX_TRANSFER_RETRIES
          then io_bind (fsm_go now TRANSFER_FAILED None s)
                 (\<lambda>_ s3. io_bind (fsm_go now LISTENING None s3)
                   (\<lambda>_ s4. transfer_request S cti now req fb (n + 1) s4))
          else apply_fallback S now (tr_session_id req) fb result s)"

lemma transfer_request_step:
  assumes "TRANSFER_REQUESTED \<in> VALID_TRANSITIONS (fsm_state (fst s))"
  obtains (stores) f1 e w' where "persist_request S now req n (f1, snd s) = (Inl e, (f1, w'))"
      "transfer_request S cti now req fb n s = (Inl e, (f1, w'))" "repo_error (tr_session_id req) e"
  | (dispatch) f1 w' where "fsm_state f1 = TRANSFER_REQUESTED"
      "persist_request S now req n (f1, snd s) = (Inr (), (f1, w'))"
      "transfer_request S cti now req fb n s = after_dispatch S cti now req fb n (f1, w')"
proof -
  obtain f1 where go: "fsm_go now TRANSFER_REQUESTED (Some (request_meta req n)) s = (Inr (), (f1, snd s))"
    and f1: "fsm_state f1 = TRANSFER_REQUESTED"
    using fsm_go_ok [OF assms] by fastforce
  from persist_request_cases [of S now req n "(f1, snd s)"] show thesis
  proof (elim disjE exE conjE)
    fix e w' assume "persist_request S now req n (f1, snd s) = (Inl e, (fst (f1, snd s), w'))"
      and "repo_error (tr_session_id req) e"
    with go show thesis
      by (intro stores [of f1 e w']) (simp_all add: transfer_request.simps [where s = s])
  next
    fix w' assume "persist_request S now req n (f1, snd s) = (Inr (), (fst (f1, snd s), w'))"
    with go f1 show thesis
      by (intro dispatch [of f1 w']) (simp_all add: transfer_request.simps [where s = s] after_dispatch_def)
  qed
qed

lemma back_to_listening:
  assumes "fsm_state (fst s) = TRANSFER_REQUESTED"
  obtains f4 where "fsm_state f4 = LISTENING"
    "io_bind (fsm_go now TRANSFER_FAILED None s)
       (\<lambda>_ s3. io_bind (fsm_go now LISTENING None s3) k) = k () (f4, snd s)"
proof -
  obtain f3 where f3: "fsm_go now TRANSFER_FAILED None s = (Inr (), (f3, snd s))" "fsm_state f3 = TRANSFER_FAILED"
    using fsm_go_ok [of TRANSFER_FAILED s] assms by fastforce
  obtain f4 where "fsm_go now LISTENING None (f3, snd s) = (Inr (), (f4, snd s))" "fsm_state f4 = LISTENING"
    using fsm_go_ok [of LISTENING "(f3, snd s)"] f3(2) by fastforce
  with f3(1) show thesis by (intro that [of f4]) simp_all
qed

lemma transfer_request_outcome:
  assumes "TRANSFER_REQUESTED \<in> VALID_TRANSITIONS (fsm_state (fst s))"
    and "transfer_request S cti now req fb n s = (r, s')"
  shows "transfer_ok S (tr_session_id req) fb r s'"
  using assms
proof (induction "MAX_TRANSFER_RETRIES - n" arbitrary: n s rule: less_induct)
  case less
  show ?case
  proof (cases rule: transfer_request_step [OF less.prems(1), where S = S and now = now and req = req
        and n = n and cti = cti and fb = fb, case_names stores dispatch])
    case (stores f1 e w')
    with less.prems(2) show ?thesis by (auto simp: transfer_ok_def transfer_post_def)
  next
    case (dispatch f1 w')
    note eq = trans [OF less.prems(2) [symmetric] dispatch(3), unfolded after_dispatch_def]
    show ?thesis
    proof (cases "dispatch_to_cti cti n req")
      case (Inl e)
      with eq dispatch_to_cti_raises [OF Inl] show ?thesis by (auto simp: transfer_ok_def transfer_post_def)
    next
      case (Inr result)
      consider "res_status result = ACCEPTED" | "res_status result \<noteq> ACCEPTED" "fb = RETRY \<and> n < MAX_TRANSFER_RETRIES"
        | "res_status result \<noteq> ACCEPTED" "\<not> (fb = RETRY \<and> n < MAX_TRANSFER_RETRIES)" by blast
      then show ?thesis
      proof cases
        case 1
        with eq Inr dispatch(1) show ?thesis by (intro accepted_post [where s = "(f1, w')"]) auto
      next
        case 2
        obtain f4 where "fsm_state f4 = LISTENING"
          "io_bind (fsm_go now TRANSFER_FAILED None (f1, w'))
             (\<lambda>_ s3. io_bind (fsm_go now LISTENING None s3)
               (\<lambda>_ s4. transfer_request S cti now req fb (n + 1) s4)) =
           transfer_request S cti now req fb (n + 1) (f4, w')"
          using back_to_listening [of "(f1, w')" now "\<lambda>_ s4. transfer_request S cti now req fb (n + 1) s4"]
            dispatch(1) by auto
        then show ?thesis using less.hyps [of "n + 1" "(f4, w')"] eq Inr 2 by (auto simp: diff_less_mono2)
      next
        case 3
        with eq Inr dispatch(1) show ?thesis by (intro fallback_post [where s = "(f1, w')"]) auto
      qed
    qed
  qed
qed

text \<open>With the stores up and the session's document present, every store call succeeds.\<close>

definition stored :: "'w session_db \<Rightarrow> string \<Rightarrow> 'w \<Rightarrow> bool" where
  "stored S sid w \<longleftrightarrow> m_find_session S sid w \<noteq> None"

lemma update_state_up:
  assumes "session_db_laws S" and "no_outage S" and "stored S sid w"
  shows "\<exists>w'. update_state S now sid st ts f w = (Inr (), w') \<and> stored S sid w'"
  using assms(2,3)
  by (simp add: update_state_def stored_def no_outage_def case_prod_unfold Let_def set_session_state_def
      mongo_session_rules [OF assms(1)] split: bool.split)

lemma persist_request_up:
  assumes "session_db_laws S" and "no_outage S" and "stored S (tr_session_id req) w"
    and "persist_request S now req n (f, w) = (r, (f', w'))"
  shows "r = Inr () \<and> stored S (tr_session_id req) w'"
proof -
  let ?sid = "tr_session_id req"
  let ?ti = "\<lparr>ti_reason = TransferReason_value (tr_reason req), ti_context_summary = tr_context_summary req,
    ti_policy_level = tr_policy_level req, ti_priority = tr_priority req, ti_retry_count = n,
    ti_requested_at = tr_requested_at req, ti_status = TransferStatus_value PENDING\<rparr>"
  obtain w1 where w1: "save_transfer_info S now ?sid ?ti w = (Inr (), w1)" "stored S ?sid w1"
    using assms(2,3)
    by (simp add: save_transfer_info_def no_outage_def stored_def mongo_session_rules [OF assms(1)])
  obtain w2 where "update_state S now ?sid ''TRANSFER_REQUESTED'' None (Some f) w1 = (Inr (), w2)" "stored S ?sid w2"
    using update_state_up [OF assms(1,2) w1(2)] by blast
  with w1(1) assms(4) show ?thesis by (auto simp: persist_request_def)
qed

lemma on_transfer_accepted_up:
  assumes "session_db_laws S" and "no_outage S" and "stored S sid w" and "fsm_state f = TRANSFER_REQUESTED"
    and "res_status result = ACCEPTED"
  shows "\<exists>res s'. on_transfer_accepted S now sid result (f, w) = (Inr res, s') \<and> res_status res = ACCEPTED"
proof -
  let ?md = "Some [(''agent_id'', opt_val (res_agent_id result)), (''agent_name'', opt_val (res_agent_name result))]"
  obtain f' where go: "fsm_go now TRANSFER_ACCEPTED ?md (f, w) = (Inr (), (f', w))"
    using fsm_go_ok [of TRANSFER_ACCEPTED "(f, w)" now ?md] assms(4) by auto
  obtain w' where "update_state S now sid ''TRANSFER_ACCEPTED'' (Some ''ACCEPTED'') (Some f') w = (Inr (), w')"
    using update_state_up [OF assms(1-3)] by blast
  with go assms(5) show ?thesis by (simp add: on_transfer_accepted_def)
qed

lemma apply_fallback_up:
  assumes "session_db_laws S" and "no_outage S" and "stored S sid w" and "fsm_state f = TRANSFER_REQUESTED"
  shows "\<exists>res s'. apply_fallback S now sid fb result (f, w) = (Inr res, s') \<and> res_status res \<noteq> ACCEPTED"
proof -
  let ?md = "Some [(''fallback'', VStr (of_str (TransferFallback_value fb))),
      (''reason'', VStr (of_str (TransferStatus_value (res_status result))))]"
    and ?md' = "Some [(''reason'', VStr (of_str ''transfer_failed_ai_resume''))]"
  obtain f1 where go: "fsm_go now TRANSFER_FAILED ?md (f, w) = (Inr (), (f1, w))" and f1: "fsm_state f1 = TRANSFER_FAILED"
    using fsm_go_ok [of TRANSFER_FAILED "(f, w)" now ?md] assms(4) by auto
  obtain f2 where go2: "fsm_go now LISTENING ?md' (f1, w) = (Inr (), (f2, w))"
    using fsm_go_ok [of LISTENING "(f1, w)" now ?md'] f1 by auto
  note up = update_state_up [OF assms(1-3)]
  obtain w1 where "update_state S now sid ''LISTENING'' (Some ''FALLBACK_AI_RESUME'') (Some f2) w = (Inr (), w1)"
    using up by blast
  moreover obtain w2 where "update_state S now sid ''TRANSFER_FAILED'' (Some ''FALLBACK_CALLBACK'')
      (Some (record_event now CALLBACK_SCHEDULED (Some [(''reason'', VStr (of_str ''transfer_fallback''))]) f1)) w
      = (Inr (), w2)"
    using up by blast
  ultimately show ?thesis
    using go go2
    by (simp add: apply_fallback_def handle_ai_resume_fallback_def handle_callback_fallback_def Let_def)
qed

definition last_attempt :: "TransferFallback \<Rightarrow> nat \<Rightarrow> nat" where
  "last_attempt fb n = (if fb = RETRY then MAX_TRANSFER_RETRIES else n)"

definition accepts :: "cti_connector \<Rightarrow> TransferRequest \<Rightarrow> nat \<Rightarrow> bool" where
  "accepts cti req j \<longleftrightarrow> (\<exists>r. dispatch_to_cti cti j req = Inr r \<and> res_status r = ACCEPTED)"

lemma transfer_request_decided:
  assumes "session_db_laws S" and "no_outage S" and "\<And>j. \<exists>r. dispatch_to_cti cti j req = Inr r"
    and "stored S (tr_session_id req) w" and "TRANSFER_REQUESTED \<in> VALID_TRANSITIONS (fsm_state f)"
    and "n \<le> MAX_TRANSFER_RETRIES"
  shows "\<exists>res s'. transfer_request S cti now req fb n (f, w) = (Inr res, s') \<and>
     (res_status res = ACCEPTED \<longleftrightarrow> (\<exists>j. n \<le> j \<and> j \<le> last_attempt fb n \<and> accepts cti req j))"
  using assms(4-6)
proof (induction "MAX_TRANSFER_RETRIES - n" arbitrary: n f w rule: less_induct)
  case less
  have "TRANSFER_REQUESTED \<in> VALID_TRANSITIONS (fsm_state (fst (f, w)))" using less.prems by simp
  then show ?case
  proof (cases rule: transfer_request_step [where S = S and now = now and req = req
        and n = n and cti = cti and fb = fb, case_names stores dispatch])
    case (stores f1 e w')
    then show ?thesis using persist_request_up [OF assms(1,2) less.prems(1)] by fastforce
  next
    case (dispatch f1 w')
    have st: "stored S (tr_session_id req) w'"
      using persist_request_up [OF assms(1,2) less.prems(1)] dispatch(2) by fastforce
    obtain r where r: "dispatch_to_cti cti n req = Inr r" using assms(3) by blast
    consider "accepts cti req n" | "\<not> accepts cti req n" "fb = RETRY \<and> n < MAX_TRANSFER_RETRIES"
      | "\<not> accepts cti req n" "\<not> (fb = RETRY \<and> n < MAX_TRANSFER_RETRIES)" by blast
    then show ?thesis
    proof cases
      case 1
      moreover from 1 r have "res_status r = ACCEPTED" by (simp add: accepts_def)
      moreover have "n \<le> last_attempt fb n" using less.prems by (simp add: last_attempt_def)
      ultimately show ?thesis
        using on_transfer_accepted_up [OF assms(1,2) st dispatch(1), of r now] r dispatch(3)
        by (auto simp: after_dispatch_def)
    next
      case 2
      obtain f4 where f4: "fsm_state f4 = LISTENING"
        "transfer_request S cti now req fb n (f, w) = transfer_request S cti now req fb (n + 1) (f4, w')"
        using back_to_listening [of "(f1, w')" now "\<lambda>_ s4. transfer_request S cti now req fb (n + 1) s4"]
          dispatch 2 r by (auto simp: after_dispatch_def accepts_def)
      have "(\<exists>j. n \<le> j \<and> j \<le> last_attempt fb n \<and> accepts cti req j) \<longleftrightarrow>
            (\<exists>j. n + 1 \<le> j \<and> j \<le> last_attempt fb (n + 1) \<and> accepts cti req j)"
        using 2 by (simp add: last_attempt_def) (metis Suc_leD not_less_eq_eq le_antisym)
      then show ?thesis
        using less.hyps [of "n + 1" w' f4] st f4 2 by (auto simp: diff_less_mono2)
    next
      case 3
      then have "\<not> (\<exists>j. n \<le> j \<and> j \<le> last_attempt fb n \<and> accepts cti req j)"
        using less.prems by (auto simp: last_attempt_def dest: le_antisym split: if_splits)
      with 3 show ?thesis
        using apply_fallback_up [OF assms(1,2) st dispatch(1), of now fb r] r dispatch(3)
        by (auto simp: after_dispatch_def accepts_def [of _ _ n])
    qed
  qed
qed

subsection \<open>The machine under a request\<close>

interpretation tframe: effect_frame "\<lambda>s s'. evolves (fst s) (fst s')"
  by unfold_locales (auto intro: evolves_trans)

lemma evolves_fsm_go: "evolves (fst s) (fst (snd (fsm_go now to md s)))"
  by (auto simp: fsm_go_def split: sum.splits intro: evolves_transition)

lemma evolves_in_db: "evolves (fst s) (fst (snd (in_db act s)))"
  by (simp add: in_db_def case_prod_unfold)

lemma evolves_accepted: "evolves (fst s) (fst (snd (on_transfer_accepted S now sid res s)))"
  unfolding on_transfer_accepted_def
  by (intro tframe.frame_bind evolves_fsm_go evolves_in_db) simp

lemma evolves_fallback: "evolves (fst s) (fst (snd (apply_fallback S now sid fb res s)))"
proof -
  have "evolves (fst s) (fst (snd (handle_ai_resume_fallback S now sid res s)))" for s
    unfolding handle_ai_resume_fallback_def
    by (intro tframe.frame_bind evolves_fsm_go evolves_in_db) simp
  moreover have "evolves (fst s) (fst (snd (handle_callback_fallback S now sid res s)))" for s
    unfolding handle_callback_fallback_def Let_def
    by (intro tframe.frame_bind evolves_trans [OF evolves_record evolves_in_db [of "(a, b)" for a b, simplified]])
       simp_all
  ultimately show ?thesis
    unfolding apply_fallback_def by (intro tframe.frame_bind evolves_fsm_go) simp
qed

lemma evolves_persist: "evolves (fst s) (fst (snd (persist_request S now req n s)))"
  unfolding persist_request_def by (intro tframe.frame_bind evolves_in_db)

lemma evolves_after_dispatch:
  assumes "\<And>s. n < MAX_TRANSFER_RETRIES \<Longrightarrow>
    evolves (fst s) (fst (snd (transfer_request S cti now req fb (n + 1) s)))"
  shows "evolves (fst s) (fst (snd (after_dispatch S cti now req fb n s)))"
proof (cases "dispatch_to_cti cti n req")
  case (Inl e)
  then show ?thesis by (simp add: after_dispatch_def)
next
  case (Inr result)
  have "evolves (fst s) (fst (snd (io_bind (fsm_go now TRANSFER_FAILED None s)
      (\<lambda>_ s3. io_bind (fsm_go now LISTENING None s3) (\<lambda>_ s4. transfer_request S cti now req fb (n + 1) s4)))))"
    if "n < MAX_TRANSFER_RETRIES"
    by (intro tframe.frame_bind evolves_fsm_go assms that)
  with Inr show ?thesis by (auto simp: after_dispatch_def evolves_accepted evolves_fallback)
qed

lemma transfer_request_bind:
  "transfer_request S cti now req fb n s =
     (case fsm_go now TRANSFER_REQUESTED (Some (request_meta req n)) s of
        (Inl _, _) \<Rightarrow> (Inr (plain_result FAILED MSG_NOT_TRANSFERABLE), s)
      | (Inr _, s1) \<Rightarrow> io_bind (persist_request S now req n s1) (\<lambda>_ s2. after_dispatch S cti now req fb n s2))"
  unfolding after_dispatch_def by (rule transfer_request.simps)

lemma evolves_transfer_request:
  "evolves (fst s) (fst (snd (transfer_request S cti now req fb n s)))"
proof (induction "MAX_TRANSFER_RETRIES - n" arbitrary: n s rule: less_induct)
  case less
  obtain r s1 where go: "fsm_go now TRANSFER_REQUESTED (Some (request_meta req n)) s = (r, s1)"
    by (metis surj_pair)
  have e1: "evolves (fst s) (fst s1)"
    using evolves_fsm_go [of s now TRANSFER_REQUESTED "Some (request_meta req n)"] go by simp
  have "evolves (fst s) (fst (snd (after_dispatch S cti now req fb n s)))" for s
    by (intro evolves_after_dispatch less.hyps) simp
  then have "evolves (fst s1) (fst (snd (io_bind (persist_request S now req n s1)
      (\<lambda>_ s2. after_dispatch S cti now req fb n s2))))"
    by (intro tframe.frame_bind evolves_persist)
  with e1 go show ?case
    by (cases r) (auto simp: transfer_request_bind intro: evolves_trans)
qed

text \<open>Without a connector nobody ever takes the call.\<close>

lemma apply_fallback_status:
  "apply_fallback S now sid fb result s = (Inr res, s') \<Longrightarrow>
   res_status res \<noteq> ACCEPTED \<and> (fb \<noteq> AI_RESUME \<longrightarrow> res_fallback_action res = Some CALLBACK)"
  by (auto simp: apply_fallback_def handle_ai_resume_fallback_def handle_callback_fallback_def Let_def io_bind_def
      split: prod.splits sum.splits if_splits)

lemma no_connector_no_accept:
  assumes "transfer_request S None now req CALLBACK n s = (Inr res, s')"
  shows "res_status res \<noteq> ACCEPTED \<and> res_fallback_action res \<noteq> Some AI_RESUME"
  using assms
  by (auto simp: transfer_request_bind after_dispatch_def dispatch_to_cti_def mock_cti_dispatch_def plain_result_def
      io_bind_def split: prod.splits sum.splits dest: apply_fallback_status)

section \<open>Properties\<close>


definition demo_request :: TransferRequest where
  "demo_request = \<lparr>tr_session_id = ''s1'', tr_tenant_id = ''acme'', tr_reason = CUSTOMER_REQUEST,
     tr_context_summary = [], tr_policy_level = ''G1'', tr_priority = 5, tr_requested_at = 3\<rparr>"

definition demo_store :: mem_store where
  "demo_store = snd (repo_create mem_up 1 demo_data empty_mem)"

lemma demo_store_stored: "stored mem_up ''s1'' demo_store"
  by (simp add: stored_def demo_store_def repo_create_def mem_db_def empty_mem_def demo_data_def Let_def
      set_session_state_def)

text \<open>A connector that times out twice and then finds an agent.\<close>

definition demo_cti :: cti_connector where
  "demo_cti = Some (\<lambda>n. if n < 2 then CtiTimeout
     else CtiDict \<lparr>resp_status = Some ''ACCEPTED'', resp_agent_id = Some [65], resp_agent_name = None,
                   resp_queue_position = None, resp_message = None\<rparr>)"

lemma demo_cti_dispatch:
  "dispatch_to_cti demo_cti n demo_request =
     (if n < 2 then Inr (plain_result TIMED_OUT MSG_CTI_TIMEOUT)
      else Inr \<lparr>res_status = ACCEPTED, res_agent_id = Some [65], res_agent_name = None,
                res_queue_position = None, res_fallback_action = None, res_message = []\<rparr>)"
  by (simp add: dispatch_to_cti_def demo_cti_def parse_cti_response_def TransferStatus_of_def)


text \<open>
  A request is decided: with the stores up, the session stored and a connector that always
  answers (with anything: an acceptance, a refusal, an error, a time-out), a request from a state
  that allows it returns; and it returns \<open>ACCEPTED\<close> exactly when one of its dispatches was accepted.
  There is one dispatch, or with the \<open>RETRY\<close> strategy the first and three more.
\<close>

theorem transfer_decided:
  assumes "session_db_laws S" and "no_outage S" and "m_find_session S (tr_session_id req) w = Some d"
    and "\<And>j. \<exists>r. dispatch_to_cti cti j req = Inr r"
    and "TRANSFER_REQUESTED \<in> VALID_TRANSITIONS (fsm_state f)"
  shows "\<exists>res s'. transfer_request S cti now req fb 0 (f, w) = (Inr res, s') \<and>
     (res_status res = ACCEPTED \<longleftrightarrow>
        (\<exists>j. j \<le> (if fb = RETRY then 3 else 0) \<and>
             (\<exists>r. dispatch_to_cti cti j req = Inr r \<and> res_status r = ACCEPTED)))"
  using transfer_request_decided [OF assms(1,2,4), of w f 0 now fb] assms(3,5)
  by (cases "fb = RETRY") (simp_all add: stored_def last_attempt_def accepts_def MAX_TRANSFER_RETRIES_def)

theorem transfer_decided_witness:
  "(\<exists>res s'. transfer_request mem_up demo_cti 5 demo_request RETRY 0 (new_fsm LISTENING, demo_store) = (Inr res, s') \<and>
      res_status res = ACCEPTED) \<and>
   (\<exists>res s'. transfer_request mem_up demo_cti 5 demo_request AI_RESUME 0 (new_fsm LISTENING, demo_store) = (Inr res, s') \<and>
      res_status res \<noteq> ACCEPTED)"
proof -
  obtain d where d: "m_find_session mem_up (tr_session_id demo_request) demo_store = Some d"
    using demo_store_stored by (auto simp: stored_def demo_request_def)
  have ans: "\<exists>r. dispatch_to_cti demo_cti j demo_request = Inr r" for j
    by (simp add: demo_cti_dispatch)
  have st: "TRANSFER_REQUESTED \<in> VALID_TRANSITIONS (fsm_state (new_fsm LISTENING))" by simp
  note decided = transfer_decided [OF mem_db_laws mem_up_no_outage d ans st, of 5]
  show ?thesis
    using decided [of RETRY] decided [of AI_RESUME]
    by (auto simp: demo_cti_dispatch plain_result_def intro: exI [of _ "3::nat"])
qed

text \<open>
  The wish for a human is recognised whatever the case of the letters and wherever in the
  utterance it stands: an utterance that contains a spelling of a keyword is detected, so is any
  longer utterance around it, and an utterance is detected only if its lower-case form contains a
  keyword.
\<close>

theorem transfer_intent:
  "(detect_transfer_intent t \<longleftrightarrow> (\<exists>kw\<in>set TRANSFER_KEYWORDS. \<exists>us vs. lower t = us @ kw @ vs)) \<and>
   (lower k \<in> set TRANSFER_KEYWORDS \<and> contains k t \<longrightarrow> detect_transfer_intent t) \<and>
   (detect_transfer_intent t \<longrightarrow> detect_transfer_intent (pre @ t @ post))"
proof -
  have 1: "detect_transfer_intent u \<longleftrightarrow> (\<exists>kw\<in>set TRANSFER_KEYWORDS. contains kw (lower u))" for u
    by (simp add: detect_transfer_intent_def list_ex_iff)
  have 2: "contains kw (lower t) \<Longrightarrow> contains kw (lower (pre @ t @ post))" for kw
    unfolding contains_iff lower_append by (metis append.assoc)
  have "detect_transfer_intent t \<longleftrightarrow> (\<exists>kw\<in>set TRANSFER_KEYWORDS. \<exists>us vs. lower t = us @ kw @ vs)"
    unfolding 1 contains_iff ..
  moreover have "lower k \<in> set TRANSFER_KEYWORDS \<and> contains k t \<longrightarrow> detect_transfer_intent t"
    unfolding 1 using contains_lower by blast
  moreover have "detect_transfer_intent t \<longrightarrow> detect_transfer_intent (pre @ t @ post)"
    unfolding 1 using 2 by blast
  ultimately show ?thesis by blast
qed

theorem transfer_intent_witness:
  "detect_transfer_intent (of_str ''put me through to a Human, please'')"
proof -
  have "lower (of_str ''Human'') \<in> set TRANSFER_KEYWORDS"
    by (simp add: TRANSFER_KEYWORDS_def of_str_def lower_def lower_cp_def)
  moreover have "contains (of_str ''Human'') (of_str ''put me through to a Human, please'')"
    by (simp add: of_str_def)
  ultimately show ?thesis
    using transfer_intent [where k = "of_str ''Human''" and t = "of_str ''put me through to a Human, please''"] by blast
qed

end
