(* ===== verification/Quota.thy ===== *)
theory Quota
  imports Session_Repository
begin

text \<open>
  The daily LLM quota of a tenant, \<^verbatim>\<open>app/core/quota.py\<close>, and the cost estimate of
  \<^verbatim>\<open>app/services/llm_service.py\<close>. The counters live in Redis: a record of the commands over an abstract
  state, with their documented effect as \<open>counter_laws\<close>. Costs are exact: the source's floating-point
  cents are integers in units of 1/100000 cent, the granularity of the price table.
\<close>

section \<open>Counters and settings\<close>

record 'w counter_db =
  ctr_settings :: redis_settings
  ctr_ok :: "'w \<Rightarrow> bool"
  ctr_get :: "string \<Rightarrow> 'w \<Rightarrow> int option"
  ctr_incrby :: "string \<Rightarrow> int \<Rightarrow> 'w \<Rightarrow> 'w"
  ctr_expire :: "string \<Rightarrow> nat \<Rightarrow> 'w \<Rightarrow> 'w"

text \<open>
  \<open>INCRBY\<close> adds to its counter, a missing one counting as 0, and to no other. The expiry set on a
  counter is two days away and the key changes every day, so within a day \<open>EXPIRE\<close> is not visible. The
  commands of a pipeline run one after the other.
\<close>

definition counter_laws :: "'w counter_db \<Rightarrow> bool" where
  "counter_laws R \<longleftrightarrow>
     (\<forall>k k' n w. ctr_get R k' (ctr_incrby R k n w) =
        (if k' = k then Some ((case ctr_get R k w of None \<Rightarrow> 0 | Some v \<Rightarrow> v) + n) else ctr_get R k' w)) \<and>
     (\<forall>k k' ttl w. ctr_get R k' (ctr_expire R k ttl w) = ctr_get R k' w)"

record quota_settings =
  LLM_QUOTA_ENABLED :: bool
  LLM_DAILY_TOKEN_QUOTA_DEFAULT :: int
  LLM_DAILY_COST_QUOTA_CENTS_DEFAULT :: int
  LLM_QUOTA_EXCEEDED_BEHAVIOR :: string

definition default_quota_settings :: quota_settings where
  "default_quota_settings = \<lparr>LLM_QUOTA_ENABLED = True, LLM_DAILY_TOKEN_QUOTA_DEFAULT = 5000000,
     LLM_DAILY_COST_QUOTA_CENTS_DEFAULT = 0, LLM_QUOTA_EXCEEDED_BEHAVIOR = ''fallback''\<rparr>"

record tenant_quota =
  llm_daily_token_quota :: "int option"
  llm_daily_cost_quota_cents :: "int option"

record QuotaStatus =
  tokens_used_today :: int
  tokens_limit :: int
  cost_cents_used_today :: int
  cost_cents_limit :: int
  over_tokens :: bool
  over_cost :: bool

definition quota_over :: "QuotaStatus \<Rightarrow> bool" where
  "quota_over s \<longleftrightarrow> over_tokens s \<or> over_cost s"

section \<open>Operations\<close>

text \<open>The day is the UTC date string \<open>YYYYMMDD\<close>.\<close>

definition tokens_key :: "'w counter_db \<Rightarrow> string \<Rightarrow> string \<Rightarrow> string" where
  "tokens_key R today tenant_id = scoped_key (ctr_settings R) ''quota:llm:tokens'' [today] (Some tenant_id)"

definition cost_key :: "'w counter_db \<Rightarrow> string \<Rightarrow> string \<Rightarrow> string" where
  "cost_key R today tenant_id = scoped_key (ctr_settings R) ''quota:llm:cost_cents'' [today] (Some tenant_id)"

definition limits_for :: "quota_settings \<Rightarrow> tenant_quota option \<Rightarrow> int \<times> int" where
  "limits_for q tenant_cfg =
     (case tenant_cfg of
        None \<Rightarrow> (LLM_DAILY_TOKEN_QUOTA_DEFAULT q, LLM_DAILY_COST_QUOTA_CENTS_DEFAULT q)
      | Some c \<Rightarrow>
          (case llm_daily_token_quota c of None \<Rightarrow> LLM_DAILY_TOKEN_QUOTA_DEFAULT q | Some v \<Rightarrow> v,
           case llm_daily_cost_quota_cents c of None \<Rightarrow> LLM_DAILY_COST_QUOTA_CENTS_DEFAULT q | Some v \<Rightarrow> v))"

definition counter_value :: "'w counter_db \<Rightarrow> string \<Rightarrow> 'w \<Rightarrow> int" where
  "counter_value R k w = (case ctr_get R k w of None \<Rightarrow> 0 | Some v \<Rightarrow> v)"

definition check_quota ::
  "'w counter_db \<Rightarrow> quota_settings \<Rightarrow> string \<Rightarrow> string \<Rightarrow> tenant_quota option \<Rightarrow> 'w \<Rightarrow> QuotaStatus" where
  "check_quota R q today tenant_id tenant_cfg w =
     (let (token_limit, cost_limit) = limits_for q tenant_cfg;
          tokens_used = (if ctr_ok R w then counter_value R (tokens_key R today tenant_id) w else 0);
          cost_used = (if ctr_ok R w then counter_value R (cost_key R today tenant_id) w else 0)
      in \<lparr>tokens_used_today = tokens_used, tokens_limit = token_limit,
          cost_cents_used_today = cost_used, cost_cents_limit = cost_limit,
          over_tokens = (token_limit > 0 \<and> tokens_used \<ge> token_limit),
          over_cost = (cost_limit > 0 \<and> cost_used \<ge> cost_limit)\<rparr>)"

definition enforce_quota ::
  "'w counter_db \<Rightarrow> quota_settings \<Rightarrow> string \<Rightarrow> string \<Rightarrow> tenant_quota option \<Rightarrow> 'w \<Rightarrow> pyexc + QuotaStatus" where
  "enforce_quota R q today tenant_id tenant_cfg w =
     (if \<not> LLM_QUOTA_ENABLED q
      then Inr \<lparr>tokens_used_today = 0, tokens_limit = 0, cost_cents_used_today = 0, cost_cents_limit = 0,
                over_tokens = False, over_cost = False\<rparr>
      else let status = check_quota R q today tenant_id tenant_cfg w
           in if \<not> quota_over status then Inr status
              else if LLM_QUOTA_EXCEEDED_BEHAVIOR q = ''warn'' then Inr status
              else Inl (QuotaExceededError (LLM_QUOTA_EXCEEDED_BEHAVIOR q = ''fallback'')
                          (if over_tokens status then ''tokens'' else ''cost'')))"

text \<open>Python's \<open>round\<close>: to the nearest integer, halves to the even one.\<close>

definition round_half_even :: "int \<Rightarrow> int \<Rightarrow> int" where
  "round_half_even n d =
     (let q = n div d; r = 2 * (n mod d)
      in if r < d then q else if d < r then q + 1 else if even q then q else q + 1)"

definition COST_UNIT :: int where "COST_UNIT = 100000"

definition commit_usage ::
  "'w counter_db \<Rightarrow> string \<Rightarrow> string \<Rightarrow> int \<Rightarrow> int \<Rightarrow> nat \<Rightarrow> 'w \<Rightarrow> 'w" where
  "commit_usage R today tenant_id tokens cost ttl w =
     (if tokens \<le> 0 \<and> cost \<le> 0 then w
      else if \<not> ctr_ok R w then w
      else
        (let tkey = tokens_key R today tenant_id;
             ckey = cost_key R today tenant_id;
             w1 = (if tokens > 0 then ctr_expire R tkey ttl (ctr_incrby R tkey tokens w) else w)
         in if cost > 0 then ctr_expire R ckey ttl (ctr_incrby R ckey (round_half_even cost COST_UNIT) w1)
            else w1))"

text \<open>The price table, in 1/100 cent per thousand tokens, and the estimate in 1/100000 cent.\<close>

definition PRICE_PER_1K :: "(string \<times> int) list" where
  "PRICE_PER_1K = [(''llama-3.3-70b-versatile'', 6), (''llama-4-scout-17b-16e-instruct'', 3)]"

definition estimate_cost_cents :: "string \<Rightarrow> int \<Rightarrow> int" where
  "estimate_cost_cents model total_tokens =
     total_tokens * (case dict_get PRICE_PER_1K model of None \<Rightarrow> 5 | Some r \<Rightarrow> r)"

section \<open>Lemmas\<close>

lemma counter_rules:
  assumes "counter_laws R"
  shows "counter_value R k' (ctr_incrby R k n w) =
      (if k' = k then counter_value R k w + n else counter_value R k' w)"
    and "counter_value R k' (ctr_expire R k ttl w) = counter_value R k' w"
  using assms by (simp_all add: counter_laws_def counter_value_def)

lemma quota_keys_differ [simp]: "tokens_key R d t \<noteq> cost_key R d t" "cost_key R d t \<noteq> tokens_key R d t"
  by (auto simp: tokens_key_def cost_key_def scoped_key_def)

definition always_up :: "'w counter_db \<Rightarrow> bool" where
  "always_up R \<longleftrightarrow> (\<forall>w. ctr_ok R w)"

lemma commit_usage_counters:
  assumes "counter_laws R" and "always_up R"
  shows "counter_value R (tokens_key R d t) (commit_usage R d t n c ttl w) =
      counter_value R (tokens_key R d t) w + max 0 n"
    and "counter_value R (cost_key R d t) (commit_usage R d t n c ttl w) =
      counter_value R (cost_key R d t) w + (if c > 0 then round_half_even c COST_UNIT else 0)"
proof -
  have up: "ctr_ok R w" for w using assms(2) by (simp add: always_up_def)
  show "counter_value R (tokens_key R d t) (commit_usage R d t n c ttl w) =
      counter_value R (tokens_key R d t) w + max 0 n"
    by (simp add: commit_usage_def up counter_rules [OF assms(1)] Let_def)
  show "counter_value R (cost_key R d t) (commit_usage R d t n c ttl w) =
      counter_value R (cost_key R d t) w + (if c > 0 then round_half_even c COST_UNIT else 0)"
    by (simp add: commit_usage_def up counter_rules [OF assms(1)] Let_def)
qed

text \<open>All the calls of a day: the tokens and the cost of each.\<close>

definition commit_all ::
  "'w counter_db \<Rightarrow> string \<Rightarrow> string \<Rightarrow> nat \<Rightarrow> (int \<times> int) list \<Rightarrow> 'w \<Rightarrow> 'w" where
  "commit_all R d t ttl calls w = fold (\<lambda>(n, c). commit_usage R d t n c ttl) calls w"

lemma commit_all_counters:
  assumes "counter_laws R" and "always_up R"
  shows "counter_value R (tokens_key R d t) (commit_all R d t ttl calls w) =
      counter_value R (tokens_key R d t) w + (\<Sum>(n, c)\<leftarrow>calls. max 0 n)"
    and "counter_value R (cost_key R d t) (commit_all R d t ttl calls w) =
      counter_value R (cost_key R d t) w +
        (\<Sum>(n, c)\<leftarrow>calls. if c > 0 then round_half_even c COST_UNIT else 0)"
proof (induction calls arbitrary: w)
  case (Cons p calls)
  { case 1 show ?case using Cons(1) by (cases p) (simp add: commit_all_def commit_usage_counters [OF assms]) }
  { case 2 show ?case using Cons(2) by (cases p) (simp add: commit_all_def commit_usage_counters [OF assms]) }
qed (simp_all add: commit_all_def)

lemma enforce_quota_raises:
  "(\<exists>e. enforce_quota R q d t cfg w = Inl e) \<longleftrightarrow>
     LLM_QUOTA_ENABLED q \<and> LLM_QUOTA_EXCEEDED_BEHAVIOR q \<noteq> ''warn'' \<and>
     quota_over (check_quota R q d t cfg w)"
  by (simp add: enforce_quota_def Let_def)

lemma round_small: "0 \<le> c \<Longrightarrow> 2 * c < COST_UNIT \<Longrightarrow> round_half_even c COST_UNIT = 0"
  by (simp add: round_half_even_def COST_UNIT_def)

section \<open>A reference counter store\<close>

definition mem_counters :: "(string \<Rightarrow> int option) counter_db" where
  "mem_counters = \<lparr>ctr_settings = default_redis_settings, ctr_ok = (\<lambda>_. True), ctr_get = (\<lambda>k w. w k),
     ctr_incrby = (\<lambda>k n w. w(k \<mapsto> (case w k of None \<Rightarrow> 0 | Some v \<Rightarrow> v) + n)),
     ctr_expire = (\<lambda>k ttl w. w)\<rparr>"

lemma mem_counters_laws: "counter_laws mem_counters" "always_up mem_counters"
  by (simp_all add: counter_laws_def always_up_def mem_counters_def)

section \<open>Properties\<close>

text \<open>
  The token quota is enforced: with Redis up, after the calls of a day have committed their
  usage, the next call is refused exactly when the quota is switched on, the behaviour is not the
  observe-only one, and the tokens counted so far reach a positive token limit or the cost counted so
  far a positive cost limit. When Redis is down no call is refused.
\<close>

theorem quota_enforced:
  assumes "counter_laws R" and "always_up R" and "limits_for q cfg = (tlim, clim)"
  shows "((\<exists>e. enforce_quota R q d t cfg (commit_all R d t ttl calls w) = Inl e) \<longleftrightarrow>
      LLM_QUOTA_ENABLED q \<and> LLM_QUOTA_EXCEEDED_BEHAVIOR q \<noteq> ''warn'' \<and>
      (tlim > 0 \<and> tlim \<le> counter_value R (tokens_key R d t) w + (\<Sum>(n, c)\<leftarrow>calls. max 0 n) \<or>
       clim > 0 \<and> clim \<le> counter_value R (cost_key R d t) w +
         (\<Sum>(n, c)\<leftarrow>calls. if c > 0 then round_half_even c COST_UNIT else 0))) \<and>
    (\<forall>R' w'. \<not> ctr_ok R' w' \<longrightarrow> (\<exists>s. enforce_quota R' q d t cfg w' = Inr s))"
proof -
  have up: "ctr_ok R w" for w using assms(2) by (simp add: always_up_def)
  have "\<exists>s. enforce_quota R' q d t cfg w' = Inr s" if "\<not> ctr_ok R' w'" for R' :: "'b counter_db" and w'
    using that by (auto simp: enforce_quota_def check_quota_def quota_over_def assms(3) Let_def)
  then show ?thesis
    unfolding enforce_quota_raises
    by (simp add: check_quota_def quota_over_def assms(3) up commit_all_counters [OF assms(1,2)] Let_def)
qed

theorem quota_enforced_witness:
  "\<exists>e. enforce_quota mem_counters default_quota_settings ''20250101'' ''acme'' None
     (commit_all mem_counters ''20250101'' ''acme'' 172800 [(3000000, 0), (2000000, 0)] Map.empty) = Inl e"
proof -
  have z: "counter_value mem_counters k Map.empty = 0" for k
    by (simp add: counter_value_def mem_counters_def)
  have lim: "limits_for default_quota_settings None = (5000000, 0)"
    by (simp add: limits_for_def default_quota_settings_def)
  have "LLM_QUOTA_ENABLED default_quota_settings" "LLM_QUOTA_EXCEEDED_BEHAVIOR default_quota_settings \<noteq> ''warn''"
    by (simp_all add: default_quota_settings_def)
  then show ?thesis
    using quota_enforced [OF mem_counters_laws lim, of "''20250101''" "''acme''"
        172800 "[(3000000, 0), (2000000, 0)]" Map.empty, THEN conjunct1]
    by (simp add: z)
qed

text \<open>
  Small costs are never counted: each call rounds its own cost to whole cents, so a call below
  half a cent adds nothing, and no number of such calls ever reaches a cost limit. At the prices of
  the table this is every call of at most 8333 tokens.
\<close>

theorem small_costs_never_counted:
  assumes "counter_laws R" and "always_up R"
    and "\<forall>n \<in> set ns. 0 \<le> n \<and> n \<le> 8333"
  shows "counter_value R (cost_key R d t)
      (commit_all R d t ttl (map (\<lambda>n. (n, estimate_cost_cents model n)) ns) w) =
    counter_value R (cost_key R d t) w"
proof -
  have rate: "0 \<le> estimate_cost_cents model n \<and> 2 * estimate_cost_cents model n < COST_UNIT"
    if "0 \<le> n" "n \<le> 8333" for n
    using that by (auto simp: estimate_cost_cents_def PRICE_PER_1K_def COST_UNIT_def)
  have "(\<Sum>(n, c)\<leftarrow>map (\<lambda>n. (n, estimate_cost_cents model n)) ns.
      if c > 0 then round_half_even c COST_UNIT else 0) = 0"
    using assms(3) by (induction ns) (simp_all add: rate round_small)
  then show ?thesis by (simp only: commit_all_counters [OF assms(1,2)])
qed

theorem small_costs_never_counted_witness:
  "counter_value mem_counters (cost_key mem_counters ''20250101'' ''acme'')
     (commit_all mem_counters ''20250101'' ''acme'' 172800
        (map (\<lambda>n. (n, estimate_cost_cents ''llama-3.3-70b-versatile'' n)) (replicate 1000 8333)) Map.empty) =
   counter_value mem_counters (cost_key mem_counters ''20250101'' ''acme'') Map.empty"
  by (rule small_costs_never_counted [OF mem_counters_laws]) simp

end
