(* ===== verification/AI_Services.thy ===== *)
theory AI_Services
  imports Circuit_Breaker Quota
begin

text \<open>
  The speech and language services: \<^verbatim>\<open>app/core/timeouts.py\<close>, \<^verbatim>\<open>app/services/stt_service.py\<close>,
  \<^verbatim>\<open>app/services/tts_service.py\<close> and \<^verbatim>\<open>app/services/llm_service.py\<close>. The vendors' APIs are parameters
  that give the answer to each request; every call goes through its circuit breaker. A stream is
  modelled by the chunks it yields when it is read to its end, with the exception that ended it, if any.
\<close>

section \<open>Vendor calls\<close>

text \<open>
  What a vendor call can do: the client package is missing, the API answers, does not answer before
  the cutoff, or raises.
\<close>

datatype 'a vendor = ClientMissing | Answer 'a | NoAnswer | ApiError pyexc

record timeout_settings =
  STT_TIMEOUT_SECONDS :: time
  LLM_TIMEOUT_SECONDS :: time
  TTS_TIMEOUT_SECONDS :: time
  HTTP_READ_TIMEOUT :: time

definition timeout_for :: "timeout_settings \<Rightarrow> string \<Rightarrow> time" where
  "timeout_for s service =
     (if service = ''stt'' then STT_TIMEOUT_SECONDS s
      else if service = ''llm'' then LLM_TIMEOUT_SECONDS s
      else if service = ''tts'' then TTS_TIMEOUT_SECONDS s
      else HTTP_READ_TIMEOUT s)"

text \<open>\<open>with_timeout\<close> turns a missed cutoff into \<open>ExternalTimeoutError\<close>; anything else passes.\<close>

definition with_timeout :: "string \<Rightarrow> 'a vendor \<Rightarrow> pyexc + 'a" where
  "with_timeout service v =
     (case v of
        Answer a \<Rightarrow> Inr a
      | NoAnswer \<Rightarrow> Inl (ExternalTimeoutError service)
      | ApiError e \<Rightarrow> Inl e
      | ClientMissing \<Rightarrow> Inl (RuntimeError (of_str ''package not installed'')))"

section \<open>Speech to text\<close>

record STTResult =
  stt_text :: ustr
  stt_is_final :: bool
  stt_duration_ms :: time
  stt_language :: string

text \<open>The start of the call, the entry and exit of the breaker and the end.\<close>

record call_times =
  ct_start :: time
  ct_enter :: time
  ct_exit :: time
  ct_end :: time

definition transcribe ::
  "(bytes \<Rightarrow> string \<Rightarrow> ustr vendor) \<Rightarrow> call_times \<Rightarrow> bytes \<Rightarrow> string \<Rightarrow> CircuitBreaker
   \<Rightarrow> (pyexc + STTResult) \<times> CircuitBreaker" where
  "transcribe api tm audio language cb =
     (case cb_call (ct_enter tm) (ct_exit tm) (with_timeout ''stt'' (api audio language)) cb of
        (Inl e, cb') \<Rightarrow> (Inl e, cb')
      | (Inr t, cb') \<Rightarrow>
          (Inr \<lparr>stt_text = t, stt_is_final = True, stt_duration_ms = ct_end tm - ct_start tm,
                stt_language = language\<rparr>, cb'))"

section \<open>Text to speech\<close>

record TTSResult =
  tts_audio_bytes :: bytes
  tts_encoding :: string
  tts_sample_rate_hz :: nat
  tts_duration_ms :: time
  tts_char_count :: nat

record tts_settings =
  GOOGLE_TTS_LANGUAGE :: string
  GOOGLE_TTS_VOICE :: string

text \<open>
  \<open>synthesize\<close> imports the Google package before it enters the breaker, so a missing package is an
  \<open>ImportError\<close> that the breaker does not see.
\<close>

definition or_default :: "string option \<Rightarrow> string \<Rightarrow> string" where
  "or_default v d = (case v of None \<Rightarrow> d | Some s \<Rightarrow> if s \<noteq> [] then s else d)"

definition synthesize ::
  "tts_settings \<Rightarrow> (ustr \<Rightarrow> string \<Rightarrow> string \<Rightarrow> bytes vendor) \<Rightarrow> call_times \<Rightarrow> ustr \<Rightarrow> string option
   \<Rightarrow> string option \<Rightarrow> CircuitBreaker \<Rightarrow> (pyexc + TTSResult) \<times> CircuitBreaker" where
  "synthesize cfg api tm txt language_code voice_name cb =
     (let lang = or_default language_code (GOOGLE_TTS_LANGUAGE cfg);
          voice = or_default voice_name (GOOGLE_TTS_VOICE cfg);
          answer = api txt lang voice
      in if answer = ClientMissing then (Inl (OtherException (of_str ''ImportError'')), cb)
         else (case cb_call (ct_enter tm) (ct_exit tm) (with_timeout ''tts'' answer) cb of
                 (Inl e, cb') \<Rightarrow> (Inl e, cb')
               | (Inr audio, cb') \<Rightarrow>
                   (Inr \<lparr>tts_audio_bytes = audio, tts_encoding = ''pcm_22khz'', tts_sample_rate_hz = 22050,
                         tts_duration_ms = ct_end tm - ct_start tm, tts_char_count = length txt\<rparr>, cb')))"

section \<open>Language model\<close>

record LLMChunk =
  lc_text :: ustr
  lc_is_final :: bool
  lc_is_filler :: bool

record LLMResult =
  lr_full_text :: ustr
  lr_duration_ms :: time
  lr_model :: string
  lr_filler_triggered :: bool

definition FILLER_THRESHOLD_MS :: time where "FILLER_THRESHOLD_MS = 500"

definition FILLER_PHRASES :: "ustr list" where
  "FILLER_PHRASES =
     [[51104, 49884, 47564, 50836, 44],
      [54869, 51064, 54644, 32, 46300, 47532, 44192, 49845, 45768, 45796, 44],
      [45348, 44, 32, 50508, 44192, 49845, 45768, 45796, 44]]"

text \<open>
  A chunk of the vendor's stream: the token count it reports, if it reports usage, and the contents of
  its choices. A stream is its chunks and the exception that ends it, if one does.
\<close>

record raw_chunk =
  rc_usage :: "int option"
  rc_choices :: "ustr option list"

record raw_stream =
  rs_chunks :: "raw_chunk list"
  rs_error :: "pyexc option"

record llm_times =
  lt_start :: time
  lt_enter :: time
  lt_exit :: time
  lt_first :: time

record 'w llm_env =
  GROQ_LLM_MODEL :: string
  GROQ_LLM_FALLBACK_MODEL :: string
  le_connect :: "string \<Rightarrow> message list \<Rightarrow> raw_stream vendor"
  le_times :: "bool \<Rightarrow> llm_times"
  le_pick :: nat
  le_counters :: "'w counter_db"
  le_quota :: quota_settings
  le_today :: string

record 'w llm_state =
  ls_primary :: CircuitBreaker
  ls_fallback :: CircuitBreaker
  ls_world :: 'w

definition build_messages :: "ustr \<Rightarrow> message list \<Rightarrow> ustr option \<Rightarrow> message list" where
  "build_messages user_text history system_prompt =
     (case system_prompt of None \<Rightarrow> [] | Some p \<Rightarrow> if p \<noteq> [] then [(''system'', p)] else []) @
     last_n 10 history @ [(''user'', user_text)]"

definition filler_phrase :: "nat \<Rightarrow> ustr" where
  "filler_phrase pick = FILLER_PHRASES ! (pick mod length FILLER_PHRASES)"

definition filler_chunk :: "nat \<Rightarrow> LLMChunk" where
  "filler_chunk pick = \<lparr>lc_text = filler_phrase pick, lc_is_final = False, lc_is_filler = True\<rparr>"

definition delta_chunk :: "ustr \<Rightarrow> LLMChunk" where
  "delta_chunk t = \<lparr>lc_text = t, lc_is_final = False, lc_is_filler = False\<rparr>"

definition final_chunk :: "ustr \<Rightarrow> LLMChunk" where
  "final_chunk t = \<lparr>lc_text = t, lc_is_final = True, lc_is_filler = False\<rparr>"

text \<open>
  The receiving loop. \<open>late\<close> says that the first chunk came after the filler threshold; it only
  matters while no chunk has been seen. The result is what was yielded, and the exception or the token
  count and the collected text.
\<close>

fun receive ::
  "bool \<Rightarrow> nat \<Rightarrow> pyexc option \<Rightarrow> bool \<Rightarrow> raw_chunk list \<Rightarrow> int \<Rightarrow> ustr list
   \<Rightarrow> LLMChunk list \<times> (pyexc + int \<times> ustr list)" where
  "receive late pick err first_sent [] tokens parts =
     ([], case err of None \<Rightarrow> Inr (tokens, parts) | Some e \<Rightarrow> Inl e)"
| "receive late pick err first_sent (c # cs) tokens parts =
     (let pre = (if \<not> first_sent \<and> late then [filler_chunk pick] else []);
          tokens' = (case rc_usage c of None \<Rightarrow> tokens | Some n \<Rightarrow> n)
      in (case rc_choices c of
            [] \<Rightarrow> (pre, Inl (OtherException (of_str ''IndexError'')))
          | d # _ \<Rightarrow>
              (let delta = (case d of None \<Rightarrow> [] | Some t \<Rightarrow> t)
               in if delta \<noteq> []
                  then (case receive late pick err True cs tokens' (parts @ [delta]) of
                          (out, r) \<Rightarrow> (pre @ delta_chunk delta # out, r))
                  else (case receive late pick err True cs tokens' parts of (out, r) \<Rightarrow> (pre @ out, r)))))"

definition estimated_tokens :: "message list \<Rightarrow> ustr \<Rightarrow> int" where
  "estimated_tokens messages joined =
     max 1 ((2 * (\<Sum>(r, c)\<leftarrow>messages. int (length c)) + 2 * int (length joined)) div 5)"

definition has_tenant :: "string option \<Rightarrow> bool" where
  "has_tenant t = (case t of None \<Rightarrow> False | Some s \<Rightarrow> s \<noteq> [])"

text \<open>
  \<open>stream\<close> in three parts: opening the vendor's stream inside the breaker, reading it to the end and
  accounting for it outside the breaker, and the whole with the quota check and the change to the
  fallback model.
\<close>

definition llm_open ::
  "'w llm_env \<Rightarrow> bool \<Rightarrow> message list \<Rightarrow> 'w llm_state \<Rightarrow> (raw_stream, 'w llm_state) io" where
  "llm_open E use_fallback messages s =
     (let model = (if use_fallback then GROQ_LLM_FALLBACK_MODEL E else GROQ_LLM_MODEL E);
          tm = le_times E use_fallback
      in case cb_call (lt_enter tm) (lt_exit tm) (with_timeout ''llm'' (le_connect E model messages))
                (if use_fallback then ls_fallback s else ls_primary s) of
           (conn, cb') \<Rightarrow>
             (conn, if use_fallback then s\<lparr>ls_fallback := cb'\<rparr> else s\<lparr>ls_primary := cb'\<rparr>))"

definition llm_read ::
  "'w llm_env \<Rightarrow> bool \<Rightarrow> message list \<Rightarrow> string option \<Rightarrow> raw_stream \<Rightarrow> 'w llm_state
   \<Rightarrow> (LLMChunk list \<times> pyexc option) \<times> 'w llm_state" where
  "llm_read E use_fallback messages tenant_id rs s =
     (let model = (if use_fallback then GROQ_LLM_FALLBACK_MODEL E else GROQ_LLM_MODEL E);
          tm = le_times E use_fallback
      in case receive (lt_first tm - lt_start tm > FILLER_THRESHOLD_MS) (le_pick E)
                (rs_error rs) False (rs_chunks rs) 0 [] of
           (out, Inl e) \<Rightarrow> ((out, Some e), s)
         | (out, Inr (tokens, parts)) \<Rightarrow>
             (let joined = concat parts;
                  tokens_used = (if tokens \<le> 0 then estimated_tokens messages joined else tokens);
                  s' = (if has_tenant tenant_id
                        then s\<lparr>ls_world := commit_usage (le_counters E) (le_today E) (the tenant_id)
                                 tokens_used (estimate_cost_cents model tokens_used) 172800 (ls_world s)\<rparr>
                        else s)
              in ((out @ [final_chunk joined], None), s')))"

definition llm_quota ::
  "'w llm_env \<Rightarrow> bool \<Rightarrow> string option \<Rightarrow> tenant_quota option \<Rightarrow> 'w llm_state \<Rightarrow> pyexc option" where
  "llm_quota E use_fallback tenant_id tenant_cfg s =
     (if has_tenant tenant_id \<and> \<not> use_fallback
      then (case enforce_quota (le_counters E) (le_quota E) (le_today E) (the tenant_id) tenant_cfg (ls_world s) of
              Inl e \<Rightarrow> Some e | Inr _ \<Rightarrow> None)
      else None)"

function llm_stream ::
  "'w llm_env \<Rightarrow> ustr \<Rightarrow> message list option \<Rightarrow> ustr option \<Rightarrow> bool \<Rightarrow> string option
   \<Rightarrow> tenant_quota option \<Rightarrow> 'w llm_state \<Rightarrow> (LLMChunk list \<times> pyexc option) \<times> 'w llm_state" where
  "llm_stream E user_text history system_prompt use_fallback tenant_id tenant_cfg s =
     (let messages = build_messages user_text (case history of None \<Rightarrow> [] | Some h \<Rightarrow> h) system_prompt
      in case llm_quota E use_fallback tenant_id tenant_cfg s of
           Some e \<Rightarrow> (([], Some e), s)
         | None \<Rightarrow>
             (case llm_open E use_fallback messages s of
                (Inl e, s1) \<Rightarrow>
                  if is_open_error e then (([], Some e), s1)
                  else if is_Exception e \<and> \<not> use_fallback
                  then llm_stream E user_text history system_prompt True tenant_id tenant_cfg s1
                  else (([], Some e), s1)
              | (Inr rs, s1) \<Rightarrow> llm_read E use_fallback messages tenant_id rs s1))"
  by pat_completeness auto
termination
  by (relation "measure (\<lambda>(E, t, h, p, use_fallback, i, c, s). if use_fallback then 0 else 1)") auto

declare llm_stream.simps [simp del]

text \<open>The reading loop of \<open>complete\<close>: a final chunk replaces the text collected so far.\<close>

fun gather :: "LLMChunk list \<Rightarrow> ustr list \<Rightarrow> bool \<Rightarrow> ustr list \<times> bool" where
  "gather [] full filler = (full, filler)"
| "gather (c # cs) full filler =
     (if lc_is_filler c then gather cs full True
      else if lc_is_final c then gather cs [lc_text c] filler
      else gather cs (full @ [lc_text c]) filler)"

definition llm_complete ::
  "'w llm_env \<Rightarrow> time \<Rightarrow> time \<Rightarrow> ustr \<Rightarrow> message list option \<Rightarrow> ustr option \<Rightarrow> string option
   \<Rightarrow> tenant_quota option \<Rightarrow> 'w llm_state \<Rightarrow> (LLMResult, 'w llm_state) io" where
  "llm_complete E t0 t1 user_text history system_prompt tenant_id tenant_cfg s =
     (case llm_stream E user_text history system_prompt False tenant_id tenant_cfg s of
        ((chunks, Some e), s') \<Rightarrow> (Inl e, s')
      | ((chunks, None), s') \<Rightarrow>
          (case gather chunks [] False of
             (full, filler) \<Rightarrow>
               (Inr \<lparr>lr_full_text = concat full, lr_duration_ms = t1 - t0, lr_model = GROQ_LLM_MODEL E,
                     lr_filler_triggered = filler\<rparr>, s')))"

section \<open>Lemmas\<close>

lemma chunk_simps [simp]:
  "lc_is_filler (filler_chunk p)" "\<not> lc_is_final (filler_chunk p)"
  "\<not> lc_is_filler (delta_chunk t)" "\<not> lc_is_final (delta_chunk t)" "lc_text (delta_chunk t) = t"
  "\<not> lc_is_filler (final_chunk t)" "lc_is_final (final_chunk t)" "lc_text (final_chunk t) = t"
  by (simp_all add: filler_chunk_def delta_chunk_def final_chunk_def)

definition spoken :: "LLMChunk list \<Rightarrow> ustr" where
  "spoken cs = concat (map lc_text (filter (\<lambda>c. \<not> lc_is_filler c) cs))"

lemma spoken_simps [simp]:
  "spoken [] = []"
  "spoken (c # cs) = (if lc_is_filler c then spoken cs else lc_text c @ spoken cs)"
  "spoken (xs @ ys) = spoken xs @ spoken ys"
  by (simp_all add: spoken_def)

lemma receive_spoken:
  "receive late pick err fs cs tk ps = (out, Inr (tk', ps')) \<Longrightarrow>
   concat ps' = concat ps @ spoken out \<and> (\<forall>c\<in>set out. \<not> lc_is_final c) \<and>
   length (filter lc_is_filler out) \<le> (if \<not> fs \<and> late then 1 else 0)"
proof (induction late pick err fs cs tk ps arbitrary: out tk' ps' rule: receive.induct)
  case (1 late pick err fs tk ps)
  then show ?case by (auto split: option.splits)
next
  case (2 late pick err fs c cs tk ps)
  let ?tk = "case rc_usage c of None \<Rightarrow> tk | Some n \<Rightarrow> n"
  obtain d ds where ch: "rc_choices c = d # ds" using "2.prems" by (cases "rc_choices c") (simp_all add: Let_def)
  let ?delta = "case d of None \<Rightarrow> [] | Some t \<Rightarrow> t"
  show ?case
  proof (cases "?delta = []")
    case True
    obtain out' where "receive late pick err True cs ?tk ps = (out', Inr (tk', ps'))"
      and "out = (if \<not> fs \<and> late then [filler_chunk pick] else []) @ out'"
      using "2.prems" ch True by (auto simp: Let_def split: prod.splits)
    then show ?thesis using "2.IH"(2) [OF refl refl ch refl] True by auto
  next
    case False
    obtain out' where "receive late pick err True cs ?tk (ps @ [?delta]) = (out', Inr (tk', ps'))"
      and "out = (if \<not> fs \<and> late then [filler_chunk pick] else []) @ delta_chunk ?delta # out'"
      using "2.prems" ch False by (auto simp: Let_def split: prod.splits)
    then show ?thesis using "2.IH"(1) [OF refl refl ch refl] False by auto
  qed
qed

lemma gather_no_final:
  "\<forall>c\<in>set cs. \<not> lc_is_final c \<Longrightarrow>
   gather (cs @ [final_chunk t]) acc fl = ([t], fl \<or> (\<exists>c\<in>set cs. lc_is_filler c))"
  by (induction cs arbitrary: acc fl) auto

text \<open>A stream read to its end: the last chunk, and only that one, is final and repeats the others.\<close>

definition complete_stream :: "LLMChunk list \<Rightarrow> bool" where
  "complete_stream chunks \<longleftrightarrow>
     (\<exists>out. chunks = out @ [final_chunk (spoken out)] \<and> (\<forall>c\<in>set out. \<not> lc_is_final c) \<and>
            length (filter lc_is_filler out) \<le> 1)"

lemma llm_read_complete:
  assumes "llm_read E fb ms tid rs s = ((chunks, None), s')"
  shows "complete_stream chunks"
proof -
  let ?late = "lt_first (le_times E fb) - lt_start (le_times E fb) > FILLER_THRESHOLD_MS"
  obtain out tk ps where r: "receive ?late (le_pick E) (rs_error rs) False (rs_chunks rs) 0 [] = (out, Inr (tk, ps))"
    and ch: "chunks = out @ [final_chunk (concat ps)]"
    using assms by (auto simp: llm_read_def Let_def split: prod.splits sum.splits)
  from receive_spoken [OF r] ch show ?thesis
    by (auto simp: complete_stream_def split: if_splits)
qed

lemma llm_stream_complete:
  assumes "llm_stream E u h p fb tid cfg s = ((chunks, None), s')"
  shows "complete_stream chunks"
  using assms
proof (induction E u h p fb tid cfg s arbitrary: chunks s' rule: llm_stream.induct)
  case (1 E u h p fb tid cfg s)
  let ?ms = "build_messages u (case h of None \<Rightarrow> [] | Some h \<Rightarrow> h) p"
  have q: "llm_quota E fb tid cfg s = None"
    using "1.prems" by (cases "llm_quota E fb tid cfg s") (simp_all add: llm_stream.simps Let_def)
  show ?case
  proof (cases "llm_open E fb ?ms s")
    case (Pair conn s1)
    show ?thesis
    proof (cases conn)
      case (Inl e)
      with "1.prems" Pair q have "\<not> is_open_error e" "is_Exception e \<and> \<not> fb"
        "llm_stream E u h p True tid cfg s1 = ((chunks, None), s')"
        by (auto simp: llm_stream.simps [where use_fallback = fb] Let_def split: if_splits)
      then show ?thesis using "1.IH" [OF refl q Pair [symmetric] Inl] by blast
    next
      case (Inr rs)
      with "1.prems" Pair q have "llm_read E fb ?ms tid rs s1 = ((chunks, None), s')"
        by (simp add: llm_stream.simps [where use_fallback = fb] Let_def)
      then show ?thesis by (rule llm_read_complete)
    qed
  qed
qed

lemma cb_call_CLOSED:
  "cb_state (cb_stats cb) = CLOSED \<Longrightarrow> fst (cb_call t0 t1 r cb) = r"
  by (simp add: cb_call_def aenter_def cb_simps)

lemma cb_call_OPEN_early:
  "cb_state (cb_stats cb) = OPEN \<Longrightarrow> t0 - last_failure_time (cb_stats cb) < recovery_timeout (cb_config cb) \<Longrightarrow>
   cb_call t0 t1 r cb = (Inl (CircuitBreakerOpenError (service_name cb)), cb)"
  by (simp add: cb_call_def aenter_def cb_simps)

text \<open>A vendor stream that is well formed: every chunk has a choice, and no error ends it.\<close>

definition clean_stream :: "raw_stream \<Rightarrow> bool" where
  "clean_stream rs \<longleftrightarrow> rs_error rs = None \<and> (\<forall>c\<in>set (rs_chunks rs). rc_choices c \<noteq> [])"

definition stream_text :: "raw_stream \<Rightarrow> ustr" where
  "stream_text rs = concat (map (\<lambda>c. case hd (rc_choices c) of None \<Rightarrow> [] | Some t \<Rightarrow> t) (rs_chunks rs))"

lemma receive_clean:
  assumes "\<forall>c\<in>set cs. rc_choices c \<noteq> []"
  shows "\<exists>out tk' ps'. receive late pick None fs cs tk ps = (out, Inr (tk', ps')) \<and>
    concat ps' = concat ps @ concat (map (\<lambda>c. case hd (rc_choices c) of None \<Rightarrow> [] | Some t \<Rightarrow> t) cs)"
  using assms
proof (induction cs arbitrary: fs tk ps)
  case Nil
  then show ?case by simp
next
  case (Cons c cs)
  then obtain d ds where ch: "rc_choices c = d # ds" by (cases "rc_choices c") auto
  let ?tk = "case rc_usage c of None \<Rightarrow> tk | Some n \<Rightarrow> n" and ?delta = "case d of None \<Rightarrow> [] | Some t \<Rightarrow> t"
  show ?case
  proof (cases "?delta = []")
    case True
    then show ?thesis using Cons.IH [of True ?tk ps] Cons.prems ch by (auto simp: Let_def)
  next
    case False
    then show ?thesis using Cons.IH [of True ?tk "ps @ [?delta]"] Cons.prems ch by (auto simp: Let_def)
  qed
qed

lemma llm_read_clean:
  assumes "clean_stream rs"
  shows "\<exists>out s'. llm_read E fb ms tid rs s = ((out @ [final_chunk (stream_text rs)], None), s')"
proof -
  obtain out tk ps where "receive (lt_first (le_times E fb) - lt_start (le_times E fb) > FILLER_THRESHOLD_MS)
      (le_pick E) None False (rs_chunks rs) 0 [] = (out, Inr (tk, ps))" and "concat ps = stream_text rs"
    using receive_clean [of "rs_chunks rs" "lt_first (le_times E fb) - lt_start (le_times E fb) > FILLER_THRESHOLD_MS"
        "le_pick E" False 0 "[]"] assms
    unfolding clean_stream_def stream_text_def by (metis append_Nil concat.simps(1))
  with assms show ?thesis by (auto simp: llm_read_def clean_stream_def Let_def)
qed

lemma complete_stream_last:
  "complete_stream (out @ [final_chunk t]) \<Longrightarrow> t = spoken out \<and> (\<forall>c\<in>set out. \<not> lc_is_final c)"
  by (auto simp: complete_stream_def final_chunk_def)

lemma llm_complete_of_stream:
  assumes "llm_stream E u h p False tid cfg s = ((out @ [final_chunk t], None), s')"
  shows "llm_complete E t0 t1 u h p tid cfg s =
    (Inr \<lparr>lr_full_text = t, lr_duration_ms = t1 - t0, lr_model = GROQ_LLM_MODEL E,
          lr_filler_triggered = (\<exists>c\<in>set out. lc_is_filler c)\<rparr>, s')"
proof -
  have "\<forall>c\<in>set out. \<not> lc_is_final c"
    using complete_stream_last [OF llm_stream_complete [OF assms]] by blast
  with assms show ?thesis by (simp add: llm_complete_def gather_no_final)
qed

section \<open>Properties\<close>

text \<open>
  What the caller hears is what is recorded. A stream that ends normally yields at most one filler
  phrase, then the answer piece by piece, and one final chunk that repeats exactly the pieces; the
  text \<open>complete\<close> returns is those pieces, without the filler, and its filler flag says whether one
  was played.
\<close>

theorem streamed_text_is_recorded:
  assumes "llm_stream E u h p False tid cfg s = ((chunks, None), s')"
  shows "\<exists>out. chunks = out @ [final_chunk (spoken out)] \<and>
    (\<forall>c\<in>set out. \<not> lc_is_final c) \<and> length (filter lc_is_filler out) \<le> 1 \<and>
    llm_complete E t0 t1 u h p tid cfg s =
      (Inr \<lparr>lr_full_text = spoken out, lr_duration_ms = t1 - t0, lr_model = GROQ_LLM_MODEL E,
            lr_filler_triggered = (\<exists>c\<in>set out. lc_is_filler c)\<rparr>, s')"
proof -
  obtain out where "chunks = out @ [final_chunk (spoken out)]" "\<forall>c\<in>set out. \<not> lc_is_final c"
    "length (filter lc_is_filler out) \<le> 1"
    using llm_stream_complete [OF assms] by (auto simp: complete_stream_def)
  moreover from this assms have "llm_complete E t0 t1 u h p tid cfg s =
      (Inr \<lparr>lr_full_text = spoken out, lr_duration_ms = t1 - t0, lr_model = GROQ_LLM_MODEL E,
            lr_filler_triggered = (\<exists>c\<in>set out. lc_is_filler c)\<rparr>, s')"
    by (intro llm_complete_of_stream) simp
  ultimately show ?thesis by blast
qed

text \<open>
  Which failures the fallback model covers. When the primary model fails with an ordinary error (a
  time-out, an API error, a missing client package) behind a closed breaker and the fallback model answers
  behind its own closed breaker, \<open>complete\<close> succeeds with the fallback's text. But once the primary's
  breaker is open, the call fails at once with \<open>CircuitBreakerOpenError\<close>, leaving every state as it was,
  however healthy the fallback is.
\<close>

theorem llm_fallback_policy:
  fixes E :: "'w llm_env" and s :: "'w llm_state" and u :: ustr and h :: "message list option" and p :: "ustr option"
  defines "ms \<equiv> build_messages u (case h of None \<Rightarrow> [] | Some h \<Rightarrow> h) p"
  shows "(cb_state (cb_stats (ls_primary s)) = CLOSED \<and> cb_state (cb_stats (ls_fallback s)) = CLOSED \<and>
       with_timeout ''llm'' (le_connect E (GROQ_LLM_MODEL E) ms) = Inl e \<and>
       is_Exception e \<and> \<not> is_open_error e \<and>
       le_connect E (GROQ_LLM_FALLBACK_MODEL E) ms = Answer rs \<and> clean_stream rs \<longrightarrow>
       (\<exists>r s'. llm_complete E t0 t1 u h p None cfg s = (Inr r, s') \<and> lr_full_text r = stream_text rs)) \<and>
     (cb_state (cb_stats (ls_primary s)) = OPEN \<and>
       lt_enter (le_times E False) - last_failure_time (cb_stats (ls_primary s))
         < recovery_timeout (cb_config (ls_primary s)) \<longrightarrow>
       llm_complete E t0 t1 u h p None cfg s =
         (Inl (CircuitBreakerOpenError (service_name (ls_primary s))), s))"
proof (intro conjI impI, elim conjE)
  assume cl: "cb_state (cb_stats (ls_primary s)) = CLOSED" "cb_state (cb_stats (ls_fallback s)) = CLOSED"
    and pr: "with_timeout ''llm'' (le_connect E (GROQ_LLM_MODEL E) ms) = Inl e" "is_Exception e" "\<not> is_open_error e"
    and fb: "le_connect E (GROQ_LLM_FALLBACK_MODEL E) ms = Answer rs" "clean_stream rs"
  obtain s1 where s1: "llm_open E False ms s = (Inl e, s1)" "ls_fallback s1 = ls_fallback s"
    using cb_call_CLOSED [OF cl(1), of "lt_enter (le_times E False)" "lt_exit (le_times E False)"
        "with_timeout ''llm'' (le_connect E (GROQ_LLM_MODEL E) ms)"] pr(1)
    by (auto simp: llm_open_def case_prod_unfold Let_def)
  obtain s2 where s2: "llm_open E True ms s1 = (Inr rs, s2)"
    using cb_call_CLOSED [OF cl(2), of "lt_enter (le_times E True)" "lt_exit (le_times E True)"
        "with_timeout ''llm'' (le_connect E (GROQ_LLM_FALLBACK_MODEL E) ms)"] fb(1) s1(2)
    by (auto simp: llm_open_def with_timeout_def case_prod_unfold Let_def)
  obtain out s3 where "llm_read E True ms None rs s2 = ((out @ [final_chunk (stream_text rs)], None), s3)"
    using llm_read_clean [OF fb(2)] by blast
  with s1 s2 pr have "llm_stream E u h p False None cfg s = ((out @ [final_chunk (stream_text rs)], None), s3)"
    by (simp add: llm_stream.simps llm_quota_def has_tenant_def ms_def [symmetric])
  from llm_complete_of_stream [OF this] show
    "\<exists>r s'. llm_complete E t0 t1 u h p None cfg s = (Inr r, s') \<and> lr_full_text r = stream_text rs"
    by auto
next
  assume "cb_state (cb_stats (ls_primary s)) = OPEN \<and>
    lt_enter (le_times E False) - last_failure_time (cb_stats (ls_primary s)) < recovery_timeout (cb_config (ls_primary s))"
  then show "llm_complete E t0 t1 u h p None cfg s =
      (Inl (CircuitBreakerOpenError (service_name (ls_primary s))), s)"
    by (simp add: llm_complete_def llm_stream.simps llm_quota_def has_tenant_def llm_open_def
        cb_call_OPEN_early is_open_error_def Let_def)
qed

text \<open>A primary model that never answers and a fallback that says hello after a long silence.\<close>

definition hello_stream :: raw_stream where
  "hello_stream = \<lparr>rs_chunks = [\<lparr>rc_usage = None, rc_choices = [Some [104, 101]]\<rparr>,
     \<lparr>rc_usage = Some 7, rc_choices = [Some [108, 108, 111]]\<rparr>], rs_error = None\<rparr>"

definition demo_llm_env :: "(string \<Rightarrow> int option) llm_env" where
  "demo_llm_env = \<lparr>GROQ_LLM_MODEL = ''llama-4-scout-17b-16e-instruct'',
     GROQ_LLM_FALLBACK_MODEL = ''llama-3.3-70b-versatile'',
     le_connect = (\<lambda>model ms. if model = ''llama-3.3-70b-versatile'' then Answer hello_stream else NoAnswer),
     le_times = (\<lambda>_. \<lparr>lt_start = 0, lt_enter = 1, lt_exit = 600, lt_first = 700\<rparr>), le_pick = 0,
     le_counters = mem_counters, le_quota = default_quota_settings, le_today = ''20250101''\<rparr>"

definition demo_llm_state :: "(string \<Rightarrow> int option) llm_state" where
  "demo_llm_state = \<lparr>ls_primary = new_breaker ''groq-llm-primary'' llm_config,
     ls_fallback = new_breaker ''groq-llm-fallback'' llm_config, ls_world = Map.empty\<rparr>"

lemma demo_llm_simps:
  "GROQ_LLM_MODEL demo_llm_env = ''llama-4-scout-17b-16e-instruct''"
  "GROQ_LLM_FALLBACK_MODEL demo_llm_env = ''llama-3.3-70b-versatile''"
  "le_connect demo_llm_env model ms = (if model = ''llama-3.3-70b-versatile'' then Answer hello_stream else NoAnswer)"
  "cb_state (cb_stats (ls_primary demo_llm_state)) = CLOSED"
  "cb_state (cb_stats (ls_fallback demo_llm_state)) = CLOSED"
  by (simp_all add: demo_llm_env_def demo_llm_state_def new_breaker_def new_stats_def)

theorem llm_fallback_policy_witness:
  "\<exists>r s'. llm_complete demo_llm_env 0 900 [104, 105] None None None None demo_llm_state = (Inr r, s') \<and>
     lr_full_text r = [104, 101, 108, 108, 111]"
proof -
  have "clean_stream hello_stream" "stream_text hello_stream = [104, 101, 108, 108, 111]"
    by (simp_all add: clean_stream_def stream_text_def hello_stream_def)
  then show ?thesis
    using llm_fallback_policy [THEN conjunct1, of demo_llm_state demo_llm_env "[104, 105]" None None
        "ExternalTimeoutError ''llm''" hello_stream 0 900 None]
    by (simp add: demo_llm_simps with_timeout_def is_Exception_def is_open_error_def)
qed

theorem streamed_text_is_recorded_witness:
  "\<exists>out s'. llm_stream demo_llm_env [104, 105] None None False None None demo_llm_state =
       ((out @ [final_chunk (spoken out)], None), s') \<and> length (filter lc_is_filler out) \<le> 1"
proof -
  obtain chunks s' where run: "llm_stream demo_llm_env [104, 105] None None False None None demo_llm_state = ((chunks, None), s')"
    by (simp add: llm_stream.simps llm_quota_def has_tenant_def llm_open_def llm_read_def cb_call_def
        aenter_def cb_simps demo_llm_simps with_timeout_def is_Exception_def is_open_error_def Let_def
        hello_stream_def demo_llm_state_def new_breaker_def new_stats_def)
  from streamed_text_is_recorded [OF run, of 0 900] run show ?thesis by auto
qed

end
