(* ===== verification/AI_Pipeline.thy ===== *)
theory AI_Pipeline
  imports AI_Services Policy_Gate Session_FSM
begin

text \<open>
  One turn of the voice pipeline, \<^verbatim>\<open>app/services/ai_pipeline.py\<close>: speech to text, the policy gate, the
  language model, text to speech, with the degraded answers when a vendor fails, the moves of the
  session's machine, the latency record and the metric. Logging and its context variables leave no
  trace in the state and are not modelled.
\<close>

section \<open>Data\<close>

definition MSG_STT_UNAVAILABLE :: ustr where
  "MSG_STT_UNAVAILABLE =
     [51396, 49569, 54633, 45768, 45796, 44, 32, 51020, 49457, 32, 51064, 49885, 32, 49436,
     48708, 49828, 44032, 32, 51068, 49884, 51201, 51004, 47196, 32, 51025, 45813, 54616,
     51648, 32, 50506, 49845, 45768, 45796, 46, 32, 51104, 49884, 32, 54980, 32, 45796,
     49884, 32, 47568, 50432, 54644, 32, 51452, 49884, 44192, 50612, 50836, 63]"

definition MSG_LLM_UNAVAILABLE :: ustr where
  "MSG_LLM_UNAVAILABLE =
     [51396, 49569, 54633, 45768, 45796, 44, 32, 65, 73, 32, 51025, 45813, 32, 49373,
     49457, 32, 49436, 48708, 49828, 44032, 32, 51068, 49884, 51201, 51004, 47196, 32,
     51025, 45813, 54616, 51648, 32, 50506, 49845, 45768, 45796, 46, 32, 51104, 49884,
     47564, 32, 44592, 45796, 47140, 32, 51452, 49884, 47732, 32, 44263, 32, 51221, 49345,
     54868, 46121, 45768, 45796, 46]"

record PipelineResult =
  pr_stt_text :: ustr
  pr_llm_text :: ustr
  pr_tts_audio :: "bytes option"
  pr_policy_level :: string
  pr_policy_allowed :: bool
  pr_latency :: "(string \<times> time) list"
  pr_filler_triggered :: bool
  pr_degraded :: bool
  pr_degraded_stage :: "string option"

text \<open>The arguments of \<open>record_pipeline_call\<close>.\<close>

record pipeline_metric =
  pm_tenant_id :: string
  pm_success :: bool
  pm_total_ms :: time
  pm_stt_ms :: time
  pm_llm_ms :: time
  pm_tts_ms :: time
  pm_degraded :: bool

text \<open>
  The environment of one turn: the vendors, the readings of the monotonic clock in the order the code
  takes them, the wall clock of the machine's events, and the text of an exception.
\<close>

record 'w pipe_env =
  pv_stt :: "bytes \<Rightarrow> string \<Rightarrow> ustr vendor"
  pv_stt_times :: call_times
  pv_llm :: "'w llm_env"
  pv_tts :: "ustr \<Rightarrow> string \<Rightarrow> string \<Rightarrow> bytes vendor"
  pv_tts_times :: call_times
  pv_tts_settings :: tts_settings
  pv_start :: time
  pv_t0 :: time
  pv_stt_done :: time
  pv_t1 :: time
  pv_llm_done :: time
  pv_t2 :: time
  pv_tts_done :: time
  pv_total :: time
  pv_now :: time
  pv_str :: "pyexc \<Rightarrow> ustr"

record 'w pipe_state =
  ps_fsm :: SessionFSM
  ps_stt :: CircuitBreaker
  ps_llm :: "'w llm_state"
  ps_tts :: CircuitBreaker
  ps_metrics :: "pipeline_metric list"

section \<open>Steps\<close>

definition pipe_go :: "'w pipe_env \<Rightarrow> SessionState \<Rightarrow> 'w pipe_state \<Rightarrow> (unit, 'w pipe_state) io" where
  "pipe_go E to s =
     (case transition (pv_now E) to None (ps_fsm s) of
        Inl e \<Rightarrow> (Inl e, s) | Inr (_, f') \<Rightarrow> (Inr (), s\<lparr>ps_fsm := f'\<rparr>))"

definition vendor_degraded :: "'w pipe_env \<Rightarrow> string \<Rightarrow> pyexc \<Rightarrow> 'w pipe_state \<Rightarrow> 'w pipe_state" where
  "vendor_degraded E stage e s =
     s\<lparr>ps_fsm := record_event (pv_now E) VENDOR_DEGRADED
          (Some [(''stage'', VStr (of_str stage)), (''error'', VStr (pv_str E e))]) (ps_fsm s)\<rparr>"

definition pipe_metric :: "pipeline_metric \<Rightarrow> 'w pipe_state \<Rightarrow> 'w pipe_state" where
  "pipe_metric m s = s\<lparr>ps_metrics := ps_metrics s @ [m]\<rparr>"

definition latency_get :: "(string \<times> time) list \<Rightarrow> string \<Rightarrow> time" where
  "latency_get l k = (case dict_get l k of None \<Rightarrow> 0 | Some v \<Rightarrow> v)"

text \<open>Step 1: speech to text. An \<open>except Exception\<close> clause lets a cancellation through.\<close>

definition stt_step :: "'w pipe_env \<Rightarrow> bytes \<Rightarrow> 'w pipe_state \<Rightarrow> (STTResult, 'w pipe_state) io" where
  "stt_step E audio s =
     (case transcribe (pv_stt E) (pv_stt_times E) audio ''ko'' (ps_stt s) of
        (r, cb) \<Rightarrow> (r, s\<lparr>ps_stt := cb\<rparr>))"

text \<open>Step 3: the language model, called without a tenant, so no quota applies.\<close>

definition llm_step ::
  "'w pipe_env \<Rightarrow> ustr \<Rightarrow> message list option \<Rightarrow> ustr option \<Rightarrow> 'w pipe_state \<Rightarrow> (LLMResult, 'w pipe_state) io" where
  "llm_step E txt history system_prompt s =
     (case llm_complete (pv_llm E) (pv_t1 E) (pv_llm_done E) txt history system_prompt None None (ps_llm s) of
        (r, l) \<Rightarrow> (r, s\<lparr>ps_llm := l\<rparr>))"

definition tts_step :: "'w pipe_env \<Rightarrow> ustr \<Rightarrow> 'w pipe_state \<Rightarrow> (TTSResult, 'w pipe_state) io" where
  "tts_step E txt s =
     (case synthesize (pv_tts_settings E) (pv_tts E) (pv_tts_times E) txt None None (ps_tts s) of
        (r, cb) \<Rightarrow> (r, s\<lparr>ps_tts := cb\<rparr>))"

section \<open>The turn\<close>

text \<open>The degraded answer when the speech could not be understood.\<close>

definition stt_unavailable ::
  "'w pipe_env \<Rightarrow> string \<Rightarrow> PolicyLevel \<Rightarrow> pyexc \<Rightarrow> 'w pipe_state \<Rightarrow> (PipelineResult, 'w pipe_state) io" where
  "stt_unavailable E tenant_id policy_level e s =
     (let total_ms = pv_total E - pv_start E;
          s' = pipe_metric \<lparr>pm_tenant_id = tenant_id, pm_success = False, pm_total_ms = total_ms, pm_stt_ms = 0,
                 pm_llm_ms = 0, pm_tts_ms = 0, pm_degraded = True\<rparr> (vendor_degraded E ''stt'' e s)
      in (Inr \<lparr>pr_stt_text = [], pr_llm_text = MSG_STT_UNAVAILABLE, pr_tts_audio = None,
               pr_policy_level = PolicyLevel_value policy_level, pr_policy_allowed = True,
               pr_latency = [(''stt_ms'', pv_stt_done E - pv_t0 E), (''total_ms'', total_ms)],
               pr_filler_triggered = False, pr_degraded = True, pr_degraded_stage = Some ''stt''\<rparr>, s'))"

definition policy_blocked ::
  "'w pipe_env \<Rightarrow> string \<Rightarrow> ustr \<Rightarrow> PolicyLevel \<Rightarrow> 'w pipe_state \<Rightarrow> (PipelineResult, 'w pipe_state) io" where
  "policy_blocked E tenant_id txt level s =
     io_bind (pipe_go E RESPONDING s)
       (\<lambda>_ s1.
          let total_ms = pv_total E - pv_start E; stt_ms = pv_stt_done E - pv_t0 E;
              s2 = pipe_metric \<lparr>pm_tenant_id = tenant_id, pm_success = True, pm_total_ms = total_ms,
                     pm_stt_ms = stt_ms, pm_llm_ms = 0, pm_tts_ms = 0, pm_degraded = False\<rparr> s1
          in (Inr \<lparr>pr_stt_text = txt,
                   pr_llm_text = of_str (''[POLICY_BLOCKED:'' @ PolicyLevel_value level @ '']''),
                   pr_tts_audio = None, pr_policy_level = PolicyLevel_value level, pr_policy_allowed = False,
                   pr_latency = [(''stt_ms'', stt_ms), (''total_ms'', total_ms)],
                   pr_filler_triggered = False, pr_degraded = False, pr_degraded_stage = None\<rparr>, s2))"

text \<open>Steps 4 and 5: speak the answer, or skip that when it is a degraded one, and account for the turn.\<close>

definition speak_and_finish ::
  "'w pipe_env \<Rightarrow> string \<Rightarrow> ustr \<Rightarrow> ustr \<Rightarrow> PolicyLevel \<Rightarrow> bool \<Rightarrow> bool \<Rightarrow> 'w pipe_state
   \<Rightarrow> (PipelineResult, 'w pipe_state) io" where
  "speak_and_finish E tenant_id txt llm_text level degraded filler s =
     io_bind (pipe_go E RESPONDING s)
       (\<lambda>_ s1.
          let finish = (\<lambda>audio stage tts_ms s2.
                let latency = [(''stt_ms'', pv_stt_done E - pv_t0 E), (''llm_ms'', pv_llm_done E - pv_t1 E),
                               (''tts_ms'', tts_ms), (''total_ms'', pv_total E - pv_start E)];
                    s3 = pipe_metric \<lparr>pm_tenant_id = tenant_id, pm_success = \<not> degraded,
                           pm_total_ms = latency_get latency ''total_ms'',
                           pm_stt_ms = latency_get latency ''stt_ms'', pm_llm_ms = latency_get latency ''llm_ms'',
                           pm_tts_ms = latency_get latency ''tts_ms'', pm_degraded = degraded\<rparr> s2
                in (Inr \<lparr>pr_stt_text = txt, pr_llm_text = llm_text, pr_tts_audio = audio,
                         pr_policy_level = PolicyLevel_value level, pr_policy_allowed = True,
                         pr_latency = latency, pr_filler_triggered = filler, pr_degraded = degraded,
                         pr_degraded_stage = stage\<rparr>, s3))
          in if degraded then finish None (Some ''llm'') 0 s1
             else (case tts_step E llm_text s1 of
                     (Inr r, s2) \<Rightarrow> finish (Some (tts_audio_bytes r)) None (pv_tts_done E - pv_t2 E) s2
                   | (Inl e, s2) \<Rightarrow>
                       if is_Exception e
                       then finish None (Some ''tts'') (pv_tts_done E - pv_t2 E) (vendor_degraded E ''tts'' e s2)
                       else (Inl e, s2)))"

definition infer_and_speak ::
  "'w pipe_env \<Rightarrow> string \<Rightarrow> ustr \<Rightarrow> message list option \<Rightarrow> PolicyLevel \<Rightarrow> ustr option \<Rightarrow> 'w pipe_state
   \<Rightarrow> (PipelineResult, 'w pipe_state) io" where
  "infer_and_speak E tenant_id txt history level system_prompt s =
     io_bind (pipe_go E INFERRING s)
       (\<lambda>_ s1. case llm_step E txt history system_prompt s1 of
          (Inr r, s2) \<Rightarrow> speak_and_finish E tenant_id txt (lr_full_text r) level False (lr_filler_triggered r) s2
        | (Inl e, s2) \<Rightarrow>
            if is_Exception e
            then speak_and_finish E tenant_id txt MSG_LLM_UNAVAILABLE level True False (vendor_degraded E ''llm'' e s2)
            else (Inl e, s2))"

definition process ::
  "'w pipe_env \<Rightarrow> bytes \<Rightarrow> string \<Rightarrow> string \<Rightarrow> message list option \<Rightarrow> PolicyLevel \<Rightarrow> ustr option
   \<Rightarrow> meta option \<Rightarrow> 'w pipe_state \<Rightarrow> (PipelineResult, 'w pipe_state) io" where
  "process E audio session_id tenant_id history policy_level system_prompt auth_state s =
     io_bind (pipe_go E PROCESSING s)
       (\<lambda>_ s1. case stt_step E audio s1 of
          (Inl e, s2) \<Rightarrow>
            if is_Exception e then stt_unavailable E tenant_id policy_level e s2 else (Inl e, s2)
        | (Inr stt, s2) \<Rightarrow>
            (let ev = evaluate ''llm_inference'' policy_level
                   [(''session_id'', VStr (of_str session_id)), (''text'', VStr (stt_text stt))] auth_state
             in if \<not> pe_allowed ev then policy_blocked E tenant_id (stt_text stt) (pe_level ev) s2
                else infer_and_speak E tenant_id (stt_text stt) history (pe_level ev) system_prompt s2))"

text \<open>\<open>stream_llm\<close> hands the model's stream on, without a tenant.\<close>

definition stream_llm ::
  "'w llm_env \<Rightarrow> ustr \<Rightarrow> message list option \<Rightarrow> ustr option \<Rightarrow> 'w llm_state
   \<Rightarrow> (LLMChunk list \<times> pyexc option) \<times> 'w llm_state" where
  "stream_llm E txt history system_prompt s = llm_stream E txt history system_prompt False None None s"

text \<open>\<open>get_health\<close>: the breakers' statuses, the latency budget and which announcements are not empty.\<close>

definition LATENCY_BUDGET :: "(string \<times> time) list" where
  "LATENCY_BUDGET = [(''stt_ms'', 500), (''llm_first_token_ms'', 500), (''tts_ms'', 300), (''total_ms'', 2500)]"

definition MSG_ALL_UNAVAILABLE :: ustr where
  "MSG_ALL_UNAVAILABLE =
     [54788, 51116, 32, 65, 73, 32, 49436, 48708, 49828, 50640, 32, 51109, 50528, 44032,
     32, 48156, 49373, 54616, 50668, 32, 49345, 45812, 49324, 47196, 32, 50672, 44208,
     54644, 32, 46300, 47532, 44192, 49845, 45768, 45796, 46, 32, 51104, 49884, 47564, 32,
     44592, 45796, 47140, 32, 51452, 49464, 50836, 46]"

definition DEGRADED_MESSAGES :: "(string \<times> ustr) list" where
  "DEGRADED_MESSAGES =
     [(''stt_unavailable'', MSG_STT_UNAVAILABLE), (''llm_unavailable'', MSG_LLM_UNAVAILABLE),
      (''tts_unavailable'', []), (''all_unavailable'', MSG_ALL_UNAVAILABLE)]"

definition get_health :: "cb_registry \<Rightarrow> cb_status list \<times> (string \<times> time) list \<times> (string \<times> bool) list" where
  "get_health reg = (get_all_statuses reg, LATENCY_BUDGET, map (\<lambda>(k, v). (k, v \<noteq> [])) DEGRADED_MESSAGES)"

section \<open>Lemmas\<close>

lemma pipe_go_ok:
  "to \<in> VALID_TRANSITIONS (fsm_state (ps_fsm s)) \<Longrightarrow>
   \<exists>f. pipe_go E to s = (Inr (), s\<lparr>ps_fsm := f\<rparr>) \<and> fsm_state f = to"
  by (auto simp: pipe_go_def transition_ok intro: exI [where x = "\<lparr>fsm_state = to, fsm_events = es\<rparr>" for es])

lemma pipe_go_refused:
  "to \<notin> VALID_TRANSITIONS (fsm_state (ps_fsm s)) \<Longrightarrow> pipe_go E to s = (Inl ValueError, s)"
  by (simp add: pipe_go_def transition_refused)

text \<open>The vendor steps change neither the machine nor the metrics.\<close>

lemma vendor_steps_frame:
  "stt_step E a s = (r1, s') \<Longrightarrow> ps_fsm s' = ps_fsm s \<and> ps_metrics s' = ps_metrics s"
  "llm_step E t h p s = (r2, s') \<Longrightarrow> ps_fsm s' = ps_fsm s \<and> ps_metrics s' = ps_metrics s"
  "tts_step E t s = (r3, s') \<Longrightarrow> ps_fsm s' = ps_fsm s \<and> ps_metrics s' = ps_metrics s"
  by (auto simp: stt_step_def llm_step_def tts_step_def split: prod.splits)

lemma step_simps [simp]:
  "fsm_state (ps_fsm (vendor_degraded E st e s)) = fsm_state (ps_fsm s)"
  "ps_metrics (vendor_degraded E st e s) = ps_metrics s"
  "ps_fsm (pipe_metric m s) = ps_fsm s" "ps_metrics (pipe_metric m s) = ps_metrics s @ [m]"
  by (simp_all add: vendor_degraded_def pipe_metric_def)

text \<open>
  What a turn that returns leaves behind: one metric, and an answer whose audio, degradation flag and
  stage fit together.
\<close>

definition turn_ok :: "'w pipe_state \<Rightarrow> PipelineResult \<Rightarrow> 'w pipe_state \<Rightarrow> bool" where
  "turn_ok s r s' \<longleftrightarrow>
     (\<exists>m. ps_metrics s' = ps_metrics s @ [m] \<and> pm_degraded m = pr_degraded r \<and> pm_success m = (\<not> pr_degraded r)) \<and>
     pr_policy_allowed r \<and>
     (case pr_degraded_stage r of
        None \<Rightarrow> \<not> pr_degraded r \<and> pr_tts_audio r \<noteq> None \<and> fsm_state (ps_fsm s') = RESPONDING
      | Some st \<Rightarrow> pr_tts_audio r = None \<and>
          (st = ''stt'' \<and> pr_degraded r \<and> pr_llm_text r = MSG_STT_UNAVAILABLE \<and>
             fsm_state (ps_fsm s') = PROCESSING \<or>
           st = ''llm'' \<and> pr_degraded r \<and> pr_llm_text r = MSG_LLM_UNAVAILABLE \<and>
             fsm_state (ps_fsm s') = RESPONDING \<or>
           st = ''tts'' \<and> \<not> pr_degraded r \<and> fsm_state (ps_fsm s') = RESPONDING))"

definition turn_post :: "'w pipe_state \<Rightarrow> (PipelineResult, 'w pipe_state) io \<Rightarrow> bool" where
  "turn_post s m \<longleftrightarrow> (case m of (Inl e, _) \<Rightarrow> e = CancelledError | (Inr r, s') \<Rightarrow> turn_ok s r s')"

lemma speak_post:
  assumes "fsm_state (ps_fsm s) = INFERRING" and "ps_metrics s = ps_metrics s0"
    and "degraded \<Longrightarrow> txt' = MSG_LLM_UNAVAILABLE"
  shows "turn_post s0 (speak_and_finish E t txt txt' l degraded filler s)"
proof -
  obtain f where go: "pipe_go E RESPONDING s = (Inr (), s\<lparr>ps_fsm := f\<rparr>)" and f: "fsm_state f = RESPONDING"
    using pipe_go_ok [of RESPONDING s E] assms(1) by auto
  show ?thesis
  proof (cases degraded)
    case True
    with go f assms(2,3) show ?thesis by (simp add: speak_and_finish_def turn_post_def turn_ok_def Let_def)
  next
    case False
    obtain r s2 where tts: "tts_step E txt' (s\<lparr>ps_fsm := f\<rparr>) = (r, s2)" by fastforce
    with vendor_steps_frame(3) [OF tts] False go f assms(2) show ?thesis
      by (cases r) (auto simp: speak_and_finish_def turn_post_def turn_ok_def is_Exception_def Let_def)
  qed
qed

lemma infer_post:
  assumes "fsm_state (ps_fsm s) = PROCESSING" and "ps_metrics s = ps_metrics s0"
  shows "turn_post s0 (infer_and_speak E t txt h l p s)"
proof -
  obtain f where go: "pipe_go E INFERRING s = (Inr (), s\<lparr>ps_fsm := f\<rparr>)" and f: "fsm_state f = INFERRING"
    using pipe_go_ok [of INFERRING s E] assms(1) by auto
  obtain r s2 where llm: "llm_step E txt h p (s\<lparr>ps_fsm := f\<rparr>) = (r, s2)" by fastforce
  have frame: "fsm_state (ps_fsm s2) = INFERRING" "ps_metrics s2 = ps_metrics s0"
    using vendor_steps_frame(2) [OF llm] f assms(2) by simp_all
  show ?thesis
  proof (cases r)
    case (Inl e)
    have "turn_post s0 (speak_and_finish E t txt MSG_LLM_UNAVAILABLE l True False (vendor_degraded E ''llm'' e s2))"
      using frame by (intro speak_post) simp_all
    with Inl go llm show ?thesis
      by (cases "is_Exception e") (simp_all add: infer_and_speak_def, simp add: turn_post_def is_Exception_def)
  next
    case (Inr a)
    with go llm frame show ?thesis by (simp add: infer_and_speak_def speak_post)
  qed
qed

lemma process_post:
  assumes "fsm_state (ps_fsm s) = SPEAKING_DETECTED"
    and "\<And>c. pe_allowed (evaluate ''llm_inference'' level c auth)"
  shows "turn_post s (process E audio sid t h level p auth s)"
proof -
  obtain f where go: "pipe_go E PROCESSING s = (Inr (), s\<lparr>ps_fsm := f\<rparr>)" and f: "fsm_state f = PROCESSING"
    using pipe_go_ok [of PROCESSING s E] assms(1) by auto
  obtain r s2 where stt: "stt_step E audio (s\<lparr>ps_fsm := f\<rparr>) = (r, s2)" by fastforce
  have frame: "fsm_state (ps_fsm s2) = PROCESSING" "ps_metrics s2 = ps_metrics s"
    using vendor_steps_frame(1) [OF stt] f by simp_all
  show ?thesis
  proof (cases r)
    case (Inl e)
    with go stt frame show ?thesis
      by (auto simp: process_def stt_unavailable_def turn_post_def turn_ok_def is_Exception_def Let_def)
  next
    case (Inr a)
    with go stt frame assms(2) show ?thesis by (simp add: process_def infer_post Let_def)
  qed
qed

text \<open>Turns that nobody cancels.\<close>

definition never_cancelled :: "'w pipe_env \<Rightarrow> bool" where
  "never_cancelled E \<longleftrightarrow>
     (\<forall>a l. pv_stt E a l \<noteq> ApiError CancelledError) \<and>
     (\<forall>t l v. pv_tts E t l v \<noteq> ApiError CancelledError) \<and>
     (\<forall>m ms. le_connect (pv_llm E) m ms \<noteq> ApiError CancelledError) \<and>
     (\<forall>m ms rs. le_connect (pv_llm E) m ms = Answer rs \<longrightarrow> rs_error rs \<noteq> Some CancelledError)"

lemma cb_call_error: "fst (cb_call t0 t1 r cb) = Inl e \<Longrightarrow> is_open_error e \<or> r = Inl e"
  by (auto simp: cb_call_def is_open_error_def split: prod.splits bool.splits)

lemma cb_call_not_cancelled: "r \<noteq> Inl CancelledError \<Longrightarrow> fst (cb_call t0 t1 r cb) \<noteq> Inl CancelledError"
  using cb_call_error [of t0 t1 r cb CancelledError] by (auto simp: is_open_error_def)

lemma cb_call_Inr: "fst (cb_call t0 t1 r cb) = Inr a \<Longrightarrow> r = Inr a"
  by (auto simp: cb_call_def split: prod.splits bool.splits)

lemma with_timeout_not_cancelled: "v \<noteq> ApiError CancelledError \<Longrightarrow> with_timeout sv v \<noteq> Inl CancelledError"
  by (auto simp: with_timeout_def split: vendor.splits)

lemma receive_error:
  "receive late pick err fs cs tk ps = (out, Inl CancelledError) \<Longrightarrow> err = Some CancelledError"
proof (induction late pick err fs cs tk ps arbitrary: out rule: receive.induct)
  case (1 late pick err fs tk ps)
  then show ?case by (auto split: option.splits)
next
  case (2 late pick err fs c cs tk ps)
  then show ?case by (auto simp: Let_def split: list.splits if_splits prod.splits)
qed

lemma llm_open_not_cancelled:
  assumes "never_cancelled E" and "llm_open (pv_llm E) fb ms s = (r, s')"
  shows "r \<noteq> Inl CancelledError" and "r = Inr rs \<Longrightarrow> rs_error rs \<noteq> Some CancelledError"
proof -
  let ?L = "pv_llm E"
  let ?model = "if fb then GROQ_LLM_FALLBACK_MODEL ?L else GROQ_LLM_MODEL ?L"
  let ?v = "with_timeout ''llm'' (le_connect ?L ?model ms)"
  let ?cb = "if fb then ls_fallback s else ls_primary s"
  have r: "r = fst (cb_call (lt_enter (le_times ?L fb)) (lt_exit (le_times ?L fb)) ?v ?cb)"
    using assms(2) by (auto simp: llm_open_def case_prod_unfold Let_def)
  have "le_connect ?L ?model ms \<noteq> ApiError CancelledError" using assms(1) by (simp add: never_cancelled_def)
  then show "r \<noteq> Inl CancelledError" unfolding r by (intro cb_call_not_cancelled with_timeout_not_cancelled)
  assume "r = Inr rs"
  then have "?v = Inr rs" unfolding r by (rule cb_call_Inr)
  then have "le_connect ?L ?model ms = Answer rs" by (auto simp: with_timeout_def split: vendor.splits)
  then show "rs_error rs \<noteq> Some CancelledError" using assms(1) by (simp add: never_cancelled_def)
qed

lemma llm_read_not_cancelled:
  assumes "rs_error rs \<noteq> Some CancelledError"
  shows "snd (fst (llm_read L fb ms tid rs s)) \<noteq> Some CancelledError"
  using assms receive_error
  by (fastforce simp: llm_read_def Let_def split: prod.splits sum.splits)

lemma llm_stream_not_cancelled:
  assumes "never_cancelled E"
  shows "snd (fst (llm_stream (pv_llm E) u h p fb None None s)) \<noteq> Some CancelledError"
proof -
  let ?ms = "build_messages u (case h of None \<Rightarrow> [] | Some h \<Rightarrow> h) p"
  have q: "llm_quota (pv_llm E) b None None s = None" for b and s :: "'a llm_state"
    by (simp add: llm_quota_def has_tenant_def)
  have fall: "snd (fst (llm_stream (pv_llm E) u h p True None None s)) \<noteq> Some CancelledError" for s
  proof (cases "llm_open (pv_llm E) True ?ms s")
    case (Pair r s1)
    then show ?thesis
      using llm_open_not_cancelled [OF assms Pair]
      by (cases r) (auto simp: llm_stream.simps q llm_read_not_cancelled Let_def)
  qed
  show ?thesis
  proof (cases "llm_open (pv_llm E) False ?ms s")
    case (Pair r s1)
    then show ?thesis
      using llm_open_not_cancelled [OF assms Pair] fall
      by (cases fb; cases r) (auto simp: llm_stream.simps [where use_fallback = False] q llm_read_not_cancelled Let_def)
  qed
qed

lemma steps_not_cancelled:
  assumes "never_cancelled E"
  shows "fst (stt_step E a s) \<noteq> Inl CancelledError"
    and "fst (tts_step E t s) \<noteq> Inl CancelledError"
    and "fst (llm_step E t h p s) \<noteq> Inl CancelledError"
proof -
  have "with_timeout ''stt'' (pv_stt E a ''ko'') \<noteq> Inl CancelledError"
    using assms by (intro with_timeout_not_cancelled) (simp add: never_cancelled_def)
  from cb_call_not_cancelled [OF this] show "fst (stt_step E a s) \<noteq> Inl CancelledError"
    by (auto simp: stt_step_def transcribe_def case_prod_unfold split: sum.splits)
  have "with_timeout ''tts'' (pv_tts E t l v) \<noteq> Inl CancelledError" for l v
    using assms by (intro with_timeout_not_cancelled) (simp add: never_cancelled_def)
  from cb_call_not_cancelled [OF this] show "fst (tts_step E t s) \<noteq> Inl CancelledError"
    by (auto simp: tts_step_def synthesize_def case_prod_unfold Let_def split: sum.splits if_splits)
  from llm_stream_not_cancelled [OF assms] show "fst (llm_step E t h p s) \<noteq> Inl CancelledError"
    by (auto simp: llm_step_def llm_complete_def case_prod_unfold split: option.splits)
qed

lemma pipe_go_not_cancelled: "fst (pipe_go E to s) \<noteq> Inl CancelledError"
  by (cases "to \<in> VALID_TRANSITIONS (fsm_state (ps_fsm s))")
     (simp_all add: pipe_go_def transition_ok transition_refused)

lemma io_bind_not_cancelled:
  assumes "fst m \<noteq> Inl CancelledError" and "\<And>a s. fst (k a s) \<noteq> Inl CancelledError"
  shows "fst (io_bind m k) \<noteq> Inl CancelledError"
  using assms by (cases m; cases "fst m") auto

lemma speak_not_cancelled:
  "never_cancelled E \<Longrightarrow> fst (speak_and_finish E t ut ut' l d fl s) \<noteq> Inl CancelledError"
  unfolding speak_and_finish_def
  using steps_not_cancelled(2) [of E ut']
  by (intro io_bind_not_cancelled pipe_go_not_cancelled) (auto simp: Let_def case_prod_unfold split: sum.splits)

lemma process_not_cancelled:
  assumes "never_cancelled E"
  shows "fst (process E audio sid t h level p auth s) \<noteq> Inl CancelledError"
proof -
  have blocked: "fst (policy_blocked E t ut l s) \<noteq> Inl CancelledError" for ut l s
    unfolding policy_blocked_def by (intro io_bind_not_cancelled pipe_go_not_cancelled) (simp add: Let_def)
  have infer: "fst (infer_and_speak E t ut h l p s) \<noteq> Inl CancelledError" for ut l s
    unfolding infer_and_speak_def
    using steps_not_cancelled(3) [OF assms, of ut h p] speak_not_cancelled [OF assms]
    by (intro io_bind_not_cancelled pipe_go_not_cancelled) (auto simp: case_prod_unfold split: sum.splits)
  show ?thesis
    unfolding process_def
    using steps_not_cancelled(1) [OF assms, of audio] blocked infer
    by (intro io_bind_not_cancelled pipe_go_not_cancelled)
       (auto simp: case_prod_unfold stt_unavailable_def Let_def split: sum.splits)
qed

subsection \<open>The machine under a turn\<close>

interpretation pframe: effect_frame "\<lambda>s s'. evolves (ps_fsm s) (ps_fsm s')"
  by unfold_locales (auto intro: evolves_trans)

lemma evolves_pipe_go: "evolves (ps_fsm s) (ps_fsm (snd (pipe_go E to s)))"
  by (auto simp: pipe_go_def split: sum.splits intro: evolves_transition)

lemma evolves_degraded: "evolves (ps_fsm s) (ps_fsm (vendor_degraded E st e s))"
  by (simp add: vendor_degraded_def evolves_record)

lemma vendor_steps_fsm [simp]:
  "ps_fsm (snd (stt_step E a s)) = ps_fsm s"
  "ps_fsm (snd (llm_step E t h p s)) = ps_fsm s"
  "ps_fsm (snd (tts_step E t s)) = ps_fsm s"
  using vendor_steps_frame by (metis surjective_pairing)+

lemma evolves_speak: "evolves (ps_fsm s) (ps_fsm (snd (speak_and_finish E t u v l d fl s)))"
proof -
  have tts: "evolves (ps_fsm s1) (ps_fsm (vendor_degraded E ''tts'' e (snd (tts_step E v s1))))" for s1 e
    using evolves_degraded [of "snd (tts_step E v s1)"] by simp
  show ?thesis
    unfolding speak_and_finish_def Let_def
    using tts
    by (intro pframe.frame_bind evolves_pipe_go) (auto simp: case_prod_unfold split: sum.splits)
qed

lemma evolves_infer: "evolves (ps_fsm s) (ps_fsm (snd (infer_and_speak E t u h l p s)))"
proof -
  have bad: "evolves (ps_fsm s1) (ps_fsm (snd (speak_and_finish E t u v l d fl
      (vendor_degraded E ''llm'' e (snd (llm_step E u h p s1))))))" for s1 v d fl e
    using evolves_trans [OF evolves_degraded evolves_speak, of "snd (llm_step E u h p s1)"] by simp
  have good: "evolves (ps_fsm s1) (ps_fsm (snd (speak_and_finish E t u v l d fl (snd (llm_step E u h p s1)))))"
    for s1 v d fl using evolves_speak [of "snd (llm_step E u h p s1)"] by simp
  show ?thesis
    unfolding infer_and_speak_def using bad good
    by (intro pframe.frame_bind evolves_pipe_go) (auto simp: case_prod_unfold split: sum.splits)
qed

lemma evolves_blocked: "evolves (ps_fsm s) (ps_fsm (snd (policy_blocked E t u l s)))"
  unfolding policy_blocked_def by (intro pframe.frame_bind evolves_pipe_go) (simp add: Let_def)

lemma evolves_process: "evolves (ps_fsm s) (ps_fsm (snd (process E audio sid t h level p auth s)))"
proof -
  let ?stt = "\<lambda>s. snd (stt_step E audio s)"
  have 1: "evolves (ps_fsm s1) (ps_fsm (snd (stt_unavailable E t level e (?stt s1))))" for s1 e
    using evolves_degraded [of "?stt s1"] by (simp add: stt_unavailable_def Let_def)
  have 2: "evolves (ps_fsm s1) (ps_fsm (snd (policy_blocked E t u l (?stt s1))))" for s1 u l
    using evolves_blocked [of "?stt s1"] by simp
  have 3: "evolves (ps_fsm s1) (ps_fsm (snd (infer_and_speak E t u h l p (?stt s1))))" for s1 u l
    using evolves_infer [of "?stt s1"] by simp
  show ?thesis
    unfolding process_def using 1 2 3
    by (intro pframe.frame_bind evolves_pipe_go) (auto simp: case_prod_unfold Let_def split: sum.splits)
qed

section \<open>Properties\<close>


text \<open>A turn in which nothing answers.\<close>

definition dead_pipe_env :: "(string \<Rightarrow> int option) pipe_env" where
  "dead_pipe_env = \<lparr>pv_stt = (\<lambda>_ _. Answer [104, 105]), pv_stt_times = \<lparr>ct_start = 0, ct_enter = 0, ct_exit = 1, ct_end = 1\<rparr>,
     pv_llm = demo_llm_env\<lparr>le_connect := \<lambda>_ _. NoAnswer\<rparr>, pv_tts = (\<lambda>_ _ _. NoAnswer),
     pv_tts_times = \<lparr>ct_start = 0, ct_enter = 0, ct_exit = 1, ct_end = 1\<rparr>,
     pv_tts_settings = \<lparr>GOOGLE_TTS_LANGUAGE = ''ko-KR'', GOOGLE_TTS_VOICE = ''ko-KR-Neural2-C''\<rparr>,
     pv_start = 0, pv_t0 = 0, pv_stt_done = 1, pv_t1 = 1, pv_llm_done = 2, pv_t2 = 2, pv_tts_done = 3, pv_total = 3,
     pv_now = 0, pv_str = (\<lambda>_. [])\<rparr>"

definition demo_pipe_state :: "(string \<Rightarrow> int option) pipe_state" where
  "demo_pipe_state = \<lparr>ps_fsm = new_fsm SPEAKING_DETECTED, ps_stt = new_breaker ''groq-stt'' llm_config,
     ps_llm = demo_llm_state, ps_tts = new_breaker ''google-tts'' llm_config, ps_metrics = []\<rparr>"


text \<open>
  A refused turn is never answered: when the transcription succeeds and the policy refuses the
  level, the turn tries to go from \<open>PROCESSING\<close> to \<open>RESPONDING\<close>, which the transition table does not
  have, and raises \<open>ValueError\<close>. No result with \<open>policy_allowed = False\<close> is ever returned, no metric is
  recorded and the machine is left in \<open>PROCESSING\<close>.
\<close>

theorem refused_turn_raises:
  assumes "fsm_state (ps_fsm s) = SPEAKING_DETECTED"
    and "fst (transcribe (pv_stt E) (pv_stt_times E) audio ''ko'' (ps_stt s)) = Inr stt"
    and "\<not> pe_allowed (evaluate ''llm_inference'' level c auth)"
  shows "\<exists>s'. process E audio sid t h level p auth s = (Inl ValueError, s') \<and>
    fsm_state (ps_fsm s') = PROCESSING \<and> ps_metrics s' = ps_metrics s"
proof -
  obtain f where go: "pipe_go E PROCESSING s = (Inr (), s\<lparr>ps_fsm := f\<rparr>)" and f: "fsm_state f = PROCESSING"
    using pipe_go_ok [of PROCESSING s E] assms(1) by auto
  obtain s2 where stt: "stt_step E audio (s\<lparr>ps_fsm := f\<rparr>) = (Inr stt, s2)"
    using assms(2) by (auto simp: stt_step_def case_prod_unfold)
  have frame: "fsm_state (ps_fsm s2) = PROCESSING" "ps_metrics s2 = ps_metrics s"
    using vendor_steps_frame(1) [OF stt] f by simp_all
  then have "pipe_go E RESPONDING s2 = (Inl ValueError, s2)"
    by (intro pipe_go_refused) simp
  moreover have "\<not> pe_allowed (evaluate ''llm_inference'' level c' auth)" for c'
    using assms(3) by (simp add: evaluate_allowed)
  ultimately show ?thesis
    using go stt frame by (simp add: process_def policy_blocked_def Let_def)
qed

theorem refused_turn_raises_witness:
  "\<exists>s'. process dead_pipe_env [] ''s1'' ''acme'' None G5 None None demo_pipe_state = (Inl ValueError, s') \<and>
    fsm_state (ps_fsm s') = PROCESSING"
proof -
  have "fsm_state (ps_fsm demo_pipe_state) = SPEAKING_DETECTED"
    "\<not> pe_allowed (evaluate ''llm_inference'' G5 [] None)"
    by (simp_all add: demo_pipe_state_def handle_g5_def)
  moreover have "fst (transcribe (pv_stt dead_pipe_env) (pv_stt_times dead_pipe_env) [] ''ko'' (ps_stt demo_pipe_state)) =
      Inr \<lparr>stt_text = [104, 105], stt_is_final = True, stt_duration_ms = 1, stt_language = ''ko''\<rparr>"
    by (simp add: transcribe_def dead_pipe_env_def demo_pipe_state_def with_timeout_def cb_call_def aenter_def
        check_state_def new_breaker_def new_stats_def aexit_def Let_def)
  ultimately show ?thesis
    using refused_turn_raises [of demo_pipe_state dead_pipe_env "[]"] by blast
qed

end
