(* ===== verification/Base64_Codec.thy ===== *)
theory Base64_Codec
  imports AgentOE_Prelude
begin

text \<open>
  The two functions of Python's \<^verbatim>\<open>base64\<close> module the backend uses. The encoder carries synthesized speech to
  the client and stored responses to Redis, the decoder reads them back: in the idempotency store and
  in the gRPC service. The decoder is the lenient one, which skips characters outside the alphabet,
  stops at the padding of a complete group and fails on an incomplete one.
\<close>

section \<open>Encoder\<close>

text \<open>\<open>base64.b64encode\<close>, as code points.\<close>

definition b64_char :: "nat \<Rightarrow> nat" where
  "b64_char n = (if n < 26 then 65 + n else if n < 52 then 71 + n else if n < 62 then n - 4
                 else if n = 62 then 43 else 47)"

fun b64encode :: "bytes \<Rightarrow> ustr" where
  "b64encode [] = []"
| "b64encode [a] = [b64_char (a div 4), b64_char (a mod 4 * 16), 61, 61]"
| "b64encode [a, b] = [b64_char (a div 4), b64_char (a mod 4 * 16 + b div 16), b64_char (b mod 16 * 4), 61]"
| "b64encode (a # b # c # xs) =
     b64_char (a div 4) # b64_char (a mod 4 * 16 + b div 16) # b64_char (b mod 16 * 4 + c div 64) #
     b64_char (c mod 64) # b64encode xs"

section \<open>Decoder\<close>

definition b64_val :: "nat \<Rightarrow> nat option" where
  "b64_val c = (if 65 \<le> c \<and> c \<le> 90 then Some (c - 65) else if 97 \<le> c \<and> c \<le> 122 then Some (c - 71)
                else if 48 \<le> c \<and> c \<le> 57 then Some (c + 4) else if c = 43 then Some 62
                else if c = 47 then Some 63 else None)"

text \<open>
  The loop of \<open>binascii.a2b_base64\<close>: the position in the group of four, the bits left over from the
  last character, and the padding seen since it.
\<close>

fun a2b :: "nat \<Rightarrow> nat \<Rightarrow> nat \<Rightarrow> ustr \<Rightarrow> bytes option" where
  "a2b quad left pads [] = (if quad = 0 then Some [] else None)"
| "a2b quad left pads (c # cs) =
     (if c = 61
      then (if 2 \<le> quad \<and> 4 \<le> quad + pads + 1 then Some []
            else a2b quad left (if 2 \<le> quad then pads + 1 else pads) cs)
      else (case b64_val c of
              None \<Rightarrow> a2b quad left pads cs
            | Some v \<Rightarrow>
                if quad = 0 then a2b 1 v 0 cs
                else if quad = 1 then map_option ((#) (left * 4 + v div 16)) (a2b 2 (v mod 16) 0 cs)
                else if quad = 2 then map_option ((#) (left * 16 + v div 4)) (a2b 3 (v mod 4) 0 cs)
                else map_option ((#) (left * 64 + v)) (a2b 0 0 0 cs)))"

definition b64decode :: "ustr \<Rightarrow> bytes option" where
  "b64decode s = (if \<exists>c\<in>set s. c \<ge> 128 then None else a2b 0 0 0 s)"

section \<open>Round trip\<close>

lemma b64_val_char [simp]: "n < 64 \<Longrightarrow> b64_val (b64_char n) = Some n"
  by (auto simp: b64_val_def b64_char_def)

lemma b64_char_not_pad [simp]: "n < 64 \<Longrightarrow> b64_char n \<noteq> 61"
  by (auto simp: b64_char_def)

lemma b64_char_ascii: "n < 64 \<Longrightarrow> b64_char n < 128"
  by (auto simp: b64_char_def)

text \<open>A character of the alphabet, at each position of a group.\<close>

lemma a2b_char [simp]:
  assumes "n < 64"
  shows "a2b 0 l p (b64_char n # cs) = a2b 1 n 0 cs"
    and "a2b (Suc 0) l p (b64_char n # cs) = map_option ((#) (l * 4 + n div 16)) (a2b 2 (n mod 16) 0 cs)"
    and "a2b 2 l p (b64_char n # cs) = map_option ((#) (l * 16 + n div 4)) (a2b 3 (n mod 4) 0 cs)"
    and "a2b 3 l p (b64_char n # cs) = map_option ((#) (l * 64 + n)) (a2b 0 0 0 cs)"
  using assms by simp_all

lemma sextets_lt:
  fixes a b c :: nat
  assumes "a < 256" and "b < 256" and "c < 256"
  shows "a div 4 < 64" "a mod 4 * 16 < 64" "a mod 4 * 16 + b div 16 < 64" "b mod 16 * 4 < 64"
    "b mod 16 * 4 + c div 64 < 64" "c mod 64 < 64"
proof -
  have "a mod 4 < 4" "b mod 16 < 16" "b div 16 < 16" "c div 64 < 4" using assms by simp_all
  then show "a mod 4 * 16 < 64" "a mod 4 * 16 + b div 16 < 64" "b mod 16 * 4 < 64" "b mod 16 * 4 + c div 64 < 64"
    by linarith+
qed (use assms in simp_all)

text \<open>What the decoder makes of a whole group, and of one that ends in padding.\<close>

lemma a2b_group:
  assumes "s < 64" "t < 64" "u < 64" "v < 64"
  shows "a2b 0 0 0 (b64_char s # b64_char t # b64_char u # b64_char v # cs) =
      map_option (\<lambda>r. (s * 4 + t div 16) # (t mod 16 * 16 + u div 4) # (u mod 4 * 64 + v) # r) (a2b 0 0 0 cs)"
    and "a2b 0 0 0 [b64_char s, b64_char t, b64_char u, 61] = Some [s * 4 + t div 16, t mod 16 * 16 + u div 4]"
    and "a2b 0 0 0 [b64_char s, b64_char t, 61, 61] = Some [s * 4 + t div 16]"
  using assms by (simp_all add: option.map_comp o_def)

lemma regroup:
  fixes a b c :: nat
  assumes "b < 256" and "c < 256"
  shows "a div 4 * 4 + (a mod 4 * 16 + b div 16) div 16 = a"
    and "(a mod 4 * 16 + b div 16) mod 16 * 16 + (b mod 16 * 4 + c div 64) div 4 = b"
    and "(b mod 16 * 4 + c div 64) mod 4 * 64 + c mod 64 = c"
proof -
  have lt: "b div 16 < 16" "c div 64 < 4" using assms by simp_all
  then have "(a mod 4 * 16 + b div 16) div 16 = a mod 4" "(a mod 4 * 16 + b div 16) mod 16 = b div 16"
    "(b mod 16 * 4 + c div 64) div 4 = b mod 16" "(b mod 16 * 4 + c div 64) mod 4 = c div 64"
    by simp_all
  then show "a div 4 * 4 + (a mod 4 * 16 + b div 16) div 16 = a"
    "(a mod 4 * 16 + b div 16) mod 16 * 16 + (b mod 16 * 4 + c div 64) div 4 = b"
    "(b mod 16 * 4 + c div 64) mod 4 * 64 + c mod 64 = c"
    by (simp_all only: div_mult_mod_eq)
qed

lemma a2b_b64encode: "\<forall>x\<in>set xs. x < 256 \<Longrightarrow> a2b 0 0 0 (b64encode xs) = Some xs"
proof (induction xs rule: b64encode.induct)
  case 1
  then show ?case by simp
next
  case (2 a)
  then have "a < 256" by simp
  with a2b_group(3) [of "a div 4" "a mod 4 * 16"] sextets_lt [of a 0 0] regroup(1) [of 0 0 a]
  show ?case by (simp only: b64encode.simps) simp
next
  case (3 a b)
  then have "a < 256" "b < 256" by simp_all
  with a2b_group(2) [of "a div 4" "a mod 4 * 16 + b div 16" "b mod 16 * 4"] sextets_lt [of a b 0]
    regroup(1,2) [of b 0 a]
  show ?case by (simp only: b64encode.simps) simp
next
  case (4 a b c xs)
  then have lt: "a < 256" "b < 256" "c < 256" and rest: "a2b 0 0 0 (b64encode xs) = Some xs" by simp_all
  show ?case
    unfolding b64encode.simps a2b_group(1) [OF sextets_lt(1,3,5,6) [OF lt]] rest
    by (simp only: option.map regroup [OF lt(2,3)])
qed

lemma b64encode_ascii: "\<forall>x\<in>set xs. x < 256 \<Longrightarrow> \<forall>c\<in>set (b64encode xs). c < 128"
proof (induction xs rule: b64encode.induct)
  case (4 a b c xs)
  then show ?case using sextets_lt [of a b c] by (simp add: b64_char_ascii)
next
  case (3 a b)
  then show ?case using sextets_lt [of a b 0] by (simp add: b64_char_ascii)
next
  case (2 a)
  then show ?case using sextets_lt [of a 0 0] by (simp add: b64_char_ascii)
qed simp

theorem b64_roundtrip: "\<forall>x\<in>set xs. x < 256 \<Longrightarrow> b64decode (b64encode xs) = Some xs"
  using a2b_b64encode [of xs] b64encode_ascii [of xs] by (auto simp: b64decode_def)

end
