(* ===== verification/Call_Orchestrator.thy ===== *)
theory Call_Orchestrator
  imports Base64_Codec AI_Pipeline Transfer_Service
begin

text \<open>
  The session orchestrator, \<^verbatim>\<open>app/services/call_session_orchestrator.py\<close>: the audio buffer, the control
  messages, one turn with its events, history and persistence, the automatic and requested hand-over,
  the single path that ends a session, and the factory that restores or creates one. A handler returns
  the outbound events in order, or raises; the state it leaves is explicit. The pipeline mutates the
  same machine object as the orchestrator, so the machine is the one inside the pipeline's state.
\<close>

section \<open>Data\<close>

definition AUDIO_SAMPLE_RATE :: nat where "AUDIO_SAMPLE_RATE = 8000"
definition AUDIO_BYTES_PER_MS :: nat where "AUDIO_BYTES_PER_MS = AUDIO_SAMPLE_RATE * 2 div 1000"
definition MIN_AUDIO_BYTES :: nat where "MIN_AUDIO_BYTES = AUDIO_BYTES_PER_MS * 250"
definition IDLE_TIMEOUT_MS :: time where "IDLE_TIMEOUT_MS = 120000"
definition PIPELINE_FAILURE_THRESHOLD :: nat where "PIPELINE_FAILURE_THRESHOLD = 3"
definition MAX_HISTORY_IN_MEMORY :: nat where "MAX_HISTORY_IN_MEMORY = 20"

definition MSG_TRANSFER_IN_PROGRESS :: ustr where
  "MSG_TRANSFER_IN_PROGRESS =
     [49345, 45812, 49324, 32, 51060, 44288, 32, 51473, 51077, 45768, 45796, 46, 32, 51104,
     49884, 47564, 32, 44592, 45796, 47140, 32, 51452, 49464, 50836, 46]"

definition MSG_SERVICE_DOWN :: ustr where
  "MSG_SERVICE_DOWN =
     [65, 73, 32, 49436, 48708, 49828, 32, 51068, 49884, 32, 51109, 50528, 58, 32]"

definition MSG_POLICY_BLOCKED :: ustr where
  "MSG_POLICY_BLOCKED =
     [51221, 52293, 32, 52264, 45800, 32, 40, 108, 101, 118, 101, 108, 61]"

definition MSG_AUTO_TRANSFER :: ustr where
  "MSG_AUTO_TRANSFER =
     [65, 73, 32, 49436, 48708, 49828, 32, 50672, 49549, 32, 51109, 50528, 47196, 32,
     51064, 54620, 32, 51088, 46041, 32, 51060, 44288]"

record OutboundEvent =
  oe_name :: string
  oe_payload :: meta

definition evt :: "string \<Rightarrow> meta \<Rightarrow> OutboundEvent" where
  "evt name payload = \<lparr>oe_name = name, oe_payload = payload\<rparr>"

record orch_id =
  or_session_id :: string
  or_tenant_id :: string
  or_client_id :: string
  or_policy_level :: PolicyLevel

record ('w, 'q) call_state =
  cs_pipe :: "'q pipe_state"
  cs_history :: "message list"
  cs_audio_buffer :: bytes
  cs_listening :: bool
  cs_last_activity :: time
  cs_closed :: bool
  cs_should_close :: bool
  cs_failure_count :: nat
  cs_world :: 'w

record ('w, 'q) call_env =
  ce_db :: "'w session_db"
  ce_pipe :: "'q pipe_env"
  ce_now :: time

abbreviation cs_fsm :: "('w, 'q) call_state \<Rightarrow> SessionFSM" where
  "cs_fsm c \<equiv> ps_fsm (cs_pipe c)"

definition with_fsm :: "SessionFSM \<Rightarrow> ('w, 'q) call_state \<Rightarrow> ('w, 'q) call_state" where
  "with_fsm f c = c\<lparr>cs_pipe := (cs_pipe c)\<lparr>ps_fsm := f\<rparr>\<rparr>"

section \<open>Small helpers\<close>

definition transfer_priority :: "TransferReason \<Rightarrow> int" where
  "transfer_priority reason = (if reason \<in> {G4_POLICY, G5_POLICY} then 3 else 5)"

definition is_idle_timeout :: "time \<Rightarrow> ('w, 'q) call_state \<Rightarrow> bool" where
  "is_idle_timeout now c \<longleftrightarrow> now - cs_last_activity c > IDLE_TIMEOUT_MS"

definition state_evt :: "SessionState \<Rightarrow> OutboundEvent" where
  "state_evt st = evt ''state_change'' [(''state'', VStr (of_str (SessionState_value st)))]"

definition error_evt :: "string \<Rightarrow> ustr \<Rightarrow> OutboundEvent" where
  "error_evt code message = evt ''error'' [(''code'', VStr (of_str code)), (''message'', VStr message)]"

text \<open>\<open>_do_transition\<close>: the events it adds, none when the move is not allowed.\<close>

definition do_transition ::
  "('w, 'q) call_env \<Rightarrow> SessionState \<Rightarrow> ('w, 'q) call_state \<Rightarrow> OutboundEvent list \<times> ('w, 'q) call_state" where
  "do_transition E to c =
     (if can_transition to (cs_fsm c)
      then (case transition (ce_now E) to None (cs_fsm c) of
              Inr (_, f) \<Rightarrow> ([state_evt (fsm_state f)], with_fsm f c)
            | Inl _ \<Rightarrow> ([], c))
      else ([], c))"

definition push_turn :: "ustr \<times> ustr \<Rightarrow> message list \<Rightarrow> message list" where
  "push_turn turn history =
     (let h = history @ [(''user'', fst turn), (''assistant'', snd turn)]
      in if length h > MAX_HISTORY_IN_MEMORY then last_n MAX_HISTORY_IN_MEMORY h else h)"

section \<open>Ending and hand-over\<close>

definition end_session ::
  "('w, 'q) call_env \<Rightarrow> orch_id \<Rightarrow> string \<Rightarrow> ('w, 'q) call_state
   \<Rightarrow> (OutboundEvent list, ('w, 'q) call_state) io" where
  "end_session E oid reason c =
     (if cs_closed c then (Inr [], c)
      else
        (case do_transition E ENDED (c\<lparr>cs_closed := True, cs_should_close := True\<rparr>) of
           (es, c1) \<Rightarrow>
             (case repo_end_session (ce_db E) (ce_now E) (or_session_id oid) reason (Some (cs_fsm c1)) (cs_world c1) of
                (Inl e, w') \<Rightarrow>
                  if is_Exception e then (Inr (if es \<noteq> [] then es else [state_evt ENDED]), c1\<lparr>cs_world := w'\<rparr>)
                  else (Inl e, c1\<lparr>cs_world := w'\<rparr>)
              | (Inr _, w') \<Rightarrow> (Inr (if es \<noteq> [] then es else [state_evt ENDED]), c1\<lparr>cs_world := w'\<rparr>))))"

text \<open>
  The orchestrator builds its \<open>TransferService\<close> without a CTI connector, and always asks for the
  \<open>CALLBACK\<close> fallback.
\<close>

definition agent_val :: "TransferResult \<Rightarrow> pyval" where
  "agent_val r = (case res_agent_name r of
      Some n \<Rightarrow> if n \<noteq> [] then VStr n else opt_val (res_agent_id r)
    | None \<Rightarrow> opt_val (res_agent_id r))"

definition call_transfer ::
  "('w, 'q) call_env \<Rightarrow> TransferRequest \<Rightarrow> TransferFallback \<Rightarrow> ('w, 'q) call_state
   \<Rightarrow> (TransferResult, ('w, 'q) call_state) io" where
  "call_transfer E req fallback c =
     (case transfer_request (ce_db E) None (ce_now E) req fallback 0 (cs_fsm c, cs_world c) of
        (r, (f, w)) \<Rightarrow> (r, (with_fsm f c)\<lparr>cs_world := w\<rparr>))"

definition trigger_transfer ::
  "('w, 'q) call_env \<Rightarrow> orch_id \<Rightarrow> TransferReason \<Rightarrow> ustr \<Rightarrow> ('w, 'q) call_state
   \<Rightarrow> (OutboundEvent list, ('w, 'q) call_state) io" where
  "trigger_transfer E oid reason context_hint c =
     (let req = \<lparr>tr_session_id = or_session_id oid, tr_tenant_id = or_tenant_id oid, tr_reason = reason,
                 tr_context_summary = build_context_summary (cs_history c) context_hint,
                 tr_policy_level = ''G1'', tr_priority = transfer_priority reason, tr_requested_at = ce_now E\<rparr>
      in io_bind (call_transfer E req CALLBACK c)
           (\<lambda>result c1.
              let update = evt ''transfer_update''
                    [(''status'', VStr (of_str (TransferStatus_value (res_status result)))),
                     (''message'', VStr (res_message result)), (''agent'', agent_val result)]
              in if res_status result = ACCEPTED
                 then io_bind (end_session E oid ''transfer_accepted'' c1) (\<lambda>es c2. (Inr (update # es), c2))
                 else if res_fallback_action result = Some AI_RESUME
                 then (Inr [update, state_evt (fsm_state (cs_fsm c1))], c1)
                 else (Inr [update], c1)))"

definition check_auto_transfer ::
  "('w, 'q) call_env \<Rightarrow> orch_id \<Rightarrow> ('w, 'q) call_state \<Rightarrow> (OutboundEvent list, ('w, 'q) call_state) io" where
  "check_auto_transfer E oid c =
     (if cs_failure_count c \<ge> PIPELINE_FAILURE_THRESHOLD
      then trigger_transfer E oid REPEATED_FAILURE MSG_AUTO_TRANSFER
             (with_fsm (record_event (ce_now E) VENDOR_DEGRADED
                (Some [(''failure_count'', VInt (int (cs_failure_count c)))]) (cs_fsm c)) c)
      else (Inr [], c))"

section \<open>One turn\<close>

text \<open>\<open>_persist_turn\<close> swallows what the stores raise.\<close>

definition persist_turn ::
  "('w, 'q) call_env \<Rightarrow> orch_id \<Rightarrow> PipelineResult \<Rightarrow> ('w, 'q) call_state \<Rightarrow> (unit, ('w, 'q) call_state) io" where
  "persist_turn E oid r c =
     (case save_turn (ce_db E) (ce_now E) (or_session_id oid) (cs_fsm c) (pr_stt_text r) (pr_llm_text r)
             (pr_latency r) (pr_policy_level r) (cs_world c) of
        (Inl e, w') \<Rightarrow> (if is_Exception e then Inr () else Inl e, c\<lparr>cs_world := w'\<rparr>)
      | (Inr _, w') \<Rightarrow> (Inr (), c\<lparr>cs_world := w'\<rparr>))"

text \<open>The two \<open>except\<close> clauses: an open breaker and any other exception; a cancellation passes.\<close>

definition pipeline_failed ::
  "('w, 'q) call_env \<Rightarrow> orch_id \<Rightarrow> OutboundEvent list \<Rightarrow> pyexc \<Rightarrow> ('w, 'q) call_state
   \<Rightarrow> (OutboundEvent list, ('w, 'q) call_state) io" where
  "pipeline_failed E oid events e c =
     (let c1 = c\<lparr>cs_failure_count := cs_failure_count c + 1\<rparr>;
          ev = (case e of
                  CircuitBreakerOpenError name \<Rightarrow> error_evt ''SERVICE_UNAVAILABLE'' (MSG_SERVICE_DOWN @ of_str name)
                | _ \<Rightarrow> error_evt ''PIPELINE_ERROR'' (pv_str (ce_pipe E) e))
      in io_bind (check_auto_transfer E oid c1)
           (\<lambda>es c2. case do_transition E LISTENING c2 of
              (es', c3) \<Rightarrow> (Inr (events @ [ev] @ es @ es'), c3)))"

definition latency_val :: "(string \<times> time) list \<Rightarrow> pyval" where
  "latency_val l = VDict (map (\<lambda>(k, v). (k, VInt v)) l)"

text \<open>What follows a pipeline run that returned.\<close>

definition answer_turn ::
  "('w, 'q) call_env \<Rightarrow> orch_id \<Rightarrow> OutboundEvent list \<Rightarrow> PipelineResult \<Rightarrow> ('w, 'q) call_state
   \<Rightarrow> (OutboundEvent list, ('w, 'q) call_state) io" where
  "answer_turn E oid events r c =
     (let spoken_evts = evt ''llm_chunk'' [(''text'', VStr (pr_llm_text r)), (''is_final'', VBool True),
                          (''is_filler'', VBool (pr_filler_triggered r))] #
            (case pr_tts_audio r of
               None \<Rightarrow> []
             | Some a \<Rightarrow> if a \<noteq> [] then [evt ''tts_ready'' [(''audio_b64'', VStr (b64encode a)),
                                                           (''text'', VStr (pr_llm_text r))]] else []);
          c1 = c\<lparr>cs_history := push_turn (pr_stt_text r, pr_llm_text r) (cs_history c)\<rparr>;
          done = evt ''pipeline_done'' [(''latency'', latency_val (pr_latency r)),
                   (''policy_level'', VStr (of_str (pr_policy_level r)))]
      in io_bind (persist_turn E oid r c1)
           (\<lambda>_ c2. case do_transition E LISTENING c2 of
              (es', c3) \<Rightarrow> (Inr (events @ spoken_evts @ [done] @ es'), c3)))"

definition policy_blocked_turn ::
  "('w, 'q) call_env \<Rightarrow> orch_id \<Rightarrow> OutboundEvent list \<Rightarrow> PipelineResult \<Rightarrow> ('w, 'q) call_state
   \<Rightarrow> (OutboundEvent list, ('w, 'q) call_state) io" where
  "policy_blocked_turn E oid events r c =
     (if pr_policy_level r \<in> {''G4'', ''G5''}
      then io_bind (trigger_transfer E oid (if pr_policy_level r = ''G4'' then G4_POLICY else G5_POLICY)
                      (pr_stt_text r) c)
             (\<lambda>es c1. (Inr (events @ es), c1))
      else (case do_transition E LISTENING c of
              (es', c1) \<Rightarrow>
                (Inr (events @ [error_evt ''POLICY_BLOCKED''
                                  (MSG_POLICY_BLOCKED @ of_str (pr_policy_level r) @ of_str '')'')] @ es'), c1)))"

definition run_pipeline ::
  "('w, 'q) call_env \<Rightarrow> orch_id \<Rightarrow> bytes \<Rightarrow> ('w, 'q) call_state
   \<Rightarrow> (OutboundEvent list, ('w, 'q) call_state) io" where
  "run_pipeline E oid audio c =
     (case do_transition E SPEAKING_DETECTED c of
        (es0, c0) \<Rightarrow>
          if is_transfer_in_progress (cs_fsm c0)
          then (Inr (es0 @ [error_evt ''TRANSFER_IN_PROGRESS'' MSG_TRANSFER_IN_PROGRESS]), c0)
          else
            (case process (ce_pipe E) audio (or_session_id oid) (or_tenant_id oid) (Some (cs_history c0))
                    (or_policy_level oid) None None (cs_pipe c0) of
               (Inl e, p) \<Rightarrow>
                 if is_Exception e then pipeline_failed E oid es0 e (c0\<lparr>cs_pipe := p\<rparr>)
                 else (Inl e, c0\<lparr>cs_pipe := p\<rparr>)
             | (Inr r, p) \<Rightarrow>
                 (let c1 = c0\<lparr>cs_pipe := p, cs_failure_count := 0\<rparr>;
                      es1 = es0 @ [evt ''stt_result'' [(''text'', VStr (pr_stt_text r)), (''is_final'', VBool True)]]
                  in if detect_transfer_intent (pr_stt_text r)
                     then io_bind (trigger_transfer E oid CUSTOMER_REQUEST (pr_stt_text r) c1)
                            (\<lambda>es c2. (Inr (es1 @ es), c2))
                     else if \<not> pr_policy_allowed r then policy_blocked_turn E oid es1 r c1
                     else answer_turn E oid es1 r c1)))"

section \<open>Handlers\<close>

definition handle_audio ::
  "('w, 'q) call_env \<Rightarrow> orch_id \<Rightarrow> bytes \<Rightarrow> ('w, 'q) call_state
   \<Rightarrow> (OutboundEvent list, ('w, 'q) call_state) io" where
  "handle_audio E oid data c =
     (let c1 = c\<lparr>cs_last_activity := ce_now E\<rparr>
      in if \<not> cs_listening c1 then (Inr [], c1)
         else let buf = cs_audio_buffer c1 @ data
              in if length buf \<ge> MIN_AUDIO_BYTES then run_pipeline E oid buf (c1\<lparr>cs_audio_buffer := []\<rparr>)
                 else (Inr [], c1\<lparr>cs_audio_buffer := buf\<rparr>))"

record control_msg =
  cm_action :: "string option"
  cm_reason :: "string option"
  cm_context :: "ustr option"

definition handle_control ::
  "('w, 'q) call_env \<Rightarrow> orch_id \<Rightarrow> control_msg \<Rightarrow> ('w, 'q) call_state
   \<Rightarrow> (OutboundEvent list, ('w, 'q) call_state) io" where
  "handle_control E oid msg c =
     (let action = (case cm_action msg of None \<Rightarrow> [] | Some a \<Rightarrow> a);
          c1 = c\<lparr>cs_last_activity := ce_now E\<rparr>
      in if action = ''start_listening''
         then (case do_transition E LISTENING (c1\<lparr>cs_listening := True, cs_audio_buffer := []\<rparr>) of
                 (es, c2) \<Rightarrow> (Inr es, c2))
         else if action = ''stop_listening''
         then (if cs_audio_buffer c1 \<noteq> []
               then run_pipeline E oid (cs_audio_buffer c1) (c1\<lparr>cs_listening := False, cs_audio_buffer := []\<rparr>)
               else (Inr [], c1\<lparr>cs_listening := False\<rparr>))
         else if action = ''hangup'' then end_session E oid ''client_hangup'' c1
         else if action = ''ping'' then (Inr [evt ''pong'' []], c1)
         else if action = ''request_transfer''
         then trigger_transfer E oid
                (case TransferReason_of (case cm_reason msg of None \<Rightarrow> ''MANUAL'' | Some s \<Rightarrow> s) of
                   None \<Rightarrow> MANUAL | Some r \<Rightarrow> r)
                (case cm_context msg of None \<Rightarrow> [] | Some t \<Rightarrow> t) c1
         else (Inr [error_evt ''UNKNOWN_ACTION'' (of_str (''Unknown action: '' @ action))], c1))"

section \<open>Restoring or creating a session\<close>

definition new_call ::
  "'q pipe_state \<Rightarrow> time \<Rightarrow> SessionFSM \<Rightarrow> message list \<Rightarrow> 'w \<Rightarrow> ('w, 'q) call_state" where
  "new_call p now f history w =
     \<lparr>cs_pipe = p\<lparr>ps_fsm := f\<rparr>, cs_history = history, cs_audio_buffer = [], cs_listening = False,
      cs_last_activity = now, cs_closed = False, cs_should_close = False, cs_failure_count = 0, cs_world = w\<rparr>"

definition restored_fsm :: "time \<Rightarrow> snapshot \<Rightarrow> SessionFSM" where
  "restored_fsm now snap =
     (case from_snapshot now snap of
        Inl e \<Rightarrow> new_fsm IDLE
      | Inr f \<Rightarrow>
          if fsm_state f \<notin> {IDLE, LISTENING, ENDED} \<and> can_transition LISTENING f
          then (case transition now LISTENING None f of Inr (_, f') \<Rightarrow> f' | Inl _ \<Rightarrow> new_fsm IDLE)
          else f)"

definition restore_or_create_orchestrator ::
  "'w session_db \<Rightarrow> time \<Rightarrow> orch_id \<Rightarrow> 'q pipe_state \<Rightarrow> 'w
   \<Rightarrow> (('w, 'q) call_state option \<times> OutboundEvent list, 'w) io" where
  "restore_or_create_orchestrator S now oid p w =
     io_bind (restore_hot_state S (or_session_id oid) w)
       (\<lambda>hot w1. case hot of
          None \<Rightarrow>
            io_bind (repo_create S now \<lparr>in_session_id = or_session_id oid, in_tenant_id = or_tenant_id oid,
                       in_client_id = or_client_id oid, in_status = Some (SessionState_value IDLE)\<rparr> w1)
              (\<lambda>_ w2. (Inr (Some (new_call p now (new_fsm IDLE) [] w2),
                            [evt ''connected'' [(''session_id'', VStr (of_str (or_session_id oid))),
                                               (''reconnected'', VBool False)]]), w2))
        | Some h \<Rightarrow>
            if hs_status h = Some (SessionState_value ENDED) then (Inr (None, []), w1)
            else (let f = restored_fsm now (case hs_snapshot h of None \<Rightarrow> IDLE_SNAPSHOT | Some s \<Rightarrow> s);
                      history = (case hs_history h of None \<Rightarrow> [] | Some hs \<Rightarrow> hs)
                  in (Inr (Some (new_call p now f history w1),
                           [evt ''reconnected'' [(''session_id'', VStr (of_str (or_session_id oid))),
                              (''turns_restored'', VInt (int (length history div 2))),
                              (''state'', VStr (of_str (SessionState_value (fsm_state f))))]]), w1)))"

section \<open>Invariant\<close>

definition call_inv :: "('w, 'q) call_state \<Rightarrow> bool" where
  "call_inv c \<longleftrightarrow>
     history_ok (cs_fsm c) \<and> length (cs_audio_buffer c) < MIN_AUDIO_BYTES \<and>
     cs_should_close c = cs_closed c \<and> (cs_closed c \<longrightarrow> fsm_state (cs_fsm c) = ENDED)"

definition call_keeps :: "('w, 'q) call_state \<Rightarrow> ('w, 'q) call_state \<Rightarrow> bool" where
  "call_keeps c c' \<longleftrightarrow> (call_inv c \<longrightarrow> call_inv c') \<and> (cs_closed c \<longrightarrow> cs_closed c')"

interpretation cframe: effect_frame call_keeps
  by unfold_locales (auto simp: call_keeps_def)

lemma with_fsm_simps [simp]:
  "cs_fsm (with_fsm f c) = f" "cs_history (with_fsm f c) = cs_history c"
  "cs_audio_buffer (with_fsm f c) = cs_audio_buffer c" "cs_closed (with_fsm f c) = cs_closed c"
  "cs_should_close (with_fsm f c) = cs_should_close c" "cs_failure_count (with_fsm f c) = cs_failure_count c"
  "cs_world (with_fsm f c) = cs_world c"
  by (simp_all add: with_fsm_def)

text \<open>A change that moves the machine and touches no flag or buffer.\<close>

lemma call_keeps_fsm:
  assumes "evolves (cs_fsm c) (cs_fsm c')" and "cs_audio_buffer c' = cs_audio_buffer c"
    and "cs_closed c' = cs_closed c" and "cs_should_close c' = cs_should_close c"
  shows "call_keeps c c'"
  using assms by (auto simp: call_keeps_def call_inv_def evolves_def)

lemma MIN_AUDIO_BYTES_pos [simp]: "0 < MIN_AUDIO_BYTES"
  by (simp add: MIN_AUDIO_BYTES_def AUDIO_BYTES_PER_MS_def AUDIO_SAMPLE_RATE_def)

lemma call_keeps_buffer:
  assumes "cs_pipe c' = cs_pipe c" and "length (cs_audio_buffer c') < MIN_AUDIO_BYTES"
    and "cs_closed c' = cs_closed c" and "cs_should_close c' = cs_should_close c"
  shows "call_keeps c c'"
  using assms by (auto simp: call_keeps_def call_inv_def)

lemma do_transition_ok:
  "to \<in> VALID_TRANSITIONS (fsm_state (cs_fsm c)) \<Longrightarrow>
   \<exists>f. do_transition E to c = ([state_evt to], with_fsm f c) \<and> fsm_state f = to \<and> evolves (cs_fsm c) f"
  using transition_ok [of to "cs_fsm c" "ce_now E" None]
  by (auto simp: do_transition_def can_transition_def
      intro!: exI [where x = "\<lparr>fsm_state = to, fsm_events = es\<rparr>" for es] evolves_transition)

lemma do_transition_refused:
  "to \<notin> VALID_TRANSITIONS (fsm_state (cs_fsm c)) \<Longrightarrow> do_transition E to c = ([], c)"
  by (simp add: do_transition_def can_transition_def)

lemma keeps_do_transition: "call_keeps c (snd (do_transition E to c))"
proof (cases "to \<in> VALID_TRANSITIONS (fsm_state (cs_fsm c))")
  case True
  then obtain f where "do_transition E to c = ([state_evt to], with_fsm f c)" "evolves (cs_fsm c) f"
    using do_transition_ok by blast
  then show ?thesis by (auto intro: call_keeps_fsm)
next
  case False
  then show ?thesis by (simp add: do_transition_refused cframe.frame_refl)
qed

lemma ended_allowed: "s \<noteq> ENDED \<Longrightarrow> ENDED \<in> VALID_TRANSITIONS s"
  by (cases s) simp_all

text \<open>Ending, from a session that is not closed: closed, in \<open>ENDED\<close>, with the one event.\<close>

lemma end_session_open:
  assumes "\<not> cs_closed c"
  shows "\<exists>c'. end_session E oid reason c = (Inr [state_evt ENDED], c') \<and> cs_closed c' \<and> cs_should_close c' \<and>
    fsm_state (cs_fsm c') = ENDED \<and> evolves (cs_fsm c) (cs_fsm c') \<and>
    cs_audio_buffer c' = cs_audio_buffer c \<and> cs_history c' = cs_history c \<and>
    cs_world c' = snd (repo_end_session (ce_db E) (ce_now E) (or_session_id oid) reason (Some (cs_fsm c')) (cs_world c))"
proof -
  let ?c = "c\<lparr>cs_closed := True, cs_should_close := True\<rparr>"
  have raises: "is_Exception e" if "repo_end_session S now sid r f w = (Inl e, w')" for S now sid r f w e and w' :: 'a
    using that by (auto simp: repo_end_session_def is_Exception_def split: if_splits prod.splits)
  obtain es f where tr: "do_transition E ENDED ?c = (es, with_fsm f ?c)" "es = [] \<or> es = [state_evt ENDED]"
    "fsm_state f = ENDED" "evolves (cs_fsm c) f"
  proof (cases "fsm_state (cs_fsm c) = ENDED")
    case True
    then have "do_transition E ENDED ?c = ([], with_fsm (cs_fsm c) ?c)"
      by (simp add: do_transition_refused with_fsm_def)
    with True show thesis by (intro that [of "[]" "cs_fsm c"]) simp_all
  next
    case False
    then show thesis
      using do_transition_ok [of ENDED ?c E] ended_allowed by (auto intro: that)
  qed
  then show ?thesis
    using assms raises
    by (auto simp: end_session_def split: prod.splits sum.splits)
qed

lemma end_session_closed: "cs_closed c \<Longrightarrow> end_session E oid reason c = (Inr [], c)"
  by (simp add: end_session_def)

lemma keeps_end_session: "call_keeps c (snd (end_session E oid reason c))"
proof (cases "cs_closed c")
  case True
  then show ?thesis by (simp add: end_session_closed cframe.frame_refl)
next
  case False
  from end_session_open [OF False, of E oid reason] show ?thesis
    by (auto simp: call_keeps_def call_inv_def evolves_def)
qed

lemma keeps_call_transfer: "call_keeps c (snd (call_transfer E req fb c))"
  using evolves_transfer_request [of "(cs_fsm c, cs_world c)" "ce_db E" None "ce_now E" req fb 0]
  by (intro call_keeps_fsm) (auto simp: call_transfer_def case_prod_unfold)

lemma keeps_trigger_transfer: "call_keeps c (snd (trigger_transfer E oid reason hint c))"
  unfolding trigger_transfer_def Let_def
  by (intro cframe.frame_bind keeps_call_transfer)
     (auto intro!: cframe.frame_refl cframe.frame_bind keeps_end_session)

lemma keeps_check_auto_transfer: "call_keeps c (snd (check_auto_transfer E oid c))"
proof -
  have "call_keeps c (with_fsm (record_event now VENDOR_DEGRADED md (cs_fsm c)) c)" for now md
    by (intro call_keeps_fsm) (simp_all add: evolves_record)
  then show ?thesis
    unfolding check_auto_transfer_def
    by (auto intro: cframe.frame_refl cframe.frame_trans [OF _ keeps_trigger_transfer])
qed

lemma keeps_persist_turn: "call_keeps c (snd (persist_turn E oid r c))"
  by (intro call_keeps_fsm) (simp_all add: persist_turn_def split: prod.splits sum.splits)

lemma keeps_pipeline_failed: "call_keeps c (snd (pipeline_failed E oid es e c))"
proof -
  let ?c = "c\<lparr>cs_failure_count := cs_failure_count c + 1\<rparr>"
  have "call_keeps c ?c" by (intro call_keeps_fsm) simp_all
  moreover have "call_keeps ?c (snd (pipeline_failed E oid es e c))"
    unfolding pipeline_failed_def Let_def
    using keeps_do_transition
    by (intro cframe.frame_bind keeps_check_auto_transfer) (simp add: case_prod_unfold)
  ultimately show ?thesis by (rule cframe.frame_trans)
qed

lemma keeps_answer_turn: "call_keeps c (snd (answer_turn E oid es r c))"
proof -
  let ?c = "c\<lparr>cs_history := push_turn (pr_stt_text r, pr_llm_text r) (cs_history c)\<rparr>"
  have "call_keeps c ?c" by (intro call_keeps_fsm) simp_all
  moreover have "call_keeps ?c (snd (answer_turn E oid es r c))"
    unfolding answer_turn_def Let_def
    using keeps_do_transition
    by (intro cframe.frame_bind keeps_persist_turn) (simp add: case_prod_unfold)
  ultimately show ?thesis by (rule cframe.frame_trans)
qed

lemma keeps_policy_blocked_turn: "call_keeps c (snd (policy_blocked_turn E oid es r c))"
proof -
  have "call_keeps c (snd (io_bind (trigger_transfer E oid reason hint c) (\<lambda>es' c1. (Inr (es @ es'), c1))))"
    for reason hint
    by (intro cframe.frame_bind keeps_trigger_transfer) (simp add: cframe.frame_refl)
  then show ?thesis
    using keeps_do_transition [of c E LISTENING] by (simp add: policy_blocked_turn_def case_prod_unfold)
qed

lemma keeps_run_pipeline: "call_keeps c (snd (run_pipeline E oid audio c))"
proof -
  let ?c0 = "snd (do_transition E SPEAKING_DETECTED c)"
  let ?run = "process (ce_pipe E) audio (or_session_id oid) (or_tenant_id oid) (Some (cs_history ?c0))
    (or_policy_level oid) None None (cs_pipe ?c0)"
  let ?p = "snd ?run"
  have p: "call_keeps ?c0 (?c0\<lparr>cs_pipe := ?p\<rparr>)" "call_keeps ?c0 (?c0\<lparr>cs_pipe := ?p, cs_failure_count := 0\<rparr>)"
    using evolves_process [of "cs_pipe ?c0"] by (auto intro!: call_keeps_fsm)
  have bind: "call_keeps c1 (snd (io_bind (trigger_transfer E oid reason hint c1) (\<lambda>es' c2. (Inr (g es'), c2))))"
    for reason hint and g :: "OutboundEvent list \<Rightarrow> OutboundEvent list" and c1 :: "('a, 'b) call_state"
    by (intro cframe.frame_bind keeps_trigger_transfer) (simp add: cframe.frame_refl)
  note chain = cframe.frame_trans [OF p(1) keeps_pipeline_failed] cframe.frame_trans [OF p(2) bind]
    cframe.frame_trans [OF p(2) keeps_policy_blocked_turn] cframe.frame_trans [OF p(2) keeps_answer_turn]
  have "call_keeps ?c0 (snd (run_pipeline E oid audio c))"
    using p(1) chain by (auto simp: run_pipeline_def case_prod_unfold Let_def cframe.frame_refl split: sum.splits)
  with keeps_do_transition show ?thesis by (rule cframe.frame_trans)
qed

lemma keeps_handle_audio: "call_keeps c (snd (handle_audio E oid data c))"
proof -
  let ?c1 = "c\<lparr>cs_last_activity := ce_now E\<rparr>"
  have k1: "call_keeps c ?c1" by (intro call_keeps_fsm) simp_all
  have k2: "call_keeps c (?c1\<lparr>cs_audio_buffer := []\<rparr>)" by (intro call_keeps_buffer) simp_all
  have k3: "call_keeps c (?c1\<lparr>cs_audio_buffer := b\<rparr>)" if "length b < MIN_AUDIO_BYTES" for b
    using that by (intro call_keeps_buffer) simp_all
  from k1 k3 cframe.frame_trans [OF k2 keeps_run_pipeline] show ?thesis
    by (simp add: handle_audio_def Let_def)
qed

lemma keeps_handle_control: "call_keeps c (snd (handle_control E oid msg c))"
proof -
  let ?c1 = "c\<lparr>cs_last_activity := ce_now E\<rparr>"
  have k1: "call_keeps c ?c1" "call_keeps c (?c1\<lparr>cs_listening := b\<rparr>)" for b by (auto intro!: call_keeps_fsm)
  have k2: "call_keeps c (?c1\<lparr>cs_listening := b, cs_audio_buffer := []\<rparr>)" for b
    by (intro call_keeps_buffer) simp_all
  note chain = cframe.frame_trans [OF k2 keeps_do_transition] cframe.frame_trans [OF k2 keeps_run_pipeline]
    cframe.frame_trans [OF k1(1) keeps_end_session] cframe.frame_trans [OF k1(1) keeps_trigger_transfer]
  show ?thesis
    using k1 chain by (simp add: handle_control_def Let_def case_prod_unfold)
qed

text \<open>A call as the WebSocket handler drives it: any sequence of audio, control messages and endings.\<close>

datatype call_input = Audio bytes | Control control_msg | EndSession string

fun call_step ::
  "orch_id \<Rightarrow> ('w, 'q) call_env \<times> call_input \<Rightarrow> ('w, 'q) call_state \<Rightarrow> ('w, 'q) call_state" where
  "call_step oid (E, Audio data) c = snd (handle_audio E oid data c)"
| "call_step oid (E, Control msg) c = snd (handle_control E oid msg c)"
| "call_step oid (E, EndSession reason) c = snd (end_session E oid reason c)"

lemma keeps_call_step: "call_keeps c (call_step oid i c)"
  by (cases "(oid, i, c)" rule: call_step.cases)
     (auto intro: keeps_handle_audio keeps_handle_control keeps_end_session)

lemma call_inv_new: "history_ok f \<Longrightarrow> call_inv (new_call p now f h w)"
  by (simp add: call_inv_def new_call_def)

section \<open>History\<close>

interpretation hist: bounded_buffer push_turn length "\<lambda>_. MAX_HISTORY_IN_MEMORY"
  by unfold_locales (auto simp: push_turn_def Let_def)

lemma last_n_last_n_append: "last_n n (last_n n xs @ ys) = last_n n (xs @ ys)"
proof (cases "length xs \<le> n")
  case True
  then show ?thesis by (simp add: last_n_all)
next
  case False
  then have "length xs - n + (length (last_n n xs @ ys) - n) = length (xs @ ys) - n" by simp
  then show ?thesis
    using False by (simp add: last_n_def add.commute)
qed

lemma push_turn_last_n: "push_turn t h = last_n MAX_HISTORY_IN_MEMORY (h @ [(''user'', fst t), (''assistant'', snd t)])"
  by (simp add: push_turn_def Let_def last_n_all)

lemma push_turns_last_n:
  "fold push_turn (t # ts) h =
     last_n MAX_HISTORY_IN_MEMORY (h @ concat (map (\<lambda>t. [(''user'', fst t), (''assistant'', snd t)]) (t # ts)))"
proof (induction ts arbitrary: t h)
  case Nil
  show ?case by (simp add: push_turn_last_n)
next
  case (Cons t' ts)
  have "fold push_turn (t # t' # ts) h = fold push_turn (t' # ts) (push_turn t h)" by simp
  also have "\<dots> = last_n MAX_HISTORY_IN_MEMORY
      (push_turn t h @ concat (map (\<lambda>t. [(''user'', fst t), (''assistant'', snd t)]) (t' # ts)))"
    by (rule Cons.IH)
  also have "\<dots> = last_n MAX_HISTORY_IN_MEMORY
      (h @ concat (map (\<lambda>t. [(''user'', fst t), (''assistant'', snd t)]) (t # t' # ts)))"
    unfolding push_turn_last_n last_n_last_n_append by simp
  finally show ?case .
qed

section \<open>The turn\<close>

lemma no_intent_in_silence: "\<not> detect_transfer_intent []"
  by (simp add: detect_transfer_intent_def TRANSFER_KEYWORDS_def lower_def of_str_def)

lemma save_turn_raises: "save_turn S now sid f u a l p w = (Inl e, w') \<Longrightarrow> e = PyMongoError"
  by (auto simp: save_turn_def Let_def split: if_splits prod.splits)

lemma persist_turn_returns: "\<exists>w'. persist_turn E oid r c = (Inr (), c\<lparr>cs_world := w'\<rparr>)"
  by (auto simp: persist_turn_def is_Exception_def dest: save_turn_raises split: prod.splits sum.splits)

text \<open>An answered turn goes back to \<open>LISTENING\<close>, whatever the stores do.\<close>

lemma answer_turn_listens:
  assumes "LISTENING \<in> VALID_TRANSITIONS (fsm_state (cs_fsm c))"
  shows "\<exists>es' c'. answer_turn E oid es r c = (Inr (es @ es' @ [state_evt LISTENING]), c') \<and>
    fsm_state (cs_fsm c') = LISTENING \<and> cs_failure_count c' = cs_failure_count c \<and>
    cs_history c' = push_turn (pr_stt_text r, pr_llm_text r) (cs_history c)"
proof -
  let ?c = "c\<lparr>cs_history := push_turn (pr_stt_text r, pr_llm_text r) (cs_history c)\<rparr>"
  obtain w' where w': "persist_turn E oid r ?c = (Inr (), ?c\<lparr>cs_world := w'\<rparr>)"
    using persist_turn_returns [of E oid r ?c] by auto
  obtain f where "do_transition E LISTENING (?c\<lparr>cs_world := w'\<rparr>) = ([state_evt LISTENING], with_fsm f (?c\<lparr>cs_world := w'\<rparr>))"
      "fsm_state f = LISTENING"
    using do_transition_ok [of LISTENING "?c\<lparr>cs_world := w'\<rparr>" E] assms by auto
  with w' show ?thesis
    by (simp add: answer_turn_def Let_def)
qed

text \<open>A hand-over from a state that allows it, without a connector.\<close>

lemma trigger_transfer_outcome:
  assumes "TRANSFER_REQUESTED \<in> VALID_TRANSITIONS (fsm_state (cs_fsm c))"
    and "trigger_transfer E oid reason hint c = (x, c')"
  shows "(\<exists>u. x = Inr [u] \<and> oe_name u = ''transfer_update'' \<and> fsm_state (cs_fsm c') = TRANSFER_FAILED) \<or>
         (\<exists>e. x = Inl e \<and> (repo_error (or_session_id oid) e \<or> e = CancelledError))"
proof -
  let ?req = "\<lparr>tr_session_id = or_session_id oid, tr_tenant_id = or_tenant_id oid, tr_reason = reason,
     tr_context_summary = build_context_summary (cs_history c) hint, tr_policy_level = ''G1'',
     tr_priority = transfer_priority reason, tr_requested_at = ce_now E\<rparr>"
  obtain r f w where run: "transfer_request (ce_db E) None (ce_now E) ?req CALLBACK 0 (cs_fsm c, cs_world c) = (r, (f, w))"
    by (metis prod_cases3)
  have post: "transfer_ok (ce_db E) (or_session_id oid) CALLBACK r (f, w)"
    using transfer_request_outcome [OF _ run] assms(1) by simp
  show ?thesis
  proof (cases r)
    case (Inl e)
    with post run assms(2) show ?thesis
      by (auto simp: trigger_transfer_def call_transfer_def transfer_ok_def transfer_post_def is_Exception_def)
  next
    case (Inr res)
    with run have "res_status res \<noteq> ACCEPTED" "res_fallback_action res \<noteq> Some AI_RESUME"
      using no_connector_no_accept by blast+
    moreover from this post Inr have "fsm_state f = TRANSFER_FAILED" by (simp add: transfer_ok_def transfer_post_def)
    ultimately show ?thesis
      using Inr run assms(2) by (auto simp: trigger_transfer_def call_transfer_def evt_def)
  qed
qed

interpretation hframe: effect_frame "\<lambda>c c'. cs_history c' = cs_history c"
  by unfold_locales auto

lemma history_end_session: "cs_history (snd (end_session E oid reason c)) = cs_history c"
  using end_session_open [of c E oid reason] by (cases "cs_closed c") (auto simp: end_session_closed)

lemma history_trigger_transfer: "cs_history (snd (trigger_transfer E oid reason hint c)) = cs_history c"
  unfolding trigger_transfer_def Let_def
  by (intro hframe.frame_bind)
     (simp add: call_transfer_def case_prod_unfold, auto intro!: hframe.frame_bind history_end_session)

text \<open>The state the pipeline starts from, and what it leaves, in a turn from \<open>LISTENING\<close>.\<close>

lemma run_pipeline_from_listening:
  assumes "fsm_state (cs_fsm c) = LISTENING" and "never_cancelled (ce_pipe E)" and "or_policy_level oid \<in> {G1, G2}"
  obtains f r p where
    "turn_ok (cs_pipe (with_fsm f c)) r p"
    "run_pipeline E oid audio c =
       (let c1 = (with_fsm f c)\<lparr>cs_pipe := p, cs_failure_count := 0\<rparr>;
            es1 = [state_evt SPEAKING_DETECTED,
                   evt ''stt_result'' [(''text'', VStr (pr_stt_text r)), (''is_final'', VBool True)]]
        in if detect_transfer_intent (pr_stt_text r)
           then io_bind (trigger_transfer E oid CUSTOMER_REQUEST (pr_stt_text r) c1) (\<lambda>es c2. (Inr (es1 @ es), c2))
           else answer_turn E oid es1 r c1)"
proof -
  obtain f where tr: "do_transition E SPEAKING_DETECTED c = ([state_evt SPEAKING_DETECTED], with_fsm f c)"
    and f: "fsm_state f = SPEAKING_DETECTED"
    using do_transition_ok [of SPEAKING_DETECTED c E] assms(1) by auto
  let ?run = "process (ce_pipe E) audio (or_session_id oid) (or_tenant_id oid) (Some (cs_history c))
      (or_policy_level oid) None None (cs_pipe (with_fsm f c))"
  have "pe_allowed (evaluate ''llm_inference'' (or_policy_level oid) ctx None)" for ctx
    using assms(3) by (auto simp: evaluate_allowed)
  then have post: "turn_post (cs_pipe (with_fsm f c)) ?run"
    using f by (intro process_post) simp_all
  moreover have "fst ?run \<noteq> Inl CancelledError" by (rule process_not_cancelled [OF assms(2)])
  ultimately obtain r p where run: "?run = (Inr r, p)" and ok: "turn_ok (cs_pipe (with_fsm f c)) r p"
    by (auto simp: turn_post_def split: prod.splits sum.splits)
  moreover have "\<not> is_transfer_in_progress f" using f by (simp add: is_transfer_in_progress_def)
  moreover have "pr_policy_allowed r" using ok by (simp add: turn_ok_def)
  ultimately show thesis
    using tr by (intro that [of f r p]) (simp_all add: run_pipeline_def Let_def)
qed

lemma turn_ok_state:
  "turn_ok s r p \<Longrightarrow> fsm_state (ps_fsm p) = RESPONDING \<or> fsm_state (ps_fsm p) = PROCESSING"
  by (auto simp: turn_ok_def split: option.splits)

section \<open>Properties\<close>


text \<open>A call on the reference store, with vendors that transcribe but answer nothing else.\<close>

definition demo_oid :: orch_id where
  "demo_oid = \<lparr>or_session_id = ''s1'', or_tenant_id = ''acme'', or_client_id = ''c1'', or_policy_level = G1\<rparr>"

definition demo_env :: "(mem_store, string \<Rightarrow> int option) call_env" where
  "demo_env = \<lparr>ce_db = mem_up, ce_pipe = dead_pipe_env, ce_now = 5\<rparr>"

definition demo_call :: "(mem_store, string \<Rightarrow> int option) call_state" where
  "demo_call = new_call demo_pipe_state 0 (new_fsm LISTENING) [] demo_store"

lemma demo_call_simps [simp]:
  "cs_fsm demo_call = new_fsm LISTENING" "never_cancelled (ce_pipe demo_env)" "or_policy_level demo_oid = G1"
  "cs_history demo_call = []" "\<not> cs_closed demo_call"
  by (simp_all add: demo_call_def new_call_def demo_env_def demo_oid_def never_cancelled_def dead_pipe_env_def
      demo_llm_env_def)




text \<open>
  C8. A session ends once. The first ending of an open session returns the single event that
  announces \<open>ENDED\<close>, raises nothing even when the stores fail, writes the end of the session with its
  reason and final snapshot, and leaves the session closed; every later ending, whatever happened in
  between, returns nothing and changes nothing.
\<close>

theorem session_ends_once:
  assumes "\<not> cs_closed c"
  shows "\<exists>c'. end_session E oid reason c = (Inr [state_evt ENDED], c') \<and> cs_closed c' \<and>
    fsm_state (cs_fsm c') = ENDED \<and>
    cs_world c' = snd (repo_end_session (ce_db E) (ce_now E) (or_session_id oid) reason (Some (cs_fsm c')) (cs_world c)) \<and>
    (\<forall>later E' reason'. let c'' = fold (call_step oid) later c' in
       end_session E' oid reason' c'' = (Inr [], c''))"
proof -
  obtain c' where c': "end_session E oid reason c = (Inr [state_evt ENDED], c')" "cs_closed c'"
    "fsm_state (cs_fsm c') = ENDED"
    "cs_world c' = snd (repo_end_session (ce_db E) (ce_now E) (or_session_id oid) reason (Some (cs_fsm c')) (cs_world c))"
    using end_session_open [OF assms] by blast
  have "call_keeps c' (fold (call_step oid) later c')" for later
    by (intro cframe.frame_fold keeps_call_step)
  with c'(2) have "cs_closed (fold (call_step oid) later c')" for later by (simp add: call_keeps_def)
  with c' show ?thesis by (auto simp: end_session_closed Let_def)
qed

theorem session_ends_once_witness:
  "\<exists>c'. end_session demo_env demo_oid ''normal'' demo_call = (Inr [state_evt ENDED], c') \<and>
     end_session demo_env demo_oid ''again'' c' = (Inr [], c')"
proof -
  obtain c' where c': "end_session demo_env demo_oid ''normal'' demo_call = (Inr [state_evt ENDED], c')"
    "\<forall>later E' reason'. let c'' = fold (call_step demo_oid) later c' in
       end_session E' demo_oid reason' c'' = (Inr [], c'')"
    using session_ends_once [of demo_call demo_env demo_oid "''normal''"] by auto
  from c'(2) [THEN spec, of "[]"] c'(1) show ?thesis by (simp add: Let_def)
qed

text \<open>
  The in-memory history is a sliding window: after any number of completed turns it is exactly
  the last 20 messages of the whole conversation, in order, whatever it was before; so it never grows
  beyond 20 once a turn has completed.
\<close>

theorem history_window:
  assumes "turns \<noteq> []"
  shows "fold push_turn turns h =
      last_n 20 (h @ concat (map (\<lambda>t. [(''user'', fst t), (''assistant'', snd t)]) turns)) \<and>
    length (fold push_turn turns h) \<le> 20"
proof -
  obtain t ts where "turns = t # ts" using assms by (cases turns) auto
  then show ?thesis
    using push_turns_last_n [of t ts h] by (simp only: MAX_HISTORY_IN_MEMORY_def length_last_n) simp
qed

theorem history_window_witness:
  "length (fold push_turn (replicate 12 ([104], [105])) []) \<le> 20"
  using history_window [of "replicate 12 ([104], [105])" "[]"] by simp

lemma restored_fsm_state:
  "fsm_state (restored_fsm now snap) \<in> {IDLE, LISTENING, ENDED, TRANSFER_REQUESTED, TRANSFER_ACCEPTED}"
proof (cases "from_snapshot now snap")
  case (Inl e)
  then show ?thesis by (simp add: restored_fsm_def)
next
  case (Inr f)
  show ?thesis
  proof (cases "LISTENING \<in> VALID_TRANSITIONS (fsm_state f)")
    case True
    then show ?thesis using Inr by (simp add: restored_fsm_def can_transition_def transition_ok)
  next
    case False
    then have "fsm_state f \<in> {IDLE, LISTENING, ENDED, TRANSFER_REQUESTED, TRANSFER_ACCEPTED}"
      by (cases "fsm_state f") simp_all
    with False Inr show ?thesis by (simp add: restored_fsm_def can_transition_def)
  qed
qed

lemma restore_or_create_call:
  assumes "restore_or_create_orchestrator S now oid p w = (Inr (co, es), w')"
  shows "\<exists>f h c ev. co = Some c \<and> es = [ev] \<and> c = new_call p now f h w' \<and>
    fsm_state f \<in> {IDLE, LISTENING, ENDED, TRANSFER_REQUESTED, TRANSFER_ACCEPTED}"
proof -
  obtain hot w1 where hot: "restore_hot_state S (or_session_id oid) w = (Inr hot, w1)"
    using assms by (auto simp: restore_or_create_orchestrator_def io_bind_def split: prod.splits sum.splits)
  show ?thesis
  proof (cases hot)
    case None
    with hot assms show ?thesis
      by (auto simp: restore_or_create_orchestrator_def io_bind_def split: prod.splits sum.splits)
  next
    case (Some h)
    with hot have "hs_status h \<noteq> Some ''ENDED''" by (auto dest: restore_not_ended)
    with Some hot assms show ?thesis
      using restored_fsm_state by (auto simp: restore_or_create_orchestrator_def Let_def)
  qed
qed

text \<open>
  C10. What a reconnect gives. The refusal that the factory documents for an ended session is never
  returned. What is returned is a fresh open session with exactly one event, in a state that is \<open>IDLE\<close>
  or \<open>LISTENING\<close>, or still \<open>ENDED\<close> or in the hand-over states from which \<open>LISTENING\<close> cannot be
  reached; every other interrupted state has been brought back to \<open>LISTENING\<close>. For a session that has
  ended, with the stores up, the factory tries to create it anew and fails on the unique index.
\<close>

theorem reconnect_outcomes:
  "fst (restore_or_create_orchestrator S now oid p w) \<noteq> Inr (None, []) \<and>
   (\<forall>c es w'. restore_or_create_orchestrator S now oid p w = (Inr (Some c, es), w') \<longrightarrow>
      length es = 1 \<and> \<not> cs_closed c \<and> cs_world c = w' \<and>
      fsm_state (cs_fsm c) \<in> {IDLE, LISTENING, ENDED, TRANSFER_REQUESTED, TRANSFER_ACCEPTED}) \<and>
   (session_db_laws S \<and> no_outage S \<and>
    m_find_session S (or_session_id oid) w = Some d \<and> sd_status d = ''ENDED'' \<and>
    r_get_state S (session_key S (or_session_id oid) None) w = None \<longrightarrow>
      fst (restore_or_create_orchestrator S now oid p w) = Inl PyMongoError)"
proof (intro conjI allI impI)
  show "fst (restore_or_create_orchestrator S now oid p w) \<noteq> Inr (None, [])"
    using restore_or_create_call [of S now oid p w None "[]"]
    by (cases "restore_or_create_orchestrator S now oid p w") auto
  fix c es w'
  assume "restore_or_create_orchestrator S now oid p w = (Inr (Some c, es), w')"
  from restore_or_create_call [OF this] show "length es = 1" "\<not> cs_closed c" "cs_world c = w'"
    "fsm_state (cs_fsm c) \<in> {IDLE, LISTENING, ENDED, TRANSFER_REQUESTED, TRANSFER_ACCEPTED}"
    by (auto simp: new_call_def)
next
  assume h: "session_db_laws S \<and> no_outage S \<and>
    m_find_session S (or_session_id oid) w = Some d \<and> sd_status d = ''ENDED'' \<and>
    r_get_state S (session_key S (or_session_id oid) None) w = None"
  then have "restore_hot_state S (or_session_id oid) w = (Inr None, w)"
    by (simp add: restore_hot_state_def get_by_id_def get_session_state_def no_outage_def)
  moreover have "fst (repo_create S now \<lparr>in_session_id = or_session_id oid, in_tenant_id = or_tenant_id oid,
      in_client_id = or_client_id oid, in_status = Some ''IDLE''\<rparr> w) = Inl PyMongoError"
    using h mongo_session_rules(4) [of S]
    by (auto simp: repo_create_def no_outage_def case_prod_unfold Let_def split: bool.split)
  ultimately show "fst (restore_or_create_orchestrator S now oid p w) = Inl PyMongoError"
    by (auto simp: restore_or_create_orchestrator_def io_bind_def split: prod.splits sum.splits)
qed

definition ended_store :: mem_store where
  "ended_store = snd (repo_end_session mem_up 9 ''s1'' ''normal'' None demo_store)"

theorem reconnect_outcomes_witness:
  "fst (restore_or_create_orchestrator mem_up 10 demo_oid demo_pipe_state ended_store) = Inl PyMongoError"
proof -
  obtain d where d: "m_find_session mem_up ''s1'' ended_store = Some d" "sd_status d = ''ENDED''"
    and hot: "r_get_state mem_up (session_key mem_up ''s1'' None) ended_store = None"
    using demo_store_stored mem_up_no_outage
    by (auto simp: ended_store_def repo_end_session_def coherent_simps session_db_rules [OF mem_db_laws]
        stored_def mem_db_def mem_update_def)
  have "or_session_id demo_oid = ''s1''" by (simp add: demo_oid_def)
  with d hot show ?thesis
    using reconnect_outcomes [of mem_up 10 demo_oid demo_pipe_state ended_store d] mem_db_laws mem_up_no_outage
    by simp
qed

end
