(* ===== verification/WS_Backpressure.thy ===== *)
theory WS_Backpressure
  imports AgentOE_Prelude
begin

text \<open>
  The bounded send queue of a WebSocket session, \<^verbatim>\<open>app/core/ws_backpressure.py\<close>: the drop policy of
  \<open>enqueue\<close>, one iteration of the drain loop, and \<open>close\<close>. The event loop runs each of these without
  interruption up to its next \<open>await\<close>, so a session is a sequence of them. The socket is outside the
  repository: whether a send succeeds is an argument of the drain step. \<open>ws_taken\<close> is what the loop
  has taken off the queue, in order; the last one was not delivered if \<open>ws_failed\<close>.
\<close>

section \<open>Data and operations\<close>

definition DEFAULT_MAX_QUEUE_SIZE :: nat where "DEFAULT_MAX_QUEUE_SIZE = 64"

definition AUDIO_EVENT_NAMES :: "string list" where "AUDIO_EVENT_NAMES = [''tts_ready'']"

type_synonym QueuedEvent = "string \<times> ustr"

definition is_audio :: "QueuedEvent \<Rightarrow> bool" where
  "is_audio e \<longleftrightarrow> fst e \<in> set AUDIO_EVENT_NAMES"

datatype drop_kind = DropAudio | DropFull | DropEvent

record BoundedWSSender =
  ws_max_queue_size :: nat
  ws_queue :: "QueuedEvent list"
  ws_closed :: bool
  ws_running :: bool
  ws_taken :: "QueuedEvent list"
  ws_failed :: bool
  ws_drops :: "drop_kind list"

definition new_sender :: "nat \<Rightarrow> BoundedWSSender" where
  "new_sender n = \<lparr>ws_max_queue_size = n, ws_queue = [], ws_closed = False, ws_running = True,
                   ws_taken = [], ws_failed = False, ws_drops = []\<rparr>"

text \<open>The loop that deletes the first audio event, if there is one.\<close>

fun drop_oldest_audio :: "QueuedEvent list \<Rightarrow> QueuedEvent list option" where
  "drop_oldest_audio [] = None"
| "drop_oldest_audio (e # q) =
     (if is_audio e then Some q
      else (case drop_oldest_audio q of None \<Rightarrow> None | Some q' \<Rightarrow> Some (e # q')))"

definition enqueue :: "string \<Rightarrow> ustr \<Rightarrow> BoundedWSSender \<Rightarrow> bool \<times> BoundedWSSender" where
  "enqueue name payload s =
     (if ws_closed s then (False, s)
      else if length (ws_queue s) < ws_max_queue_size s
      then (True, s\<lparr>ws_queue := ws_queue s @ [(name, payload)]\<rparr>)
      else if is_audio (name, payload)
      then (case drop_oldest_audio (ws_queue s) of
              Some q \<Rightarrow> (True, s\<lparr>ws_queue := q @ [(name, payload)], ws_drops := ws_drops s @ [DropAudio]\<rparr>)
            | None \<Rightarrow> (False, s\<lparr>ws_drops := ws_drops s @ [DropFull]\<rparr>))
      else (False, s\<lparr>ws_drops := ws_drops s @ [DropEvent]\<rparr>))"

definition drain_step :: "bool \<Rightarrow> BoundedWSSender \<Rightarrow> BoundedWSSender" where
  "drain_step send_ok s =
     (if \<not> ws_running s then s
      else (case ws_queue s of
              [] \<Rightarrow> if ws_closed s then s\<lparr>ws_running := False\<rparr> else s
            | e # q \<Rightarrow>
                (let s1 = s\<lparr>ws_queue := q, ws_taken := ws_taken s @ [e]\<rparr>
                 in if send_ok then s1
                    else s1\<lparr>ws_closed := True, ws_running := False, ws_failed := True\<rparr>)))"

text \<open>\<open>close\<close> asks the loop to stop; after the grace period the task is cancelled.\<close>

definition ws_close :: "BoundedWSSender \<Rightarrow> BoundedWSSender" where
  "ws_close s = s\<lparr>ws_closed := True\<rparr>"

definition ws_cancel :: "BoundedWSSender \<Rightarrow> BoundedWSSender" where
  "ws_cancel s = s\<lparr>ws_running := False\<rparr>"

definition queue_depth :: "BoundedWSSender \<Rightarrow> nat" where
  "queue_depth s = length (ws_queue s)"

datatype ws_op = Enqueue string ustr | Drain bool | Close | Cancel

fun ws_step :: "ws_op \<Rightarrow> BoundedWSSender \<Rightarrow> BoundedWSSender" where
  "ws_step (Enqueue n p) s = snd (enqueue n p s)"
| "ws_step (Drain ok) s = drain_step ok s"
| "ws_step Close s = ws_close s"
| "ws_step Cancel s = ws_cancel s"

text \<open>The events \<open>enqueue\<close> accepted during a session, in order.\<close>

fun accepted :: "ws_op list \<Rightarrow> BoundedWSSender \<Rightarrow> QueuedEvent list" where
  "accepted [] s = []"
| "accepted (Enqueue n p # ops) s =
     (if fst (enqueue n p s) then [(n, p)] else []) @ accepted ops (ws_step (Enqueue n p) s)"
| "accepted (op # ops) s = accepted ops (ws_step op s)"

section \<open>Lemmas\<close>

lemma drop_oldest_audio_spec:
  "drop_oldest_audio q = (if \<exists>e\<in>set q. is_audio e
     then Some (takeWhile (\<lambda>e. \<not> is_audio e) q @ tl (dropWhile (\<lambda>e. \<not> is_audio e) q)) else None)"
  by (induction q) (auto split: option.splits)

lemma drop_oldest_audio_Some:
  assumes "drop_oldest_audio q = Some q'"
  shows "Suc (length q') = length q" and "filter (\<lambda>e. \<not> is_audio e) q' = filter (\<lambda>e. \<not> is_audio e) q"
    and "\<exists>a. is_audio a \<and> filter is_audio q = a # filter is_audio q'"
  using assms by (induction q arbitrary: q') (auto split: if_splits option.splits)

interpretation wsq: bounded_buffer ws_step queue_depth ws_max_queue_size
proof unfold_locales
  fix i s
  show "ws_max_queue_size (ws_step i s) = ws_max_queue_size s"
    by (cases i) (auto simp: enqueue_def drain_step_def ws_close_def ws_cancel_def Let_def
        split: option.split list.split)
  assume "queue_depth s \<le> ws_max_queue_size s"
  then show "queue_depth (ws_step i s) \<le> ws_max_queue_size s"
    by (cases i) (auto simp: queue_depth_def enqueue_def drain_step_def ws_close_def ws_cancel_def Let_def
        dest: drop_oldest_audio_Some(1) split: option.splits list.splits)
qed

text \<open>What a step does to the events in flight: those taken, then those queued.\<close>

abbreviation in_flight :: "BoundedWSSender \<Rightarrow> QueuedEvent list" where
  "in_flight s \<equiv> ws_taken s @ ws_queue s"

lemma other_steps_in_flight:
  "in_flight (drain_step ok s) = in_flight s" "in_flight (ws_close s) = in_flight s"
  "in_flight (ws_cancel s) = in_flight s"
  by (simp_all add: drain_step_def ws_close_def ws_cancel_def Let_def split: list.split)

lemma enqueue_in_flight:
  "filter (\<lambda>e. \<not> is_audio e) (in_flight (snd (enqueue n p s))) =
     filter (\<lambda>e. \<not> is_audio e) (in_flight s @ (if fst (enqueue n p s) then [(n, p)] else []))"
  by (auto simp: enqueue_def drop_oldest_audio_Some(2) split: option.split)

lemma run_in_flight:
  "filter (\<lambda>e. \<not> is_audio e) (in_flight (fold ws_step ops s)) =
     filter (\<lambda>e. \<not> is_audio e) (in_flight s @ accepted ops s)"
proof (induction ops s rule: accepted.induct)
  case (2 n p ops s)
  then show ?case using enqueue_in_flight [of n p s] by simp
qed (use other_steps_in_flight in \<open>auto simp: filter_append [symmetric] simp del: filter_append\<close>)

lemma drain_flushes:
  assumes "ws_running s" and "ws_closed s"
  shows "fold ws_step (replicate (Suc (length (ws_queue s))) (Drain True)) s =
    s\<lparr>ws_queue := [], ws_taken := in_flight s, ws_running := False\<rparr>"
  using assms
proof (induction "ws_queue s" arbitrary: s)
  case Nil
  then show ?case by (cases s) (simp add: drain_step_def)
next
  case (Cons e q)
  let ?s = "s\<lparr>ws_queue := q, ws_taken := ws_taken s @ [e]\<rparr>"
  have "drain_step True s = ?s" using Cons.hyps(2) [symmetric] Cons.prems by (simp add: drain_step_def)
  moreover have "fold ws_step (replicate (Suc (length (ws_queue ?s))) (Drain True)) ?s =
      ?s\<lparr>ws_queue := [], ws_taken := in_flight ?s, ws_running := False\<rparr>"
    using Cons.prems by (intro Cons.hyps(1)) simp_all
  ultimately show ?case using Cons.hyps(2) [symmetric] by simp
qed

section \<open>Properties\<close>

text \<open>
  C19. A slow client cannot exhaust memory: however events are enqueued, sent, refused by the socket or
  the session closed, the queue of a new sender never holds more than its maximum.
\<close>

theorem queue_bounded:
  "queue_depth (fold ws_step ops (new_sender n)) \<le> n"
  using wsq.run_bound [of "new_sender n" ops] by (simp add: new_sender_def queue_depth_def)

text \<open>
  State changes and text are never lost once accepted, and never overtake each other: in every
  run the non-audio events sent or still queued are exactly those accepted, in the order of their
  acceptance. Only audio is dropped from the queue to make room.
\<close>

theorem accepted_events_kept:
  "filter (\<lambda>e. \<not> is_audio e)
     (ws_taken (fold ws_step ops (new_sender n)) @ ws_queue (fold ws_step ops (new_sender n))) =
   filter (\<lambda>e. \<not> is_audio e) (accepted ops (new_sender n))"
  using run_in_flight [of ops "new_sender n"] by (simp add: new_sender_def)

text \<open>
  Fresh audio wins over stale audio: on a full queue that holds audio, a new audio event is
  accepted and goes last, the oldest audio event goes, every other event keeps its place and the
  queue stays full. A full queue refuses a non-audio event and stays as it is.
\<close>

theorem full_queue_policy:
  assumes "\<not> ws_closed s" and "length (ws_queue s) = ws_max_queue_size s"
    and "ws_queue s = pre @ old # post" and "is_audio old" and "\<forall>e\<in>set pre. \<not> is_audio e"
  shows "(is_audio (n, p) \<longrightarrow> (\<exists>s'. enqueue n p s = (True, s') \<and> ws_queue s' = pre @ post @ [(n, p)] \<and>
            length (ws_queue s') = ws_max_queue_size s)) \<and>
         (\<not> is_audio (n, p) \<longrightarrow> (\<exists>s'. enqueue n p s = (False, s') \<and> ws_queue s' = ws_queue s))"
proof -
  have "takeWhile (\<lambda>e. \<not> is_audio e) (pre @ old # post) = pre" "dropWhile (\<lambda>e. \<not> is_audio e) (pre @ old # post) = old # post"
    using assms(4,5) by (simp_all add: takeWhile_append2 dropWhile_append2)
  then have "drop_oldest_audio (ws_queue s) = Some (pre @ post)"
    using assms(3,4) by (simp add: drop_oldest_audio_spec)
  then show ?thesis using assms(1-3) by (auto simp: enqueue_def)
qed

theorem full_queue_policy_witness:
  "\<exists>s'. enqueue ''tts_ready'' [3] ((new_sender 2)\<lparr>ws_queue := [(''state_change'', [1]), (''tts_ready'', [2])]\<rparr>) = (True, s') \<and>
     ws_queue s' = [(''state_change'', [1]), (''tts_ready'', [3])]"
  using full_queue_policy [of "(new_sender 2)\<lparr>ws_queue := [(''state_change'', [1]), (''tts_ready'', [2])]\<rparr>"
      "[(''state_change'', [1])]" "(''tts_ready'', [2])" "[]" "''tts_ready''" "[3]"]
  by (auto simp: new_sender_def is_audio_def AUDIO_EVENT_NAMES_def)

text \<open>
  The last words are delivered: after \<open>close\<close>, a socket that keeps accepting receives every
  event still queued, in order, and then the drain loop stops.
\<close>

theorem close_flushes:
  assumes "ws_running s"
  shows "fold ws_step (Close # replicate (Suc (length (ws_queue s))) (Drain True)) s =
    s\<lparr>ws_closed := True, ws_queue := [], ws_taken := ws_taken s @ ws_queue s, ws_running := False\<rparr>"
  using drain_flushes [of "ws_close s"] assms by (simp add: ws_close_def)

theorem close_flushes_witness:
  "ws_taken (fold ws_step [Close, Drain True, Drain True] ((new_sender 2)\<lparr>ws_queue := [(''state_change'', [1])]\<rparr>)) =
     [(''state_change'', [1])]"
  using close_flushes [of "(new_sender 2)\<lparr>ws_queue := [(''state_change'', [1])]\<rparr>"]
  by (simp add: new_sender_def)

end
