(* ===== verification/Agentic_Nodes.thy ===== *)
theory Agentic_Nodes
  imports AI_Services Scenario_DSL
begin

text \<open>
  The graph state, \<^verbatim>\<open>app/agentic/state.py\<close>, and the node functions under \<^verbatim>\<open>app/agentic/nodes/\<close>: context, end,
  wait, branch with its dispatcher, intent, tool, transfer and LLM. A node returns a partial update,
  which the reducers merge into the state: messages, tool calls and errors are appended, the rest
  is replaced. Python's \<open>str\<close>, \<open>str.lower\<close>, \<open>str.format\<close> and \<open>re.search\<close> on arbitrary Unicode text are
  a parameter, as are the clients of the vendors and tools.
\<close>

section \<open>State\<close>

record Message =
  mg_role :: string
  mg_content :: ustr
  mg_node_id :: string

record SessionMeta =
  sm_tenant_id :: string
  sm_session_id :: string
  sm_scenario_id :: string
  sm_scenario_version :: int
  sm_language :: string
  sm_policy_level :: string

text \<open>Confidences are in thousandths.\<close>

record IntentResult =
  ir_intent :: ustr
  ir_confidence :: int
  ir_slots :: meta

record tool_call =
  tk_tool :: string
  tk_args :: "(string \<times> ustr) list"
  tk_result :: "ustr option"
  tk_error :: "ustr option"

record node_error =
  ne_node :: string
  ne_reason :: ustr

record CallbotState =
  st_session :: SessionMeta
  st_messages :: "Message list"
  st_user_input :: ustr
  st_assistant_output :: ustr
  st_intent :: "IntentResult option"
  st_slots :: meta
  st_next_node :: "string option"
  st_should_transfer :: bool
  st_should_end :: bool
  st_fallback_triggered :: bool
  st_tool_calls :: "tool_call list"
  st_errors :: "node_error list"
  st_turn_latency_ms :: time

definition empty_state :: "string \<Rightarrow> string \<Rightarrow> string \<Rightarrow> CallbotState" where
  "empty_state tenant_id session_id scenario_id =
     \<lparr>st_session = \<lparr>sm_tenant_id = tenant_id, sm_session_id = session_id, sm_scenario_id = scenario_id,
                     sm_scenario_version = 1, sm_language = ''ko-KR'', sm_policy_level = ''standard''\<rparr>,
      st_messages = [], st_user_input = [], st_assistant_output = [], st_intent = None, st_slots = [],
      st_next_node = None, st_should_transfer = False, st_should_end = False, st_fallback_triggered = False,
      st_tool_calls = [], st_errors = [], st_turn_latency_ms = 0\<rparr>"

text \<open>A partial update: the keys a node returns.\<close>

record state_update =
  up_messages :: "Message list"
  up_assistant_output :: "ustr option"
  up_intent :: "IntentResult option"
  up_slots :: "meta option"
  up_next_node :: "string option option"
  up_should_transfer :: "bool option"
  up_should_end :: "bool option"
  up_fallback_triggered :: "bool option"
  up_tool_calls :: "tool_call list"
  up_errors :: "node_error list"
  up_turn_latency_ms :: "time option"

definition no_update :: state_update where
  "no_update = \<lparr>up_messages = [], up_assistant_output = None, up_intent = None, up_slots = None,
     up_next_node = None, up_should_transfer = None, up_should_end = None, up_fallback_triggered = None,
     up_tool_calls = [], up_errors = [], up_turn_latency_ms = None\<rparr>"

definition or_old :: "'a option \<Rightarrow> 'a \<Rightarrow> 'a" where
  "or_old v old = (case v of None \<Rightarrow> old | Some x \<Rightarrow> x)"

definition merge_update :: "state_update \<Rightarrow> CallbotState \<Rightarrow> CallbotState" where
  "merge_update u s =
     s\<lparr>st_messages := st_messages s @ up_messages u,
       st_assistant_output := or_old (up_assistant_output u) (st_assistant_output s),
       st_intent := (case up_intent u of None \<Rightarrow> st_intent s | Some i \<Rightarrow> Some i),
       st_slots := or_old (up_slots u) (st_slots s),
       st_next_node := or_old (up_next_node u) (st_next_node s),
       st_should_transfer := or_old (up_should_transfer u) (st_should_transfer s),
       st_should_end := or_old (up_should_end u) (st_should_end s),
       st_fallback_triggered := or_old (up_fallback_triggered u) (st_fallback_triggered s),
       st_tool_calls := st_tool_calls s @ up_tool_calls u,
       st_errors := st_errors s @ up_errors u,
       st_turn_latency_ms := or_old (up_turn_latency_ms u) (st_turn_latency_ms s)\<rparr>"

definition assistant_message :: "ustr \<Rightarrow> string \<Rightarrow> Message" where
  "assistant_message t node_id = \<lparr>mg_role = ''assistant'', mg_content = t, mg_node_id = node_id\<rparr>"

section \<open>Text operations\<close>

text \<open>\<open>None\<close> stands for an exception: a bad pattern or a bad format string.\<close>

record py_text =
  pt_str :: "pyval \<Rightarrow> ustr"
  pt_lower :: "ustr \<Rightarrow> ustr"
  pt_search :: "ustr \<Rightarrow> ustr \<Rightarrow> bool option"
  pt_format :: "ustr \<Rightarrow> meta \<Rightarrow> ustr option"
  pt_exc :: "pyexc \<Rightarrow> ustr"

section \<open>Announcements\<close>

definition POLITE_WAIT :: ustr where
  "POLITE_WAIT =
     [51396, 49569, 54633, 45768, 45796, 46, 32, 49884, 49828, 53596, 51060, 32, 51104,
     49884, 32, 48148, 48736, 49436, 50836, 46, 32, 45796, 49884, 32, 47568, 50432, 54644,
     32, 51452, 49884, 44192, 50612, 50836, 63]"

definition QUOTA_WAIT :: ustr where
  "QUOTA_WAIT =
     [51396, 49569, 54633, 45768, 45796, 46, 32, 50724, 45720, 32, 52376, 47532, 47049,
     51060, 32, 47566, 50500, 32, 51104, 49884, 32, 54980, 32, 45796, 49884, 32, 49884,
     46020, 54644, 32, 51452, 49464, 50836, 46]"

definition TRANSFER_RETRY_LATER :: ustr where
  "TRANSFER_RETRY_LATER =
     [51396, 49569, 54633, 45768, 45796, 46, 32, 51104, 49884, 32, 54980, 32, 45796, 49884,
     32, 49884, 46020, 54644, 32, 51452, 49464, 50836, 46]"

definition TRANSFER_GOODBYE :: ustr where
  "TRANSFER_GOODBYE =
     [49345, 45812, 50896, 50640, 44172, 32, 50672, 44208, 54644, 32, 46300, 47532, 44192,
     49845, 45768, 45796, 46, 32, 51104, 49884, 47564, 32, 44592, 45796, 47140, 32, 51452,
     49464, 50836, 46]"

section \<open>Context, end and wait nodes\<close>

definition context_node :: "ContextUpdateNodeConfig \<Rightarrow> CallbotState \<Rightarrow> state_update" where
  "context_node config state =
     no_update\<lparr>up_slots := Some (fold dict_pop (cc_clear_slots config)
                                   (dict_update (st_slots state) (cc_set_slots config)))\<rparr>"

definition end_node :: "EndNodeConfig \<Rightarrow> CallbotState \<Rightarrow> state_update" where
  "end_node config state =
     (case ec_closing_message config of
        None \<Rightarrow> no_update\<lparr>up_should_end := Some True\<rparr>
      | Some m \<Rightarrow>
          if m = [] then no_update\<lparr>up_should_end := Some True\<rparr>
          else no_update\<lparr>up_should_end := Some True, up_assistant_output := Some m,
                         up_messages := [assistant_message m ''end'']\<rparr>)"

definition wait_node :: "WaitNodeConfig \<Rightarrow> CallbotState \<Rightarrow> state_update" where
  "wait_node config state = no_update\<lparr>up_next_node := Some None\<rparr>"

section \<open>Branch\<close>

definition branch_passthrough :: "BranchNodeConfig \<Rightarrow> CallbotState \<Rightarrow> state_update" where
  "branch_passthrough config state = no_update"

definition CONTAINS_PREFIX :: ustr where "CONTAINS_PREFIX = of_str ''contains:''"
definition REGEX_PREFIX :: ustr where "REGEX_PREFIX = of_str ''regex:''"

definition branch_match :: "py_text \<Rightarrow> branch_mode \<Rightarrow> pyval \<Rightarrow> ustr \<Rightarrow> bool" where
  "branch_match T mode value when =
     (case mode of
        ModeExpr \<Rightarrow>
          if starts_with CONTAINS_PREFIX when
          then contains (pt_lower T (drop (length CONTAINS_PREFIX) when)) (pt_lower T (pt_str T value))
          else if starts_with REGEX_PREFIX when
          then (case pt_search T (drop (length REGEX_PREFIX) when) (pt_str T value) of
                  None \<Rightarrow> False | Some b \<Rightarrow> b)
          else pt_str T value = when
      | _ \<Rightarrow> pt_str T value = when)"

definition DEFAULT_WHEN :: ustr where "DEFAULT_WHEN = of_str ''default''"

definition is_default_edge :: "Edge \<Rightarrow> bool" where
  "is_default_edge e \<longleftrightarrow> e_when e = None \<or> e_when e = Some DEFAULT_WHEN"

text \<open>The target of the last default edge, and the other edges in order.\<close>

definition default_target :: "Edge list \<Rightarrow> string option" where
  "default_target es = (case rev (filter is_default_edge es) of [] \<Rightarrow> None | e # _ \<Rightarrow> Some (e_to e))"

definition branch_cases :: "Edge list \<Rightarrow> (ustr \<times> string) list" where
  "branch_cases es = map (\<lambda>e. (the (e_when e), e_to e)) (filter (\<lambda>e. \<not> is_default_edge e) es)"

definition branch_value :: "BranchNodeConfig \<Rightarrow> CallbotState \<Rightarrow> pyval" where
  "branch_value config state =
     (case bc_mode config of
        ModeIntent \<Rightarrow> (case st_intent state of None \<Rightarrow> VNone | Some i \<Rightarrow> VStr (ir_intent i))
      | ModeSlot \<Rightarrow>
          (case bc_slot_key config of
             None \<Rightarrow> VNone
           | Some k \<Rightarrow> if k = [] then VNone
                       else (case dict_get (st_slots state) k of None \<Rightarrow> VNone | Some v \<Rightarrow> v))
      | ModeExpr \<Rightarrow> VStr (st_user_input state))"

definition END_NODE :: string where "END_NODE = ''__end__''"

definition default_or_end :: "string option \<Rightarrow> string" where
  "default_or_end d = (case d of Some t \<Rightarrow> if t \<noteq> [] then t else END_NODE | None \<Rightarrow> END_NODE)"

definition dispatch :: "py_text \<Rightarrow> BranchNodeConfig \<Rightarrow> Edge list \<Rightarrow> CallbotState \<Rightarrow> string" where
  "dispatch T config outgoing state =
     (let d = default_target outgoing
      in if st_fallback_triggered state \<and> d \<noteq> None \<and> d \<noteq> Some [] then the d
         else (case find (\<lambda>(w, t). branch_match T (bc_mode config) (branch_value config state) w) (branch_cases outgoing) of
                 Some (w, t) \<Rightarrow> t
               | None \<Rightarrow> default_or_end d))"

section \<open>Intent\<close>

text \<open>What the classifier's answer parses to; absent keys take their defaults.\<close>

record intent_json =
  ij_intent :: "ustr option"
  ij_confidence :: "int option"
  ij_slots :: "meta option"

definition UNKNOWN_INTENT :: ustr where "UNKNOWN_INTENT = of_str ''unknown''"

definition unknown_intent :: IntentResult where
  "unknown_intent = \<lparr>ir_intent = UNKNOWN_INTENT, ir_confidence = 0, ir_slots = []\<rparr>"

definition intent_fallback :: "ustr \<Rightarrow> state_update" where
  "intent_fallback reason =
     no_update\<lparr>up_intent := Some unknown_intent, up_errors := [\<lparr>ne_node = ''intent'', ne_reason = reason\<rparr>],
               up_fallback_triggered := Some True\<rparr>"

definition classify :: "IntentNodeConfig \<Rightarrow> intent_json \<Rightarrow> IntentResult" where
  "classify config j =
     (let intent = (case ij_intent j of None \<Rightarrow> UNKNOWN_INTENT | Some i \<Rightarrow> i);
          confidence = (case ij_confidence j of None \<Rightarrow> 0 | Some c \<Rightarrow> c);
          slots = (case ij_slots j of None \<Rightarrow> [] | Some m \<Rightarrow> m);
          (intent1, confidence1) = (if intent \<notin> set (ic_labels config) then (UNKNOWN_INTENT, 0) else (intent, confidence));
          intent2 = (if confidence1 < ic_threshold config then UNKNOWN_INTENT else intent1)
      in \<lparr>ir_intent = intent2, ir_confidence = confidence1, ir_slots = slots\<rparr>)"

definition DEFAULT_INTENT_PROMPT :: ustr where
  "DEFAULT_INTENT_PROMPT = of_str (''You are a strict intent classifier for a Korean call center bot.'' @ [CHR 0x0A] @
     ''Allowed labels: {labels}'' @ [CHR 0x0A] @
     ''Return ONLY JSON: {{\"intent\": \"<label>\", \"confidence\": <0..1>, \"slots\": {{}}}}'' @ [CHR 0x0A, CHR 0x0A] @
     ''User said (ko-KR): \"{user_input}\"'' @ [CHR 0x0A])"

text \<open>
  The client answers a prompt with its parsed JSON, or fails; the prompt is formatted before the \<open>try\<close>,
  so a bad template raises.
\<close>

definition intent_node ::
  "py_text \<Rightarrow> (ustr \<Rightarrow> intent_json vendor) \<Rightarrow> IntentNodeConfig \<Rightarrow> CallbotState \<Rightarrow> pyexc + state_update" where
  "intent_node T client config state =
     (if st_user_input state = [] then Inr (intent_fallback (of_str ''empty user_input''))
      else
        (let template = (case ic_prompt_template config of
               None \<Rightarrow> DEFAULT_INTENT_PROMPT | Some t \<Rightarrow> if t \<noteq> [] then t else DEFAULT_INTENT_PROMPT)
         in case pt_format T template [(''labels'', VStr (join (of_str '', '') (ic_labels config))),
                                       (''user_input'', VStr (st_user_input state))] of
              None \<Rightarrow> Inl KeyError
            | Some prompt \<Rightarrow>
                (case with_timeout ''llm'' (client prompt) of
                   Inl e \<Rightarrow> if is_Exception e then Inr (intent_fallback (take 200 (pt_exc T e))) else Inl e
                 | Inr j \<Rightarrow>
                     (let r = classify config j
                      in Inr (no_update\<lparr>up_intent := Some r,
                                        up_slots := Some (dict_update (st_slots state) (ir_slots r))\<rparr>)))))"

section \<open>Tool\<close>

datatype tool_outcome = ToolOk pyval | ToolTimeout | ToolRaises pyexc

definition tool_handle_error :: "ToolNodeConfig \<Rightarrow> ustr \<Rightarrow> pyexc + state_update" where
  "tool_handle_error config reason =
     (let entry = \<lparr>ne_node = ''tool'', ne_reason = reason\<rparr>;
          call = \<lparr>tk_tool = tc_tool_name config, tk_args = [], tk_result = None, tk_error = Some reason\<rparr>
      in case tc_on_error config of
           OnRaise \<Rightarrow> Inl (RuntimeError (of_str ''Tool failure (raise policy): '' @ reason))
         | OnContinue \<Rightarrow> Inr (no_update\<lparr>up_errors := [entry], up_tool_calls := [call]\<rparr>)
         | OnFallback \<Rightarrow> Inr (no_update\<lparr>up_fallback_triggered := Some True, up_errors := [entry],
                                        up_tool_calls := [call]\<rparr>))"

definition bind_args :: "py_text \<Rightarrow> (string \<times> ustr) list \<Rightarrow> CallbotState \<Rightarrow> (string \<times> ustr) list" where
  "bind_args T template state =
     (let ctx = [(''user_input'', VStr (st_user_input state)),
                 (''intent'', case st_intent state of None \<Rightarrow> VStr [] | Some i \<Rightarrow> VStr (ir_intent i)),
                 (''slot'', VDict (st_slots state))]
      in map (\<lambda>(k, v). (k, case pt_format T v ctx of None \<Rightarrow> v | Some t \<Rightarrow> t)) template)"

definition truncate_result :: "py_text \<Rightarrow> pyval \<Rightarrow> ustr" where
  "truncate_result T v = (let s = pt_str T v in if length s \<le> 500 then s else take 500 s @ [8230])"

text \<open>
  The attempts \<open>attempt, ..., retry\<close> of the \<open>for\<close> loop; the last failure is handled by the policy, and
  so is an empty range.
\<close>

function tool_attempts ::
  "py_text \<Rightarrow> (nat \<Rightarrow> tool_outcome) \<Rightarrow> ToolNodeConfig \<Rightarrow> (string \<times> ustr) list \<Rightarrow> CallbotState \<Rightarrow> nat
   \<Rightarrow> pyexc + state_update" where
  "tool_attempts T tool config args state attempt =
     (if int attempt > tc_retry config then tool_handle_error config (of_str ''unreachable'')
      else (case tool attempt of
              ToolOk v \<Rightarrow>
                Inr (no_update\<lparr>up_slots := Some (dict_set ''tool_result'' v (st_slots state)),
                      up_tool_calls := [\<lparr>tk_tool = tc_tool_name config, tk_args = args,
                                         tk_result = Some (truncate_result T v), tk_error = None\<rparr>]\<rparr>)
            | ToolTimeout \<Rightarrow>
                if int attempt = tc_retry config
                then tool_handle_error config (of_str (''Tool '' @ [CHR 0x27] @ tc_tool_name config @ [CHR 0x27] @ '' timed out''))
                else tool_attempts T tool config args state (attempt + 1)
            | ToolRaises e \<Rightarrow>
                if \<not> is_Exception e then Inl e
                else if int attempt = tc_retry config then tool_handle_error config (take 200 (pt_exc T e))
                else tool_attempts T tool config args state (attempt + 1)))"
  by pat_completeness auto
termination
  by (relation "measure (\<lambda>(T, tool, config, args, state, attempt). nat (tc_retry config + 1 - int attempt))") auto

declare tool_attempts.simps [simp del]

text \<open>The registry gives the tool, as its outcome on given arguments at each attempt, or nothing.\<close>

definition tool_node ::
  "py_text \<Rightarrow> (string \<Rightarrow> ((string \<times> ustr) list \<Rightarrow> nat \<Rightarrow> tool_outcome) option) \<Rightarrow> ToolNodeConfig
   \<Rightarrow> CallbotState \<Rightarrow> pyexc + state_update" where
  "tool_node T registry config state =
     (case registry (tc_tool_name config) of
        None \<Rightarrow> tool_handle_error config (of_str (''Tool '' @ [CHR 0x27] @ tc_tool_name config @ [CHR 0x27] @ '' not registered''))
      | Some tool \<Rightarrow>
          (let args = bind_args T (tc_args_template config) state
           in tool_attempts T (tool args) config args state 0))"

section \<open>Transfer\<close>

definition build_summary :: "py_text \<Rightarrow> CallbotState \<Rightarrow> ustr" where
  "build_summary T state =
     join [10]
       ([of_str ''[Intent] '' @ (case st_intent state of None \<Rightarrow> UNKNOWN_INTENT | Some i \<Rightarrow> ir_intent i),
         of_str ''[Slots] '' @ pt_str T (VDict (st_slots state)), of_str ''[Last turns]''] @
        map (\<lambda>m. of_str ''  - '' @ of_str (mg_role m) @ of_str '': '' @ take 120 (mg_content m))
          (last_n 10 (st_messages state)))"

text \<open>The hand-over client, if one is configured, with the exception its request raises, if any.\<close>

definition transfer_node ::
  "py_text \<Rightarrow> (ustr \<Rightarrow> pyexc option) option \<Rightarrow> TransferNodeConfig \<Rightarrow> CallbotState \<Rightarrow> pyexc + state_update" where
  "transfer_node T client config state =
     (let summary = (if xc_include_summary config then build_summary T state else []);
          failure = (case client of None \<Rightarrow> None | Some f \<Rightarrow> f summary)
      in case failure of
           Some e \<Rightarrow>
             if is_Exception e
             then Inr (no_update\<lparr>up_assistant_output := Some TRANSFER_RETRY_LATER,
                        up_messages := [assistant_message TRANSFER_RETRY_LATER ''transfer-failed''],
                        up_should_end := Some True,
                        up_errors := [\<lparr>ne_node = ''transfer'', ne_reason = take 200 (pt_exc T e)\<rparr>]\<rparr>)
             else Inl e
         | None \<Rightarrow>
             Inr (no_update\<lparr>up_assistant_output := Some TRANSFER_GOODBYE,
                   up_messages := [assistant_message TRANSFER_GOODBYE ''transfer''],
                   up_should_transfer := Some True, up_should_end := Some True\<rparr>))"

section \<open>LLM\<close>

definition render_prompt :: "py_text \<Rightarrow> ustr option \<Rightarrow> CallbotState \<Rightarrow> ustr" where
  "render_prompt T template state =
     (case template of
        None \<Rightarrow> st_user_input state
      | Some t \<Rightarrow>
          if t = [] then st_user_input state
          else (case pt_format T t [(''user_input'', VStr (st_user_input state)),
                       (''intent'', case st_intent state of None \<Rightarrow> VStr [] | Some i \<Rightarrow> VStr (ir_intent i)),
                       (''slots'', VDict (st_slots state))] of
                  None \<Rightarrow> st_user_input state | Some p \<Rightarrow> p))"

definition node_history :: "CallbotState \<Rightarrow> message list" where
  "node_history state =
     map (\<lambda>m. (mg_role m, mg_content m))
       (filter (\<lambda>m. mg_role m \<in> {''user'', ''assistant''} \<and> mg_content m \<noteq> []) (st_messages state))"

text \<open>What the streaming branch pushes to the client for a chunk.\<close>

definition push_of :: "LLMChunk \<Rightarrow> (string \<times> ustr) list" where
  "push_of c = (if lc_is_filler c then [(''filler'', lc_text c)]
                else if lc_is_final c then [] else [(''delta'', lc_text c)])"

definition llm_answer :: "ustr \<Rightarrow> time \<Rightarrow> state_update" where
  "llm_answer t ms = no_update\<lparr>up_assistant_output := Some t, up_messages := [assistant_message t ''llm''],
                               up_turn_latency_ms := Some ms\<rparr>"

definition llm_sorry :: "ustr \<Rightarrow> string \<Rightarrow> ustr \<Rightarrow> state_update" where
  "llm_sorry t node_id reason =
     no_update\<lparr>up_assistant_output := Some t, up_messages := [assistant_message t node_id],
               up_fallback_triggered := Some True, up_errors := [\<lparr>ne_node = ''llm'', ne_reason = reason\<rparr>]\<rparr>"

definition llm_node_error :: "py_text \<Rightarrow> pyexc \<Rightarrow> pyexc + state_update" where
  "llm_node_error T e =
     (case e of
        CircuitBreakerOpenError _ \<Rightarrow> Inr (llm_sorry POLITE_WAIT ''llm-cb-open'' (of_str ''CircuitBreakerOpen''))
      | QuotaExceededError graceful scope \<Rightarrow>
          if graceful then Inr (llm_sorry QUOTA_WAIT ''llm-quota'' (of_str (''QuotaExceeded:'' @ scope))) else Inl e
      | _ \<Rightarrow> if is_Exception e then Inr (llm_sorry POLITE_WAIT ''llm-error'' (take 200 (pt_exc T e))) else Inl e)"

definition llm_node ::
  "py_text \<Rightarrow> 'w llm_env \<Rightarrow> bool \<Rightarrow> time \<Rightarrow> time \<Rightarrow> LLMNodeConfig \<Rightarrow> CallbotState \<Rightarrow> 'w llm_state
   \<Rightarrow> (pyexc + state_update) \<times> (string \<times> ustr) list \<times> 'w llm_state" where
  "llm_node T E has_sink t0 t1 config state ls =
     (let prompt = render_prompt T (lc_prompt_template config) state;
          history = Some (node_history state);
          tenant = (let t = sm_tenant_id (st_session state) in if t \<noteq> [] then Some t else None);
          sys = Some (lc_system_prompt config)
      in if lc_streaming config \<and> has_sink
         then (case llm_stream E prompt history sys False tenant None ls of
                 ((chunks, Some e), ls') \<Rightarrow> (llm_node_error T e, concat (map push_of chunks), ls')
               | ((chunks, None), ls') \<Rightarrow>
                   (Inr (llm_answer (concat (fst (gather chunks [] False))) (t1 - t0)),
                    concat (map push_of chunks), ls'))
         else (case llm_complete E t0 t1 prompt history sys tenant None ls of
                 (Inl e, ls') \<Rightarrow> (llm_node_error T e, [], ls')
               | (Inr r, ls') \<Rightarrow> (Inr (llm_answer (lr_full_text r) (t1 - t0)), [], ls')))"

section \<open>Lemmas\<close>

lemma dict_get_fold_pop: "dict_get (fold dict_pop ks d) k = (if k \<in> set ks then None else dict_get d k)"
  by (induction ks arbitrary: d) auto

lemma default_target_edge: "default_target es = Some t \<Longrightarrow> \<exists>e\<in>set es. is_default_edge e \<and> e_to e = t"
proof -
  assume "default_target es = Some t"
  then obtain e rest where r: "rev (filter is_default_edge es) = e # rest" "e_to e = t"
    by (auto simp: default_target_def split: list.splits)
  then have "e \<in> set (filter is_default_edge es)" by (metis list.set_intros(1) set_rev)
  with r(2) show ?thesis by auto
qed

lemma dispatch_case:
  assumes "find (\<lambda>(w, t). branch_match T m v w) (branch_cases es) = Some (w, t)"
  shows "\<exists>e\<in>set es. \<not> is_default_edge e \<and> e_when e = Some w \<and> e_to e = t \<and> branch_match T m v w"
proof -
  from assms have "(w, t) \<in> set (branch_cases es)" "branch_match T m v w"
    by (auto simp: find_Some_iff in_set_conv_nth)
  then show ?thesis by (auto simp: branch_cases_def is_default_edge_def)
qed

text \<open>The attempts of a tool call: the first success within the retries decides.\<close>

lemma tool_attempts_ok:
  assumes "n \<le> k" and "int k \<le> tc_retry config" and "tool k = ToolOk v"
    and "\<forall>j. n \<le> j \<and> j < k \<longrightarrow> tool j = ToolTimeout \<or> (\<exists>e. tool j = ToolRaises e \<and> is_Exception e)"
  shows "tool_attempts T tool config args state n =
    Inr (no_update\<lparr>up_slots := Some (dict_set ''tool_result'' v (st_slots state)),
           up_tool_calls := [\<lparr>tk_tool = tc_tool_name config, tk_args = args,
                              tk_result = Some (truncate_result T v), tk_error = None\<rparr>]\<rparr>)"
  using assms(1,4)
proof (induction "k - n" arbitrary: n)
  case 0
  with assms(2,3) show ?case by (simp add: tool_attempts.simps [of _ _ _ _ _ n])
next
  case (Suc d)
  then have "n < k" by simp
  with Suc.prems have "tool n = ToolTimeout \<or> (\<exists>e. tool n = ToolRaises e \<and> is_Exception e)" by simp
  moreover have "int n < tc_retry config" using \<open>n < k\<close> assms(2) by simp
  ultimately have "tool_attempts T tool config args state n = tool_attempts T tool config args state (n + 1)"
    by (auto simp: tool_attempts.simps [of _ _ _ _ _ n])
  also have "\<dots> = Inr (no_update\<lparr>up_slots := Some (dict_set ''tool_result'' v (st_slots state)),
           up_tool_calls := [\<lparr>tk_tool = tc_tool_name config, tk_args = args,
                              tk_result = Some (truncate_result T v), tk_error = None\<rparr>]\<rparr>)"
    using Suc.hyps(2) Suc.prems \<open>n < k\<close> by (intro Suc.hyps(1)) auto
  finally show ?case .
qed

lemma tool_attempts_fail:
  assumes "int n \<le> tc_retry config"
    and "\<forall>j. n \<le> j \<and> int j \<le> tc_retry config \<longrightarrow> tool j = ToolTimeout \<or> (\<exists>e. tool j = ToolRaises e \<and> is_Exception e)"
  shows "\<exists>reason. tool_attempts T tool config args state n = tool_handle_error config reason"
  using assms
proof (induction "nat (tc_retry config - int n)" arbitrary: n)
  case 0
  then have last: "int n = tc_retry config" by simp
  with "0.prems" have "tool n = ToolTimeout \<or> (\<exists>e. tool n = ToolRaises e \<and> is_Exception e)" by simp
  with last show ?case by (auto simp: tool_attempts.simps [of _ _ _ _ _ n])
next
  case (Suc d)
  then have "int n < tc_retry config" by simp
  moreover from this Suc.prems have "tool n = ToolTimeout \<or> (\<exists>e. tool n = ToolRaises e \<and> is_Exception e)" by simp
  ultimately have "tool_attempts T tool config args state n = tool_attempts T tool config args state (n + 1)"
    by (auto simp: tool_attempts.simps [of _ _ _ _ _ n])
  moreover have "\<exists>reason. tool_attempts T tool config args state (n + 1) = tool_handle_error config reason"
    using Suc.hyps(2) Suc.prems \<open>int n < tc_retry config\<close> by (intro Suc.hyps(1)) auto
  ultimately show ?case by simp
qed

lemma deltas_are_spoken:
  "\<forall>c\<in>set out. \<not> lc_is_final c \<Longrightarrow>
   concat (map snd (filter (\<lambda>p. fst p = ''delta'') (concat (map push_of out)))) = spoken out"
  by (induction out) (auto simp: push_of_def)

lemma llm_node_error_shape:
  "llm_node_error T e = Inr u \<Longrightarrow> up_fallback_triggered u = Some True \<and> up_assistant_output u \<in> {Some POLITE_WAIT, Some QUOTA_WAIT}"
  by (auto simp: llm_node_error_def llm_sorry_def no_update_def split: pyexc.splits if_splits)

lemma classify_label:
  "ir_intent (classify config j) \<in> insert UNKNOWN_INTENT (set (ic_labels config)) \<and>
   (ir_intent (classify config j) \<noteq> UNKNOWN_INTENT \<longrightarrow> ic_threshold config \<le> ir_confidence (classify config j))"
  by (simp add: classify_def Let_def)

lemma intent_node_cases:
  "intent_node T client config state = Inr u \<Longrightarrow>
   (\<exists>reason. u = intent_fallback reason) \<or>
   (\<exists>p j. with_timeout ''llm'' (client p) = Inr j \<and> st_user_input state \<noteq> [] \<and> up_intent u = Some (classify config j))"
  by (auto simp: intent_node_def Let_def split: if_splits option.split_asm sum.splits) blast+

section \<open>Properties\<close>

text \<open>
  A branch always goes along an edge of the scenario or ends the graph: the dispatcher returns
  the target of one of the node's outgoing edges, or \<open>__end__\<close>. After a failure it takes the default
  edge when there is one; without a failure it takes the first edge whose condition matches, and ends
  only when nothing matches and there is no default.
\<close>

theorem dispatch_follows_edges:
  "(dispatch T config es state \<in> e_to ` set es \<or> dispatch T config es state = END_NODE) \<and>
   (st_fallback_triggered state \<and> default_target es = Some t \<and> t \<noteq> [] \<longrightarrow> dispatch T config es state = t) \<and>
   (\<not> st_fallback_triggered state \<and> es = pre @ e # post \<and> e_when e = Some w \<and> w \<noteq> DEFAULT_WHEN \<and>
      branch_match T (bc_mode config) (branch_value config state) w \<and>
      (\<forall>e'\<in>set pre. \<forall>w'. e_when e' = Some w' \<and> w' \<noteq> DEFAULT_WHEN \<longrightarrow>
          \<not> branch_match T (bc_mode config) (branch_value config state) w') \<longrightarrow>
      dispatch T config es state = e_to e)"
proof (intro conjI impI)
  let ?find = "find (\<lambda>(w, t). branch_match T (bc_mode config) (branch_value config state) w)"
  show "dispatch T config es state \<in> e_to ` set es \<or> dispatch T config es state = END_NODE"
  proof (cases "?find (branch_cases es)")
    case None
    then show ?thesis
      using default_target_edge [of es] by (auto simp: dispatch_def default_or_end_def Let_def split: option.splits)
  next
    case (Some p)
    then show ?thesis
      using default_target_edge [of es] dispatch_case [of T "bc_mode config" "branch_value config state" es "fst p" "snd p"]
      by (auto simp: dispatch_def Let_def split: prod.splits)
  qed
  show "dispatch T config es state = t"
    if "st_fallback_triggered state \<and> default_target es = Some t \<and> t \<noteq> []"
    using that by (simp add: dispatch_def)
  assume h: "\<not> st_fallback_triggered state \<and> es = pre @ e # post \<and> e_when e = Some w \<and> w \<noteq> DEFAULT_WHEN \<and>
      branch_match T (bc_mode config) (branch_value config state) w \<and>
      (\<forall>e'\<in>set pre. \<forall>w'. e_when e' = Some w' \<and> w' \<noteq> DEFAULT_WHEN \<longrightarrow>
          \<not> branch_match T (bc_mode config) (branch_value config state) w')"
  then have "branch_cases es = branch_cases pre @ (w, e_to e) # branch_cases post"
    by (simp add: branch_cases_def is_default_edge_def)
  moreover have "?find (branch_cases pre) = None"
    using h by (auto simp: find_None_iff branch_cases_def is_default_edge_def)
  ultimately have "?find (branch_cases es) = Some (w, e_to e)"
    using h by (auto simp: find_append split: option.splits)
  with h show "dispatch T config es state = e_to e" by (simp add: dispatch_def Let_def)
qed

text \<open>Plain text operations for the examples.\<close>

definition demo_text :: py_text where
  "demo_text = \<lparr>pt_str = (\<lambda>v. case v of VStr t \<Rightarrow> t | _ \<Rightarrow> of_str ''None''), pt_lower = lower,
     pt_search = (\<lambda>_ _. None), pt_format = (\<lambda>t _. Some t), pt_exc = (\<lambda>_. [])\<rparr>"

definition demo_state :: CallbotState where
  "demo_state = (empty_state ''acme'' ''s1'' ''demo'')\<lparr>st_user_input := of_str ''my Bill'',
     st_messages := [\<lparr>mg_role = ''user'', mg_content = of_str ''my Bill'', mg_node_id = ''input''\<rparr>]\<rparr>"

theorem dispatch_follows_edges_witness:
  "dispatch demo_text \<lparr>bc_mode = ModeExpr, bc_slot_key = None\<rparr>
     [\<lparr>e_from = ''b'', e_to = ''other'', e_when = None\<rparr>,
      \<lparr>e_from = ''b'', e_to = ''billing'', e_when = Some (of_str ''contains:bill'')\<rparr>] demo_state = ''billing''"
proof -
  have m: "branch_match demo_text ModeExpr (VStr (of_str ''my Bill'')) (of_str ''contains:bill'')"
    by (simp add: branch_match_def demo_text_def CONTAINS_PREFIX_def of_str_def lower_def lower_cp_def)
  have "branch_value \<lparr>bc_mode = ModeExpr, bc_slot_key = None\<rparr> demo_state = VStr (of_str ''my Bill'')"
    "\<not> st_fallback_triggered demo_state" "of_str ''contains:bill'' \<noteq> DEFAULT_WHEN"
    by (simp_all add: branch_value_def demo_state_def empty_state_def DEFAULT_WHEN_def of_str_def)
  with m show ?thesis
    using dispatch_follows_edges [where pre = "[\<lparr>e_from = ''b'', e_to = ''other'', e_when = None\<rparr>]"
        and e = "\<lparr>e_from = ''b'', e_to = ''billing'', e_when = Some (of_str ''contains:bill'')\<rparr>" and post = "[]"
        and w = "of_str ''contains:bill''" and T = demo_text and state = demo_state
        and config = "\<lparr>bc_mode = ModeExpr, bc_slot_key = None\<rparr>"
        and es = "[\<lparr>e_from = ''b'', e_to = ''other'', e_when = None\<rparr>,
           \<lparr>e_from = ''b'', e_to = ''billing'', e_when = Some (of_str ''contains:bill'')\<rparr>]"]
    by simp
qed

text \<open>
  The classifier cannot invent an intent: whatever the model answers, the intent the node sets is
  one of the configured labels or \<open>unknown\<close>, and a label other than \<open>unknown\<close> has a confidence of at
  least the threshold. Silence and every failure of the client but a cancellation give \<open>unknown\<close> and raise
  the fallback flag instead of an exception.
\<close>

theorem intent_is_configured:
  assumes "intent_node T client config state = Inr u"
  shows "\<exists>r. up_intent u = Some r \<and> ir_intent r \<in> insert UNKNOWN_INTENT (set (ic_labels config)) \<and>
    (ir_intent r \<noteq> UNKNOWN_INTENT \<longrightarrow> ic_threshold config \<le> ir_confidence r) \<and>
    (st_user_input state = [] \<longrightarrow> ir_intent r = UNKNOWN_INTENT \<and> up_fallback_triggered u = Some True) \<and>
    ((\<forall>p. \<exists>e. with_timeout ''llm'' (client p) = Inl e) \<longrightarrow>
       ir_intent r = UNKNOWN_INTENT \<and> up_fallback_triggered u = Some True)"
  using intent_node_cases [OF assms]
proof (elim disjE exE conjE)
  fix reason assume "u = intent_fallback reason"
  then show ?thesis by (simp add: intent_fallback_def unknown_intent_def no_update_def)
next
  fix p j assume "with_timeout ''llm'' (client p) = Inr j" "st_user_input state \<noteq> []"
    "up_intent u = Some (classify config j)"
  then show ?thesis using classify_label [of config j] by (metis Inl_Inr_False)
qed

theorem intent_is_configured_witness:
  "\<exists>u r. intent_node demo_text (\<lambda>_. NoAnswer) \<lparr>ic_labels = [[97], [98]], ic_model = ''m'', ic_prompt_template = None,
       ic_threshold = 500\<rparr> demo_state = Inr u \<and> up_intent u = Some r \<and> ir_intent r = UNKNOWN_INTENT"
proof -
  let ?c = "\<lparr>ic_labels = [[97], [98]], ic_model = ''m'', ic_prompt_template = None, ic_threshold = 500\<rparr>"
  obtain u where u: "intent_node demo_text (\<lambda>_. NoAnswer) ?c demo_state = Inr u"
    by (simp add: intent_node_def demo_text_def demo_state_def of_str_def with_timeout_def is_Exception_def)
  have "\<forall>p. \<exists>e. with_timeout ''llm'' ((\<lambda>_. NoAnswer) p :: intent_json vendor) = Inl e"
    by (simp add: with_timeout_def)
  with intent_is_configured [OF u] u show ?thesis by blast
qed

text \<open>
  Tool calls are retried as configured: the tool is called until its first success, at most
  \<open>retry + 1\<close> times. A success within these attempts stores its result in the slots and reports no
  error; if all of them fail the configured policy decides, between an exception, an error that lets
  the graph continue, and an error that raises the fallback flag.
\<close>

theorem tool_retries:
  assumes "registry (tc_tool_name config) = Some tool" and "0 \<le> tc_retry config"
    and "args = bind_args T (tc_args_template config) state"
    and "\<forall>j. tool args j \<noteq> ToolRaises CancelledError"
  shows "(\<exists>k. int k \<le> tc_retry config \<and> (\<exists>v. tool args k = ToolOk v \<and>
            (\<exists>u. tool_node T registry config state = Inr u \<and> up_errors u = [] \<and> up_fallback_triggered u = None \<and>
                 (\<exists>sl. up_slots u = Some sl \<and> dict_get sl ''tool_result'' = Some v)) \<and>
            (\<forall>j<k. \<forall>v. tool args j \<noteq> ToolOk v))) \<or>
     ((\<forall>k. int k \<le> tc_retry config \<longrightarrow> (\<forall>v. tool args k \<noteq> ToolOk v)) \<and>
      (case tool_node T registry config state of
         Inl e \<Rightarrow> tc_on_error config = OnRaise \<and> (\<exists>m. e = RuntimeError m)
       | Inr u \<Rightarrow> tc_on_error config \<noteq> OnRaise \<and> length (up_errors u) = 1 \<and>
                  (up_fallback_triggered u = Some True \<longleftrightarrow> tc_on_error config = OnFallback)))"
proof -
  let ?ok = "\<lambda>k. int k \<le> tc_retry config \<and> (\<exists>v. tool args k = ToolOk v)"
  have bad: "tool args j = ToolTimeout \<or> (\<exists>e. tool args j = ToolRaises e \<and> is_Exception e)"
    if "\<forall>v. tool args j \<noteq> ToolOk v" for j
    using that assms(4) by (cases "tool args j") (auto simp: is_Exception_def)
  have node: "tool_node T registry config state = tool_attempts T (tool args) config args state 0"
    using assms(1,3) by (simp add: tool_node_def Let_def)
  show ?thesis
  proof (cases "\<exists>k. ?ok k")
    case True
    define k where "k = (LEAST k. ?ok k)"
    have k: "?ok k" unfolding k_def by (rule LeastI_ex [OF True])
    then obtain v where v: "tool args k = ToolOk v" by blast
    have least: "\<forall>v. tool args j \<noteq> ToolOk v" if "j < k" for j
      using not_less_Least [of j ?ok] that k unfolding k_def by auto
    with tool_attempts_ok [of 0 k config "tool args" v T args state] k v bad node show ?thesis
      by (intro disjI1 exI [of _ k]) (simp add: no_update_def)
  next
    case False
    then obtain reason where "tool_attempts T (tool args) config args state 0 = tool_handle_error config reason"
      using tool_attempts_fail [of 0 config "tool args" T args state] bad assms(2) by auto
    with False node show ?thesis
      by (intro disjI2) (auto simp: tool_handle_error_def no_update_def Let_def split: on_error.splits)
  qed
qed

definition demo_tool :: ToolNodeConfig where
  "demo_tool = \<lparr>tc_tool_name = ''crm'', tc_args_template = [], tc_timeout_ms = 5000, tc_retry = 1, tc_on_error = OnFallback\<rparr>"

definition flaky_tool :: "(string \<times> ustr) list \<Rightarrow> nat \<Rightarrow> tool_outcome" where
  "flaky_tool args n = (if n = 0 then ToolTimeout else ToolOk (VInt 7))"

theorem tool_retries_witness:
  "\<exists>u. tool_node demo_text (\<lambda>_. Some flaky_tool) demo_tool demo_state = Inr u \<and> up_errors u = []"
proof -
  have reg: "(\<lambda>_. Some flaky_tool) (tc_tool_name demo_tool) = Some flaky_tool" by simp
  have retry: "0 \<le> tc_retry demo_tool" by (simp add: demo_tool_def)
  have args: "[] = bind_args demo_text (tc_args_template demo_tool) demo_state"
    by (simp add: bind_args_def demo_tool_def)
  have live: "\<forall>j. flaky_tool [] j \<noteq> ToolRaises CancelledError" by (simp add: flaky_tool_def)
  have "\<exists>k. int k \<le> tc_retry demo_tool \<and> (\<exists>v. flaky_tool [] k = ToolOk v)"
    by (intro exI [of _ "1::nat"]) (simp add: demo_tool_def flaky_tool_def)
  with tool_retries [OF reg retry args live] show ?thesis by blast
qed

text \<open>
  The LLM node never loses the caller: apart from a cancellation and a quota refusal that is
  configured to be hard, every failure of the language model becomes an apology with the fallback flag
  raised. And when the answer is streamed, the pieces pushed to the caller concatenate to exactly the text stored in the state.
\<close>

theorem llm_node_answers:
  assumes "llm_node T E has_sink t0 t1 config state ls = (r, pushes, ls')"
  shows "(\<forall>e. r = Inl e \<longrightarrow> e = CancelledError \<or> (\<exists>scope. e = QuotaExceededError False scope)) \<and>
    (\<forall>u. r = Inr u \<longrightarrow>
       up_fallback_triggered u = Some True \<and> up_assistant_output u \<in> {Some POLITE_WAIT, Some QUOTA_WAIT} \<or>
       up_fallback_triggered u = None \<and>
       (lc_streaming config \<and> has_sink \<longrightarrow>
          up_assistant_output u = Some (concat (map snd (filter (\<lambda>p. fst p = ''delta'') pushes)))))"
proof -
  have err: "e = CancelledError \<or> (\<exists>scope. e = QuotaExceededError False scope)" if "llm_node_error T e' = Inl e" for e e'
    using that by (auto simp: llm_node_error_def is_Exception_def split: pyexc.splits if_splits)
  let ?prompt = "render_prompt T (lc_prompt_template config) state"
  let ?tenant = "if sm_tenant_id (st_session state) \<noteq> [] then Some (sm_tenant_id (st_session state)) else None"
  show ?thesis
  proof (cases "lc_streaming config \<and> has_sink")
    case True
    obtain chunks x s1 where run: "llm_stream E ?prompt (Some (node_history state)) (Some (lc_system_prompt config))
        False ?tenant None ls = ((chunks, x), s1)" by (metis prod_cases3 surj_pair)
    show ?thesis
    proof (cases x)
      case None
      then obtain out where out: "chunks = out @ [final_chunk (spoken out)]" "\<forall>c\<in>set out. \<not> lc_is_final c"
        using llm_stream_complete run by (fastforce simp: complete_stream_def)
      then have "concat (map snd (filter (\<lambda>p. fst p = ''delta'') (concat (map push_of chunks)))) = spoken out"
        using deltas_are_spoken [of out] by (simp add: push_of_def)
      moreover have "concat (fst (gather chunks [] False)) = spoken out"
        using out by (simp add: gather_no_final)
      ultimately show ?thesis
        using assms True run None by (auto simp: llm_node_def llm_answer_def no_update_def Let_def)
    next
      case (Some e)
      with assms True run show ?thesis
        by (auto simp: llm_node_def Let_def dest: err llm_node_error_shape)
    qed
  next
    case False
    obtain y s1 where run: "llm_complete E t0 t1 ?prompt (Some (node_history state)) (Some (lc_system_prompt config))
        ?tenant None ls = (y, s1)" by (metis surj_pair)
    with assms False show ?thesis
      by (cases y) (auto simp: llm_node_def llm_answer_def no_update_def Let_def dest: err llm_node_error_shape)
  qed
qed

theorem llm_node_answers_witness:
  "\<exists>r pushes ls'. llm_node demo_text demo_llm_env True 0 9 \<lparr>lc_model = ''m'', lc_system_prompt = [], lc_prompt_template = None,
       lc_streaming = True\<rparr> demo_state demo_llm_state = (r, pushes, ls') \<and>
     (\<forall>e. r = Inl e \<longrightarrow> e = CancelledError \<or> (\<exists>scope. e = QuotaExceededError False scope))"
proof -
  obtain r pushes ls' where "llm_node demo_text demo_llm_env True 0 9 \<lparr>lc_model = ''m'', lc_system_prompt = [],
      lc_prompt_template = None, lc_streaming = True\<rparr> demo_state demo_llm_state = (r, pushes, ls')" by (metis prod_cases3)
  with llm_node_answers [OF this] show ?thesis by blast
qed

end
