(* ===== verification/Callbot_Graph.thy ===== *)
theory Callbot_Graph
  imports Agentic_Nodes
begin

text \<open>
  From a scenario to a running graph: the compiler \<^verbatim>\<open>app/agentic/scenario_compiler.py\<close>, the runtime's cache
  and compile path of \<^verbatim>\<open>app/agentic/callbot_graph.py\<close>, and the engine choice of \<^verbatim>\<open>app/agentic/router.py\<close>. The
  LangGraph package is outside the repository: compiling records the calls made on its builder, in
  order, and whether its own \<open>compile\<close> accepts them is a parameter. The cells of the cache hold these
  recorded graphs.
\<close>

section \<open>Compiler\<close>

datatype build_call =
    AddNode string node_config
  | AddEdge string string
  | AddConditionalEdges string "(string \<times> string) list"
  | SetEntryPoint string

record CompiledScenario =
  kp_scenario :: Scenario
  kp_graph :: "build_call list option"
  kp_node_count :: nat
  kp_edge_count :: nat
  kp_wait_node_ids :: "string list"
  kp_dry_run :: bool

text \<open>The node loop: one branch per kind the compiler knows; a start node is not among them.\<close>

fun compile_nodes :: "Node list \<Rightarrow> build_call list \<Rightarrow> string list \<Rightarrow> pyexc + build_call list \<times> string list" where
  "compile_nodes [] calls wait_ids = Inr (calls, wait_ids)"
| "compile_nodes (n # ns) calls wait_ids =
     (case n_config n of
        StartNode _ \<Rightarrow> Inl ValueError
      | WaitNode _ \<Rightarrow> compile_nodes ns (calls @ [AddNode (n_id n) (n_config n)]) (wait_ids @ [n_id n])
      | _ \<Rightarrow> compile_nodes ns (calls @ [AddNode (n_id n) (n_config n)]) wait_ids)"

definition outgoing :: "Scenario \<Rightarrow> string \<Rightarrow> Edge list" where
  "outgoing s i = filter (\<lambda>e. e_from e = i) (s_edges s)"

text \<open>\<open>e.when or "default"\<close>.\<close>

definition when_key :: "Edge \<Rightarrow> ustr" where
  "when_key e = (case e_when e of None \<Rightarrow> DEFAULT_WHEN | Some w \<Rightarrow> if w \<noteq> [] then w else DEFAULT_WHEN)"

definition branch_mapping :: "Scenario \<Rightarrow> Edge list \<Rightarrow> (ustr \<times> string) list" where
  "branch_mapping s es =
     (let mapping = dict_update [] (map (\<lambda>e. (when_key e, e_to e)) es)
      in if dict_get mapping DEFAULT_WHEN = None \<and> has_fallback s
         then dict_set DEFAULT_WHEN (the (s_fallback_node s)) mapping else mapping)"

definition identity_mapping :: "Scenario \<Rightarrow> Edge list \<Rightarrow> (string \<times> string) list" where
  "identity_mapping s es =
     dict_set END_NODE END_NODE (dict_update [] (map (\<lambda>(w, t). (t, t)) (branch_mapping s es)))"

definition compile_edge :: "Scenario \<Rightarrow> Node \<Rightarrow> pyexc + build_call" where
  "compile_edge s n =
     (let out = outgoing s (n_id n)
      in case n_config n of
           BranchNode _ \<Rightarrow> Inr (AddConditionalEdges (n_id n) (identity_mapping s out))
         | TransferNode _ \<Rightarrow> Inr (AddEdge (n_id n) END_NODE)
         | EndNode _ \<Rightarrow> Inr (AddEdge (n_id n) END_NODE)
         | _ \<Rightarrow> (case out of
                   [] \<Rightarrow> Inr (AddEdge (n_id n) END_NODE)
                 | [e] \<Rightarrow> Inr (AddEdge (n_id n) (e_to e))
                 | _ \<Rightarrow> Inl ValueError))"

fun compile_edges :: "Scenario \<Rightarrow> Node list \<Rightarrow> build_call list \<Rightarrow> pyexc + build_call list" where
  "compile_edges s [] calls = Inr calls"
| "compile_edges s (n # ns) calls =
     (case compile_edge s n of Inl e \<Rightarrow> Inl e | Inr c \<Rightarrow> compile_edges s ns (calls @ [c]))"

definition dry_run_compile :: "Scenario \<Rightarrow> CompiledScenario" where
  "dry_run_compile s =
     \<lparr>kp_scenario = s, kp_graph = None, kp_node_count = length (s_nodes s), kp_edge_count = length (s_edges s),
      kp_wait_node_ids = map n_id (filter (\<lambda>n. case n_config n of WaitNode _ \<Rightarrow> True | _ \<Rightarrow> False) (s_nodes s)),
      kp_dry_run = True\<rparr>"

definition compile_scenario :: "bool \<Rightarrow> Scenario \<Rightarrow> pyexc + CompiledScenario" where
  "compile_scenario langgraph_installed s =
     (if \<not> langgraph_installed then Inr (dry_run_compile s)
      else (case compile_nodes (s_nodes s) [] [] of
              Inl e \<Rightarrow> Inl e
            | Inr (calls, wait_ids) \<Rightarrow>
                (case compile_edges s (s_nodes s) calls of
                   Inl e \<Rightarrow> Inl e
                 | Inr calls' \<Rightarrow>
                     Inr \<lparr>kp_scenario = s, kp_graph = Some (calls' @ [SetEntryPoint (s_entry s)]),
                          kp_node_count = length (s_nodes s), kp_edge_count = length (s_edges s),
                          kp_wait_node_ids = wait_ids, kp_dry_run = False\<rparr>)))"

section \<open>Cache\<close>

record cache_key =
  ck_tenant_id :: string
  ck_scenario_id :: string
  ck_version :: int

text \<open>The ordered dictionary, least recently used first.\<close>

record LRUCache =
  lru_cap :: nat
  lru_d :: "(cache_key \<times> CompiledScenario) list"

definition move_to_end :: "cache_key \<Rightarrow> (cache_key \<times> CompiledScenario) list \<Rightarrow> (cache_key \<times> CompiledScenario) list" where
  "move_to_end k d = (case dict_get d k of None \<Rightarrow> d | Some v \<Rightarrow> dict_pop k d @ [(k, v)])"

definition lru_get :: "cache_key \<Rightarrow> LRUCache \<Rightarrow> CompiledScenario option \<times> LRUCache" where
  "lru_get k c =
     (case dict_get (lru_d c) k of
        None \<Rightarrow> (None, c)
      | Some v \<Rightarrow> (Some v, c\<lparr>lru_d := move_to_end k (lru_d c)\<rparr>))"

fun lru_evict :: "nat \<Rightarrow> (cache_key \<times> CompiledScenario) list \<Rightarrow> (cache_key \<times> CompiledScenario) list" where
  "lru_evict cap [] = []"
| "lru_evict cap (p # d) = (if length (p # d) > cap then lru_evict cap d else p # d)"

definition lru_put :: "cache_key \<Rightarrow> CompiledScenario \<Rightarrow> LRUCache \<Rightarrow> LRUCache" where
  "lru_put k v c = c\<lparr>lru_d := lru_evict (lru_cap c) (move_to_end k (dict_set k v (lru_d c)))\<rparr>"

definition lru_invalidate :: "string \<Rightarrow> string \<Rightarrow> LRUCache \<Rightarrow> nat \<times> LRUCache" where
  "lru_invalidate tenant_id scenario_id c =
     (let ks = filter (\<lambda>k. ck_tenant_id k = tenant_id \<and> ck_scenario_id k = scenario_id) (map fst (lru_d c))
      in (length ks, c\<lparr>lru_d := fold dict_pop ks (lru_d c)\<rparr>))"

section \<open>Runtime\<close>

text \<open>
  The environment of the runtime: the scenario repository, whether LangGraph is installed, and what its
  \<open>compile\<close> raises on a recorded graph, if anything.
\<close>

record graph_env =
  ge_load :: "string \<Rightarrow> string \<Rightarrow> int option \<Rightarrow> pyexc + Scenario"
  ge_installed :: bool
  ge_compile :: "build_call list \<Rightarrow> string list \<Rightarrow> pyexc option"

definition finalize_compile :: "graph_env \<Rightarrow> CompiledScenario \<Rightarrow> pyexc + CompiledScenario" where
  "finalize_compile G c =
     (case kp_graph c of
        None \<Rightarrow> Inr c
      | Some g \<Rightarrow> (case ge_compile G g (kp_wait_node_ids c) of None \<Rightarrow> Inr (c\<lparr>kp_dry_run := False\<rparr>) | Some e \<Rightarrow> Inl e))"

definition compile_final :: "graph_env \<Rightarrow> Scenario \<Rightarrow> pyexc + CompiledScenario" where
  "compile_final G s =
     (case compile_scenario (ge_installed G) s of
        Inl e \<Rightarrow> Inl e
      | Inr c \<Rightarrow> if kp_graph c \<noteq> None \<and> \<not> kp_dry_run c then finalize_compile G c else Inr c)"

definition get_compiled ::
  "graph_env \<Rightarrow> string \<Rightarrow> string \<Rightarrow> int option \<Rightarrow> LRUCache \<Rightarrow> (CompiledScenario, LRUCache) io" where
  "get_compiled G tenant_id scenario_id version cache =
     (case ge_load G tenant_id scenario_id version of
        Inl e \<Rightarrow> (Inl e, cache)
      | Inr s \<Rightarrow>
          (let key = \<lparr>ck_tenant_id = tenant_id, ck_scenario_id = scenario_id, ck_version = s_version s\<rparr>
           in case lru_get key cache of
                (Some hit, cache') \<Rightarrow> (Inr hit, cache')
              | (None, cache') \<Rightarrow>
                  (case compile_final G s of
                     Inl e \<Rightarrow> (Inl e, cache')
                   | Inr c \<Rightarrow> (Inr c, lru_put key c cache'))))"

text \<open>
  The input of a turn: a fresh state on the first one or when the saved state cannot be read, otherwise
  the new words only, which the reducers merge into the saved state.
\<close>

definition user_message :: "ustr \<Rightarrow> Message" where
  "user_message t = \<lparr>mg_role = ''user'', mg_content = t, mg_node_id = ''input''\<rparr>"

datatype turn_payload = SeedPayload CallbotState | InputPayload ustr "Message list"

definition turn_payload_of :: "CallbotState option \<Rightarrow> string \<Rightarrow> string \<Rightarrow> string \<Rightarrow> ustr \<Rightarrow> turn_payload" where
  "turn_payload_of existing tenant_id session_id scenario_id user_input =
     (case existing of
        None \<Rightarrow> SeedPayload ((empty_state tenant_id session_id scenario_id)
                  \<lparr>st_user_input := user_input, st_messages := [user_message user_input]\<rparr>)
      | Some _ \<Rightarrow> InputPayload user_input [user_message user_input])"

definition turn_input :: "turn_payload \<Rightarrow> CallbotState \<Rightarrow> CallbotState" where
  "turn_input payload saved =
     (case payload of
        SeedPayload s \<Rightarrow> s
      | InputPayload user_input ms \<Rightarrow> saved\<lparr>st_user_input := user_input, st_messages := st_messages saved @ ms\<rparr>)"

text \<open>The events a turn yields for the update of one node.\<close>

datatype turn_event =
    NodeDone string
  | FallbackEvent string
  | ToolEvent string bool
  | ErrorEvent string ustr
  | FinalEvent bool bool ustr
  | TurnError ustr

definition update_events :: "string \<Rightarrow> state_update \<Rightarrow> turn_event list" where
  "update_events node u =
     (case up_assistant_output u of Some t \<Rightarrow> if t \<noteq> [] then [NodeDone node] else [] | None \<Rightarrow> []) @
     (if up_fallback_triggered u = Some True then [FallbackEvent node] else []) @
     map (\<lambda>c. ToolEvent (tk_tool c) (tk_error c = None \<or> tk_error c = Some [])) (up_tool_calls u) @
     map (\<lambda>e. ErrorEvent (ne_node e) (ne_reason e)) (up_errors u)"

definition final_event :: "CallbotState \<Rightarrow> turn_event" where
  "final_event s = FinalEvent (st_should_transfer s) (st_should_end s) (st_assistant_output s)"

text \<open>
  A compiled graph as LangGraph runs it on a thread: the saved state, if it can be read; the updates it
  streams for a payload, in which an entry that is not a dictionary is \<open>None\<close>, and the exception that cuts the
  stream short, if any; and the state it leaves.
\<close>

record graph_runner =
  gr_state :: "build_call list \<Rightarrow> string \<Rightarrow> CallbotState option"
  gr_astream :: "build_call list \<Rightarrow> string \<Rightarrow> turn_payload \<Rightarrow> (string \<times> state_update option) list \<times> pyexc option"
  gr_final :: "build_call list \<Rightarrow> string \<Rightarrow> turn_payload \<Rightarrow> pyexc + CallbotState"

definition DRY_RUN_REASON :: ustr where
  "DRY_RUN_REASON = of_str ''langgraph unavailable (dry-run)''"

text \<open>One turn: the events in order, the exception it ends with, and the cache it leaves.\<close>

definition stream_turn ::
  "py_text \<Rightarrow> graph_env \<Rightarrow> graph_runner \<Rightarrow> string \<Rightarrow> string \<Rightarrow> string \<Rightarrow> ustr \<Rightarrow> int option \<Rightarrow> LRUCache
   \<Rightarrow> turn_event list \<times> pyexc option \<times> LRUCache" where
  "stream_turn T G R tenant_id session_id scenario_id user_input version cache =
     (case get_compiled G tenant_id scenario_id version cache of
        (Inl e, cache') \<Rightarrow> ([], Some e, cache')
      | (Inr compiled, cache') \<Rightarrow>
          (case kp_graph compiled of
             None \<Rightarrow> ([TurnError DRY_RUN_REASON], None, cache')
           | Some g \<Rightarrow>
               if kp_dry_run compiled then ([TurnError DRY_RUN_REASON], None, cache')
               else
                 (let thread_id = tenant_id @ '':'' @ session_id;
                      payload = turn_payload_of (gr_state R g thread_id) tenant_id session_id scenario_id user_input;
                      (updates, failure) = gr_astream R g thread_id payload;
                      events = concat (map (\<lambda>(n, u). case u of None \<Rightarrow> [] | Some u' \<Rightarrow> update_events n u') updates);
                      handle = (\<lambda>e. if is_Exception e then (events @ [TurnError (take 200 (pt_exc T e))], None, cache')
                                    else (events, Some e, cache'))
                  in case failure of
                       Some e \<Rightarrow> handle e
                     | None \<Rightarrow> (case gr_final R g thread_id payload of
                                  Inl e \<Rightarrow> handle e
                                | Inr s \<Rightarrow> (events @ [final_event s], None, cache')))))"

section \<open>Router\<close>

datatype route_reason =
    GloballyDisabled | OverrideHeader | TenantDisabled | TenantEnabled | TenantAllowlist | Canary int | DefaultLegacy

record RouteDecision =
  rd_use_agentic :: bool
  rd_reason :: route_reason
  rd_scenario_version :: "int option"

record router_settings =
  AGENTIC_DISABLED :: bool
  AGENTIC_TENANTS :: string
  AGENTIC_CANARY_PERCENT :: int

record tenant_config =
  agentic_disabled :: bool
  agentic_enabled :: bool
  pinned_version :: "int option"

text \<open>\<open>sha32\<close> is the first 32 bits of the SHA-256 digest, as a number.\<close>

definition decide ::
  "router_settings \<Rightarrow> (string \<Rightarrow> tenant_config option) option \<Rightarrow> (string \<Rightarrow> nat) \<Rightarrow> string \<Rightarrow> string \<Rightarrow> string
   \<Rightarrow> string option \<Rightarrow> RouteDecision" where
  "decide settings repo sha32 tenant_id scenario_id session_id override =
     (let route = (\<lambda>b r. \<lparr>rd_use_agentic = b, rd_reason = r, rd_scenario_version = None\<rparr>);
          tenant_cfg = (case repo of None \<Rightarrow> None | Some get \<Rightarrow> get tenant_id);
          allow = filter (\<lambda>t. t \<noteq> []) (split_on CHR '','' (AGENTIC_TENANTS settings));
          canary = AGENTIC_CANARY_PERCENT settings;
          tail = (if tenant_id \<in> set allow then route True TenantAllowlist
                  else if 0 < canary \<and> canary \<le> 100 \<and> int (sha32 session_id mod 100) < canary
                  then route True (Canary canary)
                  else route False DefaultLegacy)
      in if AGENTIC_DISABLED settings then route False GloballyDisabled
         else if override = Some ''agentic'' then route True OverrideHeader
         else if override = Some ''legacy'' then route False OverrideHeader
         else (case tenant_cfg of
                 None \<Rightarrow> tail
               | Some c \<Rightarrow>
                   if agentic_disabled c then route False TenantDisabled
                   else if agentic_enabled c
                   then \<lparr>rd_use_agentic = True, rd_reason = TenantEnabled, rd_scenario_version = pinned_version c\<rparr>
                   else tail))"

section \<open>Lemmas\<close>

lemma compile_nodes_start:
  "\<exists>n\<in>set ns. is_start n \<Longrightarrow> compile_nodes ns calls w = Inl ValueError"
proof (induction ns arbitrary: calls w)
  case Nil
  then show ?case by simp
next
  case (Cons n ns)
  then show ?case by (cases "n_config n") (auto simp: is_start_def)
qed

lemma valid_has_start: "validate_graph s = None \<Longrightarrow> \<exists>n\<in>set (s_nodes s). is_start n"
  by (auto simp: validate_graph_def Let_def filter_empty_conv split: if_splits)

lemma identity_get:
  "dict_get (dict_update d (map (\<lambda>(w, t). (t, t)) m)) t = (if t \<in> snd ` set m then Some t else dict_get d t)"
  by (induction m arbitrary: d) (auto simp: dict_update_def)

lemma identity_mapping_get:
  "t = END_NODE \<or> (\<exists>w. dict_get (branch_mapping s es) w = Some t) \<Longrightarrow> dict_get (identity_mapping s es) t = Some t"
  by (auto simp: identity_mapping_def identity_get image_iff dest!: map_of_SomeD)

lemma branch_mapping_get:
  assumes "map_of (rev (map (\<lambda>e. (when_key e, e_to e)) es)) w = Some t"
  shows "dict_get (branch_mapping s es) w = Some t"
  using assms by (auto simp: branch_mapping_def dict_get_update_last Let_def)

lemma map_of_rev_distinct:
  assumes "e \<in> set es" and "\<forall>e'\<in>set es. when_key e' = when_key e \<longrightarrow> e_to e' = e_to e"
  shows "map_of (rev (map (\<lambda>e. (when_key e, e_to e)) es)) (when_key e) = Some (e_to e)"
proof -
  obtain t where t: "map_of (rev (map (\<lambda>e. (when_key e, e_to e)) es)) (when_key e) = Some t"
    using assms(1) weak_map_of_SomeI [of "when_key e" "e_to e" "rev (map (\<lambda>e. (when_key e, e_to e)) es)"] by auto
  then have "(when_key e, t) \<in> set (map (\<lambda>e. (when_key e, e_to e)) es)"
    by (auto dest: map_of_SomeD)
  with assms(2) t show ?thesis by auto
qed

lemma default_in_mapping:
  assumes "default_target es = Some t" and "\<forall>e\<in>set es. e_when e \<noteq> Some []"
  shows "map_of (rev (map (\<lambda>e. (when_key e, e_to e)) es)) DEFAULT_WHEN = Some t"
  using assms
proof (induction es rule: rev_induct)
  case Nil
  then show ?case by (simp add: default_target_def)
next
  case (snoc e es)
  have key: "is_default_edge e \<longleftrightarrow> when_key e = DEFAULT_WHEN"
    using snoc.prems(2) by (auto simp: is_default_edge_def when_key_def split: option.splits if_splits)
  show ?case
  proof (cases "is_default_edge e")
    case True
    with key snoc.prems show ?thesis by (simp add: default_target_def)
  next
    case False
    with key snoc show ?thesis by (simp add: default_target_def)
  qed
qed

subsection \<open>The cache\<close>

lemma dict_pop_length: "length (dict_pop k d) \<le> length d"
  by (simp add: dict_pop_def)

lemma move_to_end_get [simp]: "dict_get (move_to_end k d) k' = dict_get d k'"
  by (auto simp: move_to_end_def map_of_append map_add_def split: option.splits)

lemma lru_evict_suffix: "\<exists>pre. d = pre @ lru_evict cap d"
  by (induction d) (auto, metis append_Cons)

lemma lru_evict_length: "length (lru_evict cap d) \<le> cap"
  by (induction d) auto

lemma lru_evict_last: "0 < cap \<Longrightarrow> \<exists>d'. lru_evict cap (d @ [p]) = d' @ [p]"
  by (induction d) auto

lemma fold_dict_pop_set: "set (fold dict_pop ks d) = {p \<in> set d. fst p \<notin> set ks}"
  by (induction ks arbitrary: d) (auto simp: dict_pop_def)

datatype lru_op = LruGet cache_key | LruPut cache_key CompiledScenario | LruInvalidate string string

fun lru_step :: "lru_op \<Rightarrow> LRUCache \<Rightarrow> LRUCache" where
  "lru_step (LruGet k) c = snd (lru_get k c)"
| "lru_step (LruPut k v) c = lru_put k v c"
| "lru_step (LruInvalidate t s) c = snd (lru_invalidate t s c)"

lemma dict_pop_shorter: "dict_get d k = Some v \<Longrightarrow> length (dict_pop k d) < length d"
  unfolding dict_pop_def by (auto dest!: map_of_SomeD intro!: length_filter_less)

lemma fold_dict_pop_length: "length (fold dict_pop ks d) \<le> length d"
proof (induction ks arbitrary: d)
  case (Cons k ks)
  then show ?case using order_trans [OF Cons.IH dict_pop_length] by simp
qed simp

interpretation lru: bounded_buffer lru_step "\<lambda>c. length (lru_d c)" lru_cap
proof unfold_locales
  fix i c
  show "lru_cap (lru_step i c) = lru_cap c"
    by (cases i) (auto simp: lru_get_def lru_put_def lru_invalidate_def Let_def split: option.split)
  assume le: "length (lru_d c) \<le> lru_cap c"
  show "length (lru_d (lru_step i c)) \<le> lru_cap c"
  proof (cases i)
    case (LruGet k)
    with le show ?thesis
      using dict_pop_shorter [of "lru_d c" k] by (auto simp: lru_get_def move_to_end_def split: option.split)
  next
    case (LruPut k v)
    then show ?thesis by (simp add: lru_put_def lru_evict_length)
  next
    case (LruInvalidate t s)
    with le show ?thesis
      using order_trans [OF fold_dict_pop_length le] by (simp add: lru_invalidate_def Let_def)
  qed
qed

text \<open>
  A cell is good when it holds the compilation of a scenario the repository can serve under its key.
\<close>

definition cell_ok :: "graph_env \<Rightarrow> cache_key \<times> CompiledScenario \<Rightarrow> bool" where
  "cell_ok G p \<longleftrightarrow> (\<exists>s ver. ge_load G (ck_tenant_id (fst p)) (ck_scenario_id (fst p)) ver = Inr s \<and>
     s_version s = ck_version (fst p) \<and> compile_final G s = Inr (snd p))"

definition cache_ok :: "graph_env \<Rightarrow> LRUCache \<Rightarrow> bool" where
  "cache_ok G c \<longleftrightarrow> (\<forall>p\<in>set (lru_d c). cell_ok G p)"

definition versions_immutable :: "graph_env \<Rightarrow> bool" where
  "versions_immutable G \<longleftrightarrow> (\<forall>t sc v1 v2 s1 s2. ge_load G t sc v1 = Inr s1 \<longrightarrow> ge_load G t sc v2 = Inr s2 \<longrightarrow>
     s_version s1 = s_version s2 \<longrightarrow> s1 = s2)"

lemma move_to_end_set: "set (move_to_end k d) \<subseteq> set d"
  by (auto simp: move_to_end_def dict_pop_def dest: map_of_SomeD split: option.splits)

lemma dict_set_set: "set (dict_set k v d) \<subseteq> insert (k, v) (set d)"
proof (induction d)
  case (Cons p d)
  then show ?case by (cases p) auto
qed simp

lemma lru_put_set: "set (lru_d (lru_put k v c)) \<subseteq> insert (k, v) (set (lru_d c))"
proof -
  have "set (lru_evict n d) \<subseteq> set d" for n d
    using lru_evict_suffix [of d n] by (metis Un_upper2 set_append)
  then show ?thesis
    unfolding lru_put_def using move_to_end_set [of k "dict_set k v (lru_d c)"] dict_set_set [of k v "lru_d c"]
    by fastforce
qed

lemma lru_get_set: "set (lru_d (snd (lru_get k c))) \<subseteq> set (lru_d c)"
  using move_to_end_set by (auto simp: lru_get_def split: option.splits)

lemma lru_invalidate_set:
  "set (lru_d (snd (lru_invalidate t sc c))) =
     {p \<in> set (lru_d c). \<not> (ck_tenant_id (fst p) = t \<and> ck_scenario_id (fst p) = sc)}"
  by (auto simp: lru_invalidate_def fold_dict_pop_set Let_def)

lemma get_compiled_correct:
  assumes "cache_ok G c" and "versions_immutable G"
  shows "fst (get_compiled G t sc ver c) = (case ge_load G t sc ver of Inl e \<Rightarrow> Inl e | Inr s \<Rightarrow> compile_final G s)"
    and "cache_ok G (snd (get_compiled G t sc ver c))"
proof -
  let ?goal = "fst (get_compiled G t sc ver c) = (case ge_load G t sc ver of Inl e \<Rightarrow> Inl e | Inr s \<Rightarrow> compile_final G s) \<and>
    cache_ok G (snd (get_compiled G t sc ver c))"
  have ?goal
  proof (cases "ge_load G t sc ver")
    case (Inl e)
    with assms(1) show ?thesis by (simp add: get_compiled_def)
  next
    case (Inr s)
    let ?k = "\<lparr>ck_tenant_id = t, ck_scenario_id = sc, ck_version = s_version s\<rparr>"
    show ?thesis
    proof (cases "dict_get (lru_d c) ?k")
      case (Some hit)
      then have "cell_ok G (?k, hit)" using assms(1) by (auto simp: cache_ok_def dest: map_of_SomeD)
      then obtain sa va where sa: "ge_load G t sc va = Inr sa" "s_version sa = s_version s" "compile_final G sa = Inr hit"
        by (auto simp: cell_ok_def)
      moreover have "sa = s" using assms(2) sa(1,2) Inr unfolding versions_immutable_def by blast
      ultimately have "compile_final G s = Inr hit" by simp
      moreover have "cache_ok G (snd (lru_get ?k c))"
        using assms(1) lru_get_set [of ?k c] by (auto simp: cache_ok_def)
      ultimately show ?thesis using Some Inr by (simp add: get_compiled_def lru_get_def)
    next
      case None
      have "cell_ok G (?k, v)" if "compile_final G s = Inr v" for v
        using that Inr by (auto simp: cell_ok_def)
      then have "cache_ok G (lru_put ?k v c)" if "compile_final G s = Inr v" for v
        using that assms(1) lru_put_set [of ?k v c] by (auto simp: cache_ok_def)
      with None Inr assms(1) show ?thesis
        by (auto simp: get_compiled_def lru_get_def Let_def split: sum.splits)
    qed
  qed
  then show "fst (get_compiled G t sc ver c) = (case ge_load G t sc ver of Inl e \<Rightarrow> Inl e | Inr s \<Rightarrow> compile_final G s)"
    and "cache_ok G (snd (get_compiled G t sc ver c))" by blast+
qed

text \<open>The runtime in use: requests for a scenario and invalidations after a publication.\<close>

datatype rt_op = RtGet string string "int option" | RtInvalidate string string

fun rt_step :: "graph_env \<Rightarrow> rt_op \<Rightarrow> LRUCache \<Rightarrow> LRUCache" where
  "rt_step G (RtGet t sc v) c = snd (get_compiled G t sc v c)"
| "rt_step G (RtInvalidate t sc) c = snd (lru_invalidate t sc c)"

lemma rt_step_lru: "\<exists>is. rt_step G op c = fold lru_step is c"
proof (cases op)
  case (RtGet t sc v)
  show ?thesis
  proof (cases "ge_load G t sc v")
    case (Inl e)
    with RtGet have "rt_step G op c = fold lru_step [] c" by (simp add: get_compiled_def)
    then show ?thesis by blast
  next
    case (Inr s)
    let ?k = "\<lparr>ck_tenant_id = t, ck_scenario_id = sc, ck_version = s_version s\<rparr>"
    obtain hit c' where get: "lru_get ?k c = (hit, c')" by (metis surj_pair)
    then have one: "fold lru_step [LruGet ?k] c = c'" and two: "\<And>x. fold lru_step [LruGet ?k, LruPut ?k x] c = lru_put ?k x c'"
      by simp_all
    have "rt_step G op c = c' \<or> (\<exists>x. rt_step G op c = lru_put ?k x c')"
      using RtGet Inr get by (cases hit; cases "compile_final G s") (auto simp: get_compiled_def)
    then show ?thesis using one two by metis
  qed
next
  case (RtInvalidate t sc)
  then show ?thesis by (intro exI [of _ "[LruInvalidate t sc]"]) simp
qed

lemma rt_run_cap: "lru_cap (fold (rt_step G) ops c) = lru_cap c"
proof (induction ops arbitrary: c)
  case (Cons op ops)
  obtain "is" where "rt_step G op c = fold lru_step is c" using rt_step_lru by blast
  with Cons show ?case by (simp add: lru.run_cap)
qed simp

lemma rt_run:
  assumes "versions_immutable G" and "cache_ok G c" and "length (lru_d c) \<le> lru_cap c"
  shows "cache_ok G (fold (rt_step G) ops c) \<and> length (lru_d (fold (rt_step G) ops c)) \<le> lru_cap c"
  using assms(2,3)
proof (induction ops arbitrary: c)
  case Nil
  then show ?case by simp
next
  case (Cons op ops)
  obtain "is" where lr: "rt_step G op c = fold lru_step is c" using rt_step_lru by blast
  have "cache_ok G (rt_step G op c)"
    using Cons.prems(1) get_compiled_correct(2) [OF _ assms(1)]
    by (cases op) (auto simp: cache_ok_def lru_invalidate_set)
  moreover have "length (lru_d (rt_step G op c)) \<le> lru_cap (rt_step G op c)" "lru_cap (rt_step G op c) = lru_cap c"
    unfolding lr using lru.run_bound [OF Cons.prems(2)] by (simp_all add: lru.run_cap)
  ultimately show ?case using Cons.IH [of "rt_step G op c"] by simp
qed


subsection \<open>Node steps\<close>

text \<open>
  What can happen to the state of a conversation: a node of any kind runs, with any behaviour of its
  client, or the next turn brings new words.
\<close>

inductive node_step :: "py_text \<Rightarrow> 'w llm_env \<Rightarrow> CallbotState \<Rightarrow> CallbotState \<Rightarrow> bool" for T E where
  RunIntent: "intent_node T client ic s = Inr u \<Longrightarrow> node_step T E s (merge_update u s)"
| RunLLM: "fst (llm_node T E sink t0 t1 lc s ls) = Inr u \<Longrightarrow> node_step T E s (merge_update u s)"
| RunTool: "tool_node T registry tc s = Inr u \<Longrightarrow> node_step T E s (merge_update u s)"
| RunTransfer: "transfer_node T cti xc s = Inr u \<Longrightarrow> node_step T E s (merge_update u s)"
| RunBranch: "node_step T E s (merge_update (branch_passthrough bc s) s)"
| RunWait: "node_step T E s (merge_update (wait_node wc s) s)"
| RunContext: "node_step T E s (merge_update (context_node cc s) s)"
| RunEnd: "node_step T E s (merge_update (end_node ec s) s)"
| NextTurn: "node_step T E s (turn_input (turn_payload_of (Some s) tenant session scenario words) s)"

lemma tool_attempts_fallback:
  "tool_attempts T tool config args state n = Inr u \<Longrightarrow> up_fallback_triggered u \<noteq> Some False"
proof (induction T tool config args state n rule: tool_attempts.induct)
  case (1 T tool config args state attempt)
  then show ?case
    by (subst (asm) tool_attempts.simps [of _ _ _ _ _ attempt])
      (auto simp: tool_handle_error_def no_update_def Let_def split: if_splits tool_outcome.splits on_error.splits)
qed

text \<open>No node takes the fallback flag back.\<close>

lemma intent_fallback_flag: "intent_node T client config s = Inr u \<Longrightarrow> up_fallback_triggered u \<noteq> Some False"
  by (auto simp: intent_node_def intent_fallback_def no_update_def Let_def
      split: if_splits option.split_asm sum.splits)

lemma llm_fallback_flag:
  assumes "fst (llm_node T E sink t0 t1 config s ls) = Inr u"
  shows "up_fallback_triggered u \<noteq> Some False"
  using assms
  by (auto simp: llm_node_def llm_answer_def no_update_def Let_def split: if_splits prod.splits option.splits sum.splits
      dest: llm_node_error_shape)

lemma tool_fallback_flag: "tool_node T registry config s = Inr u \<Longrightarrow> up_fallback_triggered u \<noteq> Some False"
  by (auto simp: tool_node_def tool_handle_error_def no_update_def Let_def split: option.splits on_error.splits
      dest: tool_attempts_fallback)

lemma transfer_fallback_flag: "transfer_node T client config s = Inr u \<Longrightarrow> up_fallback_triggered u \<noteq> Some False"
  by (auto simp: transfer_node_def no_update_def Let_def split: option.splits if_splits)

lemmas fallback_flags =
  intent_fallback_flag llm_fallback_flag tool_fallback_flag transfer_fallback_flag

definition conversation_grows :: "CallbotState \<Rightarrow> CallbotState \<Rightarrow> bool" where
  "conversation_grows s s' \<longleftrightarrow>
     st_session s' = st_session s \<and> (st_fallback_triggered s \<longrightarrow> st_fallback_triggered s') \<and>
     (\<exists>ms ts es. st_messages s' = st_messages s @ ms \<and> st_tool_calls s' = st_tool_calls s @ ts \<and>
        st_errors s' = st_errors s @ es)"

lemma merge_grows: "up_fallback_triggered u \<noteq> Some False \<Longrightarrow> conversation_grows s (merge_update u s)"
  by (auto simp: conversation_grows_def merge_update_def or_old_def split: option.splits)

lemma node_step_grows: "node_step T E s s' \<Longrightarrow> conversation_grows s s'"
proof (induction rule: node_step.induct)
  case (NextTurn s tenant session scenario words)
  then show ?case by (simp add: conversation_grows_def turn_input_def turn_payload_of_def)
qed (auto intro!: merge_grows dest: fallback_flags
      simp: branch_passthrough_def wait_node_def context_node_def end_node_def no_update_def split: option.splits)

lemma conversation_grows_trans: "conversation_grows s t \<Longrightarrow> conversation_grows t u \<Longrightarrow> conversation_grows s u"
  unfolding conversation_grows_def by (metis append.assoc)

lemma node_steps_grow: "(node_step T E)\<^sup>*\<^sup>* s s' \<Longrightarrow> conversation_grows s s'"
proof (induction rule: rtranclp_induct)
  case base
  show ?case by (simp add: conversation_grows_def)
next
  case (step y z)
  then show ?case by (blast intro: conversation_grows_trans node_step_grows)
qed

lemma dispatch_mapped:
  assumes "\<forall>e\<in>set es. e_when e \<noteq> Some []"
    and "\<forall>e\<in>set es. \<forall>e'\<in>set es. \<not> is_default_edge e \<and> when_key e' = when_key e \<longrightarrow> e_to e' = e_to e"
  shows "dispatch T config es state = END_NODE \<or>
    (\<exists>w. map_of (rev (map (\<lambda>e. (when_key e, e_to e)) es)) w = Some (dispatch T config es state))"
proof -
  have default: "d = END_NODE \<or> (\<exists>w. map_of (rev (map (\<lambda>e. (when_key e, e_to e)) es)) w = Some d)"
    if "d = default_or_end (default_target es)" for d
    using that default_in_mapping [OF _ assms(1)] by (auto simp: default_or_end_def split: option.splits if_splits)
  show ?thesis
  proof (cases "st_fallback_triggered state \<and> default_target es \<noteq> None \<and> default_target es \<noteq> Some []")
    case True
    then have "dispatch T config es state = default_or_end (default_target es)"
      by (auto simp: dispatch_def default_or_end_def Let_def)
    then show ?thesis by (rule default)
  next
    case False
    show ?thesis
    proof (cases "find (\<lambda>(w, t). branch_match T (bc_mode config) (branch_value config state) w) (branch_cases es)")
      case None
      with False have "dispatch T config es state = default_or_end (default_target es)"
        by (auto simp: dispatch_def Let_def)
      then show ?thesis by (rule default)
    next
      case (Some p)
      then obtain e where e: "e \<in> set es" "\<not> is_default_edge e" "e_to e = snd p"
        using dispatch_case [of T "bc_mode config" "branch_value config state" es "fst p" "snd p"] by auto
      have "dispatch T config es state = e_to e"
        using False Some e(3) by (auto simp: dispatch_def Let_def split: prod.splits)
      moreover have "map_of (rev (map (\<lambda>e. (when_key e, e_to e)) es)) (when_key e) = Some (e_to e)"
        by (rule map_of_rev_distinct [OF e(1)]) (use e assms(2) in blast)
      ultimately show ?thesis by auto
    qed
  qed
qed

lemma move_to_end_last: "dict_get d k = Some v \<Longrightarrow> \<exists>d'. move_to_end k d = d' @ [(k, v)]"
  by (simp add: move_to_end_def)

lemma get_compiled_last:
  assumes "ge_load G t sc ver = Inr s" and "compile_final G s = Inr x" and "0 < lru_cap c"
    and "fst (get_compiled G t sc ver c) = Inr x"
  shows "\<exists>d'. lru_d (snd (get_compiled G t sc ver c)) =
    d' @ [(\<lparr>ck_tenant_id = t, ck_scenario_id = sc, ck_version = s_version s\<rparr>, x)]"
proof -
  let ?k = "\<lparr>ck_tenant_id = t, ck_scenario_id = sc, ck_version = s_version s\<rparr>"
  show ?thesis
  proof (cases "dict_get (lru_d c) ?k")
    case None
    obtain d' where "move_to_end ?k (dict_set ?k x (lru_d c)) = d' @ [(?k, x)]"
      using move_to_end_last [of "dict_set ?k x (lru_d c)" ?k x] by auto
    moreover have "get_compiled G t sc ver c = (Inr x, lru_put ?k x c)"
      using None assms(1,2) by (simp add: get_compiled_def lru_get_def)
    ultimately show ?thesis using lru_evict_last [OF assms(3)] by (simp add: lru_put_def)
  next
    case (Some v)
    then have "get_compiled G t sc ver c = (Inr v, c\<lparr>lru_d := move_to_end ?k (lru_d c)\<rparr>)"
      using assms(1) by (simp add: get_compiled_def lru_get_def)
    with assms(4) move_to_end_last [OF Some] show ?thesis by simp
  qed
qed

lemma compile_valid:
  assumes "validate_graph s = None"
  shows "compile_final G s = (if ge_installed G then Inl ValueError else Inr (dry_run_compile s))"
  using compile_nodes_start [OF valid_has_start [OF assms]]
  by (simp add: compile_final_def compile_scenario_def dry_run_compile_def)

section \<open>Properties\<close>

text \<open>
  C21. No valid scenario can be run by the graph engine. Validation demands exactly one start node and
  the compiler has no case for one, so with LangGraph installed every turn raises \<open>ValueError\<close> before any
  event; without it every turn is the single event that reports the dry run. This holds for any history of the cache.
\<close>

theorem valid_scenario_never_runs:
  assumes "versions_immutable G" and "ge_load G tenant scenario_id version = Inr s" and "validate_graph s = None"
  shows "\<exists>cache'. stream_turn T G R tenant session scenario_id words version
      (fold (rt_step G) ops \<lparr>lru_cap = cap, lru_d = []\<rparr>) =
    (if ge_installed G then ([], Some ValueError, cache') else ([TurnError DRY_RUN_REASON], None, cache'))"
proof -
  let ?c = "fold (rt_step G) ops \<lparr>lru_cap = cap, lru_d = []\<rparr>"
  have "cache_ok G ?c" using rt_run [OF assms(1), of "\<lparr>lru_cap = cap, lru_d = []\<rparr>" ops] by (simp add: cache_ok_def)
  then have "fst (get_compiled G tenant scenario_id version ?c) =
      (if ge_installed G then Inl ValueError else Inr (dry_run_compile s))"
    using get_compiled_correct(1) [OF _ assms(1)] assms(2) compile_valid [OF assms(3), of G] by simp
  then show ?thesis
    by (cases "get_compiled G tenant scenario_id version ?c") (auto simp: stream_turn_def dry_run_compile_def)
qed

definition demo_graph_env :: graph_env where
  "demo_graph_env = \<lparr>ge_load = (\<lambda>t sc v. if sc = ''demo'' then Inr demo_scenario else Inl KeyError),
     ge_installed = True, ge_compile = (\<lambda>g w. None)\<rparr>"

definition demo_runner :: graph_runner where
  "demo_runner = \<lparr>gr_state = (\<lambda>_ _. None), gr_astream = (\<lambda>_ _ _. ([], None)), gr_final = (\<lambda>_ _ _. Inl KeyError)\<rparr>"

lemma demo_graph_env_immutable: "versions_immutable demo_graph_env"
  by (auto simp: versions_immutable_def demo_graph_env_def split: if_splits)

lemma demo_scenario_valid: "validate_graph demo_scenario = None"
  by code_simp

theorem valid_scenario_never_runs_witness:
  "\<exists>cache'. stream_turn demo_text demo_graph_env demo_runner ''acme'' ''s1'' ''demo'' [104] None
     (fold (rt_step demo_graph_env) [RtGet ''acme'' ''demo'' None] \<lparr>lru_cap = 256, lru_d = []\<rparr>) = ([], Some ValueError, cache')"
proof -
  have "ge_load demo_graph_env ''acme'' ''demo'' None = Inr demo_scenario" "ge_installed demo_graph_env"
    by (simp_all add: demo_graph_env_def)
  with valid_scenario_never_runs [OF demo_graph_env_immutable _ demo_scenario_valid, of "''acme''" "''demo''" None
      demo_text demo_runner "''s1''" "[104]" "[RtGet ''acme'' ''demo'' None]" 256] show ?thesis by (simp only: if_True)
qed

text \<open>
  The dispatcher of a branch node only returns names that the conditional edges know, provided no
  edge has an empty condition and edges with the same condition agree on their target. The second
  condition is needed: with two targets for one condition the dispatcher takes the first and the edges only know the last.
\<close>

theorem branch_targets_mapped:
  assumes "\<forall>e\<in>set es. e_when e \<noteq> Some []"
    and "\<forall>e\<in>set es. \<forall>e'\<in>set es. \<not> is_default_edge e \<and> when_key e' = when_key e \<longrightarrow> e_to e' = e_to e"
  shows "dict_get (identity_mapping s es) (dispatch T config es state) = Some (dispatch T config es state)"
  using dispatch_mapped [OF assms, of T config state] branch_mapping_get by (intro identity_mapping_get) blast

theorem branch_targets_mapped_witness:
  "dict_get (identity_mapping demo_scenario [\<lparr>e_from = ''b'', e_to = ''x'', e_when = Some (of_str ''a'')\<rparr>])
     (dispatch demo_text \<lparr>bc_mode = ModeIntent, bc_slot_key = None\<rparr>
        [\<lparr>e_from = ''b'', e_to = ''x'', e_when = Some (of_str ''a'')\<rparr>] demo_state) =
   Some (dispatch demo_text \<lparr>bc_mode = ModeIntent, bc_slot_key = None\<rparr>
        [\<lparr>e_from = ''b'', e_to = ''x'', e_when = Some (of_str ''a'')\<rparr>] demo_state)"
  by (rule branch_targets_mapped) (simp_all add: of_str_def)

text \<open>The dispatcher's first target is missing from the edges.\<close>

theorem duplicate_when_unmapped:
  "let es = [\<lparr>e_from = ''b'', e_to = ''x'', e_when = Some (of_str ''a'')\<rparr>,
             \<lparr>e_from = ''b'', e_to = ''y'', e_when = Some (of_str ''a'')\<rparr>];
       target = dispatch demo_text \<lparr>bc_mode = ModeExpr, bc_slot_key = None\<rparr> es (demo_state\<lparr>st_user_input := of_str ''a''\<rparr>)
   in target = ''x'' \<and> dict_get (identity_mapping demo_scenario es) target = None"
  by code_simp

text \<open>
  A conversation's record only grows, over any number of nodes and turns: messages, tool calls and
  errors are appended to, and the tenant, session and scenario it belongs to never change. The fallback
  flag is never cleared either, so after one failure every later branch of the call takes its default edge.
\<close>

theorem fallback_is_sticky:
  assumes "(node_step T E)\<^sup>*\<^sup>* s s'"
  shows "st_session s' = st_session s \<and>
    (\<exists>ms ts es. st_messages s' = st_messages s @ ms \<and> st_tool_calls s' = st_tool_calls s @ ts \<and> st_errors s' = st_errors s @ es) \<and>
    (st_fallback_triggered s \<and> default_target edges = Some t \<and> t \<noteq> [] \<longrightarrow>
      st_fallback_triggered s' \<and> dispatch T config edges s' = t)"
  using node_steps_grow [OF assms] by (auto simp: conversation_grows_def dispatch_def Let_def)

theorem fallback_is_sticky_witness:
  "\<exists>s'. (node_step demo_text demo_llm_env)\<^sup>*\<^sup>* (demo_state\<lparr>st_fallback_triggered := True\<rparr>) s' \<and>
     st_user_input s' = of_str ''bill'' \<and>
     dispatch demo_text \<lparr>bc_mode = ModeExpr, bc_slot_key = None\<rparr>
       [\<lparr>e_from = ''b'', e_to = ''bill'', e_when = Some (of_str ''bill'')\<rparr>, \<lparr>e_from = ''b'', e_to = ''other'', e_when = None\<rparr>] s' = ''other''"
proof -
  let ?s = "demo_state\<lparr>st_fallback_triggered := True\<rparr>"
  let ?s' = "turn_input (turn_payload_of (Some ?s) ''acme'' ''s1'' ''demo'' (of_str ''bill'')) ?s"
  let ?es = "[\<lparr>e_from = ''b'', e_to = ''bill'', e_when = Some (of_str ''bill'')\<rparr>, \<lparr>e_from = ''b'', e_to = ''other'', e_when = None\<rparr>]"
  have steps: "(node_step demo_text demo_llm_env)\<^sup>*\<^sup>* ?s ?s'" by (intro r_into_rtranclp NextTurn)
  have "default_target ?es = Some ''other''"
    by (simp add: default_target_def is_default_edge_def DEFAULT_WHEN_def of_str_def)
  with fallback_is_sticky [OF steps, of ?es "''other''"] steps show ?thesis
    by (intro exI [of _ ?s']) (simp add: turn_input_def turn_payload_of_def)
qed



text \<open>
  The engine choice is predictable. The global switch beats everything, and a tenant that is
  switched off gets the legacy engine unless a header overrides it; raising the canary percentage within
  0 to 100 never takes a session away from the graph engine, at 100 every session has it, and a percentage
  above 100 is the same as none.
\<close>

theorem routing_policy:
  "(AGENTIC_DISABLED st \<longrightarrow> \<not> rd_use_agentic (decide st repo sha32 tenant scenario session override)) \<and>
   (\<not> AGENTIC_DISABLED st \<longrightarrow>
      (repo = Some get \<and> get tenant = Some cfg \<and> agentic_disabled cfg \<and> override \<noteq> Some ''agentic'' \<longrightarrow>
         \<not> rd_use_agentic (decide st repo sha32 tenant scenario session override)) \<and>
      (p \<le> q \<and> q \<le> 100 \<and>
         rd_use_agentic (decide (st\<lparr>AGENTIC_CANARY_PERCENT := p\<rparr>) repo sha32 tenant scenario session override) \<longrightarrow>
         rd_use_agentic (decide (st\<lparr>AGENTIC_CANARY_PERCENT := q\<rparr>) repo sha32 tenant scenario session override)) \<and>
      (repo = None \<and> override = None \<longrightarrow>
         rd_use_agentic (decide (st\<lparr>AGENTIC_CANARY_PERCENT := 100\<rparr>) repo sha32 tenant scenario session override)) \<and>
      (100 < q \<longrightarrow>
         decide (st\<lparr>AGENTIC_CANARY_PERCENT := q\<rparr>) repo sha32 tenant scenario session override =
         decide (st\<lparr>AGENTIC_CANARY_PERCENT := 0\<rparr>) repo sha32 tenant scenario session override))"
  by (cases repo; cases "the repo tenant") (auto simp: decide_def Let_def)

theorem routing_policy_witness:
  "let st = \<lparr>AGENTIC_DISABLED = False, AGENTIC_TENANTS = [], AGENTIC_CANARY_PERCENT = 0\<rparr>;
       d = (\<lambda>p. decide (st\<lparr>AGENTIC_CANARY_PERCENT := p\<rparr>) None (\<lambda>_. 107) ''acme'' ''demo'' ''s1'' None)
   in rd_use_agentic (d 100) \<and> d 101 = d 0 \<and> \<not> rd_use_agentic (d 7) \<and> rd_use_agentic (d 8)"
proof -
  let ?st = "\<lparr>AGENTIC_DISABLED = False, AGENTIC_TENANTS = [], AGENTIC_CANARY_PERCENT = 0\<rparr>"
  have "rd_use_agentic (decide (?st\<lparr>AGENTIC_CANARY_PERCENT := 100\<rparr>) None (\<lambda>_. 107) ''acme'' ''demo'' ''s1'' None) \<and>
    decide (?st\<lparr>AGENTIC_CANARY_PERCENT := 101\<rparr>) None (\<lambda>_. 107) ''acme'' ''demo'' ''s1'' None =
    decide (?st\<lparr>AGENTIC_CANARY_PERCENT := 0\<rparr>) None (\<lambda>_. 107) ''acme'' ''demo'' ''s1'' None"
    using routing_policy [of ?st None "\<lambda>_. 107" "''acme''" "''demo''" "''s1''" None] by simp
  moreover have "\<not> rd_use_agentic (decide (?st\<lparr>AGENTIC_CANARY_PERCENT := 7\<rparr>) None (\<lambda>_. 107) ''acme'' ''demo'' ''s1'' None)"
    "rd_use_agentic (decide (?st\<lparr>AGENTIC_CANARY_PERCENT := 8\<rparr>) None (\<lambda>_. 107) ''acme'' ''demo'' ''s1'' None)"
    by (simp_all add: decide_def Let_def)
  ultimately show ?thesis by (simp add: Let_def)
qed

end
