(* ===== verification/Redis_Store.thy ===== *)
theory Redis_Store
  imports Session_Repository
begin

text \<open>
  The Redis commands of the components that keep small records or counters there, as a record over an
  abstract state \<open>'w\<close>, for values of any type; and the HTTP requests and responses the middleware passes
  on. As for the session store, a command fails exactly in the states where the server is down. Expiry is a
  step of the environment, never an effect of a command: the laws say what a read finds right after a write.
\<close>

section \<open>Commands\<close>

record ('v, 'w) redis =
  rd_settings :: redis_settings
  rd_ok :: "'w \<Rightarrow> bool"
  rd_get :: "string \<Rightarrow> 'w \<Rightarrow> 'v option"
  rd_set :: "string \<Rightarrow> 'v \<Rightarrow> nat \<Rightarrow> 'w \<Rightarrow> 'w"
  rd_setnx :: "string \<Rightarrow> 'v \<Rightarrow> nat \<Rightarrow> 'w \<Rightarrow> bool \<times> 'w"
  rd_delete :: "string \<Rightarrow> 'w \<Rightarrow> 'w"
  rd_expire :: "string \<Rightarrow> nat \<Rightarrow> 'w \<Rightarrow> 'w"

text \<open>
  \<open>SET\<close> stores, \<open>SET NX\<close> stores only where there is nothing and says so, \<open>DEL\<close> removes, \<open>EXPIRE\<close> changes no value.
\<close>

definition redis_laws :: "('v, 'w) redis \<Rightarrow> bool" where
  "redis_laws R \<longleftrightarrow>
     (\<forall>k k' v ttl w. rd_get R k' (rd_set R k v ttl w) = (if k' = k then Some v else rd_get R k' w)) \<and>
     (\<forall>k v ttl w. fst (rd_setnx R k v ttl w) \<longleftrightarrow> rd_get R k w = None) \<and>
     (\<forall>k k' v ttl w. rd_get R k' (snd (rd_setnx R k v ttl w)) =
        (if k' = k \<and> rd_get R k w = None then Some v else rd_get R k' w)) \<and>
     (\<forall>k k' w. rd_get R k' (rd_delete R k w) = (if k' = k then None else rd_get R k' w)) \<and>
     (\<forall>k k' ttl w. rd_get R k' (rd_expire R k ttl w) = rd_get R k' w)"

definition redis_up :: "('v, 'w) redis \<Rightarrow> bool" where
  "redis_up R \<longleftrightarrow> (\<forall>w. rd_ok R w)"

lemma redis_rules:
  assumes "redis_laws R"
  shows "rd_get R k' (rd_set R k v ttl w) = (if k' = k then Some v else rd_get R k' w)"
    and "fst (rd_setnx R k v ttl w) \<longleftrightarrow> rd_get R k w = None"
    and "rd_get R k' (snd (rd_setnx R k v ttl w)) = (if k' = k \<and> rd_get R k w = None then Some v else rd_get R k' w)"
    and "rd_get R k' (rd_delete R k w) = (if k' = k then None else rd_get R k' w)"
    and "rd_get R k' (rd_expire R k ttl w) = rd_get R k' w"
  using assms unfolding redis_laws_def by simp_all

lemma redis_setnx_cases:
  assumes "redis_laws R" and "rd_setnx R k v ttl w = (b, w')"
  shows "b \<longleftrightarrow> rd_get R k w = None"
    and "rd_get R k' w' = (if k' = k \<and> b then Some v else rd_get R k' w)"
  using redis_rules(2,3) [OF assms(1), where k = k and v = v and ttl = ttl and w = w] assms(2) by auto

text \<open>A map in memory.\<close>

definition mem_redis :: "('v, string \<Rightarrow> 'v option) redis" where
  "mem_redis = \<lparr>rd_settings = default_redis_settings, rd_ok = (\<lambda>_. True), rd_get = (\<lambda>k w. w k),
     rd_set = (\<lambda>k v ttl w. w(k \<mapsto> v)),
     rd_setnx = (\<lambda>k v ttl w. if w k = None then (True, w(k \<mapsto> v)) else (False, w)),
     rd_delete = (\<lambda>k w. w(k := None)), rd_expire = (\<lambda>k ttl w. w)\<rparr>"

lemma mem_redis_laws: "redis_laws mem_redis" "redis_up mem_redis"
  by (simp_all add: redis_laws_def redis_up_def mem_redis_def)

section \<open>HTTP\<close>

record http_request =
  rq_method :: string
  rq_path :: string
  rq_header :: "string \<Rightarrow> string option"
  rq_query :: "string \<Rightarrow> string option"
  rq_client :: "string option"
  rq_body :: bytes

record http_response =
  rs_status :: int
  rs_headers :: "(string \<times> string) list"
  rs_body :: bytes

text \<open>A response of the application, or a refusal: its status, error code and headers.\<close>

datatype reply = Passed http_response | Refused int string "(string \<times> string) list"

text \<open>\<open>str.upper\<close> and \<open>str.lower\<close> on ASCII, \<open>str.strip\<close> on the Latin-1 text of a header.\<close>

definition upper_char :: "char \<Rightarrow> char" where
  "upper_char c = (if 97 \<le> (of_char c :: nat) \<and> (of_char c :: nat) \<le> 122 then char_of ((of_char c :: nat) - 32) else c)"

definition lower_char :: "char \<Rightarrow> char" where
  "lower_char c = (if 65 \<le> (of_char c :: nat) \<and> (of_char c :: nat) \<le> 90 then char_of ((of_char c :: nat) + 32) else c)"

definition is_space :: "char \<Rightarrow> bool" where
  "is_space c = (let n = (of_char c :: nat) in 9 \<le> n \<and> n \<le> 13 \<or> 28 \<le> n \<and> n \<le> 32 \<or> n = 133 \<or> n = 160)"

definition strip :: "string \<Rightarrow> string" where
  "strip s = rev (dropWhile is_space (rev (dropWhile is_space s)))"

definition header_or_empty :: "http_request \<Rightarrow> string \<Rightarrow> string" where
  "header_or_empty rq h = (case rq_header rq h of None \<Rightarrow> [] | Some v \<Rightarrow> v)"

text \<open>
  The tenant named in a bearer token, without verification. \<open>claim\<close> decodes the middle part of a token:
  base64 and JSON, \<open>None\<close> when that fails or there is no such claim.
\<close>

definition token_tenant :: "(string \<Rightarrow> string option) \<Rightarrow> string \<Rightarrow> string option" where
  "token_tenant claim token =
     (case split_on CHR ''.'' token of [h, p, s] \<Rightarrow> claim p | _ \<Rightarrow> None)"

definition bearer_prefix :: string where "bearer_prefix = ''Bearer ''"

end
