(* ===== verification/Idempotency.thy ===== *)
theory Idempotency
  imports Redis_Store Base64_Codec
begin

text \<open>
  Idempotency keys: the store \<^verbatim>\<open>app/core/idempotency.py\<close> and the middleware
  \<^verbatim>\<open>app/middleware/idempotency_middleware.py\<close>. The record under a key is what the JSON text parses to, with one
  value for text that does not parse or has another version. The hashes of the standard library are
  parameters. Taking a slot is up to three commands, which other requests may interleave; each is a
  definition of its own.
\<close>

section \<open>Records\<close>

record idem_settings =
  IDEMPOTENCY_ENABLED :: bool
  IDEMPOTENCY_TTL_SECONDS :: nat
  IDEMPOTENCY_MAX_BODY_BYTES :: nat
  IDEMPOTENCY_REQUIRED_PATHS :: string

definition default_idem_settings :: idem_settings where
  "default_idem_settings = \<lparr>IDEMPOTENCY_ENABLED = True, IDEMPOTENCY_TTL_SECONDS = 600,
     IDEMPOTENCY_MAX_BODY_BYTES = 262144, IDEMPOTENCY_REQUIRED_PATHS = []\<rparr>"

record done_record =
  dn_body_hash :: string
  dn_response_status :: int
  dn_response_headers :: "(string \<times> string) list"
  dn_response_body_b64 :: ustr
  dn_response_truncated :: bool
  dn_created_at :: time

datatype idem_raw = InProgress string time | Done done_record | Corrupt

record CachedResponse =
  cd_status_code :: int
  cd_headers :: "(string \<times> string) list"
  cd_body :: bytes
  cd_truncated :: bool

record AcquireResult =
  ar_acquired :: bool
  ar_existing_status :: "string option"
  ar_existing_body_hash :: "string option"
  ar_cached :: "CachedResponse option"

definition REPLAY_EXCLUDED_HEADERS :: "string list" where
  "REPLAY_EXCLUDED_HEADERS = [''content-length'', ''date'', ''server'', ''x-request-id'', ''x-trace-id'',
     ''connection'', ''transfer-encoding'']"

definition filter_replay_headers :: "(string \<times> string) list \<Rightarrow> (string \<times> string) list" where
  "filter_replay_headers h = filter (\<lambda>(k, v). map lower_char k \<notin> set REPLAY_EXCLUDED_HEADERS) h"

definition serialize_in_progress :: "time \<Rightarrow> string \<Rightarrow> idem_raw" where
  "serialize_in_progress now body_hash = InProgress body_hash now"

definition serialize_done ::
  "idem_settings \<Rightarrow> time \<Rightarrow> string \<Rightarrow> int \<Rightarrow> (string \<times> string) list \<Rightarrow> bytes \<Rightarrow> idem_raw" where
  "serialize_done cfg now body_hash status_code headers body =
     (let truncated = length body > IDEMPOTENCY_MAX_BODY_BYTES cfg
      in Done \<lparr>dn_body_hash = body_hash, dn_response_status = status_code,
               dn_response_headers = filter_replay_headers headers,
               dn_response_body_b64 = b64encode (if truncated then [] else body),
               dn_response_truncated = truncated, dn_created_at = now\<rparr>)"

definition record_to_cached :: "done_record \<Rightarrow> CachedResponse" where
  "record_to_cached d =
     \<lparr>cd_status_code = dn_response_status d, cd_headers = dn_response_headers d,
      cd_body = (case b64decode (dn_response_body_b64 d) of None \<Rightarrow> [] | Some b \<Rightarrow> b),
      cd_truncated = dn_response_truncated d\<rparr>"

section \<open>Keys\<close>

definition build_idem_key ::
  "redis_settings \<Rightarrow> (string \<Rightarrow> string) \<Rightarrow> string option \<Rightarrow> string \<Rightarrow> string \<Rightarrow> string \<Rightarrow> string" where
  "build_idem_key rcfg sha1_hex tenant_id method path client_key =
     scoped_key rcfg ''idem'' [map upper_char method, take 16 (sha1_hex path), client_key] tenant_id"

section \<open>Taking a slot\<close>

definition fresh_slot :: AcquireResult where
  "fresh_slot = \<lparr>ar_acquired = True, ar_existing_status = None, ar_existing_body_hash = None, ar_cached = None\<rparr>"

definition in_flight_slot :: "string option \<Rightarrow> AcquireResult" where
  "in_flight_slot h = \<lparr>ar_acquired = False, ar_existing_status = Some ''in_progress'', ar_existing_body_hash = h,
     ar_cached = None\<rparr>"

datatype acq_next = Taken AcquireResult | ReadExisting | RetrySet | OverwriteCorrupt

type_synonym 'w idem_redis = "(idem_raw, 'w) redis"

definition acquire_first :: "'w idem_redis \<Rightarrow> idem_settings \<Rightarrow> time \<Rightarrow> string \<Rightarrow> string \<Rightarrow> 'w \<Rightarrow> acq_next \<times> 'w" where
  "acquire_first R cfg now key body_hash w =
     (if \<not> rd_ok R w then (Taken fresh_slot, w)
      else (case rd_setnx R key (serialize_in_progress now body_hash) (IDEMPOTENCY_TTL_SECONDS cfg) w of
              (True, w') \<Rightarrow> (Taken fresh_slot, w') | (False, w') \<Rightarrow> (ReadExisting, w')))"

definition acquire_read :: "'w idem_redis \<Rightarrow> string \<Rightarrow> 'w \<Rightarrow> acq_next" where
  "acquire_read R key w =
     (if \<not> rd_ok R w then Taken fresh_slot
      else (case rd_get R key w of
              None \<Rightarrow> RetrySet
            | Some Corrupt \<Rightarrow> OverwriteCorrupt
            | Some (InProgress h _) \<Rightarrow> Taken (in_flight_slot (Some h))
            | Some (Done d) \<Rightarrow>
                Taken \<lparr>ar_acquired = False, ar_existing_status = Some ''done'',
                       ar_existing_body_hash = Some (dn_body_hash d), ar_cached = Some (record_to_cached d)\<rparr>))"

definition acquire_retry ::
  "'w idem_redis \<Rightarrow> idem_settings \<Rightarrow> time \<Rightarrow> string \<Rightarrow> string \<Rightarrow> 'w \<Rightarrow> AcquireResult \<times> 'w" where
  "acquire_retry R cfg now key body_hash w =
     (if \<not> rd_ok R w then (fresh_slot, w)
      else (case rd_setnx R key (serialize_in_progress now body_hash) (IDEMPOTENCY_TTL_SECONDS cfg) w of
              (True, w') \<Rightarrow> (fresh_slot, w') | (False, w') \<Rightarrow> (in_flight_slot None, w')))"

definition acquire_overwrite ::
  "'w idem_redis \<Rightarrow> idem_settings \<Rightarrow> time \<Rightarrow> string \<Rightarrow> string \<Rightarrow> 'w \<Rightarrow> AcquireResult \<times> 'w" where
  "acquire_overwrite R cfg now key body_hash w =
     (if \<not> rd_ok R w then (fresh_slot, w)
      else (fresh_slot, rd_set R key (serialize_in_progress now body_hash) (IDEMPOTENCY_TTL_SECONDS cfg) w))"

definition acquire_slot ::
  "'w idem_redis \<Rightarrow> idem_settings \<Rightarrow> time \<Rightarrow> string \<Rightarrow> string \<Rightarrow> 'w \<Rightarrow> AcquireResult \<times> 'w" where
  "acquire_slot R cfg now key body_hash w =
     (case acquire_first R cfg now key body_hash w of
        (Taken r, w1) \<Rightarrow> (r, w1)
      | (_, w1) \<Rightarrow>
          (case acquire_read R key w1 of
             Taken r \<Rightarrow> (r, w1)
           | OverwriteCorrupt \<Rightarrow> acquire_overwrite R cfg now key body_hash w1
           | _ \<Rightarrow> acquire_retry R cfg now key body_hash w1))"

definition store_response ::
  "'w idem_redis \<Rightarrow> idem_settings \<Rightarrow> time \<Rightarrow> string \<Rightarrow> string \<Rightarrow> http_response \<Rightarrow> 'w \<Rightarrow> 'w" where
  "store_response R cfg now key body_hash rs w =
     (if rd_ok R w
      then rd_set R key (serialize_done cfg now body_hash (rs_status rs) (rs_headers rs) (rs_body rs))
             (IDEMPOTENCY_TTL_SECONDS cfg) w
      else w)"

definition release_slot :: "'w idem_redis \<Rightarrow> string \<Rightarrow> 'w \<Rightarrow> 'w" where
  "release_slot R key w = (if rd_ok R w then rd_delete R key w else w)"

section \<open>Middleware\<close>

definition MUTATING_METHODS :: "string list" where
  "MUTATING_METHODS = [''POST'', ''PUT'', ''PATCH'', ''DELETE'']"

definition EXCLUDED_PREFIXES :: "string list" where
  "EXCLUDED_PREFIXES = [''/api/v1/health'', ''/api/v1/metrics'', ''/api/docs'', ''/api/redoc'', ''/openapi.json'']"

definition WS_PREFIX :: string where "WS_PREFIX = ''/api/v1/ws/''"

definition is_excluded :: "string \<Rightarrow> bool" where
  "is_excluded path \<longleftrightarrow> starts_with WS_PREFIX path \<or> list_ex (\<lambda>p. starts_with p path) EXCLUDED_PREFIXES"

definition required_prefixes :: "idem_settings \<Rightarrow> string list" where
  "required_prefixes cfg =
     (let raw = strip (IDEMPOTENCY_REQUIRED_PATHS cfg)
      in if raw = [] then [] else filter (\<lambda>p. p \<noteq> []) (map strip (split_on CHR '','' raw)))"

definition key_char :: "char \<Rightarrow> bool" where
  "key_char c = (let n = (of_char c :: nat) in 65 \<le> n \<and> n \<le> 90 \<or> 97 \<le> n \<and> n \<le> 122 \<or> 48 \<le> n \<and> n \<le> 57 \<or> n = 45 \<or> n = 95)"

definition key_shape :: "string \<Rightarrow> bool" where
  "key_shape k \<longleftrightarrow> 8 \<le> length k \<and> length k \<le> 128 \<and> list_all key_char k"

definition idem_tenant :: "(string \<Rightarrow> string option) \<Rightarrow> http_request \<Rightarrow> string option" where
  "idem_tenant claim rq =
     (let auth = header_or_empty rq ''Authorization''
      in if \<not> starts_with bearer_prefix auth then None else token_tenant claim (drop 7 auth))"

text \<open>
  The environment of a request: settings, clock, the two hashes, the token decoder, and the
  application below the middleware.
\<close>

record 'w idem_env =
  ie_redis :: "'w idem_redis"
  ie_settings :: idem_settings
  ie_now :: time
  ie_sha1 :: "string \<Rightarrow> string"
  ie_sha256 :: "bytes \<Rightarrow> string"
  ie_claim :: "string \<Rightarrow> string option"
  ie_next :: "http_request \<Rightarrow> 'w \<Rightarrow> (http_response, 'w) io"

definition call_next :: "'w idem_env \<Rightarrow> http_request \<Rightarrow> 'w \<Rightarrow> (reply, 'w) io" where
  "call_next E rq w = io_bind (ie_next E rq w) (\<lambda>rs w'. (Inr (Passed rs), w'))"

definition idem_key_of :: "'w idem_env \<Rightarrow> http_request \<Rightarrow> string" where
  "idem_key_of E rq =
     build_idem_key (rd_settings (ie_redis E)) (ie_sha1 E) (idem_tenant (ie_claim E) rq)
       (map upper_char (rq_method rq)) (rq_path rq) (strip (header_or_empty rq ''Idempotency-Key''))"

text \<open>The part after the slot is decided in the request's favour.\<close>

definition run_and_store :: "'w idem_env \<Rightarrow> string \<Rightarrow> string \<Rightarrow> http_request \<Rightarrow> 'w \<Rightarrow> (reply, 'w) io" where
  "run_and_store E key body_hash rq w =
     (case ie_next E rq w of
        (Inl e, w1) \<Rightarrow> (Inl e, if is_Exception e then release_slot (ie_redis E) key w1 else w1)
      | (Inr rs, w1) \<Rightarrow>
          if rs_status rs \<ge> 500 then (Inr (Passed rs), release_slot (ie_redis E) key w1)
          else (Inr (Passed rs), store_response (ie_redis E) (ie_settings E) (ie_now E) key body_hash rs w1))"

definition idem_replay :: "CachedResponse \<Rightarrow> reply" where
  "idem_replay c = Passed \<lparr>rs_status = cd_status_code c,
     rs_headers = dict_set ''Idempotent-Replay'' ''true'' (cd_headers c), rs_body = cd_body c\<rparr>"

definition idem_dispatch :: "'w idem_env \<Rightarrow> http_request \<Rightarrow> 'w \<Rightarrow> (reply, 'w) io" where
  "idem_dispatch E rq w =
     (let method = map upper_char (rq_method rq);
          client_key = strip (header_or_empty rq ''Idempotency-Key'')
      in if \<not> IDEMPOTENCY_ENABLED (ie_settings E) then call_next E rq w
         else if method \<notin> set MUTATING_METHODS then call_next E rq w
         else if is_excluded (rq_path rq) then call_next E rq w
         else if client_key = []
         then (if list_ex (\<lambda>p. starts_with p (rq_path rq)) (required_prefixes (ie_settings E))
               then (Inr (Refused 400 ''IDEMPOTENCY_KEY_REQUIRED'' []), w)
               else call_next E rq w)
         else if \<not> key_shape client_key then (Inr (Refused 400 ''IDEMPOTENCY_KEY_INVALID'' []), w)
         else
           (let body_hash = ie_sha256 E (rq_body rq);
                key = idem_key_of E rq
            in case acquire_slot (ie_redis E) (ie_settings E) (ie_now E) key body_hash w of
                 (r, w1) \<Rightarrow>
                   if \<not> ar_acquired r \<and> ar_existing_status r = Some ''in_progress''
                   then (Inr (Refused 409 ''IDEMPOTENCY_IN_PROGRESS'' [(''Retry-After'', ''5'')]), w1)
                   else if \<not> ar_acquired r \<and> ar_cached r \<noteq> None
                   then (case ar_existing_body_hash r of
                           Some h \<Rightarrow> if h \<noteq> [] \<and> h \<noteq> body_hash
                                     then (Inr (Refused 422 ''IDEMPOTENCY_KEY_MISMATCH'' []), w1)
                                     else (Inr (idem_replay (the (ar_cached r))), w1)
                         | None \<Rightarrow> (Inr (idem_replay (the (ar_cached r))), w1))
                   else run_and_store E key body_hash rq w1))"

section \<open>Interleaved requests\<close>

text \<open>
  Any number of requests with one key, each at a phase of its own. Every command is one step; the work of
  a handler, and everything else that happens to the store, is a step that leaves this key alone.
\<close>

datatype idem_phase = Arrived | Reading | Retrying | Overwriting | Running | Answered

fun phase_after :: "acq_next \<Rightarrow> idem_phase" where
  "phase_after (Taken r) = (if ar_acquired r then Running else Answered)"
| "phase_after ReadExisting = Reading"
| "phase_after RetrySet = Retrying"
| "phase_after OverwriteCorrupt = Overwriting"

inductive idem_step ::
  "'w idem_redis \<Rightarrow> idem_settings \<Rightarrow> string \<Rightarrow> 'w \<times> (nat \<Rightarrow> idem_phase) \<Rightarrow> 'w \<times> (nat \<Rightarrow> idem_phase) \<Rightarrow> bool"
  for R cfg key where
  First: "ph r = Arrived \<Longrightarrow> acquire_first R cfg now key h w = (n, w') \<Longrightarrow>
    idem_step R cfg key (w, ph) (w', ph(r := phase_after n))"
| Read: "ph r = Reading \<Longrightarrow> idem_step R cfg key (w, ph) (w, ph(r := phase_after (acquire_read R key w)))"
| Retry: "ph r = Retrying \<Longrightarrow> acquire_retry R cfg now key h w = (a, w') \<Longrightarrow>
    idem_step R cfg key (w, ph) (w', ph(r := phase_after (Taken a)))"
| Overwrite: "ph r = Overwriting \<Longrightarrow> acquire_overwrite R cfg now key h w = (a, w') \<Longrightarrow>
    idem_step R cfg key (w, ph) (w', ph(r := phase_after (Taken a)))"
| Complete: "ph r = Running \<Longrightarrow> rs_status rs < 500 \<Longrightarrow>
    idem_step R cfg key (w, ph) (store_response R cfg now key h rs w, ph(r := Answered))"
| Fail: "ph r = Running \<Longrightarrow> idem_step R cfg key (w, ph) (release_slot R key w, ph(r := Answered))"
| Elsewhere: "rd_get R key w' = rd_get R key w \<Longrightarrow> idem_step R cfg key (w, ph) (w', ph)"

definition slot_inv :: "'w idem_redis \<Rightarrow> string \<Rightarrow> 'w \<times> (nat \<Rightarrow> idem_phase) \<Rightarrow> bool" where
  "slot_inv R key s \<longleftrightarrow>
     rd_get R key (fst s) \<noteq> Some Corrupt \<and> (\<forall>r. snd s r \<noteq> Overwriting) \<and>
     (\<forall>r r'. snd s r = Running \<and> snd s r' = Running \<longrightarrow> r = r') \<and>
     (\<forall>r. snd s r = Running \<longrightarrow> (\<exists>h t. rd_get R key (fst s) = Some (InProgress h t)))"

lemma acquire_first_up:
  assumes "redis_laws R" and "redis_up R" and "acquire_first R cfg now key h w = (n, w')"
  shows "n = Taken fresh_slot \<and> rd_get R key w = None \<and> rd_get R key w' = Some (InProgress h now) \<or>
    n = ReadExisting \<and> rd_get R key w \<noteq> None \<and> rd_get R key w' = rd_get R key w"
proof -
  obtain b w1 where nx: "rd_setnx R key (InProgress h now) (IDEMPOTENCY_TTL_SECONDS cfg) w = (b, w1)" by fastforce
  from redis_setnx_cases [OF assms(1) nx] nx assms(2,3) show ?thesis
    by (cases b) (auto simp: acquire_first_def redis_up_def serialize_in_progress_def)
qed

lemma acquire_retry_up:
  assumes "redis_laws R" and "redis_up R" and "acquire_retry R cfg now key h w = (a, w')"
  shows "a = fresh_slot \<and> rd_get R key w = None \<and> rd_get R key w' = Some (InProgress h now) \<or>
    a = in_flight_slot None \<and> rd_get R key w \<noteq> None \<and> rd_get R key w' = rd_get R key w"
proof -
  obtain b w1 where nx: "rd_setnx R key (InProgress h now) (IDEMPOTENCY_TTL_SECONDS cfg) w = (b, w1)" by fastforce
  from redis_setnx_cases [OF assms(1) nx] nx assms(2,3) show ?thesis
    by (cases b) (auto simp: acquire_retry_def redis_up_def serialize_in_progress_def)
qed

lemma slot_simps [simp]: "ar_acquired fresh_slot" "\<not> ar_acquired (in_flight_slot h)"
  by (simp_all add: fresh_slot_def in_flight_slot_def)

lemma acquire_read_up:
  "redis_up R \<Longrightarrow> rd_get R key w \<noteq> Some Corrupt \<Longrightarrow>
   phase_after (acquire_read R key w) = (if rd_get R key w = None then Retrying else Answered)"
  by (auto simp: acquire_read_def redis_up_def split: option.splits idem_raw.splits)

text \<open>Each step keeps the invariant, and a finished record, once there, is never replaced.\<close>

lemma idem_step_inv:
  assumes "redis_laws R" and "redis_up R" and "idem_step R cfg key s s'" and "slot_inv R key s"
  shows "slot_inv R key s' \<and>
    (\<forall>d. rd_get R key (fst s) = Some (Done d) \<longrightarrow> rd_get R key (fst s') = Some (Done d))"
  using assms(3,4)
proof (cases rule: idem_step.cases)
  case (First ph r now h w n w')
  with assms(4) acquire_first_up [OF assms(1,2) First(4)] show ?thesis by (auto simp: slot_inv_def)
next
  case (Read ph r w)
  with assms(4) acquire_read_up [OF assms(2), of key w] show ?thesis by (auto simp: slot_inv_def)
next
  case (Retry ph r now h w a w')
  with assms(4) acquire_retry_up [OF assms(1,2) Retry(4)] show ?thesis by (auto simp: slot_inv_def)
next
  case (Overwrite ph r now h w a w')
  with assms(4) show ?thesis by (auto simp: slot_inv_def)
next
  case (Complete ph r rs w now h)
  with assms(4) have "\<forall>r'. ph r' = Running \<longrightarrow> r' = r" "\<exists>h t. rd_get R key w = Some (InProgress h t)"
    by (auto simp: slot_inv_def)
  with Complete(1,2) assms(2,4) show ?thesis
    by (auto simp: slot_inv_def store_response_def redis_up_def serialize_done_def Let_def redis_rules(1) [OF assms(1)])
next
  case (Fail ph r w)
  with assms(4) have "\<forall>r'. ph r' = Running \<longrightarrow> r' = r" "\<exists>h t. rd_get R key w = Some (InProgress h t)"
    by (auto simp: slot_inv_def)
  with Fail(1,2) assms(2,4) show ?thesis
    by (auto simp: slot_inv_def release_slot_def redis_up_def redis_rules(4) [OF assms(1)])
next
  case (Elsewhere w' w ph)
  with assms(4) show ?thesis by (auto simp: slot_inv_def)
qed

lemma idem_steps_inv:
  assumes "redis_laws R" and "redis_up R" and "(idem_step R cfg key)\<^sup>*\<^sup>* s s'" and "slot_inv R key s"
  shows "slot_inv R key s' \<and>
    (\<forall>d. rd_get R key (fst s) = Some (Done d) \<longrightarrow> rd_get R key (fst s') = Some (Done d))"
  using assms(3)
proof (induction rule: rtranclp_induct)
  case base
  show ?case using assms(4) by simp
next
  case (step y z)
  then show ?case using idem_step_inv [OF assms(1,2) step(2)] by blast
qed

section \<open>Sequential requests\<close>

text \<open>The requests the middleware takes care of.\<close>

definition guarded_request :: "'w idem_env \<Rightarrow> http_request \<Rightarrow> bool" where
  "guarded_request E rq \<longleftrightarrow> IDEMPOTENCY_ENABLED (ie_settings E) \<and> map upper_char (rq_method rq) \<in> set MUTATING_METHODS \<and>
     \<not> is_excluded (rq_path rq) \<and> key_shape (strip (header_or_empty rq ''Idempotency-Key''))"

lemma key_shape_nonempty: "key_shape k \<Longrightarrow> k \<noteq> []"
  by (auto simp: key_shape_def)

lemma guarded_dispatch:
  assumes "guarded_request E rq"
  shows "idem_dispatch E rq w =
    (case acquire_slot (ie_redis E) (ie_settings E) (ie_now E) (idem_key_of E rq) (ie_sha256 E (rq_body rq)) w of
       (r, w1) \<Rightarrow>
         if \<not> ar_acquired r \<and> ar_existing_status r = Some ''in_progress''
         then (Inr (Refused 409 ''IDEMPOTENCY_IN_PROGRESS'' [(''Retry-After'', ''5'')]), w1)
         else if \<not> ar_acquired r \<and> ar_cached r \<noteq> None
         then (case ar_existing_body_hash r of
                 Some h \<Rightarrow> if h \<noteq> [] \<and> h \<noteq> ie_sha256 E (rq_body rq)
                           then (Inr (Refused 422 ''IDEMPOTENCY_KEY_MISMATCH'' []), w1)
                           else (Inr (idem_replay (the (ar_cached r))), w1)
               | None \<Rightarrow> (Inr (idem_replay (the (ar_cached r))), w1))
         else run_and_store E (idem_key_of E rq) (ie_sha256 E (rq_body rq)) rq w1)"
  using assms key_shape_nonempty [of "strip (header_or_empty rq ''Idempotency-Key'')"]
  by (simp add: idem_dispatch_def guarded_request_def Let_def)

lemma acquire_slot_present:
  assumes "redis_laws R" and "redis_up R" and "rd_get R key w = Some v" and "v \<noteq> Corrupt"
  shows "\<exists>w'. acquire_slot R cfg now key h w =
      (case v of InProgress h' _ \<Rightarrow> in_flight_slot (Some h')
       | Done d \<Rightarrow> \<lparr>ar_acquired = False, ar_existing_status = Some ''done'',
                    ar_existing_body_hash = Some (dn_body_hash d), ar_cached = Some (record_to_cached d)\<rparr>
       | Corrupt \<Rightarrow> fresh_slot, w') \<and> (\<forall>k. rd_get R k w' = rd_get R k w)"
proof -
  obtain b w' where nx: "rd_setnx R key (InProgress h now) (IDEMPOTENCY_TTL_SECONDS cfg) w = (b, w')" by fastforce
  from redis_setnx_cases [OF assms(1) nx] assms(3) have "\<not> b" "\<forall>k. rd_get R k w' = rd_get R k w" by auto
  with nx assms(2-4) show ?thesis
    by (intro exI [of _ w'])
      (auto simp: acquire_slot_def acquire_first_def acquire_read_def redis_up_def serialize_in_progress_def
         split: idem_raw.splits)
qed

lemma replay_of_done:
  assumes "\<forall>x\<in>set (rs_body rs). x < 256" and "serialize_done cfg now h (rs_status rs) (rs_headers rs) (rs_body rs) = Done d"
  shows "idem_replay (record_to_cached d) =
    Passed \<lparr>rs_status = rs_status rs, rs_headers = dict_set ''Idempotent-Replay'' ''true'' (filter_replay_headers (rs_headers rs)),
            rs_body = (if length (rs_body rs) \<le> IDEMPOTENCY_MAX_BODY_BYTES cfg then rs_body rs else [])\<rparr>"
    and "dn_body_hash d = h"
  using assms b64_roundtrip [of "rs_body rs"] b64_roundtrip [of "[]"]
  by (auto simp: serialize_done_def idem_replay_def record_to_cached_def Let_def)

section \<open>Properties\<close>

text \<open>
  C16. A request is executed once. However many requests carry one idempotency key and however their
  commands interleave, while Redis answers and the record does not expire, no two handlers ever run at the same
  time; and once a handler has finished with a status below 500, its record stays and no handler runs again.
\<close>

theorem handler_runs_once:
  assumes "redis_laws R" and "redis_up R" and "rd_get R key w0 = None"
    and "(idem_step R cfg key)\<^sup>*\<^sup>* (w0, \<lambda>_. Arrived) (w, ph)"
    and "(idem_step R cfg key)\<^sup>*\<^sup>* (w, ph) (w', ph')"
  shows "(ph r = Running \<and> ph r' = Running \<longrightarrow> r = r') \<and>
    (rd_get R key w = Some (Done d) \<longrightarrow> rd_get R key w' = Some (Done d) \<and> ph' r \<noteq> Running)"
proof -
  have "slot_inv R key (w0, \<lambda>_. Arrived)" using assms(3) by (simp add: slot_inv_def)
  then have inv: "slot_inv R key (w, ph)" using idem_steps_inv [OF assms(1,2,4)] by blast
  then have "slot_inv R key (w', ph')" "\<forall>d. rd_get R key w = Some (Done d) \<longrightarrow> rd_get R key w' = Some (Done d)"
    using idem_steps_inv [OF assms(1,2,5)] by simp_all
  with inv show ?thesis by (auto simp: slot_inv_def)
qed

definition ok_response :: http_response where
  "ok_response = \<lparr>rs_status = 201, rs_headers = [(''content-type'', ''application/json''), (''Date'', ''now'')], rs_body = [123, 125]\<rparr>"

theorem handler_runs_once_witness:
  "\<exists>w ph. (idem_step mem_redis default_idem_settings ''k'')\<^sup>*\<^sup>* (Map.empty, \<lambda>_. Arrived) (w, ph) \<and>
     (\<exists>d. rd_get mem_redis ''k'' w = Some (Done d)) \<and> ph 0 = Answered \<and> ph 1 = Reading \<and>
     (\<forall>w' ph'. (idem_step mem_redis default_idem_settings ''k'')\<^sup>*\<^sup>* (w, ph) (w', ph') \<longrightarrow> ph' 1 \<noteq> Running)"
proof -
  let ?S = "idem_step mem_redis default_idem_settings ''k''"
  let ?p0 = "\<lambda>_. Arrived" and ?p1 = "(\<lambda>_. Arrived)(0 := Running)" and ?p2 = "(\<lambda>_. Arrived)(0 := Running, 1 := Reading)"
  let ?w1 = "Map.empty(''k'' \<mapsto> InProgress ''h'' 0)"
  let ?w3 = "store_response mem_redis default_idem_settings 5 ''k'' ''h'' ok_response ?w1"
  have s1: "?S (Map.empty, ?p0) (?w1, ?p1)"
    using First [of ?p0 0 mem_redis default_idem_settings 0 "''k''" "''h''" Map.empty "Taken fresh_slot" ?w1]
    by (simp add: acquire_first_def mem_redis_def serialize_in_progress_def)
  have s2: "?S (?w1, ?p1) (?w1, ?p2)"
    using First [of ?p1 1 mem_redis default_idem_settings 0 "''k''" "''h''" ?w1 ReadExisting ?w1]
    by (simp add: acquire_first_def mem_redis_def serialize_in_progress_def)
  have s3: "?S (?w1, ?p2) (?w3, ?p2(0 := Answered))"
    by (rule Complete) (simp_all add: ok_response_def)
  have run: "?S\<^sup>*\<^sup>* (Map.empty, ?p0) (?w3, ?p2(0 := Answered))"
    using s1 s2 s3 by (meson rtranclp.rtrancl_into_rtrancl rtranclp.rtrancl_refl)
  have "\<exists>d. rd_get mem_redis ''k'' ?w3 = Some (Done d)"
    by (simp add: store_response_def mem_redis_def serialize_done_def Let_def)
  moreover have "ph' 1 \<noteq> Running" if "?S\<^sup>*\<^sup>* (?w3, ?p2(0 := Answered)) (w', ph')" for w' ph'
    using handler_runs_once [OF mem_redis_laws _ run that] calculation by (auto simp: mem_redis_def)
  ultimately show ?thesis using run
    by - (rule exI [where x = ?w3], rule exI [where x = "?p2(0 := Answered)"], simp)
qed

text \<open>
  A repeated request gets the first one's response and runs nothing. After a guarded request has been
  answered below 500, the same key with the same body gives back the stored status, the body byte for byte, and the
  headers less those that belong to one exchange, marked as a replay; another body under the key is refused with 422. A body
  over the size limit is replayed empty, under its original status. While the first request is still running,
  a repetition is refused with 409.
\<close>

theorem repeated_request:
  assumes "redis_laws (ie_redis E)" and "redis_up (ie_redis E)" and "guarded_request E rq2"
    and "idem_key_of E rq2 = k" and "\<forall>x\<in>set (rs_body rs). x < 256" and "ie_sha256 E (rq_body rq1) \<noteq> []"
    and "w = store_response (ie_redis E) (ie_settings E) now k (ie_sha256 E (rq_body rq1)) rs w0"
    and "rd_get (ie_redis E) k v = Some (InProgress h t)"
  shows "(\<exists>w'. idem_dispatch E rq2 w =
      (Inr (if ie_sha256 E (rq_body rq2) = ie_sha256 E (rq_body rq1)
            then Passed \<lparr>rs_status = rs_status rs,
                   rs_headers = dict_set ''Idempotent-Replay'' ''true'' (filter_replay_headers (rs_headers rs)),
                   rs_body = (if length (rs_body rs) \<le> IDEMPOTENCY_MAX_BODY_BYTES (ie_settings E) then rs_body rs else [])\<rparr>
            else Refused 422 ''IDEMPOTENCY_KEY_MISMATCH'' []), w') \<and>
      (\<forall>k. rd_get (ie_redis E) k w' = rd_get (ie_redis E) k w)) \<and>
    (\<exists>v'. idem_dispatch E rq2 v = (Inr (Refused 409 ''IDEMPOTENCY_IN_PROGRESS'' [(''Retry-After'', ''5'')]), v') \<and>
      (\<forall>k. rd_get (ie_redis E) k v' = rd_get (ie_redis E) k v))"
proof
  obtain d where d: "serialize_done (ie_settings E) now (ie_sha256 E (rq_body rq1)) (rs_status rs) (rs_headers rs) (rs_body rs) = Done d"
    by (simp add: serialize_done_def Let_def)
  then have "rd_get (ie_redis E) k w = Some (Done d)"
    using assms(2,7) by (simp add: store_response_def redis_up_def redis_rules(1) [OF assms(1)])
  from acquire_slot_present [OF assms(1,2) this, of "ie_settings E" "ie_now E" "ie_sha256 E (rq_body rq2)"]
  obtain w' where "acquire_slot (ie_redis E) (ie_settings E) (ie_now E) k (ie_sha256 E (rq_body rq2)) w =
      (\<lparr>ar_acquired = False, ar_existing_status = Some ''done'', ar_existing_body_hash = Some (dn_body_hash d),
        ar_cached = Some (record_to_cached d)\<rparr>, w')" "\<forall>k. rd_get (ie_redis E) k w' = rd_get (ie_redis E) k w"
    by auto
  with replay_of_done [OF assms(5) d] guarded_dispatch [OF assms(3), of w] assms(4,6)
  show "\<exists>w'. idem_dispatch E rq2 w =
      (Inr (if ie_sha256 E (rq_body rq2) = ie_sha256 E (rq_body rq1)
            then Passed \<lparr>rs_status = rs_status rs,
                   rs_headers = dict_set ''Idempotent-Replay'' ''true'' (filter_replay_headers (rs_headers rs)),
                   rs_body = (if length (rs_body rs) \<le> IDEMPOTENCY_MAX_BODY_BYTES (ie_settings E) then rs_body rs else [])\<rparr>
            else Refused 422 ''IDEMPOTENCY_KEY_MISMATCH'' []), w') \<and>
      (\<forall>k. rd_get (ie_redis E) k w' = rd_get (ie_redis E) k w)" by auto
  from acquire_slot_present [OF assms(1,2,8), of "ie_settings E" "ie_now E" "ie_sha256 E (rq_body rq2)"]
  obtain v' where "acquire_slot (ie_redis E) (ie_settings E) (ie_now E) k (ie_sha256 E (rq_body rq2)) v = (in_flight_slot (Some h), v')"
    "\<forall>k. rd_get (ie_redis E) k v' = rd_get (ie_redis E) k v" by auto
  with guarded_dispatch [OF assms(3), of v] assms(4)
  show "\<exists>v'. idem_dispatch E rq2 v = (Inr (Refused 409 ''IDEMPOTENCY_IN_PROGRESS'' [(''Retry-After'', ''5'')]), v') \<and>
      (\<forall>k. rd_get (ie_redis E) k v' = rd_get (ie_redis E) k v)"
    by (simp add: in_flight_slot_def)
qed

definition demo_idem_env :: "(string \<Rightarrow> idem_raw option) idem_env" where
  "demo_idem_env = \<lparr>ie_redis = mem_redis, ie_settings = default_idem_settings, ie_now = 9, ie_sha1 = (\<lambda>p. p),
     ie_sha256 = (\<lambda>b. if b = [] then ''empty'' else ''other''), ie_claim = (\<lambda>_. None),
     ie_next = (\<lambda>rq w. (Inr ok_response, w))\<rparr>"

definition demo_request :: http_request where
  "demo_request = \<lparr>rq_method = ''POST'', rq_path = ''/api/v1/sessions'',
     rq_header = (\<lambda>h. if h = ''Idempotency-Key'' then Some ''key-00001'' else None), rq_query = (\<lambda>_. None),
     rq_client = None, rq_body = []\<rparr>"

lemma demo_request_guarded: "guarded_request demo_idem_env demo_request"
  by (simp add: guarded_request_def demo_idem_env_def default_idem_settings_def demo_request_def MUTATING_METHODS_def
      is_excluded_def EXCLUDED_PREFIXES_def WS_PREFIX_def key_shape_def key_char_def header_or_empty_def strip_def
      is_space_def upper_char_def Let_def)

theorem repeated_request_witness:
  "\<exists>w'. idem_dispatch demo_idem_env demo_request
       (store_response mem_redis default_idem_settings 5 (idem_key_of demo_idem_env demo_request) ''empty'' ok_response Map.empty) =
     (Inr (Passed \<lparr>rs_status = 201,
             rs_headers = dict_set ''Idempotent-Replay'' ''true'' (filter_replay_headers (rs_headers ok_response)),
             rs_body = [123, 125]\<rparr>), w')"
proof -
  let ?k = "idem_key_of demo_idem_env demo_request"
  have E: "ie_redis demo_idem_env = mem_redis" "ie_settings demo_idem_env = default_idem_settings"
    "ie_sha256 demo_idem_env (rq_body demo_request) = ''empty''"
    by (simp_all add: demo_idem_env_def demo_request_def)
  have busy: "rd_get (ie_redis demo_idem_env) ?k (Map.empty(?k \<mapsto> InProgress ''h'' 0)) = Some (InProgress ''h'' 0)"
    by (simp add: E mem_redis_def)
  have bytes: "\<forall>x\<in>set (rs_body ok_response). x < 256" by (simp add: ok_response_def)
  have laws: "redis_laws (ie_redis demo_idem_env)" "redis_up (ie_redis demo_idem_env)"
    using mem_redis_laws by (simp_all add: E)
  have hash: "ie_sha256 demo_idem_env (rq_body demo_request) \<noteq> []" by (simp add: E)
  have rs: "rs_status ok_response = 201" "rs_body ok_response = [123, 125]"
    "length (rs_body ok_response) \<le> IDEMPOTENCY_MAX_BODY_BYTES default_idem_settings"
    by (simp_all add: ok_response_def default_idem_settings_def)
  from repeated_request [OF laws demo_request_guarded refl bytes hash refl busy, THEN conjunct1, of 5 Map.empty]
  show ?thesis unfolding E using rs by auto
qed

end
