(* ===== verification/Kill_Switch.thy ===== *)
theory Kill_Switch
  imports Redis_Store
begin

text \<open>
  The emergency stop: \<^verbatim>\<open>app/domain/kill_switch.py\<close>, its cache in \<^verbatim>\<open>app/core/redis_client.py\<close>, the middleware
  \<^verbatim>\<open>app/middleware/kill_switch_middleware.py\<close> and the two writing endpoints of
  \<^verbatim>\<open>app/api/v1/routers/kill_switch.py\<close>. MongoDB is a record of the queries the service makes; their
  documented results are stated over the list of documents in the collection.
\<close>

section \<open>Data\<close>

datatype KillSwitchScope = TENANT | FEATURE | SCENARIO

fun KillSwitchScope_value :: "KillSwitchScope \<Rightarrow> string" where
  "KillSwitchScope_value TENANT = ''tenant''"
| "KillSwitchScope_value FEATURE = ''feature''"
| "KillSwitchScope_value SCENARIO = ''scenario''"

definition KillSwitchScope_of :: "string \<Rightarrow> KillSwitchScope option" where
  "KillSwitchScope_of s = (if s = ''tenant'' then Some TENANT else if s = ''feature'' then Some FEATURE
     else if s = ''scenario'' then Some SCENARIO else None)"

record switch_doc =
  sw_switch_id :: string
  sw_scope :: string
  sw_target_id :: string
  sw_reason :: string
  sw_activated_by :: string
  sw_activated_at :: time
  sw_active :: bool
  sw_deactivated_at :: "time option"

definition switch_matches :: "string \<Rightarrow> string \<Rightarrow> switch_doc \<Rightarrow> bool" where
  "switch_matches scope target d \<longleftrightarrow> sw_scope d = scope \<and> sw_target_id d = target \<and> sw_active d"

section \<open>The collection\<close>

record 'w kill_db =
  kd_ok :: "'w \<Rightarrow> bool"
  kd_docs :: "'w \<Rightarrow> switch_doc list"
  kd_insert :: "switch_doc \<Rightarrow> 'w \<Rightarrow> 'w"
  kd_find_active :: "string \<Rightarrow> string \<Rightarrow> 'w \<Rightarrow> switch_doc option"
  kd_deactivate :: "string \<Rightarrow> time \<Rightarrow> 'w \<Rightarrow> switch_doc option \<times> 'w"

definition deactivated :: "time \<Rightarrow> switch_doc \<Rightarrow> switch_doc" where
  "deactivated now d = d\<lparr>sw_active := False, sw_deactivated_at := Some now\<rparr>"

text \<open>
  \<open>find_one\<close> gives a matching document if there is one, \<open>find_one_and_update\<close> changes the one it gives. The cache
  and the collection do not touch each other.
\<close>

definition kill_laws :: "'w kill_db \<Rightarrow> (string, 'w) redis \<Rightarrow> bool" where
  "kill_laws K R \<longleftrightarrow> redis_laws R \<and>
     (\<forall>d w. kd_docs K (kd_insert K d w) = kd_docs K w @ [d]) \<and>
     (\<forall>s t w. kd_find_active K s t w = find (switch_matches s t) (kd_docs K w)) \<and>
     (\<forall>i now w. fst (kd_deactivate K i now w) =
        map_option (deactivated now) (find (\<lambda>d. sw_switch_id d = i \<and> sw_active d) (kd_docs K w))) \<and>
     (\<forall>i now w. kd_docs K (snd (kd_deactivate K i now w)) =
        update_first (\<lambda>d. sw_switch_id d = i \<and> sw_active d) (deactivated now) (kd_docs K w)) \<and>
     (\<forall>k v ttl w. kd_docs K (rd_set R k v ttl w) = kd_docs K w) \<and>
     (\<forall>d k w. rd_get R k (kd_insert K d w) = rd_get R k w) \<and>
     (\<forall>i now k w. rd_get R k (snd (kd_deactivate K i now w)) = rd_get R k w)"

section \<open>Cache\<close>

definition KILL_SWITCH_TTL :: nat where "KILL_SWITCH_TTL = 60"

definition kill_key :: "(string, 'w) redis \<Rightarrow> string \<Rightarrow> string \<Rightarrow> string" where
  "kill_key R scope target = scoped_key (rd_settings R) ''kill_switch'' [scope, target] None"

definition cache_kill_switch :: "(string, 'w) redis \<Rightarrow> string \<Rightarrow> string \<Rightarrow> bool \<Rightarrow> 'w \<Rightarrow> 'w" where
  "cache_kill_switch R scope target active w =
     (if rd_ok R w then rd_set R (kill_key R scope target) (if active then ''1'' else ''0'') KILL_SWITCH_TTL w else w)"

definition get_kill_switch_cached :: "(string, 'w) redis \<Rightarrow> string \<Rightarrow> string \<Rightarrow> 'w \<Rightarrow> bool option" where
  "get_kill_switch_cached R scope target w =
     (if rd_ok R w then map_option (\<lambda>v. v = ''1'') (rd_get R (kill_key R scope target) w) else None)"

section \<open>Service\<close>

definition ks_is_active ::
  "'w kill_db \<Rightarrow> (string, 'w) redis \<Rightarrow> KillSwitchScope \<Rightarrow> string \<Rightarrow> 'w \<Rightarrow> (bool, 'w) io" where
  "ks_is_active K R scope target w =
     (case get_kill_switch_cached R (KillSwitchScope_value scope) target w of
        Some b \<Rightarrow> (Inr b, w)
      | None \<Rightarrow>
          if \<not> kd_ok K w then (Inl PyMongoError, w)
          else (let active = kd_find_active K (KillSwitchScope_value scope) target w \<noteq> None
                in (Inr active, cache_kill_switch R (KillSwitchScope_value scope) target active w)))"

text \<open>\<open>switch_id\<close> is built from the clock and random digits; it is given here.\<close>

definition ks_activate ::
  "'w kill_db \<Rightarrow> (string, 'w) redis \<Rightarrow> time \<Rightarrow> string \<Rightarrow> KillSwitchScope \<Rightarrow> string \<Rightarrow> string \<Rightarrow> string \<Rightarrow> 'w
   \<Rightarrow> (switch_doc, 'w) io" where
  "ks_activate K R now switch_id scope target reason by_whom w =
     (let doc = \<lparr>sw_switch_id = switch_id, sw_scope = KillSwitchScope_value scope, sw_target_id = target,
                 sw_reason = reason, sw_activated_by = by_whom, sw_activated_at = now, sw_active = True,
                 sw_deactivated_at = None\<rparr>
      in if \<not> kd_ok K w then (Inl PyMongoError, w)
         else (Inr doc, cache_kill_switch R (KillSwitchScope_value scope) target True (kd_insert K doc w)))"

definition ks_deactivate ::
  "'w kill_db \<Rightarrow> (string, 'w) redis \<Rightarrow> time \<Rightarrow> string \<Rightarrow> 'w \<Rightarrow> (switch_doc option, 'w) io" where
  "ks_deactivate K R now switch_id w =
     (if \<not> kd_ok K w then (Inl PyMongoError, w)
      else (case kd_deactivate K switch_id now w of
              (None, w1) \<Rightarrow> (Inr None, w1)
            | (Some d, w1) \<Rightarrow> (Inr (Some d), cache_kill_switch R (sw_scope d) (sw_target_id d) False w1)))"

definition ks_list_active :: "'w kill_db \<Rightarrow> 'w \<Rightarrow> switch_doc list" where
  "ks_list_active K w = take 100 (filter sw_active (kd_docs K w))"

section \<open>Endpoints\<close>

text \<open>The bodies of the requests; the audit record is written by the emitter and changes none of this state.\<close>

definition activate_kill_switch ::
  "'w kill_db \<Rightarrow> (string, 'w) redis \<Rightarrow> time \<Rightarrow> string \<Rightarrow> string option \<Rightarrow> string option \<Rightarrow> string option \<Rightarrow> string \<Rightarrow> 'w
   \<Rightarrow> (int + switch_doc, 'w) io" where
  "activate_kill_switch K R now switch_id scope_str target reason client_id w =
     (case KillSwitchScope_of (case scope_str of None \<Rightarrow> ''tenant'' | Some s \<Rightarrow> s) of
        None \<Rightarrow> (Inr (Inl 400), w)
      | Some scope \<Rightarrow>
          (case target of
             None \<Rightarrow> (Inl KeyError, w)
           | Some t \<Rightarrow>
               io_bind (ks_activate K R now switch_id scope t (case reason of None \<Rightarrow> ''Manual activation'' | Some r \<Rightarrow> r) client_id w)
                 (\<lambda>d w1. (Inr (Inr d), w1))))"

definition deactivate_kill_switch ::
  "'w kill_db \<Rightarrow> (string, 'w) redis \<Rightarrow> time \<Rightarrow> string \<Rightarrow> 'w \<Rightarrow> (int + switch_doc, 'w) io" where
  "deactivate_kill_switch K R now switch_id w =
     io_bind (ks_deactivate K R now switch_id w)
       (\<lambda>d w1. case d of None \<Rightarrow> (Inr (Inl 404), w1) | Some s \<Rightarrow> (Inr (Inr s), w1))"

section \<open>Middleware\<close>

definition EXEMPT_PATHS :: "string list" where
  "EXEMPT_PATHS = [''/api/v1/health'', ''/api/v1/admin/kill-switch'', ''/api/docs'', ''/api/redoc'', ''/openapi.json'']"

definition kill_switch_dispatch ::
  "(string, 'w) redis \<Rightarrow> (http_request \<Rightarrow> 'w \<Rightarrow> (reply, 'w) io) \<Rightarrow> http_request \<Rightarrow> 'w \<Rightarrow> (reply, 'w) io" where
  "kill_switch_dispatch R call_next rq w =
     (if rq_path rq \<in> set EXEMPT_PATHS then call_next rq w
      else (let tenant_id = header_or_empty rq ''X-Tenant-ID''
            in if tenant_id \<noteq> [] \<and> get_kill_switch_cached R (KillSwitchScope_value TENANT) tenant_id w = Some True
               then (Inr (Refused 503 ''KILL_SWITCH_ACTIVE'' []), w)
               else call_next rq w))"

section \<open>Lemmas\<close>

lemma KillSwitchScope_of_value [simp]: "KillSwitchScope_of (KillSwitchScope_value s) = Some s"
  by (cases s) (simp_all add: KillSwitchScope_of_def)

lemma kill_key_inject [simp]:
  "kill_key R (KillSwitchScope_value s) t = kill_key R (KillSwitchScope_value s') t' \<longleftrightarrow> s = s' \<and> t = t'"
  by (cases s; cases s') (auto simp: kill_key_def scoped_key_def)

lemma kill_rules:
  assumes "kill_laws K R"
  shows "kd_docs K (kd_insert K d w) = kd_docs K w @ [d]"
    and "kd_find_active K s t w = find (switch_matches s t) (kd_docs K w)"
    and "fst (kd_deactivate K i now w) =
      map_option (deactivated now) (find (\<lambda>d. sw_switch_id d = i \<and> sw_active d) (kd_docs K w))"
    and "kd_docs K (snd (kd_deactivate K i now w)) =
      update_first (\<lambda>d. sw_switch_id d = i \<and> sw_active d) (deactivated now) (kd_docs K w)"
    and "kd_docs K (rd_set R k v ttl w) = kd_docs K w"
    and "rd_get R k (kd_insert K d w) = rd_get R k w"
    and "rd_get R k (snd (kd_deactivate K i now w)) = rd_get R k w"
    and "redis_laws R"
  using assms unfolding kill_laws_def by simp_all

definition db_active :: "'w kill_db \<Rightarrow> KillSwitchScope \<Rightarrow> string \<Rightarrow> 'w \<Rightarrow> bool" where
  "db_active K s t w \<longleftrightarrow> (\<exists>d\<in>set (kd_docs K w). switch_matches (KillSwitchScope_value s) t d)"

definition active_count :: "'w kill_db \<Rightarrow> string \<Rightarrow> string \<Rightarrow> 'w \<Rightarrow> nat" where
  "active_count K s t w = length (filter (switch_matches s t) (kd_docs K w))"

lemma db_active_find: "kill_laws K R \<Longrightarrow> (kd_find_active K (KillSwitchScope_value s) t w \<noteq> None) = db_active K s t w"
  by (auto simp: kill_rules(2) db_active_def find_None_iff)

text \<open>The cache tells the truth about every target it knows.\<close>

definition cache_true :: "'w kill_db \<Rightarrow> (string, 'w) redis \<Rightarrow> 'w \<Rightarrow> bool" where
  "cache_true K R w \<longleftrightarrow>
     (\<forall>s t b. get_kill_switch_cached R (KillSwitchScope_value s) t w = Some b \<longrightarrow> b = db_active K s t w)"

lemma cache_set_get:
  assumes "redis_laws R" and "redis_up R"
  shows "get_kill_switch_cached R (KillSwitchScope_value s') t' (cache_kill_switch R (KillSwitchScope_value s) t b w) =
    (if s' = s \<and> t' = t then Some b else get_kill_switch_cached R (KillSwitchScope_value s') t' w)"
  using assms(2)
  by (auto simp: get_kill_switch_cached_def cache_kill_switch_def redis_up_def redis_rules(1) [OF assms(1)])

lemma cache_set_docs: "kill_laws K R \<Longrightarrow> db_active K s t (cache_kill_switch R s' t' b w) = db_active K s t w"
  by (simp add: db_active_def cache_kill_switch_def kill_rules(5))

subsection \<open>The service in use\<close>

text \<open>
  What happens to the switches: the three calls of the service, and the expiry of a cache entry. A target
  that already has an active switch is not activated again.
\<close>

inductive ks_reach :: "'w kill_db \<Rightarrow> (string, 'w) redis \<Rightarrow> 'w \<Rightarrow> 'w \<Rightarrow> bool" for K R w0 where
  Start: "ks_reach K R w0 w0"
| Activate: "ks_reach K R w0 w \<Longrightarrow> \<not> db_active K s t w \<Longrightarrow>
    ks_reach K R w0 (snd (ks_activate K R now i s t reason who w))"
| Deactivate: "ks_reach K R w0 w \<Longrightarrow> ks_reach K R w0 (snd (ks_deactivate K R now i w))"
| Ask: "ks_reach K R w0 w \<Longrightarrow> ks_reach K R w0 (snd (ks_is_active K R s t w))"
| Expire: "ks_reach K R w0 w \<Longrightarrow> kd_docs K w' = kd_docs K w \<Longrightarrow>
    \<forall>k. rd_get R k w' = rd_get R k w \<or> rd_get R k w' = None \<Longrightarrow> ks_reach K R w0 w'"

definition ks_inv :: "'w kill_db \<Rightarrow> (string, 'w) redis \<Rightarrow> 'w \<Rightarrow> bool" where
  "ks_inv K R w \<longleftrightarrow> cache_true K R w \<and> (\<forall>s t. active_count K (KillSwitchScope_value s) t w \<le> 1) \<and>
     (\<forall>d\<in>set (kd_docs K w). \<exists>s. sw_scope d = KillSwitchScope_value s)"

lemma kill_up:
  assumes "\<forall>w. kd_ok K w"
  shows "ks_is_active K R s t w =
      (case get_kill_switch_cached R (KillSwitchScope_value s) t w of
         Some b \<Rightarrow> (Inr b, w)
       | None \<Rightarrow> (Inr (kd_find_active K (KillSwitchScope_value s) t w \<noteq> None),
                  cache_kill_switch R (KillSwitchScope_value s) t (kd_find_active K (KillSwitchScope_value s) t w \<noteq> None) w))"
  using assms by (simp add: ks_is_active_def Let_def split: option.split)

lemma ks_is_active_true:
  assumes "kill_laws K R" and "\<forall>w. kd_ok K w" and "cache_true K R w"
  shows "fst (ks_is_active K R s t w) = Inr (db_active K s t w)"
  using assms(3) kill_up [OF assms(2), of R s t w] db_active_find [OF assms(1), of s t w]
  by (auto simp: cache_true_def split: option.splits)

text \<open>Writing the truth about one target repairs a cache that is right about all the others.\<close>

lemma inv_cache:
  assumes "kill_laws K R" and "redis_up R" and "b = db_active K s t w"
    and "\<And>s t. active_count K (KillSwitchScope_value s) t w \<le> 1"
    and "\<forall>d\<in>set (kd_docs K w). \<exists>s. sw_scope d = KillSwitchScope_value s"
    and "\<And>s' t' b'. get_kill_switch_cached R (KillSwitchScope_value s') t' w = Some b' \<Longrightarrow> s' \<noteq> s \<or> t' \<noteq> t \<Longrightarrow>
      b' = db_active K s' t' w"
  shows "ks_inv K R (cache_kill_switch R (KillSwitchScope_value s) t b w)"
proof -
  have "kd_docs K (cache_kill_switch R (KillSwitchScope_value s) t b w) = kd_docs K w"
    by (simp add: cache_kill_switch_def kill_rules(5) [OF assms(1)])
  with assms(3-6) show ?thesis
    by (auto simp: ks_inv_def cache_true_def active_count_def cache_set_docs [OF assms(1)]
        cache_set_get [OF kill_rules(8) [OF assms(1)] assms(2)] split: if_splits)
qed

lemma cached_frame:
  assumes "\<And>k. rd_get R k w' = rd_get R k w" and "redis_up R"
  shows "get_kill_switch_cached R s t w' = get_kill_switch_cached R s t w"
  using assms by (simp add: get_kill_switch_cached_def redis_up_def)

lemma inv_activate:
  assumes "kill_laws K R" and "redis_up R" and "ks_inv K R w" and "\<not> db_active K s t w"
  shows "ks_inv K R (snd (ks_activate K R now i s t reason who w))"
proof (cases "kd_ok K w")
  case False
  with assms(3) show ?thesis by (simp add: ks_activate_def Let_def)
next
  case True
  let ?d = "\<lparr>sw_switch_id = i, sw_scope = KillSwitchScope_value s, sw_target_id = t, sw_reason = reason,
     sw_activated_by = who, sw_activated_at = now, sw_active = True, sw_deactivated_at = None\<rparr>"
  let ?w = "kd_insert K ?d w"
  have match: "switch_matches (KillSwitchScope_value s') t' ?d \<longleftrightarrow> s' = s \<and> t' = t" for s' t'
    by (cases s; cases s') (auto simp: switch_matches_def)
  have docs: "kd_docs K ?w = kd_docs K w @ [?d]" by (rule kill_rules(1) [OF assms(1)])
  have "active_count K (KillSwitchScope_value s) t w = 0"
    using assms(4) by (auto simp: active_count_def db_active_def filter_empty_conv)
  then have count: "active_count K (KillSwitchScope_value s') t' ?w \<le> 1" for s' t'
    using assms(3) by (auto simp: ks_inv_def active_count_def docs match)
  have act: "db_active K s' t' ?w \<longleftrightarrow> db_active K s' t' w \<or> s' = s \<and> t' = t" for s' t'
    by (auto simp: db_active_def docs match)
  have "get_kill_switch_cached R (KillSwitchScope_value s') t' ?w = get_kill_switch_cached R (KillSwitchScope_value s') t' w"
    for s' t' by (rule cached_frame [OF kill_rules(6) [OF assms(1)] assms(2)])
  with assms(3) act count docs have "ks_inv K R (cache_kill_switch R (KillSwitchScope_value s) t True ?w)"
    by (intro inv_cache [OF assms(1,2)]) (auto simp: ks_inv_def cache_true_def)
  with True show ?thesis by (simp add: ks_activate_def Let_def)
qed

lemma inv_deactivate:
  assumes "kill_laws K R" and "redis_up R" and "ks_inv K R w"
  shows "ks_inv K R (snd (ks_deactivate K R now i w))"
proof -
  let ?P = "\<lambda>d. sw_switch_id d = i \<and> sw_active d"
  obtain r w1 where de: "kd_deactivate K i now w = (r, w1)" by fastforce
  then have docs1: "kd_docs K w1 = update_first ?P (deactivated now) (kd_docs K w)"
    and r: "r = map_option (deactivated now) (find ?P (kd_docs K w))"
    using kill_rules(3,4) [OF assms(1), of i now w] by auto
  have cached: "get_kill_switch_cached R k1 k2 w1 = get_kill_switch_cached R k1 k2 w" for k1 k2
    using de kill_rules(7) [OF assms(1), of _ i now w] by (intro cached_frame [OF _ assms(2)]) auto
  show ?thesis
  proof (cases "find ?P (kd_docs K w)")
    case None
    with docs1 have "kd_docs K w1 = kd_docs K w" by (simp add: update_first_none)
    with None r de cached assms(3) show ?thesis
      by (auto simp: ks_deactivate_def ks_inv_def cache_true_def active_count_def db_active_def)
  next
    case (Some d)
    then obtain us vs where uv: "kd_docs K w = us @ d # vs" "?P d" "kd_docs K w1 = us @ deactivated now d # vs"
      using update_first_find [OF Some, of "deactivated now"] docs1 by auto
    obtain s where s: "sw_scope d = KillSwitchScope_value s" using assms(3) uv(1) by (auto simp: ks_inv_def)
    have off: "\<not> switch_matches k1 k2 (deactivated now d)" for k1 k2
      by (simp add: switch_matches_def deactivated_def)
    have on: "switch_matches (KillSwitchScope_value s') t' d \<longleftrightarrow> s' = s \<and> t' = sw_target_id d" for s' t'
      using uv(2) s by (cases s; cases s') (auto simp: switch_matches_def)
    have "active_count K (KillSwitchScope_value s) (sw_target_id d) w \<le> 1" using assms(3) by (simp add: ks_inv_def)
    then have gone: "\<not> db_active K s (sw_target_id d) w1"
      using on [of s "sw_target_id d"] off
      by (auto simp: active_count_def db_active_def uv filter_empty_conv)
    have same: "db_active K s' t' w1 = db_active K s' t' w" if "s' \<noteq> s \<or> t' \<noteq> sw_target_id d" for s' t'
      using that on [of s' t'] off by (auto simp: db_active_def uv)
    have "active_count K (KillSwitchScope_value s') t' w1 \<le> 1" for s' t'
    proof -
      have "active_count K (KillSwitchScope_value s') t' w1 \<le> active_count K (KillSwitchScope_value s') t' w"
        using off by (simp add: active_count_def uv)
      with assms(3) show ?thesis by (auto simp: ks_inv_def intro: le_trans)
    qed
    moreover have "\<forall>d\<in>set (kd_docs K w1). \<exists>s. sw_scope d = KillSwitchScope_value s"
      using assms(3) uv by (auto simp: ks_inv_def deactivated_def)
    ultimately have "ks_inv K R (cache_kill_switch R (KillSwitchScope_value s) (sw_target_id d) False w1)"
      using gone same cached assms(3) by (intro inv_cache [OF assms(1,2)]) (auto simp: ks_inv_def cache_true_def)
    with Some r de s assms(3) show ?thesis by (auto simp: ks_deactivate_def deactivated_def)
  qed
qed

lemma inv_ask:
  assumes "kill_laws K R" and "redis_up R" and "ks_inv K R w"
  shows "ks_inv K R (snd (ks_is_active K R s t w))"
proof -
  have "ks_inv K R (cache_kill_switch R (KillSwitchScope_value s) t (db_active K s t w) w)"
    using assms(3) by (intro inv_cache [OF assms(1,2) refl]) (auto simp: ks_inv_def cache_true_def)
  then show ?thesis
    using assms(3) by (simp add: ks_is_active_def db_active_find [OF assms(1), symmetric] Let_def split: option.split)
qed

lemma ks_reach_inv:
  assumes "kill_laws K R" and "redis_up R" and "ks_reach K R w0 w" and "ks_inv K R w0"
  shows "ks_inv K R w"
  using assms(3)
proof (induction rule: ks_reach.induct)
  case Start
  show ?case by (rule assms(4))
next
  case (Activate w s t now i reason who)
  then show ?case by (intro inv_activate [OF assms(1,2)])
next
  case (Deactivate w now i)
  then show ?case by (intro inv_deactivate [OF assms(1,2)])
next
  case (Ask w s t)
  then show ?case by (intro inv_ask [OF assms(1,2)])
next
  case (Expire w w')
  have "get_kill_switch_cached R k1 k2 w' \<in> {None, get_kill_switch_cached R k1 k2 w}" for k1 k2
    using Expire.hyps(3) [rule_format, of "kill_key R k1 k2"] assms(2)
    by (auto simp: get_kill_switch_cached_def redis_up_def)
  with Expire show ?case
    by (auto simp: ks_inv_def cache_true_def active_count_def db_active_def) (metis insertE option.distinct(1) singletonD)+
qed

section \<open>A reference store\<close>

record kill_mem =
  km_docs :: "switch_doc list"
  km_cache :: "string \<Rightarrow> string option"

definition mem_kill_db :: "kill_mem kill_db" where
  "mem_kill_db = \<lparr>kd_ok = (\<lambda>_. True), kd_docs = km_docs, kd_insert = (\<lambda>d w. w\<lparr>km_docs := km_docs w @ [d]\<rparr>),
     kd_find_active = (\<lambda>s t w. find (switch_matches s t) (km_docs w)),
     kd_deactivate = (\<lambda>i now w.
       (map_option (deactivated now) (find (\<lambda>d. sw_switch_id d = i \<and> sw_active d) (km_docs w)),
        w\<lparr>km_docs := update_first (\<lambda>d. sw_switch_id d = i \<and> sw_active d) (deactivated now) (km_docs w)\<rparr>))\<rparr>"

definition mem_kill_cache :: "(string, kill_mem) redis" where
  "mem_kill_cache = \<lparr>rd_settings = default_redis_settings, rd_ok = (\<lambda>_. True), rd_get = (\<lambda>k w. km_cache w k),
     rd_set = (\<lambda>k v ttl w. w\<lparr>km_cache := (km_cache w)(k \<mapsto> v)\<rparr>),
     rd_setnx = (\<lambda>k v ttl w. if km_cache w k = None then (True, w\<lparr>km_cache := (km_cache w)(k \<mapsto> v)\<rparr>) else (False, w)),
     rd_delete = (\<lambda>k w. w\<lparr>km_cache := (km_cache w)(k := None)\<rparr>), rd_expire = (\<lambda>k ttl w. w)\<rparr>"

lemma mem_kill_laws: "kill_laws mem_kill_db mem_kill_cache" "redis_up mem_kill_cache" "\<forall>w. kd_ok mem_kill_db w"
  by (simp_all add: kill_laws_def redis_laws_def redis_up_def mem_kill_db_def mem_kill_cache_def)

definition no_switches :: kill_mem where
  "no_switches = \<lparr>km_docs = [], km_cache = Map.empty\<rparr>"

section \<open>Properties\<close>


definition tenant_request :: http_request where
  "tenant_request = \<lparr>rq_method = ''GET'', rq_path = ''/api/v1/sessions'',
     rq_header = (\<lambda>h. if h = ''X-Tenant-ID'' then Some ''acme'' else None), rq_query = (\<lambda>_. None),
     rq_client = None, rq_body = []\<rparr>"

lemma no_switches_inv: "ks_inv mem_kill_db mem_kill_cache no_switches"
  by (simp add: ks_inv_def cache_true_def active_count_def no_switches_def mem_kill_db_def mem_kill_cache_def
      get_kill_switch_cached_def)


text \<open>
  Two switches on one target do not survive the removal of one: whenever an active switch is
  deactivated, the service and the middleware treat the target as running, also when another switch for it
  is still active in the database.
\<close>

theorem second_switch_ignored:
  assumes "kill_laws K R" and "redis_up R" and "\<forall>w. kd_ok K w"
    and "find (\<lambda>d. sw_switch_id d = i \<and> sw_active d) (kd_docs K w) = Some d"
    and "sw_scope d = KillSwitchScope_value s"
    and "d' \<in> set (kd_docs K w)" and "sw_switch_id d' \<noteq> i" and "switch_matches (sw_scope d) (sw_target_id d) d'"
  shows "let w1 = snd (ks_deactivate K R now i w) in
    db_active K s (sw_target_id d) w1 \<and> fst (ks_is_active K R s (sw_target_id d) w1) = Inr False"
proof -
  obtain r w1 where de: "kd_deactivate K i now w = (r, w1)" by fastforce
  then have docs1: "kd_docs K w1 = update_first (\<lambda>d. sw_switch_id d = i \<and> sw_active d) (deactivated now) (kd_docs K w)"
    and r: "r = Some (deactivated now d)"
    using kill_rules(3,4) [OF assms(1), of i now w] assms(4) by auto
  obtain us vs where uv: "kd_docs K w = us @ d # vs" "sw_switch_id d = i" "kd_docs K w1 = us @ deactivated now d # vs"
    using update_first_find [OF assms(4), of "deactivated now"] docs1 by auto
  have "d' \<in> set (kd_docs K w1)" using assms(6,7) uv by auto
  then have "db_active K s (sw_target_id d) w1" using assms(5,8) by (auto simp: db_active_def)
  moreover have "snd (ks_deactivate K R now i w) = cache_kill_switch R (KillSwitchScope_value s) (sw_target_id d) False w1"
    using assms(3,5) de r by (simp add: ks_deactivate_def deactivated_def)
  ultimately show ?thesis
    using cache_set_get [OF kill_rules(8) [OF assms(1)] assms(2), of s "sw_target_id d" s "sw_target_id d" False w1]
    by (simp add: ks_is_active_def cache_set_docs [OF assms(1)] Let_def)
qed

definition two_switches :: kill_mem where
  "two_switches = snd (ks_activate mem_kill_db mem_kill_cache 6 ''ks_2'' TENANT ''acme'' ''incident'' ''ops''
     (snd (ks_activate mem_kill_db mem_kill_cache 5 ''ks_1'' TENANT ''acme'' ''incident'' ''ops'' no_switches)))"

theorem second_switch_ignored_witness:
  "fst (ks_is_active mem_kill_db mem_kill_cache TENANT ''acme''
     (snd (ks_deactivate mem_kill_db mem_kill_cache 7 ''ks_1'' two_switches))) = Inr False"
proof -
  let ?d = "\<lambda>i n. \<lparr>sw_switch_id = i, sw_scope = ''tenant'', sw_target_id = ''acme'', sw_reason = ''incident'',
     sw_activated_by = ''ops'', sw_activated_at = n, sw_active = True, sw_deactivated_at = None\<rparr>"
  have docs: "kd_docs mem_kill_db two_switches = [?d ''ks_1'' 5, ?d ''ks_2'' 6]"
    by (simp add: two_switches_def ks_activate_def mem_kill_db_def mem_kill_cache_def cache_kill_switch_def no_switches_def Let_def)
  show ?thesis
    using second_switch_ignored [OF mem_kill_laws, of "''ks_1''" two_switches "?d ''ks_1'' 5" TENANT "?d ''ks_2'' 6" 7]
    by (simp add: docs switch_matches_def Let_def)
qed

end
