(* ===== verification/Traffic_Limits.thy ===== *)
theory Traffic_Limits
  imports Redis_Store
begin

text \<open>
  The two limits on traffic. The rate limit per address and per tenant: the script of
  \<^verbatim>\<open>app/core/redis_client.py\<close> and \<^verbatim>\<open>app/middleware/rate_limit_middleware.py\<close>. The limit on concurrent calls of a
  tenant: \<^verbatim>\<open>app/middleware/admission_middleware.py\<close>, whose counter the WebSocket endpoint maintains. Both keep
  integers in Redis; a script runs as one command. The end of a window, when Redis drops the counter, is
  a step of the environment.
\<close>

section \<open>Counters\<close>

record 'w limit_db =
  lm_settings :: redis_settings
  lm_ok :: "'w \<Rightarrow> bool"
  lm_get :: "string \<Rightarrow> 'w \<Rightarrow> int option"
  lm_incr :: "string \<Rightarrow> 'w \<Rightarrow> int \<times> 'w"
  lm_decr :: "string \<Rightarrow> 'w \<Rightarrow> int \<times> 'w"
  lm_set :: "string \<Rightarrow> int \<Rightarrow> 'w \<Rightarrow> 'w"
  lm_expire :: "string \<Rightarrow> int \<Rightarrow> 'w \<Rightarrow> 'w"

definition lm_value :: "'w limit_db \<Rightarrow> string \<Rightarrow> 'w \<Rightarrow> int" where
  "lm_value L k w = (case lm_get L k w of None \<Rightarrow> 0 | Some n \<Rightarrow> n)"

text \<open>\<open>INCR\<close> and \<open>DECR\<close> count from 0 where there is nothing and return the new value.\<close>

definition limit_laws :: "'w limit_db \<Rightarrow> bool" where
  "limit_laws L \<longleftrightarrow>
     (\<forall>k w. fst (lm_incr L k w) = lm_value L k w + 1) \<and>
     (\<forall>k k' w. lm_get L k' (snd (lm_incr L k w)) = (if k' = k then Some (lm_value L k w + 1) else lm_get L k' w)) \<and>
     (\<forall>k w. fst (lm_decr L k w) = lm_value L k w - 1) \<and>
     (\<forall>k k' w. lm_get L k' (snd (lm_decr L k w)) = (if k' = k then Some (lm_value L k w - 1) else lm_get L k' w)) \<and>
     (\<forall>k k' n w. lm_get L k' (lm_set L k n w) = (if k' = k then Some n else lm_get L k' w)) \<and>
     (\<forall>k k' n w. lm_get L k' (lm_expire L k n w) = lm_get L k' w)"

definition limits_up :: "'w limit_db \<Rightarrow> bool" where
  "limits_up L \<longleftrightarrow> (\<forall>w. lm_ok L w)"

section \<open>Rate limit\<close>

record rate_settings =
  RATE_LIMIT_ENABLED :: bool
  RATE_LIMIT_PER_IP_PER_MIN :: int
  RATE_LIMIT_PER_TENANT_PER_MIN :: int

definition default_rate_settings :: rate_settings where
  "default_rate_settings = \<lparr>RATE_LIMIT_ENABLED = True, RATE_LIMIT_PER_IP_PER_MIN = 120, RATE_LIMIT_PER_TENANT_PER_MIN = 6000\<rparr>"

definition RATE_LIMIT_LUA :: "'w limit_db \<Rightarrow> string \<Rightarrow> int \<Rightarrow> int \<Rightarrow> 'w \<Rightarrow> int \<times> 'w" where
  "RATE_LIMIT_LUA L key limit window w =
     (case lm_incr L key w of
        (current, w1) \<Rightarrow>
          (let w2 = (if current = 1 then lm_expire L key window w1 else w1)
           in if current > limit then (0, w2) else (1, w2)))"

definition rate_limit_check ::
  "'w limit_db \<Rightarrow> rate_settings \<Rightarrow> string \<Rightarrow> int \<Rightarrow> int \<Rightarrow> 'w \<Rightarrow> bool \<times> 'w" where
  "rate_limit_check L cfg bucket limit window w =
     (if \<not> RATE_LIMIT_ENABLED cfg \<or> limit \<le> 0 then (True, w)
      else if \<not> lm_ok L w then (True, w)
      else (case RATE_LIMIT_LUA L (scoped_key (lm_settings L) ''rl'' [bucket] None) limit window w of
              (r, w1) \<Rightarrow> (r = 1, w1)))"

definition rl_excluded :: "string \<Rightarrow> bool" where
  "rl_excluded path \<longleftrightarrow> starts_with ''/api/v1/ws/'' path \<or>
     list_ex (\<lambda>p. starts_with p path) [''/api/v1/health'', ''/api/v1/metrics'', ''/api/docs'', ''/api/redoc'', ''/openapi.json'']"

definition query_tenant :: "(string \<Rightarrow> string option) \<Rightarrow> http_request \<Rightarrow> string option" where
  "query_tenant claim rq =
     (let auth = header_or_empty rq ''Authorization'';
          token = (if starts_with bearer_prefix auth then Some (drop 7 auth) else rq_query rq ''token'')
      in case token of None \<Rightarrow> None | Some t \<Rightarrow> if t = [] then None else token_tenant claim t)"

definition client_ip :: "http_request \<Rightarrow> string" where
  "client_ip rq =
     (let xff = header_or_empty rq ''x-forwarded-for''
      in if xff \<noteq> [] then strip (hd (split_on CHR '','' xff))
         else (case rq_client rq of None \<Rightarrow> ''unknown'' | Some h \<Rightarrow> h))"

definition rate_limit_dispatch ::
  "'w limit_db \<Rightarrow> rate_settings \<Rightarrow> (string \<Rightarrow> string option) \<Rightarrow> (http_request \<Rightarrow> 'w \<Rightarrow> (reply, 'w) io)
   \<Rightarrow> http_request \<Rightarrow> 'w \<Rightarrow> (reply, 'w) io" where
  "rate_limit_dispatch L cfg claim call_next rq w =
     (if \<not> RATE_LIMIT_ENABLED cfg \<or> rl_excluded (rq_path rq) then call_next rq w
      else
        (case rate_limit_check L cfg (''ip:'' @ client_ip rq) (RATE_LIMIT_PER_IP_PER_MIN cfg) 60 w of
           (False, w1) \<Rightarrow> (Inr (Refused 429 ''RATE_LIMIT_EXCEEDED'' [(''Retry-After'', ''30'')]), w1)
         | (True, w1) \<Rightarrow>
             (case query_tenant claim rq of
                None \<Rightarrow> call_next rq w1
              | Some t \<Rightarrow>
                  if t = [] then call_next rq w1
                  else (case rate_limit_check L cfg (''tenant:'' @ t) (RATE_LIMIT_PER_TENANT_PER_MIN cfg) 60 w1 of
                          (False, w2) \<Rightarrow> (Inr (Refused 429 ''TENANT_RATE_LIMIT_EXCEEDED'' [(''Retry-After'', ''30'')]), w2)
                        | (True, w2) \<Rightarrow> call_next rq w2))))"

section \<open>Admission\<close>

definition admission_key :: "string \<Rightarrow> string" where "admission_key tenant_id = ''admission:'' @ tenant_id"
definition guard_key :: "string \<Rightarrow> string" where "guard_key tenant_id = ''admission:'' @ tenant_id @ '':ttl_guard''"

definition get_tenant_session_count :: "'w limit_db \<Rightarrow> string \<Rightarrow> 'w \<Rightarrow> int" where
  "get_tenant_session_count L tenant_id w = (if lm_ok L w then lm_value L (admission_key tenant_id) w else 0)"

text \<open>The guard key is written with a time to live of a day; nothing in the sources reads it.\<close>

definition increment_session_count :: "'w limit_db \<Rightarrow> string \<Rightarrow> 'w \<Rightarrow> int \<times> 'w" where
  "increment_session_count L tenant_id w =
     (if \<not> lm_ok L w then (1, w)
      else (case lm_incr L (admission_key tenant_id) w of
              (n, w1) \<Rightarrow> if lm_ok L w1 then (n, lm_set L (guard_key tenant_id) 1 w1) else (1, w1)))"

definition LUA_DEC_FLOOR :: "'w limit_db \<Rightarrow> string \<Rightarrow> 'w \<Rightarrow> int \<times> 'w" where
  "LUA_DEC_FLOOR L key w =
     (case lm_decr L key w of (v, w1) \<Rightarrow> if v < 0 then (v, lm_set L key 0 w1) else (v, w1))"

definition decrement_session_count :: "'w limit_db \<Rightarrow> string \<Rightarrow> 'w \<Rightarrow> 'w" where
  "decrement_session_count L tenant_id w = (if lm_ok L w then snd (LUA_DEC_FLOOR L (admission_key tenant_id) w) else w)"

definition admission_dispatch ::
  "'w limit_db \<Rightarrow> int \<Rightarrow> (string \<Rightarrow> string option) \<Rightarrow> (http_request \<Rightarrow> 'w \<Rightarrow> (reply, 'w) io)
   \<Rightarrow> http_request \<Rightarrow> 'w \<Rightarrow> (reply, 'w) io" where
  "admission_dispatch L limit claim call_next rq w =
     (if \<not> starts_with ''/api/v1/ws/'' (rq_path rq) then call_next rq w
      else if map lower_char (header_or_empty rq ''upgrade'') \<noteq> ''websocket'' then call_next rq w
      else (case query_tenant claim rq of
              None \<Rightarrow> call_next rq w
            | Some t \<Rightarrow>
                if t = [] then call_next rq w
                else if get_tenant_session_count L t w \<ge> limit
                then (Inr (Refused 429 ''SESSION_LIMIT_EXCEEDED'' [(''Retry-After'', ''5'')]), w)
                else call_next rq w))"

section \<open>Lemmas\<close>

lemma limit_rules:
  assumes "limit_laws L"
  shows "fst (lm_incr L k w) = lm_value L k w + 1"
    and "lm_get L k' (snd (lm_incr L k w)) = (if k' = k then Some (lm_value L k w + 1) else lm_get L k' w)"
    and "fst (lm_decr L k w) = lm_value L k w - 1"
    and "lm_get L k' (snd (lm_decr L k w)) = (if k' = k then Some (lm_value L k w - 1) else lm_get L k' w)"
    and "lm_get L k' (lm_set L k n w) = (if k' = k then Some n else lm_get L k' w)"
    and "lm_get L k' (lm_expire L k m w) = lm_get L k' w"
  using assms unfolding limit_laws_def by simp_all

lemma value_rules:
  assumes "limit_laws L"
  shows "lm_value L k' (snd (lm_incr L k w)) = (if k' = k then lm_value L k w + 1 else lm_value L k' w)"
    and "lm_value L k' (snd (lm_decr L k w)) = (if k' = k then lm_value L k w - 1 else lm_value L k' w)"
    and "lm_value L k' (lm_set L k n w) = (if k' = k then n else lm_value L k' w)"
    and "lm_value L k' (lm_expire L k m w) = lm_value L k' w"
  using limit_rules [OF assms] by (simp_all add: lm_value_def)

lemma script_result:
  assumes "limit_laws L"
  shows "fst (RATE_LIMIT_LUA L k limit window w) = (if lm_value L k w + 1 > limit then 0 else 1)"
    and "lm_value L k' (snd (RATE_LIMIT_LUA L k limit window w)) =
      (if k' = k then lm_value L k w + 1 else lm_value L k' w)"
  using limit_rules(1) [OF assms, of k w]
  by (auto simp: RATE_LIMIT_LUA_def case_prod_unfold Let_def value_rules [OF assms])

abbreviation rl_key :: "'w limit_db \<Rightarrow> string \<Rightarrow> string" where
  "rl_key L b \<equiv> scoped_key (lm_settings L) ''rl'' [b] None"

lemma rl_key_inject [simp]: "rl_key L a = rl_key L b \<longleftrightarrow> a = b"
  by (simp add: scoped_key_def)

lemma check_result:
  assumes "limit_laws L" and "limits_up L" and "RATE_LIMIT_ENABLED cfg" and "0 < limit"
  shows "fst (rate_limit_check L cfg b limit window w) \<longleftrightarrow> lm_value L (rl_key L b) w < limit"
    and "lm_value L k (snd (rate_limit_check L cfg b limit window w)) =
      (if k = rl_key L b then lm_value L k w + 1 else lm_value L k w)"
  using assms(2-4) script_result [OF assms(1), where k = "rl_key L b" and limit = limit and window = window and w = w]
  by (auto simp: rate_limit_check_def limits_up_def case_prod_unfold)

text \<open>A sequence of checks on buckets, with the answers.\<close>

fun check_all :: "'w limit_db \<Rightarrow> rate_settings \<Rightarrow> int \<Rightarrow> int \<Rightarrow> string list \<Rightarrow> 'w \<Rightarrow> bool list \<times> 'w" where
  "check_all L cfg limit window [] w = ([], w)"
| "check_all L cfg limit window (b # bs) w =
     (case rate_limit_check L cfg b limit window w of
        (ok, w1) \<Rightarrow> (case check_all L cfg limit window bs w1 of (oks, w2) \<Rightarrow> (ok # oks, w2)))"

lemma check_all_nth:
  assumes "limit_laws L" and "limits_up L" and "RATE_LIMIT_ENABLED cfg" and "0 < limit"
  shows "fst (check_all L cfg limit window bs w) =
    map (\<lambda>i. lm_value L (rl_key L (bs ! i)) w + int (count_list (take i bs) (bs ! i)) < limit) [0..<length bs]"
proof (induction bs arbitrary: w)
  case Nil
  then show ?case by simp
next
  case (Cons b bs)
  let ?w1 = "snd (rate_limit_check L cfg b limit window w)"
  have v: "lm_value L (rl_key L x) ?w1 = lm_value L (rl_key L x) w + (if x = b then 1 else 0)" for x
    using check_result(2) [OF assms] by simp
  have "fst (check_all L cfg limit window (b # bs) w) =
      (lm_value L (rl_key L b) w < limit) # fst (check_all L cfg limit window bs ?w1)"
    using check_result(1) [OF assms, of b window w] by (simp add: case_prod_unfold)
  also have "\<dots> = (lm_value L (rl_key L b) w < limit) #
      map (\<lambda>i. lm_value L (rl_key L ((b # bs) ! Suc i)) w + int (count_list (take (Suc i) (b # bs)) ((b # bs) ! Suc i)) < limit)
        [0..<length bs]"
    unfolding Cons.IH by (auto simp: v)
  also have "\<dots> = map (\<lambda>i. lm_value L (rl_key L ((b # bs) ! i)) w + int (count_list (take i (b # bs)) ((b # bs) ! i)) < limit)
      [0..<length (b # bs)]"
    by (simp add: upt_conv_Cons map_Suc_upt [symmetric] del: upt_Suc) 
  finally show ?case .
qed

subsection \<open>Calls of one tenant\<close>

text \<open>
  The middleware asks before the upgrade, the endpoint counts after it, and uncounts when the call ends. In
  between other connections make their steps: the state is the store, the number of connections that have
  passed the question and the number of calls that are open.
\<close>

datatype adm_op = AdmCheck | AdmOpen | AdmClose

fun adm_step :: "'w limit_db \<Rightarrow> int \<Rightarrow> string \<Rightarrow> adm_op \<Rightarrow> 'w \<times> nat \<times> nat \<Rightarrow> 'w \<times> nat \<times> nat" where
  "adm_step L limit t AdmCheck (w, passed, opened) =
     (w, if get_tenant_session_count L t w < limit then passed + 1 else passed, opened)"
| "adm_step L limit t AdmOpen (w, passed, opened) =
     (if passed = 0 then (w, passed, opened) else (snd (increment_session_count L t w), passed - 1, opened + 1))"
| "adm_step L limit t AdmClose (w, passed, opened) =
     (if opened = 0 then (w, passed, opened) else (decrement_session_count L t w, passed, opened - 1))"

lemma guard_key_other [simp]: "admission_key t \<noteq> guard_key t" "guard_key t \<noteq> admission_key t"
  by (simp_all add: admission_key_def guard_key_def)

lemma admission_values:
  assumes "limit_laws L" and "limits_up L"
  shows "get_tenant_session_count L t w = lm_value L (admission_key t) w"
    and "lm_value L (admission_key t) (snd (increment_session_count L t w)) = lm_value L (admission_key t) w + 1"
    and "lm_value L (admission_key t) (decrement_session_count L t w) = max 0 (lm_value L (admission_key t) w - 1)"
  using assms(2) limit_rules(3) [OF assms(1)]
  by (auto simp: get_tenant_session_count_def increment_session_count_def decrement_session_count_def LUA_DEC_FLOOR_def
      limits_up_def case_prod_unfold value_rules [OF assms(1)])

lemma adm_counts:
  assumes "limit_laws L" and "limits_up L" and "lm_value L (admission_key t) (fst s) = int (snd (snd s))"
  shows "lm_value L (admission_key t) (fst (fold (adm_step L limit t) ops s)) = int (snd (snd (fold (adm_step L limit t) ops s)))"
  using assms(3)
proof (induction ops arbitrary: s)
  case Nil
  then show ?case by simp
next
  case (Cons op ops)
  obtain w p n where s: "s = (w, p, n)" by (cases s)
  have "lm_value L (admission_key t) (fst (adm_step L limit t op s)) = int (snd (snd (adm_step L limit t op s)))"
    using Cons.prems by (cases op) (auto simp: s admission_values [OF assms(1,2)])
  then show ?case using Cons.IH by simp
qed

lemma adm_check_all:
  "get_tenant_session_count L t w < limit \<Longrightarrow>
   fold (adm_step L limit t) (replicate n AdmCheck) (w, p, m) = (w, p + n, m)"
  by (induction n arbitrary: p) simp_all

lemma adm_open_all: "\<exists>w'. fold (adm_step L limit t) (replicate n AdmOpen) (w, n + p, m) = (w', p, m + n)"
proof (induction n arbitrary: w m)
  case 0
  then show ?case by simp
next
  case (Suc n)
  obtain w' where "fold (adm_step L limit t) (replicate n AdmOpen) (snd (increment_session_count L t w), n + p, m + 1) =
      (w', p, m + 1 + n)" using Suc by blast
  then show ?case by simp
qed

text \<open>One connection at a time: nothing happens between the question and the count.\<close>

datatype serial_op = SerialConnect | SerialClose

fun serial_ops :: "serial_op list \<Rightarrow> adm_op list" where
  "serial_ops [] = []"
| "serial_ops (SerialConnect # xs) = AdmCheck # AdmOpen # serial_ops xs"
| "serial_ops (SerialClose # xs) = AdmClose # serial_ops xs"

lemma serial_bound:
  assumes "limit_laws L" and "limits_up L" and "lm_value L (admission_key t) w = int m" and "int m \<le> limit"
  shows "int (snd (snd (fold (adm_step L limit t) (serial_ops xs) (w, 0, m)))) \<le> limit"
  using assms(3,4)
proof (induction xs arbitrary: w m rule: serial_ops.induct)
  case 1
  then show ?case by simp
next
  case (2 xs)
  show ?case
  proof (cases "int m < limit")
    case True
    with 2 show ?thesis by (simp add: admission_values [OF assms(1,2)])
  next
    case False
    with 2 show ?thesis by (simp add: admission_values [OF assms(1,2)])
  qed
next
  case (3 xs)
  then show ?case by (cases m) (simp_all add: admission_values [OF assms(1,2)])
qed

section \<open>A reference store\<close>

definition mem_limits :: "(string \<Rightarrow> int option) limit_db" where
  "mem_limits = \<lparr>lm_settings = default_redis_settings, lm_ok = (\<lambda>_. True), lm_get = (\<lambda>k w. w k),
     lm_incr = (\<lambda>k w. let n = (case w k of None \<Rightarrow> 0 | Some n \<Rightarrow> n) + 1 in (n, w(k \<mapsto> n))),
     lm_decr = (\<lambda>k w. let n = (case w k of None \<Rightarrow> 0 | Some n \<Rightarrow> n) - 1 in (n, w(k \<mapsto> n))),
     lm_set = (\<lambda>k n w. w(k \<mapsto> n)), lm_expire = (\<lambda>k n w. w)\<rparr>"

lemma mem_limits_laws: "limit_laws mem_limits" "limits_up mem_limits"
  by (simp_all add: limit_laws_def limits_up_def mem_limits_def lm_value_def Let_def)

section \<open>Properties\<close>

text \<open>
  C18. A bucket gets exactly its allowance. In a window that starts with fresh counters, over any sequence of
  requests to any buckets, a request passes exactly when fewer than \<open>limit\<close> requests of the same bucket
  came before it; so the first \<open>limit\<close> pass and no other bucket is affected. The address is taken from a header
  the client sends, and requests with pairwise different addresses all pass.
\<close>

theorem rate_limit_exact:
  assumes "limit_laws L" and "limits_up L" and "RATE_LIMIT_ENABLED cfg" and "0 < limit"
    and "\<forall>b\<in>set bs. lm_get L (scoped_key (lm_settings L) ''rl'' [b] None) w = None"
  shows "fst (check_all L cfg limit window bs w) = map (\<lambda>i. int (count_list (take i bs) (bs ! i)) < limit) [0..<length bs] \<and>
    (distinct bs \<longrightarrow> fst (check_all L cfg limit window bs w) = replicate (length bs) True)"
proof -
  have "lm_value L (rl_key L b) w = 0" if "b \<in> set bs" for b using assms(5) that by (simp add: lm_value_def)
  then have 1: "fst (check_all L cfg limit window bs w) = map (\<lambda>i. int (count_list (take i bs) (bs ! i)) < limit) [0..<length bs]"
    unfolding check_all_nth [OF assms(1-4)] by simp
  moreover have "count_list (take i bs) (bs ! i) = 0" if "distinct bs" "i < length bs" for i
    using that by (auto simp: count_list_0_iff in_set_conv_nth nth_eq_iff_index_eq)
  ultimately show ?thesis using assms(4) by (auto simp: map_replicate_const [symmetric] intro!: nth_equalityI)
qed

theorem rate_limit_exact_witness:
  "fst (check_all mem_limits default_rate_settings 2 60 [''ip:a'', ''ip:a'', ''ip:b'', ''ip:a''] Map.empty) = [True, True, True, False]"
  using rate_limit_exact [OF mem_limits_laws, of default_rate_settings 2 "[''ip:a'', ''ip:a'', ''ip:b'', ''ip:a'']" Map.empty 60]
  by (simp add: default_rate_settings_def mem_limits_def upt_rec numeral_nat)

text \<open>
  The count of calls is right and the limit on them is not. With Redis up the counter equals the number
  of open calls after any interleaving of questions, openings and endings. Connections made one after
  the other never exceed the limit; but any number of connections that ask before the first of them is
  counted are all admitted, whatever the limit.
\<close>

theorem admission_race:
  assumes "limit_laws L" and "limits_up L" and "lm_value L (admission_key t) w = int m"
  shows "(\<forall>ops w' p n. fold (adm_step L limit t) ops (w, 0, m) = (w', p, n) \<longrightarrow>
        get_tenant_session_count L t w' = int n) \<and>
    (int m \<le> limit \<longrightarrow> int (snd (snd (fold (adm_step L limit t) (serial_ops xs) (w, 0, m)))) \<le> limit) \<and>
    (int m < limit \<longrightarrow> snd (snd (fold (adm_step L limit t) (replicate k AdmCheck @ replicate k AdmOpen) (w, 0, m))) = m + k)"
proof (intro conjI allI impI)
  fix ops w' p n
  assume run: "fold (adm_step L limit t) ops (w, 0, m) = (w', p, n)"
  then show "get_tenant_session_count L t w' = int n"
    using adm_counts [OF assms(1,2), of t "(w, 0, m)" limit ops] assms(3) by (simp add: admission_values [OF assms(1,2)])
next
  assume "int m \<le> limit"
  then show "int (snd (snd (fold (adm_step L limit t) (serial_ops xs) (w, 0, m)))) \<le> limit"
    by (rule serial_bound [OF assms])
next
  assume "int m < limit"
  then have "fold (adm_step L limit t) (replicate k AdmCheck) (w, 0, m) = (w, k, m)"
    using adm_check_all [of L t w limit k 0 m] assms(3) by (simp add: admission_values [OF assms(1,2)])
  moreover obtain w' where "fold (adm_step L limit t) (replicate k AdmOpen) (w, k, m) = (w', 0, m + k)"
    using adm_open_all [of L limit t k w 0 m] by auto
  ultimately show "snd (snd (fold (adm_step L limit t) (replicate k AdmCheck @ replicate k AdmOpen) (w, 0, m))) = m + k"
    by simp
qed

theorem admission_race_witness:
  "snd (snd (fold (adm_step mem_limits 1 ''acme'') (replicate 5 AdmCheck @ replicate 5 AdmOpen) (Map.empty, 0, 0))) = 5"
  using admission_race [OF mem_limits_laws, of "''acme''" Map.empty 0 1 "[]" 5] by (simp add: mem_limits_def lm_value_def)

end
