(* ===== verification/Session_Frame.thy ===== *)
theory Session_Frame
  imports Call_Orchestrator
begin

text \<open>
  What a session may do to the stores, as an interface. A session touches the stores only through repository calls on its own id. So whatever relation
  on the stores those calls stay within, every operation of the hand-over service and of the
  orchestrator stays within it too.
\<close>

locale session_frame = effect_frame R for R :: "'w \<Rightarrow> 'w \<Rightarrow> bool" +
  fixes S :: "'w session_db" and sid :: string
  assumes setex: "R w (r_setex_state S (session_key S sid None) ttl h w)"
    and del: "R w (r_delete S (session_key S sid None) w)"
    and insert_one: "sd_session_id d = sid \<Longrightarrow> R w (snd (m_insert_session S d w))"
    and update_one: "R w (snd (m_update_session S sid f w))"
    and find_and_update: "R w (snd (m_find_and_update S sid f w))"
    and insert_turn: "td_session_id t = sid \<Longrightarrow> R w (m_insert_turn S t w)"

sublocale session_frame < pair: effect_frame "\<lambda>s s'. R (snd s) (snd s')"
  by unfold_locales (auto intro: frame_refl frame_trans)

sublocale session_frame < call: effect_frame "\<lambda>c c'. R (cs_world c) (cs_world c')"
  by unfold_locales (auto intro: frame_refl frame_trans)

context session_frame
begin

lemma keeps_set_state: "R w (snd (set_session_state S sid h None w))"
  by (simp add: set_session_state_def setex frame_refl)

lemma keeps_delete_state: "R w (delete_session_state S sid None w)"
  by (simp add: delete_session_state_def del frame_refl)

lemma keeps_update_state: "R w (snd (update_state S now sid st ts f w))"
  by (auto simp: update_state_def case_prod_unfold Let_def frame_refl update_one
      intro: frame_trans [OF update_one keeps_set_state] split: bool.split)

lemma keeps_repo_end: "R w (snd (repo_end_session S now sid reason f w))"
  by (auto simp: repo_end_session_def case_prod_unfold frame_refl
      intro: frame_trans [OF update_one keeps_delete_state])

lemma keeps_transfer_info: "R w (snd (save_transfer_info S now sid ti w))"
  by (simp add: save_transfer_info_def frame_refl update_one)

lemma keeps_save_turn: "R w (snd (save_turn S now sid f u a l p w))"
  by (auto simp: save_turn_def case_prod_unfold Let_def frame_refl find_and_update
      intro: frame_trans [OF find_and_update frame_trans [OF insert_turn keeps_set_state]])

lemma keeps_repo_create:
  assumes "in_session_id d = sid"
  shows "R w (snd (repo_create S now d w))"
  by (auto simp: repo_create_def assms case_prod_unfold Let_def frame_refl insert_one
      intro: frame_trans [OF insert_one keeps_set_state] split: bool.split)

lemma keeps_restore: "R w (snd (restore_hot_state S sid w))"
  by (auto simp: restore_hot_state_def Let_def frame_refl keeps_set_state
      split: option.splits sum.splits pyexc.splits)

lemma keeps_restore_or_create:
  assumes "or_session_id oid = sid"
  shows "R w (snd (restore_or_create_orchestrator S now oid p w))"
  unfolding restore_or_create_orchestrator_def assms
  by (intro frame_bind keeps_restore)
     (auto simp: Let_def frame_refl split: option.split intro!: frame_bind keeps_repo_create)

lemma keeps_fsm_go: "R (snd s) (snd (snd (fsm_go now to md s)))"
  by (auto simp: fsm_go_def frame_refl split: sum.splits)

lemma keeps_in_db: "(\<And>w. R w (snd (act w))) \<Longrightarrow> R (snd s) (snd (snd (in_db act s)))"
  by (simp add: in_db_def case_prod_unfold)

lemma keeps_accepted: "R (snd s) (snd (snd (on_transfer_accepted S now sid res s)))"
  unfolding on_transfer_accepted_def
  by (intro pair.frame_bind keeps_fsm_go keeps_in_db keeps_update_state) (simp add: frame_refl)

lemma keeps_callback: "R (snd s) (snd (snd (handle_callback_fallback S now sid res s)))"
proof -
  let ?s = "(record_event now CALLBACK_SCHEDULED (Some [(''reason'', VStr (of_str ''transfer_fallback''))]) (fst s), snd s)"
  have "R (snd ?s) (snd (snd (handle_callback_fallback S now sid res s)))"
    unfolding handle_callback_fallback_def Let_def
    by (intro pair.frame_bind keeps_in_db keeps_update_state) (simp add: frame_refl)
  then show ?thesis by simp
qed

lemma keeps_ai_resume: "R (snd s) (snd (snd (handle_ai_resume_fallback S now sid res s)))"
  unfolding handle_ai_resume_fallback_def
  by (intro pair.frame_bind keeps_fsm_go keeps_in_db keeps_update_state) (simp add: frame_refl)

lemma keeps_fallback: "R (snd s) (snd (snd (apply_fallback S now sid fb res s)))"
  unfolding apply_fallback_def
  by (intro pair.frame_bind keeps_fsm_go) (simp add: keeps_callback keeps_ai_resume)

lemma keeps_persist_request:
  "tr_session_id req = sid \<Longrightarrow> R (snd s) (snd (snd (persist_request S now req n s)))"
  unfolding persist_request_def
  by (intro pair.frame_bind keeps_in_db) (simp_all add: keeps_transfer_info keeps_update_state)

lemma keeps_transfer_request:
  assumes "tr_session_id req = sid"
  shows "R (snd s) (snd (snd (transfer_request S cti now req fb n s)))"
proof (induction "MAX_TRANSFER_RETRIES - n" arbitrary: n s rule: less_induct)
  case less
  have retry: "R (snd s2) (snd (snd (io_bind (fsm_go now TRANSFER_FAILED None s2)
      (\<lambda>_ s3. io_bind (fsm_go now LISTENING None s3) (\<lambda>_ s4. transfer_request S cti now req fb (n + 1) s4)))))"
    if "n < MAX_TRANSFER_RETRIES" for s2
    using that by (intro pair.frame_bind keeps_fsm_go less) simp
  have "R (snd s2) (snd (snd (after_dispatch S cti now req fb n s2)))" for s2
    using retry [of s2] assms keeps_accepted [of s2] keeps_fallback [of s2]
    by (auto simp: after_dispatch_def frame_refl split: sum.split)
  then have dispatch: "R (snd s1) (snd (snd (io_bind (persist_request S now req n s1)
      (\<lambda>_ s2. after_dispatch S cti now req fb n s2))))" for s1
    by (intro pair.frame_bind keeps_persist_request assms)
  obtain r s1 where go: "fsm_go now TRANSFER_REQUESTED (Some (request_meta req n)) s = (r, s1)"
    by (metis surj_pair)
  then have "R (snd s) (snd s1)" using keeps_fsm_go [of s now TRANSFER_REQUESTED "Some (request_meta req n)"] by simp
  with go dispatch [of s1] show ?case
    unfolding transfer_request_bind by (auto simp: frame_refl intro: frame_trans split: sum.split)
qed

lemma keeps_world_do_transition: "R (cs_world c) (cs_world (snd (do_transition E to c)))"
  by (auto simp: do_transition_def frame_refl split: sum.split prod.split)

lemma keeps_world_end:
  assumes "ce_db E = S" and "or_session_id oid = sid"
  shows "R (cs_world c) (cs_world (snd (end_session E oid reason c)))"
proof (cases "cs_closed c")
  case False
  then obtain f where "cs_world (snd (end_session E oid reason c)) =
      snd (repo_end_session S (ce_now E) sid reason (Some f) (cs_world c))"
    using end_session_open [OF False, of E oid reason] assms by force
  then show ?thesis by (simp add: keeps_repo_end)
qed (simp add: end_session_closed frame_refl)

lemma keeps_world_trigger:
  assumes "ce_db E = S" and "or_session_id oid = sid"
  shows "R (cs_world c) (cs_world (snd (trigger_transfer E oid reason hint c)))"
proof -
  have "R (cs_world c) (cs_world (snd (call_transfer E req fb c)))" if "tr_session_id req = sid" for req fb
    using keeps_transfer_request [OF that, of "(cs_fsm c, cs_world c)"] assms(1)
    by (simp add: call_transfer_def case_prod_unfold)
  then show ?thesis
    unfolding trigger_transfer_def Let_def
    by (intro call.frame_bind)
       (auto simp: assms frame_refl intro!: call.frame_bind keeps_world_end)
qed

lemma keeps_world_auto:
  assumes "ce_db E = S" and "or_session_id oid = sid"
  shows "R (cs_world c) (cs_world (snd (check_auto_transfer E oid c)))"
  using keeps_world_trigger [OF assms, where c = "with_fsm f c" for f]
  by (simp add: check_auto_transfer_def frame_refl)

lemma keeps_world_persist:
  assumes "ce_db E = S" and "or_session_id oid = sid"
  shows "R (cs_world c) (cs_world (snd (persist_turn E oid r c)))"
  using keeps_save_turn [of "cs_world c" "ce_now E" "cs_fsm c" "pr_stt_text r" "pr_llm_text r" "pr_latency r" "pr_policy_level r"] assms
  by (auto simp: persist_turn_def case_prod_unfold split: sum.split)

lemma keeps_world_failed:
  assumes "ce_db E = S" and "or_session_id oid = sid"
  shows "R (cs_world c) (cs_world (snd (pipeline_failed E oid es e c)))"
proof -
  let ?c = "c\<lparr>cs_failure_count := cs_failure_count c + 1\<rparr>"
  have "R (cs_world ?c) (cs_world (snd (pipeline_failed E oid es e c)))"
    unfolding pipeline_failed_def Let_def
    by (intro call.frame_bind keeps_world_auto assms) (simp add: case_prod_unfold keeps_world_do_transition)
  then show ?thesis by simp
qed

lemma keeps_world_answer:
  assumes "ce_db E = S" and "or_session_id oid = sid"
  shows "R (cs_world c) (cs_world (snd (answer_turn E oid es r c)))"
proof -
  let ?c = "c\<lparr>cs_history := push_turn (pr_stt_text r, pr_llm_text r) (cs_history c)\<rparr>"
  have "R (cs_world ?c) (cs_world (snd (answer_turn E oid es r c)))"
    unfolding answer_turn_def Let_def
    by (intro call.frame_bind keeps_world_persist assms) (simp add: case_prod_unfold keeps_world_do_transition)
  then show ?thesis by simp
qed

lemma keeps_world_bind_trigger:
  assumes "ce_db E = S" and "or_session_id oid = sid"
  shows "R (cs_world c) (cs_world (snd (io_bind (trigger_transfer E oid reason hint c) (\<lambda>es c2. (Inr (g es), c2)))))"
  by (intro call.frame_bind keeps_world_trigger assms) (simp add: frame_refl)

lemma keeps_world_blocked:
  assumes "ce_db E = S" and "or_session_id oid = sid"
  shows "R (cs_world c) (cs_world (snd (policy_blocked_turn E oid es r c)))"
  using keeps_world_do_transition [of c E LISTENING]
  by (simp add: policy_blocked_turn_def case_prod_unfold keeps_world_bind_trigger [OF assms])

lemma keeps_world_pipeline:
  assumes "ce_db E = S" and "or_session_id oid = sid"
  shows "R (cs_world c) (cs_world (snd (run_pipeline E oid audio c)))"
proof -
  let ?c0 = "snd (do_transition E SPEAKING_DETECTED c)"
  note k = keeps_world_failed [OF assms, where c = "?c0\<lparr>cs_pipe := p\<rparr>" for p]
    keeps_world_bind_trigger [OF assms, where c = "?c0\<lparr>cs_pipe := p, cs_failure_count := 0\<rparr>" for p]
    keeps_world_blocked [OF assms, where c = "?c0\<lparr>cs_pipe := p, cs_failure_count := 0\<rparr>" for p]
    keeps_world_answer [OF assms, where c = "?c0\<lparr>cs_pipe := p, cs_failure_count := 0\<rparr>" for p]
  have "R (cs_world ?c0) (cs_world (snd (run_pipeline E oid audio c)))"
    using k by (auto simp: run_pipeline_def case_prod_unfold Let_def frame_refl split: sum.splits)
  with keeps_world_do_transition show ?thesis by (rule frame_trans)
qed

lemma keeps_world_audio:
  assumes "ce_db E = S" and "or_session_id oid = sid"
  shows "R (cs_world c) (cs_world (snd (handle_audio E oid data c)))"
  using keeps_world_pipeline [OF assms, where c = "c\<lparr>cs_last_activity := t, cs_audio_buffer := []\<rparr>" for t]
  by (simp add: handle_audio_def Let_def frame_refl)

lemma keeps_world_control:
  assumes "ce_db E = S" and "or_session_id oid = sid"
  shows "R (cs_world c) (cs_world (snd (handle_control E oid msg c)))"
proof -
  let ?c1 = "c\<lparr>cs_last_activity := ce_now E\<rparr>"
  note k = keeps_world_do_transition [where c = "?c1\<lparr>cs_listening := True, cs_audio_buffer := []\<rparr>"]
    keeps_world_pipeline [OF assms, where c = "?c1\<lparr>cs_listening := False, cs_audio_buffer := []\<rparr>"]
    keeps_world_end [OF assms, where c = ?c1] keeps_world_trigger [OF assms, where c = ?c1]
  show ?thesis
    using k by (simp add: handle_control_def Let_def case_prod_unfold frame_refl)
qed

end

end
