(* ===== verification/Gateway.thy ===== *)
theory Gateway
  imports Session_Frame WS_Backpressure Kill_Switch Traffic_Limits Json_Text
begin

text \<open>
  The WebSocket endpoint of the media gateway, \<^verbatim>\<open>app/api/v1/routers/vbgw.py\<close>: the checks before the
  connection is accepted, the lease, the restoration of the session, the receive loop and the single exit
  path. It composes the orchestrator, the send queue, the kill switch, the lease and the admission counter on
  one shared state of the stores. A connection is driven by a list of turns of its loop; in each turn the
  drain loop of the sender may run and other handlers may change the stores before a message arrives. The
  token decoder and \<open>json.loads\<close> are parameters.
\<close>

section \<open>Data\<close>

definition MSG_LEASE_CONFLICT :: ustr where
  "MSG_LEASE_CONFLICT =
     [46041, 51068, 32, 49464, 49496, 51060, 32, 51060, 48120, 32, 50672, 44208, 32, 51473,
     51077, 45768, 45796, 46]"

definition MSG_SESSION_ENDED :: ustr where
  "MSG_SESSION_ENDED =
     [51060, 48120, 32, 51333, 47308, 46108, 32, 49464, 49496, 51077, 45768, 45796, 46]"

definition MSG_IDLE_TIMEOUT :: ustr where
  "MSG_IDLE_TIMEOUT =
     [48708, 54876, 49457, 51004, 47196, 32, 51064, 54644, 32, 49464, 49496, 51060, 32,
     51333, 47308, 46121, 45768, 45796, 46]"

definition MSG_INVALID_JSON :: ustr where
  "MSG_INVALID_JSON =
     [51096, 47803, 46108, 32, 74, 83, 79, 78, 32, 54805, 49885, 51077, 45768, 45796, 46]"

record ws_settings =
  WS_ALLOWED_ORIGINS :: "string list"
  WS_ALLOW_EMPTY_ORIGIN :: bool

record token_claims =
  tc_tenant_id :: "string option"
  tc_sub :: "string option"

text \<open>What \<open>json.loads\<close> makes of a text: an error, an object, or another value, on which \<open>get\<close> raises.\<close>

datatype json_text = JsonInvalid | JsonObject control_msg | JsonOther ustr

record 'w gateway =
  gw_settings :: ws_settings
  gw_decode :: "string \<Rightarrow> token_claims option"
  gw_loads :: "ustr \<Rightarrow> json_text"
  gw_db :: "'w session_db"
  gw_kill :: "'w kill_db"
  gw_cache :: "(string, 'w) redis"
  gw_limits :: "'w limit_db"

datatype ws_msg =
    WsTimeout
  | WsReceive "bytes option" "ustr option"
  | WsDisconnect
  | WsOther
  | WsDisconnected
  | WsRaises pyexc

record ('w, 'q) ws_turn =
  wt_checked_at :: time
  wt_sends :: "bool list"
  wt_others :: "'w \<Rightarrow> 'w"
  wt_msg :: ws_msg
  wt_now :: time
  wt_pipe :: "'q pipe_env"

datatype ws_outcome = WsClosed int | WsRaised pyexc | WsFinished | WsStillOpen

record 'w ws_result =
  wr_outcome :: ws_outcome
  wr_direct :: "OutboundEvent list"
  wr_sender :: "BoundedWSSender option"
  wr_world :: 'w

section \<open>Helpers\<close>

definition to_json :: "OutboundEvent \<Rightarrow> ustr" where
  "to_json e = json_dumps (VDict (dict_update [(''event'', VStr (of_str (oe_name e)))] (oe_payload e)))"

definition is_origin_allowed :: "ws_settings \<Rightarrow> string option \<Rightarrow> bool" where
  "is_origin_allowed cfg origin =
     (case origin of
        None \<Rightarrow> WS_ALLOW_EMPTY_ORIGIN cfg
      | Some o' \<Rightarrow> if o' = [] then WS_ALLOW_EMPTY_ORIGIN cfg else o' \<in> set (WS_ALLOWED_ORIGINS cfg))"

definition enqueue_events :: "OutboundEvent list \<Rightarrow> BoundedWSSender \<Rightarrow> BoundedWSSender" where
  "enqueue_events es sd = fold (\<lambda>e s. snd (enqueue (oe_name e) (to_json e) s)) es sd"

definition turn_env :: "'w gateway \<Rightarrow> time \<Rightarrow> 'q pipe_env \<Rightarrow> ('w, 'q) call_env" where
  "turn_env G now pe = \<lparr>ce_db = gw_db G, ce_pipe = pe, ce_now = now\<rparr>"

section \<open>The receive loop\<close>

definition handle_message ::
  "'w gateway \<Rightarrow> orch_id \<Rightarrow> ('w, 'q) call_env \<Rightarrow> bytes option \<Rightarrow> ustr option \<Rightarrow> ('w, 'q) call_state
   \<Rightarrow> (OutboundEvent list, ('w, 'q) call_state) io" where
  "handle_message G oid E raw_bytes raw_text c =
     (if raw_bytes \<noteq> None \<and> raw_bytes \<noteq> Some [] then handle_audio E oid (the raw_bytes) c
      else if raw_text \<noteq> None \<and> raw_text \<noteq> Some []
      then (case gw_loads G (the raw_text) of
              JsonInvalid \<Rightarrow> (Inr [error_evt ''INVALID_JSON'' MSG_INVALID_JSON], c)
            | JsonOther t \<Rightarrow> (Inl (OtherException t), c)
            | JsonObject m \<Rightarrow> handle_control E oid m c)
      else (Inr [], c))"

datatype loop_exit = LoopBreak | LoopRaised pyexc | LoopWaiting

type_synonym ('w, 'q) ws_state = "BoundedWSSender \<times> ('w, 'q) call_state"

text \<open>The \<open>except Exception\<close> clause around the loop; a cancellation passes it.\<close>

definition loop_raised :: "'q pipe_env \<Rightarrow> pyexc \<Rightarrow> ('w, 'q) ws_state \<Rightarrow> loop_exit \<times> ('w, 'q) ws_state" where
  "loop_raised pe e s =
     (if is_Exception e
      then (LoopBreak, (enqueue_events [error_evt ''INTERNAL_ERROR'' (pv_str pe e)] (fst s), snd s))
      else (LoopRaised e, s))"

fun ws_loop ::
  "'w gateway \<Rightarrow> orch_id \<Rightarrow> ('w, 'q) ws_turn list \<Rightarrow> ('w, 'q) ws_state \<Rightarrow> loop_exit \<times> ('w, 'q) ws_state" where
  "ws_loop G oid [] s = (LoopWaiting, s)"
| "ws_loop G oid (t # ts) (sd, c) =
     (if is_idle_timeout (wt_checked_at t) c
      then (LoopBreak, (enqueue_events [error_evt ''IDLE_TIMEOUT'' MSG_IDLE_TIMEOUT] sd, c))
      else
        (let sd1 = fold drain_step (wt_sends t) sd;
             c1 = c\<lparr>cs_world := wt_others t (cs_world c)\<rparr>
         in case wt_msg t of
              WsTimeout \<Rightarrow> ws_loop G oid ts (enqueue_events [evt ''ping'' []] sd1, c1)
            | WsOther \<Rightarrow> ws_loop G oid ts (sd1, c1)
            | WsDisconnect \<Rightarrow> (LoopBreak, (sd1, c1))
            | WsDisconnected \<Rightarrow> (LoopBreak, (sd1, c1))
            | WsRaises e \<Rightarrow> loop_raised (wt_pipe t) e (sd1, c1)
            | WsReceive raw_bytes raw_text \<Rightarrow>
                (case handle_message G oid (turn_env G (wt_now t) (wt_pipe t)) raw_bytes raw_text c1 of
                   (Inl e, c2) \<Rightarrow> loop_raised (wt_pipe t) e (sd1, c2)
                 | (Inr es, c2) \<Rightarrow>
                     (let sd2 = enqueue_events es sd1
                      in if cs_should_close c2 then (LoopBreak, (sd2, c2)) else ws_loop G oid ts (sd2, c2)))))"

section \<open>The connection\<close>

text \<open>
  \<open>close\<close> of the sender: the flag, what the drain loop still manages to send in its second of grace, the
  cancellation of its task.
\<close>

definition close_sender :: "bool list \<Rightarrow> BoundedWSSender \<Rightarrow> BoundedWSSender" where
  "close_sender sends sd = ws_cancel (fold drain_step sends (ws_close sd))"

text \<open>The \<open>finally\<close> block; an exception on the way out of the loop is raised again after it.\<close>

definition ws_finally ::
  "'w gateway \<Rightarrow> orch_id \<Rightarrow> time \<Rightarrow> 'q pipe_env \<Rightarrow> bool list \<Rightarrow> loop_exit \<Rightarrow> ('w, 'q) ws_state \<Rightarrow> 'w ws_result" where
  "ws_finally G oid now pe sends x s =
     (case end_session (turn_env G now pe) oid ''connection_closed'' (snd s) of
        (Inl e, c1) \<Rightarrow> \<lparr>wr_outcome = WsRaised e, wr_direct = [], wr_sender = Some (fst s), wr_world = cs_world c1\<rparr>
      | (Inr end_events, c1) \<Rightarrow>
          \<lparr>wr_outcome = (case x of LoopRaised e \<Rightarrow> WsRaised e | _ \<Rightarrow> WsFinished), wr_direct = end_events,
           wr_sender = Some (close_sender sends (fst s)),
           wr_world = decrement_session_count (gw_limits G) (or_tenant_id oid)
             (release_session_lease (gw_db G) (or_session_id oid) None (cs_world c1))\<rparr>)"

text \<open>Steps 6 and 7: sender, admission counter, loop, exit.\<close>

definition serve_session ::
  "'w gateway \<Rightarrow> orch_id \<Rightarrow> time \<Rightarrow> 'q pipe_env \<Rightarrow> ('w, 'q) ws_turn list \<Rightarrow> bool list
   \<Rightarrow> OutboundEvent list \<Rightarrow> ('w, 'q) call_state \<Rightarrow> 'w ws_result" where
  "serve_session G oid now pe turns sends initial_events c =
     (let sd = enqueue_events initial_events (new_sender DEFAULT_MAX_QUEUE_SIZE);
          c1 = c\<lparr>cs_world := snd (increment_session_count (gw_limits G) (or_tenant_id oid) (cs_world c))\<rparr>
      in case ws_loop G oid turns (sd, c1) of
           (LoopWaiting, (sd', c')) \<Rightarrow>
             \<lparr>wr_outcome = WsStillOpen, wr_direct = [], wr_sender = Some sd', wr_world = cs_world c'\<rparr>
         | (x, s) \<Rightarrow> ws_finally G oid now pe sends x s)"

definition refuse :: "int \<Rightarrow> OutboundEvent list \<Rightarrow> 'w \<Rightarrow> 'w ws_result" where
  "refuse code es w = \<lparr>wr_outcome = WsClosed code, wr_direct = es, wr_sender = None, wr_world = w\<rparr>"

text \<open>Steps 4 and 5, once the connection is accepted.\<close>

definition open_session ::
  "'w gateway \<Rightarrow> orch_id \<Rightarrow> 'q pipe_state \<Rightarrow> time \<Rightarrow> time \<Rightarrow> 'q pipe_env \<Rightarrow> ('w, 'q) ws_turn list \<Rightarrow> bool list
   \<Rightarrow> 'w \<Rightarrow> 'w ws_result" where
  "open_session G oid p now end_now pe turns sends w =
     (case acquire_session_lease (gw_db G) (or_session_id oid) None w of
        (False, w1) \<Rightarrow> refuse 4002 [error_evt ''LEASE_CONFLICT'' MSG_LEASE_CONFLICT] w1
      | (True, w1) \<Rightarrow>
          (case restore_or_create_orchestrator (gw_db G) now oid p w1 of
             (Inl e, w2) \<Rightarrow> \<lparr>wr_outcome = WsRaised e, wr_direct = [], wr_sender = None, wr_world = w2\<rparr>
           | (Inr (None, _), w2) \<Rightarrow>
               refuse 4004 [error_evt ''SESSION_ENDED'' MSG_SESSION_ENDED]
                 (release_session_lease (gw_db G) (or_session_id oid) None w2)
           | (Inr (Some c, es), w2) \<Rightarrow> serve_session G oid end_now pe turns sends es (c\<lparr>cs_world := w2\<rparr>)))"

definition vbgw_websocket ::
  "'w gateway \<Rightarrow> string option \<Rightarrow> string \<Rightarrow> string \<Rightarrow> 'q pipe_state \<Rightarrow> time \<Rightarrow> time \<Rightarrow> 'q pipe_env
   \<Rightarrow> ('w, 'q) ws_turn list \<Rightarrow> bool list \<Rightarrow> 'w \<Rightarrow> 'w ws_result" where
  "vbgw_websocket G origin token session_id p now end_now pe turns sends w =
     (if \<not> is_origin_allowed (gw_settings G) origin then refuse 4005 [] w
      else
        (case gw_decode G token of
           None \<Rightarrow> refuse 4001 [] w
         | Some claims \<Rightarrow>
             (let tenant_id = (case tc_tenant_id claims of None \<Rightarrow> [] | Some t \<Rightarrow> t);
                  client_id = (case tc_sub claims of None \<Rightarrow> [] | Some s \<Rightarrow> s);
                  oid = \<lparr>or_session_id = session_id, or_tenant_id = tenant_id, or_client_id = client_id, or_policy_level = G1\<rparr>
              in if tenant_id = [] \<or> client_id = [] then refuse 4001 [] w
                 else
                   (case ks_is_active (gw_kill G) (gw_cache G) TENANT tenant_id w of
                      (Inr True, w1) \<Rightarrow> refuse 4003 [] w1
                    | (Inr False, w1) \<Rightarrow> open_session G oid p now end_now pe turns sends w1
                    | (Inl e, w1) \<Rightarrow>
                        if is_Exception e then open_session G oid p now end_now pe turns sends w1
                        else \<lparr>wr_outcome = WsRaised e, wr_direct = [], wr_sender = None, wr_world = w1\<rparr>))))"

section \<open>Laws\<close>

text \<open>
  \<open>SET NX\<close> succeeds exactly where the key is free: after it the key is taken, after \<open>DEL\<close> it is free, and other
  commands on other keys do not matter.
\<close>

definition lease_laws :: "'w session_db \<Rightarrow> bool" where
  "lease_laws S \<longleftrightarrow>
     (\<forall>k k' w. fst (r_set_nx S k' LEASE_TTL (snd (r_set_nx S k LEASE_TTL w))) \<longleftrightarrow> k' \<noteq> k \<and> fst (r_set_nx S k' LEASE_TTL w)) \<and>
     (\<forall>k k' w. fst (r_set_nx S k' LEASE_TTL (r_delete S k w)) \<longleftrightarrow> k' = k \<or> fst (r_set_nx S k' LEASE_TTL w)) \<and>
     (\<forall>k k' ttl h w. k' \<noteq> k \<longrightarrow> fst (r_set_nx S k' LEASE_TTL (r_setex_state S k ttl h w)) = fst (r_set_nx S k' LEASE_TTL w)) \<and>
     (\<forall>k d w. fst (r_set_nx S k LEASE_TTL (snd (m_insert_session S d w))) = fst (r_set_nx S k LEASE_TTL w)) \<and>
     (\<forall>k i f w. fst (r_set_nx S k LEASE_TTL (snd (m_update_session S i f w))) = fst (r_set_nx S k LEASE_TTL w)) \<and>
     (\<forall>k i f w. fst (r_set_nx S k LEASE_TTL (snd (m_find_and_update S i f w))) = fst (r_set_nx S k LEASE_TTL w)) \<and>
     (\<forall>k t w. fst (r_set_nx S k LEASE_TTL (m_insert_turn S t w)) = fst (r_set_nx S k LEASE_TTL w)) \<and>
     (\<forall>k k' w. k' \<noteq> k \<longrightarrow> r_get_state S k' (snd (r_set_nx S k LEASE_TTL w)) = r_get_state S k' w) \<and>
     (\<forall>k i w. m_find_session S i (snd (r_set_nx S k LEASE_TTL w)) = m_find_session S i w)"

definition lease_held :: "'w session_db \<Rightarrow> string \<Rightarrow> 'w \<Rightarrow> bool" where
  "lease_held S sid w \<longleftrightarrow> \<not> fst (r_set_nx S (lease_key S sid None) LEASE_TTL w)"

text \<open>What the stores hold about one session, and the number of calls counted for a tenant.\<close>

definition session_view :: "'w session_db \<Rightarrow> string \<Rightarrow> 'w \<Rightarrow> hot_state option \<times> session_doc option \<times> bool" where
  "session_view S sid w = (r_get_state S (session_key S sid None) w, m_find_session S sid w, lease_held S sid w)"

definition calls :: "'w gateway \<Rightarrow> string \<Rightarrow> 'w \<Rightarrow> int" where
  "calls G t w = lm_value (gw_limits G) (admission_key t) w"

text \<open>The commands of one component leave the keys and documents of the others alone.\<close>

definition apart :: "'w gateway \<Rightarrow> bool" where
  "apart G \<longleftrightarrow>
     (\<forall>sid t w. session_view (gw_db G) sid (snd (lm_incr (gw_limits G) (admission_key t) w)) = session_view (gw_db G) sid w) \<and>
     (\<forall>sid t w. session_view (gw_db G) sid (snd (lm_decr (gw_limits G) (admission_key t) w)) = session_view (gw_db G) sid w) \<and>
     (\<forall>sid t n w. session_view (gw_db G) sid (lm_set (gw_limits G) (admission_key t) n w) = session_view (gw_db G) sid w) \<and>
     (\<forall>sid t n w. session_view (gw_db G) sid (lm_set (gw_limits G) (guard_key t) n w) = session_view (gw_db G) sid w) \<and>
     (\<forall>sid s t v ttl w. session_view (gw_db G) sid (rd_set (gw_cache G) (kill_key (gw_cache G) s t) v ttl w) = session_view (gw_db G) sid w) \<and>
     (\<forall>t s t' v ttl w. calls G t (rd_set (gw_cache G) (kill_key (gw_cache G) s t') v ttl w) = calls G t w) \<and>
     (\<forall>t sid ttl h w. calls G t (r_setex_state (gw_db G) (session_key (gw_db G) sid None) ttl h w) = calls G t w) \<and>
     (\<forall>t sid w. calls G t (r_delete (gw_db G) (session_key (gw_db G) sid None) w) = calls G t w) \<and>
     (\<forall>t sid w. calls G t (r_delete (gw_db G) (lease_key (gw_db G) sid None) w) = calls G t w) \<and>
     (\<forall>t sid w. calls G t (snd (r_set_nx (gw_db G) (lease_key (gw_db G) sid None) LEASE_TTL w)) = calls G t w) \<and>
     (\<forall>t d w. calls G t (snd (m_insert_session (gw_db G) d w)) = calls G t w) \<and>
     (\<forall>t i f w. calls G t (snd (m_update_session (gw_db G) i f w)) = calls G t w) \<and>
     (\<forall>t i f w. calls G t (snd (m_find_and_update (gw_db G) i f w)) = calls G t w) \<and>
     (\<forall>t d w. calls G t (m_insert_turn (gw_db G) d w) = calls G t w)"

definition gateway_laws :: "'w gateway \<Rightarrow> bool" where
  "gateway_laws G \<longleftrightarrow> session_db_laws (gw_db G) \<and> lease_laws (gw_db G) \<and> limit_laws (gw_limits G) \<and> apart G"

definition gateway_up :: "'w gateway \<Rightarrow> bool" where
  "gateway_up G \<longleftrightarrow> no_outage (gw_db G) \<and> limits_up (gw_limits G)"

lemma gateway_rules:
  assumes "gateway_laws G"
  shows "session_db_laws (gw_db G)" "lease_laws (gw_db G)" "limit_laws (gw_limits G)" "apart G"
  using assms unfolding gateway_laws_def by simp_all

lemma lease_session_keys [simp]:
  "lease_key S a None \<noteq> session_key S b None" "session_key S b None \<noteq> lease_key S a None"
  by (simp_all add: lease_key_def session_key_def scoped_key_def)

lemma lease_rules:
  assumes "gateway_laws G"
  shows "lease_held (gw_db G) sid (snd (r_set_nx (gw_db G) (lease_key (gw_db G) sid None) LEASE_TTL w))"
    and "\<not> lease_held (gw_db G) sid (r_delete (gw_db G) (lease_key (gw_db G) sid None) w)"
    and "lease_held (gw_db G) sid (r_delete (gw_db G) (session_key (gw_db G) sid' None) w) = lease_held (gw_db G) sid w"
    and "lease_held (gw_db G) sid (r_setex_state (gw_db G) (session_key (gw_db G) sid' None) ttl h w) = lease_held (gw_db G) sid w"
    and "lease_held (gw_db G) sid (snd (m_insert_session (gw_db G) d w)) = lease_held (gw_db G) sid w"
    and "lease_held (gw_db G) sid (snd (m_update_session (gw_db G) i f w)) = lease_held (gw_db G) sid w"
    and "lease_held (gw_db G) sid (snd (m_find_and_update (gw_db G) i f w)) = lease_held (gw_db G) sid w"
    and "lease_held (gw_db G) sid (m_insert_turn (gw_db G) t w) = lease_held (gw_db G) sid w"
    and "r_get_state (gw_db G) (session_key (gw_db G) sid None) (snd (r_set_nx (gw_db G) (lease_key (gw_db G) sid' None) LEASE_TTL w)) =
      r_get_state (gw_db G) (session_key (gw_db G) sid None) w"
    and "m_find_session (gw_db G) i (snd (r_set_nx (gw_db G) k LEASE_TTL w)) = m_find_session (gw_db G) i w"
  using gateway_rules(2) [OF assms] unfolding lease_laws_def lease_held_def by simp_all

lemma apart_rules:
  assumes "gateway_laws G"
  shows "calls G t (rd_set (gw_cache G) (kill_key (gw_cache G) s t') v ttl w) = calls G t w"
    and "calls G t (r_setex_state (gw_db G) (session_key (gw_db G) sid None) n h w) = calls G t w"
    and "calls G t (r_delete (gw_db G) (session_key (gw_db G) sid None) w) = calls G t w"
    and "calls G t (r_delete (gw_db G) (lease_key (gw_db G) sid None) w) = calls G t w"
    and "calls G t (snd (r_set_nx (gw_db G) (lease_key (gw_db G) sid None) LEASE_TTL w)) = calls G t w"
    and "calls G t (snd (m_insert_session (gw_db G) d w)) = calls G t w"
    and "calls G t (snd (m_update_session (gw_db G) i f w)) = calls G t w"
    and "calls G t (snd (m_find_and_update (gw_db G) i f w)) = calls G t w"
    and "calls G t (m_insert_turn (gw_db G) td w) = calls G t w"
    and "session_view (gw_db G) sid (rd_set (gw_cache G) (kill_key (gw_cache G) s t') v ttl w) = session_view (gw_db G) sid w"
  using gateway_rules(4) [OF assms] unfolding apart_def by simp_all

lemma view_counters:
  assumes "gateway_laws G"
  shows "session_view (gw_db G) sid (snd (increment_session_count (gw_limits G) t w)) = session_view (gw_db G) sid w"
    and "session_view (gw_db G) sid (decrement_session_count (gw_limits G) t w) = session_view (gw_db G) sid w"
  using gateway_rules(4) [OF assms] unfolding apart_def
  by (simp_all add: increment_session_count_def decrement_session_count_def LUA_DEC_FLOOR_def case_prod_unfold)

lemma calls_counters:
  assumes "gateway_laws G" and "gateway_up G"
  shows "calls G t (snd (increment_session_count (gw_limits G) t w)) = calls G t w + 1"
    and "calls G t (decrement_session_count (gw_limits G) t w) = max 0 (calls G t w - 1)"
  using admission_values [OF gateway_rules(3) [OF assms(1)]] assms(2) by (simp_all add: gateway_up_def calls_def)

section \<open>What a session does to the stores\<close>

definition session_only :: "'w gateway \<Rightarrow> string \<Rightarrow> string \<Rightarrow> 'w \<Rightarrow> 'w \<Rightarrow> bool" where
  "session_only G sid t w w' \<longleftrightarrow>
     (gateway_laws G \<longrightarrow>
        lease_held (gw_db G) sid w' = lease_held (gw_db G) sid w \<and>
        (stored (gw_db G) sid w \<longrightarrow> stored (gw_db G) sid w') \<and> calls G t w' = calls G t w)"

interpretation gws: session_frame "session_only G sid t" "gw_db G" sid for G sid t
  by unfold_locales
     (auto simp: session_only_def stored_def apart_rules lease_rules mongo_session_rules [OF gateway_rules(1)])

subsection \<open>Who may close a session\<close>

text \<open>Without a connector no hand-over is accepted, so of all handlers only a hang-up closes a session.\<close>

definition same_flags :: "('w, 'q) call_state \<Rightarrow> ('w, 'q) call_state \<Rightarrow> bool" where
  "same_flags c c' \<longleftrightarrow> cs_closed c' = cs_closed c \<and> cs_should_close c' = cs_should_close c"

interpretation flags: effect_frame same_flags
  by unfold_locales (auto simp: same_flags_def)

lemma mock_not_accepted:
  assumes "transfer_request S None now req CALLBACK n s = (Inr res, s')"
  shows "res_status res \<noteq> ACCEPTED"
  using assms transfer_request.simps [of S None now req CALLBACK n s]
  by (auto simp: dispatch_to_cti_def mock_cti_dispatch_def plain_result_def apply_fallback_def
      handle_callback_fallback_def Let_def io_bind_def split: prod.splits sum.splits)

lemma flags_do_transition: "same_flags c (snd (do_transition E to c))"
  by (auto simp: do_transition_def same_flags_def split: sum.split prod.split)

lemma flags_trigger: "same_flags c (snd (trigger_transfer E oid reason hint c))"
proof -
  have "same_flags c (snd (call_transfer E req fb c))" for req fb
    by (simp add: call_transfer_def same_flags_def case_prod_unfold)
  moreover have "res_status r \<noteq> ACCEPTED" if "call_transfer E req CALLBACK c = (Inr r, c1)" for req r c1
    using that mock_not_accepted [of "ce_db E" "ce_now E" req 0 "(cs_fsm c, cs_world c)" r]
    by (auto simp: call_transfer_def split: prod.splits)
  ultimately show ?thesis
    unfolding trigger_transfer_def Let_def
    by (intro flags.frame_bind) (auto simp: flags.frame_refl)
qed

lemma flags_auto: "same_flags c (snd (check_auto_transfer E oid c))"
  using flags_trigger [where c = "with_fsm f c" for f]
  by (simp add: check_auto_transfer_def flags.frame_refl) (simp add: same_flags_def)

lemma flags_failed: "same_flags c (snd (pipeline_failed E oid es e c))"
proof -
  let ?c = "c\<lparr>cs_failure_count := cs_failure_count c + 1\<rparr>"
  have "same_flags ?c (snd (pipeline_failed E oid es e c))"
    unfolding pipeline_failed_def Let_def
    by (intro flags.frame_bind flags_auto) (simp add: case_prod_unfold flags_do_transition)
  then show ?thesis by (simp add: same_flags_def)
qed

lemma flags_answer: "same_flags c (snd (answer_turn E oid es r c))"
proof -
  let ?c = "c\<lparr>cs_history := push_turn (pr_stt_text r, pr_llm_text r) (cs_history c)\<rparr>"
  have "same_flags ?c (snd (persist_turn E oid r ?c))"
    by (simp add: persist_turn_def same_flags_def split: prod.split sum.split)
  then have "same_flags ?c (snd (answer_turn E oid es r c))"
    unfolding answer_turn_def Let_def
    by (intro flags.frame_bind) (auto simp: case_prod_unfold flags_do_transition)
  then show ?thesis by (simp add: same_flags_def)
qed

lemma flags_bind_trigger:
  "same_flags c (snd (io_bind (trigger_transfer E oid reason hint c) (\<lambda>es c2. (Inr (g es), c2))))"
  by (intro flags.frame_bind flags_trigger) (simp add: flags.frame_refl)

lemma flags_blocked: "same_flags c (snd (policy_blocked_turn E oid es r c))"
  using flags_do_transition [of c E LISTENING] by (simp add: policy_blocked_turn_def case_prod_unfold flags_bind_trigger)

lemma flags_pipeline: "same_flags c (snd (run_pipeline E oid audio c))"
proof -
  let ?c0 = "snd (do_transition E SPEAKING_DETECTED c)"
  have p: "same_flags ?c0 (?c0\<lparr>cs_pipe := p\<rparr>)" "same_flags ?c0 (?c0\<lparr>cs_pipe := p, cs_failure_count := 0\<rparr>)" for p
    by (simp_all add: same_flags_def)
  note chain = flags.frame_trans [OF p(1) flags_failed] flags.frame_trans [OF p(2) flags_bind_trigger]
    flags.frame_trans [OF p(2) flags_blocked] flags.frame_trans [OF p(2) flags_answer]
  have "same_flags ?c0 (snd (run_pipeline E oid audio c))"
    using p(1) chain by (auto simp: run_pipeline_def case_prod_unfold Let_def flags.frame_refl split: sum.splits)
  with flags_do_transition show ?thesis by (rule flags.frame_trans)
qed

lemma flags_audio: "same_flags c (snd (handle_audio E oid data c))"
proof -
  have "same_flags c (c\<lparr>cs_last_activity := t, cs_audio_buffer := b\<rparr>)" "same_flags c (c\<lparr>cs_last_activity := t\<rparr>)" for t b
    by (simp_all add: same_flags_def)
  note k = this flags.frame_trans [OF this(1) flags_pipeline]
  show ?thesis using k by (simp add: handle_audio_def Let_def)
qed

lemma flags_control:
  assumes "cm_action msg \<noteq> Some ''hangup''"
  shows "same_flags c (snd (handle_control E oid msg c))"
proof -
  let ?c1 = "c\<lparr>cs_last_activity := ce_now E\<rparr>"
  have k: "same_flags c ?c1" "same_flags c (?c1\<lparr>cs_listening := b\<rparr>)" "same_flags c (?c1\<lparr>cs_listening := b, cs_audio_buffer := []\<rparr>)" for b
    by (simp_all add: same_flags_def)
  have "(case cm_action msg of None \<Rightarrow> [] | Some a \<Rightarrow> a) \<noteq> ''hangup''" using assms by (auto split: option.split)
  then show ?thesis
    using k flags.frame_trans [OF k(3) flags_do_transition] flags.frame_trans [OF k(3) flags_pipeline]
      flags.frame_trans [OF k(1) flags_trigger]
    by (simp add: handle_control_def Let_def case_prod_unfold)
qed

definition ended_in :: "'w session_db \<Rightarrow> string \<Rightarrow> 'w \<Rightarrow> bool" where
  "ended_in S sid w \<longleftrightarrow> r_get_state S (session_key S sid None) w = None \<and>
     (\<exists>d. m_find_session S sid w = Some d \<and> sd_status d = ''ENDED'')"

lemma end_session_ends:
  assumes "session_db_laws S" and "no_outage S" and "ce_db E = S" and "stored S (or_session_id oid) (cs_world c)" and "\<not> cs_closed c"
  shows "\<exists>c'. end_session E oid reason c = (Inr [state_evt ENDED], c') \<and> cs_closed c' \<and> cs_should_close c' \<and>
    ended_in S (or_session_id oid) (cs_world c')"
proof -
  obtain c' where c': "end_session E oid reason c = (Inr [state_evt ENDED], c')" "cs_closed c'" "cs_should_close c'"
    "cs_world c' = snd (repo_end_session S (ce_now E) (or_session_id oid) reason (Some (cs_fsm c')) (cs_world c))"
    using end_session_open [OF assms(5), of E oid reason] assms(3) by auto
  moreover obtain d where "m_find_session S (or_session_id oid) (cs_world c) = Some d"
    using assms(4) by (auto simp: stored_def)
  ultimately have "ended_in S (or_session_id oid) (cs_world c')"
    using assms(2) by (simp add: ended_in_def repo_end_session_def coherent_simps session_db_rules [OF assms(1)])
  with c' show ?thesis by blast
qed

lemma end_session_control:
  assumes "cm_action msg = Some ''hangup''"
  shows "handle_control E oid msg c = end_session E oid ''client_hangup'' (c\<lparr>cs_last_activity := ce_now E\<rparr>)"
  using assms by (simp add: handle_control_def Let_def)

subsection \<open>The loop\<close>

text \<open>One message: the session's part of the stores is kept, and a session it closes has ended in the stores.\<close>

lemma message_keeps:
  assumes "gateway_laws G" and "gateway_up G" and "stored (gw_db G) (or_session_id oid) (cs_world c)"
    and "\<not> cs_closed c" and "handle_message G oid (turn_env G now pe) rb rt c = (r, c')"
  shows "session_only G (or_session_id oid) t (cs_world c) (cs_world c')"
    and "same_flags c c' \<or>
      cs_closed c' \<and> cs_should_close c' \<and> ended_in (gw_db G) (or_session_id oid) (cs_world c') \<and> (\<exists>es. r = Inr es)"
proof -
  let ?E = "turn_env G now pe"
  have db: "ce_db ?E = gw_db G" by (simp add: turn_env_def)
  have "session_only G (or_session_id oid) t (cs_world c) (cs_world (snd (handle_message G oid ?E rb rt c)))"
    using gws.keeps_world_audio [OF db refl, where t = t and c = c and data = "the rb" and oid = oid]
      gws.keeps_world_control [OF db refl, where t = t and c = c and oid = oid]
    by (simp add: handle_message_def gws.frame_refl split: json_text.split)
  then show "session_only G (or_session_id oid) t (cs_world c) (cs_world c')" using assms(5) by simp
  have hangup: "\<exists>es c'. handle_control ?E oid m c = (Inr es, c') \<and> cs_closed c' \<and> cs_should_close c' \<and>
      ended_in (gw_db G) (or_session_id oid) (cs_world c')" if "cm_action m = Some ''hangup''" for m
    using end_session_ends [OF gateway_rules(1) [OF assms(1)] _ db, where c = "c\<lparr>cs_last_activity := ce_now ?E\<rparr>" and oid = oid
        and reason = "''client_hangup''"] assms(2-4)
    by (auto simp: end_session_control [OF that] gateway_up_def)
  show "same_flags c c' \<or>
      cs_closed c' \<and> cs_should_close c' \<and> ended_in (gw_db G) (or_session_id oid) (cs_world c') \<and> (\<exists>es. r = Inr es)"
  proof (cases "\<exists>m. handle_message G oid ?E rb rt c = handle_control ?E oid m c \<and> cm_action m = Some ''hangup''")
    case True
    with hangup assms(5) show ?thesis by fastforce
  next
    case False
    have ctl: "same_flags c (snd (handle_control ?E oid m c))" if "handle_message G oid ?E rb rt c = handle_control ?E oid m c" for m
      using False that by (intro flags_control) auto
    have "same_flags c (snd (handle_message G oid ?E rb rt c))"
      using flags_audio [of c ?E oid "the rb"] ctl
      by (auto simp: handle_message_def flags.frame_refl split: json_text.split)
    with assms(5) show ?thesis by simp
  qed
qed

text \<open>The other handlers do not touch this session, its lease or the tenant's counter.\<close>

definition undisturbed :: "'w gateway \<Rightarrow> string \<Rightarrow> string \<Rightarrow> ('w \<Rightarrow> 'w) \<Rightarrow> bool" where
  "undisturbed G sid t f \<longleftrightarrow> (\<forall>w. session_view (gw_db G) sid (f w) = session_view (gw_db G) sid w \<and> calls G t (f w) = calls G t w)"

definition serving :: "'w gateway \<Rightarrow> string \<Rightarrow> string \<Rightarrow> int \<Rightarrow> 'w \<Rightarrow> bool" where
  "serving G sid t n w \<longleftrightarrow> lease_held (gw_db G) sid w \<and> stored (gw_db G) sid w \<and> calls G t w = n"

lemma serving_only: "gateway_laws G \<Longrightarrow> session_only G sid t w w' \<Longrightarrow> serving G sid t n w \<Longrightarrow> serving G sid t n w'"
  by (simp add: serving_def session_only_def)

lemma serving_others: "undisturbed G sid t f \<Longrightarrow> serving G sid t n w \<Longrightarrow> serving G sid t n (f w)"
  by (simp add: serving_def undisturbed_def session_view_def stored_def)

definition loop_inv :: "'w gateway \<Rightarrow> orch_id \<Rightarrow> int \<Rightarrow> ('w, 'q) call_state \<Rightarrow> bool" where
  "loop_inv G oid n c \<longleftrightarrow> serving G (or_session_id oid) (or_tenant_id oid) n (cs_world c) \<and> \<not> cs_closed c \<and> \<not> cs_should_close c"

definition loop_post :: "'w gateway \<Rightarrow> orch_id \<Rightarrow> int \<Rightarrow> loop_exit \<Rightarrow> ('w, 'q) call_state \<Rightarrow> bool" where
  "loop_post G oid n x c \<longleftrightarrow> serving G (or_session_id oid) (or_tenant_id oid) n (cs_world c) \<and>
     (cs_closed c \<longrightarrow> x = LoopBreak \<and> ended_in (gw_db G) (or_session_id oid) (cs_world c)) \<and>
     (\<forall>e. x = LoopRaised e \<longrightarrow> \<not> is_Exception e)"

lemma loop_post_break: "loop_inv G oid n c \<Longrightarrow> loop_post G oid n LoopBreak c"
  by (simp add: loop_post_def loop_inv_def)

lemma loop_post_raised:
  "loop_inv G oid n c \<Longrightarrow> loop_raised pe e (sd, c) = (x, (sd', c')) \<Longrightarrow> loop_post G oid n x c'"
  by (auto simp: loop_raised_def loop_post_def loop_inv_def split: if_splits)

lemma ws_loop_post:
  assumes "gateway_laws G" and "gateway_up G"
    and "\<forall>t\<in>set turns. undisturbed G (or_session_id oid) (or_tenant_id oid) (wt_others t)"
    and "loop_inv G oid n c" and "ws_loop G oid turns (sd, c) = (x, (sd', c'))"
  shows "loop_post G oid n x c'"
  using assms(3-5)
proof (induction turns arbitrary: sd c)
  case Nil
  then show ?case by (simp add: loop_post_def loop_inv_def)
next
  case (Cons t ts)
  let ?sd = "fold drain_step (wt_sends t) sd"
  let ?c = "c\<lparr>cs_world := wt_others t (cs_world c)\<rparr>"
  have inv: "loop_inv G oid n ?c"
    using Cons.prems(1,2) serving_others [where f = "wt_others t"] by (simp add: loop_inv_def)
  have IH: "loop_post G oid n x c'" if "loop_inv G oid n c1" "ws_loop G oid ts (s1, c1) = (x, (sd', c'))" for s1 c1
    using Cons.IH [OF _ that] Cons.prems(1) by simp
  show ?case
  proof (cases "is_idle_timeout (wt_checked_at t) c")
    case True
    then show ?thesis using Cons.prems(2,3) by (auto simp: loop_post_def loop_inv_def)
  next
    case False
    note step = Cons.prems(3) [simplified, unfolded Let_def, simplified False if_False]
    show ?thesis
    proof (cases "wt_msg t")
      case (WsReceive rb rt)
      obtain r c2 where run: "handle_message G oid (turn_env G (wt_now t) (wt_pipe t)) rb rt ?c = (r, c2)" by fastforce
      have st: "stored (gw_db G) (or_session_id oid) (cs_world ?c)" "\<not> cs_closed ?c"
        using inv by (simp_all add: loop_inv_def serving_def)
      note keeps = message_keeps [OF assms(1,2) st run]
      have "serving G (or_session_id oid) (or_tenant_id oid) n (cs_world c2)"
        using serving_only [OF assms(1) keeps(1)] inv by (simp add: loop_inv_def)
      then have cases: "loop_inv G oid n c2 \<or> (\<exists>es. r = Inr es) \<and> cs_should_close c2 \<and> loop_post G oid n LoopBreak c2"
        using keeps(2) inv by (auto simp: same_flags_def loop_inv_def loop_post_def)
      show ?thesis
      proof (cases r)
        case (Inl e)
        with cases step WsReceive run show ?thesis by (auto intro: loop_post_raised)
      next
        case (Inr es)
        with cases step WsReceive run show ?thesis
          by (auto simp: Let_def loop_inv_def split: if_splits intro: IH [unfolded loop_inv_def])
      qed
    qed (use step in \<open>auto intro: IH [OF inv] loop_post_raised [OF inv] loop_post_break [OF inv]\<close>)
  qed
qed

subsection \<open>The connection\<close>

text \<open>A cached session has its document; the repository creates the document first and never deletes it.\<close>

definition cached_stored :: "'w session_db \<Rightarrow> string \<Rightarrow> 'w \<Rightarrow> bool" where
  "cached_stored S sid w \<longleftrightarrow> r_get_state S (session_key S sid None) w = None \<or> stored S sid w"

lemma restore_hot_stored:
  assumes "session_db_laws S" and "no_outage S" and "cached_stored S sid w" and "restore_hot_state S sid w = (Inr (Some h), w1)"
  shows "stored S sid w1"
  using assms(2-4)
  by (auto simp: restore_hot_state_def get_session_state_def get_by_id_def get_recent_history_def no_outage_def
      cached_stored_def stored_def set_session_state_def Let_def mongo_session_rules [OF assms(1)]
      split: option.splits if_splits)

lemma restore_or_create_stored:
  assumes "session_db_laws S" and "no_outage S" and "cached_stored S (or_session_id oid) w"
    and "restore_or_create_orchestrator S now oid p w = (Inr (co, es), w')"
  shows "stored S (or_session_id oid) w'"
proof -
  obtain hot w1 where hot: "restore_hot_state S (or_session_id oid) w = (Inr hot, w1)"
    using assms(4) by (auto simp: restore_or_create_orchestrator_def io_bind_def split: prod.splits sum.splits)
  show ?thesis
  proof (cases hot)
    case None
    with hot assms(2,4) show ?thesis
      by (auto simp: restore_or_create_orchestrator_def io_bind_def repo_create_def stored_def set_session_state_def
          no_outage_def case_prod_unfold Let_def mongo_session_rules [OF assms(1)] split: prod.splits sum.splits if_splits bool.splits)
  next
    case (Some h)
    with hot have "stored S (or_session_id oid) w1" using restore_hot_stored [OF assms(1-3)] by simp
    with Some hot assms(4) show ?thesis
      by (auto simp: restore_or_create_orchestrator_def Let_def split: if_splits)
  qed
qed

lemma take_lease:
  assumes "gateway_laws G" and "gateway_up G"
  obtains w1 where "acquire_session_lease (gw_db G) sid None w = (\<not> lease_held (gw_db G) sid w, w1)"
    and "lease_held (gw_db G) sid w1" and "calls G t w1 = calls G t w"
    and "r_get_state (gw_db G) (session_key (gw_db G) sid None) w1 = r_get_state (gw_db G) (session_key (gw_db G) sid None) w"
    and "m_find_session (gw_db G) sid w1 = m_find_session (gw_db G) sid w"
proof
  let ?w = "snd (r_set_nx (gw_db G) (lease_key (gw_db G) sid None) LEASE_TTL w)"
  show "acquire_session_lease (gw_db G) sid None w = (\<not> lease_held (gw_db G) sid w, ?w)"
    using assms(2) by (simp add: acquire_session_lease_def acquire_lease_def lease_held_def gateway_up_def no_outage_def)
qed (simp_all add: lease_rules [OF assms(1)] apart_rules [OF assms(1)])

lemma release_view:
  assumes "gateway_laws G" and "gateway_up G"
  shows "\<not> lease_held (gw_db G) sid (release_session_lease (gw_db G) sid None w)"
    and "calls G t (release_session_lease (gw_db G) sid None w) = calls G t w"
    and "ended_in (gw_db G) sid (release_session_lease (gw_db G) sid None w) = ended_in (gw_db G) sid w"
  using assms(2)
  by (simp_all add: release_session_lease_def release_lease_def gateway_up_def no_outage_def ended_in_def
      lease_rules [OF assms(1)] apart_rules [OF assms(1)] session_db_rules [OF gateway_rules(1) [OF assms(1)]])

lemma finally_post:
  assumes "gateway_laws G" and "gateway_up G" and "loop_post G oid n x c" and "x \<noteq> LoopWaiting"
    and "r = ws_finally G oid now pe sends x (sd, c)"
  shows "wr_outcome r \<in> {WsFinished, WsRaised CancelledError}"
    and "\<not> lease_held (gw_db G) (or_session_id oid) (wr_world r)"
    and "calls G (or_tenant_id oid) (wr_world r) = max 0 (n - 1)"
    and "ended_in (gw_db G) (or_session_id oid) (wr_world r)"
proof -
  let ?S = "gw_db G" and ?sid = "or_session_id oid" and ?E = "turn_env G now pe"
  have db: "ce_db ?E = ?S" by (simp add: turn_env_def)
  have serving: "serving G ?sid (or_tenant_id oid) n (cs_world c)" using assms(3) by (simp add: loop_post_def)
  obtain es c1 where fin: "end_session ?E oid ''connection_closed'' c = (Inr es, c1)" and ended: "ended_in ?S ?sid (cs_world c1)"
  proof (cases "cs_closed c")
    case True
    then show thesis using that [of "[]" c] assms(3) by (simp add: end_session_closed loop_post_def)
  next
    case False
    then show thesis
      using end_session_ends [OF gateway_rules(1) [OF assms(1)] _ db, where c = c and oid = oid and reason = "''connection_closed''"]
        assms(2) serving that by (auto simp: gateway_up_def serving_def)
  qed
  have "session_only G ?sid (or_tenant_id oid) (cs_world c) (cs_world c1)"
    using gws.keeps_world_end [OF db refl, where c = c and oid = oid and reason = "''connection_closed''"] fin by simp
  then have calls: "calls G (or_tenant_id oid) (cs_world c1) = n"
    using assms(1) serving by (simp add: session_only_def serving_def)
  have r: "wr_world r = decrement_session_count (gw_limits G) (or_tenant_id oid)
      (release_session_lease ?S ?sid None (cs_world c1))"
    "wr_outcome r = (case x of LoopRaised e \<Rightarrow> WsRaised e | _ \<Rightarrow> WsFinished)"
    using assms(5) fin by (simp_all add: ws_finally_def)
  have view: "session_view ?S ?sid (wr_world r) = session_view ?S ?sid (release_session_lease ?S ?sid None (cs_world c1))"
    unfolding r(1) by (rule view_counters(2) [OF assms(1)])
  show "wr_outcome r \<in> {WsFinished, WsRaised CancelledError}"
    using r(2) assms(3,4) by (cases x) (auto simp: loop_post_def is_Exception_def)
  show "\<not> lease_held ?S ?sid (wr_world r)" "ended_in ?S ?sid (wr_world r)"
    using view release_view(1,3) [OF assms(1,2), of ?sid "cs_world c1"] ended by (simp_all add: session_view_def ended_in_def)
  show "calls G (or_tenant_id oid) (wr_world r) = max 0 (n - 1)"
    unfolding r(1) by (simp add: calls_counters [OF assms(1,2)] release_view(2) [OF assms(1,2)] calls)
qed

text \<open>A connection that was served: what holds while it is open and after it.\<close>

definition served :: "'w gateway \<Rightarrow> orch_id \<Rightarrow> int \<Rightarrow> 'w ws_result \<Rightarrow> bool" where
  "served G oid n r \<longleftrightarrow>
     (if wr_outcome r = WsStillOpen then serving G (or_session_id oid) (or_tenant_id oid) (n + 1) (wr_world r)
      else wr_outcome r \<in> {WsFinished, WsRaised CancelledError} \<and> \<not> lease_held (gw_db G) (or_session_id oid) (wr_world r) \<and>
        calls G (or_tenant_id oid) (wr_world r) = max 0 n \<and> ended_in (gw_db G) (or_session_id oid) (wr_world r))"

lemma serve_session_served:
  assumes "gateway_laws G" and "gateway_up G"
    and "\<forall>t\<in>set turns. undisturbed G (or_session_id oid) (or_tenant_id oid) (wt_others t)"
    and "serving G (or_session_id oid) (or_tenant_id oid) n (cs_world c)" and "\<not> cs_closed c" and "\<not> cs_should_close c"
  shows "served G oid n (serve_session G oid now pe turns sends es c)"
proof -
  let ?sd = "enqueue_events es (new_sender DEFAULT_MAX_QUEUE_SIZE)"
  let ?c = "c\<lparr>cs_world := snd (increment_session_count (gw_limits G) (or_tenant_id oid) (cs_world c))\<rparr>"
  have "loop_inv G oid (n + 1) ?c"
    using assms(4-6) view_counters(1) [OF assms(1), of "or_session_id oid" "or_tenant_id oid" "cs_world c"]
    by (simp add: loop_inv_def serving_def calls_counters [OF assms(1,2)] session_view_def stored_def)
  note post = ws_loop_post [OF assms(1-3) this, of ?sd]
  obtain x sd' c' where run: "ws_loop G oid turns (?sd, ?c) = (x, (sd', c'))" by (metis surj_pair)
  note post = post [OF this]
  show ?thesis
  proof (cases "x = LoopWaiting")
    case True
    with run post show ?thesis by (simp add: serve_session_def served_def loop_post_def)
  next
    case False
    with run have r: "serve_session G oid now pe turns sends es c = ws_finally G oid now pe sends x (sd', c')"
      by (cases x) (simp_all add: serve_session_def)
    from finally_post [OF assms(1,2) post False refl, of now pe sends sd'] show ?thesis
      unfolding r served_def by auto
  qed
qed

text \<open>The checks before the lease, and who passes them.\<close>

definition caller :: "'w gateway \<Rightarrow> string option \<Rightarrow> string \<Rightarrow> string \<Rightarrow> 'w \<Rightarrow> orch_id option" where
  "caller G origin token sid w =
     (case gw_decode G token of
        None \<Rightarrow> None
      | Some claims \<Rightarrow>
          (let t = (case tc_tenant_id claims of None \<Rightarrow> [] | Some t \<Rightarrow> t);
               s = (case tc_sub claims of None \<Rightarrow> [] | Some s \<Rightarrow> s)
           in if is_origin_allowed (gw_settings G) origin \<and> t \<noteq> [] \<and> s \<noteq> [] \<and>
                 fst (ks_is_active (gw_kill G) (gw_cache G) TENANT t w) \<noteq> Inr True
              then Some \<lparr>or_session_id = sid, or_tenant_id = t, or_client_id = s, or_policy_level = G1\<rparr>
              else None))"

definition same_view :: "'w gateway \<Rightarrow> string \<Rightarrow> 'w \<Rightarrow> 'w \<Rightarrow> bool" where
  "same_view G sid w w' \<longleftrightarrow> session_view (gw_db G) sid w' = session_view (gw_db G) sid w \<and> (\<forall>t. calls G t w' = calls G t w)"

lemma kill_check_view:
  assumes "gateway_laws G"
  shows "same_view G sid w (snd (ks_is_active (gw_kill G) (gw_cache G) s t w))"
  by (auto simp: ks_is_active_def cache_kill_switch_def same_view_def apart_rules [OF assms] Let_def split: option.split)

lemma kill_check_raises: "ks_is_active K R s t w = (Inl e, w') \<Longrightarrow> is_Exception e"
  by (auto simp: ks_is_active_def Let_def is_Exception_def split: option.splits if_splits)

lemma vbgw_refused:
  assumes "gateway_laws G" and "caller G origin token sid w = None"
  shows "\<exists>code\<in>{4001, 4003, 4005}. \<exists>w'. vbgw_websocket G origin token sid p now end_now pe turns sends w = refuse code [] w' \<and>
    same_view G sid w w'"
proof -
  have k: "same_view G sid w w'" if "ks_is_active (gw_kill G) (gw_cache G) TENANT t w = (r, w')" for r w' t
    using kill_check_view [OF assms(1), of sid w TENANT t] that by simp
  have "same_view G sid w w" by (simp add: same_view_def)
  then show ?thesis
    using assms(2) by (auto simp: caller_def vbgw_websocket_def Let_def refuse_def
        split: option.splits if_splits prod.splits sum.splits bool.splits dest: k)
qed

lemma vbgw_passed:
  assumes "gateway_laws G" and "caller G origin token sid w = Some oid"
  shows "or_session_id oid = sid \<and> (\<exists>w1. same_view G sid w w1 \<and>
    vbgw_websocket G origin token sid p now end_now pe turns sends w = open_session G oid p now end_now pe turns sends w1)"
proof -
  obtain t where oid: "or_session_id oid = sid" "or_tenant_id oid = t"
    and run: "vbgw_websocket G origin token sid p now end_now pe turns sends w =
      (case ks_is_active (gw_kill G) (gw_cache G) TENANT t w of
         (Inr True, w1) \<Rightarrow> refuse 4003 [] w1
       | (Inr False, w1) \<Rightarrow> open_session G oid p now end_now pe turns sends w1
       | (Inl e, w1) \<Rightarrow>
           if is_Exception e then open_session G oid p now end_now pe turns sends w1
           else \<lparr>wr_outcome = WsRaised e, wr_direct = [], wr_sender = None, wr_world = w1\<rparr>)"
    and live: "fst (ks_is_active (gw_kill G) (gw_cache G) TENANT t w) \<noteq> Inr True"
    using assms(2) by (cases "gw_decode G token") (auto simp: caller_def vbgw_websocket_def Let_def split: if_splits)
  obtain r w1 where ks: "ks_is_active (gw_kill G) (gw_cache G) TENANT t w = (r, w1)" by fastforce
  then have "vbgw_websocket G origin token sid p now end_now pe turns sends w = open_session G oid p now end_now pe turns sends w1"
    using run live ks kill_check_raises
    by (cases r) (fastforce split: bool.splits)+
  with oid(1) kill_check_view [OF assms(1), of sid w TENANT t] ks show ?thesis by auto
qed

lemma open_session_held:
  assumes "gateway_laws G" and "gateway_up G" and "lease_held (gw_db G) (or_session_id oid) w"
  shows "\<exists>w'. open_session G oid p now end_now pe turns sends w = refuse 4002 [error_evt ''LEASE_CONFLICT'' MSG_LEASE_CONFLICT] w' \<and>
    same_view G (or_session_id oid) w w'"
proof -
  have "same_view G (or_session_id oid) w (snd (acquire_session_lease (gw_db G) (or_session_id oid) None w))"
    using assms(2,3) by (simp add: acquire_session_lease_def acquire_lease_def gateway_up_def no_outage_def same_view_def session_view_def
        lease_rules [OF assms(1)] apart_rules [OF assms(1)])
  moreover obtain w1 where "acquire_session_lease (gw_db G) (or_session_id oid) None w = (False, w1)"
    using take_lease [OF assms(1,2), of "or_session_id oid" w] assms(3) by metis
  ultimately show ?thesis by (auto simp: open_session_def)
qed

lemma open_session_ended:
  assumes "gateway_laws G" and "gateway_up G" and "\<not> lease_held (gw_db G) (or_session_id oid) w" and "ended_in (gw_db G) (or_session_id oid) w"
  shows "\<exists>w'. open_session G oid p now end_now pe turns sends w =
      \<lparr>wr_outcome = WsRaised PyMongoError, wr_direct = [], wr_sender = None, wr_world = w'\<rparr> \<and> lease_held (gw_db G) (or_session_id oid) w'"
proof -
  obtain w1 where w1: "acquire_session_lease (gw_db G) (or_session_id oid) None w = (True, w1)" "lease_held (gw_db G) (or_session_id oid) w1"
    "ended_in (gw_db G) (or_session_id oid) w1"
    using take_lease [OF assms(1,2), of "or_session_id oid" w] assms(3,4) unfolding ended_in_def by metis
  then obtain d where d: "m_find_session (gw_db G) (or_session_id oid) w1 = Some d" "sd_status d = ''ENDED''"
    "r_get_state (gw_db G) (session_key (gw_db G) (or_session_id oid) None) w1 = None" by (auto simp: ended_in_def)
  have hot: "restore_hot_state (gw_db G) (or_session_id oid) w1 = (Inr None, w1)"
    using d assms(2) by (simp add: restore_hot_state_def get_by_id_def get_session_state_def no_outage_def gateway_up_def)
  have "\<exists>w2. restore_or_create_orchestrator (gw_db G) now oid p w1 = (Inl PyMongoError, w2)"
    using assms(2) d mongo_session_rules(4) [OF gateway_rules(1) [OF assms(1)]] hot
    by (auto simp: restore_or_create_orchestrator_def repo_create_def gateway_up_def no_outage_def case_prod_unfold Let_def split: bool.split)
  then obtain w2 where w2: "restore_or_create_orchestrator (gw_db G) now oid p w1 = (Inl PyMongoError, w2)" ..
  then have "lease_held (gw_db G) (or_session_id oid) w2"
    using gws.keeps_restore_or_create [OF refl, of G oid t w1 now p] w1(2) assms(1) by (simp add: session_only_def)
  with w1(1) w2 show ?thesis by (simp add: open_session_def)
qed

lemma open_session_served:
  assumes "gateway_laws G" and "gateway_up G" and "cached_stored (gw_db G) (or_session_id oid) w"
    and "\<forall>t\<in>set turns. undisturbed G (or_session_id oid) (or_tenant_id oid) (wt_others t)"
    and "wr_sender (open_session G oid p now end_now pe turns sends w) \<noteq> None"
  shows "served G oid (calls G (or_tenant_id oid) w) (open_session G oid p now end_now pe turns sends w)"
proof -
  let ?S = "gw_db G" and ?sid = "or_session_id oid" and ?t = "or_tenant_id oid"
  have free: "\<not> lease_held ?S ?sid w"
    using open_session_held [OF assms(1,2), of oid w p now end_now pe turns sends] assms(5) by (auto simp: refuse_def)
  obtain w1 where lease: "acquire_session_lease ?S ?sid None w = (\<not> lease_held ?S ?sid w, w1)"
    and held: "lease_held ?S ?sid w1" and c1: "calls G ?t w1 = calls G ?t w"
    and hot: "r_get_state ?S (session_key ?S ?sid None) w1 = r_get_state ?S (session_key ?S ?sid None) w"
    and doc: "m_find_session ?S ?sid w1 = m_find_session ?S ?sid w"
    by (rule take_lease [OF assms(1,2), where t = ?t])
  obtain co w2 where roc: "restore_or_create_orchestrator ?S now oid p w1 = (co, w2)" by fastforce
  with lease free assms(5) obtain c es where co: "co = Inr (Some c, es)"
    by (auto simp: open_session_def refuse_def split: sum.splits prod.splits option.splits)
  have "session_only G ?sid ?t w1 w2"
    using gws.keeps_restore_or_create [OF refl, of G oid ?t w1 now p] roc by simp
  moreover have "stored ?S ?sid w2"
    using restore_or_create_stored [OF gateway_rules(1) [OF assms(1)], of oid w1 now p "Some c" es w2] assms(2,3) roc co hot doc
    by (simp add: gateway_up_def cached_stored_def stored_def)
  ultimately have "serving G ?sid ?t (calls G ?t w) w2" using assms(1) held c1 by (simp add: session_only_def serving_def)
  moreover have "\<not> cs_closed c" "\<not> cs_should_close c"
    using restore_or_create_call [OF roc [unfolded co]] by (auto simp: new_call_def)
  ultimately have "served G oid (calls G ?t w) (serve_session G oid end_now pe turns sends es (c\<lparr>cs_world := w2\<rparr>))"
    by (intro serve_session_served [OF assms(1,2,4)]) simp_all
  then show ?thesis using lease free roc co by (simp add: open_session_def)
qed

lemma no_4004: "wr_outcome (open_session G oid p now end_now pe turns sends w) \<noteq> WsClosed 4004"
proof -
  have serve: "wr_outcome (serve_session G oid end_now pe turns sends es c) \<noteq> WsClosed code" for es c code
    by (auto simp: serve_session_def ws_finally_def Let_def split: prod.split sum.split loop_exit.split)
  have "\<not> (\<exists>es w2. restore_or_create_orchestrator (gw_db G) now oid p w1 = (Inr (None, es), w2))" for w1
    using restore_or_create_call [of "gw_db G" now oid p w1 None] by blast
  then show ?thesis
    using serve by (auto simp: open_session_def refuse_def split: prod.splits sum.splits option.splits bool.splits)
qed

lemma served_over:
  assumes "gateway_laws G" and "gateway_up G" and "cached_stored (gw_db G) sid w"
    and "caller G origin token sid w = Some oid" and "\<forall>t\<in>set turns. undisturbed G sid (or_tenant_id oid) (wt_others t)"
    and "wr_sender (vbgw_websocket G origin token sid p now end_now pe turns sends w) \<noteq> None"
  shows "or_session_id oid = sid"
    and "served G oid (calls G (or_tenant_id oid) w) (vbgw_websocket G origin token sid p now end_now pe turns sends w)"
proof -
  let ?r = "vbgw_websocket G origin token sid p now end_now pe turns sends w"
  obtain w1 where w1: "or_session_id oid = sid" "same_view G sid w w1" "?r = open_session G oid p now end_now pe turns sends w1"
    using vbgw_passed [OF assms(1,4)] by blast
  then have "served G oid (calls G (or_tenant_id oid) w1) ?r"
    using open_session_served [OF assms(1,2), of oid w1 turns] assms(3,5,6)
    by (simp add: same_view_def session_view_def cached_stored_def stored_def)
  with w1 show "or_session_id oid = sid" "served G oid (calls G (or_tenant_id oid) w) ?r" by (simp_all add: same_view_def)
qed

section \<open>A reference gateway\<close>

text \<open>The session store, the switches and the counters of the components, side by side.\<close>

type_synonym gw_mem = "mem_store \<times> kill_mem \<times> (string \<Rightarrow> int option)"

definition at_fst :: "('a \<Rightarrow> 'r \<times> 'a) \<Rightarrow> 'a \<times> 'b \<Rightarrow> 'r \<times> 'a \<times> 'b" where
  "at_fst f w = (fst (f (fst w)), (snd (f (fst w)), snd w))"

definition gw_mem_db :: "gw_mem session_db" where
  "gw_mem_db =
     \<lparr>db_redis_settings = default_redis_settings, redis_ok = (\<lambda>_. True), mongo_ok = (\<lambda>_. True),
      r_get_state = (\<lambda>k w. r_get_state mem_up k (fst w)),
      r_setex_state = (\<lambda>k ttl h. apfst (r_setex_state mem_up k ttl h)),
      r_delete = (\<lambda>k. apfst (r_delete mem_up k)),
      r_set_nx = (\<lambda>k ttl. at_fst (r_set_nx mem_up k ttl)),
      m_insert_session = (\<lambda>d. at_fst (m_insert_session mem_up d)),
      m_find_session = (\<lambda>i w. m_find_session mem_up i (fst w)),
      m_update_session = (\<lambda>i f. at_fst (m_update_session mem_up i f)),
      m_find_and_update = (\<lambda>i f. at_fst (m_find_and_update mem_up i f)),
      m_insert_turn = (\<lambda>t. apfst (m_insert_turn mem_up t)),
      m_recent_turns = (\<lambda>i n w. m_recent_turns mem_up i n (fst w))\<rparr>"

definition demo_gateway :: "gw_mem gateway" where
  "demo_gateway =
     \<lparr>gw_settings = \<lparr>WS_ALLOWED_ORIGINS = [], WS_ALLOW_EMPTY_ORIGIN = True\<rparr>,
      gw_decode = (\<lambda>t. if t = ''jwt'' then Some \<lparr>tc_tenant_id = Some ''acme'', tc_sub = Some ''c1''\<rparr> else None),
      gw_loads = (\<lambda>_. JsonInvalid), gw_db = gw_mem_db,
      gw_kill = \<lparr>kd_ok = (\<lambda>_. True), kd_docs = (\<lambda>w. kd_docs mem_kill_db (fst (snd w))),
        kd_insert = (\<lambda>d. apsnd (apfst (kd_insert mem_kill_db d))),
        kd_find_active = (\<lambda>s t w. kd_find_active mem_kill_db s t (fst (snd w))),
        kd_deactivate = (\<lambda>i now w. (fst (kd_deactivate mem_kill_db i now (fst (snd w))),
          apsnd (apfst (\<lambda>k. snd (kd_deactivate mem_kill_db i now k))) w))\<rparr>,
      gw_cache = \<lparr>rd_settings = default_redis_settings, rd_ok = (\<lambda>_. True),
        rd_get = (\<lambda>k w. rd_get mem_kill_cache k (fst (snd w))),
        rd_set = (\<lambda>k v ttl. apsnd (apfst (rd_set mem_kill_cache k v ttl))),
        rd_setnx = (\<lambda>k v ttl w. (fst (rd_setnx mem_kill_cache k v ttl (fst (snd w))),
          apsnd (apfst (\<lambda>c. snd (rd_setnx mem_kill_cache k v ttl c))) w)),
        rd_delete = (\<lambda>k. apsnd (apfst (rd_delete mem_kill_cache k))),
        rd_expire = (\<lambda>k n. apsnd (apfst (rd_expire mem_kill_cache k n)))\<rparr>,
      gw_limits = \<lparr>lm_settings = default_redis_settings, lm_ok = (\<lambda>_. True),
        lm_get = (\<lambda>k w. lm_get mem_limits k (snd (snd w))),
        lm_incr = (\<lambda>k w. (fst (lm_incr mem_limits k (snd (snd w))), apsnd (apsnd (\<lambda>l. snd (lm_incr mem_limits k l))) w)),
        lm_decr = (\<lambda>k w. (fst (lm_decr mem_limits k (snd (snd w))), apsnd (apsnd (\<lambda>l. snd (lm_decr mem_limits k l))) w)),
        lm_set = (\<lambda>k n. apsnd (apsnd (lm_set mem_limits k n))),
        lm_expire = (\<lambda>k n. apsnd (apsnd (lm_expire mem_limits k n)))\<rparr>\<rparr>"

lemma gw_mem_db_laws: "session_db_laws gw_mem_db" "no_outage gw_mem_db"
  using mem_db_laws [of "\<lambda>_. True" "\<lambda>_. True"]
  by (simp_all add: session_db_laws_def redis_state_laws_def mongo_session_laws_def gw_mem_db_def at_fst_def no_outage_def)

lemma gw_mem_lease_laws: "lease_laws gw_mem_db"
  by (auto simp: lease_laws_def gw_mem_db_def at_fst_def mem_db_def mem_update_def)

lemma gw_mem_apart: "apart demo_gateway"
  by (simp add: apart_def demo_gateway_def session_view_def lease_held_def lease_key_def session_key_def calls_def gw_mem_db_def
      at_fst_def lm_value_def)

lemma demo_gateway_limits: "limit_laws (gw_limits demo_gateway)" "limits_up (gw_limits demo_gateway)"
  using mem_limits_laws by (simp_all add: demo_gateway_def limit_laws_def limits_up_def lm_value_def)

lemma demo_gateway_laws: "gateway_laws demo_gateway" "gateway_up demo_gateway"
  using gw_mem_db_laws gw_mem_lease_laws gw_mem_apart demo_gateway_limits
  by (simp_all add: gateway_laws_def gateway_up_def) (simp_all add: demo_gateway_def)

definition gw_start :: gw_mem where "gw_start = (empty_mem, no_switches, Map.empty)"

lemma demo_caller:
  assumes "km_docs (fst (snd w)) = []" and "km_cache (fst (snd w)) = Map.empty \<or> km_cache (fst (snd w)) = [''agentoe:kill_switch:tenant:acme'' \<mapsto> ''0'']"
  shows "caller demo_gateway None ''jwt'' ''s1'' w = Some demo_oid"
  using assms by (auto simp: caller_def demo_gateway_def is_origin_allowed_def ks_is_active_def get_kill_switch_cached_def
      kill_key_def scoped_key_def default_redis_settings_def mem_kill_cache_def mem_kill_db_def demo_oid_def Let_def)

text \<open>A client that connects and leaves.\<close>

definition demo_turn :: "(gw_mem, string \<Rightarrow> int option) ws_turn" where
  "demo_turn = \<lparr>wt_checked_at = 1, wt_sends = [], wt_others = id, wt_msg = WsDisconnect, wt_now = 1, wt_pipe = dead_pipe_env\<rparr>"

definition demo_connect :: "gw_mem \<Rightarrow> gw_mem ws_result" where
  "demo_connect w = vbgw_websocket demo_gateway None ''jwt'' ''s1'' demo_pipe_state 1 2 dead_pipe_env [demo_turn] [] w"

lemma demo_undisturbed: "\<forall>t\<in>set [demo_turn]. undisturbed demo_gateway sid t' (wt_others t)"
  by (simp add: demo_turn_def undisturbed_def)

lemmas demo_defs = demo_connect_def vbgw_websocket_def demo_gateway_def is_origin_allowed_def ks_is_active_def get_kill_switch_cached_def
      kill_key_def scoped_key_def default_redis_settings_def mem_kill_cache_def mem_kill_db_def gw_start_def no_switches_def Let_def
      cache_kill_switch_def open_session_def acquire_session_lease_def acquire_lease_def gw_mem_db_def at_fst_def mem_db_def empty_mem_def
      restore_or_create_orchestrator_def restore_hot_state_def get_session_state_def get_by_id_def repo_create_def set_session_state_def
      serve_session_def increment_session_count_def
      demo_turn_def ws_finally_def end_session_def do_transition_def new_call_def is_idle_timeout_def IDLE_TIMEOUT_MS_def turn_env_def
      repo_end_session_def mem_update_def delete_session_state_def release_session_lease_def release_lease_def decrement_session_count_def
      LUA_DEC_FLOOR_def mem_limits_def session_key_def lease_key_def can_transition_def with_fsm_def transition_def new_fsm_def apsnd_def apfst_def map_prod_def

lemma demo_connect_start:
  "wr_outcome (demo_connect gw_start) = WsFinished" "wr_sender (demo_connect gw_start) \<noteq> None"
  "km_docs (fst (snd (wr_world (demo_connect gw_start)))) = []"
  "km_cache (fst (snd (wr_world (demo_connect gw_start)))) = [''agentoe:kill_switch:tenant:acme'' \<mapsto> ''0'']"
  by (simp_all add: demo_defs)

lemma demo_connect_again:
  "km_docs (fst (snd (wr_world (demo_connect (wr_world (demo_connect gw_start)))))) = []"
  "km_cache (fst (snd (wr_world (demo_connect (wr_world (demo_connect gw_start)))))) = [''agentoe:kill_switch:tenant:acme'' \<mapsto> ''0'']"
  by (simp_all add: demo_defs)

lemma demo_start_caller: "caller demo_gateway None ''jwt'' ''s1'' gw_start = Some demo_oid"
  by (rule demo_caller) (simp_all add: gw_start_def no_switches_def)

lemma demo_start_ok:
  "cached_stored (gw_db demo_gateway) ''s1'' gw_start" "calls demo_gateway t gw_start = 0"
  by (simp_all add: cached_stored_def calls_def lm_value_def demo_gateway_def gw_mem_db_def mem_db_def gw_start_def empty_mem_def mem_limits_def)

section \<open>Properties\<close>



text \<open>
  C4. One connection per session. While the lease of a session is held, every further connection for it, with any
  token, origin and messages, is closed with 4001, 4002, 4003 or 4005, is not served, and leaves the session, the lease
  and every counter as they are. The code 4004 that the protocol documents is never sent, whatever the stores do.
\<close>

theorem one_connection_per_session:
  assumes "gateway_laws G" and "gateway_up G"
    and "r = vbgw_websocket G origin token sid p now end_now pe turns sends w"
  shows "(lease_held (gw_db G) sid w \<longrightarrow>
      wr_outcome r \<in> WsClosed ` {4001, 4002, 4003, 4005} \<and> wr_sender r = None \<and>
      session_view (gw_db G) sid (wr_world r) = session_view (gw_db G) sid w \<and> (\<forall>t. calls G t (wr_world r) = calls G t w)) \<and>
    wr_outcome r \<noteq> WsClosed 4004"
proof (cases "caller G origin token sid w")
  case None
  from vbgw_refused [OF assms(1) None, of p now end_now pe turns sends] show ?thesis
    unfolding assms(3) by (auto simp: refuse_def same_view_def)
next
  case (Some oid)
  obtain w1 where w1: "or_session_id oid = sid" "same_view G sid w w1" "r = open_session G oid p now end_now pe turns sends w1"
    using vbgw_passed [OF assms(1) Some] assms(3) by blast
  have "wr_outcome r \<noteq> WsClosed 4004"
    unfolding w1(3) by (rule no_4004)
  moreover from open_session_held [OF assms(1,2), of oid w1 p now end_now pe turns sends] w1
  have "lease_held (gw_db G) sid w \<longrightarrow> (\<exists>w'. r = refuse 4002 [error_evt ''LEASE_CONFLICT'' MSG_LEASE_CONFLICT] w' \<and> same_view G sid w1 w')"
    by (auto simp: same_view_def session_view_def)
  ultimately show ?thesis using w1(2) by (auto simp: refuse_def same_view_def)
qed

theorem one_connection_per_session_witness:
  "\<exists>w. wr_outcome (demo_connect w) \<in> WsClosed ` {4001, 4002, 4003, 4005} \<and> lease_held gw_mem_db ''s1'' w"
proof -
  obtain w where w: "lease_held (gw_db demo_gateway) ''s1'' w"
    by (rule take_lease [OF demo_gateway_laws, of "''s1''" gw_start])
  have "gw_db demo_gateway = gw_mem_db" by (simp add: demo_gateway_def)
  with w one_connection_per_session [OF demo_gateway_laws demo_connect_def, of w] show ?thesis
    by (metis (no_types))
qed

text \<open>
  C5. The documented reconnect fails after an orderly end. Once a connection is over, the next one for the
  same session that passes the checks ends in an unhandled \<open>PyMongoError\<close> and leaves the lease taken; the
  one after that is closed with 4002.
\<close>

theorem reconnect_locks_out:
  assumes "gateway_laws G" and "gateway_up G" and "cached_stored (gw_db G) sid w"
    and "caller G origin token sid w = Some oid"
    and "\<forall>t\<in>set turns. undisturbed G sid (or_tenant_id oid) (wt_others t)"
    and "r = vbgw_websocket G origin token sid p now end_now pe turns sends w" and "wr_sender r \<noteq> None" and "wr_outcome r \<noteq> WsStillOpen"
    and "caller G origin token sid (wr_world r) = Some oid'"
    and "r' = vbgw_websocket G origin token sid p' now' end_now' pe' turns' sends' (wr_world r)"
    and "caller G origin token sid (wr_world r') = Some oid''"
    and "r'' = vbgw_websocket G origin token sid p'' now'' end_now'' pe'' turns'' sends'' (wr_world r')"
  shows "wr_outcome r' = WsRaised PyMongoError \<and> wr_sender r' = None \<and> lease_held (gw_db G) sid (wr_world r') \<and>
    wr_outcome r'' = WsClosed 4002"
proof -
  from served_over [OF assms(1-5) assms(7) [unfolded assms(6)]] assms(6,8)
  have over: "\<not> lease_held (gw_db G) sid (wr_world r)" "ended_in (gw_db G) sid (wr_world r)"
    by (auto simp: served_def split: if_splits)
  obtain w2 where w2: "or_session_id oid' = sid" "same_view G sid (wr_world r) w2" "r' = open_session G oid' p' now' end_now' pe' turns' sends' w2"
    using vbgw_passed [OF assms(1,9)] assms(10) by blast
  then have "\<not> lease_held (gw_db G) (or_session_id oid') w2" "ended_in (gw_db G) (or_session_id oid') w2"
    using over by (simp_all add: same_view_def session_view_def ended_in_def)
  from open_session_ended [OF assms(1,2) this, of p' now' end_now' pe' turns' sends'] w2
  have r': "wr_outcome r' = WsRaised PyMongoError" "wr_sender r' = None" "lease_held (gw_db G) sid (wr_world r')" by auto
  obtain w3 where w3: "or_session_id oid'' = sid" "same_view G sid (wr_world r') w3" "r'' = open_session G oid'' p'' now'' end_now'' pe'' turns'' sends'' w3"
    using vbgw_passed [OF assms(1,11)] assms(12) by blast
  then have "lease_held (gw_db G) (or_session_id oid'') w3" using r'(3) by (simp add: same_view_def session_view_def)
  from open_session_held [OF assms(1,2) this, of p'' now'' end_now'' pe'' turns'' sends''] w3 r' show ?thesis
    by (auto simp: refuse_def)
qed

theorem reconnect_locks_out_witness:
  "let r' = demo_connect (wr_world (demo_connect gw_start)) in
   wr_outcome r' = WsRaised PyMongoError \<and> wr_outcome (demo_connect (wr_world r')) = WsClosed 4002"
  using reconnect_locks_out [OF demo_gateway_laws demo_start_ok(1) demo_start_caller demo_undisturbed demo_connect_def
      demo_connect_start(2) _ demo_caller demo_connect_def demo_caller demo_connect_def]
    demo_connect_start demo_connect_again
  by (simp add: Let_def)

end
