(* ===== verification/Grpc_Stream.thy ===== *)
theory Grpc_Stream
  imports Gateway
begin

text \<open>
  The gRPC endpoint of the bridge, \<^verbatim>\<open>app/grpc_server/voicebot_service.py\<close>: the caller's identity from the
  metadata, the mapping of orchestrator events to responses, the reader that feeds the orchestrator chunk
  by chunk, and the cleanup. The reader stops when the client closes the stream, when it returns early, when
  a handler raises, or when it is cancelled while waiting for a chunk. The generated messages are records with
  the fields of \<^verbatim>\<open>contracts/proto/voicebot.proto\<close>.
\<close>

section \<open>Messages\<close>

datatype response_type = STT_RESULT | TTS_AUDIO | END_OF_TURN

record AiResponse =
  ai_type :: response_type
  ai_text_content :: ustr
  ai_audio_data :: bytes
  ai_clear_buffer :: bool

record AudioChunk =
  ck_session_id :: string
  ck_audio_data :: bytes
  ck_is_speaking :: bool
  ck_dtmf_digit :: string

definition MSG_DEFAULT_ERROR :: ustr where
  "MSG_DEFAULT_ERROR =
     [50724, 47448, 44032, 32, 48156, 49373, 54664, 49845, 45768, 45796, 46]"

definition MSG_DEFAULT_TRANSFER :: ustr where
  "MSG_DEFAULT_TRANSFER =
     [49345, 45812, 49324, 47196, 32, 50672, 44208, 54633, 45768, 45796, 46]"

definition text_response :: "ustr \<Rightarrow> AiResponse" where
  "text_response t = \<lparr>ai_type = STT_RESULT, ai_text_content = t, ai_audio_data = [], ai_clear_buffer = False\<rparr>"

definition end_of_turn :: AiResponse where
  "end_of_turn = \<lparr>ai_type = END_OF_TURN, ai_text_content = [], ai_audio_data = [], ai_clear_buffer = False\<rparr>"

definition clear_response :: AiResponse where
  "clear_response = \<lparr>ai_type = TTS_AUDIO, ai_text_content = [], ai_audio_data = [], ai_clear_buffer = True\<rparr>"

section \<open>Metadata\<close>

definition or_else :: "string option \<Rightarrow> string \<Rightarrow> string" where
  "or_else v d = (case v of None \<Rightarrow> d | Some s \<Rightarrow> if s = [] then d else s)"

definition extract_metadata :: "(string \<times> string) list \<Rightarrow> string \<times> string \<times> string" where
  "extract_metadata md =
     (let auth = or_else (map_of (rev md) ''authorization'') []
      in (or_else (map_of (rev md) ''x-tenant-id'') ''default'', or_else (map_of (rev md) ''x-client-id'') ''anonymous'',
          if starts_with ''bearer '' (map lower_char auth) then drop 7 auth else auth))"

section \<open>Events to responses\<close>

text \<open>\<open>p.get(key, default)\<close>; every value under these keys is a string.\<close>

definition payload_text :: "meta \<Rightarrow> string \<Rightarrow> ustr \<Rightarrow> ustr" where
  "payload_text p k d = (case dict_get p k of Some (VStr t) \<Rightarrow> t | _ \<Rightarrow> d)"

definition event_responses :: "OutboundEvent \<Rightarrow> AiResponse list" where
  "event_responses ev =
     (let name = oe_name ev; p = oe_payload ev
      in if name = ''stt_result'' then [text_response (payload_text p ''text'' [])]
         else if name = ''tts_ready''
         then (let audio_b64 = payload_text p ''audio_b64'' [];
                   audio = (if audio_b64 = [] then [] else case b64decode audio_b64 of None \<Rightarrow> [] | Some b \<Rightarrow> b)
               in [\<lparr>ai_type = TTS_AUDIO, ai_text_content = payload_text p ''text'' [], ai_audio_data = audio, ai_clear_buffer = False\<rparr>])
         else if name = ''pipeline_done'' then [end_of_turn]
         else if name = ''error'' then [text_response (of_str ''[ERROR] '' @ payload_text p ''message'' MSG_DEFAULT_ERROR)]
         else if name = ''transfer_update'' then [text_response (of_str ''[TRANSFER] '' @ payload_text p ''message'' MSG_DEFAULT_TRANSFER)]
         else [])"

definition outbound_to_responses :: "OutboundEvent list \<Rightarrow> AiResponse list" where
  "outbound_to_responses events =
     (let out = concat (map event_responses events);
          saw_pipeline_done = list_ex (\<lambda>ev. oe_name ev = ''pipeline_done'') events;
          saw_terminal_error = list_ex (\<lambda>ev. oe_name ev = ''error'') events
      in if saw_terminal_error \<and> \<not> saw_pipeline_done then out @ [end_of_turn] else out)"

section \<open>The reader\<close>

text \<open>
  The state shared by the reader and the cleanup: the local variables, the stores, the responses put on the
  queue, and the gauge of active sessions of the tenant.
\<close>

record ('w, 'q) stream_state =
  ss_session_id :: "string option"
  ss_orchestrator :: "('w, 'q) call_state option"
  ss_last_speaking :: bool
  ss_terminated_reason :: string
  ss_queue :: "AiResponse list"
  ss_active :: int
  ss_world :: 'w

record 'w stream_env =
  se_db :: "'w session_db"
  se_tenant_id :: string
  se_client_id :: string

datatype reader_exit = ReaderWaiting | ReaderReturned | ReaderRaised pyexc

definition put :: "AiResponse list \<Rightarrow> ('w, 'q) stream_state \<Rightarrow> ('w, 'q) stream_state" where
  "put rs s = s\<lparr>ss_queue := ss_queue s @ rs\<rparr>"

definition stream_oid :: "'w stream_env \<Rightarrow> string \<Rightarrow> orch_id" where
  "stream_oid V sid = \<lparr>or_session_id = sid, or_tenant_id = se_tenant_id V, or_client_id = se_client_id V, or_policy_level = G1\<rparr>"

text \<open>\<open>await emit(await orchestrator.<handler>)\<close>, on the orchestrator and the stores of the stream.\<close>

definition emit_call ::
  "(('w, 'q) call_state \<Rightarrow> (OutboundEvent list, ('w, 'q) call_state) io) \<Rightarrow> ('w, 'q) stream_state \<Rightarrow> (unit, ('w, 'q) stream_state) io" where
  "emit_call h s =
     (case ss_orchestrator s of
        None \<Rightarrow> (Inl (OtherException []), s)
      | Some c \<Rightarrow>
          (case h (c\<lparr>cs_world := ss_world s\<rparr>) of
             (Inl e, c') \<Rightarrow> (Inl e, s\<lparr>ss_orchestrator := Some c', ss_world := cs_world c'\<rparr>)
           | (Inr es, c') \<Rightarrow> (Inr (), put (outbound_to_responses es) (s\<lparr>ss_orchestrator := Some c', ss_world := cs_world c'\<rparr>))))"

definition control :: "string \<Rightarrow> control_msg" where
  "control action = \<lparr>cm_action = Some action, cm_reason = None, cm_context = None\<rparr>"

text \<open>
  The first chunk: the lease, then the orchestrator. \<open>Inr True\<close> goes on with the chunk, \<open>Inr False\<close> is an early
  return. The test for an empty identifier after \<open>or "anonymous"\<close> never holds.
\<close>

definition first_chunk ::
  "'w stream_env \<Rightarrow> ('w, 'q) call_env \<Rightarrow> 'q pipe_state \<Rightarrow> AudioChunk \<Rightarrow> ('w, 'q) stream_state \<Rightarrow> (bool, ('w, 'q) stream_state) io" where
  "first_chunk V E p chunk s =
     (let sid = (if ck_session_id chunk = [] then ''anonymous'' else ck_session_id chunk); t = se_tenant_id V
      in case acquire_session_lease (se_db V) sid (Some t) (ss_world s) of
           (False, w1) \<Rightarrow>
             (Inr False, put [text_response (of_str ''[ERROR] session already in progress (lease lock)''), end_of_turn]
                (s\<lparr>ss_session_id := None, ss_terminated_reason := ''lease_conflict'', ss_world := w1\<rparr>))
         | (True, w1) \<Rightarrow>
             (case restore_or_create_orchestrator (se_db V) (ce_now E) (stream_oid V sid) p w1 of
                (Inl e, w2) \<Rightarrow> (Inl e, s\<lparr>ss_session_id := Some sid, ss_world := w2\<rparr>)
              | (Inr (None, _), w2) \<Rightarrow>
                  (Inr False, put [text_response (of_str ''[ERROR] session ended''), end_of_turn]
                     (s\<lparr>ss_session_id := Some sid, ss_terminated_reason := ''server_error'', ss_world := w2\<rparr>))
              | (Inr (Some c, _), w2) \<Rightarrow>
                  io_bind (emit_call (handle_control E (stream_oid V sid) (control ''start_listening''))
                     (s\<lparr>ss_session_id := Some sid, ss_orchestrator := Some c, ss_active := ss_active s + 1, ss_world := w2\<rparr>))
                    (\<lambda>_ s1. (Inr True, s1))))"

definition chunk_body ::
  "'w stream_env \<Rightarrow> ('w, 'q) call_env \<Rightarrow> AudioChunk \<Rightarrow> string \<Rightarrow> ('w, 'q) stream_state \<Rightarrow> (unit, ('w, 'q) stream_state) io" where
  "chunk_body V E chunk sid s =
     (let oid = stream_oid V sid
      in if ck_dtmf_digit chunk \<noteq> [] then emit_call (handle_control E oid (control ''dtmf'')) s
         else
           (let is_speaking = ck_is_speaking chunk;
                s1 = (if is_speaking \<and> \<not> ss_last_speaking s then put [clear_response] s else s)
            in io_bind
                 (if \<not> is_speaking \<and> ss_last_speaking s
                  then io_bind (emit_call (handle_control E oid (control ''stop_listening'')) s1)
                         (\<lambda>_ s2. emit_call (handle_control E oid (control ''start_listening'')) s2)
                  else if ck_audio_data chunk \<noteq> [] then emit_call (handle_audio E oid (ck_audio_data chunk)) s1
                  else (Inr (), s1))
                 (\<lambda>_ s3. (Inr (), s3\<lparr>ss_last_speaking := is_speaking\<rparr>))))"

text \<open>One turn of \<open>async for chunk in request_iterator\<close>: \<open>Inr True\<close> waits for the next chunk.\<close>

definition read_chunk ::
  "'w stream_env \<Rightarrow> ('w, 'q) call_env \<Rightarrow> 'q pipe_state \<Rightarrow> AudioChunk \<Rightarrow> ('w, 'q) stream_state \<Rightarrow> (bool, ('w, 'q) stream_state) io" where
  "read_chunk V E p chunk s =
     io_bind (if ss_session_id s = None then first_chunk V E p chunk s else (Inr True, s))
       (\<lambda>go s1. if \<not> go then (Inr False, s1)
                else (case ss_session_id s1 of
                        None \<Rightarrow> (Inl (OtherException []), s1)
                      | Some sid \<Rightarrow> io_bind (chunk_body V E chunk sid s1) (\<lambda>_ s2. (Inr True, s2))))"

fun read_chunks ::
  "'w stream_env \<Rightarrow> 'q pipe_state \<Rightarrow> (('w, 'q) call_env \<times> AudioChunk) list \<Rightarrow> ('w, 'q) stream_state
   \<Rightarrow> reader_exit \<times> ('w, 'q) stream_state" where
  "read_chunks V p [] s = (ReaderWaiting, s)"
| "read_chunks V p ((E, chunk) # rest) s =
     (case read_chunk V E p chunk s of
        (Inl e, s1) \<Rightarrow> (ReaderRaised e, s1)
      | (Inr True, s1) \<Rightarrow> read_chunks V p rest s1
      | (Inr False, s1) \<Rightarrow> (ReaderReturned, s1))"

text \<open>
  How the reader ends: \<open>closed\<close> says that the client closed the stream after the last chunk; otherwise the wait
  is cancelled. Both are the client's doing.
\<close>

definition reader_end :: "(pyexc \<Rightarrow> ustr) \<Rightarrow> reader_exit \<times> ('w, 'q) stream_state \<Rightarrow> ('w, 'q) stream_state" where
  "reader_end exc_str xs =
     (case xs of
        (ReaderWaiting, s) \<Rightarrow> s\<lparr>ss_terminated_reason := ''client_hangup''\<rparr>
      | (ReaderReturned, s) \<Rightarrow> s
      | (ReaderRaised e, s) \<Rightarrow>
          if is_Exception e
          then put [text_response (of_str ''[ERROR] internal: '' @ exc_str e), end_of_turn] (s\<lparr>ss_terminated_reason := ''server_error''\<rparr>)
          else s\<lparr>ss_terminated_reason := ''client_hangup''\<rparr>)"

section \<open>Cleanup\<close>

text \<open>The lease goes first, the session is ended afterwards; another stream may run between the two.\<close>

definition cleanup_lease :: "'w stream_env \<Rightarrow> ('w, 'q) stream_state \<Rightarrow> ('w, 'q) stream_state" where
  "cleanup_lease V s =
     (case ss_session_id s of
        None \<Rightarrow> s
      | Some sid \<Rightarrow> s\<lparr>ss_world := release_session_lease (se_db V) sid (Some (se_tenant_id V)) (ss_world s)\<rparr>)"

definition cleanup_end :: "'w stream_env \<Rightarrow> ('w, 'q) call_env \<Rightarrow> ('w, 'q) stream_state \<Rightarrow> ('w, 'q) stream_state" where
  "cleanup_end V E s =
     (case ss_session_id s of
        None \<Rightarrow> s
      | Some sid \<Rightarrow>
          (let s1 = (case ss_orchestrator s of
                       None \<Rightarrow> s
                     | Some c \<Rightarrow>
                         (let c' = snd (end_session E (stream_oid V sid) (ss_terminated_reason s) (c\<lparr>cs_world := ss_world s\<rparr>))
                          in s\<lparr>ss_orchestrator := Some c', ss_world := cs_world c'\<rparr>))
           in s1\<lparr>ss_active := ss_active s1 - 1\<rparr>))"

definition new_stream :: "int \<Rightarrow> 'w \<Rightarrow> ('w, 'q) stream_state" where
  "new_stream active w = \<lparr>ss_session_id = None, ss_orchestrator = None, ss_last_speaking = False,
     ss_terminated_reason = ''normal'', ss_queue = [], ss_active = active, ss_world = w\<rparr>"

definition StreamSession ::
  "'w stream_env \<Rightarrow> 'q pipe_state \<Rightarrow> (pyexc \<Rightarrow> ustr) \<Rightarrow> ('w, 'q) call_env \<Rightarrow> (('w, 'q) call_env \<times> AudioChunk) list \<Rightarrow> int \<Rightarrow> 'w
   \<Rightarrow> ('w, 'q) stream_state" where
  "StreamSession V p exc_str E chunks active w =
     cleanup_end V E (cleanup_lease V (reader_end exc_str (read_chunks V p chunks (new_stream active w))))"

section \<open>Responses\<close>

lemma event_responses_end:
  "end_of_turn \<in> set (event_responses ev) \<longleftrightarrow> oe_name ev = ''pipeline_done''"
  by (simp add: event_responses_def Let_def text_response_def end_of_turn_def)

lemma outbound_end_of_turn:
  "end_of_turn \<in> set (outbound_to_responses es) \<longleftrightarrow> (\<exists>ev\<in>set es. oe_name ev \<in> {''pipeline_done'', ''error''})"
  by (auto simp: outbound_to_responses_def Let_def event_responses_end list_ex_iff)

lemma event_responses_simps [simp]:
  "event_responses (state_evt st) = []"
  "event_responses (evt ''stt_result'' [(''text'', VStr t), (''is_final'', VBool b)]) = [text_response t]"
  "event_responses (evt ''llm_chunk'' p) = []"
  "event_responses (evt ''pipeline_done'' p) = [end_of_turn]"
  by (simp_all add: event_responses_def evt_def state_evt_def payload_text_def)

lemma do_transition_events: "do_transition E to c = (es, c') \<Longrightarrow> es \<in> {[], [state_evt to]}"
  by (cases "to \<in> VALID_TRANSITIONS (fsm_state (cs_fsm c))") (auto dest: do_transition_ok [of _ _ E] simp: do_transition_refused)

lemma event_responses_tts:
  assumes "a \<noteq> []" and "\<forall>x\<in>set a. x < 256"
  shows "event_responses (evt ''tts_ready'' [(''audio_b64'', VStr (b64encode a)), (''text'', VStr t)]) =
    [\<lparr>ai_type = TTS_AUDIO, ai_text_content = t, ai_audio_data = a, ai_clear_buffer = False\<rparr>]"
proof -
  have "b64encode a \<noteq> []" using assms(1) by (cases a rule: b64encode.cases) simp_all
  then show ?thesis
    using b64_roundtrip [OF assms(2)] by (simp add: event_responses_def evt_def payload_text_def)
qed

section \<open>The lease of a stream\<close>

definition key_held :: "'w session_db \<Rightarrow> string \<Rightarrow> 'w \<Rightarrow> bool" where
  "key_held S k w \<longleftrightarrow> \<not> fst (r_set_nx S k LEASE_TTL w)"

definition stream_only :: "'w session_db \<Rightarrow> string \<Rightarrow> string \<Rightarrow> 'w \<Rightarrow> 'w \<Rightarrow> bool" where
  "stream_only S sid k w w' \<longleftrightarrow>
     (session_db_laws S \<and> lease_laws S \<and> k \<noteq> session_key S sid None \<longrightarrow>
        key_held S k w' = key_held S k w \<and> (stored S sid w \<longrightarrow> stored S sid w'))"

lemma key_held_rules:
  assumes "lease_laws S"
  shows "key_held S k' (snd (r_set_nx S k LEASE_TTL w)) \<longleftrightarrow> k' = k \<or> key_held S k' w"
    and "key_held S k' (r_delete S k w) \<longleftrightarrow> k' \<noteq> k \<and> key_held S k' w"
    and "k' \<noteq> k \<Longrightarrow> key_held S k' (r_setex_state S k ttl h w) = key_held S k' w"
    and "key_held S k (snd (m_insert_session S d w)) = key_held S k w"
    and "key_held S k (snd (m_update_session S i f w)) = key_held S k w"
    and "key_held S k (snd (m_find_and_update S i f w)) = key_held S k w"
    and "key_held S k (m_insert_turn S t w) = key_held S k w"
  using assms unfolding lease_laws_def key_held_def by simp_all

interpretation sst: session_frame "stream_only S sid k" S sid for S sid k
  by unfold_locales (auto simp: stream_only_def stored_def key_held_rules mongo_session_rules)

lemma tenant_lease_key [simp]:
  "lease_key S a (Some t) \<noteq> session_key S b None" "session_key S b None \<noteq> lease_key S a (Some t)"
  by (simp_all add: lease_key_def session_key_def scoped_key_def)

text \<open>A stream that has its orchestrator: the lease is held, the session is stored and open, and the gauge counts it.\<close>

definition streaming :: "'w stream_env \<Rightarrow> string \<Rightarrow> int \<Rightarrow> ('w, 'q) stream_state \<Rightarrow> bool" where
  "streaming V sid n s \<longleftrightarrow>
     ss_session_id s = Some sid \<and> ss_active s = n \<and> key_held (se_db V) (lease_key (se_db V) sid (Some (se_tenant_id V))) (ss_world s) \<and>
     stored (se_db V) sid (ss_world s) \<and> (\<exists>c. ss_orchestrator s = Some c \<and> \<not> cs_closed c)"

definition stream_laws :: "'w stream_env \<Rightarrow> bool" where
  "stream_laws V \<longleftrightarrow> session_db_laws (se_db V) \<and> lease_laws (se_db V) \<and> no_outage (se_db V)"

lemma streaming_put [simp]: "streaming V sid n (put rs s) = streaming V sid n s"
  by (simp add: streaming_def put_def)

lemma streaming_speaking [simp]: "streaming V sid n (s\<lparr>ss_last_speaking := b\<rparr>) = streaming V sid n s"
  by (simp add: streaming_def)

lemma streaming_emit:
  assumes "stream_laws V" and "streaming V sid n s"
    and "\<And>c. stream_only (se_db V) sid (lease_key (se_db V) sid (Some (se_tenant_id V))) (cs_world c) (cs_world (snd (h c)))"
    and "\<And>c. same_flags c (snd (h c))"
  shows "streaming V sid n (snd (emit_call h s))"
proof -
  obtain c where c: "ss_orchestrator s = Some c" "\<not> cs_closed c" using assms(2) by (auto simp: streaming_def)
  let ?c = "c\<lparr>cs_world := ss_world s\<rparr>"
  obtain r c' where h: "h ?c = (r, c')" by fastforce
  have "key_held (se_db V) (lease_key (se_db V) sid (Some (se_tenant_id V))) (cs_world c')" "stored (se_db V) sid (cs_world c')"
    using assms(1,2) assms(3) [of ?c] h by (simp_all add: stream_laws_def stream_only_def streaming_def)
  moreover have "\<not> cs_closed c'" using assms(4) [of ?c] h c(2) by (simp add: same_flags_def)
  ultimately show ?thesis
    using assms(2) c(1) h by (cases r) (simp_all add: emit_call_def streaming_def put_def)
qed

lemma streaming_control:
  assumes "stream_laws V" and "streaming V sid n s" and "ce_db E = se_db V" and "a \<noteq> ''hangup''"
  shows "streaming V sid n (snd (emit_call (handle_control E (stream_oid V sid) (control a)) s))"
  using assms(4)
  by (intro streaming_emit [OF assms(1,2)] sst.keeps_world_control flags_control) (simp_all add: assms(3) stream_oid_def control_def)

lemma streaming_audio:
  assumes "stream_laws V" and "streaming V sid n s" and "ce_db E = se_db V"
  shows "streaming V sid n (snd (emit_call (handle_audio E (stream_oid V sid) d) s))"
  by (intro streaming_emit [OF assms(1,2)] sst.keeps_world_audio flags_audio) (simp_all add: assms(3) stream_oid_def)

lemma bind_keeps:
  assumes "P (snd m)" and "\<And>a s. m = (Inr a, s) \<Longrightarrow> P (snd (k a s))"
  shows "P (snd (io_bind m k))"
  using assms by (cases m; cases "fst m") auto

lemma streaming_body:
  assumes "stream_laws V" and "streaming V sid n s" and "ce_db E = se_db V"
  shows "streaming V sid n (snd (chunk_body V E chunk sid s))"
proof -
  note ctl = streaming_control [OF assms(1) _ assms(3)] and audio = streaming_audio [OF assms(1) _ assms(3)]
  define s1 where "s1 = (if ck_is_speaking chunk \<and> \<not> ss_last_speaking s then put [clear_response] s else s)"
  have s1: "streaming V sid n s1" using assms(2) by (simp add: s1_def)
  let ?stop = "emit_call (handle_control E (stream_oid V sid) (control ''stop_listening'')) s1"
  have "streaming V sid n (snd ?stop)" by (rule ctl [OF s1]) simp
  then have "streaming V sid n (snd (io_bind ?stop (\<lambda>_ s2. emit_call (handle_control E (stream_oid V sid) (control ''start_listening'')) s2)))"
    by (rule bind_keeps) (rule ctl, use \<open>streaming V sid n (snd ?stop)\<close> in simp_all)
  then have act: "streaming V sid n (snd (if \<not> ck_is_speaking chunk \<and> ss_last_speaking s
      then io_bind ?stop (\<lambda>_ s2. emit_call (handle_control E (stream_oid V sid) (control ''start_listening'')) s2)
      else if ck_audio_data chunk \<noteq> [] then emit_call (handle_audio E (stream_oid V sid) (ck_audio_data chunk)) s1
      else (Inr (), s1)))" (is "streaming V sid n (snd ?m)")
    using audio [OF s1] s1 by simp
  from act have "streaming V sid n (snd (io_bind ?m (\<lambda>_ s3. (Inr (), s3\<lparr>ss_last_speaking := ck_is_speaking chunk\<rparr>))))"
    by (rule bind_keeps) (use act in \<open>simp only: snd_conv streaming_speaking\<close>)
  then show ?thesis
    using ctl [OF assms(2), of "''dtmf''"] unfolding chunk_body_def Let_def s1_def by simp
qed

lemma streaming_chunks:
  assumes "stream_laws V" and "streaming V sid n s" and "\<forall>(E, chunk)\<in>set chunks. ce_db E = se_db V"
  shows "streaming V sid n (snd (read_chunks V p chunks s))"
  using assms(2,3)
proof (induction chunks arbitrary: s)
  case Nil
  then show ?case by simp
next
  case (Cons Ec rest)
  obtain E chunk where Ec: "Ec = (E, chunk)" by (cases Ec)
  have "streaming V sid n (snd (chunk_body V E chunk sid s))"
    using Cons.prems Ec by (intro streaming_body [OF assms(1)]) auto
  moreover have "read_chunk V E p chunk s = io_bind (chunk_body V E chunk sid s) (\<lambda>_ s2. (Inr True, s2))"
    using Cons.prems(1) by (simp add: read_chunk_def streaming_def)
  ultimately show ?case
    using Cons Ec by (cases "chunk_body V E chunk sid s"; cases "fst (chunk_body V E chunk sid s)") auto
qed

subsection \<open>Starting and ending\<close>

abbreviation stream_key :: "'w stream_env \<Rightarrow> string \<Rightarrow> string" where
  "stream_key V sid \<equiv> lease_key (se_db V) sid (Some (se_tenant_id V))"

definition chunk_sid :: "AudioChunk \<Rightarrow> string" where
  "chunk_sid chunk = (if ck_session_id chunk = [] then ''anonymous'' else ck_session_id chunk)"

text \<open>A stream whose session could not be restored: the lease is held, there is no orchestrator, the gauge was not raised.\<close>

definition stranded :: "'w stream_env \<Rightarrow> string \<Rightarrow> int \<Rightarrow> ('w, 'q) stream_state \<Rightarrow> bool" where
  "stranded V sid n s \<longleftrightarrow>
     ss_session_id s = Some sid \<and> ss_active s = n \<and> key_held (se_db V) (stream_key V sid) (ss_world s) \<and> ss_orchestrator s = None"

lemma lease_view:
  assumes "lease_laws S"
  shows "r_get_state S (session_key S sid None) (snd (r_set_nx S (lease_key S sid' (Some t)) LEASE_TTL w)) =
      r_get_state S (session_key S sid None) w"
    and "m_find_session S sid (snd (r_set_nx S k LEASE_TTL w)) = m_find_session S sid w"
  using assms unfolding lease_laws_def by simp_all

lemma first_chunk_held:
  assumes "stream_laws V" and "key_held (se_db V) (stream_key V (chunk_sid chunk)) (ss_world s)"
  shows "\<exists>w1. first_chunk V E p chunk s =
      (Inr False, put [text_response (of_str ''[ERROR] session already in progress (lease lock)''), end_of_turn]
         (s\<lparr>ss_session_id := None, ss_terminated_reason := ''lease_conflict'', ss_world := w1\<rparr>)) \<and>
    key_held (se_db V) (stream_key V (chunk_sid chunk)) w1 \<and>
    r_get_state (se_db V) (session_key (se_db V) sid None) w1 = r_get_state (se_db V) (session_key (se_db V) sid None) (ss_world s) \<and>
    m_find_session (se_db V) sid w1 = m_find_session (se_db V) sid (ss_world s)"
  using assms
  by (intro exI [where x = "snd (r_set_nx (se_db V) (stream_key V (chunk_sid chunk)) LEASE_TTL (ss_world s))"])
     (simp add: first_chunk_def Let_def acquire_session_lease_def acquire_lease_def stream_laws_def no_outage_def
      chunk_sid_def [symmetric] key_held_rules lease_view case_prod_unfold, simp add: key_held_def)

lemma first_chunk_free:
  assumes "stream_laws V" and "ce_db E = se_db V" and "\<not> key_held (se_db V) (stream_key V (chunk_sid chunk)) (ss_world s)"
    and "cached_stored (se_db V) (chunk_sid chunk) (ss_world s)" and "ss_orchestrator s = None"
  shows "(\<exists>e s'. first_chunk V E p chunk s = (Inl e, s') \<and> stranded V (chunk_sid chunk) (ss_active s) s') \<or>
    streaming V (chunk_sid chunk) (ss_active s + 1) (snd (first_chunk V E p chunk s)) \<and> fst (first_chunk V E p chunk s) \<noteq> Inr False"
proof -
  let ?S = "se_db V" and ?sid = "chunk_sid chunk" and ?k = "stream_key V (chunk_sid chunk)"
  let ?w1 = "snd (r_set_nx ?S ?k LEASE_TTL (ss_world s))"
  have laws: "session_db_laws ?S" "lease_laws ?S" "no_outage ?S" using assms(1) by (simp_all add: stream_laws_def)
  have acq: "acquire_session_lease ?S ?sid (Some (se_tenant_id V)) (ss_world s) = (True, ?w1)"
    using assms(3) laws(3) by (simp add: acquire_session_lease_def acquire_lease_def no_outage_def key_held_def prod_eq_iff)
  have held1: "key_held ?S ?k ?w1" by (simp add: key_held_rules laws)
  have cached: "cached_stored ?S ?sid ?w1" using assms(4) by (simp add: cached_stored_def stored_def lease_view laws)
  obtain x w2 where roc: "restore_or_create_orchestrator ?S (ce_now E) (stream_oid V ?sid) p ?w1 = (x, w2)" by fastforce
  have oid: "or_session_id (stream_oid V ?sid) = ?sid" by (simp add: stream_oid_def)
  have held2: "key_held ?S ?k w2"
    using sst.keeps_restore_or_create [OF oid, where S = ?S and k = ?k and w = ?w1 and now = "ce_now E" and p = p] roc held1 laws
    by (simp add: stream_only_def)
  show ?thesis
  proof (cases x)
    case (Inl e)
    with acq roc held2 assms(5) show ?thesis
      by (auto simp: first_chunk_def Let_def chunk_sid_def [symmetric] stranded_def)
  next
    case (Inr ce)
    have ce: "restore_or_create_orchestrator ?S (ce_now E) (stream_oid V ?sid) p ?w1 = (Inr (fst ce, snd ce), w2)" using roc Inr by simp
    from restore_or_create_call [OF this] obtain c es where "fst ce = Some c" "snd ce = es" and c: "\<not> cs_closed c"
      by (auto simp: new_call_def)
    then have x: "x = Inr (Some c, es)" using Inr by (simp add: prod_eq_iff)
    let ?s = "s\<lparr>ss_session_id := Some ?sid, ss_orchestrator := Some c, ss_active := ss_active s + 1, ss_world := w2\<rparr>"
    have "stored ?S ?sid w2"
      using restore_or_create_stored [OF laws(1,3), of "stream_oid V ?sid" ?w1 "ce_now E" p "Some c" es w2] roc x cached oid by simp
    then have "streaming V ?sid (ss_active s + 1) ?s" using held2 c by (simp add: streaming_def)
    from streaming_control [OF assms(1) this assms(2), of "''start_listening''"]
    have "streaming V ?sid (ss_active s + 1) (snd (emit_call (handle_control E (stream_oid V ?sid) (control ''start_listening'')) ?s))" by simp
    moreover have "first_chunk V E p chunk s =
        io_bind (emit_call (handle_control E (stream_oid V ?sid) (control ''start_listening'')) ?s) (\<lambda>_ s1. (Inr True, s1))"
      using acq roc x by (simp add: first_chunk_def Let_def chunk_sid_def [symmetric])
    ultimately show ?thesis
      by (cases "emit_call (handle_control E (stream_oid V ?sid) (control ''start_listening'')) ?s";
          cases "fst (emit_call (handle_control E (stream_oid V ?sid) (control ''start_listening'')) ?s)") auto
  qed
qed

lemma read_chunks_free:
  assumes "stream_laws V" and "\<forall>(E, chunk)\<in>set ((E, chunk) # rest). ce_db E = se_db V"
    and "\<not> key_held (se_db V) (stream_key V (chunk_sid chunk)) (ss_world s)"
    and "cached_stored (se_db V) (chunk_sid chunk) (ss_world s)" and "ss_orchestrator s = None" and "ss_session_id s = None"
  shows "stranded V (chunk_sid chunk) (ss_active s) (snd (read_chunks V p ((E, chunk) # rest) s)) \<or>
    streaming V (chunk_sid chunk) (ss_active s + 1) (snd (read_chunks V p ((E, chunk) # rest) s))"
proof -
  have db: "ce_db E = se_db V" using assms(2) by simp
  obtain x s1 where fc: "first_chunk V E p chunk s = (x, s1)" by fastforce
  consider e where "x = Inl e" "stranded V (chunk_sid chunk) (ss_active s) s1" | "streaming V (chunk_sid chunk) (ss_active s + 1) s1" "x \<noteq> Inr False"
    using first_chunk_free [OF assms(1) db assms(3-5), of p] fc by auto
  then show ?thesis
  proof cases
    case 1
    with fc assms(6) show ?thesis by (simp add: read_chunk_def)
  next
    case 2
    show ?thesis
    proof (cases x)
      case (Inl e)
      with 2 fc assms(6) show ?thesis by (simp add: read_chunk_def)
    next
      case (Inr b)
      with 2 have b: "b" by simp
      have "streaming V (chunk_sid chunk) (ss_active s + 1) (snd (read_chunks V p ((E, chunk) # rest) s1))"
        using assms(2) by (intro streaming_chunks [OF assms(1) 2(1)]) auto
      moreover have "read_chunk V E p chunk s1 = read_chunk V E p chunk s"
        using fc Inr b 2(1) assms(6) by (simp add: read_chunk_def streaming_def)
      ultimately show ?thesis by simp
    qed
  qed
qed

lemma reader_end_keeps [simp]:
  "streaming V sid n (reader_end f (x, s)) = streaming V sid n s" "stranded V sid n (reader_end f (x, s)) = stranded V sid n s"
  by (cases x; simp add: reader_end_def streaming_def stranded_def put_def)+

lemma cleanup_keeps:
  assumes "stream_laws V" and "ce_db E = se_db V"
  shows "stranded V sid n s \<Longrightarrow> \<not> key_held (se_db V) (stream_key V sid) (ss_world (cleanup_end V E (cleanup_lease V s))) \<and>
      ss_orchestrator (cleanup_end V E (cleanup_lease V s)) = None \<and> ss_active (cleanup_end V E (cleanup_lease V s)) = n - 1"
    and "streaming V sid n s \<Longrightarrow> \<not> key_held (se_db V) (stream_key V sid) (ss_world (cleanup_end V E (cleanup_lease V s))) \<and>
      ss_orchestrator (cleanup_end V E (cleanup_lease V s)) \<noteq> None \<and> ss_active (cleanup_end V E (cleanup_lease V s)) = n - 1 \<and>
      ended_in (se_db V) sid (ss_world (cleanup_end V E (cleanup_lease V s)))"
proof -
  let ?S = "se_db V" and ?k = "stream_key V sid"
  let ?w = "release_session_lease ?S sid (Some (se_tenant_id V)) (ss_world s)"
  have laws: "session_db_laws ?S" "lease_laws ?S" "no_outage ?S" using assms(1) by (simp_all add: stream_laws_def)
  have free: "\<not> key_held ?S ?k ?w" and st: "stored ?S sid ?w = stored ?S sid (ss_world s)"
    using laws by (simp_all add: release_session_lease_def release_lease_def no_outage_def key_held_rules stored_def mongo_session_rules)
  show "\<not> key_held ?S ?k (ss_world (cleanup_end V E (cleanup_lease V s))) \<and>
      ss_orchestrator (cleanup_end V E (cleanup_lease V s)) = None \<and> ss_active (cleanup_end V E (cleanup_lease V s)) = n - 1"
    if "stranded V sid n s"
    using that free by (simp add: stranded_def cleanup_lease_def cleanup_end_def)
  assume s: "streaming V sid n s"
  then obtain c where c: "ss_orchestrator s = Some c" "\<not> cs_closed c" "ss_session_id s = Some sid" by (auto simp: streaming_def)
  let ?c = "c\<lparr>cs_world := ?w\<rparr>" and ?oid = "stream_oid V sid"
  have oid: "or_session_id ?oid = sid" by (simp add: stream_oid_def)
  obtain c' where c': "end_session E ?oid (ss_terminated_reason s) ?c = (Inr [state_evt ENDED], c')" "ended_in ?S sid (cs_world c')"
    using end_session_ends [OF laws(1,3) assms(2), of ?oid ?c "ss_terminated_reason s"] s st c(2) oid by (auto simp: streaming_def)
  have "\<not> key_held ?S ?k (cs_world c')"
    using sst.keeps_world_end [OF assms(2) oid, where k = ?k and c = ?c and reason = "ss_terminated_reason s"] c'(1) free laws
    by (simp add: stream_only_def)
  with c c' s show "\<not> key_held ?S ?k (ss_world (cleanup_end V E (cleanup_lease V s))) \<and>
      ss_orchestrator (cleanup_end V E (cleanup_lease V s)) \<noteq> None \<and> ss_active (cleanup_end V E (cleanup_lease V s)) = n - 1 \<and>
      ended_in ?S sid (ss_world (cleanup_end V E (cleanup_lease V s)))"
    by (simp add: cleanup_lease_def cleanup_end_def streaming_def)
qed

subsection \<open>Other keys\<close>

definition stream_keeps :: "'w session_db \<Rightarrow> string \<Rightarrow> string \<Rightarrow> ('w, 'q) stream_state \<Rightarrow> ('w, 'q) stream_state \<Rightarrow> bool" where
  "stream_keeps S sid k s s' \<longleftrightarrow> stream_only S sid k (ss_world s) (ss_world s') \<and> ss_session_id s' = ss_session_id s"

interpretation skeep: effect_frame "stream_keeps S sid k" for S sid k
  by unfold_locales (auto simp: stream_keeps_def intro: sst.frame_refl sst.frame_trans)

lemma keeps_emit:
  assumes "\<And>c. stream_only S sid k (cs_world c) (cs_world (snd (h c)))"
  shows "stream_keeps S sid k s (snd (emit_call h s))"
proof (cases "ss_orchestrator s")
  case None
  then show ?thesis by (simp add: emit_call_def skeep.frame_refl)
next
  case (Some c)
  with assms [of "c\<lparr>cs_world := ss_world s\<rparr>"] show ?thesis
    by (cases "h (c\<lparr>cs_world := ss_world s\<rparr>)"; cases "fst (h (c\<lparr>cs_world := ss_world s\<rparr>))")
       (auto simp: emit_call_def stream_keeps_def put_def)
qed

lemma keeps_emit_handlers:
  assumes "ce_db E = se_db V"
  shows "stream_keeps (se_db V) sid k s (snd (emit_call (handle_control E (stream_oid V sid) m) s))"
    and "stream_keeps (se_db V) sid k s (snd (emit_call (handle_audio E (stream_oid V sid) d) s))"
  by (intro keeps_emit sst.keeps_world_control sst.keeps_world_audio; simp add: assms stream_oid_def)+

lemma keeps_chunk_body:
  assumes "ce_db E = se_db V"
  shows "stream_keeps (se_db V) sid k s (snd (chunk_body V E chunk sid s))"
proof -
  note h = keeps_emit_handlers [OF assms, where sid = sid and k = k]
  define s1 where "s1 = (if ck_is_speaking chunk \<and> \<not> ss_last_speaking s then put [clear_response] s else s)"
  have s1: "stream_keeps (se_db V) sid k s s1" by (simp add: s1_def stream_keeps_def put_def sst.frame_refl)
  have both: "stream_keeps (se_db V) sid k s1 (snd (io_bind (emit_call (handle_control E (stream_oid V sid) (control ''stop_listening'')) s1)
      (\<lambda>_ s2. emit_call (handle_control E (stream_oid V sid) (control ''start_listening'')) s2)))"
    by (rule skeep.frame_bind [OF h(1)]) (rule h(1))
  have "stream_keeps (se_db V) sid k s1 (snd (if \<not> ck_is_speaking chunk \<and> ss_last_speaking s
      then io_bind (emit_call (handle_control E (stream_oid V sid) (control ''stop_listening'')) s1)
             (\<lambda>_ s2. emit_call (handle_control E (stream_oid V sid) (control ''start_listening'')) s2)
      else if ck_audio_data chunk \<noteq> [] then emit_call (handle_audio E (stream_oid V sid) (ck_audio_data chunk)) s1
      else (Inr (), s1)))" (is "stream_keeps _ _ _ _ (snd ?m)")
    using h both by (simp add: skeep.frame_refl)
  then have "stream_keeps (se_db V) sid k s1 (snd (io_bind ?m (\<lambda>_ s3. (Inr (), s3\<lparr>ss_last_speaking := ck_is_speaking chunk\<rparr>))))"
    by (rule skeep.frame_bind) (simp add: stream_keeps_def sst.frame_refl)
  from skeep.frame_trans [OF s1 this] h(1) show ?thesis
    unfolding chunk_body_def Let_def s1_def by simp
qed

lemma keeps_read_chunks:
  assumes "\<forall>(E, chunk)\<in>set chunks. ce_db E = se_db V" and "ss_session_id s = Some sid"
  shows "stream_keeps (se_db V) sid k s (snd (read_chunks V p chunks s))"
  using assms
proof (induction chunks arbitrary: s)
  case Nil
  then show ?case by (simp add: skeep.frame_refl)
next
  case (Cons Ec rest)
  obtain E chunk where Ec: "Ec = (E, chunk)" by (cases Ec)
  have body: "stream_keeps (se_db V) sid k s (snd (chunk_body V E chunk sid s))"
    using Cons.prems Ec by (intro keeps_chunk_body) auto
  then have sid: "ss_session_id (snd (chunk_body V E chunk sid s)) = Some sid" using Cons.prems(2) by (simp add: stream_keeps_def)
  have run: "read_chunk V E p chunk s = io_bind (chunk_body V E chunk sid s) (\<lambda>_ s2. (Inr True, s2))"
    using Cons.prems(2) by (simp add: read_chunk_def)
  show ?case
  proof (cases "fst (chunk_body V E chunk sid s)")
    case (Inl e)
    then show ?thesis using body run Ec by (cases "chunk_body V E chunk sid s") simp
  next
    case (Inr u)
    have "stream_keeps (se_db V) sid k (snd (chunk_body V E chunk sid s)) (snd (read_chunks V p rest (snd (chunk_body V E chunk sid s))))"
      using Cons.prems(1) sid by (intro Cons.IH) auto
    from skeep.frame_trans [OF body this] Inr show ?thesis using run Ec by (cases "chunk_body V E chunk sid s") simp
  qed
qed

lemma first_chunk_other:
  assumes "stream_laws V" and "ce_db E = se_db V" and "k \<noteq> stream_key V (chunk_sid chunk)" and "k \<noteq> session_key (se_db V) (chunk_sid chunk) None"
  shows "key_held (se_db V) k (ss_world (snd (first_chunk V E p chunk s))) = key_held (se_db V) k (ss_world s) \<and>
    (fst (first_chunk V E p chunk s) \<noteq> Inr False \<longrightarrow> ss_session_id (snd (first_chunk V E p chunk s)) = Some (chunk_sid chunk))"
proof -
  let ?S = "se_db V" and ?sid = "chunk_sid chunk"
  have laws: "session_db_laws ?S" "lease_laws ?S" "no_outage ?S" using assms(1) by (simp_all add: stream_laws_def)
  obtain b w1 where acq: "acquire_session_lease ?S ?sid (Some (se_tenant_id V)) (ss_world s) = (b, w1)" by fastforce
  then have w1: "key_held ?S k w1 = key_held ?S k (ss_world s)"
    using laws assms(3) by (simp add: acquire_session_lease_def acquire_lease_def no_outage_def prod_eq_iff key_held_rules) 
       (metis key_held_rules(1) laws(2))
  obtain x w2 where roc: "restore_or_create_orchestrator ?S (ce_now E) (stream_oid V ?sid) p w1 = (x, w2)" by fastforce
  have "key_held ?S k w2 = key_held ?S k w1"
    using sst.keeps_restore_or_create [where S = ?S and k = k and oid = "stream_oid V ?sid" and sid = ?sid and w = w1 and now = "ce_now E" and p = p]
      roc laws assms(4) by (simp add: stream_only_def stream_oid_def)
  note w2 = this [unfolded w1]
  show ?thesis
  proof (cases b)
    case False
    with acq w1 show ?thesis by (simp add: first_chunk_def Let_def chunk_sid_def [symmetric] put_def)
  next
    case True
    show ?thesis
    proof (cases "\<exists>c es. x = Inr (Some c, es)")
      case False
      with True acq roc w2 show ?thesis
        by (auto simp: first_chunk_def Let_def chunk_sid_def [symmetric] put_def split: sum.split option.split prod.split)
    next
      case True': True
      then obtain c es where x: "x = Inr (Some c, es)" by blast
      let ?s = "s\<lparr>ss_session_id := Some ?sid, ss_orchestrator := Some c, ss_active := ss_active s + 1, ss_world := w2\<rparr>"
      have "stream_keeps ?S ?sid k ?s (snd (io_bind (emit_call (handle_control E (stream_oid V ?sid) (control ''start_listening'')) ?s) (\<lambda>_ s1. (Inr True, s1))))"
        by (intro skeep.frame_bind keeps_emit_handlers(1) assms(2)) (simp add: skeep.frame_refl)
      then show ?thesis
        using True acq roc x w2 laws assms(4)
        by (simp add: first_chunk_def Let_def chunk_sid_def [symmetric] stream_keeps_def stream_only_def)
    qed
  qed
qed

lemma read_chunks_other:
  assumes "stream_laws V" and "\<forall>(E, chunk)\<in>set ((E, chunk) # rest). ce_db E = se_db V" and "ss_session_id s = None"
    and "k \<noteq> stream_key V (chunk_sid chunk)" and "k \<noteq> session_key (se_db V) (chunk_sid chunk) None"
  shows "key_held (se_db V) k (ss_world (snd (read_chunks V p ((E, chunk) # rest) s))) = key_held (se_db V) k (ss_world s)"
proof -
  obtain x s1 where fc: "first_chunk V E p chunk s = (x, s1)" by fastforce
  have s1: "key_held (se_db V) k (ss_world s1) = key_held (se_db V) k (ss_world s)" "x \<noteq> Inr False \<Longrightarrow> ss_session_id s1 = Some (chunk_sid chunk)"
    using first_chunk_other [OF assms(1) _ assms(4,5), of E p s] assms(2) fc by simp_all
  show ?thesis
  proof (cases "x = Inr True")
    case False
    then show ?thesis using fc s1(1) assms(3) by (cases x) (auto simp: read_chunk_def)
  next
    case True
    then have "read_chunk V E p chunk s1 = read_chunk V E p chunk s" using fc assms(3) s1(2) by (simp add: read_chunk_def)
    moreover have "stream_keeps (se_db V) (chunk_sid chunk) k s1 (snd (read_chunks V p ((E, chunk) # rest) s1))"
      using assms(2) True s1(2) by (intro keeps_read_chunks) auto
    ultimately show ?thesis using s1(1) assms(1,5) by (simp add: stream_keeps_def stream_only_def stream_laws_def)
  qed
qed

text \<open>The whole stream, on a free lease.\<close>

lemma stream_over:
  assumes "stream_laws V" and "ce_db E = se_db V" and "\<forall>(E, chunk)\<in>set ((E0, chunk) # rest). ce_db E = se_db V"
    and "cached_stored (se_db V) (chunk_sid chunk) w" and "\<not> key_held (se_db V) (stream_key V (chunk_sid chunk)) w"
  shows "\<not> key_held (se_db V) (stream_key V (chunk_sid chunk)) (ss_world (StreamSession V p exc_str E ((E0, chunk) # rest) active w)) \<and>
    (if ss_orchestrator (StreamSession V p exc_str E ((E0, chunk) # rest) active w) \<noteq> None
     then ss_active (StreamSession V p exc_str E ((E0, chunk) # rest) active w) = active \<and>
       ended_in (se_db V) (chunk_sid chunk) (ss_world (StreamSession V p exc_str E ((E0, chunk) # rest) active w))
     else ss_active (StreamSession V p exc_str E ((E0, chunk) # rest) active w) = active - 1)"
proof -
  let ?s0 = "new_stream active w"
  obtain x s1 where run: "read_chunks V p ((E0, chunk) # rest) ?s0 = (x, s1)" by fastforce
  have "stranded V (chunk_sid chunk) active s1 \<or> streaming V (chunk_sid chunk) (active + 1) s1"
    using read_chunks_free [OF assms(1,3), of ?s0 p] assms(4,5) run by (simp add: new_stream_def)
  then have "stranded V (chunk_sid chunk) active (reader_end exc_str (x, s1)) \<or> streaming V (chunk_sid chunk) (active + 1) (reader_end exc_str (x, s1))"
    by simp
  moreover have "StreamSession V p exc_str E ((E0, chunk) # rest) active w = cleanup_end V E (cleanup_lease V (reader_end exc_str (x, s1)))"
    using run by (simp add: StreamSession_def)
  ultimately show ?thesis
    using cleanup_keeps(1) [OF assms(1,2), of "chunk_sid chunk" active "reader_end exc_str (x, s1)"]
      cleanup_keeps(2) [OF assms(1,2), of "chunk_sid chunk" "active + 1" "reader_end exc_str (x, s1)"] by (elim disjE) simp_all
qed

lemma reader_end_world [simp]: "ss_world (reader_end f (x, s)) = ss_world s" "ss_session_id (reader_end f (x, s)) = ss_session_id s"
  by (cases x; simp add: reader_end_def put_def)+

lemma cleanup_other:
  assumes "stream_laws V" and "ce_db E = se_db V" and "k \<noteq> session_key (se_db V) sid None" and "k \<noteq> stream_key V sid"
    and "ss_session_id s \<in> {None, Some sid}"
  shows "key_held (se_db V) k (ss_world (cleanup_end V E (cleanup_lease V s))) = key_held (se_db V) k (ss_world s)"
proof -
  have laws: "session_db_laws (se_db V)" "lease_laws (se_db V)" "no_outage (se_db V)" using assms(1) by (simp_all add: stream_laws_def)
  have oid: "or_session_id (stream_oid V sid) = sid" by (simp add: stream_oid_def)
  have "key_held (se_db V) k (cs_world (snd (end_session E (stream_oid V sid) reason c))) = key_held (se_db V) k (cs_world c)" for reason c
    using sst.keeps_world_end [OF assms(2) oid, where k = k and c = c and reason = reason] laws assms(3) by (simp add: stream_only_def)
  with assms(4,5) laws show ?thesis
    by (auto simp: cleanup_end_def cleanup_lease_def Let_def release_session_lease_def release_lease_def key_held_rules no_outage_def
        split: option.split)
qed

lemma emit_call_sid [simp]: "ss_session_id (snd (emit_call h s)) = ss_session_id s"
  by (simp add: emit_call_def put_def split: option.split sum.split prod.split)

lemma emit_bind_sid [simp]:
  "ss_session_id (snd (io_bind (emit_call h s) (\<lambda>_. Pair (Inr b)))) = ss_session_id s"
  using emit_call_sid [of h s] by (cases "emit_call h s"; cases "fst (emit_call h s)") auto

lemma first_chunk_sid:
  "ss_session_id (snd (first_chunk V E p chunk s)) \<in> {None, Some (chunk_sid chunk)}"
  by (auto simp: first_chunk_def Let_def chunk_sid_def [symmetric] put_def split: prod.split bool.split sum.split option.split)

lemma read_chunks_sid:
  assumes "ss_session_id s = None" and "\<forall>(E, chunk)\<in>set ((E, chunk) # rest). ce_db E = se_db V"
  shows "ss_session_id (snd (read_chunks V p ((E, chunk) # rest) s)) \<in> {None, Some (chunk_sid chunk)}"
proof -
  obtain x s1 where fc: "first_chunk V E p chunk s = (x, s1)" by fastforce
  then have s1: "ss_session_id s1 \<in> {None, Some (chunk_sid chunk)}" using first_chunk_sid [of V E p chunk s] by simp
  show ?thesis
  proof (cases "x = Inr True \<and> ss_session_id s1 = Some (chunk_sid chunk)")
    case False
    then show ?thesis using fc s1 assms(1) by (cases x) (auto simp: read_chunk_def)
  next
    case True
    then have "read_chunk V E p chunk s1 = read_chunk V E p chunk s" using fc assms(1) by (simp add: read_chunk_def)
    moreover have "stream_keeps (se_db V) (chunk_sid chunk) [] s1 (snd (read_chunks V p ((E, chunk) # rest) s1))"
      using assms(2) True by (intro keeps_read_chunks) auto
    ultimately show ?thesis using True by (simp add: stream_keeps_def)
  qed
qed

lemma stream_other_key:
  assumes "stream_laws V" and "ce_db E = se_db V" and "\<forall>(E, chunk)\<in>set ((E0, chunk) # rest). ce_db E = se_db V"
    and "k \<noteq> stream_key V (chunk_sid chunk)" and "k \<noteq> session_key (se_db V) (chunk_sid chunk) None"
  shows "key_held (se_db V) k (ss_world (StreamSession V p exc_str E ((E0, chunk) # rest) active w)) = key_held (se_db V) k w"
proof -
  let ?s0 = "new_stream active w"
  obtain x s1 where run: "read_chunks V p ((E0, chunk) # rest) ?s0 = (x, s1)" by fastforce
  have "key_held (se_db V) k (ss_world s1) = key_held (se_db V) k w"
    using read_chunks_other [OF assms(1,3) _ assms(4,5), of ?s0 p] run by (simp add: new_stream_def)
  moreover have "ss_session_id s1 \<in> {None, Some (chunk_sid chunk)}"
    using read_chunks_sid [OF _ assms(3), of ?s0 p] run by (simp add: new_stream_def)
  ultimately show ?thesis
    using cleanup_other [OF assms(1,2,5,4), of "reader_end exc_str (x, s1)"] run by (simp add: StreamSession_def)
qed

section \<open>A reference stream\<close>

definition demo_stream :: "gw_mem stream_env" where
  "demo_stream = \<lparr>se_db = gw_mem_db, se_tenant_id = ''acme'', se_client_id = ''c1''\<rparr>"

definition demo_stream_env :: "(gw_mem, string \<Rightarrow> int option) call_env" where
  "demo_stream_env = \<lparr>ce_db = gw_mem_db, ce_pipe = dead_pipe_env, ce_now = 5\<rparr>"

definition demo_chunk :: AudioChunk where
  "demo_chunk = \<lparr>ck_session_id = ''s1'', ck_audio_data = [], ck_is_speaking = True, ck_dtmf_digit = []\<rparr>"

definition demo_run :: "gw_mem \<Rightarrow> (gw_mem, string \<Rightarrow> int option) stream_state" where
  "demo_run w = StreamSession demo_stream demo_pipe_state (\<lambda>_. []) demo_stream_env [(demo_stream_env, demo_chunk)] 0 w"

text \<open>The stores while a WebSocket connection serves the session.\<close>

definition ws_open_world :: gw_mem where
  "ws_open_world = (demo_store\<lparr>mem_leases := [''agentoe:lease:s1'']\<rparr>, no_switches, Map.empty)"

lemma demo_stream_laws: "stream_laws demo_stream"
  using gw_mem_db_laws gw_mem_lease_laws by (simp add: stream_laws_def demo_stream_def)

lemma demo_stream_dbs:
  "ce_db demo_stream_env = se_db demo_stream" "\<forall>(E, chunk)\<in>set [(demo_stream_env, demo_chunk)]. ce_db E = se_db demo_stream"
  by (simp_all add: demo_stream_env_def demo_stream_def)

lemma demo_chunk_sid [simp]: "chunk_sid demo_chunk = ''s1''"
  by (simp add: chunk_sid_def demo_chunk_def)

lemma demo_run_open: "ss_orchestrator (demo_run ws_open_world) \<noteq> None"
  by (simp add: demo_run_def ws_open_world_def StreamSession_def read_chunk_def new_stream_def first_chunk_def Let_def acquire_session_lease_def acquire_lease_def
    demo_stream_def gw_mem_db_def at_fst_def mem_db_def lease_key_def scoped_key_def default_redis_settings_def demo_chunk_def demo_store_def repo_create_def
    set_session_state_def demo_data_def empty_mem_def restore_or_create_orchestrator_def restore_hot_state_def get_session_state_def session_key_def stream_oid_def
    emit_call_def handle_control_def control_def do_transition_def demo_stream_env_def chunk_body_def put_def reader_end_def cleanup_lease_def cleanup_end_def new_call_def
    split: prod.split sum.split)

lemma ws_open_world_facts:
  "lease_held (gw_db demo_gateway) ''s1'' ws_open_world" "stored (gw_db demo_gateway) ''s1'' ws_open_world"
  "\<not> key_held (se_db demo_stream) (lease_key (se_db demo_stream) ''s1'' (Some (se_tenant_id demo_stream))) ws_open_world"
  using demo_store_stored
  by (simp_all add: lease_held_def stored_def key_held_def demo_gateway_def demo_stream_def gw_mem_db_def mem_db_def at_fst_def lease_key_def scoped_key_def
      default_redis_settings_def ws_open_world_def)

section \<open>Properties\<close>

text \<open>
  C13. The bridge hears what was synthesised. A completed turn reaches it as the recognised text, the exact bytes
  the synthesiser produced with the spoken text, and one \<open>END_OF_TURN\<close>. In general a sequence of events
  contains \<open>END_OF_TURN\<close> exactly when it has a completed turn or an error; so a hand-over, for which the table in the
  source promises one, sends none.
\<close>

theorem turn_reaches_bridge:
  assumes "answer_turn E oid [state_evt SPEAKING_DETECTED, evt ''stt_result'' [(''text'', VStr t), (''is_final'', VBool True)]] r c = (Inr es, c')"
    and "pr_tts_audio r = Some a" and "a \<noteq> []" and "\<forall>x\<in>set a. x < 256"
  shows "outbound_to_responses es =
      [text_response t, \<lparr>ai_type = TTS_AUDIO, ai_text_content = pr_llm_text r, ai_audio_data = a, ai_clear_buffer = False\<rparr>, end_of_turn] \<and>
    (\<forall>evs. end_of_turn \<in> set (outbound_to_responses evs) \<longleftrightarrow> (\<exists>ev\<in>set evs. oe_name ev \<in> {''pipeline_done'', ''error''})) \<and>
    (\<forall>p. outbound_to_responses [evt ''transfer_update'' p] = [text_response (of_str ''[TRANSFER] '' @ payload_text p ''message'' MSG_DEFAULT_TRANSFER)])"
proof -
  let ?tts = "evt ''tts_ready'' [(''audio_b64'', VStr (b64encode a)), (''text'', VStr (pr_llm_text r))]"
  let ?done = "evt ''pipeline_done'' [(''latency'', latency_val (pr_latency r)), (''policy_level'', VStr (of_str (pr_policy_level r)))]"
  let ?llm = "evt ''llm_chunk'' [(''text'', VStr (pr_llm_text r)), (''is_final'', VBool True), (''is_filler'', VBool (pr_filler_triggered r))]"
  let ?c = "c\<lparr>cs_history := push_turn (pr_stt_text r, pr_llm_text r) (cs_history c)\<rparr>"
  obtain w' where "persist_turn E oid r ?c = (Inr (), ?c\<lparr>cs_world := w'\<rparr>)"
    using persist_turn_returns [of E oid r ?c] by (elim exE)
  then obtain es' where es: "es = [state_evt SPEAKING_DETECTED, evt ''stt_result'' [(''text'', VStr t), (''is_final'', VBool True)], ?llm, ?tts, ?done] @ es'"
    and es': "es' \<in> {[], [state_evt LISTENING]}"
    using assms(1-3) by (auto simp: answer_turn_def Let_def split: prod.splits dest: do_transition_events)
  have "oe_name ev \<noteq> ''error''" if "ev \<in> set es" for ev
    using that es es' by (auto simp: evt_def state_evt_def)
  then have "outbound_to_responses es = concat (map event_responses es)"
    by (simp add: outbound_to_responses_def Let_def list_ex_iff)
  also have "\<dots> = [text_response t, \<lparr>ai_type = TTS_AUDIO, ai_text_content = pr_llm_text r, ai_audio_data = a, ai_clear_buffer = False\<rparr>, end_of_turn]"
    using es es' event_responses_tts [OF assms(3,4)] by auto
  finally show ?thesis
    using outbound_end_of_turn by (auto simp: outbound_to_responses_def event_responses_def evt_def)
qed

definition demo_answer :: PipelineResult where
  "demo_answer = \<lparr>pr_stt_text = [104], pr_llm_text = [105], pr_tts_audio = Some [82, 73, 255], pr_policy_level = ''G1'',
     pr_policy_allowed = True, pr_latency = [], pr_filler_triggered = False, pr_degraded = False, pr_degraded_stage = None\<rparr>"

theorem turn_reaches_bridge_witness:
  "\<exists>es c'. answer_turn demo_env demo_oid [state_evt SPEAKING_DETECTED, evt ''stt_result'' [(''text'', VStr [104]), (''is_final'', VBool True)]]
       demo_answer demo_call = (Inr es, c') \<and>
     outbound_to_responses es = [text_response [104],
       \<lparr>ai_type = TTS_AUDIO, ai_text_content = [105], ai_audio_data = [82, 73, 255], ai_clear_buffer = False\<rparr>, end_of_turn]"
proof -
  let ?es = "[state_evt SPEAKING_DETECTED, evt ''stt_result'' [(''text'', VStr [104]), (''is_final'', VBool True)]]"
  obtain x c' where run: "answer_turn demo_env demo_oid ?es demo_answer demo_call = (x, c')" by fastforce
  have "\<exists>es. x = Inr es"
    using run persist_turn_returns [of demo_env demo_oid demo_answer "demo_call\<lparr>cs_history := push_turn ([104], [105]) (cs_history demo_call)\<rparr>"]
    by (auto simp: answer_turn_def Let_def demo_answer_def split: prod.splits)
  then obtain es where "x = Inr es" ..
  with run turn_reaches_bridge [of demo_env demo_oid "[104]" demo_answer demo_call es c' "[82, 73, 255]"] show ?thesis
    by (simp add: demo_answer_def)
qed

text \<open>
  C17. A stream gives its lease back, and only its own. With the stores up, whatever the bridge sends and
  however the reader ends: a stream that finds the lease of its tenant and session taken answers with the refusal and \<open>END_OF_TURN\<close>
  and changes nothing; one that finds it free leaves it free. If the stream got an
  orchestrator, the gauge of active sessions is back where it was and the stored session has ended; if the session
  could not be restored, the gauge ends one too low.
\<close>

theorem stream_cleans_up:
  assumes "stream_laws V" and "ce_db E = se_db V" and "\<forall>(E, chunk)\<in>set ((E0, chunk) # rest). ce_db E = se_db V"
    and "cached_stored (se_db V) (chunk_sid chunk) w"
    and "r = StreamSession V p exc_str E ((E0, chunk) # rest) active w"
  shows "(key_held (se_db V) (lease_key (se_db V) (chunk_sid chunk) (Some (se_tenant_id V))) w \<longrightarrow>
      ss_queue r = [text_response (of_str ''[ERROR] session already in progress (lease lock)''), end_of_turn] \<and>
      key_held (se_db V) (lease_key (se_db V) (chunk_sid chunk) (Some (se_tenant_id V))) (ss_world r) \<and> ss_active r = active \<and>
      m_find_session (se_db V) (chunk_sid chunk) (ss_world r) = m_find_session (se_db V) (chunk_sid chunk) w) \<and>
    (\<not> key_held (se_db V) (lease_key (se_db V) (chunk_sid chunk) (Some (se_tenant_id V))) w \<longrightarrow>
      \<not> key_held (se_db V) (lease_key (se_db V) (chunk_sid chunk) (Some (se_tenant_id V))) (ss_world r) \<and>
      (if ss_orchestrator r \<noteq> None then ss_active r = active \<and> ended_in (se_db V) (chunk_sid chunk) (ss_world r)
       else ss_active r = active - 1))"
proof (intro conjI impI)
  let ?s0 = "new_stream active w" and ?chunks = "(E0, chunk) # rest"
  assume held: "key_held (se_db V) (lease_key (se_db V) (chunk_sid chunk) (Some (se_tenant_id V))) w"
  obtain w1 where fc: "first_chunk V E0 p chunk ?s0 =
      (Inr False, put [text_response (of_str ''[ERROR] session already in progress (lease lock)''), end_of_turn]
         (?s0\<lparr>ss_session_id := None, ss_terminated_reason := ''lease_conflict'', ss_world := w1\<rparr>))"
    and w1: "key_held (se_db V) (stream_key V (chunk_sid chunk)) w1"
      "m_find_session (se_db V) (chunk_sid chunk) w1 = m_find_session (se_db V) (chunk_sid chunk) w"
    using first_chunk_held [OF assms(1), of chunk ?s0 E0 p "chunk_sid chunk"] held by (auto simp: new_stream_def)
  have "r = put [text_response (of_str ''[ERROR] session already in progress (lease lock)''), end_of_turn]
      (?s0\<lparr>ss_session_id := None, ss_terminated_reason := ''lease_conflict'', ss_world := w1\<rparr>)"
    using fc by (simp add: assms(5) StreamSession_def read_chunk_def new_stream_def reader_end_def cleanup_lease_def cleanup_end_def put_def)
  with w1 show "ss_queue r = [text_response (of_str ''[ERROR] session already in progress (lease lock)''), end_of_turn]"
    "key_held (se_db V) (lease_key (se_db V) (chunk_sid chunk) (Some (se_tenant_id V))) (ss_world r)" "ss_active r = active"
    "m_find_session (se_db V) (chunk_sid chunk) (ss_world r) = m_find_session (se_db V) (chunk_sid chunk) w"
    by (simp_all add: put_def new_stream_def)
next
  assume "\<not> key_held (se_db V) (lease_key (se_db V) (chunk_sid chunk) (Some (se_tenant_id V))) w"
  from stream_over [OF assms(1-4) this, of p exc_str active]
  show "\<not> key_held (se_db V) (lease_key (se_db V) (chunk_sid chunk) (Some (se_tenant_id V))) (ss_world r)"
    "if ss_orchestrator r \<noteq> None then ss_active r = active \<and> ended_in (se_db V) (chunk_sid chunk) (ss_world r)
       else ss_active r = active - 1"
    unfolding assms(5) by simp_all
qed

theorem stream_cleans_up_witness:
  "ss_active (demo_run ws_open_world) = 0 \<and> ended_in gw_mem_db ''s1'' (ss_world (demo_run ws_open_world))"
  using stream_cleans_up [OF demo_stream_laws demo_stream_dbs _ demo_run_def, of ws_open_world] ws_open_world_facts demo_run_open
  by (simp add: cached_stored_def) (simp add: demo_stream_def demo_gateway_def)

text \<open>
  The two transports do not exclude each other. With tenant-scoped keys, a session that a WebSocket connection
  is serving, with its lease held, can be taken by a stream of the same tenant as if nobody had it; and when that
  stream is over the stored session has ended under the open connection.
\<close>

theorem transports_not_exclusive:
  assumes "gateway_laws G" and "gateway_up G" and "gw_db G = se_db V" and "REDIS_TENANT_SCOPED_KEYS (db_redis_settings (se_db V))"
    and "se_tenant_id V \<noteq> []" and "ce_db E = se_db V" and "\<forall>(E, chunk)\<in>set ((E0, chunk) # rest). ce_db E = se_db V"
    and "lease_held (gw_db G) (chunk_sid chunk) w" and "stored (gw_db G) (chunk_sid chunk) w"
    and "\<not> key_held (se_db V) (lease_key (se_db V) (chunk_sid chunk) (Some (se_tenant_id V))) w"
    and "r = StreamSession V p exc_str E ((E0, chunk) # rest) active w" and "ss_orchestrator r \<noteq> None"
  shows "lease_held (gw_db G) (chunk_sid chunk) (ss_world r) \<and> ended_in (gw_db G) (chunk_sid chunk) (ss_world r)"
proof -
  have laws: "stream_laws V" using assms(1-3) by (simp add: stream_laws_def gateway_laws_def gateway_up_def)
  have "ended_in (gw_db G) (chunk_sid chunk) (ss_world r)"
    using stream_over [OF laws assms(6,7) _ assms(10), of p exc_str active] assms(3,9,11,12) by (simp add: cached_stored_def)
  moreover have "lease_key (se_db V) (chunk_sid chunk) None \<noteq> stream_key V (chunk_sid chunk)"
    using assms(4,5) by (simp add: lease_key_def scoped_key_def)
  from stream_other_key [OF laws assms(6,7) this lease_session_keys(1), of p exc_str active w]
  have "lease_held (gw_db G) (chunk_sid chunk) (ss_world r)"
    using assms(3,8) unfolding assms(11) by (simp add: lease_held_def key_held_def)
  ultimately show ?thesis by simp
qed

theorem transports_not_exclusive_witness:
  "lease_held gw_mem_db ''s1'' (ss_world (demo_run ws_open_world)) \<and> ended_in gw_mem_db ''s1'' (ss_world (demo_run ws_open_world))"
proof -
  have db: "gw_db demo_gateway = se_db demo_stream" "REDIS_TENANT_SCOPED_KEYS (db_redis_settings (se_db demo_stream))" "se_tenant_id demo_stream \<noteq> []"
    "gw_db demo_gateway = gw_mem_db"
    by (simp_all add: demo_gateway_def demo_stream_def gw_mem_db_def default_redis_settings_def)
  show ?thesis
    using transports_not_exclusive [OF demo_gateway_laws db(1-3) demo_stream_dbs _ _ _ demo_run_def demo_run_open] ws_open_world_facts db(4) by simp
qed

end
