(* ===== verification/Portal_Session.thy ===== *)
theory Portal_Session
  imports AgentOE_Prelude
begin

text \<open>
  The refresh tokens of the operators' portal: \<^verbatim>\<open>app/domain/portal_session.py\<close>. The two collections of the portal are
  a record \<open>portal_db\<close> over an abstract state; SHA-256 and bcrypt are parameters. Each operation reads the clock once.
\<close>

section \<open>Documents\<close>

record psession =
  ps_id :: string
  ps_user :: string
  ps_roles :: "string list"
  ps_hash :: ustr
  ps_created :: time
  ps_expires :: time
  ps_revoked :: bool
  ps_revoked_at :: "time option"

record puser =
  pu_id :: string
  pu_username :: string
  pu_hashed_password :: "string option"
  pu_is_active :: bool
  pu_mfa_enabled :: bool
  pu_mfa_secret_enc :: "ustr option"
  pu_portal_roles :: "string list option"
  pu_last_login :: "time option"
  pu_mfa_enrolled_at :: "time option"

text \<open>\<open>pd_by_age\<close> is the \<open>sort\<close> on \<open>created_at\<close>, which leaves the order of ties open.\<close>

record 'w portal_db =
  pd_ok :: "'w \<Rightarrow> bool"
  pd_sessions :: "'w \<Rightarrow> psession list"
  pd_by_age :: "psession list \<Rightarrow> psession list"
  pd_insert_session :: "psession \<Rightarrow> 'w \<Rightarrow> 'w"
  pd_update_sessions :: "(psession \<Rightarrow> bool) \<Rightarrow> (psession \<Rightarrow> psession) \<Rightarrow> 'w \<Rightarrow> 'w"
  pd_users :: "'w \<Rightarrow> puser list"
  pd_update_user :: "string \<Rightarrow> (puser \<Rightarrow> puser) \<Rightarrow> 'w \<Rightarrow> 'w"

text \<open>Documented behaviour of the commands: insertion appends, updates change the matching documents only.\<close>

definition portal_laws :: "'w portal_db \<Rightarrow> bool" where
  "portal_laws D \<longleftrightarrow>
     (\<forall>xs. mset (pd_by_age D xs) = mset xs \<and> sorted (map ps_created (pd_by_age D xs))) \<and>
     (\<forall>d w. pd_sessions D (pd_insert_session D d w) = pd_sessions D w @ [d]) \<and>
     (\<forall>P f w. pd_sessions D (pd_update_sessions D P f w) = map (\<lambda>d. if P d then f d else d) (pd_sessions D w)) \<and>
     (\<forall>i f w. pd_sessions D (pd_update_user D i f w) = pd_sessions D w) \<and>
     (\<forall>d w. pd_users D (pd_insert_session D d w) = pd_users D w) \<and>
     (\<forall>P f w. pd_users D (pd_update_sessions D P f w) = pd_users D w) \<and>
     (\<forall>i f w. pd_users D (pd_update_user D i f w) = map (\<lambda>u. if pu_id u = i then f u else u) (pd_users D w))"

text \<open>\<open>th_checkpw\<close> is \<open>None\<close> where it raises.\<close>

record token_hash =
  th_sha256 :: "string \<Rightarrow> bytes"
  th_hashpw :: "bytes \<Rightarrow> string \<Rightarrow> ustr"
  th_checkpw :: "bytes \<Rightarrow> ustr \<Rightarrow> bool option"

definition hash_laws :: "token_hash \<Rightarrow> bool" where
  "hash_laws H \<longleftrightarrow> (\<forall>d d' salt. th_checkpw H d (th_hashpw H d' salt) = Some (d = d'))"

text \<open>What one operation draws from outside: the clock, a random token, a salt and an \<open>ObjectId\<close>.\<close>

record session_env =
  se_now :: time
  se_token :: string
  se_salt :: string
  se_id :: string

section \<open>Session manager\<close>

definition DEFAULT_MAX_SESSIONS :: nat where "DEFAULT_MAX_SESSIONS = 3"

definition is_live :: "string \<Rightarrow> psession \<Rightarrow> bool" where
  "is_live user_id d \<longleftrightarrow> ps_user d = user_id \<and> \<not> ps_revoked d"

definition revoke :: "time \<Rightarrow> psession \<Rightarrow> psession" where
  "revoke now d = d\<lparr>ps_revoked := True, ps_revoked_at := Some now\<rparr>"

text \<open>The first half of \<open>create_session\<close>: at the limit the oldest sessions are revoked.\<close>

definition make_room :: "'w portal_db \<Rightarrow> time \<Rightarrow> string \<Rightarrow> nat \<Rightarrow> 'w \<Rightarrow> (unit, 'w) io" where
  "make_room D now user_id max_concurrent w =
     (if \<not> pd_ok D w then (Inl PyMongoError, w)
      else (let live = filter (is_live user_id) (pd_sessions D w);
                n = length live;
                ids = (if n \<ge> max_concurrent then map ps_id (take (n - max_concurrent + 1) (pd_by_age D live)) else [])
            in (Inr (), if ids \<noteq> [] then pd_update_sessions D (\<lambda>d. ps_id d \<in> set ids) (revoke now) w else w)))"

text \<open>The second half: the document of the new session.\<close>

definition insert_session ::
  "'w portal_db \<Rightarrow> token_hash \<Rightarrow> session_env \<Rightarrow> string \<Rightarrow> string list \<Rightarrow> int \<Rightarrow> 'w \<Rightarrow> (string, 'w) io" where
  "insert_session D H env user_id portal_roles expire_h w =
     (if \<not> pd_ok D w then (Inl PyMongoError, w)
      else (Inr (se_token env),
            pd_insert_session D
              \<lparr>ps_id = se_id env, ps_user = user_id, ps_roles = portal_roles,
               ps_hash = th_hashpw H (th_sha256 H (se_token env)) (se_salt env), ps_created = se_now env,
               ps_expires = se_now env + expire_h * 3600000, ps_revoked = False, ps_revoked_at = None\<rparr> w))"

definition create_session ::
  "'w portal_db \<Rightarrow> token_hash \<Rightarrow> int \<Rightarrow> session_env \<Rightarrow> string \<Rightarrow> string list \<Rightarrow> nat \<Rightarrow> int \<Rightarrow> 'w \<Rightarrow> (string, 'w) io" where
  "create_session D H default_hours env user_id portal_roles max_concurrent expire_hours w =
     (let expire_h = (if expire_hours \<noteq> 0 then expire_hours else default_hours)
      in io_bind (make_room D (se_now env) user_id max_concurrent w) (\<lambda>_. insert_session D H env user_id portal_roles expire_h))"

definition token_matches :: "token_hash \<Rightarrow> string \<Rightarrow> psession \<Rightarrow> bool" where
  "token_matches H token d \<longleftrightarrow> th_checkpw H (th_sha256 H token) (ps_hash d) = Some True"

definition find_session :: "'w portal_db \<Rightarrow> token_hash \<Rightarrow> time \<Rightarrow> string \<Rightarrow> string \<Rightarrow> 'w \<Rightarrow> psession option" where
  "find_session D H now old_token user_id w =
     find (token_matches H old_token) (filter (\<lambda>d. is_live user_id d \<and> now < ps_expires d) (pd_sessions D w))"

definition rotate_session ::
  "'w portal_db \<Rightarrow> token_hash \<Rightarrow> int \<Rightarrow> session_env \<Rightarrow> string \<Rightarrow> string \<Rightarrow> 'w \<Rightarrow> (string option, 'w) io" where
  "rotate_session D H default_hours env old_token user_id w =
     (if \<not> pd_ok D w then (Inl PyMongoError, w)
      else (case find_session D H (se_now env) old_token user_id w of
              None \<Rightarrow> (Inr None, w)
            | Some matched \<Rightarrow>
                io_bind
                  (create_session D H default_hours env user_id (ps_roles matched) DEFAULT_MAX_SESSIONS 8
                     (pd_update_sessions D (\<lambda>d. ps_id d = ps_id matched) (revoke (se_now env)) w))
                  (\<lambda>token w'. (Inr (Some token), w'))))"

definition revoke_all :: "'w portal_db \<Rightarrow> time \<Rightarrow> string \<Rightarrow> 'w \<Rightarrow> (nat, 'w) io" where
  "revoke_all D now user_id w =
     (if \<not> pd_ok D w then (Inl PyMongoError, w)
      else (Inr (length (filter (is_live user_id) (pd_sessions D w))),
            pd_update_sessions D (is_live user_id) (revoke now) w))"

section \<open>Lemmas\<close>

lemma portal_rules:
  assumes "portal_laws D"
  shows "mset (pd_by_age D xs) = mset xs"
    and "sorted (map ps_created (pd_by_age D xs))"
    and "pd_sessions D (pd_insert_session D d w) = pd_sessions D w @ [d]"
    and "pd_sessions D (pd_update_sessions D P f w) = map (\<lambda>d. if P d then f d else d) (pd_sessions D w)"
    and "pd_sessions D (pd_update_user D i g w) = pd_sessions D w"
    and "pd_users D (pd_insert_session D d w) = pd_users D w"
    and "pd_users D (pd_update_sessions D P f w) = pd_users D w"
    and "pd_users D (pd_update_user D i g w) = map (\<lambda>u. if pu_id u = i then g u else u) (pd_users D w)"
  using assms unfolding portal_laws_def by blast+

abbreviation live :: "'w portal_db \<Rightarrow> string \<Rightarrow> 'w \<Rightarrow> psession list" where
  "live D u w \<equiv> filter (is_live u) (pd_sessions D w)"

lemma revoke_fields [simp]:
  "ps_id (revoke now d) = ps_id d" "ps_user (revoke now d) = ps_user d" "\<not> is_live u (revoke now d)"
  by (simp_all add: revoke_def is_live_def)

lemma live_update:
  assumes "portal_laws D"
  shows "live D u (pd_update_sessions D P (revoke now) w) = filter (\<lambda>d. \<not> P d) (live D u w)"
proof -
  have "filter (is_live u) (map (\<lambda>d. if P d then revoke now d else d) xs) = filter (\<lambda>d. \<not> P d) (filter (is_live u) xs)" for xs
    by (induction xs) auto
  then show ?thesis by (simp add: portal_rules [OF assms])
qed

lemma ids_update:
  assumes "portal_laws D"
  shows "map ps_id (pd_sessions D (pd_update_sessions D P (revoke now) w)) = map ps_id (pd_sessions D w)"
  by (auto simp: portal_rules(4) [OF assms])

text \<open>Dropping the first elements of an ordering by their ids.\<close>

lemma length_filter_not_taken:
  assumes "mset ys = mset xs"
  shows "length (filter (\<lambda>d. ps_id d \<notin> ps_id ` set (take k ys)) xs) \<le> length xs - k"
proof -
  let ?Q = "\<lambda>d. ps_id d \<notin> ps_id ` set (take k ys)"
  have "length (filter ?Q xs) = length (filter ?Q ys)"
    by (metis assms mset_filter size_mset)
  also have "\<dots> = length (filter ?Q (take k ys)) + length (filter ?Q (drop k ys))"
    by (metis append_take_drop_id filter_append length_append)
  also have "filter ?Q (take k ys) = []" by (simp add: filter_empty_conv)
  finally show ?thesis using length_filter_le [of ?Q "drop k ys"] mset_eq_length [OF assms] by simp
qed

text \<open>Either nothing changes, or exactly the oldest sessions over the limit are revoked.\<close>

lemma make_room_cases:
  assumes "portal_laws D" and "make_room D now u m w = (r, w')"
  obtains (same) "w' = w" "r = Inr () \<longrightarrow> length (live D u w) < m \<or> m = 0"
  | (revoked) "m \<le> length (live D u w)"
      "w' = pd_update_sessions D
        (\<lambda>d. ps_id d \<in> ps_id ` set (take (length (live D u w) - m + 1) (pd_by_age D (live D u w)))) (revoke now) w"
proof (cases "pd_ok D w \<and> m \<le> length (live D u w)")
  case True
  show thesis
  proof (cases "pd_by_age D (live D u w) = []")
    case True
    then have "live D u w = []" using mset_eq_length [OF portal_rules(1) [OF assms(1), of "live D u w"]] by simp
    with True assms(2) have "w' = w" by (auto simp: make_room_def Let_def split: if_splits)
    with \<open>live D u w = []\<close> \<open>pd_ok D w \<and> m \<le> length (live D u w)\<close> show thesis by (intro same) simp_all
  next
    case False
    with True assms(2) show thesis by (intro revoked) (simp_all add: make_room_def Let_def)
  qed
next
  case False
  with assms(2) show thesis by (intro same) (auto simp: make_room_def Let_def split: if_splits)
qed

lemma distinct_ids:
  assumes "distinct (map ps_id (pd_sessions D w))" and "d \<in> set (pd_sessions D w)" "e \<in> set (pd_sessions D w)" "ps_id d = ps_id e"
  shows "d = e"
  using assms by (meson distinct_map inj_onD)

lemma by_age_set:
  assumes "portal_laws D"
  shows "set (pd_by_age D xs) = set xs" and "length (pd_by_age D xs) = length xs"
  using mset_eq_setD [OF portal_rules(1) [OF assms]] mset_eq_length [OF portal_rules(1) [OF assms]] by blast+

lemma make_room_effect:
  assumes laws: "portal_laws D" and run: "make_room D now u m w = (r, w')"
  shows "v \<noteq> u \<Longrightarrow> distinct (map ps_id (pd_sessions D w)) \<Longrightarrow> live D v w' = live D v w"
    and "r = Inr x \<Longrightarrow> 0 < m \<Longrightarrow> length (live D u w') < m"
    and "length (live D v w') \<le> length (live D v w)"
    and "map ps_id (pd_sessions D w') = map ps_id (pd_sessions D w)" and "pd_users D w' = pd_users D w"
    and "set (live D v w') \<subseteq> set (live D v w)"
proof -
  let ?old = "take (length (live D u w) - m + 1) (pd_by_age D (live D u w))"
  have "ps_id d \<notin> ps_id ` set ?old"
    if "v \<noteq> u" "distinct (map ps_id (pd_sessions D w))" "d \<in> set (live D v w)" for d
  proof
    assume "ps_id d \<in> ps_id ` set ?old"
    then obtain e where e: "ps_id d = ps_id e" "e \<in> set (live D u w)"
      using by_age_set(1) [OF laws, of "live D u w"] set_take_subset by fastforce
    then have "d = e" using distinct_ids [OF that(2)] that(3) by simp
    with e that(1,3) show False by (simp add: is_live_def)
  qed
  then show "live D v w' = live D v w" if "v \<noteq> u" "distinct (map ps_id (pd_sessions D w))"
    using that by (cases rule: make_room_cases [OF laws run]) (auto simp: live_update [OF laws] intro!: filter_cong)
  show "length (live D u w') < m" if "r = Inr x" "0 < m"
    using that length_filter_not_taken [OF portal_rules(1) [OF laws, of "live D u w"], of "length (live D u w) - m + 1"]
    by (cases rule: make_room_cases [OF laws run]) (auto simp: live_update [OF laws])
  show "length (live D v w') \<le> length (live D v w)"
    by (cases rule: make_room_cases [OF laws run]) (simp_all add: live_update [OF laws] del: filter_filter)
  show "set (live D v w') \<subseteq> set (live D v w)"
    by (cases rule: make_room_cases [OF laws run]) (auto simp: live_update [OF laws])
  show "map ps_id (pd_sessions D w') = map ps_id (pd_sessions D w)" "pd_users D w' = pd_users D w"
    by (cases rule: make_room_cases [OF laws run]; simp add: ids_update [OF laws] portal_rules(7) [OF laws])+
qed

text \<open>The sessions revoked to make room are the oldest.\<close>

lemma make_room_keeps_newest:
  assumes laws: "portal_laws D" and run: "make_room D now u m w = (r, w')"
    and "d \<in> set (live D u w) - set (live D u w')" and "e \<in> set (live D u w')" and ids: "distinct (map ps_id (pd_sessions D w))"
  shows "ps_created d \<le> ps_created e"
proof (cases rule: make_room_cases [OF laws run, case_names same revoked])
  case same
  then show ?thesis using assms(3) by simp
next
  case revoked
  let ?ys = "pd_by_age D (live D u w)" and ?k = "length (live D u w) - m + 1"
  have w': "set (live D u w') = {d \<in> set (live D u w). ps_id d \<notin> ps_id ` set (take ?k ?ys)}"
    using revoked(2) by (auto simp: live_update [OF laws])
  then have "ps_id d \<in> ps_id ` set (take ?k ?ys)" and e: "e \<in> set (live D u w)" "ps_id e \<notin> ps_id ` set (take ?k ?ys)"
    using assms(3,4) by auto
  then obtain d' where d': "d' \<in> set (take ?k ?ys)" "ps_id d = ps_id d'" by auto
  then have "d' \<in> set (live D u w)" using by_age_set(1) [OF laws, of "live D u w"] in_set_takeD by metis
  then have "d' = d" using distinct_ids [OF ids, of d' d] d'(2) assms(3) by auto
  moreover have "e \<in> set (drop ?k ?ys)"
    using e by_age_set(1) [OF laws, of "live D u w"] by (metis Un_iff append_take_drop_id image_eqI set_append)
  moreover have "sorted_wrt (\<lambda>a b. ps_created a \<le> ps_created b) (take ?k ?ys @ drop ?k ?ys)"
    using portal_rules(2) [OF laws, of "live D u w"] by (simp add: sorted_wrt_map)
  ultimately show ?thesis using d'(1) unfolding sorted_wrt_append by blast
qed

definition new_session :: "token_hash \<Rightarrow> session_env \<Rightarrow> string \<Rightarrow> string list \<Rightarrow> int \<Rightarrow> psession" where
  "new_session H env u roles h =
     \<lparr>ps_id = se_id env, ps_user = u, ps_roles = roles, ps_hash = th_hashpw H (th_sha256 H (se_token env)) (se_salt env),
      ps_created = se_now env, ps_expires = se_now env + h * 3600000, ps_revoked = False, ps_revoked_at = None\<rparr>"

lemma insert_session_cases:
  assumes "insert_session D H env u roles h w = (r, w')"
  obtains "w' = w" "r = Inl PyMongoError" | "w' = pd_insert_session D (new_session H env u roles h) w" "r = Inr (se_token env)"
  using assms that by (auto simp: insert_session_def new_session_def split: if_splits)

lemma live_insert:
  assumes "portal_laws D"
  shows "live D v (pd_insert_session D (new_session H env u roles h) w) =
    live D v w @ (if v = u then [new_session H env u roles h] else [])"
  by (simp add: portal_rules(3) [OF assms]) (simp add: is_live_def new_session_def)

text \<open>Creating a session either fails after making room, or adds the new session to what is left.\<close>

lemma create_session_cases:
  assumes "create_session D H dh env u roles m eh w = (r, w')"
  obtains (failed) q e where "make_room D (se_now env) u m w = (q, w')" "r = Inl e"
  | (created) w1 where "make_room D (se_now env) u m w = (Inr (), w1)" "r = Inr (se_token env)"
      "w' = pd_insert_session D (new_session H env u roles (if eh \<noteq> 0 then eh else dh)) w1"
proof -
  obtain q w1 where room: "make_room D (se_now env) u m w = (q, w1)" by fastforce
  show thesis
  proof (cases q)
    case (Inl e)
    with room assms show thesis by (intro failed) (auto simp: create_session_def)
  next
    case (Inr x)
    then have "insert_session D H env u roles (if eh \<noteq> 0 then eh else dh) w1 = (r, w')"
      using room assms by (simp add: create_session_def Let_def)
    then show thesis
    proof (cases rule: insert_session_cases)
      case 1
      with room show thesis by (intro failed) auto
    next
      case 2
      with room Inr show thesis by (intro created) auto
    qed
  qed
qed

definition sessions_ok :: "'w portal_db \<Rightarrow> nat \<Rightarrow> 'w \<Rightarrow> bool" where
  "sessions_ok D m w \<longleftrightarrow> distinct (map ps_id (pd_sessions D w)) \<and> (\<forall>u. length (live D u w) \<le> m)"

definition fresh_id :: "'w portal_db \<Rightarrow> session_env \<Rightarrow> 'w \<Rightarrow> bool" where
  "fresh_id D env w \<longleftrightarrow> se_id env \<notin> ps_id ` set (pd_sessions D w)"

lemma sessions_ok_update:
  assumes "portal_laws D" and "sessions_ok D m w"
  shows "sessions_ok D m (pd_update_sessions D P (revoke now) w)"
  using assms(2) unfolding sessions_ok_def ids_update [OF assms(1)] live_update [OF assms(1)]
  by (auto simp del: filter_filter intro: le_trans [OF length_filter_le])

lemma create_session_ok:
  assumes laws: "portal_laws D" and "0 < m" and ok: "sessions_ok D m w" and fresh: "fresh_id D env w"
    and run: "create_session D H dh env u roles m eh w = (r, w')"
  shows "sessions_ok D m w'"
  using run
proof (cases rule: create_session_cases [case_names failed created])
  case (failed q e)
  with ok make_room_effect(3,4) [OF laws failed(1)] show ?thesis
    unfolding sessions_ok_def by (metis le_trans)
next
  case (created w1)
  have ids: "map ps_id (pd_sessions D w1) = map ps_id (pd_sessions D w)" by (rule make_room_effect(4) [OF laws created(1)])
  have "distinct (map ps_id (pd_sessions D w'))"
    using ok fresh ids arg_cong [OF ids, of set] unfolding created(3) sessions_ok_def fresh_id_def
    by (simp add: portal_rules(3) [OF laws] new_session_def)
  moreover have "length (live D v w') \<le> m" for v
    using make_room_effect(2) [OF laws created(1) refl \<open>0 < m\<close>] make_room_effect(3) [OF laws created(1), of v] ok
    unfolding created(3) live_insert [OF laws] sessions_ok_def by (cases "v = u") (auto intro: le_trans)
  ultimately show ?thesis by (simp add: sessions_ok_def)
qed

lemma rotate_session_cases:
  assumes "rotate_session D H dh env tok u w = (r, w')"
  obtains (failed) "w' = w" "r = Inl PyMongoError \<or> r = Inr None"
  | (found) d q where "find_session D H (se_now env) tok u w = Some d"
      "create_session D H dh env u (ps_roles d) DEFAULT_MAX_SESSIONS 8
         (pd_update_sessions D (\<lambda>e. ps_id e = ps_id d) (revoke (se_now env)) w) = (q, w')"
      "r = map_sum id Some q"
proof (cases "pd_ok D w")
  case True
  show thesis
  proof (cases "find_session D H (se_now env) tok u w")
    case None
    with True assms show thesis by (intro failed) (auto simp: rotate_session_def)
  next
    case (Some d)
    obtain q w2 where c: "create_session D H dh env u (ps_roles d) DEFAULT_MAX_SESSIONS 8
         (pd_update_sessions D (\<lambda>e. ps_id e = ps_id d) (revoke (se_now env)) w) = (q, w2)" by fastforce
    with True Some assms have "r = map_sum id Some q \<and> w' = w2" by (cases q) (auto simp: rotate_session_def)
    with Some c show thesis by (intro found) auto
  qed
qed (use assms failed in \<open>auto simp: rotate_session_def\<close>)

text \<open>Whose sessions there are: only a creation adds an owner, and it adds the user it is for.\<close>

abbreviation owners :: "'w portal_db \<Rightarrow> 'w \<Rightarrow> string set" where
  "owners D w \<equiv> ps_user ` set (pd_sessions D w)"

lemma owners_update:
  assumes "portal_laws D"
  shows "owners D (pd_update_sessions D P (revoke now) w) = owners D w"
proof -
  have "map ps_user (pd_sessions D (pd_update_sessions D P (revoke now) w)) = map ps_user (pd_sessions D w)"
    by (auto simp: portal_rules(4) [OF assms])
  then show ?thesis by (metis image_set)
qed

lemma create_session_frame:
  assumes laws: "portal_laws D" and run: "create_session D H dh env u roles m eh w = (r, w')"
  shows "owners D w' \<subseteq> insert u (owners D w)" and "pd_users D w' = pd_users D w"
proof -
  have room: "owners D w1 = owners D w \<and> pd_users D w1 = pd_users D w" if "make_room D now u m w = (q, w1)" for now q w1
    by (cases rule: make_room_cases [OF laws that]) (simp_all add: owners_update [OF laws] portal_rules(7) [OF laws])
  have "owners D w' \<subseteq> insert u (owners D w) \<and> pd_users D w' = pd_users D w"
    using run
  proof (cases rule: create_session_cases [case_names failed created])
    case (failed q e)
    with room show ?thesis by blast
  next
    case (created w1)
    with room [OF created(1)] show ?thesis by (auto simp: portal_rules [OF laws] new_session_def)
  qed
  then show "owners D w' \<subseteq> insert u (owners D w)" "pd_users D w' = pd_users D w" by blast+
qed

lemma rotate_session_frame:
  assumes laws: "portal_laws D" and run: "rotate_session D H dh env tok u w = (r, w')"
  shows "owners D w' \<subseteq> owners D w" and "pd_users D w' = pd_users D w"
proof -
  have "owners D w' \<subseteq> owners D w \<and> pd_users D w' = pd_users D w"
    using run
  proof (cases rule: rotate_session_cases [case_names failed found])
    case (found d q)
    have "u \<in> owners D w" using find_SomeD [OF found(1) [unfolded find_session_def]] by (auto simp: is_live_def)
    with create_session_frame [OF laws found(2)] show ?thesis by (auto simp: owners_update [OF laws] portal_rules(7) [OF laws])
  qed simp
  then show "owners D w' \<subseteq> owners D w" "pd_users D w' = pd_users D w" by blast+
qed

lemma rotate_session_ok:
  assumes laws: "portal_laws D" and ok: "sessions_ok D DEFAULT_MAX_SESSIONS w" and fresh: "fresh_id D env w"
    and run: "rotate_session D H dh env tok u w = (r, w')"
  shows "sessions_ok D DEFAULT_MAX_SESSIONS w'"
  using run
proof (cases rule: rotate_session_cases [case_names failed found])
  case (found d q)
  have "fresh_id D env (pd_update_sessions D (\<lambda>e. ps_id e = ps_id d) (revoke (se_now env)) w)"
    using fresh arg_cong [OF ids_update [OF laws], of set] by (auto simp: fresh_id_def)
  with create_session_ok [OF laws _ sessions_ok_update [OF laws ok] _ found(2)] show ?thesis
    by (simp add: DEFAULT_MAX_SESSIONS_def)
qed (use ok in simp)

lemma revoke_all_ok:
  assumes laws: "portal_laws D" and "revoke_all D now u w = (k, w')"
  shows "sessions_ok D m w \<Longrightarrow> sessions_ok D m w'" and "owners D w' = owners D w" and "pd_users D w' = pd_users D w"
proof -
  consider "w' = w" | "w' = pd_update_sessions D (is_live u) (revoke now) w"
    using assms(2) by (auto simp: revoke_all_def split: if_splits)
  then show "sessions_ok D m w \<Longrightarrow> sessions_ok D m w'" "owners D w' = owners D w" "pd_users D w' = pd_users D w"
    by (cases; simp add: sessions_ok_update [OF laws] owners_update [OF laws] portal_rules(7) [OF laws])+
qed

text \<open>The operations of the manager one after the other, with the ids MongoDB generates new each time.\<close>

inductive manager_step :: "'w portal_db \<Rightarrow> token_hash \<Rightarrow> int \<Rightarrow> 'w \<Rightarrow> 'w \<Rightarrow> bool" for D H dh where
  create: "create_session D H dh env u roles DEFAULT_MAX_SESSIONS hours w = (r, w') \<Longrightarrow> fresh_id D env w \<Longrightarrow> manager_step D H dh w w'"
| rotated: "rotate_session D H dh env tok u w = (r', w') \<Longrightarrow> fresh_id D env w \<Longrightarrow> manager_step D H dh w w'"
| logout: "revoke_all D now u w = (k, w') \<Longrightarrow> manager_step D H dh w w'"

lemma manager_step_ok:
  assumes laws: "portal_laws D" and "manager_step D H dh w w'" and ok: "sessions_ok D DEFAULT_MAX_SESSIONS w"
  shows "sessions_ok D DEFAULT_MAX_SESSIONS w'"
  using assms(2)
proof cases
  case (create env u roles hours r)
  then show ?thesis using create_session_ok [OF laws _ ok] by (simp add: DEFAULT_MAX_SESSIONS_def)
next
  case (rotated env tok u r')
  then show ?thesis using rotate_session_ok [OF laws ok] by blast
next
  case (logout now u k)
  then show ?thesis using revoke_all_ok(1) [OF laws logout] ok by blast
qed

text \<open>Any number of creations of one user that have all made room insert without looking again.\<close>

definition insert_all :: "'w portal_db \<Rightarrow> token_hash \<Rightarrow> string \<Rightarrow> string list \<Rightarrow> int \<Rightarrow> session_env list \<Rightarrow> 'w \<Rightarrow> 'w" where
  "insert_all D H u roles h envs w = fold (\<lambda>env w. snd (insert_session D H env u roles h w)) envs w"

lemma live_insert_all:
  assumes "portal_laws D" and "\<And>w. pd_ok D w"
  shows "length (live D u (insert_all D H u roles h envs w)) = length (live D u w) + length envs"
proof (induction envs arbitrary: w)
  case (Cons env envs)
  have "snd (insert_session D H env u roles h w) = pd_insert_session D (new_session H env u roles h) w"
    using assms(2) by (simp add: insert_session_def new_session_def)
  with Cons [of "pd_insert_session D (new_session H env u roles h) w"] live_insert [OF assms(1), of u H env u roles h w]
  show ?case by (simp add: insert_all_def)
qed (simp add: insert_all_def)

lemma make_room_below: "pd_ok D w \<Longrightarrow> length (live D u w) < m \<Longrightarrow> make_room D now u m w = (Inr (), w)"
  by (simp add: make_room_def Let_def)

text \<open>Both collections in memory.\<close>

definition mem_portal :: "(psession list \<times> puser list) portal_db" where
  "mem_portal = \<lparr>pd_ok = (\<lambda>_. True), pd_sessions = fst, pd_by_age = sort_key ps_created,
     pd_insert_session = (\<lambda>d w. (fst w @ [d], snd w)),
     pd_update_sessions = (\<lambda>P f w. (map (\<lambda>d. if P d then f d else d) (fst w), snd w)), pd_users = snd,
     pd_update_user = (\<lambda>i f w. (fst w, map (\<lambda>u. if pu_id u = i then f u else u) (snd w)))\<rparr>"

lemma mem_portal_laws: "portal_laws mem_portal" and mem_portal_up: "pd_ok mem_portal w"
  by (simp_all add: portal_laws_def mem_portal_def)

text \<open>Hashes that are the digest itself, for the witnesses.\<close>

definition plain_hash :: token_hash where
  "plain_hash = \<lparr>th_sha256 = of_str, th_hashpw = (\<lambda>d salt. d), th_checkpw = (\<lambda>d h. Some (d = h))\<rparr>"

definition demo_env :: "string \<Rightarrow> time \<Rightarrow> session_env" where
  "demo_env i now = \<lparr>se_now = now, se_token = ''token-'' @ i, se_salt = [], se_id = i\<rparr>"

section \<open>Properties\<close>

text \<open>
  How many sessions a user can have. Creations, rotations and logouts one after the other never leave a user with more
  than three live sessions; making room revokes sessions of that user alone, and the oldest first. The count and the
  insertion are separate requests: sessions of one user that are created at the same time, while there is still room, are
  all kept, however many they are.
\<close>

theorem session_limit:
  assumes "portal_laws D"
  shows "((manager_step D H dh)\<^sup>*\<^sup>* w0 w \<and> sessions_ok D 3 w0 \<longrightarrow> sessions_ok D 3 w) \<and>
    (make_room D now u m w = (r, w') \<and> distinct (map ps_id (pd_sessions D w)) \<longrightarrow>
       (\<forall>v. v \<noteq> u \<longrightarrow> live D v w' = live D v w) \<and>
       (\<forall>d\<in>set (live D u w) - set (live D u w'). \<forall>e\<in>set (live D u w'). ps_created d \<le> ps_created e)) \<and>
    ((\<forall>w. pd_ok D w) \<and> length (live D u w) < m \<longrightarrow>
       make_room D now u m w = (Inr (), w) \<and>
       length (live D u (insert_all D H u roles h envs w)) = length (live D u w) + length envs)"
proof (intro conjI impI allI ballI)
  assume "(manager_step D H dh)\<^sup>*\<^sup>* w0 w \<and> sessions_ok D 3 w0"
  then have "(manager_step D H dh)\<^sup>*\<^sup>* w0 w" "sessions_ok D 3 w0" by blast+
  then show "sessions_ok D 3 w"
    by (induction rule: rtranclp_induct) (use manager_step_ok [OF assms] in \<open>auto simp: DEFAULT_MAX_SESSIONS_def\<close>)
next
  fix v assume "make_room D now u m w = (r, w') \<and> distinct (map ps_id (pd_sessions D w))" "v \<noteq> u"
  then show "live D v w' = live D v w" using make_room_effect(1) [OF assms] by blast
next
  fix d e assume "make_room D now u m w = (r, w') \<and> distinct (map ps_id (pd_sessions D w))"
    and "d \<in> set (live D u w) - set (live D u w')" "e \<in> set (live D u w')"
  then show "ps_created d \<le> ps_created e" using make_room_keeps_newest [OF assms] by blast
next
  assume up: "(\<forall>w. pd_ok D w) \<and> length (live D u w) < m"
  then show "make_room D now u m w = (Inr (), w)" by (intro make_room_below) simp_all
  show "length (live D u (insert_all D H u roles h envs w)) = length (live D u w) + length envs"
    using up by (intro live_insert_all [OF assms]) simp
qed

theorem session_limit_witness:
  "length (live mem_portal ''u'' (insert_all mem_portal plain_hash ''u'' [] 8 (map (\<lambda>i. demo_env i 0) [''a'', ''b'', ''c'', ''d'']) ([], []))) = 4"
proof -
  have "(\<forall>w. pd_ok mem_portal w) \<and> length (live mem_portal ''u'' ([], [])) < (3 :: nat)" by (simp add: mem_portal_def)
  then have "length (live mem_portal ''u'' (insert_all mem_portal plain_hash ''u'' [] 8 (map (\<lambda>i. demo_env i 0) [''a'', ''b'', ''c'', ''d'']) ([], [])))
      = length (live mem_portal ''u'' ([], [])) + length (map (\<lambda>i. demo_env i 0) [''a'', ''b'', ''c'', ''d''])"
    using session_limit [OF mem_portal_laws, THEN conjunct2, THEN conjunct2] by blast
  then show ?thesis by (simp add: mem_portal_def)
qed



end
