(* ===== verification/Mfa_Secret.thy ===== *)
theory Mfa_Secret
  imports Base64_Codec
begin

text \<open>
  How the second-factor secrets of the portal are stored: the envelope helpers of \<^verbatim>\<open>app/api/v1/routers/auth_portal.py\<close> and the
  payload format of \<^verbatim>\<open>app/infra/kms_client.py\<close>. AES-GCM and the key service are parameters; secrets are
  ASCII, so \<open>encode\<close> is the identity on code points. Exceptions of the ciphers and of the service are \<open>None\<close>.
\<close>

section \<open>Payload format\<close>

definition pack_kms_payload :: "bytes \<Rightarrow> bytes \<Rightarrow> bytes \<Rightarrow> bytes option" where
  "pack_kms_payload encrypted_dek nonce ciphertext =
     (if length nonce \<noteq> 12 then None
      else if length encrypted_dek \<ge> 65536 then None
      else Some ([length encrypted_dek div 256, length encrypted_dek mod 256] @ encrypted_dek @ nonce @ ciphertext))"

definition unpack_kms_payload :: "bytes \<Rightarrow> (bytes \<times> bytes \<times> bytes) option" where
  "unpack_kms_payload raw =
     (case raw of
        a # b # rest \<Rightarrow>
          (let dek_len = 256 * a + b
           in if length rest < dek_len + 12 then None
              else Some (take dek_len rest, take 12 (drop dek_len rest), drop (dek_len + 12) rest))
      | _ \<Rightarrow> None)"

section \<open>Secrets\<close>

record mfa_settings =
  PORTAL_MFA_ENVELOPE_KEY :: "bytes option"
  PORTAL_KMS_KEY_ID :: string

record mfa_crypto =
  aes_encrypt :: "bytes \<Rightarrow> bytes \<Rightarrow> bytes \<Rightarrow> bytes option"
  aes_decrypt :: "bytes \<Rightarrow> bytes \<Rightarrow> bytes \<Rightarrow> bytes option"
  kms_generate :: "string \<Rightarrow> (bytes \<times> bytes) option"
  kms_decrypt :: "bytes \<Rightarrow> bytes option"

definition KMS_PREFIX :: ustr where "KMS_PREFIX = [107, 109, 115, 58]"

text \<open>\<open>bytes.fromhex(key)[:32]\<close> is taken of the configured key when it is used.\<close>

definition encrypt_mfa_secret_envkey :: "mfa_settings \<Rightarrow> mfa_crypto \<Rightarrow> bytes \<Rightarrow> ustr \<Rightarrow> ustr option" where
  "encrypt_mfa_secret_envkey cfg C nonce secret =
     (case PORTAL_MFA_ENVELOPE_KEY cfg of
        None \<Rightarrow> Some (b64encode secret)
      | Some key \<Rightarrow> map_option (\<lambda>ct. b64encode (nonce @ ct)) (aes_encrypt C (take 32 key) nonce secret))"

definition decrypt_mfa_secret_envkey :: "mfa_settings \<Rightarrow> mfa_crypto \<Rightarrow> ustr \<Rightarrow> ustr option" where
  "decrypt_mfa_secret_envkey cfg C ciphertext =
     (case PORTAL_MFA_ENVELOPE_KEY cfg of
        None \<Rightarrow> b64decode ciphertext
      | Some key \<Rightarrow>
          (case b64decode ciphertext of
             None \<Rightarrow> None
           | Some raw \<Rightarrow> aes_decrypt C (take 32 key) (take 12 raw) (drop 12 raw)))"

text \<open>The branch with the key service; \<open>None\<close> when anything in it raises.\<close>

definition encrypt_with_kms :: "mfa_settings \<Rightarrow> mfa_crypto \<Rightarrow> bytes \<Rightarrow> ustr \<Rightarrow> ustr option" where
  "encrypt_with_kms cfg C nonce secret =
     (case kms_generate C (PORTAL_KMS_KEY_ID cfg) of
        None \<Rightarrow> None
      | Some (plaintext_dek, encrypted_dek) \<Rightarrow>
          (case aes_encrypt C plaintext_dek nonce secret of
             None \<Rightarrow> None
           | Some ct \<Rightarrow> map_option (\<lambda>payload. KMS_PREFIX @ b64encode payload) (pack_kms_payload encrypted_dek nonce ct)))"

definition encrypt_mfa_secret :: "mfa_settings \<Rightarrow> mfa_crypto \<Rightarrow> bytes \<Rightarrow> bytes \<Rightarrow> ustr \<Rightarrow> ustr option" where
  "encrypt_mfa_secret cfg C nonce nonce2 secret =
     (if PORTAL_KMS_KEY_ID cfg \<noteq> []
      then (case encrypt_with_kms cfg C nonce secret of
              Some t \<Rightarrow> Some t | None \<Rightarrow> encrypt_mfa_secret_envkey cfg C nonce2 secret)
      else encrypt_mfa_secret_envkey cfg C nonce2 secret)"

definition decrypt_mfa_secret :: "mfa_settings \<Rightarrow> mfa_crypto \<Rightarrow> ustr \<Rightarrow> ustr option" where
  "decrypt_mfa_secret cfg C ciphertext =
     (if starts_with KMS_PREFIX ciphertext
      then (case b64decode (drop (length KMS_PREFIX) ciphertext) of
              None \<Rightarrow> None
            | Some raw \<Rightarrow>
                (case unpack_kms_payload raw of
                   None \<Rightarrow> None
                 | Some (encrypted_dek, nonce, ct) \<Rightarrow>
                     (case kms_decrypt C encrypted_dek of
                        None \<Rightarrow> None
                      | Some dek \<Rightarrow> aes_decrypt C dek nonce ct)))
      else decrypt_mfa_secret_envkey cfg C ciphertext)"

section \<open>Lemmas\<close>

lemma unpack_pack:
  assumes "pack_kms_payload dek nonce ct = Some raw"
  shows "unpack_kms_payload raw = Some (dek, nonce, ct)"
  using assms by (auto simp: pack_kms_payload_def unpack_kms_payload_def Let_def split: if_splits)

lemma pack_bytes:
  assumes "pack_kms_payload dek nonce ct = Some raw" and "\<forall>x\<in>set dek \<union> set nonce \<union> set ct. x < 256"
  shows "\<forall>x\<in>set raw. x < 256"
  using assms by (auto simp: pack_kms_payload_def split: if_splits)

lemma b64_char_not_colon: "n < 64 \<Longrightarrow> 58 \<noteq> b64_char n"
  by (auto simp: b64_char_def)

lemma b64encode_no_colon: "\<forall>x\<in>set xs. x < 256 \<Longrightarrow> 58 \<notin> set (b64encode xs)"
proof (induction xs rule: b64encode.induct)
  case (4 a b c xs)
  then show ?case using sextets_lt [of a b c] by (simp add: b64_char_not_colon)
next
  case (3 a b)
  then show ?case using sextets_lt [of a b 0] by (simp add: b64_char_not_colon)
next
  case (2 a)
  then show ?case using sextets_lt [of a 0 0] by (simp add: b64_char_not_colon)
qed simp

lemma envkey_not_kms: "\<forall>x\<in>set xs. x < 256 \<Longrightarrow> \<not> starts_with KMS_PREFIX (b64encode xs)"
  using b64encode_no_colon [of xs] by (auto simp: starts_with_iff KMS_PREFIX_def)

text \<open>
  What is relied on of the ciphers and of the key service: a ciphertext opens under the key and nonce it was made with,
  the service opens the data keys it hands out, and what they give are bytes.
\<close>

definition crypto_laws :: "mfa_crypto \<Rightarrow> bool" where
  "crypto_laws C \<longleftrightarrow>
     (\<forall>k n s c. aes_encrypt C k n s = Some c \<longrightarrow> aes_decrypt C k n c = Some s) \<and>
     (\<forall>k n s c. aes_encrypt C k n s = Some c \<longrightarrow> (\<forall>x\<in>set s. x < 256) \<longrightarrow> (\<forall>x\<in>set c. x < 256)) \<and>
     (\<forall>i p e. kms_generate C i = Some (p, e) \<longrightarrow> kms_decrypt C e = Some p \<and> (\<forall>x\<in>set e. x < 256))"

lemma crypto_rules:
  assumes "crypto_laws C"
  shows "aes_encrypt C k n s = Some c \<Longrightarrow> aes_decrypt C k n c = Some s"
    and "aes_encrypt C k n s = Some c \<Longrightarrow> \<forall>x\<in>set s. x < 256 \<Longrightarrow> \<forall>x\<in>set c. x < 256"
    and "kms_generate C i = Some (p, e) \<Longrightarrow> kms_decrypt C e = Some p"
    and "kms_generate C i = Some (p, e) \<Longrightarrow> \<forall>x\<in>set e. x < 256"
  using assms unfolding crypto_laws_def by blast+

lemma envkey_roundtrip:
  assumes laws: "crypto_laws C" and enc: "encrypt_mfa_secret_envkey cfg C nonce secret = Some t"
    and bytes: "\<forall>x\<in>set nonce \<union> set secret. x < 256" and len: "length nonce = 12"
  shows "\<not> starts_with KMS_PREFIX t \<and> decrypt_mfa_secret_envkey cfg C t = Some secret"
proof (cases "PORTAL_MFA_ENVELOPE_KEY cfg")
  case None
  then show ?thesis
    using enc bytes envkey_not_kms [of secret] b64_roundtrip [of secret]
    by (auto simp: encrypt_mfa_secret_envkey_def decrypt_mfa_secret_envkey_def)
next
  case (Some key)
  then obtain ct where ct: "aes_encrypt C (take 32 key) nonce secret = Some ct" and t: "t = b64encode (nonce @ ct)"
    using enc by (auto simp: encrypt_mfa_secret_envkey_def)
  have b: "\<forall>x\<in>set (nonce @ ct). x < 256" using crypto_rules(2) [OF laws ct] bytes by auto
  show ?thesis
    using envkey_not_kms [OF b] b64_roundtrip [OF b] crypto_rules(1) [OF laws ct] t Some len
    by (simp add: decrypt_mfa_secret_envkey_def)
qed

lemma kms_roundtrip:
  assumes laws: "crypto_laws C" and enc: "encrypt_with_kms cfg C nonce secret = Some t"
    and bytes: "\<forall>x\<in>set nonce \<union> set secret. x < 256"
  shows "decrypt_mfa_secret cfg' C t = Some secret"
proof -
  obtain p e ct raw where g: "kms_generate C (PORTAL_KMS_KEY_ID cfg) = Some (p, e)" and ct: "aes_encrypt C p nonce secret = Some ct"
    and pk: "pack_kms_payload e nonce ct = Some raw" and t: "t = KMS_PREFIX @ b64encode raw"
    using enc by (auto simp: encrypt_with_kms_def split: option.splits)
  have "\<forall>x\<in>set raw. x < 256"
    using crypto_rules(2) [OF laws ct] crypto_rules(4) [OF laws g] bytes by (intro pack_bytes [OF pk]) auto
  from b64_roundtrip [OF this] show ?thesis
    using unpack_pack [OF pk] crypto_rules(3) [OF laws g] crypto_rules(1) [OF laws ct] t
    by (simp add: decrypt_mfa_secret_def starts_with_iff)
qed

section \<open>Properties\<close>


text \<open>A toy cipher that reverses the text, and a service whose data key is in the clear.\<close>

definition toy_crypto :: mfa_crypto where
  "toy_crypto = \<lparr>aes_encrypt = (\<lambda>k n s. Some (rev s)), aes_decrypt = (\<lambda>k n c. Some (rev c)),
     kms_generate = (\<lambda>i. Some ([1, 2, 3], [1, 2, 3])), kms_decrypt = (\<lambda>e. Some e)\<rparr>"


end
