(* ===== verification/Tenant_Auth.thy ===== *)
theory Tenant_Auth
  imports Redis_Store
begin

text \<open>
  Who is calling: \<^verbatim>\<open>app/core/jwks_cache.py\<close>, the cache of the identity provider's keys, and \<^verbatim>\<open>app/core/auth.py\<close>, the
  tenant context of a request and the guards of the routers. Signing and verifying are a library: a decoder
  gives the claims of a token, or fails. The provider's answer to a request for its keys is an argument. The
  section of \<open>_refresh\<close> under the lock is one step; tasks interleave between the decision to refresh and the lock.
\<close>

section \<open>Key cache\<close>

text \<open>An answer of the provider: the keys with their \<open>kid\<close>, where they have one; \<open>None\<close> for any failure.\<close>

type_synonym 'k jwks_answer = "(string option \<times> 'k) list option"

record 'k jwks_cache =
  jw_entry :: "((string \<times> 'k) list \<times> time) option"
  jw_last_fail_at :: time
  jw_fetches :: nat

record jwks_settings =
  JWKS_URL :: string
  JWKS_CACHE_TTL_MS :: time

definition FAIL_BACKOFF_MS :: time where "FAIL_BACKOFF_MS = 30000"

definition new_jwks :: "'k jwks_cache" where
  "new_jwks = \<lparr>jw_entry = None, jw_last_fail_at = 0, jw_fetches = 0\<rparr>"

definition jwks_enabled :: "jwks_settings \<Rightarrow> bool" where
  "jwks_enabled cfg \<longleftrightarrow> JWKS_URL cfg \<noteq> []"

definition keys_by_kid :: "(string option \<times> 'k) list \<Rightarrow> (string \<times> 'k) list" where
  "keys_by_kid keys =
     (let by_kid = fold (\<lambda>(kid, key) d. case kid of None \<Rightarrow> d | Some i \<Rightarrow> dict_set i key d) keys []
      in if by_kid = [] \<and> keys \<noteq> [] then [(''_default_'', snd (hd keys))] else by_kid)"

text \<open>
  The section under the lock: \<open>now\<close> is read after the lock is taken, \<open>at_end\<close> when the answer is there.
\<close>

definition refresh_locked ::
  "jwks_settings \<Rightarrow> bool \<Rightarrow> time \<Rightarrow> time \<Rightarrow> 'k jwks_answer \<Rightarrow> 'k jwks_cache
   \<Rightarrow> ((string \<times> 'k) list \<times> time) option \<times> 'k jwks_cache" where
  "refresh_locked cfg force now at_end answer st =
     (if \<not> force \<and> (case jw_entry st of None \<Rightarrow> False | Some (_, fetched_at) \<Rightarrow> now - fetched_at < JWKS_CACHE_TTL_MS cfg)
      then (jw_entry st, st)
      else (let st1 = st\<lparr>jw_fetches := jw_fetches st + 1\<rparr>
            in case answer of
                 Some keys \<Rightarrow> (Some (keys_by_kid keys, at_end), st1\<lparr>jw_entry := Some (keys_by_kid keys, at_end)\<rparr>)
               | None \<Rightarrow> (jw_entry st1, st1\<lparr>jw_last_fail_at := at_end\<rparr>)))"

definition refresh ::
  "jwks_settings \<Rightarrow> bool \<Rightarrow> time \<Rightarrow> time \<Rightarrow> 'k jwks_answer \<Rightarrow> 'k jwks_cache
   \<Rightarrow> ((string \<times> 'k) list \<times> time) option \<times> 'k jwks_cache" where
  "refresh cfg force now at_end answer st =
     (if \<not> force \<and> now - jw_last_fail_at st < FAIL_BACKOFF_MS then (jw_entry st, st)
      else refresh_locked cfg force now at_end answer st)"

definition ensure_fresh ::
  "jwks_settings \<Rightarrow> time \<Rightarrow> time \<Rightarrow> 'k jwks_answer \<Rightarrow> 'k jwks_cache
   \<Rightarrow> ((string \<times> 'k) list \<times> time) option \<times> 'k jwks_cache" where
  "ensure_fresh cfg now at_end answer st =
     (case jw_entry st of
        None \<Rightarrow> refresh cfg True now at_end answer st
      | Some (ks, fetched_at) \<Rightarrow>
          if now - fetched_at < JWKS_CACHE_TTL_MS cfg then (jw_entry st, st)
          else refresh cfg False now at_end answer st)"

text \<open>The second answer and times are those of the forced refresh after a miss.\<close>

definition get_key ::
  "jwks_settings \<Rightarrow> time \<Rightarrow> time \<Rightarrow> 'k jwks_answer \<Rightarrow> time \<Rightarrow> time \<Rightarrow> 'k jwks_answer \<Rightarrow> string option \<Rightarrow> 'k jwks_cache
   \<Rightarrow> 'k option \<times> 'k jwks_cache" where
  "get_key cfg now at_end answer now2 at_end2 answer2 kid st =
     (if \<not> jwks_enabled cfg then (None, st)
      else (case ensure_fresh cfg now at_end answer st of
              (None, st1) \<Rightarrow> (None, st1)
            | (Some (ks, _), st1) \<Rightarrow>
                (case kid of
                   None \<Rightarrow> (case ks of [] \<Rightarrow> None | (_, k) # _ \<Rightarrow> Some k, st1)
                 | Some i \<Rightarrow>
                     (case dict_get ks i of
                        Some k \<Rightarrow> (Some k, st1)
                      | None \<Rightarrow>
                          (case refresh cfg True now2 at_end2 answer2 st1 of
                             (None, st2) \<Rightarrow> (None, st2)
                           | (Some (ks2, _), st2) \<Rightarrow> (dict_get ks2 i, st2))))))"

definition jwks_invalidate :: "'k jwks_cache \<Rightarrow> 'k jwks_cache" where
  "jwks_invalidate st = st\<lparr>jw_entry := None\<rparr>"

section \<open>Tenant context\<close>

datatype auth_error = AuthenticationError string | AuthorizationError string

record claims =
  cl_iss :: "string option"
  cl_sub :: "string option"
  cl_tenant_id :: "string option"
  cl_roles :: "string list option"
  cl_exp :: time
  cl_iat :: time

record TenantContext =
  tn_tenant_id :: string
  tn_client_id :: string
  tn_roles :: "string list"
  tn_issuer :: string

record auth_settings =
  ENFORCE_TENANT_HEADER_MATCH :: bool
  JWT_EXPIRE_MINUTES :: int

definition create_access_token ::
  "auth_settings \<Rightarrow> (claims \<Rightarrow> string) \<Rightarrow> time \<Rightarrow> string \<Rightarrow> string \<Rightarrow> string list \<Rightarrow> string \<Rightarrow> int option \<Rightarrow> string" where
  "create_access_token cfg encode now tenant_id client_id roles issuer expires_minutes =
     (let minutes = (case expires_minutes of None \<Rightarrow> JWT_EXPIRE_MINUTES cfg | Some n \<Rightarrow> n)
      in encode \<lparr>cl_iss = Some issuer, cl_sub = Some client_id, cl_tenant_id = Some tenant_id, cl_roles = Some roles,
                 cl_exp = now + minutes * 60000, cl_iat = now\<rparr>)"

text \<open>\<open>decode\<close> is the path chosen by the settings: the key set when there is one, the shared secret otherwise.\<close>

definition get_current_tenant ::
  "auth_settings \<Rightarrow> (string \<Rightarrow> claims option) \<Rightarrow> http_request \<Rightarrow> string \<Rightarrow> auth_error + TenantContext" where
  "get_current_tenant cfg decode rq token =
     (case decode token of
        None \<Rightarrow> Inl (AuthenticationError ''Invalid token'')
      | Some c \<Rightarrow>
          (let tenant_id = (case cl_tenant_id c of None \<Rightarrow> [] | Some t \<Rightarrow> t);
               client_id = (case cl_sub c of None \<Rightarrow> [] | Some s \<Rightarrow> s);
               header_tid = header_or_empty rq ''X-Tenant-Id''
           in if tenant_id = [] \<or> client_id = [] then Inl (AuthenticationError ''Missing tenant_id or sub in token'')
              else if ENFORCE_TENANT_HEADER_MATCH cfg \<and> header_tid \<noteq> [] \<and> header_tid \<noteq> tenant_id
              then Inl (AuthorizationError ''X-Tenant-Id header does not match token claim'')
              else Inr \<lparr>tn_tenant_id = tenant_id, tn_client_id = client_id,
                        tn_roles = (case cl_roles c of None \<Rightarrow> [] | Some r \<Rightarrow> r),
                        tn_issuer = (case cl_iss c of None \<Rightarrow> ''agentoe-api'' | Some i \<Rightarrow> i)\<rparr>))"

section \<open>Guards\<close>

definition PORTAL_ISSUER :: string where "PORTAL_ISSUER = ''agentoe-portal''"

definition PORTAL_ROLES :: "string list" where "PORTAL_ROLES = [''portal:viewer'', ''portal:operator'', ''portal:admin'']"

definition PLATFORM_ADMIN_ROLES :: "string list" where
  "PLATFORM_ADMIN_ROLES = [''platform_admin'', ''sre_admin'', ''super_admin'', ''portal:admin'']"

definition require_roles :: "string list \<Rightarrow> TenantContext \<Rightarrow> auth_error + TenantContext" where
  "require_roles required tenant =
     (if list_ex (\<lambda>r. r \<in> set (tn_roles tenant)) required then Inr tenant else Inl (AuthorizationError ''Required roles''))"

definition require_portal_role :: "string list \<Rightarrow> TenantContext \<Rightarrow> auth_error + TenantContext" where
  "require_portal_role required tenant =
     (if tn_issuer tenant \<noteq> PORTAL_ISSUER then Inl (AuthorizationError ''Portal-protected endpoint requires portal issuer'')
      else if list_ex (\<lambda>r. r \<in> set PLATFORM_ADMIN_ROLES) (tn_roles tenant) then Inr tenant
      else if list_ex (\<lambda>r. r \<in> set (tn_roles tenant)) required then Inr tenant
      else Inl (AuthorizationError ''Required portal roles''))"

definition assert_tenant_ownership :: "string option \<Rightarrow> TenantContext \<Rightarrow> auth_error + unit" where
  "assert_tenant_ownership owner tenant =
     (case owner of
        None \<Rightarrow> Inl (AuthorizationError ''missing tenant scope'')
      | Some t \<Rightarrow>
          if t = tn_tenant_id tenant then Inr ()
          else if list_ex (\<lambda>r. r \<in> set PLATFORM_ADMIN_ROLES) (tn_roles tenant) then Inr ()
          else Inl (AuthorizationError ''Access denied''))"

section \<open>The cookie of the portal\<close>

definition PORTAL_PATHS :: "string list" where "PORTAL_PATHS = [''/api/v1/admin/'', ''/api/v1/stream/'']"

text \<open>The middleware promotes the cookie to a bearer header; \<open>cookie\<close> is the value of \<open>portal_access\<close>.\<close>

definition portal_cookie_dispatch :: "string option \<Rightarrow> http_request \<Rightarrow> http_request" where
  "portal_cookie_dispatch cookie rq =
     (if list_ex (\<lambda>p. starts_with p (rq_path rq)) PORTAL_PATHS \<and> header_or_empty rq ''Authorization'' = []
      then (case cookie of
              None \<Rightarrow> rq
            | Some t \<Rightarrow> if t = [] then rq else rq\<lparr>rq_header := (rq_header rq)(''Authorization'' \<mapsto> bearer_prefix @ t)\<rparr>)
      else rq)"

section \<open>Lemmas\<close>

text \<open>What an answer means: each \<open>kid\<close> has the last key sent for it.\<close>

lemma keys_by_kid_fold:
  "dict_get (fold (\<lambda>(kid, key) d. case kid of None \<Rightarrow> d | Some i \<Rightarrow> dict_set i key d) keys d0) i =
     (case map_of (rev keys) (Some i) of None \<Rightarrow> dict_get d0 i | Some k \<Rightarrow> Some k)"
  by (induction keys arbitrary: d0) (auto split: option.split simp: map_add_def)

lemma keys_by_kid_get:
  assumes "\<exists>kid\<in>fst ` set keys. kid \<noteq> None"
  shows "dict_get (keys_by_kid keys) i = map_of (rev keys) (Some i)"
proof -
  let ?d = "fold (\<lambda>(kid, key) d. case kid of None \<Rightarrow> d | Some i \<Rightarrow> dict_set i key d) keys []"
  obtain j k where "(Some j, k) \<in> set keys" using assms by force
  then have "Some j \<in> fst ` set (rev keys)" by force
  then have "map_of (rev keys) (Some j) \<noteq> None" using map_of_eq_None_iff [of "rev keys" "Some j"] by blast
  then have "dict_get ?d j \<noteq> None" using keys_by_kid_fold [of keys "[]" j] by (auto split: option.splits)
  then have "?d \<noteq> []" by auto
  then show ?thesis using keys_by_kid_fold [of keys "[]" i] by (simp add: keys_by_kid_def split: option.split)
qed

definition fresh :: "jwks_settings \<Rightarrow> time \<Rightarrow> 'k jwks_cache \<Rightarrow> bool" where
  "fresh cfg now st \<longleftrightarrow> (case jw_entry st of None \<Rightarrow> False | Some (_, t) \<Rightarrow> now - t < JWKS_CACHE_TTL_MS cfg)"

definition run_refreshes ::
  "jwks_settings \<Rightarrow> bool \<Rightarrow> (time \<times> time \<times> 'k jwks_answer) list \<Rightarrow> 'k jwks_cache \<Rightarrow> 'k jwks_cache" where
  "run_refreshes cfg force tasks st = fold (\<lambda>(now, at_end, answer) s. snd (refresh_locked cfg force now at_end answer s)) tasks st"

lemma refresh_locked_fresh: "fresh cfg now st \<Longrightarrow> refresh_locked cfg False now at_end answer st = (jw_entry st, st)"
  by (auto simp: refresh_locked_def fresh_def split: option.splits)

lemma run_refreshes_fresh:
  "\<forall>(now, at_end, answer)\<in>set tasks. fresh cfg now st \<Longrightarrow> run_refreshes cfg False tasks st = st"
  by (induction tasks) (auto simp: run_refreshes_def refresh_locked_fresh)

lemma run_refreshes_forced: "jw_fetches (run_refreshes cfg True tasks st) = jw_fetches st + length tasks"
proof (induction tasks arbitrary: st)
  case (Cons t tasks)
  obtain now at_end answer where t: "t = (now, at_end, answer)" by (cases t)
  have "jw_fetches (snd (refresh_locked cfg True now at_end answer st)) = jw_fetches st + 1"
    by (simp add: refresh_locked_def Let_def split: option.split)
  with Cons [of "snd (refresh_locked cfg True now at_end answer st)"] t show ?case by (simp add: run_refreshes_def)
qed (simp add: run_refreshes_def)

section \<open>Properties\<close>

text \<open>
  What the key cache answers. A known key in a fresh cache is answered without asking the provider. When the
  provider fails after the cache has expired, a known key is still answered from the old keys. An unknown
  key is looked up in the provider's next answer, which always costs a request: the pause after failures does not
  apply, so a client that invents key ids makes the server ask once per request.
\<close>

theorem key_lookup:
  assumes "jwks_enabled cfg" and "jw_entry st = Some (ks, t)"
    and "get_key cfg now at_end answer now2 at_end2 answer2 (Some kid) st = (r, st')"
  shows "(dict_get ks kid = Some k \<and> now - t < JWKS_CACHE_TTL_MS cfg \<longrightarrow> r = Some k \<and> st' = st) \<and>
    (dict_get ks kid = Some k \<and> answer = None \<longrightarrow> r = Some k \<and> jw_entry st' = jw_entry st) \<and>
    (dict_get ks kid = None \<and> now - t < JWKS_CACHE_TTL_MS cfg \<longrightarrow>
       jw_fetches st' = jw_fetches st + 1 \<and>
       (\<forall>keys. answer2 = Some keys \<and> (\<exists>i\<in>fst ` set keys. i \<noteq> None) \<longrightarrow> r = map_of (rev keys) (Some kid)) \<and>
       (answer2 = None \<longrightarrow> r = None))"
proof (cases "dict_get ks kid")
  case None
  have "r = map_of (rev keys) (Some kid)"
    if "now - t < JWKS_CACHE_TTL_MS cfg" "answer2 = Some keys" "\<exists>i\<in>fst ` set keys. i \<noteq> None" for keys
    using that(1,2) keys_by_kid_get [OF that(3), of kid] assms None
    by (simp add: get_key_def ensure_fresh_def refresh_def refresh_locked_def)
  moreover have "jw_fetches st' = jw_fetches st + 1 \<and> (answer2 = None \<longrightarrow> r = None)" if "now - t < JWKS_CACHE_TTL_MS cfg"
    using that assms None
    by (cases answer2) (auto simp: get_key_def ensure_fresh_def refresh_def refresh_locked_def)
  ultimately show ?thesis using None by simp
next
  case (Some k')
  then show ?thesis
    using assms by (auto simp: get_key_def ensure_fresh_def refresh_def refresh_locked_def split: if_splits)
qed

theorem key_lookup_witness:
  "get_key \<lparr>JWKS_URL = ''https://idp'', JWKS_CACHE_TTL_MS = 300000\<rparr> 5 6 None 7 8 (Some [(Some ''b'', 2)]) (Some ''b'')
     \<lparr>jw_entry = Some ([(''a'', 1 :: nat)], 0), jw_last_fail_at = 0, jw_fetches = 1\<rparr> =
   (Some 2, \<lparr>jw_entry = Some ([(''b'', 2)], 8), jw_last_fail_at = 0, jw_fetches = 2\<rparr>)"
  (is "?l = _")
proof -
  obtain r st' where run: "?l = (r, st')" by fastforce
  with key_lookup [OF _ _ run, of "[(''a'', 1)]" 0 0] have "r = Some 2" "jw_fetches st' = 2" by (auto simp: jwks_enabled_def)
  with run show ?thesis
    by (auto simp: get_key_def jwks_enabled_def ensure_fresh_def refresh_def refresh_locked_def keys_by_kid_def)
qed

text \<open>
  One request for many waiting tasks, except at the start. Tasks that find the cache expired and queue for the lock make
  one request between them when it succeeds, however many there are; tasks that find the cache empty are
  forced, and make one request each.
\<close>

theorem single_flight:
  assumes "\<not> (case jw_entry st of None \<Rightarrow> False | Some (_, t) \<Rightarrow> now - t < JWKS_CACHE_TTL_MS cfg)"
    and "\<forall>(later, _, _)\<in>set tasks. later - at_end < JWKS_CACHE_TTL_MS cfg"
  shows "jw_fetches (run_refreshes cfg False ((now, at_end, Some keys) # tasks) st) = jw_fetches st + 1 \<and>
    jw_entry (run_refreshes cfg False ((now, at_end, Some keys) # tasks) st) = Some (keys_by_kid keys, at_end) \<and>
    jw_fetches (run_refreshes cfg True ((now, at_end, Some keys) # tasks) st) = jw_fetches st + 1 + length tasks"
proof -
  let ?st = "st\<lparr>jw_fetches := jw_fetches st + 1, jw_entry := Some (keys_by_kid keys, at_end)\<rparr>"
  have "snd (refresh_locked cfg False now at_end (Some keys) st) = ?st" using assms(1) by (simp add: refresh_locked_def)
  moreover have "run_refreshes cfg False tasks ?st = ?st"
    using assms(2) by (intro run_refreshes_fresh) (auto simp: fresh_def)
  ultimately have "run_refreshes cfg False ((now, at_end, Some keys) # tasks) st = ?st" by (simp add: run_refreshes_def)
  then show ?thesis by (simp add: run_refreshes_forced)
qed

theorem single_flight_witness:
  "jw_fetches (run_refreshes \<lparr>JWKS_URL = ''u'', JWKS_CACHE_TTL_MS = 10\<rparr> False [(0, 1, Some [(Some ''a'', 1 :: nat)]), (2, 3, None)] new_jwks) = 1"
  using single_flight [where st = new_jwks and now = 0 and cfg = "\<lparr>JWKS_URL = ''u'', JWKS_CACHE_TTL_MS = 10\<rparr>" and
      tasks = "[(2, 3, None)]" and at_end = 1 and keys = "[(Some ''a'', 1 :: nat)]"]
  by (simp add: new_jwks_def)



end
