(* ===== verification/Audit_Log.thy ===== *)
theory Audit_Log
  imports Tenant_Auth
begin

text \<open>
  The audit trail: \<^verbatim>\<open>app/repositories/audit_repository.py\<close>, which appends to and queries a time-series collection,
  and \<^verbatim>\<open>app/domain/audit_emitter.py\<close>, which fills an entry from the request and the caller and also publishes it
  on a Redis channel. Both services are a record \<open>audit_db\<close> over an abstract state; a command fails in the states where
  its service is down. The text published is the JSON of the entry, kept here as the entry itself.
\<close>

section \<open>Entries\<close>

record audit_doc =
  au_timestamp :: time
  au_metadata :: meta
  au_actor :: string
  au_details :: meta

text \<open>The arguments of \<open>AuditRepository.log\<close>; those with a default of \<open>None\<close> are options.\<close>

record audit_args =
  aa_event_type :: string
  aa_tenant_id :: string
  aa_session_id :: "string option"
  aa_actor :: string
  aa_details :: "meta option"
  aa_env :: "string option"
  aa_actor_client_id :: "string option"
  aa_actor_roles :: "string list option"
  aa_actor_ip :: "string option"
  aa_actor_user_agent :: "string option"
  aa_actor_issuer :: "string option"
  aa_action :: "string option"
  aa_trace_id :: "string option"
  aa_resource_type :: "string option"
  aa_resource_id :: "string option"
  aa_before :: "meta option"
  aa_after :: "meta option"

text \<open>What is published: the stored entry, or a short one when it could not be stored.\<close>

datatype audit_payload = FullDoc audit_doc | LightDoc meta

record 'w audit_db =
  ad_mongo_ok :: "'w \<Rightarrow> bool"
  ad_events :: "'w \<Rightarrow> audit_doc list"
  ad_insert :: "audit_doc \<Rightarrow> 'w \<Rightarrow> 'w"
  ad_redis_ready :: "'w \<Rightarrow> bool"
  ad_publish_ok :: "'w \<Rightarrow> bool"
  ad_publish :: "string \<Rightarrow> audit_payload \<Rightarrow> 'w \<Rightarrow> 'w"
  ad_published :: "'w \<Rightarrow> (string \<times> audit_payload) list"

text \<open>An insertion appends, a publication reaches the channel, and neither touches the other service.\<close>

definition audit_laws :: "'w audit_db \<Rightarrow> bool" where
  "audit_laws A \<longleftrightarrow>
     (\<forall>d w. ad_events A (ad_insert A d w) = ad_events A w @ [d]) \<and>
     (\<forall>c p w. ad_events A (ad_publish A c p w) = ad_events A w) \<and>
     (\<forall>c p w. ad_published A (ad_publish A c p w) = ad_published A w @ [(c, p)]) \<and>
     (\<forall>d w. ad_published A (ad_insert A d w) = ad_published A w) \<and>
     (\<forall>d w. ad_redis_ready A (ad_insert A d w) = ad_redis_ready A w) \<and>
     (\<forall>d w. ad_publish_ok A (ad_insert A d w) = ad_publish_ok A w)"

section \<open>Repository\<close>

definition vstr :: "string \<Rightarrow> pyval" where "vstr s = VStr (of_str s)"

definition opt_entry :: "string \<Rightarrow> ('a \<Rightarrow> pyval) \<Rightarrow> 'a option \<Rightarrow> meta" where
  "opt_entry k f v = (case v of None \<Rightarrow> [] | Some x \<Rightarrow> [(k, f x)])"

definition audit_metadata :: "audit_args \<Rightarrow> meta" where
  "audit_metadata a =
     [(''tenant_id'', vstr (aa_tenant_id a)),
      (''session_id'', case aa_session_id a of None \<Rightarrow> VNone | Some s \<Rightarrow> vstr s),
      (''event_type'', vstr (aa_event_type a))] @
     opt_entry ''env'' vstr (aa_env a) @
     opt_entry ''actor_client_id'' vstr (aa_actor_client_id a) @
     opt_entry ''actor_roles'' (\<lambda>rs. VList (map vstr rs)) (aa_actor_roles a) @
     opt_entry ''actor_ip'' vstr (aa_actor_ip a) @
     opt_entry ''actor_user_agent'' vstr (aa_actor_user_agent a) @
     opt_entry ''actor_issuer'' vstr (aa_actor_issuer a) @
     opt_entry ''action'' vstr (aa_action a) @
     opt_entry ''trace_id'' vstr (aa_trace_id a) @
     opt_entry ''resource_type'' vstr (aa_resource_type a) @
     opt_entry ''resource_id'' vstr (aa_resource_id a) @
     opt_entry ''before'' VDict (aa_before a) @
     opt_entry ''after'' VDict (aa_after a)"

definition audit_entry :: "time \<Rightarrow> audit_args \<Rightarrow> audit_doc" where
  "audit_entry now a =
     \<lparr>au_timestamp = now, au_metadata = audit_metadata a, au_actor = aa_actor a,
      au_details = (case aa_details a of None \<Rightarrow> [] | Some d \<Rightarrow> d)\<rparr>"

definition audit_log :: "'w audit_db \<Rightarrow> time \<Rightarrow> audit_args \<Rightarrow> 'w \<Rightarrow> audit_doc option \<times> 'w" where
  "audit_log A now a w =
     (if ad_mongo_ok A w then (Some (audit_entry now a), ad_insert A (audit_entry now a) w) else (None, w))"

record audit_query_args =
  aq_tenant_id :: string
  aq_session_id :: "string option"
  aq_event_type :: "string option"
  aq_from :: "time option"
  aq_to :: "time option"

definition audit_match :: "audit_query_args \<Rightarrow> audit_doc \<Rightarrow> bool" where
  "audit_match q d \<longleftrightarrow>
     dict_get (au_metadata d) ''tenant_id'' = Some (vstr (aq_tenant_id q)) \<and>
     (case aq_session_id q of None \<Rightarrow> True
      | Some s \<Rightarrow> s = [] \<or> dict_get (au_metadata d) ''session_id'' = Some (vstr s)) \<and>
     (case aq_event_type q of None \<Rightarrow> True
      | Some e \<Rightarrow> e = [] \<or> dict_get (au_metadata d) ''event_type'' = Some (vstr e)) \<and>
     (case aq_from q of None \<Rightarrow> True | Some t \<Rightarrow> t \<le> au_timestamp d) \<and>
     (case aq_to q of None \<Rightarrow> True | Some t \<Rightarrow> au_timestamp d \<le> t)"

text \<open>
  \<open>order\<close> is the \<open>$sort\<close> stage of one call: newest first, with ties in an order of its own.
\<close>

definition audit_query ::
  "'w audit_db \<Rightarrow> (audit_doc list \<Rightarrow> audit_doc list) \<Rightarrow> audit_query_args \<Rightarrow> nat \<Rightarrow> nat \<Rightarrow> 'w \<Rightarrow> (audit_doc list \<times> nat, 'w) io" where
  "audit_query A order q limit offset w =
     (if \<not> ad_mongo_ok A w then (Inl PyMongoError, w)
      else (let found = order (filter (audit_match q) (ad_events A w))
            in (Inr (take limit (drop offset found), length found), w)))"

definition newest_first :: "(audit_doc list \<Rightarrow> audit_doc list) \<Rightarrow> bool" where
  "newest_first order \<longleftrightarrow>
     (\<forall>xs. mset (order xs) = mset xs \<and> sorted_wrt (\<lambda>a b. au_timestamp b \<le> au_timestamp a) (order xs))"

section \<open>Emitter\<close>

definition AUDIT_EVENTS_CHANNEL :: string where "AUDIT_EVENTS_CHANNEL = ''agentoe:events:audit''"

text \<open>The values of \<open>ENVIRONMENT\<close>, \<open>ENV\<close> and \<open>APP_ENV\<close> in the settings, in this order.\<close>

definition current_env :: "string option list \<Rightarrow> string option" where
  "current_env vs =
     (case find (\<lambda>v. v \<noteq> None \<and> v \<noteq> Some []) vs of Some (Some v) \<Rightarrow> Some (map lower_char v) | _ \<Rightarrow> None)"

definition extract_client_ip :: "http_request \<Rightarrow> string option" where
  "extract_client_ip rq =
     (if header_or_empty rq ''x-forwarded-for'' \<noteq> []
      then Some (strip (hd (split_on CHR '','' (header_or_empty rq ''x-forwarded-for''))))
      else if header_or_empty rq ''x-real-ip'' \<noteq> [] then rq_header rq ''x-real-ip''
      else rq_client rq)"

definition extract_traceparent :: "http_request \<Rightarrow> string option" where
  "extract_traceparent rq =
     (let parts = split_on CHR ''-'' (header_or_empty rq ''traceparent'')
      in if header_or_empty rq ''traceparent'' \<noteq> [] \<and> length parts \<ge> 2 \<and> length (parts ! 1) = 32
         then Some (parts ! 1) else None)"

record audit_event =
  ev_action :: string
  ev_actor :: "TenantContext option"
  ev_resource :: "(string \<times> string) option"
  ev_before :: "meta option"
  ev_after :: "meta option"
  ev_request :: "http_request option"
  ev_event_type :: "string option"
  ev_session_id :: "string option"
  ev_details :: "meta option"

definition event_type_of :: "audit_event \<Rightarrow> string" where
  "event_type_of ev = (case ev_event_type ev of None \<Rightarrow> ev_action ev | Some t \<Rightarrow> if t = [] then ev_action ev else t)"

definition event_tenant :: "audit_event \<Rightarrow> string" where
  "event_tenant ev = (case ev_actor ev of None \<Rightarrow> ''system'' | Some c \<Rightarrow> tn_tenant_id c)"

definition emit_args :: "string option list \<Rightarrow> audit_event \<Rightarrow> audit_args" where
  "emit_args envs ev =
     (let client = map_option tn_client_id (ev_actor ev)
      in \<lparr>aa_event_type = event_type_of ev, aa_tenant_id = event_tenant ev, aa_session_id = ev_session_id ev,
          aa_actor = (case client of None \<Rightarrow> ''system'' | Some c \<Rightarrow> if c = [] then ''system'' else c),
          aa_details = ev_details ev, aa_env = current_env envs, aa_actor_client_id = client,
          aa_actor_roles = (case ev_actor ev of None \<Rightarrow> None | Some c \<Rightarrow> if tn_roles c = [] then None else Some (tn_roles c)),
          aa_actor_ip = Option.bind (ev_request ev) extract_client_ip,
          aa_actor_user_agent = Option.bind (ev_request ev) (\<lambda>rq. rq_header rq ''user-agent''),
          aa_actor_issuer = map_option tn_issuer (ev_actor ev), aa_action = Some (ev_action ev),
          aa_trace_id = Option.bind (ev_request ev) (\<lambda>rq.
             if header_or_empty rq ''x-trace-id'' \<noteq> [] then rq_header rq ''x-trace-id'' else extract_traceparent rq),
          aa_resource_type = map_option fst (ev_resource ev), aa_resource_id = map_option snd (ev_resource ev),
          aa_before = ev_before ev, aa_after = ev_after ev\<rparr>)"

definition light_payload :: "string option list \<Rightarrow> audit_event \<Rightarrow> meta" where
  "light_payload envs ev =
     (let opt = (\<lambda>v. case v of None \<Rightarrow> VNone | Some s \<Rightarrow> vstr s)
      in [(''tenant_id'', vstr (event_tenant ev)), (''action'', vstr (ev_action ev)), (''event_type'', vstr (event_type_of ev)),
          (''actor_client_id'', opt (map_option tn_client_id (ev_actor ev))), (''env'', opt (current_env envs))])"

definition audit_emit :: "'w audit_db \<Rightarrow> string option list \<Rightarrow> time \<Rightarrow> audit_event \<Rightarrow> 'w \<Rightarrow> 'w" where
  "audit_emit A envs now ev w =
     (case audit_log A now (emit_args envs ev) w of
        (doc, w1) \<Rightarrow>
          (let payload = (case doc of Some d \<Rightarrow> FullDoc d | None \<Rightarrow> LightDoc (light_payload envs ev))
           in if \<not> ad_redis_ready A w1 then w1
              else if \<not> ad_publish_ok A w1 then w1
              else ad_publish A AUDIT_EVENTS_CHANNEL payload w1))"

section \<open>Lemmas\<close>

lemma audit_rules:
  assumes "audit_laws A"
  shows "ad_events A (ad_insert A d w) = ad_events A w @ [d]"
    and "ad_events A (ad_publish A c p w) = ad_events A w"
    and "ad_published A (ad_publish A c p w) = ad_published A w @ [(c, p)]"
    and "ad_published A (ad_insert A d w) = ad_published A w"
    and "ad_redis_ready A (ad_insert A d w) = ad_redis_ready A w"
    and "ad_publish_ok A (ad_insert A d w) = ad_publish_ok A w"
  using assms unfolding audit_laws_def by blast+

lemma emit_events:
  assumes "audit_laws A"
  shows "ad_events A (audit_emit A envs now ev w) =
    ad_events A w @ (if ad_mongo_ok A w then [audit_entry now (emit_args envs ev)] else [])"
  using audit_rules [OF assms] by (simp add: audit_emit_def audit_log_def)

lemma emit_published:
  assumes "audit_laws A"
  shows "ad_published A (audit_emit A envs now ev w) = ad_published A w @
    (if ad_redis_ready A w \<and> ad_publish_ok A w
     then [(AUDIT_EVENTS_CHANNEL, if ad_mongo_ok A w then FullDoc (audit_entry now (emit_args envs ev)) else LightDoc (light_payload envs ev))]
     else [])"
  using audit_rules [OF assms] by (simp add: audit_emit_def audit_log_def)

lemma opt_entry_get:
  "dict_get (opt_entry k f v) k' = (if k' = k then map_option f v else None)"
  by (cases v) (simp_all add: opt_entry_def)

lemma entry_fields:
  "dict_get (au_metadata (audit_entry now a)) ''action'' = map_option vstr (aa_action a)"
  "dict_get (au_metadata (audit_entry now a)) ''tenant_id'' = Some (vstr (aa_tenant_id a))"
  "dict_get (au_metadata (audit_entry now a)) ''event_type'' = Some (vstr (aa_event_type a))"
  by (simp_all add: audit_entry_def audit_metadata_def opt_entry_get map_add_def split: option.split)

lemma of_str_inject [simp]: "of_str a = of_str b \<longleftrightarrow> a = b"
  by (simp add: of_str_def inj_map_eq_map [OF inj_of_char])

lemma vstr_inject [simp]: "vstr a = vstr b \<longleftrightarrow> a = b"
  by (simp add: vstr_def)

text \<open>Without ties all \<open>$sort\<close> stages agree.\<close>

lemma newest_first_unique:
  assumes "newest_first f" "newest_first g" and "distinct (map au_timestamp xs)"
  shows "f xs = g xs"
proof -
  let ?key = "\<lambda>d. - au_timestamp d"
  have sorted: "sorted (map ?key (h xs))" "distinct (map ?key (h xs))" "set (h xs) = set xs" if "newest_first h" for h
  proof -
    have m: "mset (h xs) = mset xs" and s: "sorted_wrt (\<lambda>a b. au_timestamp b \<le> au_timestamp a) (h xs)"
      using that unfolding newest_first_def by blast+
    show "sorted (map ?key (h xs))" using s by (simp add: sorted_wrt_map)
    show "set (h xs) = set xs" using m mset_eq_setD by blast
    have "mset (map au_timestamp (h xs)) = mset (map au_timestamp xs)" using m by simp
    then have "distinct (map au_timestamp (h xs))" using assms(3) mset_eq_imp_distinct_iff by blast
    then show "distinct (map ?key (h xs))" by (simp add: distinct_map inj_on_def)
  qed
  have "map ?key (f xs) = map ?key (g xs)"
    using sorted [OF assms(1)] sorted [OF assms(2)] by (intro sorted_distinct_set_unique) auto
  moreover have "inj_on ?key (set (f xs) \<union> set (g xs))"
    using assms(3) sorted(3) [OF assms(1)] sorted(3) [OF assms(2)] by (simp add: distinct_map inj_on_def)
  ultimately show ?thesis by (rule map_inj_on)
qed

lemma concat_pages: "concat (map (\<lambda>i. take l (drop (i * l) xs)) [0..<n]) = take (n * l) xs"
proof (induction n)
  case (Suc n)
  have "take (Suc n * l) xs = take (n * l) xs @ take l (drop (n * l) xs)" by (metis add.commute mult_Suc take_add)
  with Suc show ?case by simp
qed simp

text \<open>The pages a client collects by asking again with a growing offset; each call sorts for itself.\<close>

definition audit_pages ::
  "'w audit_db \<Rightarrow> (nat \<Rightarrow> audit_doc list \<Rightarrow> audit_doc list) \<Rightarrow> audit_query_args \<Rightarrow> nat \<Rightarrow> nat \<Rightarrow> 'w \<Rightarrow> audit_doc list" where
  "audit_pages A orders q limit n w =
     concat (map (\<lambda>i. case fst (audit_query A (orders i) q limit (i * limit) w) of Inr (items, _) \<Rightarrow> items | Inl _ \<Rightarrow> []) [0..<n])"

text \<open>Two logs in memory.\<close>

definition mem_audit :: "bool \<Rightarrow> bool \<Rightarrow> (audit_doc list \<times> (string \<times> audit_payload) list) audit_db" where
  "mem_audit mongo redis =
     \<lparr>ad_mongo_ok = (\<lambda>_. mongo), ad_events = fst, ad_insert = (\<lambda>d w. (fst w @ [d], snd w)),
      ad_redis_ready = (\<lambda>_. redis), ad_publish_ok = (\<lambda>_. redis), ad_publish = (\<lambda>c p w. (fst w, snd w @ [(c, p)])),
      ad_published = snd\<rparr>"

lemma mem_audit_laws: "audit_laws (mem_audit m r)"
  by (simp add: audit_laws_def mem_audit_def)

definition newest_sort :: "audit_doc list \<Rightarrow> audit_doc list" where
  "newest_sort = sort_key (\<lambda>d. - au_timestamp d)"

lemma newest_sort_ok: "newest_first newest_sort"
proof -
  have "sorted_wrt (\<lambda>a b. au_timestamp b \<le> au_timestamp a) (newest_sort xs)" for xs
    using sorted_sort_key [of "\<lambda>d. - au_timestamp d" xs] by (simp add: newest_sort_def sorted_wrt_map)
  then show ?thesis by (simp add: newest_first_def newest_sort_def)
qed

section \<open>Properties\<close>


definition demo_event :: audit_event where
  "demo_event = \<lparr>ev_action = ''kill_switch.toggle'', ev_actor = None, ev_resource = None, ev_before = None, ev_after = None,
     ev_request = None, ev_event_type = None, ev_session_id = None, ev_details = None\<rparr>"


text \<open>
  Paging through the trail loses and repeats nothing. When no two of the entries found have the same time, a client that asks
  for page after page gets every matching entry exactly once, newest first, although each call sorts anew; every page reports
  the number of all matching entries, and all of them belong to the tenant asked for.
\<close>

theorem audit_paging:
  assumes "ad_mongo_ok A w" and "\<And>i. newest_first (orders i)"
    and "distinct (map au_timestamp (filter (audit_match q) (ad_events A w)))"
    and "length (filter (audit_match q) (ad_events A w)) \<le> n * limit"
  shows "mset (audit_pages A orders q limit n w) = mset (filter (audit_match q) (ad_events A w)) \<and>
    sorted_wrt (\<lambda>a b. au_timestamp b \<le> au_timestamp a) (audit_pages A orders q limit n w) \<and>
    (\<forall>i. map_sum id snd (fst (audit_query A (orders i) q limit (i * limit) w)) =
         Inr (length (filter (audit_match q) (ad_events A w)))) \<and>
    (\<forall>d\<in>set (audit_pages A orders q limit n w). dict_get (au_metadata d) ''tenant_id'' = Some (vstr (aq_tenant_id q)))"
proof -
  let ?xs = "filter (audit_match q) (ad_events A w)"
  have ord: "mset (orders i ?xs) = mset ?xs" "sorted_wrt (\<lambda>a b. au_timestamp b \<le> au_timestamp a) (orders i ?xs)" for i
    using assms(2) [of i] unfolding newest_first_def by blast+
  define zs where "zs = orders 0 ?xs"
  have same: "orders i ?xs = zs" for i unfolding zs_def by (rule newest_first_unique [OF assms(2) assms(2) assms(3)])
  have "audit_pages A orders q limit n w = concat (map (\<lambda>i. take limit (drop (i * limit) zs)) [0..<n])"
    using same assms(1) by (simp add: audit_pages_def audit_query_def Let_def)
  also have "\<dots> = zs" using mset_eq_length [OF ord(1) [of 0]] same [of 0] assms(4) by (simp add: concat_pages)
  finally have pages: "audit_pages A orders q limit n w = zs" .
  have z: "mset zs = mset ?xs" "sorted_wrt (\<lambda>a b. au_timestamp b \<le> au_timestamp a) zs" using ord [of 0] same [of 0] by simp_all
  have "set zs = set ?xs" "length zs = length ?xs" using mset_eq_setD [OF z(1)] mset_eq_length [OF z(1)] by simp_all
  then show ?thesis using z pages same assms(1) by (auto simp: audit_query_def Let_def audit_match_def)
qed

theorem audit_paging_witness:
  "let A = mem_audit True True; e = (\<lambda>t. audit_entry t (emit_args [] demo_event));
       q = \<lparr>aq_tenant_id = ''system'', aq_session_id = None, aq_event_type = None, aq_from = None, aq_to = None\<rparr>
   in mset (audit_pages A (\<lambda>_. newest_sort) q 2 2 ([e 1, e 2, e 3], [])) = mset [e 1, e 2, e 3]"
proof -
  let ?A = "mem_audit True True" and ?e = "\<lambda>t. audit_entry t (emit_args [] demo_event)"
  let ?q = "\<lparr>aq_tenant_id = ''system'', aq_session_id = None, aq_event_type = None, aq_from = None, aq_to = None\<rparr>"
  let ?w = "([?e 1, ?e 2, ?e 3], [])"
  have match: "audit_match ?q (?e t)" for t
    by (simp add: audit_match_def entry_fields) (simp add: emit_args_def demo_event_def event_tenant_def Let_def)
  have ts: "au_timestamp (?e t) = t" for t by (simp add: audit_entry_def)
  have f: "filter (audit_match ?q) (ad_events ?A ?w) = [?e 1, ?e 2, ?e 3]" using match by (simp add: mem_audit_def)
  have "mset (audit_pages ?A (\<lambda>_. newest_sort) ?q 2 2 ?w) = mset (filter (audit_match ?q) (ad_events ?A ?w))"
    by (rule audit_paging [THEN conjunct1]) (simp_all only: f newest_sort_ok, simp_all add: mem_audit_def ts)
  then show ?thesis unfolding f by (simp add: Let_def)
qed

end
