(* ===== verification/Portal_Auth.thy ===== *)
theory Portal_Auth
  imports Portal_Session Mfa_Secret Audit_Log Traffic_Limits
begin

text \<open>
  The endpoints of the portal's authentication: \<^verbatim>\<open>app/api/v1/routers/auth_portal.py\<close>, on top of the session manager,
  the envelope of the second-factor secrets, the audit trail and the tenant context. Password hashing, one-time codes
  and the signing of tokens are parameters; a function that can raise is \<open>None\<close> where it does. Tokens are verified
  with the shared secret, as they are when no key set is configured. A response object is only
  sent when the handler returns: FastAPI drops the cookies set on it when the handler raises.
\<close>

section \<open>Environment\<close>

record portal_settings =
  PORTAL_JWT_EXPIRE_MINUTES :: int
  PORTAL_REFRESH_EXPIRE_HOURS :: int
  PORTAL_MFA_ISSUER :: string
  portal_auth_settings :: auth_settings
  portal_mfa_settings :: mfa_settings
  portal_envs :: "string option list"

definition default_portal_settings :: portal_settings where
  "default_portal_settings =
     \<lparr>PORTAL_JWT_EXPIRE_MINUTES = 15, PORTAL_REFRESH_EXPIRE_HOURS = 8, PORTAL_MFA_ISSUER = ''agentoe-portal'',
      portal_auth_settings = \<lparr>ENFORCE_TENANT_HEADER_MATCH = True, JWT_EXPIRE_MINUTES = 60\<rparr>,
      portal_mfa_settings = \<lparr>PORTAL_MFA_ENVELOPE_KEY = None, PORTAL_KMS_KEY_ID = []\<rparr>, portal_envs = []\<rparr>"

text \<open>
  \<open>px_decode now verify_exp\<close> is \<open>jwt.decode\<close> at the time \<open>now\<close>; \<open>px_totp\<close> checks a code against a secret.
\<close>

record 'w portal =
  px_cfg :: portal_settings
  px_db :: "'w portal_db"
  px_audit :: "'w audit_db"
  px_limits :: "'w limit_db"
  px_hash :: token_hash
  px_crypto :: mfa_crypto
  px_encode :: "claims \<Rightarrow> string"
  px_decode :: "time \<Rightarrow> bool \<Rightarrow> string \<Rightarrow> claims option"
  px_verify_password :: "string \<Rightarrow> string \<Rightarrow> bool option"
  px_totp :: "time \<Rightarrow> ustr \<Rightarrow> string \<Rightarrow> bool option"
  px_provisioning_uri :: "ustr \<Rightarrow> string \<Rightarrow> string \<Rightarrow> string"

text \<open>What one request draws from outside.\<close>

record portal_env =
  pe_session :: session_env
  pe_csrf :: string
  pe_secret :: ustr
  pe_nonce :: bytes
  pe_nonce2 :: bytes

abbreviation pe_now :: "portal_env \<Rightarrow> time" where "pe_now env \<equiv> se_now (pe_session env)"

datatype portal_error = HTTPException int string | AuthError auth_error | Unhandled pyexc

record cookie =
  ck_name :: string
  ck_value :: string
  ck_max_age :: int
  ck_httponly :: bool
  ck_path :: string

datatype portal_reply =
    Challenge bool string
  | SignedIn "string list" "cookie list"
  | Refreshed "cookie list"
  | LoggedOut "cookie list"
  | Enrolled string ustr

type_synonym 'w portal_run = "(portal_error + portal_reply) \<times> 'w"

section \<open>Helpers\<close>

definition ACCESS_COOKIE :: string where "ACCESS_COOKIE = ''portal_access''"
definition REFRESH_COOKIE :: string where "REFRESH_COOKIE = ''portal_refresh''"
definition CSRF_COOKIE :: string where "CSRF_COOKIE = ''__csrf__''"
definition CSRF_HEADER :: string where "CSRF_HEADER = ''X-CSRF-Token''"
definition REFRESH_PATH :: string where "REFRESH_PATH = ''/api/v1/auth/portal/refresh''"
definition MFA_CHALLENGE_MINUTES :: int where "MFA_CHALLENGE_MINUTES = 5"

definition check_csrf :: "http_request \<Rightarrow> string option \<Rightarrow> portal_error + unit" where
  "check_csrf rq csrf_cookie =
     (if header_or_empty rq CSRF_HEADER = [] \<or> csrf_cookie = None \<or> csrf_cookie = Some [] \<or>
         csrf_cookie \<noteq> Some (header_or_empty rq CSRF_HEADER)
      then Inl (HTTPException 403 ''CSRF token mismatch'') else Inr ())"

definition set_access_cookie :: "string \<Rightarrow> int \<Rightarrow> cookie" where
  "set_access_cookie token expire_minutes =
     \<lparr>ck_name = ACCESS_COOKIE, ck_value = token, ck_max_age = expire_minutes * 60, ck_httponly = True, ck_path = ''/''\<rparr>"

definition set_refresh_cookie :: "string \<Rightarrow> int \<Rightarrow> cookie" where
  "set_refresh_cookie token expire_hours =
     \<lparr>ck_name = REFRESH_COOKIE, ck_value = token, ck_max_age = expire_hours * 3600, ck_httponly = True, ck_path = REFRESH_PATH\<rparr>"

definition set_csrf_cookie :: "portal_settings \<Rightarrow> string \<Rightarrow> cookie" where
  "set_csrf_cookie cfg token =
     \<lparr>ck_name = CSRF_COOKIE, ck_value = token, ck_max_age = PORTAL_REFRESH_EXPIRE_HOURS cfg * 3600, ck_httponly = False, ck_path = ''/''\<rparr>"

text \<open>\<open>delete_cookie\<close> sets an empty value that expires at once.\<close>

definition clear_cookies :: "cookie list" where
  "clear_cookies =
     map (\<lambda>(name, path). \<lparr>ck_name = name, ck_value = [], ck_max_age = 0, ck_httponly = False, ck_path = path\<rparr>)
       [(ACCESS_COOKIE, ''/''), (REFRESH_COOKIE, REFRESH_PATH), (CSRF_COOKIE, ''/'')]"

definition login_key :: "string \<Rightarrow> string" where "login_key ip = ''agentoe:login_attempts:'' @ ip"

definition check_login_rate_limit :: "'w limit_db \<Rightarrow> string \<Rightarrow> 'w \<Rightarrow> (portal_error + unit) \<times> 'w" where
  "check_login_rate_limit L ip w =
     (if \<not> lm_ok L w then (Inr (), w)
      else (case lm_incr L (login_key ip) w of
              (attempts, w1) \<Rightarrow>
                if attempts = 1 then (Inr (), if lm_ok L w1 then lm_expire L (login_key ip) 600 w1 else w1)
                else if attempts > 5
                then (Inl (HTTPException 429 ''Too many login attempts. Try again in 10 minutes.''), w1)
                else (Inr (), w1)))"

definition get_user_by_username :: "'w portal_db \<Rightarrow> string \<Rightarrow> 'w \<Rightarrow> (puser option, 'w) io" where
  "get_user_by_username D username w =
     (if \<not> pd_ok D w then (Inl PyMongoError, w)
      else (Inr (find (\<lambda>u. pu_username u = username \<and> pu_is_active u) (pd_users D w)), w))"

definition get_user_by_id :: "'w portal_db \<Rightarrow> string \<Rightarrow> 'w \<Rightarrow> puser option" where
  "get_user_by_id D user_id w = (if \<not> pd_ok D w then None else find (\<lambda>u. pu_id u = user_id) (pd_users D w))"

definition update_user :: "'w portal_db \<Rightarrow> string \<Rightarrow> (puser \<Rightarrow> puser) \<Rightarrow> 'w \<Rightarrow> (unit, 'w) io" where
  "update_user D user_id f w = (if \<not> pd_ok D w then (Inl PyMongoError, w) else (Inr (), pd_update_user D user_id f w))"

definition challenge_prefix :: string where "challenge_prefix = ''challenge:''"

definition create_challenge_token :: "'w portal \<Rightarrow> time \<Rightarrow> string \<Rightarrow> string" where
  "create_challenge_token P now user_id =
     create_access_token (portal_auth_settings (px_cfg P)) (px_encode P) now ''portal'' (challenge_prefix @ user_id)
       [''portal:mfa_challenge''] PORTAL_ISSUER (Some MFA_CHALLENGE_MINUTES)"

definition sub_of :: "claims \<Rightarrow> string" where "sub_of c = (case cl_sub c of None \<Rightarrow> [] | Some s \<Rightarrow> s)"

definition decode_challenge_token :: "'w portal \<Rightarrow> time \<Rightarrow> string \<Rightarrow> string option" where
  "decode_challenge_token P now token =
     (case px_decode P now True token of
        None \<Rightarrow> None
      | Some c \<Rightarrow>
          if starts_with challenge_prefix (sub_of c) \<and> cl_iss c = Some PORTAL_ISSUER
          then Some (drop (length challenge_prefix) (sub_of c)) else None)"

definition extract_user_id :: "'w portal \<Rightarrow> time \<Rightarrow> string option \<Rightarrow> string option" where
  "extract_user_id P now token =
     (case token of
        None \<Rightarrow> None
      | Some t \<Rightarrow>
          if t = [] then None
          else (case px_decode P now False t of
                  None \<Rightarrow> None
                | Some c \<Rightarrow>
                    if starts_with challenge_prefix (sub_of c) then None
                    else if sub_of c = [] then None else Some (sub_of c)))"

definition portal_access_token :: "'w portal \<Rightarrow> time \<Rightarrow> string \<Rightarrow> string list \<Rightarrow> string" where
  "portal_access_token P now user_id portal_roles =
     create_access_token (portal_auth_settings (px_cfg P)) (px_encode P) now ''portal'' user_id portal_roles PORTAL_ISSUER
       (Some (PORTAL_JWT_EXPIRE_MINUTES (px_cfg P)))"

definition portal_emit :: "'w portal \<Rightarrow> time \<Rightarrow> string \<Rightarrow> string \<Rightarrow> meta option \<Rightarrow> http_request \<Rightarrow> 'w \<Rightarrow> 'w" where
  "portal_emit P now action resource_id after rq w =
     audit_emit (px_audit P) (portal_envs (px_cfg P)) now
       \<lparr>ev_action = action, ev_actor = None, ev_resource = Some (''portal_user'', resource_id), ev_before = None, ev_after = after,
        ev_request = Some rq, ev_event_type = None, ev_session_id = None, ev_details = None\<rparr> w"

definition roles_of :: "puser \<Rightarrow> string list" where
  "roles_of u = (case pu_portal_roles u of None \<Rightarrow> [''portal:viewer''] | Some rs \<Rightarrow> rs)"

definition issue_cookies :: "'w portal \<Rightarrow> portal_env \<Rightarrow> string \<Rightarrow> string \<Rightarrow> cookie list" where
  "issue_cookies P env access refresh_token =
     [set_access_cookie access (PORTAL_JWT_EXPIRE_MINUTES (px_cfg P)),
      set_refresh_cookie refresh_token (PORTAL_REFRESH_EXPIRE_HOURS (px_cfg P)), set_csrf_cookie (px_cfg P) (pe_csrf env)]"

section \<open>Endpoints\<close>

definition DUMMY_HASH :: string where "DUMMY_HASH = ''$2b$12$WBRKBfpFn5Toh9dLNx3yze9GHaRpAGKVGFXBzVJF9gTxKiUXe6Bq.''"

definition portal_login :: "'w portal \<Rightarrow> portal_env \<Rightarrow> http_request \<Rightarrow> string \<Rightarrow> string \<Rightarrow> 'w \<Rightarrow> 'w portal_run" where
  "portal_login P env rq username password w =
     (case check_login_rate_limit (px_limits P) (case rq_client rq of None \<Rightarrow> ''unknown'' | Some h \<Rightarrow> h) w of
        (Inl e, w1) \<Rightarrow> (Inl e, w1)
      | (Inr _, w1) \<Rightarrow>
          (case get_user_by_username (px_db P) username w1 of
             (Inl e, w2) \<Rightarrow> (Inl (Unhandled e), w2)
           | (Inr user, w2) \<Rightarrow>
               (let stored_hash = (case user of None \<Rightarrow> DUMMY_HASH
                                   | Some u \<Rightarrow> (case pu_hashed_password u of None \<Rightarrow> DUMMY_HASH | Some h \<Rightarrow> h))
                in case px_verify_password P password stored_hash of
                     None \<Rightarrow> (Inl (Unhandled ValueError), w2)
                   | Some pwd_ok \<Rightarrow>
                       (case user of
                          Some u \<Rightarrow>
                            if \<not> pwd_ok then
                              (Inl (HTTPException 401 ''Invalid credentials''),
                               portal_emit P (pe_now env) ''auth.portal_login_failed'' username None rq w2)
                            else (Inr (Challenge (pu_mfa_enabled u) (create_challenge_token P (pe_now env) (pu_id u))), w2)
                        | None \<Rightarrow>
                            (Inl (HTTPException 401 ''Invalid credentials''),
                             portal_emit P (pe_now env) ''auth.portal_login_failed'' username None rq w2)))))"

text \<open>From the verified code on: the session, the cookies, the time of the login.\<close>

definition sign_in :: "'w portal \<Rightarrow> portal_env \<Rightarrow> http_request \<Rightarrow> string \<Rightarrow> string list \<Rightarrow> 'w \<Rightarrow> 'w portal_run" where
  "sign_in P env rq user_id portal_roles w =
     (let access_token = portal_access_token P (pe_now env) user_id portal_roles
      in case create_session (px_db P) (px_hash P) (PORTAL_REFRESH_EXPIRE_HOURS (px_cfg P)) (pe_session env) user_id portal_roles
                DEFAULT_MAX_SESSIONS (PORTAL_REFRESH_EXPIRE_HOURS (px_cfg P)) w of
           (Inl e, w1) \<Rightarrow> (Inl (Unhandled e), w1)
         | (Inr refresh_token, w1) \<Rightarrow>
             (case update_user (px_db P) user_id (\<lambda>u. u\<lparr>pu_last_login := Some (pe_now env)\<rparr>) w1 of
                (Inl e, w2) \<Rightarrow> (Inl (Unhandled e), w2)
              | (Inr _, w2) \<Rightarrow>
                  (Inr (SignedIn portal_roles (issue_cookies P env access_token refresh_token)),
                   portal_emit P (pe_now env) ''auth.portal_login_success'' user_id
                     (Some [(''roles'', VList (map vstr portal_roles))]) rq w2)))"

definition portal_mfa_verify :: "'w portal \<Rightarrow> portal_env \<Rightarrow> http_request \<Rightarrow> string \<Rightarrow> 'w \<Rightarrow> 'w portal_run" where
  "portal_mfa_verify P env rq code w =
     (let auth_header = header_or_empty rq ''Authorization''
      in if \<not> starts_with bearer_prefix auth_header then (Inl (HTTPException 401 ''Challenge token required''), w)
         else (case decode_challenge_token P (pe_now env) (drop 7 auth_header) of
                 None \<Rightarrow> (Inl (HTTPException 401 ''Invalid or expired challenge token''), w)
               | Some user_id \<Rightarrow>
                   if user_id = [] then (Inl (HTTPException 401 ''Invalid or expired challenge token''), w)
                   else (case get_user_by_id (px_db P) user_id w of
                           None \<Rightarrow> (Inl (HTTPException 401 ''MFA not enrolled''), w)
                         | Some u \<Rightarrow>
                             if \<not> pu_mfa_enabled u then (Inl (HTTPException 401 ''MFA not enrolled''), w)
                             else (case Option.bind (pu_mfa_secret_enc u)
                                          (decrypt_mfa_secret (portal_mfa_settings (px_cfg P)) (px_crypto P)) of
                                     None \<Rightarrow> (Inl (HTTPException 500 ''MFA configuration error''), w)
                                   | Some secret \<Rightarrow>
                                       (case px_totp P (pe_now env) secret code of
                                          None \<Rightarrow> (Inl (Unhandled ValueError), w)
                                        | Some False \<Rightarrow>
                                            (Inl (HTTPException 401 ''Invalid MFA code''),
                                             portal_emit P (pe_now env) ''auth.portal_mfa_failed'' user_id None rq w)
                                        | Some True \<Rightarrow> sign_in P env rq user_id (roles_of u) w)))))"

definition portal_refresh :: "'w portal \<Rightarrow> portal_env \<Rightarrow> http_request \<Rightarrow> (string \<Rightarrow> string option) \<Rightarrow> 'w \<Rightarrow> 'w portal_run" where
  "portal_refresh P env rq cookies w =
     (case check_csrf rq (cookies CSRF_COOKIE) of
        Inl e \<Rightarrow> (Inl e, w)
      | Inr _ \<Rightarrow>
          if cookies REFRESH_COOKIE = None \<or> cookies REFRESH_COOKIE = Some [] then (Inl (HTTPException 401 ''No refresh token''), w)
          else (case extract_user_id P (pe_now env) (cookies ACCESS_COOKIE) of
                  None \<Rightarrow> (Inl (HTTPException 401 ''Cannot identify user from access token''), w)
                | Some user_id \<Rightarrow>
                    (case rotate_session (px_db P) (px_hash P) (PORTAL_REFRESH_EXPIRE_HOURS (px_cfg P)) (pe_session env)
                            (the (cookies REFRESH_COOKIE)) user_id w of
                       (Inl e, w1) \<Rightarrow> (Inl (Unhandled e), w1)
                     | (Inr None, w1) \<Rightarrow> (Inl (HTTPException 401 ''Invalid or expired refresh token''), w1)
                     | (Inr (Some new_refresh), w1) \<Rightarrow>
                         (let portal_roles = (case get_user_by_id (px_db P) user_id w1 of None \<Rightarrow> [] | Some u \<Rightarrow> roles_of u);
                              new_access = portal_access_token P (pe_now env) user_id portal_roles
                          in (Inr (Refreshed (issue_cookies P env new_access new_refresh)), w1)))))"

definition portal_logout :: "'w portal \<Rightarrow> portal_env \<Rightarrow> http_request \<Rightarrow> (string \<Rightarrow> string option) \<Rightarrow> 'w \<Rightarrow> 'w portal_run" where
  "portal_logout P env rq cookies w =
     (case check_csrf rq (cookies CSRF_COOKIE) of
        Inl e \<Rightarrow> (Inl e, w)
      | Inr _ \<Rightarrow>
          (case extract_user_id P (pe_now env) (cookies ACCESS_COOKIE) of
             None \<Rightarrow> (Inr (LoggedOut clear_cookies), w)
           | Some user_id \<Rightarrow>
               (case revoke_all (px_db P) (pe_now env) user_id w of
                  (Inl e, w1) \<Rightarrow> (Inl (Unhandled e), w1)
                | (Inr revoked, w1) \<Rightarrow>
                    (Inr (LoggedOut clear_cookies),
                     portal_emit P (pe_now env) ''auth.portal_logout'' user_id (Some [(''revoked_sessions'', VInt (int revoked))]) rq w1))))"

text \<open>\<open>token\<close> is the bearer token of the request.\<close>

definition portal_mfa_enroll :: "'w portal \<Rightarrow> portal_env \<Rightarrow> http_request \<Rightarrow> string \<Rightarrow> 'w \<Rightarrow> 'w portal_run" where
  "portal_mfa_enroll P env rq token w =
     (case get_current_tenant (portal_auth_settings (px_cfg P)) (px_decode P (pe_now env) True) rq token of
        Inl e \<Rightarrow> (Inl (AuthError e), w)
      | Inr ctx \<Rightarrow>
          (case require_portal_role [''portal:viewer'', ''portal:operator'', ''portal:admin''] ctx of
             Inl e \<Rightarrow> (Inl (AuthError e), w)
           | Inr tenant \<Rightarrow>
               (let user_id = tn_client_id tenant
                in case get_user_by_id (px_db P) user_id w of
                     None \<Rightarrow> (Inl (HTTPException 404 ''User not found''), w)
                   | Some u \<Rightarrow>
                       (case encrypt_mfa_secret (portal_mfa_settings (px_cfg P)) (px_crypto P) (pe_nonce env) (pe_nonce2 env) (pe_secret env) of
                          None \<Rightarrow> (Inl (Unhandled ValueError), w)
                        | Some secret_enc \<Rightarrow>
                            (case update_user (px_db P) user_id
                                    (\<lambda>u. u\<lparr>pu_mfa_secret_enc := Some secret_enc, pu_mfa_enabled := False, pu_mfa_enrolled_at := Some (pe_now env)\<rparr>) w of
                               (Inl e, w1) \<Rightarrow> (Inl (Unhandled e), w1)
                             | (Inr _, w1) \<Rightarrow>
                                 (Inr (Enrolled (px_provisioning_uri P (pe_secret env) (pu_username u) (PORTAL_MFA_ISSUER (px_cfg P))) (pe_secret env)),
                                  portal_emit P (pe_now env) ''auth.portal_mfa_enroll'' user_id None rq w1))))))"

section \<open>Laws\<close>

text \<open>
  The three services keep apart: writing to the audit trail, publishing and counting logins leave the portal's two
  collections alone. A signed token decodes to the claims it was made of as far as they are read here, before its expiry
  or when the expiry is not checked.
\<close>

definition portal_world :: "'w portal \<Rightarrow> bool" where
  "portal_world P \<longleftrightarrow> portal_laws (px_db P) \<and> audit_laws (px_audit P) \<and> limit_laws (px_limits P) \<and>
     (\<forall>d w. pd_sessions (px_db P) (ad_insert (px_audit P) d w) = pd_sessions (px_db P) w \<and>
            pd_users (px_db P) (ad_insert (px_audit P) d w) = pd_users (px_db P) w) \<and>
     (\<forall>c p w. pd_sessions (px_db P) (ad_publish (px_audit P) c p w) = pd_sessions (px_db P) w \<and>
              pd_users (px_db P) (ad_publish (px_audit P) c p w) = pd_users (px_db P) w) \<and>
     (\<forall>k w. pd_sessions (px_db P) (snd (lm_incr (px_limits P) k w)) = pd_sessions (px_db P) w \<and>
            pd_users (px_db P) (snd (lm_incr (px_limits P) k w)) = pd_users (px_db P) w) \<and>
     (\<forall>k n w. pd_sessions (px_db P) (lm_expire (px_limits P) k n w) = pd_sessions (px_db P) w \<and>
              pd_users (px_db P) (lm_expire (px_limits P) k n w) = pd_users (px_db P) w)"

definition same_identity :: "claims \<Rightarrow> claims \<Rightarrow> bool" where
  "same_identity c d \<longleftrightarrow> cl_iss c = cl_iss d \<and> cl_sub c = cl_sub d \<and> cl_tenant_id c = cl_tenant_id d \<and> cl_roles c = cl_roles d"

definition jwt_laws :: "'w portal \<Rightarrow> bool" where
  "jwt_laws P \<longleftrightarrow>
     (\<forall>c. px_encode P c \<noteq> []) \<and>
     (\<forall>c now. \<exists>d. px_decode P now False (px_encode P c) = Some d \<and> same_identity d c) \<and>
     (\<forall>c now. now \<le> cl_exp c \<longrightarrow> (\<exists>d. px_decode P now True (px_encode P c) = Some d \<and> same_identity d c))"

section \<open>Lemmas\<close>

lemma world_rules:
  assumes "portal_world P"
  shows "portal_laws (px_db P)"
    and "pd_sessions (px_db P) (ad_insert (px_audit P) d w) = pd_sessions (px_db P) w"
    and "pd_users (px_db P) (ad_insert (px_audit P) d w) = pd_users (px_db P) w"
    and "pd_sessions (px_db P) (ad_publish (px_audit P) c p w) = pd_sessions (px_db P) w"
    and "pd_users (px_db P) (ad_publish (px_audit P) c p w) = pd_users (px_db P) w"
    and "pd_sessions (px_db P) (snd (lm_incr (px_limits P) k w)) = pd_sessions (px_db P) w"
    and "pd_users (px_db P) (snd (lm_incr (px_limits P) k w)) = pd_users (px_db P) w"
    and "pd_sessions (px_db P) (lm_expire (px_limits P) k n w) = pd_sessions (px_db P) w"
    and "pd_users (px_db P) (lm_expire (px_limits P) k n w) = pd_users (px_db P) w"
  using assms unfolding portal_world_def by blast+

lemma emit_frame:
  assumes "portal_world P"
  shows "pd_sessions (px_db P) (portal_emit P now action i after rq w) = pd_sessions (px_db P) w"
    and "pd_users (px_db P) (portal_emit P now action i after rq w) = pd_users (px_db P) w"
  by (simp_all add: portal_emit_def audit_emit_def audit_log_def world_rules [OF assms])

lemma rate_limit_frame:
  assumes "portal_world P" and "check_login_rate_limit (px_limits P) ip w = (r, w')"
  shows "pd_sessions (px_db P) w' = pd_sessions (px_db P) w \<and> pd_users (px_db P) w' = pd_users (px_db P) w"
proof -
  obtain n w1 where "lm_incr (px_limits P) (login_key ip) w = (n, w1)" by fastforce
  with world_rules(6-9) [OF assms(1)] assms(2) show ?thesis
    by (auto simp: check_login_rate_limit_def split: if_splits) (metis snd_conv)+
qed

text \<open>What each endpoint does to the two collections.\<close>

lemma login_frame:
  assumes "portal_world P" and "portal_login P env rq name pw w = (r, w')"
  shows "pd_sessions (px_db P) w' = pd_sessions (px_db P) w \<and> pd_users (px_db P) w' = pd_users (px_db P) w"
proof -
  obtain q w1 where lim: "check_login_rate_limit (px_limits P) (case rq_client rq of None \<Rightarrow> ''unknown'' | Some h \<Rightarrow> h) w = (q, w1)"
    by fastforce
  have "w' = w1 \<or> (\<exists>now a i m. w' = portal_emit P now a i m rq w1)"
    using assms(2) lim by (auto simp: portal_login_def get_user_by_username_def Let_def split: sum.splits if_splits option.splits)
  with rate_limit_frame [OF assms(1) lim] emit_frame [OF assms(1)] show ?thesis by metis
qed

lemma logout_frame:
  assumes "portal_world P" and "portal_logout P env rq cookies w = (r, w')"
  obtains w1 where "w1 = w \<or> (\<exists>now u k. revoke_all (px_db P) now u w = (k, w1))"
    "pd_sessions (px_db P) w' = pd_sessions (px_db P) w1" "pd_users (px_db P) w' = pd_users (px_db P) w1"
proof (cases "\<exists>u. check_csrf rq (cookies CSRF_COOKIE) = Inr () \<and> extract_user_id P (pe_now env) (cookies ACCESS_COOKIE) = Some u")
  case True
  then obtain u where u: "check_csrf rq (cookies CSRF_COOKIE) = Inr ()" "extract_user_id P (pe_now env) (cookies ACCESS_COOKIE) = Some u"
    by blast
  obtain k w1 where k: "revoke_all (px_db P) (pe_now env) u w = (k, w1)" by fastforce
  with u assms(2) have "w' = w1 \<or> (\<exists>now a i m. w' = portal_emit P now a i m rq w1)"
    by (auto simp: portal_logout_def split: sum.splits)
  with emit_frame [OF assms(1)] have "pd_sessions (px_db P) w' = pd_sessions (px_db P) w1" "pd_users (px_db P) w' = pd_users (px_db P) w1"
    by metis+
  with k that show thesis by blast
next
  case False
  with assms(2) have "w' = w" by (auto simp: portal_logout_def split: sum.splits option.splits)
  with that show thesis by blast
qed

lemma refresh_frame:
  assumes "portal_refresh P env rq cookies w = (r, w')"
  shows "w' = w \<or> (\<exists>tok u q. rotate_session (px_db P) (px_hash P) (PORTAL_REFRESH_EXPIRE_HOURS (px_cfg P)) (pe_session env) tok u w = (q, w'))"
  using assms by (auto simp: portal_refresh_def Let_def split: sum.splits option.splits prod.splits if_splits)

lemma sign_in_frame:
  assumes "portal_world P" and "sign_in P env rq u roles w = (r, w')"
  obtains q w1 where "create_session (px_db P) (px_hash P) (PORTAL_REFRESH_EXPIRE_HOURS (px_cfg P)) (pe_session env) u roles
      DEFAULT_MAX_SESSIONS (PORTAL_REFRESH_EXPIRE_HOURS (px_cfg P)) w = (q, w1)"
    "pd_sessions (px_db P) w' = pd_sessions (px_db P) w1"
    "map pu_id (pd_users (px_db P) w') = map pu_id (pd_users (px_db P) w1)"
    "map pu_mfa_enabled (pd_users (px_db P) w') = map pu_mfa_enabled (pd_users (px_db P) w1)"
proof -
  obtain q w1 where c: "create_session (px_db P) (px_hash P) (PORTAL_REFRESH_EXPIRE_HOURS (px_cfg P)) (pe_session env) u roles
      DEFAULT_MAX_SESSIONS (PORTAL_REFRESH_EXPIRE_HOURS (px_cfg P)) w = (q, w1)" by fastforce
  let ?w2 = "pd_update_user (px_db P) u (\<lambda>x. x\<lparr>pu_last_login := Some (pe_now env)\<rparr>) w1"
  have "w' = w1 \<or> (\<exists>now a i m. w' = portal_emit P now a i m rq ?w2)"
    using assms(2) c by (auto simp: sign_in_def update_user_def Let_def split: sum.splits if_splits)
  then consider "w' = w1" | now a i m where "w' = portal_emit P now a i m rq ?w2" by blast
  then show thesis
  proof cases
    case 1
    with c that show thesis by blast
  next
    case 2
    have "map pu_id (pd_users (px_db P) ?w2) = map pu_id (pd_users (px_db P) w1)"
      "map pu_mfa_enabled (pd_users (px_db P) ?w2) = map pu_mfa_enabled (pd_users (px_db P) w1)"
      by (auto simp: portal_rules(8) [OF world_rules(1) [OF assms(1)]])
    with c 2 show thesis
      by (intro that) (simp_all add: emit_frame [OF assms(1)] portal_rules(5) [OF world_rules(1) [OF assms(1)]])
  qed
qed

text \<open>A sign-in happens only for a user whose second factor is enabled, with a code that fits the stored secret.\<close>

lemma mfa_verify_cases:
  assumes "portal_world P" and "portal_mfa_verify P env rq code w = (r, w')"
  obtains (refused) e where "r = Inl e" "pd_sessions (px_db P) w' = pd_sessions (px_db P) w" "pd_users (px_db P) w' = pd_users (px_db P) w"
  | (signed_in) u secret where "get_user_by_id (px_db P) (pu_id u) w = Some u" "pu_mfa_enabled u"
      "Option.bind (pu_mfa_secret_enc u) (decrypt_mfa_secret (portal_mfa_settings (px_cfg P)) (px_crypto P)) = Some secret"
      "px_totp P (pe_now env) secret code = Some True" "sign_in P env rq (pu_id u) (roles_of u) w = (r, w')"
proof -
  have "(\<exists>e. r = Inl e) \<and> (w' = w \<or> (\<exists>now a i m. w' = portal_emit P now a i m rq w)) \<or>
    (\<exists>i u secret. get_user_by_id (px_db P) i w = Some u \<and> pu_mfa_enabled u \<and>
       Option.bind (pu_mfa_secret_enc u) (decrypt_mfa_secret (portal_mfa_settings (px_cfg P)) (px_crypto P)) = Some secret \<and>
       px_totp P (pe_now env) secret code = Some True \<and> sign_in P env rq i (roles_of u) w = (r, w'))"
    using assms(2) by (auto simp: portal_mfa_verify_def Let_def split: if_splits option.splits bool.splits) blast+
  then consider e where "r = Inl e" "w' = w \<or> (\<exists>now a i m. w' = portal_emit P now a i m rq w)"
    | i u secret where "get_user_by_id (px_db P) i w = Some u" "pu_mfa_enabled u"
       "Option.bind (pu_mfa_secret_enc u) (decrypt_mfa_secret (portal_mfa_settings (px_cfg P)) (px_crypto P)) = Some secret"
       "px_totp P (pe_now env) secret code = Some True" "sign_in P env rq i (roles_of u) w = (r, w')"
    by blast
  then show thesis
  proof cases
    case 1
    with emit_frame [OF assms(1)] show thesis by (metis refused)
  next
    case 2
    then have "pu_id u = i" by (auto simp: get_user_by_id_def split: if_splits dest: find_SomeD)
    with 2 show thesis by (intro signed_in) auto
  qed
qed

lemma enroll_frame:
  assumes "portal_world P" and "portal_mfa_enroll P env rq token w = (r, w')"
  shows "pd_sessions (px_db P) w' = pd_sessions (px_db P) w \<and>
    (pd_users (px_db P) w' = pd_users (px_db P) w \<or>
     (\<exists>i f. (\<forall>u. pu_id (f u) = pu_id u \<and> \<not> pu_mfa_enabled (f u)) \<and>
        pd_users (px_db P) w' = map (\<lambda>u. if pu_id u = i then f u else u) (pd_users (px_db P) w)))"
proof -
  let ?f = "\<lambda>enc u. u\<lparr>pu_mfa_secret_enc := Some enc, pu_mfa_enabled := False, pu_mfa_enrolled_at := Some (pe_now env)\<rparr>"
  have "w' = w \<or> (\<exists>i enc now a j m. w' = portal_emit P now a j m rq (pd_update_user (px_db P) i (?f enc) w))"
    using assms(2) by (auto simp: portal_mfa_enroll_def update_user_def Let_def split: sum.splits if_splits option.splits) blast
  then show ?thesis
  proof
    assume "\<exists>i enc now a j m. w' = portal_emit P now a j m rq (pd_update_user (px_db P) i (?f enc) w)"
    then obtain i enc now a j m where "w' = portal_emit P now a j m rq (pd_update_user (px_db P) i (?f enc) w)" by blast
    then have "pd_sessions (px_db P) w' = pd_sessions (px_db P) w"
      "pd_users (px_db P) w' = map (\<lambda>u. if pu_id u = i then ?f enc u else u) (pd_users (px_db P) w)"
      by (simp_all add: emit_frame [OF assms(1)] portal_rules(5,8) [OF world_rules(1) [OF assms(1)]])
    then show ?thesis by (intro conjI disjI2 exI [of _ i] exI [of _ "?f enc"]) simp_all
  qed simp
qed

text \<open>Requests of anybody, with anything in them, one after the other.\<close>

inductive portal_step :: "'w portal \<Rightarrow> 'w \<Rightarrow> 'w \<Rightarrow> bool" for P where
  login: "portal_login P env rq name pw w = (r, w') \<Longrightarrow> portal_step P w w'"
| verify: "portal_mfa_verify P env rq code w = (r, w') \<Longrightarrow> fresh_id (px_db P) (pe_session env) w \<Longrightarrow> portal_step P w w'"
| refreshed: "portal_refresh P env rq cookies w = (r, w') \<Longrightarrow> fresh_id (px_db P) (pe_session env) w \<Longrightarrow> portal_step P w w'"
| logout: "portal_logout P env rq cookies w = (r, w') \<Longrightarrow> portal_step P w w'"
| enroll: "portal_mfa_enroll P env rq token w = (r, w') \<Longrightarrow> portal_step P w w'"

definition not_enrolled :: "'w portal \<Rightarrow> string \<Rightarrow> 'w \<Rightarrow> bool" where
  "not_enrolled P x w \<longleftrightarrow> (\<forall>u\<in>set (pd_users (px_db P) w). pu_id u = x \<longrightarrow> \<not> pu_mfa_enabled u)"

definition portal_ok :: "'w portal \<Rightarrow> string \<Rightarrow> 'w \<Rightarrow> bool" where
  "portal_ok P x w \<longleftrightarrow> sessions_ok (px_db P) DEFAULT_MAX_SESSIONS w \<and> not_enrolled P x w \<and> x \<notin> owners (px_db P) w"

lemma portal_ok_same:
  "portal_ok P x w \<Longrightarrow> pd_sessions (px_db P) w' = pd_sessions (px_db P) w \<Longrightarrow> pd_users (px_db P) w' = pd_users (px_db P) w \<Longrightarrow> portal_ok P x w'"
  by (simp add: portal_ok_def sessions_ok_def not_enrolled_def)

lemma not_enrolled_map:
  assumes "map pu_id us = map pu_id vs" "map pu_mfa_enabled us = map pu_mfa_enabled vs"
    and "\<forall>u\<in>set vs. pu_id u = x \<longrightarrow> \<not> pu_mfa_enabled u"
  shows "\<forall>u\<in>set us. pu_id u = x \<longrightarrow> \<not> pu_mfa_enabled u"
proof -
  have "length us = length vs" using assms(1) map_eq_imp_length_eq by blast
  then show ?thesis using assms by (auto simp: list_eq_iff_nth_eq all_set_conv_all_nth)
qed

lemma portal_step_ok:
  assumes world: "portal_world P" and "portal_step P w w'" and ok: "portal_ok P x w"
  shows "portal_ok P x w'"
  using assms(2)
proof cases
  case (login env rq name pw r)
  show ?thesis using login_frame [OF world login] by (intro portal_ok_same [OF ok]) simp_all
next
  case (logout env rq cookies r)
  then obtain w1 where w1: "w1 = w \<or> (\<exists>now u k. revoke_all (px_db P) now u w = (k, w1))"
    "pd_sessions (px_db P) w' = pd_sessions (px_db P) w1" "pd_users (px_db P) w' = pd_users (px_db P) w1"
    using logout_frame [OF world] by metis
  moreover have "portal_ok P x w1"
    using w1(1)
  proof
    assume "\<exists>now u k. revoke_all (px_db P) now u w = (k, w1)"
    then obtain now u k where r: "revoke_all (px_db P) now u w = (k, w1)" by blast
    show ?thesis using ok revoke_all_ok [OF world_rules(1) [OF world] r] unfolding portal_ok_def not_enrolled_def by simp
  qed (use ok in simp)
  ultimately show ?thesis using portal_ok_same by metis
next
  case (enroll env rq token r)
  then show ?thesis using enroll_frame [OF world enroll] ok
    by (auto simp: portal_ok_def sessions_ok_def not_enrolled_def)
next
  case (refreshed env rq cookies r)
  from refresh_frame [OF refreshed(1)] show ?thesis
  proof
    assume "\<exists>tok u q. rotate_session (px_db P) (px_hash P) (PORTAL_REFRESH_EXPIRE_HOURS (px_cfg P)) (pe_session env) tok u w = (q, w')"
    then obtain tok u q where
      r: "rotate_session (px_db P) (px_hash P) (PORTAL_REFRESH_EXPIRE_HOURS (px_cfg P)) (pe_session env) tok u w = (q, w')" by blast
    with rotate_session_frame [OF world_rules(1) [OF world] r] rotate_session_ok [OF world_rules(1) [OF world] _ refreshed(2) r] ok
    show ?thesis by (auto simp: portal_ok_def not_enrolled_def)
  qed (use ok in simp)
next
  case (verify env rq code r)
  from world verify(1) show ?thesis
  proof (cases rule: mfa_verify_cases [case_names refused signed_in])
    case (refused e)
    then show ?thesis by (intro portal_ok_same [OF ok]) simp_all
  next
    case (signed_in u secret)
    have "u \<in> set (pd_users (px_db P) w)"
      using signed_in(1) by (auto simp: get_user_by_id_def split: if_splits dest: find_SomeD)
    with signed_in(2) ok have "pu_id u \<noteq> x" by (auto simp: portal_ok_def not_enrolled_def)
    obtain q w1 where c: "create_session (px_db P) (px_hash P) (PORTAL_REFRESH_EXPIRE_HOURS (px_cfg P)) (pe_session env) (pu_id u) (roles_of u)
        DEFAULT_MAX_SESSIONS (PORTAL_REFRESH_EXPIRE_HOURS (px_cfg P)) w = (q, w1)"
      and s: "pd_sessions (px_db P) w' = pd_sessions (px_db P) w1"
        "map pu_id (pd_users (px_db P) w') = map pu_id (pd_users (px_db P) w1)"
        "map pu_mfa_enabled (pd_users (px_db P) w') = map pu_mfa_enabled (pd_users (px_db P) w1)"
      using sign_in_frame [OF world signed_in(5)] by metis
    note frame = create_session_frame [OF world_rules(1) [OF world] c]
    have "sessions_ok (px_db P) DEFAULT_MAX_SESSIONS w1"
      using create_session_ok [OF world_rules(1) [OF world] _ _ verify(2) c] ok by (simp add: portal_ok_def DEFAULT_MAX_SESSIONS_def)
    moreover have "not_enrolled P x w'"
      using not_enrolled_map [OF s(2,3), of x] frame(2) ok by (simp add: portal_ok_def not_enrolled_def)
    moreover have "x \<notin> owners (px_db P) w'" using frame(1) s(1) \<open>pu_id u \<noteq> x\<close> ok by (auto simp: portal_ok_def)
    ultimately show ?thesis using s(1) by (simp add: portal_ok_def sessions_ok_def)
  qed
qed

text \<open>Tokens made here, read back.\<close>

lemma access_token_sub:
  assumes "jwt_laws P" and "u \<noteq> []" and "\<not> starts_with challenge_prefix u"
  shows "extract_user_id P now (Some (portal_access_token P t u roles)) = Some u"
proof -
  let ?c = "\<lparr>cl_iss = Some PORTAL_ISSUER, cl_sub = Some u, cl_tenant_id = Some ''portal'', cl_roles = Some roles,
             cl_exp = t + PORTAL_JWT_EXPIRE_MINUTES (px_cfg P) * 60000, cl_iat = t\<rparr>"
  have tok: "portal_access_token P t u roles = px_encode P ?c"
    by (simp add: portal_access_token_def create_access_token_def)
  obtain d where "px_decode P now False (px_encode P ?c) = Some d" "same_identity d ?c" and "px_encode P ?c \<noteq> []"
    using assms(1) unfolding jwt_laws_def by blast
  with assms(2,3) show ?thesis by (simp add: extract_user_id_def tok same_identity_def sub_of_def)
qed

lemma challenge_decodes:
  assumes "jwt_laws P" and "now \<le> t + 300000"
  shows "\<exists>d. px_decode P now True (create_challenge_token P t u) = Some d \<and> cl_iss d = Some PORTAL_ISSUER \<and>
    cl_sub d = Some (challenge_prefix @ u) \<and> cl_tenant_id d = Some ''portal'' \<and> cl_roles d = Some [''portal:mfa_challenge'']"
proof -
  let ?c = "\<lparr>cl_iss = Some PORTAL_ISSUER, cl_sub = Some (challenge_prefix @ u), cl_tenant_id = Some ''portal'',
             cl_roles = Some [''portal:mfa_challenge''], cl_exp = t + MFA_CHALLENGE_MINUTES * 60000, cl_iat = t\<rparr>"
  have tok: "create_challenge_token P t u = px_encode P ?c" by (simp add: create_challenge_token_def create_access_token_def)
  have "now \<le> cl_exp ?c" using assms(2) by (simp add: MFA_CHALLENGE_MINUTES_def)
  then obtain d where "px_decode P now True (px_encode P ?c) = Some d" "same_identity d ?c"
    using assms(1) unfolding jwt_laws_def by blast
  then show ?thesis by (auto simp: tok same_identity_def)
qed

lemma rotate_session_up:
  assumes "\<And>w. pd_ok D w"
  shows "rotate_session D H dh env tok u w = (case find_session D H (se_now env) tok u w of
      None \<Rightarrow> (Inr None, w)
    | Some d \<Rightarrow> (Inr (Some (se_token env)), snd (rotate_session D H dh env tok u w)))"
  using assms by (simp add: rotate_session_def create_session_def make_room_def insert_session_def Let_def split: option.split)

text \<open>How a browser keeps cookies: by path, until \<open>Max-Age\<close> seconds after they were set at \<open>t0\<close>.\<close>

definition browser_cookies :: "cookie list \<Rightarrow> time \<Rightarrow> time \<Rightarrow> string \<Rightarrow> string \<Rightarrow> string option" where
  "browser_cookies cs t0 t path name =
     map_option ck_value (find (\<lambda>c. ck_name c = name \<and> starts_with (ck_path c) path \<and> t < t0 + 1000 * ck_max_age c) cs)"

lemmas cookie_names = ACCESS_COOKIE_def REFRESH_COOKIE_def CSRF_COOKIE_def REFRESH_PATH_def

lemma browser_issued:
  "browser_cookies (issue_cookies P env a r) t0 t REFRESH_PATH ACCESS_COOKIE =
     (if t < t0 + PORTAL_JWT_EXPIRE_MINUTES (px_cfg P) * 60000 then Some a else None)"
  "browser_cookies (issue_cookies P env a r) t0 t REFRESH_PATH REFRESH_COOKIE =
     (if t < t0 + PORTAL_REFRESH_EXPIRE_HOURS (px_cfg P) * 3600000 then Some r else None)"
  "browser_cookies (issue_cookies P env a r) t0 t REFRESH_PATH CSRF_COOKIE =
     (if t < t0 + PORTAL_REFRESH_EXPIRE_HOURS (px_cfg P) * 3600000 then Some (pe_csrf env) else None)"
  by (simp_all add: browser_cookies_def issue_cookies_def set_access_cookie_def set_refresh_cookie_def set_csrf_cookie_def cookie_names)

lemma sign_in_result:
  assumes world: "portal_world P" and run: "sign_in P env rq u roles w = (Inr rep, w')"
    and "PORTAL_REFRESH_EXPIRE_HOURS (px_cfg P) \<noteq> 0"
  shows "rep = SignedIn roles (issue_cookies P env (portal_access_token P (pe_now env) u roles) (se_token (pe_session env))) \<and>
    new_session (px_hash P) (pe_session env) u roles (PORTAL_REFRESH_EXPIRE_HOURS (px_cfg P)) \<in> set (live (px_db P) u w')"
proof -
  obtain q w1 where c: "create_session (px_db P) (px_hash P) (PORTAL_REFRESH_EXPIRE_HOURS (px_cfg P)) (pe_session env) u roles
        DEFAULT_MAX_SESSIONS (PORTAL_REFRESH_EXPIRE_HOURS (px_cfg P)) w = (q, w1)" by fastforce
  obtain tok where q: "q = Inr tok" using run c by (cases q) (auto simp: sign_in_def)
  have rep: "rep = SignedIn roles (issue_cookies P env (portal_access_token P (pe_now env) u roles) tok)"
    and s: "pd_sessions (px_db P) w' = pd_sessions (px_db P) w1"
    using run c q by (auto simp: sign_in_def update_user_def Let_def emit_frame [OF world]
        portal_rules(5) [OF world_rules(1) [OF world]] split: if_splits)
  from c q obtain w2 where "tok = se_token (pe_session env)"
    "w1 = pd_insert_session (px_db P) (new_session (px_hash P) (pe_session env) u roles (PORTAL_REFRESH_EXPIRE_HOURS (px_cfg P))) w2"
    by (cases rule: create_session_cases) (auto simp: assms(3))
  then have "tok = se_token (pe_session env)"
    "new_session (px_hash P) (pe_session env) u roles (PORTAL_REFRESH_EXPIRE_HOURS (px_cfg P)) \<in> set (live (px_db P) u w1)"
    using live_insert [OF world_rules(1) [OF world]] by auto
  then show ?thesis using rep s by simp
qed

lemma new_session_found:
  assumes "hash_laws H" and "new_session H env u roles h \<in> set (live D u w)" and "t < se_now env + h * 3600000"
  shows "find_session D H t (se_token env) u w \<noteq> None"
  using assms unfolding find_session_def find_None_iff
  by (auto intro!: exI [of _ "new_session H env u roles h"] simp: token_matches_def hash_laws_def new_session_def)

lemma refresh_result:
  assumes up: "\<And>w. pd_ok (px_db P) w" and world: "portal_world P" and run: "portal_refresh P env rq cookies w = (r, w')"
  shows "((\<exists>rep. r = Inr rep) \<longleftrightarrow>
      (\<exists>csrf tok u. csrf \<noteq> [] \<and> header_or_empty rq CSRF_HEADER = csrf \<and> cookies CSRF_COOKIE = Some csrf \<and>
         cookies REFRESH_COOKIE = Some tok \<and> tok \<noteq> [] \<and> extract_user_id P (pe_now env) (cookies ACCESS_COOKIE) = Some u \<and>
         find_session (px_db P) (px_hash P) (pe_now env) tok u w \<noteq> None)) \<and>
    (\<forall>rep u v. r = Inr rep \<and> extract_user_id P (pe_now env) (cookies ACCESS_COOKIE) = Some u \<and>
       find (\<lambda>v. pu_id v = u) (pd_users (px_db P) w) = Some v \<longrightarrow>
       rep = Refreshed (issue_cookies P env (portal_access_token P (pe_now env) u (roles_of v)) (se_token (pe_session env))))"
proof (cases "check_csrf rq (cookies CSRF_COOKIE) = Inr () \<and> cookies REFRESH_COOKIE \<noteq> None \<and> cookies REFRESH_COOKIE \<noteq> Some [] \<and>
    extract_user_id P (pe_now env) (cookies ACCESS_COOKIE) \<noteq> None")
  case True
  then obtain tok u where req: "check_csrf rq (cookies CSRF_COOKIE) = Inr ()" "cookies REFRESH_COOKIE = Some tok" "tok \<noteq> []"
      "extract_user_id P (pe_now env) (cookies ACCESS_COOKIE) = Some u" by auto
  have csrf: "\<exists>csrf. csrf \<noteq> [] \<and> header_or_empty rq CSRF_HEADER = csrf \<and> cookies CSRF_COOKIE = Some csrf"
    using req(1) by (auto simp: check_csrf_def split: if_splits)
  let ?rot = "rotate_session (px_db P) (px_hash P) (PORTAL_REFRESH_EXPIRE_HOURS (px_cfg P)) (pe_session env) tok u w"
  have users: "pd_users (px_db P) (snd ?rot) = pd_users (px_db P) w"
    using rotate_session_frame(2) [OF world_rules(1) [OF world], where w' = "snd ?rot"] by (metis prod.collapse)
  show ?thesis
  proof (cases "find_session (px_db P) (px_hash P) (pe_now env) tok u w")
    case None
    then have "?rot = (Inr None, w)" by (subst rotate_session_up [OF up]) simp
    with run req None show ?thesis by (auto simp: portal_refresh_def)
  next
    case (Some d)
    then have "?rot = (Inr (Some (se_token (pe_session env))), snd ?rot)" by (subst rotate_session_up [OF up]) simp
    then have "r = Inr (Refreshed (issue_cookies P env (portal_access_token P (pe_now env) u
        (case find (\<lambda>v. pu_id v = u) (pd_users (px_db P) w) of None \<Rightarrow> [] | Some v \<Rightarrow> roles_of v)) (se_token (pe_session env))))"
      using run req users up by (simp add: portal_refresh_def Let_def get_user_by_id_def split: prod.splits)
    with req Some csrf show ?thesis by auto
  qed
next
  case False
  have "\<exists>e. r = Inl e" using run False by (auto simp: portal_refresh_def split: sum.splits option.splits if_splits)
  moreover have "check_csrf rq (cookies CSRF_COOKIE) = Inr ()"
    if "csrf \<noteq> []" "header_or_empty rq CSRF_HEADER = csrf" "cookies CSRF_COOKIE = Some csrf" for csrf
    using that by (simp add: check_csrf_def)
  ultimately show ?thesis using False by auto
qed

text \<open>
  An instance for the witnesses: collections, trail and counters in memory; tokens that carry their claims in the clear; a
  password is its own hash and one code is always right.
\<close>

type_synonym mem_world = "(psession list \<times> puser list) \<times> (audit_doc list \<times> (string \<times> audit_payload) list) \<times> (string \<Rightarrow> int option)"

fun pack_string :: "string \<Rightarrow> string" where
  "pack_string [] = ''z''"
| "pack_string (c # s) = CHR ''a'' # c # pack_string s"

fun unpack_strings :: "string \<Rightarrow> string \<Rightarrow> string list" where
  "unpack_strings cur (x # c # s) = (if x = CHR ''a'' then unpack_strings (cur @ [c]) s else cur # unpack_strings [] (c # s))"
| "unpack_strings cur [x] = [cur]"
| "unpack_strings cur [] = []"

definition pack_strings :: "string list \<Rightarrow> string" where "pack_strings ss = concat (map pack_string ss)"

lemma unpack_pack_string: "unpack_strings cur (pack_string s @ t) = (cur @ s) # unpack_strings [] t"
  by (induction s arbitrary: cur) (simp_all, cases t, simp_all)

lemma unpack_pack_strings: "unpack_strings [] (pack_strings ss) = ss"
  by (induction ss) (simp_all add: pack_strings_def unpack_pack_string)

definition pack_opt :: "string option \<Rightarrow> string" where "pack_opt v = (case v of None \<Rightarrow> ''n'' | Some s \<Rightarrow> CHR ''s'' # s)"

definition unpack_opt :: "string \<Rightarrow> string option" where "unpack_opt s = (case s of CHR ''s'' # t \<Rightarrow> Some t | _ \<Rightarrow> None)"

lemma unpack_pack_opt [simp]: "unpack_opt (pack_opt v) = v"
  by (cases v) (simp_all add: unpack_opt_def pack_opt_def)

definition plain_encode :: "claims \<Rightarrow> string" where
  "plain_encode c = pack_strings ([pack_opt (cl_iss c), pack_opt (cl_sub c), pack_opt (cl_tenant_id c)] @
     (case cl_roles c of None \<Rightarrow> [] | Some rs \<Rightarrow> ''roles'' # rs))"

definition plain_decode :: "string \<Rightarrow> claims option" where
  "plain_decode t =
     (case unpack_strings [] t of
        a # b # c # rs \<Rightarrow>
          Some \<lparr>cl_iss = unpack_opt a, cl_sub = unpack_opt b, cl_tenant_id = unpack_opt c,
                cl_roles = (case rs of [] \<Rightarrow> None | _ # rs' \<Rightarrow> Some rs'), cl_exp = 0, cl_iat = 0\<rparr>
      | _ \<Rightarrow> None)"

definition mem_portal_world :: "mem_world portal" where
  "mem_portal_world =
     \<lparr>px_cfg = default_portal_settings,
      px_db = \<lparr>pd_ok = (\<lambda>_. True), pd_sessions = (\<lambda>w. fst (fst w)), pd_by_age = sort_key ps_created,
        pd_insert_session = (\<lambda>d w. ((fst (fst w) @ [d], snd (fst w)), snd w)),
        pd_update_sessions = (\<lambda>P f w. ((map (\<lambda>d. if P d then f d else d) (fst (fst w)), snd (fst w)), snd w)),
        pd_users = (\<lambda>w. snd (fst w)),
        pd_update_user = (\<lambda>i f w. ((fst (fst w), map (\<lambda>u. if pu_id u = i then f u else u) (snd (fst w))), snd w))\<rparr>,
      px_audit = \<lparr>ad_mongo_ok = (\<lambda>_. True), ad_events = (\<lambda>w. fst (fst (snd w))),
        ad_insert = (\<lambda>d w. (fst w, (fst (fst (snd w)) @ [d], snd (fst (snd w))), snd (snd w))),
        ad_redis_ready = (\<lambda>_. True), ad_publish_ok = (\<lambda>_. True),
        ad_publish = (\<lambda>c p w. (fst w, (fst (fst (snd w)), snd (fst (snd w)) @ [(c, p)]), snd (snd w))),
        ad_published = (\<lambda>w. snd (fst (snd w)))\<rparr>,
      px_limits = \<lparr>lm_settings = default_redis_settings, lm_ok = (\<lambda>_. True), lm_get = (\<lambda>k w. snd (snd w) k),
        lm_incr = (\<lambda>k w. let n = (case snd (snd w) k of None \<Rightarrow> 0 | Some n \<Rightarrow> n) + 1 in (n, (fst w, fst (snd w), (snd (snd w))(k \<mapsto> n)))),
        lm_decr = (\<lambda>k w. let n = (case snd (snd w) k of None \<Rightarrow> 0 | Some n \<Rightarrow> n) - 1 in (n, (fst w, fst (snd w), (snd (snd w))(k \<mapsto> n)))),
        lm_set = (\<lambda>k n w. (fst w, fst (snd w), (snd (snd w))(k \<mapsto> n))), lm_expire = (\<lambda>k n w. w)\<rparr>,
      px_hash = plain_hash, px_crypto = toy_crypto, px_encode = plain_encode, px_decode = (\<lambda>now v t. plain_decode t),
      px_verify_password = (\<lambda>pw h. Some (pw = h)), px_totp = (\<lambda>now s c. Some (c = ''123456'')),
      px_provisioning_uri = (\<lambda>s n i. ''otpauth://'')\<rparr>"

lemma mem_portal_world_laws: "portal_world mem_portal_world" "hash_laws (px_hash mem_portal_world)" "pd_ok (px_db mem_portal_world) w"
  by (simp_all add: portal_world_def portal_laws_def audit_laws_def limit_laws_def mem_portal_world_def hash_laws_def plain_hash_def
      lm_value_def Let_def)

lemma mem_portal_jwt: "jwt_laws mem_portal_world"
proof -
  have "\<exists>d. plain_decode (plain_encode c) = Some d \<and> same_identity d c" for c
    by (cases "cl_roles c") (simp_all add: plain_decode_def plain_encode_def unpack_pack_strings same_identity_def)
  moreover have "plain_encode c \<noteq> []" for c by (cases "cl_iss c") (simp_all add: plain_encode_def pack_strings_def pack_opt_def)
  ultimately show ?thesis by (simp add: jwt_laws_def mem_portal_world_def)
qed

definition demo_user :: "bool \<Rightarrow> bool \<Rightarrow> puser" where
  "demo_user active mfa = \<lparr>pu_id = ''u1'', pu_username = ''kim'', pu_hashed_password = Some ''pw'', pu_is_active = active,
     pu_mfa_enabled = mfa, pu_mfa_secret_enc = Some (b64encode [65, 66, 67]), pu_portal_roles = None, pu_last_login = None,
     pu_mfa_enrolled_at = None\<rparr>"

definition demo_penv :: "string \<Rightarrow> time \<Rightarrow> portal_env" where
  "demo_penv i now = \<lparr>pe_session = demo_env i now, pe_csrf = ''csrf'', pe_secret = [65], pe_nonce = [], pe_nonce2 = []\<rparr>"

definition demo_rq :: "(string \<times> string) list \<Rightarrow> http_request" where
  "demo_rq hs = \<lparr>rq_method = ''POST'', rq_path = REFRESH_PATH, rq_header = map_of hs, rq_query = (\<lambda>_. None), rq_client = None, rq_body = []\<rparr>"

definition demo_start :: "psession list \<Rightarrow> puser \<Rightarrow> mem_world" where
  "demo_start ss u = ((ss, [u]), ([], []), \<lambda>_. None)"

lemma demo_login:
  "\<exists>w'. portal_login mem_portal_world (demo_penv i now) (demo_rq hs) ''kim'' ''pw'' (demo_start ss (demo_user True mfa)) =
     (Inr (Challenge mfa (create_challenge_token mem_portal_world now ''u1'')), w') \<and>
     pd_users (px_db mem_portal_world) w' = [demo_user True mfa]"
  by (simp add: portal_login_def check_login_rate_limit_def get_user_by_username_def mem_portal_world_def demo_user_def demo_penv_def
      demo_env_def demo_rq_def demo_start_def create_challenge_token_def Let_def)

section \<open>Properties\<close>



text \<open>
  Who is not enrolled cannot enroll. A user with the right password and no second factor gets the token of the first step and is
  told to enroll; the enrolment refuses that token, and so does the second step. There is no other token
  for such a user, so the enrolment can only be done outside the portal.
\<close>

theorem enrolment_deadlock:
  assumes "jwt_laws P" and "portal_login P env rq name pw w = (Inr (Challenge False tok), w')"
    and "pe_now env' \<le> pe_now env + 300000" and "header_or_empty rq' ''X-Tenant-Id'' = []"
    and "header_or_empty rq'' ''Authorization'' = bearer_prefix @ tok"
    and "\<forall>u\<in>set (pd_users (px_db P) w''). pu_username u = name \<longrightarrow> \<not> pu_mfa_enabled u"
    and "\<forall>u\<in>set (pd_users (px_db P) w''). \<forall>v\<in>set (pd_users (px_db P) w'). pu_id u = pu_id v \<longrightarrow> pu_username u = pu_username v"
  shows "portal_mfa_enroll P env' rq' tok w'' = (Inl (AuthError (AuthorizationError ''Required portal roles'')), w'') \<and>
    (\<exists>e. portal_mfa_verify P env' rq'' code w'' = (Inl (HTTPException 401 e), w''))"
proof -
  obtain u where u: "u \<in> set (pd_users (px_db P) w')" "pu_username u = name" "tok = create_challenge_token P (pe_now env) (pu_id u)"
    using assms(2) by (auto simp: portal_login_def get_user_by_username_def Let_def
        split: sum.splits prod.splits if_splits option.splits dest!: find_SomeD)
  obtain d where d: "px_decode P (pe_now env') True tok = Some d" "cl_iss d = Some PORTAL_ISSUER"
      "cl_sub d = Some (challenge_prefix @ pu_id u)" "cl_tenant_id d = Some ''portal''" "cl_roles d = Some [''portal:mfa_challenge'']"
    using challenge_decodes [OF assms(1,3), of "pu_id u"] u(3) by auto
  have dec: "decode_challenge_token P (pe_now env') tok = Some (pu_id u)"
    using d by (simp add: decode_challenge_token_def sub_of_def starts_with_iff)
  have "\<not> pu_mfa_enabled v" if "get_user_by_id (px_db P) (pu_id u) w'' = Some v" for v
    using that assms(6,7) u by (auto simp: get_user_by_id_def split: if_splits dest!: find_SomeD)
  then have "\<exists>e. portal_mfa_verify P env' rq'' code w'' = (Inl (HTTPException 401 e), w'')"
    using dec assms(5) by (cases "get_user_by_id (px_db P) (pu_id u) w''")
      (auto simp: portal_mfa_verify_def starts_with_iff bearer_prefix_def)
  moreover have "portal_mfa_enroll P env' rq' tok w'' = (Inl (AuthError (AuthorizationError ''Required portal roles'')), w'')"
    using d assms(4) by (simp add: portal_mfa_enroll_def get_current_tenant_def challenge_prefix_def
        require_portal_role_def PORTAL_ISSUER_def PLATFORM_ADMIN_ROLES_def Let_def)
  ultimately show ?thesis by blast
qed

theorem enrolment_deadlock_witness:
  "\<exists>tok w'. portal_login mem_portal_world (demo_penv ''a'' 0) (demo_rq []) ''kim'' ''pw'' (demo_start [] (demo_user True False)) =
       (Inr (Challenge False tok), w') \<and>
     portal_mfa_enroll mem_portal_world (demo_penv ''b'' 1000) (demo_rq []) tok w' =
       (Inl (AuthError (AuthorizationError ''Required portal roles'')), w')"
proof -
  obtain tok w' where run: "portal_login mem_portal_world (demo_penv ''a'' 0) (demo_rq []) ''kim'' ''pw'' (demo_start [] (demo_user True False)) =
      (Inr (Challenge False tok), w')" and users: "pd_users (px_db mem_portal_world) w' = [demo_user True False]"
    using demo_login by metis
  have "portal_mfa_enroll mem_portal_world (demo_penv ''b'' 1000) (demo_rq []) tok w' =
       (Inl (AuthError (AuthorizationError ''Required portal roles'')), w')"
    by (rule enrolment_deadlock [where rq'' = "demo_rq [(''Authorization'', bearer_prefix @ tok)]", OF mem_portal_jwt run, THEN conjunct1])
      (simp_all add: users demo_penv_def demo_env_def demo_rq_def header_or_empty_def demo_user_def)
  with run show ?thesis by blast
qed

text \<open>
  What a refresh looks at. With the database up a refresh succeeds exactly when the CSRF header equals its cookie, an access
  token, expired or not, names a user, and the refresh token is that of a live session of this user. The new access token
  then has the roles the user's document has now. Whether the account is still active is not looked at, so an operator who was
  deactivated keeps access for as long as the refreshes go on, while a new login is refused.
\<close>

theorem refresh_outcome:
  assumes up: "\<And>w. pd_ok (px_db P) w" and world: "portal_world P" and run: "portal_refresh P env rq cookies w = (r, w')"
  shows "((\<exists>rep. r = Inr rep) \<longleftrightarrow>
      (\<exists>csrf tok u. csrf \<noteq> [] \<and> header_or_empty rq CSRF_HEADER = csrf \<and> cookies CSRF_COOKIE = Some csrf \<and>
         cookies REFRESH_COOKIE = Some tok \<and> tok \<noteq> [] \<and> extract_user_id P (pe_now env) (cookies ACCESS_COOKIE) = Some u \<and>
         find_session (px_db P) (px_hash P) (pe_now env) tok u w \<noteq> None)) \<and>
    (\<forall>rep u v. r = Inr rep \<and> extract_user_id P (pe_now env) (cookies ACCESS_COOKIE) = Some u \<and>
       find (\<lambda>v. pu_id v = u) (pd_users (px_db P) w) = Some v \<longrightarrow>
       rep = Refreshed (issue_cookies P env (portal_access_token P (pe_now env) u (roles_of v)) (se_token (pe_session env))))"
  by (rule refresh_result [OF assms])

theorem refresh_outcome_witness:
  "let P = mem_portal_world; env = demo_penv ''b'' 1000;
       tok = portal_access_token P 0 ''u1'' [''portal:viewer''];
       cookies = map_of [(CSRF_COOKIE, ''csrf''), (REFRESH_COOKIE, ''token-a''), (ACCESS_COOKIE, tok)];
       w = demo_start [new_session plain_hash (demo_env ''a'' 0) ''u1'' [''portal:viewer''] 8] (demo_user False True)
   in fst (portal_refresh P env (demo_rq [(CSRF_HEADER, ''csrf'')]) cookies w) =
      Inr (Refreshed (issue_cookies P env (portal_access_token P 1000 ''u1'' [''portal:viewer'']) ''token-b''))"
proof -
  let ?P = mem_portal_world and ?env = "demo_penv ''b'' 1000"
  let ?tok = "portal_access_token ?P 0 ''u1'' [''portal:viewer'']"
  let ?cookies = "map_of [(CSRF_COOKIE, ''csrf''), (REFRESH_COOKIE, ''token-a''), (ACCESS_COOKIE, ?tok)]"
  let ?s = "new_session plain_hash (demo_env ''a'' 0) ''u1'' [''portal:viewer''] 8"
  let ?w = "demo_start [?s] (demo_user False True)" and ?rq = "demo_rq [(CSRF_HEADER, ''csrf'')]"
  obtain r w' where run: "portal_refresh ?P ?env ?rq ?cookies ?w = (r, w')" by (meson surj_pair)
  have c: "?cookies CSRF_COOKIE = Some ''csrf''" "?cookies REFRESH_COOKIE = Some ''token-a''" "?cookies ACCESS_COOKIE = Some ?tok"
    by (simp_all add: cookie_names)
  have ex: "extract_user_id ?P (pe_now ?env) (?cookies ACCESS_COOKIE) = Some ''u1''"
    unfolding c(3) by (rule access_token_sub [OF mem_portal_jwt]) (simp_all add: challenge_prefix_def)
  have h: "px_hash ?P = plain_hash" by (simp add: mem_portal_world_def)
  have "?s \<in> set (live (px_db ?P) ''u1'' ?w)" by (simp add: mem_portal_world_def demo_start_def is_live_def new_session_def)
  then have f: "find_session (px_db ?P) (px_hash ?P) (pe_now ?env) ''token-a'' ''u1'' ?w \<noteq> None"
    using new_session_found [OF mem_portal_world_laws(2) [unfolded h], of "demo_env ''a'' 0" "''u1''" "[''portal:viewer'']" 8 "px_db ?P" ?w 1000]
    unfolding h by (simp add: demo_penv_def demo_env_def)
  note spec = refresh_outcome [OF mem_portal_world_laws(3,1) run]
  have "\<exists>rep. r = Inr rep"
    using spec [THEN conjunct1] c(1,2) ex f by (auto simp: demo_rq_def header_or_empty_def)
  then obtain rep where "r = Inr rep" by blast
  moreover have "find (\<lambda>v. pu_id v = ''u1'') (pd_users (px_db ?P) ?w) = Some (demo_user False True)"
    by (simp add: mem_portal_world_def demo_start_def demo_user_def)
  ultimately have "rep = Refreshed (issue_cookies ?P ?env (portal_access_token ?P (pe_now ?env) ''u1'' (roles_of (demo_user False True))) (se_token (pe_session ?env)))"
    using spec [THEN conjunct2] ex by blast
  with \<open>r = Inr rep\<close> run show ?thesis by (simp add: roles_of_def demo_user_def demo_penv_def demo_env_def)
qed

text \<open>
  An idle operator is signed out after fifteen minutes, not eight hours. A refresh identifies the user by the access
  cookie, which the browser drops when its token expires. After the sign-in a refresh works until then; from then on every
  request a browser can make is refused, although the refresh cookie and the session live on for eight hours.
\<close>

theorem idle_session_lost:
  assumes world: "portal_world P" "hash_laws (px_hash P)" "jwt_laws P" and up: "\<And>w. pd_ok (px_db P) w"
    and verify: "portal_mfa_verify P env rq code w = (Inr (SignedIn roles cs), w1)"
    and cfg: "0 < PORTAL_JWT_EXPIRE_MINUTES (px_cfg P)" "PORTAL_JWT_EXPIRE_MINUTES (px_cfg P) \<le> 60 * PORTAL_REFRESH_EXPIRE_HOURS (px_cfg P)"
    and drawn: "se_token (pe_session env) \<noteq> []" "pe_csrf env \<noteq> []"
    and ids: "\<forall>u\<in>set (pd_users (px_db P) w). pu_id u \<noteq> [] \<and> \<not> starts_with challenge_prefix (pu_id u)"
  shows "(\<forall>env' rq' w2. pe_now env + PORTAL_JWT_EXPIRE_MINUTES (px_cfg P) * 60000 \<le> pe_now env' \<longrightarrow>
      (\<exists>e. portal_refresh P env' rq' (browser_cookies cs (pe_now env) (pe_now env') REFRESH_PATH) w2 = (Inl e, w2) \<and>
         (header_or_empty rq' CSRF_HEADER = pe_csrf env \<and> pe_now env' < pe_now env + PORTAL_REFRESH_EXPIRE_HOURS (px_cfg P) * 3600000 \<longrightarrow>
          e = HTTPException 401 ''Cannot identify user from access token''))) \<and>
    (\<forall>env' rq'. pe_now env' < pe_now env + PORTAL_JWT_EXPIRE_MINUTES (px_cfg P) * 60000 \<and> header_or_empty rq' CSRF_HEADER = pe_csrf env \<longrightarrow>
      (\<exists>rep w2. portal_refresh P env' rq' (browser_cookies cs (pe_now env) (pe_now env') REFRESH_PATH) w1 = (Inr rep, w2))) \<and>
    (\<exists>u. \<forall>t < pe_now env + PORTAL_REFRESH_EXPIRE_HOURS (px_cfg P) * 3600000.
       find_session (px_db P) (px_hash P) t (se_token (pe_session env)) u w1 \<noteq> None)"
proof -
  obtain u where u: "get_user_by_id (px_db P) (pu_id u) w = Some u"
    and s: "sign_in P env rq (pu_id u) (roles_of u) w = (Inr (SignedIn roles cs), w1)"
    using world(1) verify by (cases rule: mfa_verify_cases) auto
  let ?hours = "PORTAL_REFRESH_EXPIRE_HOURS (px_cfg P)" and ?minutes = "PORTAL_JWT_EXPIRE_MINUTES (px_cfg P)"
  have h0: "?hours \<noteq> 0" using cfg by auto
  note res = sign_in_result [OF world(1) s h0]
  have cs: "cs = issue_cookies P env (portal_access_token P (pe_now env) (pu_id u) roles) (se_token (pe_session env))"
    using res by simp
  have uid: "pu_id u \<noteq> []" "\<not> starts_with challenge_prefix (pu_id u)"
    using u ids by (auto simp: get_user_by_id_def split: if_splits dest!: find_SomeD)
  have found: "find_session (px_db P) (px_hash P) t (se_token (pe_session env)) (pu_id u) w1 \<noteq> None"
    if "t < pe_now env + ?hours * 3600000" for t
    using new_session_found [OF world(2) res [THEN conjunct2] that] .
  let ?jar = "\<lambda>env'. browser_cookies cs (pe_now env) (pe_now env') REFRESH_PATH"
  have lost: "\<exists>e. portal_refresh P env' rq' (?jar env') w2 = (Inl e, w2) \<and>
      (header_or_empty rq' CSRF_HEADER = pe_csrf env \<and> pe_now env' < pe_now env + ?hours * 3600000 \<longrightarrow>
       e = HTTPException 401 ''Cannot identify user from access token'')"
    if "pe_now env + ?minutes * 60000 \<le> pe_now env'" for env' rq' w2
  proof -
    have "?jar env' ACCESS_COOKIE = None" unfolding cs browser_issued using that by simp
    then have "extract_user_id P (pe_now env') (?jar env' ACCESS_COOKIE) = None" by (simp add: extract_user_id_def)
    moreover have "?jar env' CSRF_COOKIE = Some (pe_csrf env)" "?jar env' REFRESH_COOKIE = Some (se_token (pe_session env))"
      if "pe_now env' < pe_now env + ?hours * 3600000" unfolding cs browser_issued using that by simp_all
    ultimately show ?thesis using drawn by (auto simp: portal_refresh_def check_csrf_def)
  qed
  have works: "\<exists>rep w2. portal_refresh P env' rq' (?jar env') w1 = (Inr rep, w2)"
    if "pe_now env' < pe_now env + ?minutes * 60000" "header_or_empty rq' CSRF_HEADER = pe_csrf env" for env' rq'
  proof -
    have t: "pe_now env' < pe_now env + ?hours * 3600000" using that(1) cfg(2) by linarith
    have jar: "?jar env' ACCESS_COOKIE = Some (portal_access_token P (pe_now env) (pu_id u) roles)"
      "?jar env' CSRF_COOKIE = Some (pe_csrf env)" "?jar env' REFRESH_COOKIE = Some (se_token (pe_session env))"
      unfolding cs browser_issued using that(1) t by simp_all
    have "extract_user_id P (pe_now env') (?jar env' ACCESS_COOKIE) = Some (pu_id u)"
      unfolding jar(1) by (rule access_token_sub [OF world(3) uid])
    with jar found [OF t] drawn that(2) show ?thesis
      using refresh_result [OF up world(1) prod.collapse [symmetric], of env' rq' "?jar env'" w1] by (metis prod.collapse)
  qed
  show ?thesis using lost works found by blast
qed

theorem idle_session_lost_witness:
  "\<exists>roles cs w1. fst (portal_mfa_verify mem_portal_world (demo_penv ''a'' 0)
       (demo_rq [(''Authorization'', bearer_prefix @ create_challenge_token mem_portal_world 0 ''u1'')]) ''123456''
       (demo_start [] (demo_user True True))) = Inr (SignedIn roles cs) \<and>
     portal_refresh mem_portal_world (demo_penv ''b'' 900000) (demo_rq [(CSRF_HEADER, ''csrf'')])
       (browser_cookies cs 0 900000 REFRESH_PATH) w1 = (Inl (HTTPException 401 ''Cannot identify user from access token''), w1)"
proof -
  let ?P = mem_portal_world and ?env = "demo_penv ''a'' 0" and ?w = "demo_start [] (demo_user True True)"
  let ?rq = "demo_rq [(''Authorization'', bearer_prefix @ create_challenge_token ?P 0 ''u1'')]"
  have dec: "decode_challenge_token ?P (pe_now ?env) (create_challenge_token ?P 0 ''u1'') = Some ''u1''"
    using challenge_decodes [OF mem_portal_jwt, of "pe_now ?env" 0 "''u1''"]
    by (auto simp: decode_challenge_token_def sub_of_def starts_with_iff demo_penv_def demo_env_def challenge_prefix_def)
  have "b64decode (b64encode [65, 66, 67]) = Some [65, 66, 67]" by (rule b64_roundtrip) simp
  moreover have "\<not> starts_with KMS_PREFIX (b64encode [65, 66, 67])" by (rule envkey_not_kms) simp
  ultimately have sec: "decrypt_mfa_secret (portal_mfa_settings (px_cfg ?P)) (px_crypto ?P) (b64encode [65, 66, 67]) = Some [65, 66, 67]"
    by (simp add: decrypt_mfa_secret_def decrypt_mfa_secret_envkey_def mem_portal_world_def default_portal_settings_def)
  have "portal_mfa_verify ?P ?env ?rq ''123456'' ?w = sign_in ?P ?env ?rq ''u1'' (roles_of (demo_user True True)) ?w"
    using dec sec by (simp add: portal_mfa_verify_def demo_rq_def header_or_empty_def starts_with_iff bearer_prefix_def get_user_by_id_def
        mem_portal_world_laws demo_user_def) (simp add: mem_portal_world_def demo_start_def demo_user_def)
  moreover obtain rep w1 where s: "sign_in ?P ?env ?rq ''u1'' (roles_of (demo_user True True)) ?w = (Inr rep, w1)"
    by (simp add: sign_in_def create_session_def make_room_def insert_session_def update_user_def mem_portal_world_laws Let_def)
  ultimately obtain roles cs where run: "portal_mfa_verify ?P ?env ?rq ''123456'' ?w = (Inr (SignedIn roles cs), w1)"
    using sign_in_result [OF mem_portal_world_laws(1) s] by (simp add: mem_portal_world_def default_portal_settings_def)
  have "portal_refresh ?P (demo_penv ''b'' 900000) (demo_rq [(CSRF_HEADER, ''csrf'')])
       (browser_cookies cs (pe_now ?env) (pe_now (demo_penv ''b'' 900000)) REFRESH_PATH) w1 =
     (Inl (HTTPException 401 ''Cannot identify user from access token''), w1)"
  proof -
    have cfg: "PORTAL_JWT_EXPIRE_MINUTES (px_cfg ?P) = 15" "PORTAL_REFRESH_EXPIRE_HOURS (px_cfg ?P) = 8"
      by (simp_all add: mem_portal_world_def default_portal_settings_def)
    have env: "pe_now ?env = 0" "pe_now (demo_penv ''b'' 900000) = 900000" "se_token (pe_session ?env) \<noteq> []" "pe_csrf ?env = ''csrf''"
      by (simp_all add: demo_penv_def demo_env_def)
    have ids: "\<forall>u\<in>set (pd_users (px_db ?P) ?w). pu_id u \<noteq> [] \<and> \<not> starts_with challenge_prefix (pu_id u)"
      by (simp add: mem_portal_world_def demo_start_def demo_user_def challenge_prefix_def)
    note lost = idle_session_lost [OF mem_portal_world_laws(1,2) mem_portal_jwt mem_portal_world_laws(3) run _ _ env(3) _ ids,
        THEN conjunct1, THEN spec [of _ "demo_penv ''b'' 900000"], THEN spec [of _ "demo_rq [(CSRF_HEADER, ''csrf'')]"], THEN spec [of _ w1], THEN mp]
    obtain e where "portal_refresh ?P (demo_penv ''b'' 900000) (demo_rq [(CSRF_HEADER, ''csrf'')])
         (browser_cookies cs (pe_now ?env) (pe_now (demo_penv ''b'' 900000)) REFRESH_PATH) w1 = (Inl e, w1)"
      "header_or_empty (demo_rq [(CSRF_HEADER, ''csrf'')]) CSRF_HEADER = pe_csrf ?env \<longrightarrow>
       e = HTTPException 401 ''Cannot identify user from access token''"
      using lost unfolding cfg env by auto
    then show ?thesis using env by (simp add: demo_rq_def header_or_empty_def)
  qed
  moreover have "pe_now ?env = 0" "pe_now (demo_penv ''b'' 900000) = 900000" by (simp_all add: demo_penv_def demo_env_def)
  ultimately show ?thesis using run by (intro exI [of _ roles] exI [of _ cs] exI [of _ w1]) simp
qed

end
