(* ===== verification/Connectors.thy ===== *)
theory Connectors
  imports Redis_Store Json_Text
begin

text \<open>
  Calls to the tenants' own systems: \<^verbatim>\<open>app/connectors/base_connector.py\<close> (white list, time limit, masking),
  \<^verbatim>\<open>app/connectors/connector_registry.py\<close> (one connector per tenant and id) and \<^verbatim>\<open>app/connectors/crm_connector.py\<close>
  (the requests to a CRM). Keys of dictionaries are UTF-8 text; \<open>str.lower\<close> is its effect on ASCII, which decides the
  membership in the set of sensitive keys. The HTTP client is a parameter.
\<close>

section \<open>Masking\<close>

text \<open>The last four keys are the Korean words for resident number, account number, card number and password.\<close>

definition utf8 :: "nat list \<Rightarrow> string" where "utf8 bs = map char_of bs"

definition SENSITIVE_KEYS :: "string list" where
  "SENSITIVE_KEYS =
     [''account_number'', ''card_number'', ''ssn'', ''password'',
      utf8 [236, 163, 188, 235, 175, 188, 235, 178, 136, 237, 152, 184],
      utf8 [234, 179, 132, 236, 162, 140, 235, 178, 136, 237, 152, 184],
      utf8 [236, 185, 180, 235, 147, 156, 235, 178, 136, 237, 152, 184],
      utf8 [235, 185, 132, 235, 176, 128, 235, 178, 136, 237, 152, 184]]"

definition sensitive :: "string \<Rightarrow> bool" where
  "sensitive key \<longleftrightarrow> map lower_char key \<in> set SENSITIVE_KEYS"

abbreviation star :: nat where "star \<equiv> 42"

definition mask_value :: "pyval \<Rightarrow> pyval" where
  "mask_value v =
     (case v of
        VStr s \<Rightarrow> if length s > 4 then VStr (take 2 s @ replicate (length s - 4) star @ drop (length s - 2) s)
                 else VStr (replicate 4 star)
      | _ \<Rightarrow> VStr (replicate 4 star))"

fun mask_data :: "meta \<Rightarrow> meta \<times> string list" where
  "mask_data [] = ([], [])"
| "mask_data ((key, value) # rest) =
     (if sensitive key then ((key, mask_value value) # fst (mask_data rest), key # snd (mask_data rest))
      else (case value of
              VDict d \<Rightarrow> ((key, VDict (fst (mask_data d))) # fst (mask_data rest), map (\<lambda>f. key @ ''.'' @ f) (snd (mask_data d)) @ snd (mask_data rest))
            | _ \<Rightarrow> ((key, value) # fst (mask_data rest), snd (mask_data rest))))"

section \<open>Connectors\<close>

datatype ConnectorStatus = OK | ERROR | TIMEOUT | UNAUTHORIZED | RATE_LIMITED

record ConnectorRequest =
  cr_action :: string
  cr_payload :: meta
  cr_session_id :: string
  cr_tenant_id :: string
  cr_timeout_ms :: int

record ConnectorResponse =
  cp_status :: ConnectorStatus
  cp_data :: meta
  cp_latency_ms :: int
  cp_connector_id :: string
  cp_error_message :: "ustr option"
  cp_masked_fields :: "string list"

record connector =
  co_id :: string
  co_tenant :: string
  co_allowed :: "string list"
  co_config :: meta

text \<open>How \<open>asyncio.wait_for(self._execute(request))\<close> can end; a cancellation is the only outcome that is not an \<open>Exception\<close>.\<close>

datatype conn_outcome = Answer pyval | TimedOut | Failed ustr | Cancelled

definition quoted :: "string \<Rightarrow> ustr" where "quoted s = [39] @ of_str s @ [39]"

fun type_name :: "pyval \<Rightarrow> string" where
  "type_name VNone = ''NoneType''"
| "type_name (VBool b) = ''bool''"
| "type_name (VInt i) = ''int''"
| "type_name (VStr s) = ''str''"
| "type_name (VList vs) = ''list''"
| "type_name (VDict d) = ''dict''"

text \<open>The message of the \<open>AttributeError\<close> when a value that is not a dictionary is used as one.\<close>

definition no_attribute :: "pyval \<Rightarrow> string \<Rightarrow> ustr" where
  "no_attribute v a = quoted (type_name v) @ of_str '' object has no attribute '' @ quoted a"

definition connector_response :: "ConnectorStatus \<Rightarrow> meta \<Rightarrow> int \<Rightarrow> string \<Rightarrow> ustr option \<Rightarrow> string list \<Rightarrow> ConnectorResponse" where
  "connector_response s d l i e m =
     \<lparr>cp_status = s, cp_data = d, cp_latency_ms = l, cp_connector_id = i, cp_error_message = e, cp_masked_fields = m\<rparr>"

definition execute ::
  "(connector \<Rightarrow> ConnectorRequest \<Rightarrow> 'w \<Rightarrow> conn_outcome \<times> int \<times> 'w) \<Rightarrow> connector \<Rightarrow> ConnectorRequest \<Rightarrow> 'w \<Rightarrow> (ConnectorResponse, 'w) io" where
  "execute call c rq w =
     (if cr_action rq \<notin> set (co_allowed c)
      then (Inr (connector_response UNAUTHORIZED [] 0 (co_id c) (Some (of_str ''Action '' @ quoted (cr_action rq) @ of_str '' not in whitelist'')) []), w)
      else (case call c rq w of
              (Answer (VDict d), latency, w1) \<Rightarrow> (Inr (connector_response OK (fst (mask_data d)) latency (co_id c) None (snd (mask_data d))), w1)
            | (Answer v, latency, w1) \<Rightarrow> (Inr (connector_response ERROR [] latency (co_id c) (Some (no_attribute v ''items'')) []), w1)
            | (TimedOut, latency, w1) \<Rightarrow>
                (Inr (connector_response TIMEOUT [] latency (co_id c)
                   (Some (of_str ''Timeout after '' @ json_int (cr_timeout_ms rq) @ of_str ''ms'')) []), w1)
            | (Failed msg, latency, w1) \<Rightarrow> (Inr (connector_response ERROR [] latency (co_id c) (Some msg) []), w1)
            | (Cancelled, latency, w1) \<Rightarrow> (Inl CancelledError, w1)))"

section \<open>CRM\<close>

definition CRM_ALLOWED_ACTIONS :: "string list" where
  "CRM_ALLOWED_ACTIONS = [''customer.read'', ''customer.update'', ''call_history.write'', ''product.read'']"

text \<open>A request to the CRM: the method, the collection and the value put into the path, the JSON body.\<close>

datatype crm_call = GET string pyval | PATCH string pyval meta | POST string meta

definition get_or_none :: "meta \<Rightarrow> string \<Rightarrow> pyval" where
  "get_or_none d k = (case dict_get d k of None \<Rightarrow> VNone | Some v \<Rightarrow> v)"

text \<open>The request for an action, or the message of the exception.\<close>

definition crm_call_of :: "ConnectorRequest \<Rightarrow> ustr + crm_call" where
  "crm_call_of rq =
     (let payload = cr_payload rq
      in if cr_action rq = ''customer.read'' then
           Inr (GET ''/customers/'' (if truthy (get_or_none payload ''customer_id'') then get_or_none payload ''customer_id''
                                    else get_or_none payload ''phone_number''))
         else if cr_action rq = ''customer.update'' then
           (case dict_get payload ''customer_id'' of
              None \<Rightarrow> Inl (quoted ''customer_id'')
            | Some v \<Rightarrow> Inr (PATCH ''/customers/'' v (filter (\<lambda>(k, _). k \<noteq> ''customer_id'') payload)))
         else if cr_action rq = ''call_history.write'' then Inr (POST ''/call-history'' payload)
         else if cr_action rq = ''product.read'' then
           Inr (GET ''/products/'' (case dict_get payload ''product_id'' of None \<Rightarrow> VStr [] | Some v \<Rightarrow> v))
         else Inl (of_str ''Unexpected action: '' @ of_str (cr_action rq)))"

text \<open>\<open>http\<close> sends a request with the connector's credentials and gives the decoded body, or an exception, and the time taken.\<close>

definition crm_execute ::
  "(connector \<Rightarrow> crm_call \<Rightarrow> 'w \<Rightarrow> conn_outcome \<times> int \<times> 'w) \<Rightarrow> connector \<Rightarrow> ConnectorRequest \<Rightarrow> 'w \<Rightarrow> conn_outcome \<times> int \<times> 'w" where
  "crm_execute http c rq w =
     (if dict_get (co_config c) ''endpoint'' = None then (Failed (quoted ''endpoint''), 0, w)
      else if dict_get (co_config c) ''api_key'' = None then (Failed (quoted ''api_key''), 0, w)
      else (case crm_call_of rq of
              Inl msg \<Rightarrow> (Failed msg, 0, w)
            | Inr call \<Rightarrow>
                (case (call, http c call w) of
                   (POST _ _, Answer (VDict d), latency, w1) \<Rightarrow>
                     (Answer (VDict [(''created'', VBool True), (''id'', get_or_none d ''id'')]), latency, w1)
                 | (POST _ _, Answer v, latency, w1) \<Rightarrow> (Failed (no_attribute v ''get''), latency, w1)
                 | (_, r) \<Rightarrow> r)))"

section \<open>Registry\<close>

type_synonym registry = "(string \<times> connector) list"

definition make_key :: "string \<Rightarrow> string \<Rightarrow> string" where "make_key tenant_id connector_id = tenant_id @ '':'' @ connector_id"

definition CONNECTOR_TYPE_MAP :: "(string \<times> string list) list" where "CONNECTOR_TYPE_MAP = [(''crm'', CRM_ALLOWED_ACTIONS)]"

definition register :: "string \<Rightarrow> string \<Rightarrow> string \<Rightarrow> meta \<Rightarrow> registry \<Rightarrow> pyexc + registry" where
  "register connector_id connector_type tenant_id config reg =
     (case dict_get CONNECTOR_TYPE_MAP connector_type of
        None \<Rightarrow> Inl ValueError
      | Some allowed \<Rightarrow>
          Inr (dict_set (make_key tenant_id connector_id)
                 \<lparr>co_id = connector_id, co_tenant = tenant_id, co_allowed = allowed, co_config = config\<rparr> reg))"

definition get_connector :: "string \<Rightarrow> string \<Rightarrow> registry \<Rightarrow> connector option" where
  "get_connector tenant_id connector_id reg = dict_get reg (make_key tenant_id connector_id)"

definition dispatch_connector ::
  "(connector \<Rightarrow> ConnectorRequest \<Rightarrow> 'w \<Rightarrow> conn_outcome \<times> int \<times> 'w) \<Rightarrow> registry \<Rightarrow> string \<Rightarrow> string \<Rightarrow> ConnectorRequest \<Rightarrow> 'w
   \<Rightarrow> (ConnectorResponse, 'w) io" where
  "dispatch_connector call reg tenant_id connector_id rq w =
     (case get_connector tenant_id connector_id reg of
        None \<Rightarrow> (Inr (connector_response ERROR [] 0 connector_id 
           (Some (of_str ''Connector '' @ quoted connector_id @ of_str '' not registered for tenant '' @ quoted tenant_id)) []), w)
      | Some c \<Rightarrow> execute call c rq w)"

definition list_connectors :: "string \<Rightarrow> registry \<Rightarrow> string list" where
  "list_connectors tenant_id reg =
     map (drop (length (tenant_id @ '':''))) (filter (starts_with (tenant_id @ '':'')) (map fst reg))"

section \<open>Lemmas\<close>

lemma mask_value_idem [simp]: "mask_value (mask_value v) = mask_value v"
  by (auto simp: mask_value_def split: pyval.split)

text \<open>At most four characters of a masked value are not stars.\<close>

lemma mask_value_hides: "\<exists>s. mask_value v = VStr s \<and> length (filter (\<lambda>c. c \<noteq> star) s) \<le> 4"
proof (cases v)
  case (VStr s)
  have "length (filter (\<lambda>c. c \<noteq> star) (take 2 s @ replicate (length s - 4) star @ drop (length s - 2) s)) \<le> 4"
    using length_filter_le [of "\<lambda>c. c \<noteq> star" "take 2 s"] length_filter_le [of "\<lambda>c. c \<noteq> star" "drop (length s - 2) s"]
    by (simp, linarith)
  then show ?thesis by (cases "length s > 4") (simp_all add: mask_value_def VStr)
qed (simp_all add: mask_value_def)

definition mask_entry :: "string \<Rightarrow> pyval \<Rightarrow> pyval" where
  "mask_entry k v = (if sensitive k then mask_value v else (case v of VDict d \<Rightarrow> VDict (fst (mask_data d)) | _ \<Rightarrow> v))"

lemma mask_Cons: "fst (mask_data ((k, v) # rest)) = (k, mask_entry k v) # fst (mask_data rest)"
  by (cases v) (simp_all add: mask_entry_def)

lemma mask_lookup: "dict_get (fst (mask_data d)) k = map_option (mask_entry k) (dict_get d k)"
proof (induction d)
  case (Cons p d)
  then show ?case by (cases p) (simp add: mask_Cons del: mask_data.simps(2))
qed simp

lemma mask_keys: "map fst (fst (mask_data d)) = map fst d"
proof (induction d)
  case (Cons p d)
  then show ?case by (cases p) (simp add: mask_Cons del: mask_data.simps(2))
qed simp

lemma mask_idem: "mask_data (fst (mask_data d)) = mask_data d"
proof (induction d rule: mask_data.induct)
  case (2 key v rest)
  show ?case
  proof (cases "sensitive key")
    case True
    with 2 show ?thesis by simp
  next
    case False
    with 2 show ?thesis by (cases v) simp_all
  qed
qed simp

text \<open>Values below a path of keys, through dictionaries only.\<close>

fun lookup_path :: "meta \<Rightarrow> string list \<Rightarrow> pyval option" where
  "lookup_path d [] = None"
| "lookup_path d [k] = dict_get d k"
| "lookup_path d (k # ks) = (case dict_get d k of Some (VDict e) \<Rightarrow> lookup_path e ks | _ \<Rightarrow> None)"

lemma mask_path:
  assumes "\<forall>k\<in>set (butlast ks). \<not> sensitive k"
  shows "lookup_path (fst (mask_data d)) ks = map_option (mask_entry (last ks)) (lookup_path d ks)"
  using assms
proof (induction d ks rule: lookup_path.induct)
  case (3 d k k' ks)
  then show ?case by (auto simp: mask_lookup mask_entry_def split: option.split pyval.split)
qed (simp_all add: mask_lookup)

fun dotted :: "string list \<Rightarrow> string" where
  "dotted [] = []"
| "dotted [k] = k"
| "dotted (k # ks) = k @ ''.'' @ dotted ks"

text \<open>Dictionaries: no key twice, at any depth.\<close>

fun wf_dict :: "meta \<Rightarrow> bool" where
  "wf_dict [] = True"
| "wf_dict ((k, v) # rest) = (k \<notin> fst ` set rest \<and> (case v of VDict d \<Rightarrow> wf_dict d | _ \<Rightarrow> True) \<and> wf_dict rest)"

definition masked_path :: "meta \<Rightarrow> string list \<Rightarrow> bool" where
  "masked_path d ks \<longleftrightarrow> ks \<noteq> [] \<and> lookup_path d ks \<noteq> None \<and> sensitive (last ks) \<and> (\<forall>k\<in>set (butlast ks). \<not> sensitive k)"

lemma masked_path_Cons:
  "masked_path d (k # ks) \<longleftrightarrow>
     (if ks = [] then dict_get d k \<noteq> None \<and> sensitive k
      else \<not> sensitive k \<and> (\<exists>e. dict_get d k = Some (VDict e) \<and> masked_path e ks))"
  by (cases ks) (auto simp: masked_path_def split: option.splits pyval.splits)

lemma masked_path_Nil [simp]: "\<not> masked_path [] ks" "\<not> masked_path d []"
  by (cases ks; simp add: masked_path_Cons) (simp_all add: masked_path_def)

lemma masked_path_dict:
  assumes "k \<notin> fst ` set rest"
  shows "masked_path ((k, v) # rest) ks \<longleftrightarrow> masked_path [(k, v)] ks \<or> masked_path rest ks"
proof (cases ks)
  case (Cons l ls)
  have "dict_get rest k = None" using assms by (simp add: map_of_eq_None_iff)
  then show ?thesis by (auto simp: Cons masked_path_Cons)
qed simp

lemma masked_path_single:
  "masked_path [(k, v)] ks \<longleftrightarrow>
     (if sensitive k then ks = [k] else (\<exists>e ls. v = VDict e \<and> ks = k # ls \<and> masked_path e ls))"
  by (cases ks) (auto simp: masked_path_Cons)

lemma dotted_Cons: "ks \<noteq> [] \<Longrightarrow> dotted (k # ks) = k @ ''.'' @ dotted ks"
  by (cases ks) simp_all

lemma mask_fields: "wf_dict d \<Longrightarrow> set (snd (mask_data d)) = dotted ` {ks. masked_path d ks}"
proof (induction d rule: mask_data.induct)
  case (2 k v rest)
  then have rest: "set (snd (mask_data rest)) = dotted ` {ks. masked_path rest ks}"
    by (cases "sensitive k"; cases v) simp_all
  have "{ks. masked_path ((k, v) # rest) ks} = {ks. masked_path [(k, v)] ks} \<union> {ks. masked_path rest ks}"
    using masked_path_dict [of k rest v] "2.prems" by auto
  then have union: "dotted ` {ks. masked_path ((k, v) # rest) ks} = dotted ` {ks. masked_path [(k, v)] ks} \<union> set (snd (mask_data rest))"
    by (simp add: rest image_Un)
  show ?case
  proof (cases "sensitive k")
    case True
    then have "{ks. masked_path [(k, v)] ks} = {[k]}" by (auto simp: masked_path_single)
    with True union show ?thesis by simp
  next
    case False
    show ?thesis
    proof (cases "\<exists>e. v = VDict e")
      case True
      then obtain e where e: "v = VDict e" by blast
      have "{ks. masked_path [(k, v)] ks} = (#) k ` {ks. masked_path e ks}" using False e by (auto simp: masked_path_single)
      moreover have "dotted (k # ks) = k @ ''.'' @ dotted ks" if "masked_path e ks" for ks
        using that by (intro dotted_Cons) auto
      moreover have "set (snd (mask_data e)) = dotted ` {ks. masked_path e ks}" using 2 False e by simp
      ultimately have "dotted ` {ks. masked_path [(k, v)] ks} = (\<lambda>f. k @ ''.'' @ f) ` set (snd (mask_data e))"
        by (simp add: image_image)
      with union False e show ?thesis by simp
    next
      case no: False
      then have "{ks. masked_path [(k, v)] ks} = {}" using False by (auto simp: masked_path_single)
      with union False no show ?thesis by (cases v) simp_all
    qed
  qed
qed simp

text \<open>What a registry holds under a key.\<close>

inductive registered :: "registry \<Rightarrow> bool" where
  empty: "registered []"
| step: "registered reg \<Longrightarrow> register i ty t cfg reg = Inr reg' \<Longrightarrow> registered reg'"

lemma registered_key: "registered reg \<Longrightarrow> dict_get reg k = Some c \<Longrightarrow> k = make_key (co_tenant c) (co_id c) \<and> co_allowed c = CRM_ALLOWED_ACTIONS"
  by (induction arbitrary: k c rule: registered.induct)
    (auto simp: register_def CONNECTOR_TYPE_MAP_def split: if_splits option.splits)

lemma append_colon_inj:
  assumes "a @ CHR '':'' # b = c @ CHR '':'' # d" and "CHR '':'' \<notin> set a" and "CHR '':'' \<notin> set c"
  shows "a = c \<and> b = d"
  using assms by (induction a arbitrary: c) (auto simp: append_eq_Cons_conv Cons_eq_append_conv)

lemma execute_response:
  assumes "execute call c rq w = (Inr r, w')"
  shows "cp_status r = OK \<and> mask_data (cp_data r) = (cp_data r, cp_masked_fields r) \<and> cr_action rq \<in> set (co_allowed c) \<or>
    cp_status r \<noteq> OK \<and> cp_data r = [] \<and> cp_masked_fields r = []"
proof (cases "cr_action rq \<in> set (co_allowed c)")
  case True
  obtain out l w1 where "call c rq w = (out, l, w1)" by (metis surj_pair)
  moreover have "mask_data (fst (mask_data d)) = (fst (mask_data d), snd (mask_data d))" for d by (simp add: mask_idem)
  ultimately show ?thesis
    using assms True by (cases out) (auto simp: execute_def connector_response_def split: pyval.splits)
next
  case False
  with assms show ?thesis by (auto simp: execute_def connector_response_def)
qed

section \<open>Properties\<close>

text \<open>
  C31. Masking hides every sensitive value that dictionaries alone lead to. Below a path of harmless keys the result has
  what the data has, with the value of a sensitive key replaced by a text of which at most four characters are
  the original's; the reported fields are exactly the dotted paths of the replaced values, and masking again changes
  nothing. A list is kept as it is, so a dictionary inside a list keeps its sensitive values.
\<close>

theorem masking_hides:
  assumes "wf_dict d" and "\<forall>k\<in>set (butlast ks). \<not> sensitive k"
  shows "lookup_path (fst (mask_data d)) ks =
      map_option (\<lambda>v. if sensitive (last ks) then mask_value v
                      else (case v of VDict e \<Rightarrow> VDict (fst (mask_data e)) | _ \<Rightarrow> v)) (lookup_path d ks) \<and>
    (\<forall>v. \<exists>s. mask_value v = VStr s \<and> length (filter (\<lambda>c. c \<noteq> star) s) \<le> 4) \<and>
    set (snd (mask_data d)) = dotted ` {ks. masked_path d ks} \<and>
    mask_data (fst (mask_data d)) = mask_data d \<and> map fst (fst (mask_data d)) = map fst d"
proof -
  have "(\<lambda>v. if sensitive k then mask_value v else (case v of VDict e \<Rightarrow> VDict (fst (mask_data e)) | _ \<Rightarrow> v)) = mask_entry k" for k
    by (simp add: mask_entry_def fun_eq_iff)
  then show ?thesis using mask_path [OF assms(2)] mask_fields [OF assms(1)] mask_value_hides mask_idem mask_keys by simp
qed

theorem masking_hides_witness:
  "lookup_path (fst (mask_data [(''user'', VDict [(''password'', VStr [49, 50, 51, 52, 53, 54])])])) [''user'', ''password''] =
     Some (VStr [49, 50, 42, 42, 53, 54])"
  using masking_hides [of "[(''user'', VDict [(''password'', VStr [49, 50, 51, 52, 53, 54])])]" "[''user'', ''password'']", THEN conjunct1]
  by (simp add: sensitive_def SENSITIVE_KEYS_def lower_char_def mask_value_def utf8_def)

text \<open>
  What a connector lets through. A response that succeeded is for an allowed action and carries masked data, and
  says which fields were masked; every other response carries none. An action that is not allowed reaches no
  system. When tenant ids have no colon, a tenant only gets connectors registered for itself under the id asked for.
\<close>

theorem connector_isolation:
  assumes "registered reg" and "dispatch_connector call reg t i rq w = (Inr r, w')"
  shows "(cp_status r = OK \<longrightarrow> mask_data (cp_data r) = (cp_data r, cp_masked_fields r) \<and> cr_action rq \<in> set CRM_ALLOWED_ACTIONS) \<and>
    (cp_status r \<noteq> OK \<longrightarrow> cp_data r = []) \<and>
    (cr_action rq \<notin> set CRM_ALLOWED_ACTIONS \<longrightarrow> w' = w) \<and>
    (\<forall>c. get_connector t i reg = Some c \<and> CHR '':'' \<notin> set t \<and> CHR '':'' \<notin> set (co_tenant c) \<longrightarrow> co_tenant c = t \<and> co_id c = i)"
proof (cases "get_connector t i reg")
  case None
  with assms(2) show ?thesis by (auto simp: dispatch_connector_def connector_response_def)
next
  case (Some c)
  with assms(2) have run: "execute call c rq w = (Inr r, w')" by (simp add: dispatch_connector_def)
  have c: "make_key t i = make_key (co_tenant c) (co_id c)" "co_allowed c = CRM_ALLOWED_ACTIONS"
    using registered_key [OF assms(1), of "make_key t i" c] Some by (simp_all add: get_connector_def)
  have "w' = w" if "cr_action rq \<notin> set CRM_ALLOWED_ACTIONS" using run that c(2) by (simp add: execute_def)
  moreover have "co_tenant c = t \<and> co_id c = i" if "CHR '':'' \<notin> set t" "CHR '':'' \<notin> set (co_tenant c)"
    using append_colon_inj [OF _ that, of i "co_id c"] c(1) by (simp add: make_key_def)
  ultimately show ?thesis using execute_response [OF run] c(2) Some by auto
qed

theorem connector_isolation_witness:
  "\<exists>r w'. dispatch_connector (\<lambda>_ _ w. (Answer (VDict [(''ssn'', VInt 7)]), 5, w)) [] ''acme'' ''crm1''
      \<lparr>cr_action = ''customer.read'', cr_payload = [], cr_session_id = [], cr_tenant_id = ''acme'', cr_timeout_ms = 3000\<rparr> (0 :: nat) = (Inr r, w') \<and>
    cp_data r = []"
proof -
  let ?rq = "\<lparr>cr_action = ''customer.read'', cr_payload = [], cr_session_id = [], cr_tenant_id = ''acme'', cr_timeout_ms = 3000\<rparr>"
  let ?call = "\<lambda>_ _ w. (Answer (VDict [(''ssn'', VInt 7)]), 5, w)"
  obtain r w' where run: "dispatch_connector ?call [] ''acme'' ''crm1'' ?rq (0 :: nat) = (Inr r, w')" and "cp_status r = ERROR"
    by (simp add: dispatch_connector_def get_connector_def connector_response_def)
  with connector_isolation [OF registered.empty run] show ?thesis by auto
qed

text \<open>
  Two tenants can share a key. A connector that tenant \<open>a:b\<close> registers under \<open>c\<close> is what tenant \<open>a\<close> gets for the id \<open>b:c\<close>: the
  call is then made with the other tenant's configuration, and the connector appears in the list of both.
\<close>

theorem registry_key_collision:
  assumes "register c ''crm'' (a @ '':'' @ b) cfg reg = Inr reg'"
  shows "\<exists>k. get_connector a (b @ '':'' @ c) reg' = Some k \<and> co_tenant k = a @ '':'' @ b \<and> co_config k = cfg \<and>
    b @ '':'' @ c \<in> set (list_connectors a reg') \<and> c \<in> set (list_connectors (a @ '':'' @ b) reg')"
proof -
  let ?key = "a @ '':'' @ b @ '':'' @ c"
  have reg': "reg' = dict_set ?key \<lparr>co_id = c, co_tenant = a @ '':'' @ b, co_allowed = CRM_ALLOWED_ACTIONS, co_config = cfg\<rparr> reg"
    using assms by (simp add: register_def CONNECTOR_TYPE_MAP_def make_key_def)
  have "?key \<in> fst ` set reg'" unfolding reg' dict_keys_set by simp
  then have listed: "drop (length p) ?key \<in> set (list_connectors t reg')" if "p = t @ '':''" "starts_with p ?key" for p t
    using that by (force simp: list_connectors_def)
  have "b @ '':'' @ c \<in> set (list_connectors a reg')" using listed [of "a @ '':''" a] by (simp add: starts_with_iff)
  moreover have "c \<in> set (list_connectors (a @ '':'' @ b) reg')"
    using listed [of "(a @ '':'' @ b) @ '':''" "a @ '':'' @ b"] by (simp add: starts_with_iff)
  ultimately show ?thesis using reg' by (simp add: get_connector_def make_key_def)
qed

theorem registry_key_collision_witness:
  "\<exists>k reg'. register ''crm1'' ''crm'' ''kr:acme'' [] [] = Inr reg' \<and> get_connector ''kr'' ''acme:crm1'' reg' = Some k \<and> co_tenant k = ''kr:acme''"
proof -
  obtain reg' where r: "register ''crm1'' ''crm'' (''kr'' @ '':'' @ ''acme'') [] [] = Inr reg'" by (simp add: register_def CONNECTOR_TYPE_MAP_def)
  from registry_key_collision [OF r] r show ?thesis by auto
qed

end
