(* ===== verification/Scenario_Repository.thy ===== *)
theory Scenario_Repository
  imports Callbot_Graph Audit_Log Json_Text
begin

text \<open>
  Versions of scenarios: \<^verbatim>\<open>app/repositories/scenario_repository.py\<close> and the endpoints of \<^verbatim>\<open>app/api/v1/routers/scenarios.py\<close>.
  The collection is a record of commands over an abstract state; no unique index is declared for it anywhere in
  the repository. Times stand for their ISO texts. A document is a scenario of the DSL with two times.
\<close>

section \<open>Collection\<close>

record scenario_doc =
  scd_body :: Scenario
  scd_created_at :: time
  scd_updated_at :: time

record 'w scenario_db =
  sr_ok :: "'w \<Rightarrow> bool"
  sr_docs :: "'w \<Rightarrow> scenario_doc list"
  sr_insert :: "scenario_doc \<Rightarrow> 'w \<Rightarrow> 'w"
  sr_update_many :: "(scenario_doc \<Rightarrow> bool) \<Rightarrow> (scenario_doc \<Rightarrow> scenario_doc) \<Rightarrow> 'w \<Rightarrow> 'w"
  sr_update_one :: "(scenario_doc \<Rightarrow> bool) \<Rightarrow> (scenario_doc \<Rightarrow> scenario_doc) \<Rightarrow> 'w \<Rightarrow> 'w"
  sr_delete_one :: "(scenario_doc \<Rightarrow> bool) \<Rightarrow> 'w \<Rightarrow> 'w"

definition scenario_laws :: "'w scenario_db \<Rightarrow> bool" where
  "scenario_laws R \<longleftrightarrow>
     (\<forall>d w. sr_docs R (sr_insert R d w) = sr_docs R w @ [d]) \<and>
     (\<forall>P f w. sr_docs R (sr_update_many R P f w) = map (\<lambda>d. if P d then f d else d) (sr_docs R w)) \<and>
     (\<forall>P f w. sr_docs R (sr_update_one R P f w) = update_first P f (sr_docs R w)) \<and>
     (\<forall>P w. sr_docs R (sr_delete_one R P w) = delete_first P (sr_docs R w))"

section \<open>Repository\<close>

datatype scenario_error = ScenarioNotFoundError string string string | ScenarioConflictError | ScenarioDbError

type_synonym ('a, 'w) scenario_run = "(scenario_error + 'a) \<times> 'w"

definition scenario_is :: "string \<Rightarrow> string \<Rightarrow> scenario_doc \<Rightarrow> bool" where
  "scenario_is tenant_id scenario_id d \<longleftrightarrow> s_tenant_id (scd_body d) = tenant_id \<and> s_scenario_id (scd_body d) = scenario_id"

definition version_is :: "string \<Rightarrow> string \<Rightarrow> int \<Rightarrow> scenario_doc \<Rightarrow> bool" where
  "version_is tenant_id scenario_id version d \<longleftrightarrow> scenario_is tenant_id scenario_id d \<and> s_version (scd_body d) = version"

definition published_is :: "string \<Rightarrow> string \<Rightarrow> scenario_doc \<Rightarrow> bool" where
  "published_is tenant_id scenario_id d \<longleftrightarrow> scenario_is tenant_id scenario_id d \<and> s_published (scd_body d)"

text \<open>\<open>find_one\<close> with \<open>sort=[("version", -1)]\<close>.\<close>

fun highest :: "scenario_doc list \<Rightarrow> scenario_doc option" where
  "highest [] = None"
| "highest (d # ds) =
     (case highest ds of None \<Rightarrow> Some d | Some e \<Rightarrow> if s_version (scd_body e) > s_version (scd_body d) then Some e else Some d)"

definition find_doc :: "'w scenario_db \<Rightarrow> (scenario_doc list \<Rightarrow> scenario_doc option) \<Rightarrow> scenario_error \<Rightarrow> 'w \<Rightarrow> (scenario_doc, 'w) scenario_run" where
  "find_doc R pick missing w =
     (if \<not> sr_ok R w then (Inl ScenarioDbError, w)
      else (case pick (sr_docs R w) of None \<Rightarrow> (Inl missing, w) | Some d \<Rightarrow> (Inr d, w)))"

definition version_text :: "int \<Rightarrow> string" where
  "version_text v = map char_of (json_int v)"

definition get_version :: "'w scenario_db \<Rightarrow> string \<Rightarrow> string \<Rightarrow> int \<Rightarrow> 'w \<Rightarrow> (scenario_doc, 'w) scenario_run" where
  "get_version R tenant_id scenario_id version =
     find_doc R (find (version_is tenant_id scenario_id version)) (ScenarioNotFoundError tenant_id scenario_id (version_text version))"

definition get_latest :: "'w scenario_db \<Rightarrow> string \<Rightarrow> string \<Rightarrow> 'w \<Rightarrow> (scenario_doc, 'w) scenario_run" where
  "get_latest R tenant_id scenario_id =
     find_doc R (\<lambda>ds. highest (filter (scenario_is tenant_id scenario_id) ds)) (ScenarioNotFoundError tenant_id scenario_id ''latest'')"

definition get_published :: "'w scenario_db \<Rightarrow> string \<Rightarrow> string \<Rightarrow> 'w \<Rightarrow> (scenario_doc, 'w) scenario_run" where
  "get_published R tenant_id scenario_id =
     find_doc R (find (published_is tenant_id scenario_id)) (ScenarioNotFoundError tenant_id scenario_id ''published'')"

text \<open>
  The aggregation: per scenario the document with the highest version, the most recently updated first;
  \<open>order\<close> is that sort.
\<close>

definition list_by_tenant ::
  "'w scenario_db \<Rightarrow> (scenario_doc list \<Rightarrow> scenario_doc list) \<Rightarrow> string \<Rightarrow> bool \<Rightarrow> nat \<Rightarrow> 'w \<Rightarrow> (scenario_doc list, 'w) scenario_run" where
  "list_by_tenant R order tenant_id include_drafts limit w =
     (if \<not> sr_ok R w then (Inl ScenarioDbError, w)
      else (let ds = filter (\<lambda>d. s_tenant_id (scd_body d) = tenant_id \<and> (include_drafts \<or> s_published (scd_body d))) (sr_docs R w);
                ids = remdups (map (s_scenario_id \<circ> scd_body) ds);
                tops = map (\<lambda>i. the (highest (filter (scenario_is tenant_id i) ds))) ids
            in (Inr (take limit (order tops)), w)))"

definition next_version :: "'w scenario_db \<Rightarrow> string \<Rightarrow> string \<Rightarrow> 'w \<Rightarrow> int" where
  "next_version R tenant_id scenario_id w =
     (case highest (filter (scenario_is tenant_id scenario_id) (sr_docs R w)) of None \<Rightarrow> 1 | Some d \<Rightarrow> s_version (scd_body d) + 1)"

definition insert_version :: "'w scenario_db \<Rightarrow> time \<Rightarrow> time option \<Rightarrow> Scenario \<Rightarrow> int \<Rightarrow> 'w \<Rightarrow> (scenario_doc, 'w) scenario_run" where
  "insert_version R now created_at scenario version w =
     (let doc = \<lparr>scd_body = scenario\<lparr>s_version := version, s_published := False\<rparr>,
                 scd_created_at = (case created_at of None \<Rightarrow> now | Some t \<Rightarrow> t), scd_updated_at = now\<rparr>
      in if \<not> sr_ok R w then (Inl ScenarioDbError, w) else (Inr doc, sr_insert R doc w))"

definition save :: "'w scenario_db \<Rightarrow> time \<Rightarrow> time option \<Rightarrow> Scenario \<Rightarrow> 'w \<Rightarrow> (scenario_doc, 'w) scenario_run" where
  "save R now created_at scenario w =
     (if \<not> sr_ok R w then (Inl ScenarioDbError, w)
      else insert_version R now created_at scenario (next_version R (s_tenant_id scenario) (s_scenario_id scenario) w) w)"

text \<open>The two writes of a publication.\<close>

definition unpublish :: "'w scenario_db \<Rightarrow> string \<Rightarrow> string \<Rightarrow> 'w \<Rightarrow> 'w" where
  "unpublish R tenant_id scenario_id =
     sr_update_many R (published_is tenant_id scenario_id) (\<lambda>d. d\<lparr>scd_body := (scd_body d)\<lparr>s_published := False\<rparr>\<rparr>)"

definition raise_version :: "'w scenario_db \<Rightarrow> time \<Rightarrow> string \<Rightarrow> string \<Rightarrow> int \<Rightarrow> 'w \<Rightarrow> (scenario_doc, 'w) scenario_run" where
  "raise_version R now tenant_id scenario_id version w =
     (let up = (\<lambda>d. d\<lparr>scd_body := (scd_body d)\<lparr>s_published := True\<rparr>, scd_updated_at := now\<rparr>)
      in if \<not> sr_ok R w then (Inl ScenarioDbError, w)
         else (case find (version_is tenant_id scenario_id version) (sr_docs R w) of
                 None \<Rightarrow> (Inl ScenarioConflictError, w)
               | Some d \<Rightarrow> (Inr (up d), sr_update_one R (version_is tenant_id scenario_id version) up w)))"

definition publish :: "'w scenario_db \<Rightarrow> time \<Rightarrow> string \<Rightarrow> string \<Rightarrow> int \<Rightarrow> 'w \<Rightarrow> (scenario_doc, 'w) scenario_run" where
  "publish R now tenant_id scenario_id version w =
     (case get_version R tenant_id scenario_id version w of
        (Inl e, w1) \<Rightarrow> (Inl e, w1)
      | (Inr _, w1) \<Rightarrow> raise_version R now tenant_id scenario_id version (unpublish R tenant_id scenario_id w1))"

definition delete_version :: "'w scenario_db \<Rightarrow> string \<Rightarrow> string \<Rightarrow> int \<Rightarrow> 'w \<Rightarrow> (unit, 'w) scenario_run" where
  "delete_version R tenant_id scenario_id version w =
     (case get_version R tenant_id scenario_id version w of
        (Inl e, w1) \<Rightarrow> (Inl e, w1)
      | (Inr d, w1) \<Rightarrow>
          if s_published (scd_body d) then (Inl ScenarioConflictError, w1)
          else (Inr (), sr_delete_one R (version_is tenant_id scenario_id version) w1))"

section \<open>Endpoints\<close>

datatype scenario_http = Http int string | Guard auth_error | Broken

definition http_error :: "scenario_error \<Rightarrow> scenario_http" where
  "http_error e =
     (case e of ScenarioNotFoundError t s v \<Rightarrow> Http 404 ''not found'' | ScenarioConflictError \<Rightarrow> Http 409 ''conflict'' | ScenarioDbError \<Rightarrow> Broken)"

definition save_scenario ::
  "'w scenario_db \<Rightarrow> time \<Rightarrow> TenantContext \<Rightarrow> time option \<Rightarrow> Scenario \<Rightarrow> 'w \<Rightarrow> (scenario_http + scenario_doc) \<times> 'w" where
  "save_scenario R now tenant created_at payload w =
     (let scenario = payload\<lparr>s_tenant_id := tn_tenant_id tenant\<rparr>
      in if \<not> (fields_ok scenario \<and> validate_graph scenario = None) then (Inl (Http 422 ''DSL_VALIDATION_ERROR''), w)
         else apfst (map_sum http_error id) (save R now created_at scenario w))"

text \<open>\<open>parse_int\<close> is Python's \<open>int\<close> on the text of the version.\<close>

definition get_scenario ::
  "'w scenario_db \<Rightarrow> (string \<Rightarrow> int option) \<Rightarrow> TenantContext \<Rightarrow> string \<Rightarrow> string \<Rightarrow> 'w \<Rightarrow> (scenario_http + scenario_doc) \<times> 'w" where
  "get_scenario R parse_int tenant scenario_id version w =
     (if version = ''latest'' then apfst (map_sum http_error id) (get_latest R (tn_tenant_id tenant) scenario_id w)
      else if version = ''published'' then apfst (map_sum http_error id) (get_published R (tn_tenant_id tenant) scenario_id w)
      else (case parse_int version of
              None \<Rightarrow> (Inl (Http 400 ''invalid version''), w)
            | Some v \<Rightarrow> apfst (map_sum http_error id) (get_version R (tn_tenant_id tenant) scenario_id v w)))"

definition scenario_event :: "string \<Rightarrow> string \<Rightarrow> TenantContext \<Rightarrow> string \<Rightarrow> meta option \<Rightarrow> meta option \<Rightarrow> http_request \<Rightarrow> audit_event" where
  "scenario_event action event_type tenant scenario_id before after rq =
     \<lparr>ev_action = action, ev_actor = Some tenant, ev_resource = Some (''scenario'', scenario_id), ev_before = before, ev_after = after,
      ev_request = Some rq, ev_event_type = Some event_type, ev_session_id = None, ev_details = None\<rparr>"

text \<open>\<open>version\<close> is the value of the payload when it is an integer.\<close>

definition publish_scenario ::
  "'w scenario_db \<Rightarrow> 'w audit_db \<Rightarrow> string option list \<Rightarrow> time \<Rightarrow> TenantContext \<Rightarrow> http_request \<Rightarrow> string \<Rightarrow> int option \<Rightarrow> 'w
   \<Rightarrow> (scenario_http + scenario_doc) \<times> 'w" where
  "publish_scenario R A envs now ctx rq scenario_id version w =
     (case require_roles [''admin'', ''super_admin''] ctx of
        Inl e \<Rightarrow> (Inl (Guard e), w)
      | Inr tenant \<Rightarrow>
          (case version of
             None \<Rightarrow> (Inl (Http 400 ''payload.version (int >= 1) required''), w)
           | Some v \<Rightarrow>
               if v < 1 then (Inl (Http 400 ''payload.version (int >= 1) required''), w)
               else (case publish R now (tn_tenant_id tenant) scenario_id v w of
                       (Inl e, w1) \<Rightarrow> (Inl (http_error e), w1)
                     | (Inr d, w1) \<Rightarrow>
                         (Inr d, audit_emit A envs now
                            (scenario_event ''scenario.publish'' ''scenario_publish'' tenant scenario_id None (Some [(''published_version'', VInt v)]) rq) w1))))"

definition delete_scenario_version ::
  "'w scenario_db \<Rightarrow> 'w audit_db \<Rightarrow> string option list \<Rightarrow> time \<Rightarrow> TenantContext \<Rightarrow> http_request \<Rightarrow> string \<Rightarrow> int \<Rightarrow> 'w
   \<Rightarrow> (scenario_http + unit) \<times> 'w" where
  "delete_scenario_version R A envs now ctx rq scenario_id version w =
     (case require_roles [''admin'', ''super_admin''] ctx of
        Inl e \<Rightarrow> (Inl (Guard e), w)
      | Inr tenant \<Rightarrow>
          (case delete_version R (tn_tenant_id tenant) scenario_id version w of
             (Inl e, w1) \<Rightarrow> (Inl (http_error e), w1)
           | (Inr _, w1) \<Rightarrow>
               (Inr (), audit_emit A envs now
                  (scenario_event ''scenario.delete_version'' ''scenario_delete_version'' tenant scenario_id (Some [(''version'', VInt version)]) None rq) w1)))"

section \<open>Lemmas\<close>

lemma scenario_rules:
  assumes "scenario_laws R"
  shows "sr_docs R (sr_insert R d w) = sr_docs R w @ [d]"
    and "sr_docs R (sr_update_many R P f w) = map (\<lambda>d. if P d then f d else d) (sr_docs R w)"
    and "sr_docs R (sr_update_one R P f w) = update_first P f (sr_docs R w)"
    and "sr_docs R (sr_delete_one R P w) = delete_first P (sr_docs R w)"
  using assms unfolding scenario_laws_def by blast+

abbreviation ver :: "scenario_doc \<Rightarrow> int" where "ver d \<equiv> s_version (scd_body d)"

lemma highest_None [simp]: "highest ds = None \<longleftrightarrow> ds = []"
  by (induction ds) (auto split: option.splits)

lemma highest_Some: "highest ds = Some d \<Longrightarrow> d \<in> set ds \<and> (\<forall>e\<in>set ds. ver e \<le> ver d)"
  by (induction ds arbitrary: d) (force split: option.splits if_splits)+

lemma next_version_gt:
  assumes "e \<in> set (sr_docs R w)" and "scenario_is t sc e"
  shows "ver e < next_version R t sc w"
proof -
  have "filter (scenario_is t sc) (sr_docs R w) \<noteq> []" using assms by (auto simp: filter_empty_conv)
  then obtain d where "highest (filter (scenario_is t sc) (sr_docs R w)) = Some d" using highest_None by blast
  with highest_Some [OF this] assms show ?thesis by (auto simp: next_version_def)
qed

text \<open>One version of a number, and at most one published version, for each scenario.\<close>

definition scenarios_ok :: "scenario_doc list \<Rightarrow> bool" where
  "scenarios_ok ds \<longleftrightarrow>
     (\<forall>t sc. distinct (map ver (filter (scenario_is t sc) ds)) \<and> length (filter (published_is t sc) ds) \<le> 1)"

definition set_published :: "bool \<Rightarrow> scenario_doc \<Rightarrow> scenario_doc" where
  "set_published b d = d\<lparr>scd_body := (scd_body d)\<lparr>s_published := b\<rparr>\<rparr>"

lemma set_published_fields [simp]:
  "scenario_is t sc (set_published b d) = scenario_is t sc d" "ver (set_published b d) = ver d"
  "version_is t sc v (set_published b d) = version_is t sc v d" "published_is t sc (set_published b d) \<longleftrightarrow> b \<and> scenario_is t sc d"
  by (auto simp: set_published_def scenario_is_def version_is_def published_is_def)

lemma published_scenario: "published_is t sc d \<Longrightarrow> scenario_is t sc d"
  by (simp add: published_is_def)

lemma scenario_is_unique: "scenario_is t sc d \<Longrightarrow> scenario_is t' sc' d \<Longrightarrow> t' = t \<and> sc' = sc"
  by (auto simp: scenario_is_def)

lemma unpublish_docs:
  assumes "scenario_laws R"
  shows "sr_docs R (unpublish R t sc w) = map (\<lambda>d. if published_is t sc d then set_published False d else d) (sr_docs R w)"
  by (simp add: unpublish_def scenario_rules [OF assms] set_published_def cong: if_cong)

lemma unpublished_ok:
  assumes "scenarios_ok ds"
  shows "scenarios_ok (map (\<lambda>d. if published_is t sc d then set_published False d else d) ds)"
    and "filter (published_is t sc) (map (\<lambda>d. if published_is t sc d then set_published False d else d) ds) = []"
proof -
  let ?f = "\<lambda>d. if published_is t sc d then set_published False d else d"
  have v: "map ver (filter (scenario_is t' sc') (map ?f ds)) = map ver (filter (scenario_is t' sc') ds)" for t' sc'
    by (induction ds) auto
  have p: "length (filter (published_is t' sc') (map ?f ds)) \<le> length (filter (published_is t' sc') ds)" for t' sc'
    by (induction ds) auto
  show "scenarios_ok (map ?f ds)"
    unfolding scenarios_ok_def v using assms order_trans [OF p] by (simp add: scenarios_ok_def)
  show "filter (published_is t sc) (map ?f ds) = []" by (induction ds) auto
qed

lemma raised_ok:
  assumes ok: "scenarios_ok ds" and none: "filter (published_is t sc) ds = []"
    and up: "\<And>d. scd_body (up d) = (scd_body d)\<lparr>s_published := True\<rparr>"
  shows "scenarios_ok (update_first (version_is t sc v) up ds)"
proof (cases rule: update_first_split [of ds "version_is t sc v" up, case_names no yes])
  case no
  with ok show ?thesis by simp
next
  case (yes ys x zs)
  have f: "scenario_is t' sc' (up x) = scenario_is t' sc' x" "ver (up x) = ver x"
      "published_is t' sc' (up x) = scenario_is t' sc' x" for t' sc'
    by (simp_all add: scenario_is_def published_is_def up)
  have x: "scenario_is t sc x" using yes(2) by (simp add: version_is_def)
  have "map ver (filter (scenario_is t' sc') (ys @ up x # zs)) = map ver (filter (scenario_is t' sc') ds)" for t' sc'
    unfolding yes(1) using f by simp
  then have "distinct (map ver (filter (scenario_is t' sc') (ys @ up x # zs)))" for t' sc'
    using ok unfolding scenarios_ok_def by metis
  moreover have "length (filter (published_is t' sc') (ys @ up x # zs)) \<le> 1" for t' sc'
  proof (cases "t' = t \<and> sc' = sc")
    case True
    then have "filter (published_is t' sc') ys = []" "filter (published_is t' sc') zs = []"
      using none yes(1) by (auto split: if_splits)
    then show ?thesis by simp
  next
    case False
    then have "\<not> published_is t' sc' (up x)" using f(3) x scenario_is_unique by blast
    then have "length (filter (published_is t' sc') (ys @ up x # zs)) \<le> length (filter (published_is t' sc') ds)" using yes(1) by simp
    then show ?thesis using ok unfolding scenarios_ok_def by (meson le_trans)
  qed
  ultimately show ?thesis unfolding yes(4) scenarios_ok_def by blast
qed

lemma deleted_ok:
  assumes ok: "scenarios_ok ds"
  shows "scenarios_ok (delete_first P ds)"
proof (cases rule: delete_first_split [of P ds, case_names no yes])
  case (yes ys x zs)
  have "distinct (map ver (filter (scenario_is t sc) (ys @ zs)))" for t sc
  proof -
    have "distinct (map ver (filter (scenario_is t sc) (ys @ x # zs)))" using ok yes(1) by (simp add: scenarios_ok_def)
    then show ?thesis by (auto split: if_splits)
  qed
  moreover have "length (filter (published_is t sc) (ys @ zs)) \<le> 1" for t sc
  proof -
    have "length (filter (published_is t sc) (ys @ x # zs)) \<le> 1" using ok yes(1) by (simp add: scenarios_ok_def)
    then show ?thesis by (simp split: if_splits)
  qed
  ultimately show ?thesis unfolding yes(3) scenarios_ok_def by blast
qed (use ok in simp)

lemma inserted_ok:
  assumes "scenarios_ok ds" and "\<forall>e\<in>set ds. scenario_is (s_tenant_id (scd_body d)) (s_scenario_id (scd_body d)) e \<longrightarrow> ver e \<noteq> ver d"
    and "\<not> s_published (scd_body d)"
  shows "scenarios_ok (ds @ [d])"
  using assms by (auto simp: scenarios_ok_def scenario_is_def published_is_def)

text \<open>The three writing operations one after the other, each with whatever outcome.\<close>

inductive scenario_step :: "'w scenario_db \<Rightarrow> 'w \<Rightarrow> 'w \<Rightarrow> bool" for R where
  saved: "save R now created s w = (r, w') \<Longrightarrow> scenario_step R w w'"
| published: "publish R now t sc v w = (r', w') \<Longrightarrow> scenario_step R w w'"
| deleted: "delete_version R t sc v w = (r'', w') \<Longrightarrow> scenario_step R w w'"

lemma save_cases:
  assumes "scenario_laws R" and "save R now created s w = (r, w')"
  obtains "w' = w" "r = Inl ScenarioDbError"
  | d where "r = Inr d" "sr_docs R w' = sr_docs R w @ [d]"
      "scd_body d = s\<lparr>s_version := next_version R (s_tenant_id s) (s_scenario_id s) w, s_published := False\<rparr>"
  using assms(2) that scenario_rules(1) [OF assms(1)]
  by (auto simp: save_def insert_version_def Let_def split: if_splits)

lemma find_unpublished:
  "find (version_is t sc v) (map (\<lambda>d. if published_is t sc d then set_published False d else d) ds) =
     map_option (\<lambda>d. if published_is t sc d then set_published False d else d) (find (version_is t sc v) ds)"
  by (induction ds) auto

lemma find_version_unpublish:
  assumes "scenario_laws R"
  shows "find (version_is t sc v) (sr_docs R (unpublish R t sc w)) \<noteq> None \<longleftrightarrow> find (version_is t sc v) (sr_docs R w) \<noteq> None"
  by (simp add: unpublish_docs [OF assms] find_unpublished)

definition raised :: "time \<Rightarrow> scenario_doc \<Rightarrow> scenario_doc" where
  "raised now d = d\<lparr>scd_body := (scd_body d)\<lparr>s_published := True\<rparr>, scd_updated_at := now\<rparr>"

lemma publish_cases:
  assumes "scenario_laws R" and "publish R now t sc v w = (r, w')"
  obtains (missing) e where "r = Inl e" "w' = w"
  | (halfway) "r = Inl ScenarioDbError" "w' = unpublish R t sc w"
  | (complete) d where "r = Inr (raised now d)"
      "find (version_is t sc v) (sr_docs R (unpublish R t sc w)) = Some d"
      "sr_docs R w' = update_first (version_is t sc v) (raised now) (sr_docs R (unpublish R t sc w))"
proof (cases "sr_ok R w \<and> find (version_is t sc v) (sr_docs R w) \<noteq> None")
  case True
  then have run: "raise_version R now t sc v (unpublish R t sc w) = (r, w')"
    using assms(2) by (auto simp: publish_def get_version_def find_doc_def)
  obtain d where d: "find (version_is t sc v) (sr_docs R (unpublish R t sc w)) = Some d"
    using True by (auto simp: unpublish_docs [OF assms(1)] find_unpublished)
  have up: "(\<lambda>d. d\<lparr>scd_body := (scd_body d)\<lparr>s_published := True\<rparr>, scd_updated_at := now\<rparr>) = raised now"
    by (simp add: fun_eq_iff raised_def)
  show thesis
  proof (cases "sr_ok R (unpublish R t sc w)")
    case True
    with run d show thesis
      by (intro complete [of d]) (auto simp: raise_version_def Let_def up scenario_rules [OF assms(1)])
  next
    case False
    with run show thesis by (intro halfway) (auto simp: raise_version_def Let_def)
  qed
next
  case False
  with assms(2) have "\<exists>e. r = Inl e \<and> w' = w" by (auto simp: publish_def get_version_def find_doc_def split: if_splits option.splits)
  with missing show thesis by blast
qed

lemma delete_cases:
  assumes "delete_version R t sc v w = (r, w')"
  obtains e where "r = Inl e" "w' = w" | "r = Inr ()" "w' = sr_delete_one R (version_is t sc v) w"
  using assms that by (auto simp: delete_version_def get_version_def find_doc_def split: if_splits option.splits)

lemma scenario_step_ok:
  assumes laws: "scenario_laws R" and "scenario_step R w w'" and ok: "scenarios_ok (sr_docs R w)"
  shows "scenarios_ok (sr_docs R w')"
  using assms(2)
proof cases
  case (saved now created s r)
  from laws saved show ?thesis
  proof (cases rule: save_cases)
    case (2 d)
    have "ver e \<noteq> ver d" if "e \<in> set (sr_docs R w)" "scenario_is (s_tenant_id s) (s_scenario_id s) e" for e
      using next_version_gt [OF that] 2(3) by simp
    then show ?thesis unfolding 2(2) using inserted_ok [OF ok, of d] 2(3) by simp
  qed (use ok in simp)
next
  case (published now t sc v r')
  note un = unpublished_ok [OF ok, of t sc, folded unpublish_docs [OF laws]]
  from laws published show ?thesis
  proof (cases rule: publish_cases)
    case (complete d)
    show ?thesis unfolding complete(3) by (rule raised_ok [OF un]) (simp add: raised_def)
  qed (use ok un in simp_all)
next
  case (deleted t sc v r'')
  then show ?thesis using ok deleted_ok [OF ok]
    by (cases rule: delete_cases) (simp_all add: scenario_rules(4) [OF laws])
qed

lemma singleton_list: "length xs = 1 \<Longrightarrow> x \<in> set xs \<Longrightarrow> xs = [x]"
  by (cases xs) auto

lemma raise_adds:
  assumes "find (version_is t sc v) ds = Some x" and "\<not> published_is t sc x"
  shows "length (filter (published_is t sc) (update_first (version_is t sc v) (raised now) ds)) = length (filter (published_is t sc) ds) + 1"
    and "raised now x \<in> set (update_first (version_is t sc v) (raised now) ds)" and "published_is t sc (raised now x)"
    and "version_is t sc v (raised now x)"
proof -
  show x: "version_is t sc v (raised now x)" "published_is t sc (raised now x)"
    using find_SomeD [OF assms(1)] by (simp_all add: version_is_def scenario_is_def published_is_def raised_def)
  have "length (filter (published_is t sc) (update_first (version_is t sc v) (raised now) ds)) = length (filter (published_is t sc) ds) + 1 \<and>
      raised now x \<in> set (update_first (version_is t sc v) (raised now) ds)"
  proof (cases rule: update_first_split [of ds "version_is t sc v" "raised now", case_names no yes])
    case (yes ys y zs)
    then have "y = x" using assms(1) by simp
    with yes(1,4) assms(2) x show ?thesis by simp
  qed (use assms in simp)
  then show "length (filter (published_is t sc) (update_first (version_is t sc v) (raised now) ds)) = length (filter (published_is t sc) ds) + 1"
    "raised now x \<in> set (update_first (version_is t sc v) (raised now) ds)" by blast+
qed

lemma raise_version_up:
  assumes "scenario_laws R" and "sr_ok R w" and "find (version_is t sc v) (sr_docs R w) = Some x"
  shows "sr_docs R (snd (raise_version R now t sc v w)) = update_first (version_is t sc v) (raised now) (sr_docs R w)"
  using assms(2,3) by (simp add: raise_version_def Let_def scenario_rules [OF assms(1)] raised_def [abs_def])

lemma find_version_raised:
  "find (version_is t sc v) (update_first P (raised now) ds) \<noteq> None \<longleftrightarrow> find (version_is t sc v) ds \<noteq> None"
  by (induction ds) (auto simp: raised_def version_is_def scenario_is_def)

text \<open>The graph runtime on top of the repository: a version when one is asked for, the published one otherwise.\<close>

definition repo_graph :: "'w scenario_db \<Rightarrow> 'w \<Rightarrow> graph_env \<Rightarrow> graph_env" where
  "repo_graph R w G = G\<lparr>ge_load := (\<lambda>t sc version.
     case fst (case version of None \<Rightarrow> get_published R t sc w | Some v \<Rightarrow> get_version R t sc v w) of
       Inl _ \<Rightarrow> Inl (OtherException []) | Inr d \<Rightarrow> Inr (scd_body d))\<rparr>"

lemma compile_final_repo [simp]: "compile_final (repo_graph R w G) s = compile_final G s"
  by (simp add: compile_final_def repo_graph_def finalize_compile_def split: sum.split option.split)

lemma get_version_found:
  assumes "sr_ok R w" and "d \<in> set (sr_docs R w)" "version_is t sc v d" and "scenarios_ok (sr_docs R w)"
  shows "get_version R t sc v w = (Inr d, w)"
proof -
  obtain e where e: "find (version_is t sc v) (sr_docs R w) = Some e"
    using assms(2,3) by (metis find_None_iff option.exhaust)
  then have "e \<in> set (sr_docs R w)" "version_is t sc v e" using find_SomeD by fast+
  moreover have "distinct (map ver (filter (scenario_is t sc) (sr_docs R w)))" using assms(4) by (simp add: scenarios_ok_def)
  ultimately have "e = d" using assms(2,3) by (auto simp: version_is_def distinct_map inj_on_def)
  with e assms(1) show ?thesis by (simp add: get_version_def find_doc_def)
qed

text \<open>The collection in memory.\<close>

definition mem_scenarios :: "scenario_doc list scenario_db" where
  "mem_scenarios = \<lparr>sr_ok = (\<lambda>_. True), sr_docs = id, sr_insert = (\<lambda>d w. w @ [d]),
     sr_update_many = (\<lambda>P f w. map (\<lambda>d. if P d then f d else d) w), sr_update_one = update_first, sr_delete_one = delete_first\<rparr>"

lemma mem_scenarios_laws: "scenario_laws mem_scenarios" "sr_ok mem_scenarios w" "sr_docs mem_scenarios w = w"
  by (simp_all add: scenario_laws_def mem_scenarios_def)

definition demo_doc :: "int \<Rightarrow> bool \<Rightarrow> scenario_doc" where
  "demo_doc v b = \<lparr>scd_body = demo_scenario\<lparr>s_version := v, s_published := b\<rparr>, scd_created_at = 0, scd_updated_at = 0\<rparr>"

lemma delete_draft:
  assumes laws: "scenario_laws R" "\<And>w. sr_ok R w" and ok: "scenarios_ok (sr_docs R w)"
    and old: "d \<in> set (sr_docs R w)" "version_is t sc v d" "\<not> s_published (scd_body d)"
  obtains w1 where "delete_version R t sc v w = (Inr (), w1)" "scenarios_ok (sr_docs R w1)"
    "set (sr_docs R w1) \<subseteq> set (sr_docs R w)" "\<forall>e\<in>set (sr_docs R w). \<not> version_is t sc v e \<longrightarrow> e \<in> set (sr_docs R w1)"
    "\<forall>e\<in>set (sr_docs R w1). \<not> version_is t sc v e"
proof -
  let ?w1 = "sr_delete_one R (version_is t sc v) w"
  have run: "delete_version R t sc v w = (Inr (), ?w1)"
    using get_version_found [OF laws(2) old(1,2) ok] old(3) by (simp add: delete_version_def)
  have docs: "sr_docs R ?w1 = delete_first (version_is t sc v) (sr_docs R w)" by (rule scenario_rules(4) [OF laws(1)])
  show thesis
  proof (cases rule: delete_first_split [of "version_is t sc v" "sr_docs R w", case_names no yes])
    case no
    with old(1,2) show thesis by blast
  next
    case (yes ys x zs)
    have "distinct (map ver (filter (scenario_is t sc) (ys @ x # zs)))" using ok yes(1) by (simp add: scenarios_ok_def)
    then have "\<forall>e\<in>set ys \<union> set zs. scenario_is t sc e \<longrightarrow> ver e \<noteq> ver x" using yes(2) by (auto simp: version_is_def image_iff)
    then have "\<forall>e\<in>set ys \<union> set zs. \<not> version_is t sc v e" using yes(2) by (simp add: version_is_def)
    moreover have "scenarios_ok (ys @ zs)" using deleted_ok [OF ok, of "version_is t sc v"] yes(3) by simp
    ultimately show thesis using yes by (intro that [OF run]) (auto simp: docs)
  qed
qed

lemma lru_put_get:
  assumes "0 < lru_cap c"
  shows "dict_get (lru_d (lru_put k x c)) k = Some x"
proof -
  let ?d = "dict_pop k (dict_set k x (lru_d c))"
  obtain d' where d': "lru_evict (lru_cap c) (?d @ [(k, x)]) = d' @ [(k, x)]" using lru_evict_last [OF assms] by blast
  then obtain pre where "?d @ [(k, x)] = pre @ d' @ [(k, x)]" using lru_evict_suffix [of "?d @ [(k, x)]" "lru_cap c"] by auto
  then have "set d' \<subseteq> set ?d" by (metis Un_iff append_assoc butlast_snoc set_append subsetI)
  then have "dict_get d' k = None" by (auto simp: dict_pop_def map_of_eq_None_iff)
  then show ?thesis using d' by (simp add: lru_put_def move_to_end_def map_add_def)
qed

lemma get_compiled_caches:
  assumes "ge_load G t sc v = Inr s" and "get_compiled G t sc v c = (Inr x, c')" and "0 < lru_cap c"
  shows "dict_get (lru_d c') \<lparr>ck_tenant_id = t, ck_scenario_id = sc, ck_version = s_version s\<rparr> = Some x"
proof (cases "dict_get (lru_d c) \<lparr>ck_tenant_id = t, ck_scenario_id = sc, ck_version = s_version s\<rparr>")
  case None
  with assms(1,2) have "c' = lru_put \<lparr>ck_tenant_id = t, ck_scenario_id = sc, ck_version = s_version s\<rparr> x c"
    by (auto simp: get_compiled_def lru_get_def split: sum.splits)
  then show ?thesis by (simp add: lru_put_get [OF assms(3)])
next
  case (Some y)
  with assms(1,2) show ?thesis by (auto simp: get_compiled_def lru_get_def)
qed

section \<open>Properties\<close>

text \<open>
  C32. Versions of a scenario. Saving, publishing and deleting one after the other, whatever each of them ends in, keep the
  versions of every scenario distinct and at most one of them published; a saved scenario is a draft with a number
  above all that exist, and what is published cannot be deleted.
\<close>

theorem scenario_versions:
  assumes "scenario_laws R" and "(scenario_step R)\<^sup>*\<^sup>* w0 w" and "scenarios_ok (sr_docs R w0)"
  shows "scenarios_ok (sr_docs R w) \<and>
    (save R now created s w = (Inr d, w') \<longrightarrow>
       sr_docs R w' = sr_docs R w @ [d] \<and> \<not> s_published (scd_body d) \<and>
       (\<forall>e\<in>set (sr_docs R w). scenario_is (s_tenant_id s) (s_scenario_id s) e \<longrightarrow> ver e < ver d)) \<and>
    (delete_version R t sc v w = (Inr (), w') \<longrightarrow>
       (\<forall>e\<in>set (sr_docs R w). s_published (scd_body e) \<longrightarrow> e \<in> set (sr_docs R w')))"
proof (intro conjI impI)
  show ok: "scenarios_ok (sr_docs R w)"
    using assms(2,3) by induction (use scenario_step_ok [OF assms(1)] in auto)
  assume run: "save R now created s w = (Inr d, w')"
  from assms(1) run show "sr_docs R w' = sr_docs R w @ [d]" by (cases rule: save_cases) auto
  from assms(1) run have body: "scd_body d = s\<lparr>s_version := next_version R (s_tenant_id s) (s_scenario_id s) w, s_published := False\<rparr>"
    by (cases rule: save_cases) auto
  then show "\<not> s_published (scd_body d)" by simp
  show "\<forall>e\<in>set (sr_docs R w). scenario_is (s_tenant_id s) (s_scenario_id s) e \<longrightarrow> ver e < ver d"
    using next_version_gt [of _ R w] body by simp
next
  assume run: "delete_version R t sc v w = (Inr (), w')"
  have ok: "scenarios_ok (sr_docs R w)" using assms(2,3) by induction (use scenario_step_ok [OF assms(1)] in auto)
  obtain d where d: "find (version_is t sc v) (sr_docs R w) = Some d" "\<not> s_published (scd_body d)"
    using run by (auto simp: delete_version_def get_version_def find_doc_def split: if_splits option.splits)
  have w': "sr_docs R w' = delete_first (version_is t sc v) (sr_docs R w)"
    using run by (cases rule: delete_cases) (simp_all add: scenario_rules(4) [OF assms(1)])
  show "\<forall>e\<in>set (sr_docs R w). s_published (scd_body e) \<longrightarrow> e \<in> set (sr_docs R w')"
  proof (cases rule: delete_first_split [of "version_is t sc v" "sr_docs R w", case_names no yes])
    case (yes ys x zs)
    have "get_version R t sc v w = (Inr x, w)"
      using get_version_found [OF _ _ yes(2) ok] yes(1) run by (auto simp: delete_version_def get_version_def find_doc_def split: if_splits)
    then have "x = d" using d(1) by (auto simp: get_version_def find_doc_def split: if_splits)
    moreover have "set (sr_docs R w') = set ys \<union> set zs" unfolding w' yes(3) by simp
    ultimately show ?thesis using d(2) yes(1) by auto
  qed (simp add: w')
qed

theorem scenario_versions_witness:
  "scenarios_ok (snd (save mem_scenarios 5 None demo_scenario [demo_doc 1 True]))"
proof -
  obtain r w where run: "save mem_scenarios 5 None demo_scenario [demo_doc 1 True] = (r, w)" by fastforce
  have "scenarios_ok [demo_doc 1 True]" by (simp add: scenarios_ok_def)
  moreover have "(scenario_step mem_scenarios)\<^sup>*\<^sup>* [demo_doc 1 True] w" using run by (intro r_into_rtranclp scenario_step.saved)
  ultimately show ?thesis using scenario_versions [OF mem_scenarios_laws(1), of "[demo_doc 1 True]" w] run by (simp add: mem_scenarios_laws(3))
qed

text \<open>
  What a publication leaves behind. When it succeeds, that version is the one served from then on. When the database fails
  between its two writes the scenario is left with no published version at all, and is no longer served. Two publications of different
  versions that overlap can both succeed and leave two published versions.
\<close>

theorem publish_outcomes:
  assumes laws: "scenario_laws R" and ok: "scenarios_ok (sr_docs R w)" and run: "publish R now t sc v w = (r, w')"
  shows "(r = Inr d \<longrightarrow> version_is t sc v d \<and> (sr_ok R w' \<longrightarrow> get_published R t sc w' = (Inr d, w')) \<and>
      (\<forall>e\<in>set (sr_docs R w'). published_is t sc e \<longrightarrow> e = d)) \<and>
    (r = Inl e \<longrightarrow> w' = w \<or> (\<forall>x\<in>set (sr_docs R w'). \<not> published_is t sc x)) \<and>
    ((\<forall>w. sr_ok R w) \<and> find (version_is t sc v1) (sr_docs R w) \<noteq> None \<and> find (version_is t sc v2) (sr_docs R w) \<noteq> None \<and> v1 \<noteq> v2 \<longrightarrow>
      (let w1 = unpublish R t sc (unpublish R t sc w); w2 = snd (raise_version R now t sc v1 w1); w3 = snd (raise_version R now t sc v2 w2)
       in length (filter (published_is t sc) (sr_docs R w3)) = 2))"
proof (intro conjI impI)
  note un = unpublished_ok [OF ok, of t sc, folded unpublish_docs [OF laws]]
  have none: "\<forall>x\<in>set (sr_docs R (unpublish R t sc w)). \<not> published_is t sc x" using un(2) by (simp add: filter_empty_conv)
  assume r: "r = Inr d"
  obtain d0 where d0: "d = raised now d0" "find (version_is t sc v) (sr_docs R (unpublish R t sc w)) = Some d0"
      "sr_docs R w' = update_first (version_is t sc v) (raised now) (sr_docs R (unpublish R t sc w))"
    using laws run r by (cases rule: publish_cases) auto
  have "\<not> published_is t sc d0" using none find_SomeD [OF d0(2)] by blast
  note add = raise_adds [OF d0(2) this, of now, folded d0(1,3)]
  have "length (filter (published_is t sc) (sr_docs R w')) = 1" using add(1) un(2) by simp
  moreover have "d \<in> set (filter (published_is t sc) (sr_docs R w'))" using add(2,3) by simp
  ultimately have one: "filter (published_is t sc) (sr_docs R w') = [d]" by (rule singleton_list)
  show "version_is t sc v d" by (rule add(4))
  have "{e \<in> set (sr_docs R w'). published_is t sc e} = {d}" unfolding set_filter [symmetric] one by simp
  then show "\<forall>e\<in>set (sr_docs R w'). published_is t sc e \<longrightarrow> e = d" by blast
  show "get_published R t sc w' = (Inr d, w')" if "sr_ok R w'"
    using that one by (simp add: get_published_def find_doc_def find_filter)
next
  assume r: "r = Inl e"
  note un = unpublished_ok(2) [OF ok, of t sc, folded unpublish_docs [OF laws]]
  from laws run r show "w' = w \<or> (\<forall>x\<in>set (sr_docs R w'). \<not> published_is t sc x)"
    by (cases rule: publish_cases) (use un in \<open>auto simp: filter_empty_conv\<close>)
next
  assume *: "(\<forall>w. sr_ok R w) \<and> find (version_is t sc v1) (sr_docs R w) \<noteq> None \<and> find (version_is t sc v2) (sr_docs R w) \<noteq> None \<and> v1 \<noteq> v2"
  define w1 where "w1 = unpublish R t sc (unpublish R t sc w)"
  define w2 where "w2 = snd (raise_version R now t sc v1 w1)"
  have none: "filter (published_is t sc) (sr_docs R w1) = []"
    using unpublished_ok [OF unpublished_ok(1) [OF ok], of t sc t sc] by (simp add: w1_def unpublish_docs [OF laws])
  obtain x1 where x1: "find (version_is t sc v1) (sr_docs R w1) = Some x1"
    using * find_version_unpublish [OF laws] unfolding w1_def by (metis not_None_eq)
  then have p1: "\<not> published_is t sc x1" using none find_SomeD [OF x1] by (auto simp: filter_empty_conv)
  have w2: "sr_docs R w2 = update_first (version_is t sc v1) (raised now) (sr_docs R w1)"
    unfolding w2_def using * by (intro raise_version_up [OF laws _ x1]) simp
  note add = raise_adds [OF x1 p1, of now, folded w2]
  have "find (version_is t sc v2) (sr_docs R w2) \<noteq> None"
    unfolding w2 find_version_raised using * find_version_unpublish [OF laws] unfolding w1_def by metis
  then obtain x2 where x2: "find (version_is t sc v2) (sr_docs R w2) = Some x2" by blast
  have "set (filter (published_is t sc) (sr_docs R w2)) = {raised now x1}"
    using add(1-3) none singleton_list [of "filter (published_is t sc) (sr_docs R w2)" "raised now x1"] by simp
  moreover have "x2 \<noteq> raised now x1" using find_SomeD [OF x2] add(4) * by (auto simp: version_is_def)
  ultimately have "\<not> published_is t sc x2" using find_SomeD [OF x2] by auto
  with raise_adds(1) [OF x2, of now] raise_version_up [OF laws _ x2, of now] add(1) none *
  show "let w1 = unpublish R t sc (unpublish R t sc w); w2 = snd (raise_version R now t sc v1 w1); w3 = snd (raise_version R now t sc v2 w2)
       in length (filter (published_is t sc) (sr_docs R w3)) = 2"
    by (simp add: w1_def [symmetric] w2_def [symmetric] Let_def)
qed

theorem publish_outcomes_witness:
  "length (filter (published_is ''acme'' ''demo'') (sr_docs mem_scenarios
     (let w = [demo_doc 1 True, demo_doc 2 False]; w1 = unpublish mem_scenarios ''acme'' ''demo'' (unpublish mem_scenarios ''acme'' ''demo'' w);
          w2 = snd (raise_version mem_scenarios 5 ''acme'' ''demo'' 1 w1)
      in snd (raise_version mem_scenarios 5 ''acme'' ''demo'' 2 w2)))) = 2"
proof -
  let ?w = "[demo_doc 1 True, demo_doc 2 False]"
  obtain r w' where run: "publish mem_scenarios 5 ''acme'' ''demo'' 1 ?w = (r, w')" by fastforce
  have "scenarios_ok (sr_docs mem_scenarios ?w)"
    by (auto simp: mem_scenarios_laws scenarios_ok_def demo_doc_def scenario_is_def published_is_def)
  from publish_outcomes [OF mem_scenarios_laws(1) this run, THEN conjunct2, THEN conjunct2, of 1 2]
  show ?thesis
    by (simp add: mem_scenarios_laws demo_doc_def version_is_def scenario_is_def demo_scenario_def Let_def)
qed

text \<open>
  A version number can be used twice, and then the wrong graph runs. After the latest version, a draft, is deleted, the next saved scenario
  gets its number. Nothing removes compiled graphs when versions are saved, published or deleted, so
  a runtime that has compiled the old version keeps answering with it, whatever the new scenario is.
\<close>

theorem stale_graph:
  assumes laws: "scenario_laws R" "\<And>w. sr_ok R w" and ok: "scenarios_ok (sr_docs R w)"
    and old: "d \<in> set (sr_docs R w)" "version_is t sc v d" "\<not> s_published (scd_body d)" "\<forall>e\<in>set (sr_docs R w). scenario_is t sc e \<longrightarrow> ver e \<le> v"
    and prev: "\<exists>e\<in>set (sr_docs R w). version_is t sc (v - 1) e"
    and served: "get_compiled (repo_graph R w G) t sc (Some v) c = (Inr x, c')" "0 < lru_cap c"
    and s: "s_tenant_id s = t" "s_scenario_id s = sc"
  shows "\<exists>w1 d' w2. delete_version R t sc v w = (Inr (), w1) \<and> save R now created s w1 = (Inr d', w2) \<and> ver d' = v \<and>
    fst (get_compiled (repo_graph R w2 G) t sc (Some v) c') = Inr x"
proof -
  obtain w1 where del: "delete_version R t sc v w = (Inr (), w1)" "scenarios_ok (sr_docs R w1)"
    "set (sr_docs R w1) \<subseteq> set (sr_docs R w)" "\<forall>e\<in>set (sr_docs R w). \<not> version_is t sc v e \<longrightarrow> e \<in> set (sr_docs R w1)"
    "\<forall>e\<in>set (sr_docs R w1). \<not> version_is t sc v e"
    using delete_draft [OF laws ok old(1-3)] by blast
  obtain e where e: "e \<in> set (sr_docs R w1)" "scenario_is t sc e" "ver e = v - 1"
    using prev del(4) by (auto simp: version_is_def)
  have "next_version R t sc w1 = v"
  proof -
    obtain h where h: "highest (filter (scenario_is t sc) (sr_docs R w1)) = Some h" using e by (metis filter_empty_conv highest_None not_None_eq)
    then have "h \<in> set (sr_docs R w1)" "scenario_is t sc h" using highest_Some [OF h] by auto
    then have "ver h \<le> v" "ver h \<noteq> v" using old(4) del(3,5) by (auto simp: version_is_def)
    moreover have "v - 1 < next_version R t sc w1" using next_version_gt [OF e(1,2)] e(3) by simp
    ultimately show ?thesis using h by (simp add: next_version_def)
  qed
  then obtain d' w2 where sav: "save R now created s w1 = (Inr d', w2)" "ver d' = v" "scenario_is t sc d'"
      "sr_docs R w2 = sr_docs R w1 @ [d']"
    using laws s by (auto simp: save_def insert_version_def Let_def scenario_is_def scenario_rules(1) [OF laws(1)])
  have ok2: "scenarios_ok (sr_docs R w2)" using scenario_step_ok [OF laws(1) scenario_step.saved [OF sav(1)] del(2)] .
  have load: "ge_load (repo_graph R w2 G) t sc (Some v) = Inr (scd_body d')"
    using get_version_found [OF laws(2) _ _ ok2, of d' t sc v] sav by (simp add: repo_graph_def version_is_def)
  have load1: "ge_load (repo_graph R w G) t sc (Some v) = Inr (scd_body d)"
    using get_version_found [OF laws(2) old(1,2) ok] by (simp add: repo_graph_def)
  have "dict_get (lru_d c') \<lparr>ck_tenant_id = t, ck_scenario_id = sc, ck_version = v\<rparr> = Some x"
    using get_compiled_caches [OF load1 served] old(2) by (simp add: version_is_def)
  then have "fst (get_compiled (repo_graph R w2 G) t sc (Some v) c') = Inr x"
    using load sav(2) by (simp add: get_compiled_def lru_get_def)
  with del(1) sav(1,2) show ?thesis by blast
qed

theorem stale_graph_witness:
  "\<exists>x c' w1 d' w2. fst (get_compiled (repo_graph mem_scenarios [demo_doc 1 True, demo_doc 2 False] (demo_graph_env\<lparr>ge_installed := False\<rparr>))
       ''acme'' ''demo'' (Some 2) \<lparr>lru_cap = 5, lru_d = []\<rparr>) = Inr x \<and>
     save mem_scenarios 9 None (demo_scenario\<lparr>s_entry := ''other''\<rparr>) w1 = (Inr d', w2) \<and> s_entry (scd_body d') = ''other'' \<and>
     fst (get_compiled (repo_graph mem_scenarios w2 (demo_graph_env\<lparr>ge_installed := False\<rparr>)) ''acme'' ''demo'' (Some 2) c') = Inr x"
proof -
  let ?w = "[demo_doc 1 True, demo_doc 2 False]" and ?G = "demo_graph_env\<lparr>ge_installed := False\<rparr>" and ?c = "\<lparr>lru_cap = 5, lru_d = []\<rparr>"
  let ?s = "demo_scenario\<lparr>s_entry := ''other''\<rparr>"
  have ok: "scenarios_ok (sr_docs mem_scenarios ?w)"
    by (auto simp: mem_scenarios_laws scenarios_ok_def demo_doc_def scenario_is_def published_is_def)
  have d: "demo_doc 2 False \<in> set (sr_docs mem_scenarios ?w)" "version_is ''acme'' ''demo'' 2 (demo_doc 2 False)" "\<not> s_published (scd_body (demo_doc 2 False))"
    by (simp_all add: mem_scenarios_laws demo_doc_def version_is_def scenario_is_def demo_scenario_def)
  have load: "ge_load (repo_graph mem_scenarios ?w ?G) ''acme'' ''demo'' (Some 2) = Inr (scd_body (demo_doc 2 False))"
    using get_version_found [OF mem_scenarios_laws(2) d(1,2) ok] by (simp add: repo_graph_def)
  obtain x c' where served: "get_compiled (repo_graph mem_scenarios ?w ?G) ''acme'' ''demo'' (Some 2) ?c = (Inr x, c')"
    using load by (simp add: get_compiled_def lru_get_def)
      (simp add: compile_final_def compile_scenario_def dry_run_compile_def)
  obtain w1 d' w2 where "save mem_scenarios 9 None ?s w1 = (Inr d', w2)"
      "fst (get_compiled (repo_graph mem_scenarios w2 ?G) ''acme'' ''demo'' (Some 2) c') = Inr x"
    using stale_graph [OF mem_scenarios_laws(1,2) ok d(1-3) _ _ served, of ?s 9 None]
    by (auto simp: mem_scenarios_laws demo_doc_def version_is_def scenario_is_def demo_scenario_def)
  moreover from this(1) have "s_entry (scd_body d') = ''other''"
    by (auto simp: save_def insert_version_def Let_def split: if_splits)
  ultimately show ?thesis using served by (metis fst_conv)
qed

end
