(* ===== verification/Event_Stream.thy ===== *)
theory Event_Stream
  imports AgentOE_Prelude Json_Text "HOL-Library.Sublist"
begin

text \<open>
  Live events for the operators: \<^verbatim>\<open>app/domain/sse_broadcaster.py\<close>, which hands what Redis publishes to a bounded queue per
  subscriber, and \<^verbatim>\<open>app/api/v1/routers/stream.py\<close>, which turns a queue into a stream of server-sent events behind a limit on
  the number of connections. Every operation between two suspensions is one step. A set of queues is a list of queues with
  their identities.
\<close>

section \<open>Broadcaster\<close>

definition CHANNEL_AUDIT :: string where "CHANNEL_AUDIT = ''agentoe:events:audit''"
definition CHANNEL_SESSIONS :: string where "CHANNEL_SESSIONS = ''agentoe:events:sessions''"
definition CHANNEL_ALERTS :: string where "CHANNEL_ALERTS = ''agentoe:events:alerts''"
definition ALL_CHANNELS :: "string list" where "ALL_CHANNELS = [CHANNEL_AUDIT, CHANNEL_SESSIONS, CHANNEL_ALERTS]"
definition QUEUE_MAXSIZE :: nat where "QUEUE_MAXSIZE = 200"

text \<open>An entry of a queue: a message, or the \<open>None\<close> that ends the stream.\<close>

datatype sse_item = Payload ustr | Sentinel

record broadcaster =
  bc_subscribers :: "(string \<times> (nat \<times> sse_item list) list) list"
  bc_stop_event :: bool
  bc_next :: nat

definition new_broadcaster :: broadcaster where
  "new_broadcaster = \<lparr>bc_subscribers = map (\<lambda>ch. (ch, [])) ALL_CHANNELS, bc_stop_event = False, bc_next = 0\<rparr>"

definition put_nowait :: "sse_item \<Rightarrow> sse_item list \<Rightarrow> sse_item list option" where
  "put_nowait x q = (if length q \<ge> QUEUE_MAXSIZE then None else Some (q @ [x]))"

definition offer :: "sse_item \<Rightarrow> sse_item list \<Rightarrow> sse_item list" where
  "offer x q = (case put_nowait x q of None \<Rightarrow> q | Some q' \<Rightarrow> q')"

definition queues :: "string \<Rightarrow> broadcaster \<Rightarrow> (nat \<times> sse_item list) list" where
  "queues ch b = (case dict_get (bc_subscribers b) ch of None \<Rightarrow> [] | Some qs \<Rightarrow> qs)"

definition subscribe :: "string \<Rightarrow> broadcaster \<Rightarrow> nat \<times> broadcaster" where
  "subscribe ch b =
     (bc_next b, b\<lparr>bc_subscribers := dict_set ch (queues ch b @ [(bc_next b, [])]) (bc_subscribers b), bc_next := bc_next b + 1\<rparr>)"

definition map_queues :: "string \<Rightarrow> ((nat \<times> sse_item list) list \<Rightarrow> (nat \<times> sse_item list) list) \<Rightarrow> broadcaster \<Rightarrow> broadcaster" where
  "map_queues ch f b =
     b\<lparr>bc_subscribers := map (\<lambda>(c, qs). (c, if c = ch then f qs else qs)) (bc_subscribers b)\<rparr>"

definition unsubscribe :: "string \<Rightarrow> nat \<Rightarrow> broadcaster \<Rightarrow> broadcaster" where
  "unsubscribe ch i = map_queues ch (filter (\<lambda>q. fst q \<noteq> i))"

definition fan_out :: "string \<Rightarrow> ustr \<Rightarrow> broadcaster \<Rightarrow> nat \<times> broadcaster" where
  "fan_out ch data b =
     (length (filter (\<lambda>q. put_nowait (Payload data) (snd q) = None) (queues ch b)),
      map_queues ch (map (\<lambda>(i, q). (i, offer (Payload data) q))) b)"

definition bc_stop :: "broadcaster \<Rightarrow> broadcaster" where
  "bc_stop b = b\<lparr>bc_stop_event := True, bc_subscribers := map (\<lambda>(c, qs). (c, map (\<lambda>(i, q). (i, offer Sentinel q)) qs)) (bc_subscribers b)\<rparr>"

definition bc_start :: "broadcaster \<Rightarrow> broadcaster" where "bc_start b = b\<lparr>bc_stop_event := False\<rparr>"

text \<open>One turn of the listening loop, with whether it goes on.\<close>

definition on_message :: "string \<Rightarrow> string \<Rightarrow> ustr \<Rightarrow> broadcaster \<Rightarrow> bool \<times> broadcaster" where
  "on_message type ch data b =
     (if bc_stop_event b then (False, b) else if type \<noteq> ''message'' then (True, b) else (True, snd (fan_out ch data b)))"

text \<open>
  The reconnecting loop around it. An attempt ends regularly, by an exception, or by a cancellation; the two flags are whether
  the stop event is set when it ended and after the pause that follows a failure. The result is the pauses made, in seconds.
\<close>

datatype loop_end = LoopReturned | LoopFailed | LoopCancelled

fun bc_run :: "nat \<Rightarrow> (loop_end \<times> bool \<times> bool) list \<Rightarrow> nat list" where
  "bc_run backoff [] = []"
| "bc_run backoff ((LoopReturned, stopped, _) # es) = (if stopped then [] else bc_run 1 es)"
| "bc_run backoff ((LoopCancelled, _, _) # es) = []"
| "bc_run backoff ((LoopFailed, stopped, later) # es) =
     (if stopped then []
      else backoff # (if later then [] else bc_run (min (backoff * 2) 30) es))"

section \<open>Consumer\<close>

text \<open>A turn of \<open>queue_iter\<close>: an item, a heartbeat when nothing came in time, or the end.\<close>

datatype iter_out = Yield ustr | Tick | Finished

fun queue_iter :: "sse_item list \<Rightarrow> iter_out \<times> sse_item list" where
  "queue_iter (Payload d # q) = (Yield d, q)"
| "queue_iter (Sentinel # q) = (Finished, q)"
| "queue_iter [] = (Tick, [])"

definition take_item :: "string \<Rightarrow> nat \<Rightarrow> broadcaster \<Rightarrow> broadcaster" where
  "take_item ch i = map_queues ch (map (\<lambda>(j, q). (j, if j = i then snd (queue_iter q) else q)))"

datatype sse_frame = Heartbeat | Event string ustr nat

record sse_client =
  cl_seq :: nat
  cl_open :: bool
  cl_sent :: "sse_frame list"

text \<open>A turn of the generator: \<open>gone\<close> says whether the client has disconnected when the item is there.\<close>

definition channel_stream :: "string \<Rightarrow> bool \<Rightarrow> iter_out \<Rightarrow> sse_client \<Rightarrow> sse_client" where
  "channel_stream event_name gone out c =
     (if \<not> cl_open c then c
      else (case out of
              Finished \<Rightarrow> c\<lparr>cl_open := False\<rparr>
            | Tick \<Rightarrow> if gone then c\<lparr>cl_open := False\<rparr> else c\<lparr>cl_sent := cl_sent c @ [Heartbeat]\<rparr>
            | Yield d \<Rightarrow>
                if gone then c\<lparr>cl_open := False\<rparr>
                else c\<lparr>cl_seq := cl_seq c + 1, cl_sent := cl_sent c @ [Event event_name d (cl_seq c + 1)]\<rparr>))"

text \<open>The text of an event: lines joined by line feeds, ended by an empty line.\<close>

definition sse_event :: "ustr \<Rightarrow> ustr \<Rightarrow> ustr option \<Rightarrow> ustr" where
  "sse_event event data ident =
     join [10]
       ((case ident of None \<Rightarrow> [] | Some i \<Rightarrow> if i = [] then [] else [of_str ''id: '' @ i]) @
        [of_str ''event: '' @ event, of_str ''data: '' @ data, [], []])"

section \<open>Connection guard\<close>

text \<open>
  The semaphore's value, and the connections by their stage: admitted but not yet iterated, streaming, and given up before the
  first iteration. A generator that never ran has no \<open>finally\<close> to run.
\<close>

record sse_guard =
  sg_value :: nat
  sg_admitted :: nat
  sg_streaming :: nat
  sg_abandoned :: nat

datatype guard_reply = Accepted | Busy503

definition new_guard :: "nat \<Rightarrow> sse_guard" where
  "new_guard limit = \<lparr>sg_value = limit, sg_admitted = 0, sg_streaming = 0, sg_abandoned = 0\<rparr>"

text \<open>
  No guard when the limit is not positive. Otherwise: without waiters \<open>locked\<close> means that the value is 0, and \<open>acquire\<close>
  then does not suspend, so that looking and taking are one step.
\<close>

definition get_sse_semaphore :: "int \<Rightarrow> sse_guard option" where
  "get_sse_semaphore max_conn = (if max_conn \<le> 0 then None else Some (new_guard (nat max_conn)))"

definition sse_streaming_response :: "sse_guard option \<Rightarrow> guard_reply \<times> sse_guard option" where
  "sse_streaming_response sem =
     (case sem of
        None \<Rightarrow> (Accepted, None)
      | Some g \<Rightarrow>
          if sg_value g = 0 then (Busy503, Some g)
          else (Accepted, Some (g\<lparr>sg_value := sg_value g - 1, sg_admitted := sg_admitted g + 1\<rparr>)))"

datatype guard_op = GConnect | GStart | GFinish | GAbandon

fun guard_move :: "guard_op \<Rightarrow> sse_guard \<Rightarrow> sse_guard" where
  "guard_move GConnect g = g"
| "guard_move GStart g = (if sg_admitted g = 0 then g else g\<lparr>sg_admitted := sg_admitted g - 1, sg_streaming := sg_streaming g + 1\<rparr>)"
| "guard_move GFinish g = (if sg_streaming g = 0 then g else g\<lparr>sg_streaming := sg_streaming g - 1, sg_value := sg_value g + 1\<rparr>)"
| "guard_move GAbandon g = (if sg_admitted g = 0 then g else g\<lparr>sg_admitted := sg_admitted g - 1, sg_abandoned := sg_abandoned g + 1\<rparr>)"

definition guard_step :: "guard_op \<Rightarrow> sse_guard option \<Rightarrow> sse_guard option" where
  "guard_step op sem = (if op = GConnect then snd (sse_streaming_response sem) else map_option (guard_move op) sem)"

section \<open>Lemmas\<close>

definition queue_of :: "string \<Rightarrow> nat \<Rightarrow> broadcaster \<Rightarrow> sse_item list option" where
  "queue_of ch i b = map_of (queues ch b) i"

datatype bc_op = BMessage string string ustr | BSubscribe string | BUnsubscribe string nat | BTake string nat | BStop

fun bc_step :: "bc_op \<Rightarrow> broadcaster \<Rightarrow> broadcaster" where
  "bc_step (BMessage type ch d) b = snd (on_message type ch d b)"
| "bc_step (BSubscribe ch) b = snd (subscribe ch b)"
| "bc_step (BUnsubscribe ch i) b = unsubscribe ch i b"
| "bc_step (BTake ch i) b = take_item ch i b"
| "bc_step BStop b = bc_stop b"

text \<open>One subscriber alone: a queue of at most 200 entries that drops what does not fit.\<close>

datatype q_op = QPut sse_item | QTake

fun q_step :: "q_op \<Rightarrow> sse_item list \<Rightarrow> sse_item list" where
  "q_step (QPut x) q = offer x q"
| "q_step QTake q = tl q"

text \<open>What the operations on the broadcaster are for one subscriber.\<close>

fun view :: "string \<Rightarrow> nat \<Rightarrow> bool \<Rightarrow> bc_op list \<Rightarrow> q_op list" where
  "view ch i stopped [] = []"
| "view ch i stopped (BMessage type c d # ops) =
     (if c = ch \<and> type = ''message'' \<and> \<not> stopped then QPut (Payload d) # view ch i stopped ops else view ch i stopped ops)"
| "view ch i stopped (BTake c j # ops) = (if c = ch \<and> j = i then QTake # view ch i stopped ops else view ch i stopped ops)"
| "view ch i stopped (BStop # ops) = QPut Sentinel # view ch i True ops"
| "view ch i stopped (op # ops) = view ch i stopped ops"

lemma queue_iter_snd [simp]: "snd (queue_iter q) = tl q"
  by (cases q rule: queue_iter.cases) simp_all

interpretation sseq: bounded_buffer q_step length "\<lambda>_. QUEUE_MAXSIZE"
proof unfold_locales
  fix i :: q_op and q :: "sse_item list"
  assume "length q \<le> QUEUE_MAXSIZE"
  then show "length (q_step i q) \<le> QUEUE_MAXSIZE" by (cases i) (auto simp: offer_def put_nowait_def split: option.split)
qed simp

lemma map_of_map_snd: "map_of (map (\<lambda>(j, q). (j, f j q)) xs) i = map_option (f i) (map_of xs i)"
  by (induction xs) auto

lemma queues_map [simp]: "queues c (map_queues ch f b) = (if c = ch \<and> dict_get (bc_subscribers b) c \<noteq> None then f (queues c b) else queues c b)"
  by (cases "dict_get (bc_subscribers b) c")
    (auto simp: queues_def map_queues_def map_of_map_snd [where f = "\<lambda>c qs. if c = ch then f qs else qs"])

lemma queue_present: "queue_of ch i b = Some q \<Longrightarrow> dict_get (bc_subscribers b) ch \<noteq> None"
  by (auto simp: queue_of_def queues_def split: option.splits)

lemma queues_dict_set: "queues c (b\<lparr>bc_subscribers := dict_set ch v (bc_subscribers b), bc_next := n\<rparr>) = (if c = ch then v else queues c b)"
  by (simp add: queues_def)

lemma queues_stop: "queues c (bc_stop b) = map (\<lambda>(i, q). (i, offer Sentinel q)) (queues c b)"
  by (cases "dict_get (bc_subscribers b) c")
    (simp_all add: queues_def bc_stop_def map_of_map_snd [where f = "\<lambda>c. map (\<lambda>(i, q). (i, offer Sentinel q))"])

lemma map_of_drop_other: "i \<noteq> j \<Longrightarrow> map_of (filter (\<lambda>q. fst q \<noteq> j) xs) i = map_of xs i"
  by (induction xs) auto

lemmas bc_step_defs = on_message_def fan_out_def subscribe_def unsubscribe_def take_item_def

lemma stopped_step [simp]: "bc_stop_event (bc_step op b) \<longleftrightarrow> bc_stop_event b \<or> op = BStop"
  by (cases op) (auto simp: bc_step_defs map_queues_def bc_stop_def)

lemma queue_of_step:
  assumes "queue_of ch i b = Some q" and "op \<noteq> BUnsubscribe ch i"
  shows "queue_of ch i (bc_step op b) = Some (fold q_step (view ch i (bc_stop_event b) [op]) q)"
proof (cases op)
  case (BMessage type c d)
  with assms queue_present [OF assms(1)] show ?thesis
    by (auto simp: queue_of_def bc_step_defs map_of_map_snd)
next
  case (BSubscribe c)
  with assms show ?thesis by (auto simp: queue_of_def subscribe_def queues_dict_set map_add_def)
next
  case (BUnsubscribe c j)
  with assms show ?thesis by (auto simp: queue_of_def unsubscribe_def map_of_drop_other)
next
  case (BTake c j)
  with assms queue_present [OF assms(1)] show ?thesis
    by (auto simp: queue_of_def take_item_def map_of_map_snd)
next
  case BStop
  with assms show ?thesis by (auto simp: queue_of_def queues_stop map_of_map_snd)
qed

lemma view_Cons: "view ch i s (op # ops) = view ch i s [op] @ view ch i (s \<or> op = BStop) ops"
  by (cases op) auto

lemma queue_of_steps:
  "queue_of ch i b = Some q \<Longrightarrow> BUnsubscribe ch i \<notin> set ops \<Longrightarrow>
    queue_of ch i (fold bc_step ops b) = Some (fold q_step (view ch i (bc_stop_event b) ops) q)"
proof (induction ops arbitrary: b q)
  case (Cons op ops)
  from Cons.prems have "queue_of ch i (bc_step op b) = Some (fold q_step (view ch i (bc_stop_event b) [op]) q)"
    by (intro queue_of_step) auto
  from Cons.IH [OF this] Cons.prems(2) show ?case by (subst view_Cons) simp
qed simp

text \<open>Identities are handed out once.\<close>

definition bc_fresh :: "broadcaster \<Rightarrow> bool" where
  "bc_fresh b \<longleftrightarrow> (\<forall>ch. \<forall>q \<in> set (queues ch b). fst q < bc_next b)"

lemma bc_fresh_new: "bc_fresh new_broadcaster"
  by (auto simp: bc_fresh_def new_broadcaster_def queues_def ALL_CHANNELS_def split: if_splits)

lemma bc_next_map [simp]: "bc_next (map_queues ch f b) = bc_next b"
  by (simp add: map_queues_def)

lemma bc_fresh_step: "bc_fresh b \<Longrightarrow> bc_fresh (bc_step op b)"
proof (cases op)
  case (BSubscribe ch)
  moreover assume "bc_fresh b"
  ultimately show ?thesis by (auto simp: bc_fresh_def subscribe_def queues_dict_set less_SucI)
next
  case BStop
  moreover assume "bc_fresh b"
  moreover have "bc_next (bc_stop b) = bc_next b" by (simp add: bc_stop_def)
  ultimately show ?thesis by (fastforce simp: bc_fresh_def queues_stop)
qed (fastforce simp: bc_fresh_def bc_step_defs)+

lemma bc_fresh_steps: "bc_fresh (fold bc_step ops new_broadcaster)"
  using fold_invariant [where Q = "\<lambda>_. True" and P = bc_fresh and xs = ops and s = new_broadcaster and f = bc_step]
  by (auto simp: bc_fresh_new bc_fresh_step)

lemma subscribed_queue:
  assumes "bc_fresh b" and "subscribe ch b = (i, b')"
  shows "queue_of ch i b' = Some []" and "bc_stop_event b' = bc_stop_event b"
proof -
  have "map_of (queues ch b) (bc_next b) = None" using assms(1) by (fastforce simp: bc_fresh_def map_of_eq_None_iff)
  with assms(2) show "queue_of ch i b' = Some []" by (auto simp: subscribe_def queue_of_def queues_dict_set map_add_def)
  show "bc_stop_event b' = bc_stop_event b" using assms(2) by (auto simp: subscribe_def)
qed

subsection \<open>One bounded queue\<close>

fun taken :: "q_op list \<Rightarrow> sse_item list \<Rightarrow> sse_item list" where
  "taken [] q = []"
| "taken (QTake # ops) q = take 1 q @ taken ops (tl q)"
| "taken (QPut x # ops) q = taken ops (offer x q)"

fun puts :: "q_op list \<Rightarrow> sse_item list" where
  "puts [] = []"
| "puts (QPut x # ops) = x # puts ops"
| "puts (QTake # ops) = puts ops"

fun never_full :: "q_op list \<Rightarrow> sse_item list \<Rightarrow> bool" where
  "never_full [] q = True"
| "never_full (QTake # ops) q = never_full ops (tl q)"
| "never_full (QPut x # ops) q = (length q < QUEUE_MAXSIZE \<and> never_full ops (offer x q))"

lemma offer_cases: "offer x q = (if length q < QUEUE_MAXSIZE then q @ [x] else q)"
  by (simp add: offer_def put_nowait_def)

lemma queue_subseq: "subseq (taken ops q @ fold q_step ops q) (q @ puts ops)"
proof (induction ops q rule: taken.induct)
  case (2 ops q)
  then show ?case by (cases q) auto
next
  case (3 x ops q)
  then have "subseq (taken ops (offer x q) @ fold q_step ops (offer x q)) (offer x q @ puts ops)" .
  moreover have "subseq (offer x q @ puts ops) (q @ x # puts ops)"
    by (auto simp: offer_cases intro: list_emb_append_mono)
  ultimately show ?case using subseq_order.trans by simp
qed simp

lemma queue_exact: "never_full ops q \<Longrightarrow> taken ops q @ fold q_step ops q = q @ puts ops"
proof (induction ops q rule: taken.induct)
  case (2 ops q)
  then show ?case by (cases q) auto
qed (auto simp: offer_cases)

lemma sse_queue_bounded: "length q \<le> QUEUE_MAXSIZE \<Longrightarrow> length (fold q_step ops q) \<le> QUEUE_MAXSIZE"
  by (rule sseq.run_bound)

section \<open>Properties\<close>

text \<open>
  C33. Fan-out: after any use of the broadcaster, and through any later use that does not unsubscribe him, a subscriber's
  queue is what a queue of its own, bounded by 200 and fed with the messages of his channel, would be; other channels and other
  subscribers, however slow, do not matter. What he has read and what waits is a subsequence of what was published, in order,
  and all of it if the queue was never full.
\<close>

theorem fan_out_independent:
  assumes past: "b = fold bc_step before new_broadcaster"
    and sub: "subscribe ch b = (i, b')"
    and stays: "BUnsubscribe ch i \<notin> set ops"
    and mine: "mine = view ch i (bc_stop_event b) ops"
  shows "queue_of ch i (fold bc_step ops b') = Some (fold q_step mine []) \<and>
    length (fold q_step mine []) \<le> QUEUE_MAXSIZE \<and>
    subseq (taken mine [] @ fold q_step mine []) (puts mine) \<and>
    (never_full mine [] \<longrightarrow> taken mine [] @ fold q_step mine [] = puts mine)"
proof -
  have "bc_fresh b" using past bc_fresh_steps by simp
  note sub = subscribed_queue [OF this sub]
  show ?thesis
    using queue_of_steps [OF sub(1) stays] sub(2) queue_subseq [of mine "[]"] queue_exact [of mine "[]"]
      sse_queue_bounded [of "[]" mine]
    by (simp add: mine)
qed

definition ex_fan_ops :: "bc_op list" where
  "ex_fan_ops =
     [BMessage ''message'' CHANNEL_AUDIT [65], BMessage ''subscribe'' CHANNEL_AUDIT [66], BSubscribe CHANNEL_AUDIT,
      BMessage ''message'' CHANNEL_ALERTS [67], BTake CHANNEL_AUDIT 1, BMessage ''message'' CHANNEL_AUDIT [68], BStop]"

theorem fan_out_independent_witness:
  "queue_of CHANNEL_AUDIT 1 (fold bc_step ex_fan_ops (snd (subscribe CHANNEL_AUDIT (fold bc_step [BSubscribe CHANNEL_AUDIT] new_broadcaster)))) =
    Some [Payload [68], Sentinel]"
proof -
  let ?b = "fold bc_step [BSubscribe CHANNEL_AUDIT] new_broadcaster"
  have "subscribe CHANNEL_AUDIT ?b = (1, snd (subscribe CHANNEL_AUDIT ?b))" by code_simp
  from fan_out_independent [OF refl this _ refl, of ex_fan_ops]
  have "queue_of CHANNEL_AUDIT 1 (fold bc_step ex_fan_ops (snd (subscribe CHANNEL_AUDIT ?b))) =
      Some (fold q_step (view CHANNEL_AUDIT 1 (bc_stop_event ?b) ex_fan_ops) [])"
    by (auto simp: ex_fan_ops_def)
  moreover have "fold q_step (view CHANNEL_AUDIT 1 (bc_stop_event ?b) ex_fan_ops) [] = [Payload [68], Sentinel]" by code_simp
  ultimately show ?thesis by simp
qed

text \<open>
  The end of a stream: the sentinel that \<open>stop\<close> puts into every queue ends the streams of those who have room for it. It is
  lost on a full queue: that reader takes the 200 messages and then gets a heartbeat on every turn, for ever, although the
  broadcaster has stopped.
\<close>

theorem stop_sentinel:
  assumes "queue_of ch i b = Some q" and "length q \<le> QUEUE_MAXSIZE"
  shows "queue_of ch i (bc_stop b) = Some (if length q < QUEUE_MAXSIZE then q @ [Sentinel] else q) \<and>
    (length q = QUEUE_MAXSIZE \<longrightarrow> BUnsubscribe ch i \<notin> set ops \<longrightarrow> BStop \<notin> set ops \<longrightarrow> Sentinel \<notin> set q \<longrightarrow>
      (\<exists>q'. queue_of ch i (fold bc_step ops (bc_stop b)) = Some q' \<and> fst (queue_iter q') \<noteq> Finished))"
proof -
  have stop: "queue_of ch i (bc_stop b) = Some (offer Sentinel q)"
    using assms(1) by (simp add: queue_of_def queues_stop map_of_map_snd)
  have only_takes: "BStop \<notin> set ops \<Longrightarrow> set (view ch i True ops) \<subseteq> {QTake}" for ops
    by (induction ch i True ops rule: view.induct) auto
  have keeps: "set ms \<subseteq> {QTake} \<Longrightarrow> set (fold q_step ms q) \<subseteq> set q" for ms q
  proof (induction ms arbitrary: q)
    case (Cons m ms)
    have "set (tl q) \<subseteq> set q" by (cases q) auto
    with Cons.IH [of "tl q"] Cons.prems show ?case by auto
  qed simp
  have never: "fst (queue_iter q') \<noteq> Finished" if "Sentinel \<notin> set q'" for q'
    using that by (cases q' rule: queue_iter.cases) auto
  have stopped: "bc_stop_event (bc_stop b)" by (simp add: bc_stop_def)
  show ?thesis
  proof (intro conjI impI)
    assume full: "length q = QUEUE_MAXSIZE" and ops: "BUnsubscribe ch i \<notin> set ops" "BStop \<notin> set ops" and none: "Sentinel \<notin> set q"
    let ?q' = "fold q_step (view ch i True ops) q"
    have "queue_of ch i (fold bc_step ops (bc_stop b)) = Some ?q'"
      using queue_of_steps [OF stop ops(1)] stopped full by (simp add: offer_cases)
    moreover have "Sentinel \<notin> set ?q'" using keeps [OF only_takes [OF ops(2)], of q] none by blast
    ultimately show "\<exists>q'. queue_of ch i (fold bc_step ops (bc_stop b)) = Some q' \<and> fst (queue_iter q') \<noteq> Finished"
      using never by blast
  qed (simp add: stop offer_cases)
qed

definition ex_full :: broadcaster where
  "ex_full = new_broadcaster\<lparr>bc_subscribers := [(CHANNEL_AUDIT, [(0, replicate 200 (Payload [65])), (1, [Payload [65]])])], bc_next := 2\<rparr>"

theorem stop_sentinel_witness:
  "queue_of CHANNEL_AUDIT 1 (bc_stop ex_full) = Some [Payload [65], Sentinel] \<and>
   (\<exists>q'. queue_of CHANNEL_AUDIT 0 (fold bc_step (replicate 200 (BTake CHANNEL_AUDIT 0)) (bc_stop ex_full)) = Some q' \<and>
      fst (queue_iter q') \<noteq> Finished)"
proof -
  have q: "queue_of CHANNEL_AUDIT 0 ex_full = Some (replicate 200 (Payload [65]))" "queue_of CHANNEL_AUDIT 1 ex_full = Some [Payload [65]]"
    by (simp_all add: queue_of_def queues_def ex_full_def)
  show ?thesis
    using stop_sentinel [OF q(1), of "replicate 200 (BTake CHANNEL_AUDIT 0)"] stop_sentinel [OF q(2), of "[]"]
    by (simp add: QUEUE_MAXSIZE_def)
qed

definition slots :: "sse_guard \<Rightarrow> nat" where
  "slots g = sg_value g + sg_admitted g + sg_streaming g + sg_abandoned g"

lemma slots_move: "slots (guard_move op g) = slots g \<and> sg_abandoned g \<le> sg_abandoned (guard_move op g)"
  by (cases op) (simp_all add: slots_def)

lemma guard_step_None [simp]: "guard_step op None = None"
  by (cases op) (simp_all add: guard_step_def sse_streaming_response_def)

lemma guard_step_Some: "\<exists>g'. guard_step op (Some g) = Some g' \<and> slots g' = slots g \<and> sg_abandoned g \<le> sg_abandoned g'"
  using slots_move [of op g]
  by (cases op) (auto simp: guard_step_def sse_streaming_response_def slots_def)

lemma guard_steps: "\<exists>g'. fold guard_step ops (Some g) = Some g' \<and> slots g' = slots g \<and> sg_abandoned g \<le> sg_abandoned g'"
proof (induction ops arbitrary: g)
  case (Cons op ops)
  from guard_step_Some [of op g] obtain g1 where
    g1: "guard_step op (Some g) = Some g1" "slots g1 = slots g" "sg_abandoned g \<le> sg_abandoned g1" by blast
  with Cons.IH [of g1] show ?case by auto
qed simp

text \<open>
  The limit on event streams: whatever connections do, no more than the limit are open at once, and a request is refused
  exactly when every slot is taken. A connection given up before its first event keeps its slot: the capacity that is
  left is the limit less those, and after as many as the limit every later request is refused.
\<close>

theorem sse_slots:
  assumes "limit > 0"
  shows "\<exists>g. fold guard_step ops (get_sse_semaphore limit) = Some g \<and>
    sg_admitted g + sg_streaming g + sg_abandoned g \<le> nat limit \<and>
    (fst (sse_streaming_response (Some g)) = Busy503 \<longleftrightarrow> sg_admitted g + sg_streaming g + sg_abandoned g = nat limit) \<and>
    (sg_abandoned g = nat limit \<longrightarrow> (\<forall>ops'. fst (sse_streaming_response (fold guard_step ops' (Some g))) = Busy503))"
proof -
  have start: "get_sse_semaphore limit = Some (new_guard (nat limit))" "slots (new_guard (nat limit)) = nat limit"
    using assms by (simp_all add: get_sse_semaphore_def slots_def new_guard_def)
  with guard_steps [of ops "new_guard (nat limit)"] obtain g where
    g: "fold guard_step ops (get_sse_semaphore limit) = Some g" "slots g = nat limit" by auto
  have "fst (sse_streaming_response (fold guard_step ops' (Some g))) = Busy503" if "sg_abandoned g = nat limit" for ops'
    using guard_steps [of ops' g] that g(2) by (auto simp: sse_streaming_response_def slots_def)
  with g show ?thesis by (auto simp: sse_streaming_response_def slots_def)
qed

theorem sse_slots_witness:
  "fst (sse_streaming_response (fold guard_step [GConnect, GAbandon, GConnect, GStart, GAbandon, GFinish, GConnect, GAbandon] (get_sse_semaphore 2))) = Busy503"
proof -
  have "fold guard_step [GConnect, GAbandon, GConnect, GStart, GAbandon, GFinish, GConnect, GAbandon] (get_sse_semaphore 2) =
      Some \<lparr>sg_value = 0, sg_admitted = 0, sg_streaming = 0, sg_abandoned = 2\<rparr>" by code_simp
  with sse_slots [of 2 "[GConnect, GAbandon, GConnect, GStart, GAbandon, GFinish, GConnect, GAbandon]"] show ?thesis
    by auto
qed

lemma run_failures:
  "bc_run backoff (replicate n (LoopFailed, False, False)) = map (\<lambda>k. if k = 0 then backoff else min (backoff * 2 ^ k) 30) [0..<n]"
  if "backoff \<le> 30"
  using that
proof (induction n arbitrary: backoff)
  case (Suc n)
  have "(if k = 0 then min (backoff * 2) 30 else min (min (backoff * 2) 30 * 2 ^ k) 30) = min (backoff * 2 ^ Suc k) 30" for k :: nat
  proof (cases "backoff * 2 \<le> 30")
    case False
    have "(30::nat) \<le> 30 * 2 ^ k" by simp
    moreover have "30 \<le> backoff * 2 ^ Suc k" using False mult_le_mono [of 30 "backoff * 2" 1 "2 ^ k"] by (simp add: algebra_simps)
    moreover have "min (backoff * 2) 30 = 30" using False by simp
    ultimately show ?thesis by (simp only: min_absorb2 if_cancel)
  qed (simp add: algebra_simps)
  with Suc.IH [of "min (backoff * 2) 30"] show ?case
    by (simp add: upt_conv_Cons map_Suc_upt [symmetric] del: upt_Suc)
qed simp

text \<open>
  Reconnecting: the pause after the k-th failure in a row is 2 to the k seconds, capped at 30. A subscription that worked for hours
  and then broke is a failure like the others: only a regular end of the listening, which happens on a stop alone, resets
  the pause, so that after five breaks in the life of the process every reconnection waits 30 seconds.
\<close>

theorem reconnect_pauses:
  "bc_run 1 (replicate n (LoopFailed, False, False)) = map (\<lambda>k. min (2 ^ k) 30) [0..<n]"
  by (simp add: run_failures)

end
