(* ===== verification/Managed_Documents.thy ===== *)
theory Managed_Documents
  imports Audit_Log Policy_Gate
begin

text \<open>
  Documents that administrators manage: \<^verbatim>\<open>app/repositories/tenant_repository.py\<close>, \<^verbatim>\<open>policy_repository.py\<close> and
  \<^verbatim>\<open>connector_repository.py\<close>, with the endpoints of \<^verbatim>\<open>app/api/v1/routers/policies.py\<close>, \<^verbatim>\<open>connectors.py\<close> and the tenant
  part of \<^verbatim>\<open>admin.py\<close>. A collection is a record of commands over an abstract state. Documents are seen without their \<open>_id\<close>,
  which every read of the code projects away. A point in time is the integer of its milliseconds.
\<close>

section \<open>Collections\<close>

text \<open>
  \<open>dd_accepts\<close> says whether a write is accepted (a duplicate \<open>_id\<close> is not), \<open>dd_set\<close> what \<open>$set\<close> makes of a document.
\<close>

record 'w doc_db =
  dd_ok :: "'w \<Rightarrow> bool"
  dd_docs :: "'w \<Rightarrow> meta list"
  dd_accepts :: "meta \<Rightarrow> 'w \<Rightarrow> bool"
  dd_set :: "meta \<Rightarrow> meta \<Rightarrow> meta"
  dd_insert :: "meta \<Rightarrow> 'w \<Rightarrow> 'w"
  dd_update_one :: "(meta \<Rightarrow> bool) \<Rightarrow> (meta \<Rightarrow> meta) \<Rightarrow> 'w \<Rightarrow> 'w"
  dd_delete_one :: "(meta \<Rightarrow> bool) \<Rightarrow> 'w \<Rightarrow> 'w"

definition plain_key :: "string \<Rightarrow> bool" where
  "plain_key k \<longleftrightarrow> k \<noteq> [] \<and> k \<noteq> ''_id'' \<and> CHR ''.'' \<notin> set k \<and> CHR ''$'' \<notin> set k"

definition doc_laws :: "'w doc_db \<Rightarrow> bool" where
  "doc_laws D \<longleftrightarrow>
     (\<forall>d w. dd_docs D (dd_insert D d w) = dd_docs D w @ [dict_pop ''_id'' d]) \<and>
     (\<forall>P f w. dd_docs D (dd_update_one D P f w) = update_first P f (dd_docs D w)) \<and>
     (\<forall>P w. dd_docs D (dd_delete_one D P w) = delete_first P (dd_docs D w)) \<and>
     (\<forall>u d. (\<forall>k\<in>fst ` set u. plain_key k) \<longrightarrow> dd_set D u d = dict_update d u)"

definition stamp :: "time \<Rightarrow> pyval" where "stamp t = VInt t"

definition setdefault :: "string \<Rightarrow> pyval \<Rightarrow> meta \<Rightarrow> meta" where
  "setdefault k v d = (if dict_get d k = None then dict_set k v d else d)"

definition has_id :: "string \<Rightarrow> string \<Rightarrow> meta \<Rightarrow> bool" where
  "has_id key i d \<longleftrightarrow> dict_get d key = Some (vstr i)"

section \<open>Repositories\<close>

datatype repo_error = NotFound string | DbFailed

type_synonym ('a, 'w) doc_run = "(repo_error + 'a) \<times> 'w"

text \<open>What the three classes share, by the name of the identifying field.\<close>

definition insert_doc :: "'w doc_db \<Rightarrow> meta \<Rightarrow> 'w \<Rightarrow> (meta, 'w) doc_run" where
  "insert_doc D d w =
     (if dd_ok D w \<and> dd_accepts D d w then (Inr (dict_pop ''_id'' d), dd_insert D d w) else (Inl DbFailed, w))"

definition get_doc :: "string \<Rightarrow> 'w doc_db \<Rightarrow> string \<Rightarrow> 'w \<Rightarrow> (meta, 'w) doc_run" where
  "get_doc key D i w =
     (if \<not> dd_ok D w then (Inl DbFailed, w)
      else (case find (has_id key i) (dd_docs D w) of None \<Rightarrow> (Inl (NotFound i), w) | Some d \<Rightarrow> (Inr d, w)))"

definition update_doc :: "string \<Rightarrow> 'w doc_db \<Rightarrow> time \<Rightarrow> string \<Rightarrow> meta \<Rightarrow> 'w \<Rightarrow> (meta, 'w) doc_run" where
  "update_doc key D now i u w =
     (let u' = dict_set ''updated_at'' (stamp now) u
      in if \<not> (dd_ok D w \<and> dd_accepts D u' w) then (Inl DbFailed, w)
         else (case find (has_id key i) (dd_docs D w) of
                 None \<Rightarrow> (Inl (NotFound i), w)
               | Some d \<Rightarrow> (Inr (dd_set D u' d), dd_update_one D (has_id key i) (dd_set D u') w)))"

definition delete_doc :: "string \<Rightarrow> 'w doc_db \<Rightarrow> string \<Rightarrow> 'w \<Rightarrow> (unit, 'w) doc_run" where
  "delete_doc key D i w =
     (if \<not> dd_ok D w then (Inl DbFailed, w)
      else if find (has_id key i) (dd_docs D w) = None then (Inl (NotFound i), w)
      else (Inr (), dd_delete_one D (has_id key i) w))"

text \<open>\<open>order\<close> is the sort of the query.\<close>

definition list_docs :: "'w doc_db \<Rightarrow> (meta list \<Rightarrow> meta list) \<Rightarrow> (meta \<Rightarrow> bool) \<Rightarrow> nat \<Rightarrow> 'w \<Rightarrow> (meta list, 'w) doc_run" where
  "list_docs D order P n w =
     (if \<not> dd_ok D w then (Inl DbFailed, w) else (Inr (take n (order (filter P (dd_docs D w)))), w))"

definition enabled_doc :: "meta \<Rightarrow> bool" where "enabled_doc d \<longleftrightarrow> dict_get d ''enabled'' = Some (VBool True)"

definition tenant_create :: "'w doc_db \<Rightarrow> time \<Rightarrow> meta \<Rightarrow> 'w \<Rightarrow> (meta, 'w) doc_run" where
  "tenant_create D now data =
     insert_doc D
       (setdefault ''features'' (VList [vstr ''stt'', vstr ''llm'', vstr ''tts''])
         (setdefault ''max_sessions'' (VInt 100)
           (setdefault ''plan'' (vstr ''standard'')
             (setdefault ''enabled'' (VBool True) (dict_set ''created_at'' (stamp now) data)))))"

definition tenant_get_by_id :: "'w doc_db \<Rightarrow> string \<Rightarrow> 'w \<Rightarrow> (meta, 'w) doc_run" where
  "tenant_get_by_id = get_doc ''tenant_id''"

definition tenant_list_all :: "'w doc_db \<Rightarrow> (meta list \<Rightarrow> meta list) \<Rightarrow> bool \<Rightarrow> 'w \<Rightarrow> (meta list, 'w) doc_run" where
  "tenant_list_all D order enabled_only = list_docs D order (\<lambda>d. enabled_only \<longrightarrow> enabled_doc d) 500"

definition tenant_update :: "'w doc_db \<Rightarrow> time \<Rightarrow> string \<Rightarrow> meta \<Rightarrow> 'w \<Rightarrow> (meta, 'w) doc_run" where
  "tenant_update = update_doc ''tenant_id''"

definition tenant_delete :: "'w doc_db \<Rightarrow> string \<Rightarrow> 'w \<Rightarrow> (unit, 'w) doc_run" where
  "tenant_delete = delete_doc ''tenant_id''"

definition policy_create :: "'w doc_db \<Rightarrow> time \<Rightarrow> meta \<Rightarrow> 'w \<Rightarrow> (meta, 'w) doc_run" where
  "policy_create D now data =
     insert_doc D
       (setdefault ''enabled'' (VBool True) (dict_set ''updated_at'' (stamp now) (dict_set ''created_at'' (stamp now) data)))"

definition policy_get_by_id :: "'w doc_db \<Rightarrow> string \<Rightarrow> 'w \<Rightarrow> (meta, 'w) doc_run" where
  "policy_get_by_id = get_doc ''policy_id''"

definition policy_list_by_tenant :: "'w doc_db \<Rightarrow> (meta list \<Rightarrow> meta list) \<Rightarrow> string \<Rightarrow> bool \<Rightarrow> 'w \<Rightarrow> (meta list, 'w) doc_run" where
  "policy_list_by_tenant D order tenant_id enabled_only =
     list_docs D order (\<lambda>d. has_id ''tenant_id'' tenant_id d \<and> (enabled_only \<longrightarrow> enabled_doc d)) 200"

definition policy_update :: "'w doc_db \<Rightarrow> time \<Rightarrow> string \<Rightarrow> meta \<Rightarrow> 'w \<Rightarrow> (meta, 'w) doc_run" where
  "policy_update = update_doc ''policy_id''"

definition policy_delete :: "'w doc_db \<Rightarrow> string \<Rightarrow> 'w \<Rightarrow> (unit, 'w) doc_run" where
  "policy_delete = delete_doc ''policy_id''"

text \<open>\<open>new_id\<close> is the identifier made from a random UUID.\<close>

definition connector_create :: "'w doc_db \<Rightarrow> string \<Rightarrow> time \<Rightarrow> meta \<Rightarrow> 'w \<Rightarrow> (meta, 'w) doc_run" where
  "connector_create D new_id now data =
     insert_doc D
       (setdefault ''whitelist'' (VList [])
         (setdefault ''enabled'' (VBool True) (dict_set ''created_at'' (stamp now) (setdefault ''connector_id'' (vstr new_id) data))))"

definition connector_get_by_id :: "'w doc_db \<Rightarrow> string \<Rightarrow> 'w \<Rightarrow> (meta, 'w) doc_run" where
  "connector_get_by_id = get_doc ''connector_id''"

definition connector_list_by_tenant :: "'w doc_db \<Rightarrow> (meta list \<Rightarrow> meta list) \<Rightarrow> string \<Rightarrow> 'w \<Rightarrow> (meta list, 'w) doc_run" where
  "connector_list_by_tenant D order tenant_id = list_docs D order (has_id ''tenant_id'' tenant_id) 200"

definition connector_update :: "'w doc_db \<Rightarrow> time \<Rightarrow> string \<Rightarrow> meta \<Rightarrow> 'w \<Rightarrow> (meta, 'w) doc_run" where
  "connector_update = update_doc ''connector_id''"

definition connector_delete :: "'w doc_db \<Rightarrow> string \<Rightarrow> 'w \<Rightarrow> (unit, 'w) doc_run" where
  "connector_delete = delete_doc ''connector_id''"

section \<open>Endpoints\<close>

text \<open>
  The services a handler reaches; \<open>aw_text\<close> is the text that stands for a value in the resource of an audit entry.
\<close>

record 'w admin_world =
  aw_tenants :: "'w doc_db"
  aw_policies :: "'w doc_db"
  aw_connectors :: "'w doc_db"
  aw_order :: "meta list \<Rightarrow> meta list"
  aw_audit :: "'w audit_db"
  aw_envs :: "string option list"
  aw_text :: "pyval \<Rightarrow> string"

datatype api_error = ApiGuard auth_error | ApiRepo repo_error | ApiHttp int string

type_synonym ('a, 'w) api_run = "(api_error + 'a) \<times> 'w"

definition with_repo :: "('a, 'w) doc_run \<Rightarrow> ('a \<Rightarrow> 'w \<Rightarrow> ('b, 'w) api_run) \<Rightarrow> ('b, 'w) api_run" where
  "with_repo r f = (case r of (Inl e, w) \<Rightarrow> (Inl (ApiRepo e), w) | (Inr x, w) \<Rightarrow> f x w)"

definition guarded :: "string list \<Rightarrow> TenantContext \<Rightarrow> (TenantContext \<Rightarrow> 'w \<Rightarrow> ('b, 'w) api_run) \<Rightarrow> 'w \<Rightarrow> ('b, 'w) api_run" where
  "guarded roles ctx f w = (case require_roles roles ctx of Inl e \<Rightarrow> (Inl (ApiGuard e), w) | Inr tenant \<Rightarrow> f tenant w)"

definition admin_event ::
  "string \<Rightarrow> string \<Rightarrow> TenantContext \<Rightarrow> string \<times> string \<Rightarrow> meta option \<Rightarrow> meta option \<Rightarrow> http_request \<Rightarrow> audit_event" where
  "admin_event action event_type tenant resource before after rq =
     \<lparr>ev_action = action, ev_actor = Some tenant, ev_resource = Some resource, ev_before = before, ev_after = after,
      ev_request = Some rq, ev_event_type = Some event_type, ev_session_id = None, ev_details = None\<rparr>"

definition emit_admin :: "'w admin_world \<Rightarrow> time \<Rightarrow> audit_event \<Rightarrow> 'w \<Rightarrow> 'w" where
  "emit_admin X now ev w = audit_emit (aw_audit X) (aw_envs X) now ev w"

definition get_text :: "'w admin_world \<Rightarrow> meta \<Rightarrow> string \<Rightarrow> string" where
  "get_text X d k = (case dict_get d k of None \<Rightarrow> [] | Some v \<Rightarrow> aw_text X v)"

subsection \<open>Tenants\<close>

definition list_tenants :: "'w admin_world \<Rightarrow> TenantContext \<Rightarrow> 'w \<Rightarrow> (meta list, 'w) api_run" where
  "list_tenants X ctx = guarded [''super_admin''] ctx (\<lambda>_ w. with_repo (tenant_list_all (aw_tenants X) (aw_order X) False w) (\<lambda>items w. (Inr items, w)))"

definition create_tenant :: "'w admin_world \<Rightarrow> time \<Rightarrow> http_request \<Rightarrow> TenantContext \<Rightarrow> meta \<Rightarrow> 'w \<Rightarrow> (meta, 'w) api_run" where
  "create_tenant X now rq ctx payload =
     guarded [''super_admin''] ctx (\<lambda>tenant w.
       with_repo (tenant_create (aw_tenants X) now payload w) (\<lambda>result w1.
         (Inr result,
          emit_admin X now
            (admin_event ''tenant.create'' ''tenant_create'' tenant (''tenant'', get_text X result ''tenant_id'') None (Some result) rq) w1)))"

definition get_tenant :: "'w admin_world \<Rightarrow> TenantContext \<Rightarrow> string \<Rightarrow> 'w \<Rightarrow> (meta, 'w) api_run" where
  "get_tenant X ctx tenant_id =
     guarded [''super_admin'', ''admin''] ctx (\<lambda>_ w. with_repo (tenant_get_by_id (aw_tenants X) tenant_id w) (\<lambda>d w. (Inr d, w)))"

text \<open>The snapshot before a write: the document, or nothing when reading it raised.\<close>

definition snapshot_before :: "('a, 'w) doc_run \<Rightarrow> 'a option" where
  "snapshot_before r = (case fst r of Inl _ \<Rightarrow> None | Inr d \<Rightarrow> Some d)"

definition update_tenant :: "'w admin_world \<Rightarrow> time \<Rightarrow> http_request \<Rightarrow> TenantContext \<Rightarrow> string \<Rightarrow> meta \<Rightarrow> 'w \<Rightarrow> (meta, 'w) api_run" where
  "update_tenant X now rq ctx tenant_id payload =
     guarded [''super_admin''] ctx (\<lambda>caller w.
       let before = snapshot_before (tenant_get_by_id (aw_tenants X) tenant_id w)
       in with_repo (tenant_update (aw_tenants X) now tenant_id payload w) (\<lambda>result w1.
            (Inr result,
             emit_admin X now (admin_event ''tenant.update'' ''tenant_update'' caller (''tenant'', tenant_id) before (Some result) rq) w1)))"

definition delete_tenant :: "'w admin_world \<Rightarrow> time \<Rightarrow> http_request \<Rightarrow> TenantContext \<Rightarrow> string \<Rightarrow> 'w \<Rightarrow> (unit, 'w) api_run" where
  "delete_tenant X now rq ctx tenant_id =
     guarded [''super_admin''] ctx (\<lambda>caller w.
       let before = snapshot_before (tenant_get_by_id (aw_tenants X) tenant_id w)
       in with_repo (tenant_delete (aw_tenants X) tenant_id w) (\<lambda>_ w1.
            (Inr (),
             emit_admin X now (admin_event ''tenant.delete'' ''tenant_delete'' caller (''tenant'', tenant_id) before None rq) w1)))"

subsection \<open>Policies\<close>

definition list_policies :: "'w admin_world \<Rightarrow> TenantContext \<Rightarrow> 'w \<Rightarrow> (meta list, 'w) api_run" where
  "list_policies X tenant w = with_repo (policy_list_by_tenant (aw_policies X) (aw_order X) (tn_tenant_id tenant) True w) (\<lambda>items w. (Inr items, w))"

definition create_policy :: "'w admin_world \<Rightarrow> string \<Rightarrow> time \<Rightarrow> TenantContext \<Rightarrow> meta \<Rightarrow> 'w \<Rightarrow> (meta, 'w) api_run" where
  "create_policy X new_id now ctx payload =
     guarded [''admin'', ''super_admin''] ctx (\<lambda>tenant w.
       with_repo (policy_create (aw_policies X) now
          (dict_set ''tenant_id'' (vstr (tn_tenant_id tenant)) (dict_set ''policy_id'' (vstr new_id) payload)) w) (\<lambda>d w. (Inr d, w)))"

definition get_policy :: "'w admin_world \<Rightarrow> TenantContext \<Rightarrow> string \<Rightarrow> 'w \<Rightarrow> (meta, 'w) api_run" where
  "get_policy X tenant policy_id w = with_repo (policy_get_by_id (aw_policies X) policy_id w) (\<lambda>d w. (Inr d, w))"

definition update_policy :: "'w admin_world \<Rightarrow> time \<Rightarrow> TenantContext \<Rightarrow> string \<Rightarrow> meta \<Rightarrow> 'w \<Rightarrow> (meta, 'w) api_run" where
  "update_policy X now ctx policy_id payload =
     guarded [''admin'', ''super_admin''] ctx (\<lambda>_ w. with_repo (policy_update (aw_policies X) now policy_id payload w) (\<lambda>d w. (Inr d, w)))"

definition delete_policy :: "'w admin_world \<Rightarrow> TenantContext \<Rightarrow> string \<Rightarrow> 'w \<Rightarrow> (unit, 'w) api_run" where
  "delete_policy X ctx policy_id =
     guarded [''admin'', ''super_admin''] ctx (\<lambda>_ w. with_repo (policy_delete (aw_policies X) policy_id w) (\<lambda>d w. (Inr d, w)))"

text \<open>The level named in the payload; what is not a level counts as \<open>G1\<close>.\<close>

definition level_of :: "meta \<Rightarrow> PolicyLevel" where
  "level_of payload =
     (case dict_get payload ''level'' of
        None \<Rightarrow> G1
      | Some v \<Rightarrow> (case find (\<lambda>l. v = vstr (PolicyLevel_value l)) [G1, G2, G3, G4, G5] of None \<Rightarrow> G1 | Some l \<Rightarrow> l))"

definition evaluate_policy :: "string \<Rightarrow> meta \<Rightarrow> meta option \<Rightarrow> meta \<Rightarrow> PolicyEvaluationResult" where
  "evaluate_policy action context auth_state payload = evaluate action (level_of payload) context auth_state"

subsection \<open>Connectors\<close>

definition list_connectors_api :: "'w admin_world \<Rightarrow> TenantContext \<Rightarrow> 'w \<Rightarrow> (meta list, 'w) api_run" where
  "list_connectors_api X tenant w =
     with_repo (connector_list_by_tenant (aw_connectors X) (aw_order X) (tn_tenant_id tenant) w) (\<lambda>items w. (Inr items, w))"

text \<open>
  The repository completes the payload in place; the document it returns has no \<open>_id\<close>, so the resource is named by the field \<open>id\<close>.
\<close>

definition create_connector :: "'w admin_world \<Rightarrow> string \<Rightarrow> time \<Rightarrow> http_request \<Rightarrow> TenantContext \<Rightarrow> meta \<Rightarrow> 'w \<Rightarrow> (meta, 'w) api_run" where
  "create_connector X new_id now rq ctx payload =
     guarded [''admin'', ''super_admin''] ctx (\<lambda>tenant w.
       with_repo (connector_create (aw_connectors X) new_id now (dict_set ''tenant_id'' (vstr (tn_tenant_id tenant)) payload) w) (\<lambda>doc w1.
         (Inr doc,
          emit_admin X now
            (admin_event ''connector.create'' ''connector_create'' tenant (''connector'', get_text X doc ''id'') None
              (Some [(''type'', case dict_get doc ''type'' of None \<Rightarrow> VNone | Some v \<Rightarrow> v),
                     (''enabled'', case dict_get doc ''enabled'' of None \<Rightarrow> VBool True | Some v \<Rightarrow> v)]) rq) w1)))"

definition get_connector_api :: "'w admin_world \<Rightarrow> TenantContext \<Rightarrow> string \<Rightarrow> 'w \<Rightarrow> (meta, 'w) api_run" where
  "get_connector_api X tenant connector_id w = with_repo (connector_get_by_id (aw_connectors X) connector_id w) (\<lambda>d w. (Inr d, w))"

definition update_connector :: "'w admin_world \<Rightarrow> time \<Rightarrow> http_request \<Rightarrow> TenantContext \<Rightarrow> string \<Rightarrow> meta \<Rightarrow> 'w \<Rightarrow> (meta, 'w) api_run" where
  "update_connector X now rq ctx connector_id payload =
     guarded [''admin'', ''super_admin''] ctx (\<lambda>tenant w.
       with_repo (connector_update (aw_connectors X) now connector_id payload w) (\<lambda>doc w1.
         (Inr doc,
          emit_admin X now
            (admin_event ''connector.update'' ''connector_update'' tenant (''connector'', connector_id) None
              (Some (filter (\<lambda>(k, v). k \<noteq> ''tenant_id'') (dict_set ''updated_at'' (stamp now) payload))) rq) w1)))"

definition delete_connector :: "'w admin_world \<Rightarrow> time \<Rightarrow> http_request \<Rightarrow> TenantContext \<Rightarrow> string \<Rightarrow> 'w \<Rightarrow> (unit, 'w) api_run" where
  "delete_connector X now rq ctx connector_id =
     guarded [''admin'', ''super_admin''] ctx (\<lambda>tenant w.
       with_repo (connector_delete (aw_connectors X) connector_id w) (\<lambda>_ w1.
         (Inr (),
          emit_admin X now
            (admin_event ''connector.delete'' ''connector_delete'' tenant (''connector'', connector_id) (Some [(''deleted'', VBool True)]) None rq) w1)))"

definition test_connector :: "'w admin_world \<Rightarrow> time \<Rightarrow> http_request \<Rightarrow> TenantContext \<Rightarrow> string \<Rightarrow> 'w \<Rightarrow> (meta, 'w) api_run" where
  "test_connector X now rq tenant connector_id w =
     with_repo (connector_get_by_id (aw_connectors X) connector_id w) (\<lambda>doc w1.
       (Inr [(''connector_id'', vstr connector_id), (''status'', vstr ''registered''),
             (''type'', case dict_get doc ''type'' of None \<Rightarrow> VNone | Some v \<Rightarrow> v),
             (''enabled'', case dict_get doc ''enabled'' of None \<Rightarrow> VNone | Some v \<Rightarrow> v),
             (''note'', vstr ''Full connectivity test requires runtime connector initialization'')],
        emit_admin X now (admin_event ''connector.test'' ''connector_test'' tenant (''connector'', connector_id) None None rq) w1))"

section \<open>The contract of a repository\<close>

lemma doc_rules:
  assumes "doc_laws D"
  shows "dd_docs D (dd_insert D d w) = dd_docs D w @ [dict_pop ''_id'' d]"
    and "dd_docs D (dd_update_one D P f w) = update_first P f (dd_docs D w)"
    and "dd_docs D (dd_delete_one D P w) = delete_first P (dd_docs D w)"
    and "(\<And>k. k \<in> fst ` set u \<Longrightarrow> plain_key k) \<Longrightarrow> dd_set D u x = dict_update x u"
  using assms unfolding doc_laws_def by blast+

lemma has_id_unique: "has_id key i d \<Longrightarrow> has_id key j d \<Longrightarrow> i = j"
  by (simp add: has_id_def vstr_inject)

lemma find_update_same: "find P xs \<noteq> None \<Longrightarrow> P d \<Longrightarrow> find P (update_first P (\<lambda>_. d) xs) = Some d"
  by (induction xs) auto

lemma find_update_other:
  "(\<And>x. x \<in> set xs \<Longrightarrow> P x \<Longrightarrow> \<not> Q x) \<Longrightarrow> \<not> Q d \<Longrightarrow> find Q (update_first P (\<lambda>_. d) xs) = find Q xs"
  by (induction xs) auto

lemma find_delete_other: "(\<And>x. x \<in> set xs \<Longrightarrow> P x \<Longrightarrow> \<not> Q x) \<Longrightarrow> find Q (delete_first P xs) = find Q xs"
  by (induction xs) auto

lemma find_other_id:
  assumes "j \<noteq> i"
  shows "find (has_id key j) (delete_first (has_id key i) xs) = find (has_id key j) xs"
    and "has_id key i d \<Longrightarrow> find (has_id key j) (update_first (has_id key i) (\<lambda>_. d) xs) = find (has_id key j) xs"
proof -
  have other: "\<not> has_id key j x" if "has_id key i x" for x using that has_id_unique assms by blast
  show "find (has_id key j) (delete_first (has_id key i) xs) = find (has_id key j) xs"
    by (rule find_delete_other) (rule other)
  show "find (has_id key j) (update_first (has_id key i) (\<lambda>_. d) xs) = find (has_id key j) xs" if "has_id key i d"
    by (rule find_update_other) (rule other, assumption, rule other [OF that])
qed

lemma find_delete_same: "length (filter P xs) \<le> 1 \<Longrightarrow> find P (delete_first P xs) = None"
proof (induction xs)
  case (Cons a xs)
  show ?case
  proof (cases "P a")
    case True
    with Cons.prems have "filter P xs = []" by simp
    then have "find P xs = None" unfolding find_None_iff filter_empty_conv by blast
    with True show ?thesis by simp
  qed (use Cons in simp)
qed simp

lemma update_first_const: "find P xs = Some x \<Longrightarrow> update_first P f xs = update_first P (\<lambda>_. f x) xs"
  by (induction xs) (auto split: if_splits)

text \<open>
  What the endpoints rely on, whatever the collection is: reading gives the first document with the identifier; writing touches that
  one document; a call that fails leaves everything as it was. The laws hold under the condition \<open>good\<close>.
\<close>

locale document_repository =
  fixes good :: bool
    and up :: "'w \<Rightarrow> bool"
    and docs :: "'w \<Rightarrow> meta list"
    and key :: string
    and create :: "time \<Rightarrow> meta \<Rightarrow> 'w \<Rightarrow> (meta, 'w) doc_run"
    and get :: "string \<Rightarrow> 'w \<Rightarrow> (meta, 'w) doc_run"
    and update :: "time \<Rightarrow> string \<Rightarrow> meta \<Rightarrow> 'w \<Rightarrow> (meta, 'w) doc_run"
    and delete :: "string \<Rightarrow> 'w \<Rightarrow> (unit, 'w) doc_run"
  assumes get_law: "get i w =
      (if \<not> up w then (Inl DbFailed, w)
       else (case find (has_id key i) (docs w) of None \<Rightarrow> (Inl (NotFound i), w) | Some d \<Rightarrow> (Inr d, w)))"
    and create_law: "good \<Longrightarrow> create now d w = (Inr d', w') \<Longrightarrow>
      docs w' = docs w @ [d'] \<and> (\<forall>i. has_id key i d \<longrightarrow> has_id key i d')"
    and update_law: "good \<Longrightarrow> update now i u w = (Inr d', w') \<Longrightarrow>
      find (has_id key i) (docs w) \<noteq> None \<and> docs w' = update_first (has_id key i) (\<lambda>_. d') (docs w) \<and>
      ((\<forall>k\<in>fst ` set u. plain_key k \<and> k \<noteq> key) \<longrightarrow> has_id key i d')"
    and delete_law: "good \<Longrightarrow> delete i w = (Inr x, w') \<Longrightarrow>
      find (has_id key i) (docs w) \<noteq> None \<and> docs w' = delete_first (has_id key i) (docs w)"
    and failures: "create now d w = (Inl e, w') \<Longrightarrow> w' = w" "update now i u w = (Inl e, w') \<Longrightarrow> w' = w" "delete i w = (Inl e, w') \<Longrightarrow> w' = w"
begin

lemma created_found:
  assumes "good" and "create now d w = (Inr d', w')" and "has_id key i d" and "find (has_id key i) (docs w) = None" and "up w'"
  shows "get i w' = (Inr d', w')"
  using create_law [OF assms(1,2)] assms by (simp add: get_law find_append)

lemma updated_found:
  assumes "good" and "update now i u w = (Inr d', w')" and "\<forall>k\<in>fst ` set u. plain_key k \<and> k \<noteq> key" and "up w'"
  shows "get i w' = (Inr d', w')"
  using update_law [OF assms(1,2)] assms(3,4) by (simp add: get_law find_update_same)

lemma deleted_gone:
  assumes "good" and "delete i w = (Inr x, w')" and "length (filter (has_id key i) (docs w)) \<le> 1" and "up w'"
  shows "get i w' = (Inl (NotFound i), w')"
  using delete_law [OF assms(1,2)] assms(3,4) by (simp add: get_law find_delete_same)

lemma others_kept:
  assumes "good" and "j \<noteq> i" and "up w" "up w'"
    and "delete i w = (Inr x, w') \<or> (\<exists>now u d'. update now i u w = (Inr d', w') \<and> (\<forall>k\<in>fst ` set u. plain_key k \<and> k \<noteq> key))"
  shows "fst (get j w') = fst (get j w)"
  using assms(5)
proof
  assume "delete i w = (Inr x, w')"
  then have "find (has_id key j) (docs w') = find (has_id key j) (docs w)"
    using delete_law [OF assms(1)] find_other_id(1) [OF assms(2)] by simp
  then show ?thesis using assms(3,4) by (simp add: get_law split: option.split)
next
  assume "\<exists>now u d'. update now i u w = (Inr d', w') \<and> (\<forall>k\<in>fst ` set u. plain_key k \<and> k \<noteq> key)"
  then obtain now u d' where u: "update now i u w = (Inr d', w')" "\<forall>k\<in>fst ` set u. plain_key k \<and> k \<noteq> key" by (elim exE conjE)
  have "docs w' = update_first (has_id key i) (\<lambda>_. d') (docs w)" "has_id key i d'"
    using update_law [OF assms(1) u(1)] u(2) by simp_all
  then have "find (has_id key j) (docs w') = find (has_id key j) (docs w)"
    using find_other_id(2) [OF assms(2)] by simp
  then show ?thesis using assms(3,4) by (simp add: get_law split: option.split)
qed

end

lemma get_doc_law: "get_doc key D i w =
    (if \<not> dd_ok D w then (Inl DbFailed, w)
     else (case find (has_id key i) (dd_docs D w) of None \<Rightarrow> (Inl (NotFound i), w) | Some d \<Rightarrow> (Inr d, w)))"
  by (simp add: get_doc_def)

lemma insert_doc_law:
  assumes "doc_laws D" and "insert_doc D d w = (Inr d', w')"
  shows "d' = dict_pop ''_id'' d" and "dd_docs D w' = dd_docs D w @ [d']"
  using assms by (auto simp: insert_doc_def doc_rules(1) split: if_splits)

lemma update_doc_law:
  assumes "doc_laws D" and "update_doc key D now i u w = (Inr d', w')" and "key \<noteq> ''updated_at''"
  shows "find (has_id key i) (dd_docs D w) \<noteq> None \<and> dd_docs D w' = update_first (has_id key i) (\<lambda>_. d') (dd_docs D w) \<and>
    ((\<forall>k\<in>fst ` set u. plain_key k \<and> k \<noteq> key) \<longrightarrow> has_id key i d')"
proof -
  let ?u = "dict_set ''updated_at'' (stamp now) u"
  obtain d where d: "find (has_id key i) (dd_docs D w) = Some d" "d' = dd_set D ?u d" "w' = dd_update_one D (has_id key i) (dd_set D ?u) w"
    using assms(2) by (auto simp: update_doc_def Let_def split: if_splits option.splits)
  have "has_id key i d'" if "\<forall>k\<in>fst ` set u. plain_key k \<and> k \<noteq> key"
  proof -
    have "plain_key k" if "k \<in> fst ` set ?u" for k
      using that \<open>\<forall>k\<in>fst ` set u. plain_key k \<and> k \<noteq> key\<close> unfolding dict_keys_set by (auto simp: plain_key_def)
    then have "d' = dict_update d ?u" using doc_rules(4) [OF assms(1)] d(2) by blast
    moreover have "map_of (rev ?u) key = None"
      using that assms(3) unfolding map_of_eq_None_iff set_rev dict_keys_set by blast
    ultimately show ?thesis using find_SomeD [OF d(1)] by (simp add: has_id_def dict_get_update_last)
  qed
  then show ?thesis using d update_first_const [OF d(1)] doc_rules(2) [OF assms(1)] by simp
qed

lemma delete_doc_law:
  assumes "doc_laws D" and "delete_doc key D i w = (Inr x, w')"
  shows "find (has_id key i) (dd_docs D w) \<noteq> None \<and> dd_docs D w' = delete_first (has_id key i) (dd_docs D w)"
  using assms by (auto simp: delete_doc_def doc_rules(3) split: if_splits)

lemma setdefault_get: "k' \<noteq> k \<Longrightarrow> dict_get (setdefault k v d) k' = dict_get d k'"
  by (simp add: setdefault_def)

lemma setdefault_keeps: "dict_get d k = Some x \<Longrightarrow> dict_get (setdefault k v d) k = Some x"
  by (simp add: setdefault_def)

lemma repo_failures:
  "insert_doc D d w = (Inl e, w') \<Longrightarrow> w' = w"
  "update_doc key D now i u w = (Inl e, w') \<Longrightarrow> w' = w"
  "delete_doc key D i w = (Inl e, w') \<Longrightarrow> w' = w"
  by (auto simp: insert_doc_def update_doc_def delete_doc_def Let_def split: if_splits option.splits)

interpretation trepo: document_repository "doc_laws D" "dd_ok D" "dd_docs D" "''tenant_id''"
  "tenant_create D" "tenant_get_by_id D" "tenant_update D" "tenant_delete D" for D :: "'w doc_db"
proof unfold_locales
  fix now d w d' w'
  assume "doc_laws D" "tenant_create D now d w = (Inr d', w')"
  then show "dd_docs D w' = dd_docs D w @ [d'] \<and> (\<forall>i. has_id ''tenant_id'' i d \<longrightarrow> has_id ''tenant_id'' i d')"
    using insert_doc_law [of D] by (fastforce simp: tenant_create_def has_id_def setdefault_get)
qed (auto simp: tenant_create_def tenant_get_by_id_def tenant_update_def tenant_delete_def get_doc_law
      dest: update_doc_law delete_doc_law repo_failures)

interpretation prepo: document_repository "doc_laws D" "dd_ok D" "dd_docs D" "''policy_id''"
  "policy_create D" "policy_get_by_id D" "policy_update D" "policy_delete D" for D :: "'w doc_db"
proof unfold_locales
  fix now d w d' w'
  assume "doc_laws D" "policy_create D now d w = (Inr d', w')"
  then show "dd_docs D w' = dd_docs D w @ [d'] \<and> (\<forall>i. has_id ''policy_id'' i d \<longrightarrow> has_id ''policy_id'' i d')"
    using insert_doc_law [of D] by (fastforce simp: policy_create_def has_id_def setdefault_get)
qed (auto simp: policy_create_def policy_get_by_id_def policy_update_def policy_delete_def get_doc_law
      dest: update_doc_law delete_doc_law repo_failures)

interpretation crepo: document_repository "doc_laws D" "dd_ok D" "dd_docs D" "''connector_id''"
  "connector_create D new_id" "connector_get_by_id D" "connector_update D" "connector_delete D" for D :: "'w doc_db" and new_id
proof unfold_locales
  fix now d w d' w'
  assume "doc_laws D" "connector_create D new_id now d w = (Inr d', w')"
  then show "dd_docs D w' = dd_docs D w @ [d'] \<and> (\<forall>i. has_id ''connector_id'' i d \<longrightarrow> has_id ''connector_id'' i d')"
    using insert_doc_law [of D] by (fastforce simp: connector_create_def has_id_def setdefault_get setdefault_keeps)
qed (auto simp: connector_create_def connector_get_by_id_def connector_update_def connector_delete_def get_doc_law
      dest: update_doc_law delete_doc_law repo_failures)

section \<open>Lemmas on the endpoints\<close>

text \<open>The collections keep their laws and are apart from each other and from the audit trail.\<close>

definition admin_laws :: "'w admin_world \<Rightarrow> bool" where
  "admin_laws X \<longleftrightarrow>
     audit_laws (aw_audit X) \<and> (\<forall>xs. set (aw_order X xs) = set xs) \<and> (\<forall>s. aw_text X (vstr s) = s) \<and>
     (\<forall>D\<in>{aw_tenants X, aw_policies X, aw_connectors X}.
        doc_laws D \<and>
        (\<forall>e w. dd_docs D (ad_insert (aw_audit X) e w) = dd_docs D w) \<and>
        (\<forall>c p w. dd_docs D (ad_publish (aw_audit X) c p w) = dd_docs D w) \<and>
        (\<forall>d w. ad_events (aw_audit X) (dd_insert D d w) = ad_events (aw_audit X) w) \<and>
        (\<forall>P f w. ad_events (aw_audit X) (dd_update_one D P f w) = ad_events (aw_audit X) w) \<and>
        (\<forall>P w. ad_events (aw_audit X) (dd_delete_one D P w) = ad_events (aw_audit X) w))"

definition admin_up :: "'w admin_world \<Rightarrow> bool" where
  "admin_up X \<longleftrightarrow> (\<forall>w. ad_mongo_ok (aw_audit X) w \<and> dd_ok (aw_tenants X) w \<and> dd_ok (aw_policies X) w \<and> dd_ok (aw_connectors X) w)"

lemma emit_docs:
  assumes "admin_laws X" and "D \<in> {aw_tenants X, aw_policies X, aw_connectors X}"
  shows "dd_docs D (emit_admin X now ev w) = dd_docs D w"
  using assms by (auto simp: emit_admin_def audit_emit_def audit_log_def admin_laws_def Let_def split: prod.splits)

lemma emit_admin_events:
  assumes "admin_laws X" and "admin_up X"
  shows "ad_events (aw_audit X) (emit_admin X now ev w) = ad_events (aw_audit X) w @ [audit_entry now (emit_args (aw_envs X) ev)]"
  using assms emit_events [of "aw_audit X" "aw_envs X" now ev w] by (simp add: emit_admin_def admin_laws_def admin_up_def)

lemma repo_events:
  assumes "admin_laws X" and "D \<in> {aw_tenants X, aw_policies X, aw_connectors X}"
  shows "insert_doc D d w = (r, w') \<Longrightarrow> ad_events (aw_audit X) w' = ad_events (aw_audit X) w"
    and "update_doc key D now i u w = (r, w') \<Longrightarrow> ad_events (aw_audit X) w' = ad_events (aw_audit X) w"
    and "delete_doc key D i w = (r', w') \<Longrightarrow> ad_events (aw_audit X) w' = ad_events (aw_audit X) w"
  using assms unfolding admin_laws_def
  by (auto simp: insert_doc_def update_doc_def delete_doc_def Let_def split: if_splits option.splits)

lemma api_cases:
  "guarded roles ctx f w = (Inr x, w') \<longleftrightarrow> set roles \<inter> set (tn_roles ctx) \<noteq> {} \<and> f ctx w = (Inr x, w')"
  "with_repo m g = (Inr x, w') \<longleftrightarrow> (\<exists>d w1. m = (Inr d, w1) \<and> g d w1 = (Inr x, w'))"
  by (auto simp: guarded_def require_roles_def list_ex_iff with_repo_def split: prod.splits sum.splits)

lemma api_failures:
  "guarded roles ctx f w = (Inl e, w') \<Longrightarrow> w' = w \<or> f ctx w = (Inl e, w')"
  "with_repo m (\<lambda>d w1. (Inr (g d), h d w1)) = (Inl e, w') \<Longrightarrow> \<exists>e'. m = (Inl e', w')"
  by (auto simp: guarded_def require_roles_def with_repo_def split: prod.splits sum.splits if_splits)

lemma admin_entry:
  "dict_get (au_metadata (audit_entry now (emit_args envs (admin_event a et tenant (rt, ri) b f rq)))) ''before'' = map_option VDict b"
  "dict_get (au_metadata (audit_entry now (emit_args envs (admin_event a et tenant (rt, ri) b f rq)))) ''after'' = map_option VDict f"
  "dict_get (au_metadata (audit_entry now (emit_args envs (admin_event a et tenant (rt, ri) b f rq)))) ''resource_id'' = Some (vstr ri)"
  "dict_get (au_metadata (audit_entry now (emit_args envs (admin_event a et tenant (rt, ri) b f rq)))) ''actor_client_id'' = Some (vstr (tn_client_id tenant))"
  "dict_get (au_metadata (audit_entry now (emit_args envs (admin_event a et tenant (rt, ri) b f rq)))) ''action'' = Some (vstr a)"
  by (simp_all add: audit_entry_def audit_metadata_def emit_args_def admin_event_def opt_entry_get map_add_def Let_def split: option.split)

text \<open>The three calls that change tenants, with the document they leave, if any.\<close>

datatype tenant_op = TCreate meta | TUpdate string meta | TDelete string

fun tenant_call :: "'w admin_world \<Rightarrow> time \<Rightarrow> http_request \<Rightarrow> TenantContext \<Rightarrow> tenant_op \<Rightarrow> 'w \<Rightarrow> (meta option, 'w) api_run" where
  "tenant_call X now rq ctx (TCreate d) w = apfst (map_sum id Some) (create_tenant X now rq ctx d w)"
| "tenant_call X now rq ctx (TUpdate i u) w = apfst (map_sum id Some) (update_tenant X now rq ctx i u w)"
| "tenant_call X now rq ctx (TDelete i) w = apfst (map_sum id (\<lambda>_. None)) (delete_tenant X now rq ctx i w)"

fun call_action :: "tenant_op \<Rightarrow> string" where
  "call_action (TCreate d) = ''tenant.create''"
| "call_action (TUpdate i u) = ''tenant.update''"
| "call_action (TDelete i) = ''tenant.delete''"

fun call_resource :: "'w admin_world \<Rightarrow> tenant_op \<Rightarrow> meta \<Rightarrow> string" where
  "call_resource X (TCreate d) result = get_text X result ''tenant_id''"
| "call_resource X (TUpdate i u) result = i"
| "call_resource X (TDelete i) result = i"

fun call_before :: "'w admin_world \<Rightarrow> tenant_op \<Rightarrow> 'w \<Rightarrow> meta option" where
  "call_before X (TCreate d) w = None"
| "call_before X (TUpdate i u) w = find (has_id ''tenant_id'' i) (dd_docs (aw_tenants X) w)"
| "call_before X (TDelete i) w = find (has_id ''tenant_id'' i) (dd_docs (aw_tenants X) w)"

section \<open>An in-memory world\<close>

record mem_admin =
  ma_tenants :: "meta list"
  ma_policies :: "meta list"
  ma_connectors :: "meta list"
  ma_events :: "audit_doc list"
  ma_published :: "(string \<times> audit_payload) list"

definition mem_docs :: "('w \<Rightarrow> meta list) \<Rightarrow> ((meta list \<Rightarrow> meta list) \<Rightarrow> 'w \<Rightarrow> 'w) \<Rightarrow> 'w doc_db" where
  "mem_docs sel upd =
     \<lparr>dd_ok = (\<lambda>_. True), dd_docs = sel, dd_accepts = (\<lambda>_ _. True), dd_set = (\<lambda>u d. dict_update d u),
      dd_insert = (\<lambda>d. upd (\<lambda>ds. ds @ [dict_pop ''_id'' d])), dd_update_one = (\<lambda>P f. upd (update_first P f)),
      dd_delete_one = (\<lambda>P. upd (delete_first P))\<rparr>"

definition ascii_text :: "pyval \<Rightarrow> string" where
  "ascii_text v = (case v of VStr s \<Rightarrow> map char_of s | _ \<Rightarrow> [])"

definition mem_admin_world :: "'a mem_admin_scheme admin_world" where
  "mem_admin_world =
     \<lparr>aw_tenants = mem_docs ma_tenants ma_tenants_update, aw_policies = mem_docs ma_policies ma_policies_update,
      aw_connectors = mem_docs ma_connectors ma_connectors_update, aw_order = id,
      aw_audit = \<lparr>ad_mongo_ok = (\<lambda>_. True), ad_events = ma_events, ad_insert = (\<lambda>d. ma_events_update (\<lambda>es. es @ [d])),
                  ad_redis_ready = (\<lambda>_. True), ad_publish_ok = (\<lambda>_. True),
                  ad_publish = (\<lambda>c p. ma_published_update (\<lambda>ps. ps @ [(c, p)])), ad_published = ma_published\<rparr>,
      aw_envs = [], aw_text = ascii_text\<rparr>"

lemma ascii_text_vstr: "ascii_text (vstr s) = s"
  by (simp add: ascii_text_def vstr_def of_str_def comp_def)

lemma mem_admin_laws: "admin_laws mem_admin_world" "admin_up mem_admin_world"
  by (simp_all add: admin_laws_def admin_up_def mem_admin_world_def mem_docs_def doc_laws_def audit_laws_def ascii_text_vstr)

definition demo_ctx :: "string \<Rightarrow> string list \<Rightarrow> TenantContext" where
  "demo_ctx t rs = \<lparr>tn_tenant_id = t, tn_client_id = ''ops'', tn_roles = rs, tn_issuer = ''agentoe-api''\<rparr>"

definition plain_rq :: http_request where
  "plain_rq = \<lparr>rq_method = ''POST'', rq_path = ''/'', rq_header = (\<lambda>_. None), rq_query = (\<lambda>_. None), rq_client = None, rq_body = []\<rparr>"

definition demo_connector :: meta where
  "demo_connector = [(''connector_id'', vstr ''c1''), (''tenant_id'', vstr ''acme''), (''api_key'', vstr ''secret'')]"

definition demo_admin :: mem_admin where
  "demo_admin = \<lparr>ma_tenants = [[(''tenant_id'', vstr ''acme'')]], ma_policies = [], ma_connectors = [demo_connector], ma_events = [], ma_published = []\<rparr>"

section \<open>Properties\<close>

text \<open>
  C35. Connectors are not kept apart by tenant. The list shows a tenant its own connectors only. By its identifier any caller reads any
  connector, with its credentials; an administrator of any tenant deletes it, or makes it his own by updating its tenant, after which
  it is in his list with everything else unchanged and, if the identifier was unique, the owner has none of that name.
\<close>

theorem connectors_open_to_all:
  assumes laws: "admin_laws X" "admin_up X"
    and d: "find (has_id ''connector_id'' i) (dd_docs (aw_connectors X) w) = Some d"
    and admin: "''admin'' \<in> set (tn_roles ctx)"
    and accepted: "dd_accepts (aw_connectors X) (dict_set ''updated_at'' (stamp now) [(''tenant_id'', vstr (tn_tenant_id ctx))]) w"
  shows "(\<forall>any. get_connector_api X any i w = (Inr d, w)) \<and>
    (\<forall>any items. fst (list_connectors_api X any w) = Inr items \<longrightarrow> (\<forall>e\<in>set items. has_id ''tenant_id'' (tn_tenant_id any) e)) \<and>
    (\<exists>w'. delete_connector X now rq ctx i w = (Inr (), w') \<and>
       dd_docs (aw_connectors X) w' = delete_first (has_id ''connector_id'' i) (dd_docs (aw_connectors X) w)) \<and>
    (\<exists>d' w'. update_connector X now rq ctx i [(''tenant_id'', vstr (tn_tenant_id ctx))] w = (Inr d', w') \<and>
       d' \<in> set (dd_docs (aw_connectors X) w') \<and> has_id ''connector_id'' i d' \<and> has_id ''tenant_id'' (tn_tenant_id ctx) d' \<and>
       (\<forall>k. k \<notin> {''tenant_id'', ''updated_at''} \<longrightarrow> dict_get d' k = dict_get d k) \<and>
       (length (filter (has_id ''connector_id'' i) (dd_docs (aw_connectors X) w)) = 1 \<longrightarrow>
          (\<forall>e\<in>set (dd_docs (aw_connectors X) w'). has_id ''connector_id'' i e \<longrightarrow> has_id ''tenant_id'' (tn_tenant_id ctx) e)))"
proof (intro conjI)
  let ?D = "aw_connectors X" and ?u = "[(''tenant_id'', vstr (tn_tenant_id ctx))]"
  have dl: "doc_laws ?D" and up: "dd_ok ?D w" and ord: "\<And>xs. set (aw_order X xs) = set xs"
    using laws by (auto simp: admin_laws_def admin_up_def)
  note emit = emit_docs [OF laws(1), of ?D]
  show "\<forall>any. get_connector_api X any i w = (Inr d, w)"
    by (simp add: get_connector_api_def crepo.get_law up d with_repo_def)
  show "\<forall>any items. fst (list_connectors_api X any w) = Inr items \<longrightarrow> (\<forall>e\<in>set items. has_id ''tenant_id'' (tn_tenant_id any) e)"
    using up ord by (auto simp: list_connectors_api_def connector_list_by_tenant_def list_docs_def with_repo_def dest!: in_set_takeD)
  show "\<exists>w'. delete_connector X now rq ctx i w = (Inr (), w') \<and>
       dd_docs ?D w' = delete_first (has_id ''connector_id'' i) (dd_docs ?D w)"
    using admin d up emit
    by (simp add: delete_connector_def guarded_def require_roles_def connector_delete_def delete_doc_def with_repo_def doc_rules(3) [OF dl])
  let ?u' = "dict_set ''updated_at'' (stamp now) ?u"
  define d' where "d' = dd_set ?D ?u' d"
  have run: "connector_update ?D now i ?u w = (Inr d', dd_update_one ?D (has_id ''connector_id'' i) (dd_set ?D ?u') w)"
    using up accepted d by (simp add: d'_def connector_update_def update_doc_def Let_def)
  have get: "dict_get d' k = (if k = ''tenant_id'' then Some (vstr (tn_tenant_id ctx)) else if k = ''updated_at'' then Some (stamp now) else dict_get d k)" for k
  proof -
    have "d' = dict_update d ?u'" unfolding d'_def by (rule doc_rules(4) [OF dl]) (auto simp: plain_key_def)
    then show ?thesis by (simp add: dict_update_def)
  qed
  define w' where "w' = snd (update_connector X now rq ctx i ?u w)"
  have upd: "update_connector X now rq ctx i ?u w = (Inr d', w')"
    using admin run by (simp add: w'_def update_connector_def guarded_def require_roles_def with_repo_def)
  have docs: "dd_docs ?D w' = update_first (has_id ''connector_id'' i) (\<lambda>_. d') (dd_docs ?D w)"
    using admin run emit update_first_const [OF d, of "dd_set ?D ?u'", folded d'_def]
    by (simp add: w'_def update_connector_def guarded_def require_roles_def with_repo_def doc_rules(2) [OF dl])
  obtain us vs where split: "dd_docs ?D w = us @ d # vs" "has_id ''connector_id'' i d" "dd_docs ?D w' = us @ d' # vs"
    using update_first_find [OF d, of "\<lambda>_. d'"] docs by auto
  have "has_id ''tenant_id'' (tn_tenant_id ctx) e"
    if "length (filter (has_id ''connector_id'' i) (dd_docs ?D w)) = 1" "e \<in> set (dd_docs ?D w')" "has_id ''connector_id'' i e" for e
  proof -
    have "filter (has_id ''connector_id'' i) us = []" "filter (has_id ''connector_id'' i) vs = []" using that(1) split(1,2) by simp_all
    then have "e = d'" using that(2,3) split(3) by (auto simp: filter_empty_conv)
    then show ?thesis by (simp add: has_id_def get)
  qed
  then show "\<exists>d' w'. update_connector X now rq ctx i ?u w = (Inr d', w') \<and>
       d' \<in> set (dd_docs ?D w') \<and> has_id ''connector_id'' i d' \<and> has_id ''tenant_id'' (tn_tenant_id ctx) d' \<and>
       (\<forall>k. k \<notin> {''tenant_id'', ''updated_at''} \<longrightarrow> dict_get d' k = dict_get d k) \<and>
       (length (filter (has_id ''connector_id'' i) (dd_docs ?D w)) = 1 \<longrightarrow>
          (\<forall>e\<in>set (dd_docs ?D w'). has_id ''connector_id'' i e \<longrightarrow> has_id ''tenant_id'' (tn_tenant_id ctx) e))"
    using upd split get by (intro exI [of _ d'] exI [of _ w']) (auto simp: has_id_def)
qed

theorem connectors_open_to_all_witness:
  "\<exists>d' w'. update_connector mem_admin_world 5 plain_rq (demo_ctx ''rival'' [''admin'']) ''c1'' [(''tenant_id'', vstr ''rival'')] demo_admin = (Inr d', w') \<and>
     dict_get d' ''api_key'' = Some (vstr ''secret'') \<and> has_id ''tenant_id'' ''rival'' d'"
proof -
  have "find (has_id ''connector_id'' ''c1'') (dd_docs (aw_connectors mem_admin_world) demo_admin) = Some demo_connector"
    by (simp add: mem_admin_world_def mem_docs_def demo_admin_def demo_connector_def has_id_def)
  moreover have "''admin'' \<in> set (tn_roles (demo_ctx ''rival'' [''admin'']))" "tn_tenant_id (demo_ctx ''rival'' [''admin'']) = ''rival''"
    by (simp_all add: demo_ctx_def)
  moreover have "dd_accepts (aw_connectors mem_admin_world) d demo_admin" for d by (simp add: mem_admin_world_def mem_docs_def)
  ultimately obtain d' w' where
    run: "update_connector mem_admin_world 5 plain_rq (demo_ctx ''rival'' [''admin'']) ''c1'' [(''tenant_id'', vstr ''rival'')] demo_admin = (Inr d', w')"
    and d': "has_id ''tenant_id'' ''rival'' d'" "\<forall>k. k \<notin> {''tenant_id'', ''updated_at''} \<longrightarrow> dict_get d' k = dict_get demo_connector k"
    using connectors_open_to_all [OF mem_admin_laws, of "''c1''" demo_admin demo_connector "demo_ctx ''rival'' [''admin'']" 5 plain_rq,
        THEN conjunct2, THEN conjunct2, THEN conjunct2] by (elim meta_impE exE conjE) auto
  have "dict_get d' ''api_key'' = Some (vstr ''secret'')" using d'(2) [rule_format, of "''api_key''"] by (simp add: demo_connector_def)
  with run d'(1) show ?thesis by blast
qed

text \<open>
  Changes of tenants are made by super administrators and recorded. Creating, updating and deleting a tenant succeeds only for a caller with
  that role, and then appends one entry to the audit trail that names the caller, the tenant, the document before, if it
  could be read, and the document after. A call that fails changes neither the tenants nor the trail.
\<close>

theorem tenant_changes_recorded:
  assumes laws: "admin_laws X" "admin_up X" and run: "tenant_call X now rq ctx c w = (r, w')"
  shows "case r of
      Inl e \<Rightarrow> w' = w
    | Inr after \<Rightarrow> ''super_admin'' \<in> set (tn_roles ctx) \<and>
        (\<exists>e. ad_events (aw_audit X) w' = ad_events (aw_audit X) w @ [e] \<and>
           dict_get (au_metadata e) ''action'' = Some (vstr (call_action c)) \<and>
           dict_get (au_metadata e) ''actor_client_id'' = Some (vstr (tn_client_id ctx)) \<and>
           dict_get (au_metadata e) ''resource_id'' = Some (vstr (case after of Some d \<Rightarrow> call_resource X c d | None \<Rightarrow> call_resource X c [])) \<and>
           dict_get (au_metadata e) ''before'' = map_option VDict (call_before X c w) \<and>
           dict_get (au_metadata e) ''after'' = map_option VDict after)"
proof -
  note defs = create_tenant_def update_tenant_def delete_tenant_def tenant_create_def tenant_update_def tenant_delete_def
  have D: "aw_tenants X \<in> {aw_tenants X, aw_policies X, aw_connectors X}" and up: "dd_ok (aw_tenants X) w"
    using laws(2) by (auto simp: admin_up_def)
  note events = repo_events [OF laws(1) D] and emit = emit_admin_events [OF laws]
  have before: "snapshot_before (tenant_get_by_id (aw_tenants X) i w) = find (has_id ''tenant_id'' i) (dd_docs (aw_tenants X) w)" for i
    using up by (simp add: snapshot_before_def trepo.get_law split: option.split)
  show ?thesis
  proof (cases r)
    case (Inl e)
    with run have "w' = w"
      by (cases c) (auto simp: defs map_sum_def apfst_def map_prod_def Let_def split: sum.splits prod.splits dest!: api_failures dest: repo_failures)
    with Inl show ?thesis by simp
  next
    case (Inr after)
    with run show ?thesis
      by (cases c) (auto simp: defs map_sum_def apfst_def map_prod_def Let_def api_cases emit admin_entry before
          split: sum.splits prod.splits dest: events)
  qed
qed

theorem tenant_changes_recorded_witness:
  "\<exists>d w' e. tenant_call mem_admin_world 5 plain_rq (demo_ctx ''platform'' [''super_admin'']) (TUpdate ''acme'' [(''plan'', vstr ''gold'')]) demo_admin = (Inr (Some d), w') \<and>
     ma_events w' = [e] \<and> dict_get (au_metadata e) ''before'' = Some (VDict [(''tenant_id'', vstr ''acme'')])"
proof -
  let ?l = "tenant_call mem_admin_world 5 plain_rq (demo_ctx ''platform'' [''super_admin'']) (TUpdate ''acme'' [(''plan'', vstr ''gold'')]) demo_admin"
  have "\<exists>d. fst ?l = Inr (Some d)"
    by (simp add: update_tenant_def guarded_def require_roles_def demo_ctx_def with_repo_def tenant_update_def update_doc_def
        mem_admin_world_def mem_docs_def demo_admin_def has_id_def Let_def)
  then obtain d w' where run: "?l = (Inr (Some d), w')" by (metis prod.collapse)
  with tenant_changes_recorded [OF mem_admin_laws run] show ?thesis
    by (auto simp: mem_admin_world_def mem_docs_def demo_admin_def has_id_def)
qed

text \<open>
  The trail does not say which connector was created. The entry for a new connector carries, as the identifier of its resource, the field
  \<open>id\<close> of the document, which the repository never sets: unless the client sent such a field the entry names no connector, although
  the document returned has an identifier.
\<close>

theorem connector_creation_unnamed:
  assumes laws: "admin_laws X" "admin_up X" and run: "create_connector X new_id now rq ctx payload w = (Inr d, w')"
    and no_id: "dict_get payload ''id'' = None"
  shows "dict_get d ''connector_id'' \<noteq> None \<and>
    (\<exists>e. ad_events (aw_audit X) w' = ad_events (aw_audit X) w @ [e] \<and> dict_get (au_metadata e) ''resource_id'' = Some (vstr []))"
proof -
  let ?D = "aw_connectors X"
  let ?p = "dict_set ''tenant_id'' (vstr (tn_tenant_id ctx)) payload"
  obtain w1 ev where made: "connector_create ?D new_id now ?p w = (Inr d, w1)"
    and w': "w' = emit_admin X now (admin_event ''connector.create'' ''connector_create'' ctx (''connector'', get_text X d ''id'') None (Some ev) rq) w1"
    using run by (auto simp: create_connector_def api_cases)
  have dl: "doc_laws ?D" using laws(1) by (simp add: admin_laws_def)
  have "ad_events (aw_audit X) w1 = ad_events (aw_audit X) w"
    using repo_events(1) [OF laws(1)] made unfolding connector_create_def by blast
  moreover have "get_text X d ''id'' = []" "dict_get d ''connector_id'' \<noteq> None"
    using insert_doc_law(1) [OF dl made [unfolded connector_create_def]] no_id
    by (simp_all add: get_text_def setdefault_get) (simp_all add: setdefault_def)
  ultimately show ?thesis unfolding w' by (simp add: emit_admin_events [OF laws] admin_entry)
qed

theorem connector_creation_unnamed_witness:
  "\<exists>d w' e. create_connector mem_admin_world ''conn_1'' 5 plain_rq (demo_ctx ''acme'' [''admin'']) [(''type'', vstr ''crm'')] demo_admin = (Inr d, w') \<and>
     ma_events w' = [e] \<and> dict_get (au_metadata e) ''resource_id'' = Some (vstr [])"
proof -
  obtain d w' where run: "create_connector mem_admin_world ''conn_1'' 5 plain_rq (demo_ctx ''acme'' [''admin'']) [(''type'', vstr ''crm'')] demo_admin = (Inr d, w')"
    by (simp add: create_connector_def guarded_def require_roles_def demo_ctx_def with_repo_def connector_create_def insert_doc_def
        mem_admin_world_def mem_docs_def)
  with connector_creation_unnamed [OF mem_admin_laws run] show ?thesis by (auto simp: mem_admin_world_def demo_admin_def)
qed

text \<open>
  The life of a policy. A policy that was created under a fresh identifier is read back as returned, with the caller's tenant and that
  identifier; an update that does not touch the identifier is read back too and leaves every other policy alone; after a deletion the policy is
  not found. A payload that names no level, or one that does not exist, is evaluated at level G1, which always passes.
\<close>

theorem policy_lifecycle:
  assumes laws: "admin_laws X" "admin_up X"
    and new: "find (has_id ''policy_id'' i) (dd_docs (aw_policies X) w) = None"
    and create: "create_policy X i now ctx payload w = (Inr d, w1)"
    and update: "update_policy X now' ctx' i u w1 = (Inr d', w2)" and keys: "\<forall>k\<in>fst ` set u. plain_key k \<and> k \<noteq> ''policy_id''"
    and delete: "delete_policy X ctx'' i w2 = (Inr x, w3)"
  shows "get_policy X any i w1 = (Inr d, w1) \<and> has_id ''policy_id'' i d \<and> has_id ''tenant_id'' (tn_tenant_id ctx) d \<and>
    get_policy X any i w2 = (Inr d', w2) \<and> get_policy X any i w3 = (Inl (ApiRepo (NotFound i)), w3) \<and>
    (\<forall>j. j \<noteq> i \<longrightarrow> fst (get_policy X any j w3) = fst (get_policy X any j w)) \<and>
    (\<forall>p. (\<forall>l. dict_get p ''level'' \<noteq> Some (vstr (PolicyLevel_value l))) \<longrightarrow> pe_allowed (evaluate_policy act cx au p))"
proof -
  let ?P = "aw_policies X" and ?id = "has_id ''policy_id'' i"
  have dl: "doc_laws ?P" and up: "\<And>w. dd_ok ?P w" using laws by (auto simp: admin_laws_def admin_up_def)
  have get: "get_policy X any j v = (map_sum ApiRepo id (fst (policy_get_by_id ?P j v)), v)" for j v
    by (auto simp: get_policy_def with_repo_def prepo.get_law up split: option.split)
  let ?p = "dict_set ''tenant_id'' (vstr (tn_tenant_id ctx)) (dict_set ''policy_id'' (vstr i) payload)"
  have c: "policy_create ?P now ?p w = (Inr d, w1)" using create by (auto simp: create_policy_def api_cases)
  have u: "policy_update ?P now' i u w1 = (Inr d', w2)" using update by (auto simp: update_policy_def api_cases)
  have x: "policy_delete ?P i w2 = (Inr x, w3)" using delete by (auto simp: delete_policy_def api_cases)
  have d: "dd_docs ?P w1 = dd_docs ?P w @ [d]" "?id d" "has_id ''tenant_id'' (tn_tenant_id ctx) d"
    using prepo.create_law [OF dl c] insert_doc_law(1) [OF dl c [unfolded policy_create_def]]
    by (simp_all add: has_id_def setdefault_get)
  have none: "filter ?id (dd_docs ?P w) = []" using new by (simp add: find_None_iff filter_empty_conv)
  have w2: "dd_docs ?P w2 = dd_docs ?P w @ [d']" "?id d'"
  proof -
    have "update_first ?id (\<lambda>_. d') (xs @ [d]) = xs @ [d']" if "filter ?id xs = []" for xs
      using that d(2) by (induction xs) (auto split: if_splits)
    with none d(1) prepo.update_law [OF dl u] keys show "dd_docs ?P w2 = dd_docs ?P w @ [d']" "?id d'" by simp_all
  qed
  have "get_policy X any i w1 = (Inr d, w1)" using prepo.created_found [OF dl c _ new up] by (simp add: get has_id_def)
  moreover have "get_policy X any i w2 = (Inr d', w2)" using prepo.updated_found [OF dl u keys up] by (simp add: get)
  moreover have "get_policy X any i w3 = (Inl (ApiRepo (NotFound i)), w3)"
    using prepo.deleted_gone [OF dl x _ up] none w2 by (simp add: get)
  moreover have "fst (get_policy X any j w3) = fst (get_policy X any j w)" if "j \<noteq> i" for j
  proof -
    have "\<not> has_id ''policy_id'' j d" using d(2) that has_id_unique by blast
    then have "fst (policy_get_by_id ?P j w1) = fst (policy_get_by_id ?P j w)"
      by (simp add: prepo.get_law up d(1) find_append split: option.split)
    moreover have "fst (policy_get_by_id ?P j w2) = fst (policy_get_by_id ?P j w1)"
      using prepo.others_kept [OF dl that up up] u keys by blast
    moreover have "fst (policy_get_by_id ?P j w3) = fst (policy_get_by_id ?P j w2)"
      using prepo.others_kept [OF dl that up up] x by blast
    ultimately show ?thesis by (simp add: get)
  qed
  moreover have "pe_allowed (evaluate_policy act cx au p)" if "\<forall>l. dict_get p ''level'' \<noteq> Some (vstr (PolicyLevel_value l))" for p
  proof -
    have "find (\<lambda>l. v = vstr (PolicyLevel_value l)) [G1, G2, G3, G4, G5] = None" if "dict_get p ''level'' = Some v" for v
      using that \<open>\<forall>l. dict_get p ''level'' \<noteq> Some (vstr (PolicyLevel_value l))\<close> by (auto simp: find_None_iff)
    then have "level_of p = G1" by (cases "dict_get p ''level''") (simp_all add: level_of_def)
    then show ?thesis by (simp add: evaluate_policy_def handle_g1_def)
  qed
  ultimately show ?thesis using d(2,3) by blast
qed

theorem policy_lifecycle_witness:
  "fst (get_policy mem_admin_world (demo_ctx ''acme'' []) ''p1''
     (snd (delete_policy mem_admin_world (demo_ctx ''acme'' [''admin'']) ''p1''
       (snd (update_policy mem_admin_world 6 (demo_ctx ''acme'' [''admin'']) ''p1'' [(''level'', vstr ''G3'')]
         (snd (create_policy mem_admin_world ''p1'' 5 (demo_ctx ''acme'' [''admin'']) [] demo_admin)))))))
   = Inl (ApiRepo (NotFound ''p1''))"
proof -
  let ?X = mem_admin_world and ?c = "demo_ctx ''acme'' [''admin'']"
  define w1 where "w1 = snd (create_policy ?X ''p1'' 5 ?c [] demo_admin)"
  define w2 where "w2 = snd (update_policy ?X 6 ?c ''p1'' [(''level'', vstr ''G3'')] w1)"
  define w3 where "w3 = snd (delete_policy ?X ?c ''p1'' w2)"
  note defs = create_policy_def update_policy_def delete_policy_def guarded_def require_roles_def demo_ctx_def with_repo_def
    policy_create_def policy_update_def policy_delete_def insert_doc_def update_doc_def delete_doc_def mem_admin_world_def mem_docs_def
    demo_admin_def has_id_def setdefault_def dict_update_def dict_pop_def Let_def
  obtain d where c: "create_policy ?X ''p1'' 5 ?c [] demo_admin = (Inr d, w1)" by (simp add: w1_def defs)
  obtain d' where u: "update_policy ?X 6 ?c ''p1'' [(''level'', vstr ''G3'')] w1 = (Inr d', w2)" by (simp add: w1_def w2_def defs)
  have x: "delete_policy ?X ?c ''p1'' w2 = (Inr (), w3)" by (simp add: w1_def w2_def w3_def defs)
  have "find (has_id ''policy_id'' ''p1'') (dd_docs (aw_policies ?X) demo_admin) = None" by (simp add: defs)
  from policy_lifecycle [OF mem_admin_laws this c u _ x, of "demo_ctx ''acme'' []"]
  have "get_policy ?X (demo_ctx ''acme'' []) ''p1'' w3 = (Inl (ApiRepo (NotFound ''p1'')), w3)" by (simp add: plain_key_def)
  then show ?thesis by (simp add: w3_def w2_def w1_def)
qed

end
