(* ===== verification/Admin_Config.thy ===== *)
theory Admin_Config
  imports Managed_Documents "HOL-Library.Char_ord" "HOL-Library.List_Lexorder"
begin

text \<open>
  The rest of \<^verbatim>\<open>app/api/v1/routers/admin.py\<close>: the settings of the three environments, their comparison, and the alerts that are passed on
  to the Alertmanager. The collection of settings is a record of commands over the same abstract state as the other collections;
  the Alertmanager is a parameter.
\<close>

section \<open>Settings\<close>

record config_doc =
  cg_env :: string
  cg_values :: "(string \<times> string) list"
  cg_updated_by :: string
  cg_updated_at :: time

record 'w config_db =
  cf_ok :: "'w \<Rightarrow> bool"
  cf_docs :: "'w \<Rightarrow> config_doc list"
  cf_replace :: "string \<Rightarrow> config_doc \<Rightarrow> 'w \<Rightarrow> 'w"

text \<open>\<open>find_one_and_replace\<close> with \<open>upsert\<close>.\<close>

definition is_env :: "string \<Rightarrow> config_doc \<Rightarrow> bool" where "is_env env d \<longleftrightarrow> cg_env d = env"

definition replaced :: "string \<Rightarrow> config_doc \<Rightarrow> config_doc list \<Rightarrow> config_doc list" where
  "replaced env d ds = (if find (is_env env) ds = None then ds @ [d] else update_first (is_env env) (\<lambda>_. d) ds)"

definition config_laws :: "'w config_db \<Rightarrow> bool" where
  "config_laws C \<longleftrightarrow> (\<forall>env d w. cf_docs C (cf_replace C env d w) = replaced env d (cf_docs C w))"

definition VALID_ENVS :: "string list" where "VALID_ENVS = [''dev'', ''staging'', ''prod'']"

definition VIEWERS :: "string list" where "VIEWERS = [''portal:viewer'', ''portal:operator'', ''portal:admin'']"
definition OPERATORS :: "string list" where "OPERATORS = [''portal:operator'', ''portal:admin'']"

definition portal_guarded :: "string list \<Rightarrow> TenantContext \<Rightarrow> (TenantContext \<Rightarrow> 'w \<Rightarrow> ('b, 'w) api_run) \<Rightarrow> 'w \<Rightarrow> ('b, 'w) api_run" where
  "portal_guarded roles ctx f w = (case require_portal_role roles ctx of Inl e \<Rightarrow> (Inl (ApiGuard e), w) | Inr tenant \<Rightarrow> f tenant w)"

definition require_csrf :: "http_request \<Rightarrow> string option \<Rightarrow> bool" where
  "require_csrf rq csrf_cookie \<longleftrightarrow>
     header_or_empty rq ''X-CSRF-Token'' \<noteq> [] \<and> csrf_cookie \<noteq> Some [] \<and> csrf_cookie = Some (header_or_empty rq ''X-CSRF-Token'')"

definition invalid_env :: api_error where "invalid_env = ApiHttp 400 ''Invalid env''"

definition empty_config :: "string \<Rightarrow> time \<Rightarrow> config_doc" where
  "empty_config env now = \<lparr>cg_env = env, cg_values = [], cg_updated_by = [], cg_updated_at = now\<rparr>"

definition get_config :: "'w config_db \<Rightarrow> time \<Rightarrow> TenantContext \<Rightarrow> string \<Rightarrow> 'w \<Rightarrow> (config_doc, 'w) api_run" where
  "get_config C now ctx env =
     portal_guarded VIEWERS ctx (\<lambda>_ w.
       if env \<notin> set VALID_ENVS then (Inl invalid_env, w)
       else if \<not> cf_ok C w then (Inl (ApiRepo DbFailed), w)
       else (Inr (case find (is_env env) (cf_docs C w) of None \<Rightarrow> empty_config env now | Some d \<Rightarrow> d), w))"

definition config_meta :: "config_doc \<Rightarrow> meta" where
  "config_meta d =
     [(''env'', vstr (cg_env d)), (''values'', VDict (map (\<lambda>(k, v). (k, vstr v)) (cg_values d))),
      (''updated_by'', vstr (cg_updated_by d)), (''updated_at'', stamp (cg_updated_at d))]"

definition update_config ::
  "'w admin_world \<Rightarrow> 'w config_db \<Rightarrow> time \<Rightarrow> http_request \<Rightarrow> string option \<Rightarrow> TenantContext \<Rightarrow> string \<Rightarrow> string \<Rightarrow> (string \<times> string) list \<Rightarrow> 'w
   \<Rightarrow> (config_doc, 'w) api_run" where
  "update_config X C now rq csrf_cookie ctx env updated_by values =
     portal_guarded OPERATORS ctx (\<lambda>tenant w.
       if \<not> require_csrf rq csrf_cookie then (Inl (ApiHttp 403 ''CSRF token mismatch''), w)
       else if env \<notin> set VALID_ENVS then (Inl invalid_env, w)
       else if env = ''prod'' \<and> ''portal:admin'' \<notin> set (tn_roles tenant)
       then (Inl (ApiHttp 403 ''Updating prod config requires portal:admin role.''), w)
       else if \<not> cf_ok C w then (Inl (ApiRepo DbFailed), w)
       else (let before = find (is_env env) (cf_docs C w);
                 doc = \<lparr>cg_env = env, cg_values = values, cg_updated_by = updated_by, cg_updated_at = now\<rparr>
             in (Inr doc,
                 emit_admin X now
                   (admin_event ''config.update'' ''config_update'' tenant (''config'', env) (map_option config_meta before) (Some (config_meta doc)) rq)
                   (cf_replace C env doc w))))"

section \<open>Comparison\<close>

text \<open>The last document of an environment counts. A key that is missing has the value \<open>None\<close>.\<close>

definition config_value :: "config_doc list \<Rightarrow> string \<Rightarrow> string \<Rightarrow> string option" where
  "config_value ds env key =
     (case find (is_env env) (rev ds) of None \<Rightarrow> None | Some d \<Rightarrow> dict_get (cg_values d) key)"

definition py_str :: "string option \<Rightarrow> string" where
  "py_str v = (case v of None \<Rightarrow> ''None'' | Some s \<Rightarrow> s)"

definition config_keys :: "config_doc list \<Rightarrow> string list" where
  "config_keys ds =
     sort (remdups (concat (map (\<lambda>env. case find (is_env env) (rev ds) of None \<Rightarrow> [] | Some d \<Rightarrow> map fst (cg_values d)) VALID_ENVS)))"

record config_diff =
  cd_key :: string
  cd_dev :: "string option"
  cd_staging :: "string option"
  cd_prod :: "string option"

definition diff_entry :: "config_doc list \<Rightarrow> string \<Rightarrow> config_diff" where
  "diff_entry ds key =
     \<lparr>cd_key = key, cd_dev = config_value ds ''dev'' key, cd_staging = config_value ds ''staging'' key, cd_prod = config_value ds ''prod'' key\<rparr>"

definition same_text :: "config_diff \<Rightarrow> bool" where
  "same_text e \<longleftrightarrow> py_str (cd_dev e) = py_str (cd_staging e) \<and> py_str (cd_staging e) = py_str (cd_prod e)"

definition get_config_diff :: "'w config_db \<Rightarrow> TenantContext \<Rightarrow> 'w \<Rightarrow> (config_diff list, 'w) api_run" where
  "get_config_diff C ctx =
     portal_guarded VIEWERS ctx (\<lambda>_ w.
       if \<not> cf_ok C w then (Inl (ApiRepo DbFailed), w)
       else (Inr (filter (\<lambda>e. \<not> same_text e) (map (diff_entry (cf_docs C w)) (config_keys (cf_docs C w)))), w))"

section \<open>Alerts\<close>

text \<open>
  The Alertmanager: what a request gives, or the text of the exception. Reading alerts answers with none when the request failed.
\<close>

record 'w alertmanager =
  am_fetch :: "'w \<Rightarrow> string + meta list"
  am_create :: "meta \<Rightarrow> 'w \<Rightarrow> (string + meta) \<times> 'w"
  am_delete :: "string \<Rightarrow> 'w \<Rightarrow> (string + unit) \<times> 'w"

definition am_get_alerts :: "'w alertmanager \<Rightarrow> 'w \<Rightarrow> meta list" where
  "am_get_alerts M w = (case am_fetch M w of Inl _ \<Rightarrow> [] | Inr alerts \<Rightarrow> alerts)"

definition get_alerts :: "'w alertmanager \<Rightarrow> TenantContext \<Rightarrow> 'w \<Rightarrow> (meta list, 'w) api_run" where
  "get_alerts M ctx = portal_guarded VIEWERS ctx (\<lambda>_ w. (Inr (am_get_alerts M w), w))"

definition create_silence :: "'w admin_world \<Rightarrow> 'w alertmanager \<Rightarrow> time \<Rightarrow> http_request \<Rightarrow> TenantContext \<Rightarrow> meta \<Rightarrow> 'w \<Rightarrow> (meta, 'w) api_run" where
  "create_silence X M now rq ctx payload =
     portal_guarded OPERATORS ctx (\<lambda>tenant w.
       case am_create M payload w of
         (Inl e, w1) \<Rightarrow> (Inl (ApiHttp 502 (''Alertmanager error: '' @ e)), w1)
       | (Inr result, w1) \<Rightarrow>
           (Inr result,
            emit_admin X now
              (admin_event ''alert.silence_create'' ''alert_silence_create'' tenant (''silence'', get_text X result ''silenceID'') None (Some payload) rq) w1))"

definition delete_silence :: "'w admin_world \<Rightarrow> 'w alertmanager \<Rightarrow> time \<Rightarrow> http_request \<Rightarrow> TenantContext \<Rightarrow> string \<Rightarrow> 'w \<Rightarrow> (unit, 'w) api_run" where
  "delete_silence X M now rq ctx silence_id =
     portal_guarded OPERATORS ctx (\<lambda>tenant w.
       case am_delete M silence_id w of
         (Inl e, w1) \<Rightarrow> (Inl (ApiHttp 502 (''Alertmanager error: '' @ e)), w1)
       | (Inr _, w1) \<Rightarrow>
           (Inr (),
            emit_admin X now
              (admin_event ''alert.silence_delete'' ''alert_silence_delete'' tenant (''silence'', silence_id) None None rq) w1))"

section \<open>Lemmas\<close>

lemma find_replaced: "cg_env d = env \<Longrightarrow> find (is_env e) (replaced env d ds) = (if e = env then Some d else find (is_env e) ds)"
proof (cases "find (is_env env) ds")
  case None
  assume "cg_env d = env"
  with None show ?thesis by (auto simp: replaced_def find_append is_env_def split: option.split)
next
  case (Some x)
  assume d: "cg_env d = env"
  have "find (is_env e) (update_first (is_env env) (\<lambda>_. d) ds) = find (is_env e) ds" if "e \<noteq> env"
    using that d by (intro find_update_other) (auto simp: is_env_def)
  moreover have "find (is_env env) (update_first (is_env env) (\<lambda>_. d) ds) = Some d"
    using Some d by (intro find_update_same) (auto simp: is_env_def)
  ultimately show ?thesis using Some by (simp add: replaced_def)
qed

lemma config_keys_set: "key \<in> set (config_keys ds) \<longleftrightarrow> (\<exists>env\<in>set VALID_ENVS. config_value ds env key \<noteq> None)"
proof -
  have "key \<in> set (case find (is_env env) (rev ds) of None \<Rightarrow> [] | Some d \<Rightarrow> map fst (cg_values d)) \<longleftrightarrow> config_value ds env key \<noteq> None" for env
    by (cases "find (is_env env) (rev ds)") (auto simp: config_value_def map_of_eq_None_iff)
  then show ?thesis by (simp add: config_keys_def)
qed

lemma config_keys_sorted: "sorted (config_keys ds)" "distinct (config_keys ds)"
  by (simp_all add: config_keys_def)

definition config_apart :: "'w admin_world \<Rightarrow> 'w config_db \<Rightarrow> bool" where
  "config_apart X C \<longleftrightarrow>
     (\<forall>e w. cf_docs C (ad_insert (aw_audit X) e w) = cf_docs C w \<and> cf_ok C (ad_insert (aw_audit X) e w) = cf_ok C w) \<and>
     (\<forall>c p w. cf_docs C (ad_publish (aw_audit X) c p w) = cf_docs C w \<and> cf_ok C (ad_publish (aw_audit X) c p w) = cf_ok C w) \<and>
     (\<forall>env d w. ad_events (aw_audit X) (cf_replace C env d w) = ad_events (aw_audit X) w \<and> cf_ok C (cf_replace C env d w) = cf_ok C w)"

lemma emit_config:
  assumes "config_apart X C"
  shows "cf_docs C (emit_admin X now ev w) = cf_docs C w" "cf_ok C (emit_admin X now ev w) = cf_ok C w"
  using assms by (auto simp: emit_admin_def audit_emit_def audit_log_def config_apart_def Let_def split: prod.splits)

lemma portal_guard_passes:
  "require_portal_role roles ctx = Inr t \<longleftrightarrow>
    t = ctx \<and> tn_issuer ctx = PORTAL_ISSUER \<and> set (tn_roles ctx) \<inter> (set PLATFORM_ADMIN_ROLES \<union> set roles) \<noteq> {}"
  by (auto simp: require_portal_role_def list_ex_iff)

text \<open>The in-memory world with a collection of settings.\<close>

record mem_config = mem_admin +
  mc_configs :: "config_doc list"

definition mem_config_db :: "mem_config config_db" where
  "mem_config_db = \<lparr>cf_ok = (\<lambda>_. True), cf_docs = mc_configs, cf_replace = (\<lambda>env d. mc_configs_update (replaced env d))\<rparr>"

lemma mem_config_laws: "config_laws mem_config_db" "config_apart mem_admin_world mem_config_db" "cf_ok mem_config_db w"
  by (simp_all add: config_laws_def config_apart_def mem_config_db_def mem_admin_world_def)

definition mem_configs :: "config_doc list \<Rightarrow> mem_config" where
  "mem_configs ds = \<lparr>ma_tenants = [], ma_policies = [], ma_connectors = [], ma_events = [], ma_published = [], mc_configs = ds\<rparr>"

definition portal_ctx :: "string list \<Rightarrow> TenantContext" where
  "portal_ctx rs = \<lparr>tn_tenant_id = ''portal'', tn_client_id = ''u1'', tn_roles = rs, tn_issuer = PORTAL_ISSUER\<rparr>"

definition csrf_rq :: http_request where
  "csrf_rq = plain_rq\<lparr>rq_header := (\<lambda>h. if h = ''X-CSRF-Token'' then Some ''t'' else None)\<rparr>"

section \<open>Properties\<close>

text \<open>
  Who changes the settings of an environment. With the services up a change succeeds exactly for a portal token with an operator or administrator
  role, with matching CSRF texts, for one of the three environments, and for production only with the role \<open>portal:admin\<close> itself. It is
  then what every reader gets, the other environments keep theirs, and the trail names the caller with the settings before and
  after; the field \<open>updated_by\<close> is whatever the client wrote. Otherwise nothing changes.
\<close>

theorem config_changes_guarded:
  assumes laws: "admin_laws X" "admin_up X" "config_laws C" "config_apart X C" and up: "\<And>w. cf_ok C w"
    and run: "update_config X C now rq csrf ctx env who vs w = (r, w')"
  shows "((\<exists>d. r = Inr d) \<longleftrightarrow>
      tn_issuer ctx = PORTAL_ISSUER \<and> set (tn_roles ctx) \<inter> (set PLATFORM_ADMIN_ROLES \<union> set OPERATORS) \<noteq> {} \<and>
      require_csrf rq csrf \<and> env \<in> set VALID_ENVS \<and> (env = ''prod'' \<longrightarrow> ''portal:admin'' \<in> set (tn_roles ctx))) \<and>
    (case r of
       Inl e \<Rightarrow> w' = w
     | Inr d \<Rightarrow>
         d = \<lparr>cg_env = env, cg_values = vs, cg_updated_by = who, cg_updated_at = now\<rparr> \<and>
         (\<forall>now' rd. require_portal_role VIEWERS rd = Inr rd \<longrightarrow> get_config C now' rd env w' = (Inr d, w')) \<and>
         (\<forall>now' rd env'. env' \<noteq> env \<longrightarrow> fst (get_config C now' rd env' w') = fst (get_config C now' rd env' w)) \<and>
         (\<exists>e. ad_events (aw_audit X) w' = ad_events (aw_audit X) w @ [e] \<and>
            dict_get (au_metadata e) ''actor_client_id'' = Some (vstr (tn_client_id ctx)) \<and>
            dict_get (au_metadata e) ''before'' = map_option (VDict \<circ> config_meta) (find (is_env env) (cf_docs C w)) \<and>
            dict_get (au_metadata e) ''after'' = Some (VDict (config_meta d))))"
proof (cases "require_portal_role OPERATORS ctx")
  case (Inl e)
  then have "\<not> (tn_issuer ctx = PORTAL_ISSUER \<and> set (tn_roles ctx) \<inter> (set PLATFORM_ADMIN_ROLES \<union> set OPERATORS) \<noteq> {})"
    using portal_guard_passes [of OPERATORS ctx ctx] by auto
  moreover have "r = Inl (ApiGuard e)" "w' = w" using run Inl by (simp_all add: update_config_def portal_guarded_def)
  ultimately show ?thesis by auto
next
  case (Inr t)
  then have t: "t = ctx" "tn_issuer ctx = PORTAL_ISSUER" "set (tn_roles ctx) \<inter> (set PLATFORM_ADMIN_ROLES \<union> set OPERATORS) \<noteq> {}"
    using portal_guard_passes by auto
  define pass where "pass \<longleftrightarrow> require_csrf rq csrf \<and> env \<in> set VALID_ENVS \<and> (env = ''prod'' \<longrightarrow> ''portal:admin'' \<in> set (tn_roles ctx))"
  show ?thesis
  proof (cases pass)
    case False
    then have "(\<exists>e. r = Inl e) \<and> w' = w"
      using run Inr t(1) by (auto simp: update_config_def portal_guarded_def pass_def split: if_splits)
    then show ?thesis using False by (auto simp: pass_def)
  next
    case True
    define d where "d = \<lparr>cg_env = env, cg_values = vs, cg_updated_by = who, cg_updated_at = now\<rparr>"
    define ev where "ev = admin_event ''config.update'' ''config_update'' ctx (''config'', env)
        (map_option config_meta (find (is_env env) (cf_docs C w))) (Some (config_meta d)) rq"
    have rw: "r = Inr d" "w' = emit_admin X now ev (cf_replace C env d w)"
      using run Inr t(1) True up by (auto simp: update_config_def portal_guarded_def pass_def d_def ev_def Let_def split: if_splits)
    have found: "find (is_env e) (cf_docs C w') = (if e = env then Some d else find (is_env e) (cf_docs C w))" for e
      using laws(3) find_replaced [of d env e "cf_docs C w"] by (simp add: rw(2) emit_config [OF laws(4)] config_laws_def d_def)
    have "get_config C now' rd env w' = (Inr d, w')" if "require_portal_role VIEWERS rd = Inr rd" for now' rd
      using that True found up by (simp add: get_config_def portal_guarded_def pass_def)
    moreover have "fst (get_config C now' rd env' w') = fst (get_config C now' rd env' w)" if "env' \<noteq> env" for now' rd env'
      using that found up by (simp add: get_config_def portal_guarded_def split: sum.split)
    moreover have "ad_events (aw_audit X) w' = ad_events (aw_audit X) w @ [audit_entry now (emit_args (aw_envs X) ev)]"
      using laws(4) by (simp add: rw(2) emit_admin_events [OF laws(1,2)] config_apart_def)
    moreover have "dict_get (au_metadata (audit_entry now (emit_args (aw_envs X) ev))) ''before'' =
          map_option (VDict \<circ> config_meta) (find (is_env env) (cf_docs C w))"
      "dict_get (au_metadata (audit_entry now (emit_args (aw_envs X) ev))) ''after'' = Some (VDict (config_meta d))"
      "dict_get (au_metadata (audit_entry now (emit_args (aw_envs X) ev))) ''actor_client_id'' = Some (vstr (tn_client_id ctx))"
      unfolding ev_def by (simp_all add: admin_entry option.map_comp)
    ultimately show ?thesis using rw(1) True t(2,3) by (simp add: pass_def d_def)
  qed
qed

theorem config_changes_guarded_witness:
  "(\<exists>d w'. update_config mem_admin_world mem_config_db 5 csrf_rq (Some ''t'') (portal_ctx [''portal:operator'']) ''dev'' ''x'' [(''k'', ''v'')] (mem_configs []) = (Inr d, w') \<and>
      get_config mem_config_db 6 (portal_ctx [''portal:viewer'']) ''dev'' w' = (Inr d, w')) \<and>
   (\<nexists>d. fst (update_config mem_admin_world mem_config_db 5 csrf_rq (Some ''t'') (portal_ctx [''super_admin'']) ''prod'' ''x'' [] (mem_configs [])) = Inr d)"
proof
  let ?u = "update_config mem_admin_world mem_config_db 5 csrf_rq (Some ''t'')"
  note t = config_changes_guarded [OF mem_admin_laws mem_config_laws(1,2,3)]
  have csrf: "require_csrf csrf_rq (Some ''t'')" by (simp add: require_csrf_def csrf_rq_def header_or_empty_def)
  have rd: "require_portal_role VIEWERS (portal_ctx [''portal:viewer'']) = Inr (portal_ctx [''portal:viewer''])"
    by (simp add: require_portal_role_def portal_ctx_def VIEWERS_def PLATFORM_ADMIN_ROLES_def)
  obtain r w' where run: "?u (portal_ctx [''portal:operator'']) ''dev'' ''x'' [(''k'', ''v'')] (mem_configs []) = (r, w')" by (meson surj_pair)
  have "\<exists>d. r = Inr d" using t [OF run, THEN conjunct1] csrf by (simp add: portal_ctx_def OPERATORS_def VALID_ENVS_def)
  then obtain d where d: "r = Inr d" by blast
  from t [OF run, THEN conjunct2] have "get_config mem_config_db 6 (portal_ctx [''portal:viewer'']) ''dev'' w' = (Inr d, w')"
    using rd by (simp add: d)
  with run d show "\<exists>d w'. ?u (portal_ctx [''portal:operator'']) ''dev'' ''x'' [(''k'', ''v'')] (mem_configs []) = (Inr d, w') \<and>
      get_config mem_config_db 6 (portal_ctx [''portal:viewer'']) ''dev'' w' = (Inr d, w')" by blast
  obtain r' w'' where run': "?u (portal_ctx [''super_admin'']) ''prod'' ''x'' [] (mem_configs []) = (r', w'')" by (meson surj_pair)
  show "\<nexists>d. fst (?u (portal_ctx [''super_admin'']) ''prod'' ''x'' [] (mem_configs [])) = Inr d"
    using t [OF run', THEN conjunct1] run' by (simp add: portal_ctx_def)
qed

text \<open>
  The comparison of the environments lists, sorted and without repetition, exactly the keys whose three values do not have the same text. Where no value is
  the text \<open>None\<close> these are the keys whose values differ, a missing value being different from any other. A value that is the text
  \<open>None\<close> is not told apart from a missing one.
\<close>

theorem config_diff_exact:
  assumes "get_config_diff C ctx w = (Inr diffs, w')"
  shows "w' = w \<and> sorted (map cd_key diffs) \<and> distinct (map cd_key diffs) \<and>
    (\<forall>key. key \<in> cd_key ` set diffs \<longleftrightarrow>
       (\<exists>e1\<in>set VALID_ENVS. \<exists>e2\<in>set VALID_ENVS. py_str (config_value (cf_docs C w) e1 key) \<noteq> py_str (config_value (cf_docs C w) e2 key))) \<and>
    (\<forall>key. (\<forall>env\<in>set VALID_ENVS. config_value (cf_docs C w) env key \<noteq> Some ''None'') \<longrightarrow>
       (key \<in> cd_key ` set diffs \<longleftrightarrow>
        (\<exists>e1\<in>set VALID_ENVS. \<exists>e2\<in>set VALID_ENVS. config_value (cf_docs C w) e1 key \<noteq> config_value (cf_docs C w) e2 key))) \<and>
    (\<forall>key. (\<forall>env\<in>set VALID_ENVS. config_value (cf_docs C w) env key \<in> {None, Some ''None''}) \<longrightarrow> key \<notin> cd_key ` set diffs)"
proof -
  let ?ds = "cf_docs C w"
  have diffs: "diffs = filter (\<lambda>e. \<not> same_text e) (map (diff_entry ?ds) (config_keys ?ds))" "w' = w"
    using assms by (auto simp: get_config_diff_def portal_guarded_def split: sum.splits if_splits)
  have keys: "map cd_key diffs = filter (\<lambda>k. \<not> same_text (diff_entry ?ds k)) (config_keys ?ds)"
    by (simp add: diffs(1) filter_map comp_def diff_entry_def)
  let ?text = "\<lambda>env key. py_str (config_value ?ds env key)"
  have texts: "same_text (diff_entry ?ds key) \<longleftrightarrow> (\<forall>e1\<in>set VALID_ENVS. \<forall>e2\<in>set VALID_ENVS. ?text e1 key = ?text e2 key)" for key
    by (auto simp: same_text_def diff_entry_def VALID_ENVS_def)
  have listed: "key \<in> cd_key ` set diffs \<longleftrightarrow> (\<exists>e1\<in>set VALID_ENVS. \<exists>e2\<in>set VALID_ENVS. ?text e1 key \<noteq> ?text e2 key)" for key
  proof -
    have "key \<in> set (config_keys ?ds)" if "?text e1 key \<noteq> ?text e2 key" "e1 \<in> set VALID_ENVS" "e2 \<in> set VALID_ENVS" for e1 e2
      using that config_keys_set by fastforce
    moreover have "key \<in> set (map cd_key diffs) \<longleftrightarrow> key \<in> set (config_keys ?ds) \<and> \<not> same_text (diff_entry ?ds key)" unfolding keys by auto
    ultimately show ?thesis using texts [of key] by auto
  qed
  have inj: "?text e1 key \<noteq> ?text e2 key \<longleftrightarrow> config_value ?ds e1 key \<noteq> config_value ?ds e2 key"
    if "config_value ?ds e1 key \<noteq> Some ''None''" "config_value ?ds e2 key \<noteq> Some ''None''" for e1 e2 key
    using that by (auto simp: py_str_def split: option.splits)
  have "key \<notin> cd_key ` set diffs" if "\<forall>env\<in>set VALID_ENVS. config_value ?ds env key \<in> {None, Some ''None''}" for key
  proof -
    have "?text env key = ''None''" if "env \<in> set VALID_ENVS" for env
      using \<open>\<forall>env\<in>set VALID_ENVS. config_value ?ds env key \<in> {None, Some ''None''}\<close> that by (auto simp: py_str_def)
    then show ?thesis by (simp add: listed)
  qed
  moreover have "sorted (map cd_key diffs)" "distinct (map cd_key diffs)"
    unfolding keys by (simp_all add: config_keys_sorted sorted_wrt_filter)
  moreover have "key \<in> cd_key ` set diffs \<longleftrightarrow>
        (\<exists>e1\<in>set VALID_ENVS. \<exists>e2\<in>set VALID_ENVS. config_value ?ds e1 key \<noteq> config_value ?ds e2 key)"
    if "\<forall>env\<in>set VALID_ENVS. config_value ?ds env key \<noteq> Some ''None''" for key
    using that listed [of key] inj by (metis (no_types, lifting))
  ultimately show ?thesis using diffs(2) listed by blast
qed

theorem config_diff_exact_witness:
  "\<exists>diffs. get_config_diff mem_config_db (portal_ctx [''portal:viewer''])
     (mem_configs [\<lparr>cg_env = ''dev'', cg_values = [(''a'', ''None''), (''b'', ''1'')], cg_updated_by = [], cg_updated_at = 0\<rparr>]) =
       (Inr diffs, mem_configs [\<lparr>cg_env = ''dev'', cg_values = [(''a'', ''None''), (''b'', ''1'')], cg_updated_by = [], cg_updated_at = 0\<rparr>]) \<and>
     ''b'' \<in> cd_key ` set diffs \<and> ''a'' \<notin> cd_key ` set diffs"
proof -
  let ?ds = "[\<lparr>cg_env = ''dev'', cg_values = [(''a'', ''None''), (''b'', ''1'')], cg_updated_by = [], cg_updated_at = 0\<rparr>]"
  obtain diffs w' where run: "get_config_diff mem_config_db (portal_ctx [''portal:viewer'']) (mem_configs ?ds) = (Inr diffs, w')"
    by (simp add: get_config_diff_def portal_guarded_def require_portal_role_def portal_ctx_def VIEWERS_def PLATFORM_ADMIN_ROLES_def mem_config_db_def)
  have docs: "cf_docs mem_config_db (mem_configs ?ds) = ?ds" by (simp add: mem_config_db_def mem_configs_def)
  note t = config_diff_exact [OF run, unfolded docs]
  have "''a'' \<notin> cd_key ` set diffs" "''b'' \<in> cd_key ` set diffs"
    using t [THEN conjunct2, THEN conjunct2, THEN conjunct2, THEN conjunct1]
    by (simp_all add: config_value_def is_env_def VALID_ENVS_def py_str_def)
  then show ?thesis using run t by blast
qed

end
