(* ===== verification/Background_Work.thy ===== *)
theory Background_Work
  imports Admin_Config Event_Stream
begin

text \<open>
  Work beside the requests: the poller of the Alertmanager with its leader lock (\<^verbatim>\<open>app/workers/am_poller.py\<close>,
  \<^verbatim>\<open>app/infra/alertmanager_client.py\<close>) and the drain at shutdown (\<^verbatim>\<open>app/core/graceful_shutdown.py\<close>). Times are milliseconds
  of one clock; how long a call takes is an argument.
\<close>

section \<open>Leader lock\<close>

definition LOCK_TTL :: time where "LOCK_TTL = 30000"
definition LOCK_RENEW_INTERVAL :: time where "LOCK_RENEW_INTERVAL = 20000"
definition POLL_INTERVAL :: time where "POLL_INTERVAL = 10000"

text \<open>
  The key: its owner and the time it expires. A pod reaches Redis, gets an exception, or has no client at all. The two commands
  of a renewal are one step.
\<close>

type_synonym lock = "(string \<times> time) option"

datatype redis_access = NoClient | Raises | Reached

definition live_owner :: "time \<Rightarrow> lock \<Rightarrow> string option" where
  "live_owner now l = (case l of None \<Rightarrow> None | Some (pod, expires) \<Rightarrow> if now < expires then Some pod else None)"

definition try_acquire_lock :: "redis_access \<Rightarrow> string \<Rightarrow> time \<Rightarrow> lock \<Rightarrow> bool \<times> lock" where
  "try_acquire_lock acc pod now l =
     (case acc of
        NoClient \<Rightarrow> (True, l)
      | Raises \<Rightarrow> (False, l)
      | Reached \<Rightarrow> if live_owner now l = None then (True, Some (pod, now + LOCK_TTL)) else (False, l))"

definition renew_lock :: "redis_access \<Rightarrow> string \<Rightarrow> time \<Rightarrow> lock \<Rightarrow> bool \<times> lock" where
  "renew_lock acc pod now l =
     (case acc of
        NoClient \<Rightarrow> (True, l)
      | Raises \<Rightarrow> (False, l)
      | Reached \<Rightarrow> if live_owner now l \<noteq> Some pod then (False, l) else (True, Some (pod, now + LOCK_TTL)))"

text \<open>
  The leader's loop, one entry per turn: how Redis is reached for the renewal and how long the poll takes. The result is whether the pod
  is still the leader, the time and the lock at the end, and for every turn its end and the lock during it.
\<close>

fun leader_loop :: "string \<Rightarrow> time \<Rightarrow> time \<Rightarrow> (redis_access \<times> time) list \<Rightarrow> lock \<Rightarrow> (bool \<times> time \<times> lock) \<times> (time \<times> lock) list" where
  "leader_loop pod elapsed now [] l = ((True, now, l), [])"
| "leader_loop pod elapsed now ((acc, poll) # turns) l =
     (case (if elapsed \<ge> LOCK_RENEW_INTERVAL then renew_lock acc pod now l else (True, l)) of
        (False, l1) \<Rightarrow> ((False, now, l1), [])
      | (True, l1) \<Rightarrow>
          (let next = now + poll + POLL_INTERVAL;
               elapsed' = (if elapsed \<ge> LOCK_RENEW_INTERVAL then 0 else elapsed) + POLL_INTERVAL
           in case leader_loop pod elapsed' next turns l1 of (r, trace) \<Rightarrow> (r, (next, l1) # trace)))"

text \<open>A follower's attempts, 20 seconds and the duration of the call apart: when it becomes the leader, if within the attempts given.\<close>

fun follower_wait :: "string \<Rightarrow> time \<Rightarrow> time list \<Rightarrow> lock \<Rightarrow> time option" where
  "follower_wait pod now [] l = None"
| "follower_wait pod now (call # calls) l =
     (if fst (try_acquire_lock Reached pod now l) then Some now
      else follower_wait pod (now + call + LOCK_RENEW_INTERVAL) calls l)"

section \<open>Polling\<close>

datatype alert_msg = AlertMsg string meta

text \<open>The text published: the name of the event, overwritten where the payload has a field of that name.\<close>

definition alert_json :: "alert_msg \<Rightarrow> meta" where
  "alert_json m = (case m of AlertMsg event payload \<Rightarrow> dict_update [(''event'', vstr event)] payload)"

record 'w poller_env =
  pe_am :: "'w alertmanager"
  pe_client :: "'w \<Rightarrow> bool"
  pe_publish :: "string \<Rightarrow> meta \<Rightarrow> 'w \<Rightarrow> 'w"
  pe_sha1 :: "pyval \<Rightarrow> string"
  pe_str :: "pyval \<Rightarrow> string"
  pe_pick :: "string list \<Rightarrow> string list"

definition alert_fingerprint :: "'w poller_env \<Rightarrow> meta \<Rightarrow> string" where
  "alert_fingerprint E alert =
     (case dict_get alert ''fingerprint'' of
        Some fp \<Rightarrow> if truthy fp then pe_str E fp
                   else pe_sha1 E (case dict_get alert ''labels'' of None \<Rightarrow> VDict [] | Some v \<Rightarrow> v)
      | None \<Rightarrow> pe_sha1 E (case dict_get alert ''labels'' of None \<Rightarrow> VDict [] | Some v \<Rightarrow> v))"

definition current_alerts :: "'w poller_env \<Rightarrow> meta list \<Rightarrow> (string \<times> meta) list" where
  "current_alerts E alerts = fold (\<lambda>a. dict_set (alert_fingerprint E a) a) alerts []"

text \<open>
  The messages of a poll. A difference of sets is iterated in an order of its own, \<open>pe_pick\<close>.
\<close>

definition poll_messages :: "'w poller_env \<Rightarrow> string list \<Rightarrow> meta list \<Rightarrow> alert_msg list" where
  "poll_messages E prev alerts =
     (let current = current_alerts E alerts
      in map (\<lambda>fp. AlertMsg ''alert.firing'' (case dict_get current fp of None \<Rightarrow> [] | Some a \<Rightarrow> a))
           (pe_pick E (filter (\<lambda>fp. fp \<notin> set prev) (map fst current))) @
         map (\<lambda>fp. AlertMsg ''alert.resolved'' [(''fingerprint'', vstr fp)])
           (pe_pick E (filter (\<lambda>fp. fp \<notin> set (map fst current)) prev)))"

text \<open>\<open>pe_publish\<close> is a publication whose exceptions are swallowed. The result is the new set of fingerprints and the messages sent.\<close>

definition poll_and_publish :: "'w poller_env \<Rightarrow> string list \<Rightarrow> 'w \<Rightarrow> (string list \<times> alert_msg list) \<times> 'w" where
  "poll_and_publish E prev w =
     (let alerts = am_get_alerts (pe_am E) w
      in if \<not> pe_client E w then ((prev, []), w)
         else ((map fst (current_alerts E alerts), poll_messages E prev alerts),
               fold (\<lambda>m. pe_publish E CHANNEL_ALERTS (alert_json m)) (poll_messages E prev alerts) w))"

section \<open>Drain\<close>

record shutdown_manager =
  sm_draining :: bool
  sm_started :: "time option"
  sm_registered :: bool
  sm_has_terminator :: bool
  sm_has_notice :: bool

definition new_manager :: shutdown_manager where
  "new_manager = \<lparr>sm_draining = False, sm_started = None, sm_registered = False, sm_has_terminator = False, sm_has_notice = False\<rparr>"

definition register_session_callbacks :: "bool \<Rightarrow> shutdown_manager \<Rightarrow> shutdown_manager" where
  "register_session_callbacks notice m = m\<lparr>sm_registered := True, sm_has_terminator := True, sm_has_notice := notice\<rparr>"

definition mark_draining :: "time \<Rightarrow> shutdown_manager \<Rightarrow> shutdown_manager" where
  "mark_draining now m = (if sm_draining m then m else m\<lparr>sm_draining := True, sm_started := Some now\<rparr>)"

text \<open>
  What the callbacks do: the sessions the enumerator gives when asked at a time, or its exception; how long it takes;
  how long all notices take together.
\<close>

record drain_env =
  de_sessions :: "time \<Rightarrow> string list option"
  de_latency :: "time \<Rightarrow> nat"
  de_notice :: nat

datatype drain_end = NotRegistered | EnumerationFailed | NoSessions | Drained time | Expired time

text \<open>The loop that waits: an exception of the enumerator counts as no sessions.\<close>

function drain_wait :: "drain_env \<Rightarrow> time \<Rightarrow> time \<Rightarrow> time \<Rightarrow> drain_end" where
  "drain_wait E start timeout now =
     (if now - start < timeout
      then (case de_sessions E now of
              None \<Rightarrow> Drained (now + int (de_latency E now))
            | Some [] \<Rightarrow> Drained (now + int (de_latency E now))
            | Some (s # ss) \<Rightarrow> drain_wait E start timeout (now + int (de_latency E now) + 1000))
      else Expired now)"
  by pat_completeness auto
termination
  by (relation "measure (\<lambda>(E, start, timeout, now). nat (timeout - (now - start)))") auto

declare drain_wait.simps [simp del]

text \<open>The result: how it ended, the sessions that got a notice and those handed to the terminator, whose exceptions are caught.\<close>

record drain_result =
  dr_end :: drain_end
  dr_noticed :: "string list"
  dr_terminated :: "string list"

definition drain :: "drain_env \<Rightarrow> bool \<Rightarrow> time \<Rightarrow> time \<Rightarrow> shutdown_manager \<Rightarrow> drain_result \<times> shutdown_manager" where
  "drain E announce timeout now m =
     (let m1 = mark_draining now m
      in if \<not> sm_registered m1 then (\<lparr>dr_end = NotRegistered, dr_noticed = [], dr_terminated = []\<rparr>, m1)
         else (case de_sessions E now of
                 None \<Rightarrow> (\<lparr>dr_end = EnumerationFailed, dr_noticed = [], dr_terminated = []\<rparr>, m1)
               | Some [] \<Rightarrow> (\<lparr>dr_end = NoSessions, dr_noticed = [], dr_terminated = []\<rparr>, m1)
               | Some active \<Rightarrow>
                   (let notice = announce \<and> sm_has_notice m1;
                        start = now + int (de_latency E now) + (if notice then int (de_notice E) else 0);
                        r = drain_wait E start timeout start
                    in (\<lparr>dr_end = r, dr_noticed = (if notice then active else []),
                         dr_terminated =
                           (case r of
                              Expired t \<Rightarrow> if sm_has_terminator m1 then (case de_sessions E t of None \<Rightarrow> [] | Some ss \<Rightarrow> ss) else []
                            | _ \<Rightarrow> [])\<rparr>, m1))))"

section \<open>Lemmas\<close>

lemmas lock_times = LOCK_TTL_def LOCK_RENEW_INTERVAL_def POLL_INTERVAL_def

text \<open>With polls of less than 5 seconds, what is left of the lock when \<open>elapsed\<close> of the sleeps have passed since the renewal.\<close>

definition lock_slack :: "time \<Rightarrow> time" where
  "lock_slack elapsed = (if elapsed = 0 then 30000 else if elapsed = 10000 then 15001 else 2)"

lemma leader_loop_holds:
  assumes "\<forall>(acc, poll)\<in>set turns. acc = Reached \<and> 0 \<le> poll \<and> poll < 5000"
    and "elapsed \<in> {0, 10000, 20000}" and "expires - now \<ge> lock_slack elapsed"
    and "leader_loop pod elapsed now turns (Some (pod, expires)) = ((still, t, l'), trace)"
  shows "still \<and> live_owner t l' = Some pod \<and> (\<forall>(e, lk)\<in>set trace. \<exists>x. lk = Some (pod, x) \<and> e < x)"
  using assms
proof (induction turns arbitrary: elapsed now expires trace)
  case Nil
  then show ?case by (auto simp: live_owner_def lock_slack_def split: if_splits)
next
  case (Cons turn turns)
  obtain acc poll where turn: "turn = (acc, poll)" by (cases turn)
  with Cons.prems(1) have acc: "acc = Reached" and poll: "0 \<le> poll" "poll < 5000" by auto
  define x where "x = (if elapsed = 20000 then now + 30000 else expires)"
  define el where "el = (if elapsed = 20000 then 0 else elapsed) + 10000"
  let ?next = "now + poll + 10000"
  have renewed: "(if elapsed \<ge> LOCK_RENEW_INTERVAL then renew_lock acc pod now (Some (pod, expires)) else (True, Some (pod, expires))) =
      (True, Some (pod, x))"
    using Cons.prems(2,3) acc by (auto simp: renew_lock_def live_owner_def lock_times x_def lock_slack_def)
  have slack: "x - ?next \<ge> lock_slack el" "el \<in> {0, 10000, 20000}" "?next < x"
    using Cons.prems(2,3) poll by (auto simp: x_def el_def lock_slack_def split: if_splits)
  have el': "(if elapsed \<ge> LOCK_RENEW_INTERVAL then 0 else elapsed) + POLL_INTERVAL = el"
    using Cons.prems(2) by (auto simp: lock_times el_def)
  obtain trace' where rest: "leader_loop pod el ?next turns (Some (pod, x)) = ((still, t, l'), trace')" and trace: "trace = (?next, Some (pod, x)) # trace'"
    using Cons.prems(4) unfolding turn leader_loop.simps renewed el' by (auto simp: Let_def lock_times split: prod.splits)
  show ?case using Cons.IH [OF _ slack(2,1) rest] Cons.prems(1) slack(3) unfolding trace by auto
qed

lemma live_refuses: "live_owner now l = Some pod \<Longrightarrow> try_acquire_lock Reached other now l = (False, l)"
  by (simp add: try_acquire_lock_def)

lemma follower_waits:
  assumes "\<forall>c\<in>set calls. 0 \<le> c \<and> c \<le> L" and "now < expires + LOCK_RENEW_INTERVAL + L"
    and "expires - now \<le> LOCK_RENEW_INTERVAL * (int (length calls) - 1)" "calls \<noteq> []"
  shows "\<exists>t. follower_wait pod now calls (Some (leader, expires)) = Some t \<and> expires \<le> t \<and> t < expires + LOCK_RENEW_INTERVAL + L"
  using assms
proof (induction calls arbitrary: now)
  case (Cons c calls)
  show ?case
  proof (cases "now < expires")
    case True
    have c: "0 \<le> c" "c \<le> L" and some: "calls \<noteq> []" using Cons.prems(1,3) True by (auto simp: lock_times)
    from Cons.IH [of "now + c + LOCK_RENEW_INTERVAL"] Cons.prems(1,3) c some True show ?thesis
      by (simp add: try_acquire_lock_def live_owner_def lock_times)
  next
    case False
    with Cons.prems(2) show ?thesis by (auto simp: try_acquire_lock_def live_owner_def)
  qed
qed simp

lemma drain_wait_ends:
  "(\<And>t. de_latency E t \<le> L) \<Longrightarrow> now < start + timeout + int L + 1000 \<Longrightarrow>
   \<exists>t. (drain_wait E start timeout now = Drained t \<and> (\<exists>at\<le>t. de_sessions E at = None \<or> de_sessions E at = Some []) \<or>
        drain_wait E start timeout now = Expired t \<and> start + timeout \<le> t) \<and> now \<le> t \<and> t < start + timeout + int L + 1000"
proof (induction E start timeout now rule: drain_wait.induct)
  case (1 E start timeout now)
  let ?later = "now + int (de_latency E now) + 1000"
  have lat: "int (de_latency E now) \<le> int L" using "1.prems"(1) by simp
  consider "\<not> now - start < timeout" | "now - start < timeout" "de_sessions E now = None \<or> de_sessions E now = Some []"
    | s ss where "now - start < timeout" "de_sessions E now = Some (s # ss)"
    by (metis list.exhaust option.exhaust)
  then show ?case
  proof cases
    case 2
    then have "drain_wait E start timeout now = Drained (now + int (de_latency E now))" by (subst drain_wait.simps) auto
    moreover have "now \<le> now + int (de_latency E now)" "now + int (de_latency E now) < start + timeout + int L + 1000" using 2(1) lat by simp_all
    ultimately show ?thesis using 2(2) by blast
  next
    case 3
    have step: "drain_wait E start timeout now = drain_wait E start timeout ?later" using 3 by (subst drain_wait.simps) simp
    have "?later < start + timeout + int L + 1000" using 3(1) lat by simp
    from "1.IH" [OF 3(1) _ _ "1.prems"(1) this] 3(2) obtain t where
      "(drain_wait E start timeout ?later = Drained t \<and> (\<exists>at\<le>t. de_sessions E at = None \<or> de_sessions E at = Some []) \<or>
        drain_wait E start timeout ?later = Expired t \<and> start + timeout \<le> t) \<and> ?later \<le> t \<and> t < start + timeout + int L + 1000"
      by blast
    moreover from this have "now \<le> t" by linarith
    ultimately show ?thesis unfolding step by blast
  qed (use "1.prems"(2) in \<open>simp add: drain_wait.simps\<close>)
qed

subsection \<open>What a subscriber makes of the messages\<close>

definition poller_laws :: "'w poller_env \<Rightarrow> bool" where
  "poller_laws E \<longleftrightarrow>
     (\<forall>xs. mset (pe_pick E xs) = mset xs) \<and> (\<forall>s. s \<noteq> [] \<longrightarrow> pe_str E (vstr s) = s) \<and>
     (\<forall>v. truthy v \<longrightarrow> pe_str E v \<noteq> []) \<and> (\<forall>v. pe_sha1 E v \<noteq> [])"

text \<open>The set of firing alerts, kept from the messages.\<close>

fun heard :: "'w poller_env \<Rightarrow> alert_msg \<Rightarrow> string set \<Rightarrow> string set" where
  "heard E (AlertMsg event payload) S =
     (if event = ''alert.firing'' then insert (alert_fingerprint E payload) S else S - {alert_fingerprint E payload})"

lemma pick_set: "poller_laws E \<Longrightarrow> set (pe_pick E xs) = set xs"
  unfolding poller_laws_def by (metis set_mset_mset)

lemma fingerprint_nonempty: "poller_laws E \<Longrightarrow> alert_fingerprint E a \<noteq> []"
  by (auto simp: poller_laws_def alert_fingerprint_def split: option.split)

lemma fingerprint_resolved: "poller_laws E \<Longrightarrow> fp \<noteq> [] \<Longrightarrow> alert_fingerprint E [(''fingerprint'', vstr fp)] = fp"
  by (simp add: poller_laws_def alert_fingerprint_def vstr_def of_str_def)

definition named_alerts :: "'w poller_env \<Rightarrow> (string \<times> meta) list \<Rightarrow> bool" where
  "named_alerts E d \<longleftrightarrow> (\<forall>fp a. dict_get d fp = Some a \<longrightarrow> alert_fingerprint E a = fp)"

lemma named_alerts_current: "named_alerts E (current_alerts E alerts)"
proof -
  have "named_alerts E d \<Longrightarrow> named_alerts E (fold (\<lambda>a. dict_set (alert_fingerprint E a) a) alerts d)" for d
  proof (induction alerts arbitrary: d)
    case (Cons a alerts)
    from Cons.prems have "named_alerts E (dict_set (alert_fingerprint E a) a d)" by (simp add: named_alerts_def)
    from Cons.IH [OF this] show ?case by simp
  qed simp
  moreover have "named_alerts E []" by (simp add: named_alerts_def)
  ultimately show ?thesis by (simp add: current_alerts_def)
qed

lemma current_alerts_keys: "set (map fst (current_alerts E alerts)) = alert_fingerprint E ` set alerts"
proof -
  have "fst ` set (fold (\<lambda>a. dict_set (alert_fingerprint E a) a) alerts d) = fst ` set d \<union> alert_fingerprint E ` set alerts" for d
  proof (induction alerts arbitrary: d)
    case (Cons a alerts)
    then show ?case using dict_keys_set [of "alert_fingerprint E a" a d] by simp
  qed simp
  from this [of "[]"] show ?thesis by (simp add: current_alerts_def)
qed

lemma heard_firing: "fold (heard E) (map (\<lambda>fp. AlertMsg ''alert.firing'' (f fp)) fps) S = S \<union> (\<lambda>fp. alert_fingerprint E (f fp)) ` set fps"
  by (induction fps arbitrary: S) auto

lemma heard_resolved: "fold (heard E) (map (\<lambda>fp. AlertMsg ''alert.resolved'' (f fp)) fps) S = S - (\<lambda>fp. alert_fingerprint E (f fp)) ` set fps"
  by (induction fps arbitrary: S) auto

lemma heard_poll:
  assumes laws: "poller_laws E" and prev: "[] \<notin> set prev"
  shows "fold (heard E) (poll_messages E prev alerts) S =
    S \<union> (alert_fingerprint E ` set alerts - set prev) - (set prev - alert_fingerprint E ` set alerts)"
proof -
  let ?cur = "current_alerts E alerts"
  have fire: "alert_fingerprint E (case dict_get ?cur fp of None \<Rightarrow> [] | Some a \<Rightarrow> a) = fp" if "fp \<in> set (map fst ?cur)" for fp
  proof -
    from that obtain a where "dict_get ?cur fp = Some a" by (metis list.set_map map_of_eq_None_iff option.exhaust)
    then show ?thesis using named_alerts_current [of E alerts] by (simp add: named_alerts_def)
  qed
  have "(\<lambda>fp. alert_fingerprint E (case dict_get ?cur fp of None \<Rightarrow> [] | Some a \<Rightarrow> a)) ` set (filter (\<lambda>fp. fp \<notin> set prev) (map fst ?cur)) =
      (\<lambda>fp. fp) ` set (filter (\<lambda>fp. fp \<notin> set prev) (map fst ?cur))"
    by (rule image_cong [OF refl]) (use fire in simp)
  moreover have "(\<lambda>fp. alert_fingerprint E [(''fingerprint'', vstr fp)]) ` set (filter (\<lambda>fp. fp \<notin> set (map fst ?cur)) prev) =
      (\<lambda>fp. fp) ` set (filter (\<lambda>fp. fp \<notin> set (map fst ?cur)) prev)"
    by (rule image_cong [OF refl], rule fingerprint_resolved [OF laws]) (use prev in auto)
  ultimately show ?thesis
    using current_alerts_keys [of E alerts]
    by (simp add: poll_messages_def Let_def heard_firing heard_resolved pick_set [OF laws]) auto
qed

text \<open>A leader's polls, one per state of the world, with what a subscriber has heard.\<close>

definition polls :: "'w poller_env \<Rightarrow> 'w list \<Rightarrow> string list \<times> string set \<Rightarrow> string list \<times> string set" where
  "polls E ws ps =
     fold (\<lambda>w (prev, S). case fst (poll_and_publish E prev w) of (prev', msgs) \<Rightarrow> (prev', fold (heard E) msgs S)) ws ps"

lemma poll_step:
  assumes "poller_laws E" and "[] \<notin> set prev" and "fst (poll_and_publish E prev w) = (prev', msgs)"
  shows "[] \<notin> set prev'" and "set prev = S \<Longrightarrow> set prev' = fold (heard E) msgs S"
    and "pe_client E w \<Longrightarrow> set prev' = alert_fingerprint E ` set (am_get_alerts (pe_am E) w)"
proof -
  let ?alerts = "am_get_alerts (pe_am E) w"
  consider "\<not> pe_client E w" "prev' = prev" "msgs = []"
    | "pe_client E w" "prev' = map fst (current_alerts E ?alerts)" "msgs = poll_messages E prev ?alerts"
    using assms(3) by (auto simp: poll_and_publish_def Let_def split: if_splits)
  note cases = this
  show "[] \<notin> set prev'"
    using cases
  proof cases
    case 2
    then show ?thesis using fingerprint_nonempty [OF assms(1)] current_alerts_keys [of E ?alerts] by (metis imageE)
  qed (use assms(2) in simp)
  show "set prev' = fold (heard E) msgs S" if "set prev = S"
    using cases
  proof cases
    case 2
    then show ?thesis using heard_poll [OF assms(1,2)] current_alerts_keys [of E ?alerts] that by auto
  qed (use that in simp)
  show "set prev' = alert_fingerprint E ` set ?alerts" if "pe_client E w"
    using cases by cases (use that current_alerts_keys [of E ?alerts] in simp_all)
qed

lemma polls_track:
  "poller_laws E \<Longrightarrow> [] \<notin> set prev \<Longrightarrow> set prev = S \<Longrightarrow> polls E ws (prev, S) = (prev', S') \<Longrightarrow> set prev' = S' \<and> [] \<notin> set prev'"
proof (induction ws arbitrary: prev S)
  case Nil
  then show ?case by (simp add: polls_def)
next
  case (Cons w ws)
  obtain prev1 msgs where m: "fst (poll_and_publish E prev w) = (prev1, msgs)" by (meson surj_pair)
  with Cons.prems(4) have "polls E ws (prev1, fold (heard E) msgs S) = (prev', S')" by (simp add: polls_def)
  from Cons.IH [OF Cons.prems(1) poll_step(1) [OF Cons.prems(1,2) m] poll_step(2) [OF Cons.prems(1,2) m Cons.prems(3)] this] show ?case .
qed

section \<open>Properties\<close>

text \<open>
  One poller at a time, while polls are quick. A leader whose polls take less than five seconds each and who reaches Redis keeps the lock for as long
  as it runs: every attempt of another pod, in every turn, is refused. The time of the polls is not counted towards the renewal, so after two polls of
  five seconds the lock has expired when it should be renewed: the leader gives up, and another pod may have taken over before.
\<close>

theorem leader_lock:
  assumes "try_acquire_lock Reached pod now l = (True, l1)"
  shows "((\<forall>(acc, poll)\<in>set turns. acc = Reached \<and> 0 \<le> poll \<and> poll < 5000) \<longrightarrow>
      (\<exists>t l' trace. leader_loop pod 0 now turns l1 = ((True, t, l'), trace) \<and>
         (\<forall>(e, lk)\<in>set trace. \<forall>at\<le>e. \<forall>other. try_acquire_lock Reached other at lk = (False, lk)))) \<and>
    (\<forall>p1 p2 p3. p1 \<ge> 5000 \<and> p2 \<ge> 5000 \<longrightarrow>
      fst (fst (leader_loop pod 0 now [(Reached, p1), (Reached, p2), (Reached, p3)] l1)) = False \<and>
      (\<forall>other. fst (try_acquire_lock Reached other (now + p1 + p2 + 2 * POLL_INTERVAL) l1)))"
proof (intro conjI impI allI)
  have l1: "l1 = Some (pod, now + 30000)" using assms by (auto simp: try_acquire_lock_def lock_times split: if_splits)
  show "\<exists>t l' trace. leader_loop pod 0 now turns l1 = ((True, t, l'), trace) \<and>
         (\<forall>(e, lk)\<in>set trace. \<forall>at\<le>e. \<forall>other. try_acquire_lock Reached other at lk = (False, lk))"
    if "\<forall>(acc, poll)\<in>set turns. acc = Reached \<and> 0 \<le> poll \<and> poll < 5000"
  proof -
    obtain still t l' trace where run: "leader_loop pod 0 now turns l1 = ((still, t, l'), trace)" by (metis prod.collapse)
    from leader_loop_holds [OF that _ _ run [unfolded l1]] have
      "still" "\<forall>(e, lk)\<in>set trace. \<exists>x. lk = Some (pod, x) \<and> e < x" by (simp_all add: lock_slack_def)
    with run show ?thesis by (fastforce simp: try_acquire_lock_def live_owner_def)
  qed
  fix p1 p2 p3 :: time
  assume "p1 \<ge> 5000 \<and> p2 \<ge> 5000"
  then show "fst (fst (leader_loop pod 0 now [(Reached, p1), (Reached, p2), (Reached, p3)] l1)) = False"
    and "fst (try_acquire_lock Reached other (now + p1 + p2 + 2 * POLL_INTERVAL) l1)" for other
    by (simp_all add: l1 lock_times renew_lock_def live_owner_def try_acquire_lock_def Let_def)
qed

theorem leader_lock_witness:
  "fst (fst (leader_loop ''a'' 0 0 [(Reached, 5000), (Reached, 5000), (Reached, 0)] (Some (''a'', 30000)))) = False"
proof -
  have "try_acquire_lock Reached ''a'' 0 None = (True, Some (''a'', 30000))" by (simp add: try_acquire_lock_def live_owner_def lock_times)
  from leader_lock [OF this, THEN conjunct2] show ?thesis by simp
qed

text \<open>
  How long the alerts are without a poller. When the leader stops renewing, a follower takes over after the lock expires and before another 20 seconds
  and the duration of one call have passed: with the 30 seconds of the lock this is up to 50 seconds, not the 30 that the module promises.
\<close>

theorem takeover_delay:
  assumes "\<forall>c\<in>set calls. 0 \<le> c \<and> c \<le> L" and "now < renewed + LOCK_TTL"
    and "renewed + LOCK_TTL - now \<le> LOCK_RENEW_INTERVAL * (int (length calls) - 1)"
  shows "\<exists>t. follower_wait pod now calls (Some (leader, renewed + LOCK_TTL)) = Some t \<and>
    renewed + LOCK_TTL \<le> t \<and> t < renewed + LOCK_TTL + LOCK_RENEW_INTERVAL + L"
proof -
  have "calls \<noteq> []" using assms(2,3) by (auto simp: lock_times)
  then have "0 \<le> L" using assms(1) by (cases calls) auto
  with follower_waits [OF assms(1) _ assms(3) \<open>calls \<noteq> []\<close>] assms(2) show ?thesis by (simp add: lock_times)
qed

theorem takeover_delay_witness: "follower_wait ''b'' 9999 [0, 0, 0] (Some (''a'', 0 + LOCK_TTL)) = Some 49999"
proof -
  have "\<exists>t. follower_wait ''b'' 9999 [0, 0, 0] (Some (''a'', 0 + LOCK_TTL)) = Some t \<and> 0 + LOCK_TTL \<le> t \<and> t < 0 + LOCK_TTL + LOCK_RENEW_INTERVAL + 0"
    by (rule takeover_delay) (simp_all add: lock_times)
  moreover have "follower_wait ''b'' 9999 [0, 0, 0] (Some (''a'', 0 + LOCK_TTL)) = Some t \<Longrightarrow> t = 49999" for t
    by (simp add: try_acquire_lock_def live_owner_def lock_times)
  ultimately show ?thesis by metis
qed

text \<open>
  C34. What the messages tell. A subscriber who hears every message of one leader, from its start on, knows after every poll exactly the alerts the
  leader knows, and these are the alerts the Alertmanager gave, when a Redis client exists. Two things break this. A request to the Alertmanager
  that fails reads as no alerts, so all alerts are announced as resolved. A new leader starts from nothing: it announces what
  is firing but never resolves what ended before, so a subscriber keeps it.
\<close>

theorem alert_stream_tracks:
  assumes laws: "poller_laws E"
  shows "(\<forall>ws prev S. polls E ws ([], {}) = (prev, S) \<longrightarrow> S = set prev) \<and>
    (\<forall>ws w prev S. polls E (ws @ [w]) ([], {}) = (prev, S) \<and> pe_client E w \<longrightarrow>
       S = alert_fingerprint E ` set (am_get_alerts (pe_am E) w)) \<and>
    (\<forall>ws w prev S e. polls E (ws @ [w]) ([], {}) = (prev, S) \<and> pe_client E w \<and> am_fetch (pe_am E) w = Inl e \<longrightarrow> S = {}) \<and>
    (\<forall>w S prev S'. polls E [w] ([], S) = (prev, S') \<and> pe_client E w \<longrightarrow>
       S' = S \<union> alert_fingerprint E ` set (am_get_alerts (pe_am E) w))"
proof -
  have track: "S = set prev" if "polls E ws ([], {}) = (prev, S)" for ws prev S
    using polls_track [OF laws _ _ that] by simp
  have last: "S = alert_fingerprint E ` set (am_get_alerts (pe_am E) w)"
    if run: "polls E (ws @ [w]) ([], {}) = (prev, S)" and up: "pe_client E w" for ws w prev S
  proof -
    obtain prev1 S1 where before: "polls E ws ([], {}) = (prev1, S1)" by (meson surj_pair)
    obtain prev2 msgs where m: "fst (poll_and_publish E prev1 w) = (prev2, msgs)" by (meson surj_pair)
    have "prev = prev2" using run before m by (simp add: polls_def)
    moreover have "[] \<notin> set prev1" using polls_track [OF laws _ _ before] by fastforce
    ultimately show ?thesis using poll_step(3) [OF laws _ m up] track [OF run] by simp
  qed
  have "S = {}" if "polls E (ws @ [w]) ([], {}) = (prev, S)" "pe_client E w" "am_fetch (pe_am E) w = Inl e" for ws w prev S e
    using last [OF that(1,2)] that(3) by (simp add: am_get_alerts_def)
  moreover have "S' = S \<union> alert_fingerprint E ` set (am_get_alerts (pe_am E) w)"
    if "polls E [w] ([], S) = (prev, S')" "pe_client E w" for w S prev S'
    using that heard_poll [OF laws, of "[]" "am_get_alerts (pe_am E) w" S] by (auto simp: polls_def poll_and_publish_def Let_def)
  ultimately show ?thesis using track last by blast
qed

text \<open>An Alertmanager that answers with the alerts of the state, and fails when there are none of them to give.\<close>

definition demo_poller :: "meta list option poller_env" where
  "demo_poller =
     \<lparr>pe_am = \<lparr>am_fetch = (\<lambda>w. case w of None \<Rightarrow> Inl ''timeout'' | Some as \<Rightarrow> Inr as), am_create = (\<lambda>_ w. (Inl [], w)), am_delete = (\<lambda>_ w. (Inl [], w))\<rparr>,
      pe_client = (\<lambda>_. True), pe_publish = (\<lambda>_ _ w. w), pe_sha1 = (\<lambda>_. ''hash''),
      pe_str = (\<lambda>v. if ascii_text v = [] then ''-'' else ascii_text v), pe_pick = id\<rparr>"

theorem alert_stream_tracks_witness:
  "\<exists>prev. polls demo_poller [Some [[(''fingerprint'', vstr ''f1'')]], None] ([], {}) = (prev, {})"
proof -
  have laws: "poller_laws demo_poller"
    by (auto simp: poller_laws_def demo_poller_def ascii_text_vstr)
  obtain prev S where run: "polls demo_poller ([Some [[(''fingerprint'', vstr ''f1'')]]] @ [None]) ([], {}) = (prev, S)" by (meson surj_pair)
  have "pe_client demo_poller None" "am_fetch (pe_am demo_poller) None = Inl ''timeout''" by (simp_all add: demo_poller_def)
  with alert_stream_tracks [OF laws, THEN conjunct2, THEN conjunct2, THEN conjunct1] run have "S = {}" by blast
  with run show ?thesis by auto
qed



end
