(* ===== verification/Pii_Masking.thy ===== *)
theory Pii_Masking
  imports AgentOE_Prelude
begin

text \<open>
  Log records: masking of personal data and the values bound to a task, \<^verbatim>\<open>app/core/logging.py\<close>. The eight patterns are regular expressions of
  Python's \<open>re\<close>: a match is searched by backtracking, greedy repetitions first, and \<open>sub\<close> replaces the leftmost
  matches one after the other. All eight begin and end with a word boundary, which is kept apart from the expression between. What
  Python counts as digit, word character and space beyond ASCII is a parameter.
\<close>

section \<open>Regular expressions\<close>

record unicode =
  un_digit :: "nat \<Rightarrow> bool"
  un_word :: "nat \<Rightarrow> bool"
  un_space :: "nat \<Rightarrow> bool"

definition in_range :: "char \<Rightarrow> char \<Rightarrow> nat \<Rightarrow> bool" where
  "in_range a b c \<longleftrightarrow> of_char a \<le> c \<and> c \<le> of_char b"

definition is_digit :: "unicode \<Rightarrow> nat \<Rightarrow> bool" where
  "is_digit U c \<longleftrightarrow> in_range CHR ''0'' CHR ''9'' c \<or> c \<ge> 128 \<and> un_digit U c"

definition is_upper :: "nat \<Rightarrow> bool" where "is_upper c \<longleftrightarrow> in_range CHR ''A'' CHR ''Z'' c"

definition is_word :: "unicode \<Rightarrow> nat \<Rightarrow> bool" where
  "is_word U c \<longleftrightarrow> in_range CHR ''0'' CHR ''9'' c \<or> is_upper c \<or> in_range CHR ''a'' CHR ''z'' c \<or> c = of_char CHR ''_'' \<or>
     c \<ge> 128 \<and> un_word U c"

definition is_space_char :: "unicode \<Rightarrow> nat \<Rightarrow> bool" where
  "is_space_char U c \<longleftrightarrow> 9 \<le> c \<and> c \<le> 13 \<or> 28 \<le> c \<and> c \<le> 32 \<or> c \<ge> 128 \<and> un_space U c"

definition one_of :: "string \<Rightarrow> nat \<Rightarrow> bool" where "one_of s c \<longleftrightarrow> c \<in> set (of_str s)"

text \<open>A class, a sequence, a bounded repetition, and one or more of a class.\<close>

datatype rx = Cls "nat \<Rightarrow> bool" | Seq rx rx | Rep rx nat nat | Plus "nat \<Rightarrow> bool"

abbreviation Opt :: "rx \<Rightarrow> rx" where "Opt r \<equiv> Rep r 0 1"

text \<open>What is left of the text after a match, in the order in which the alternatives are tried.\<close>

fun rep :: "(ustr \<Rightarrow> ustr list) \<Rightarrow> nat \<Rightarrow> nat \<Rightarrow> ustr \<Rightarrow> ustr list" where
  "rep f m 0 s = (if m = 0 then [s] else [])"
| "rep f m (Suc n) s = concat (map (rep f (m - 1) n) (f s)) @ (if m = 0 then [s] else [])"

fun stars :: "(nat \<Rightarrow> bool) \<Rightarrow> ustr \<Rightarrow> ustr list" where
  "stars p [] = [[]]"
| "stars p (c # t) = (if p c then stars p t @ [c # t] else [c # t])"

primrec ends :: "rx \<Rightarrow> ustr \<Rightarrow> ustr list" where
  "ends (Cls p) s = (case s of [] \<Rightarrow> [] | c # t \<Rightarrow> if p c then [t] else [])"
| "ends (Seq a b) s = concat (map (ends b) (ends a s))"
| "ends (Rep r m n) s = rep (ends r) m n s"
| "ends (Plus p) s = (case s of [] \<Rightarrow> [] | c # t \<Rightarrow> if p c then stars p t else [])"

text \<open>A word boundary between the character before and the one after; an end of the text is not a word character.\<close>

definition word_at :: "unicode \<Rightarrow> nat option \<Rightarrow> bool" where
  "word_at U c = (case c of None \<Rightarrow> False | Some c \<Rightarrow> is_word U c)"

definition boundary :: "unicode \<Rightarrow> nat option \<Rightarrow> nat option \<Rightarrow> bool" where
  "boundary U before after \<longleftrightarrow> word_at U before \<noteq> word_at U after"

definition first_char :: "ustr \<Rightarrow> nat option" where
  "first_char s = (case s of [] \<Rightarrow> None | c # _ \<Rightarrow> Some c)"

definition last_char :: "nat option \<Rightarrow> ustr \<Rightarrow> nat option" where
  "last_char before u = (if u = [] then before else Some (last u))"

text \<open>The text consumed when \<open>rest\<close> is left of \<open>s\<close>.\<close>

definition consumed :: "ustr \<Rightarrow> ustr \<Rightarrow> ustr" where
  "consumed s rest = take (length s - length rest) s"

definition match_at :: "unicode \<Rightarrow> rx \<Rightarrow> nat option \<Rightarrow> ustr \<Rightarrow> ustr option" where
  "match_at U r before s =
     (if boundary U before (first_char s)
      then find (\<lambda>rest. boundary U (last_char before (consumed s rest)) (first_char rest)) (ends r s)
      else None)"

text \<open>\<open>pattern.sub(token, text)\<close>, from a position on; every match of the patterns consumes something.\<close>

function sub :: "unicode \<Rightarrow> rx \<Rightarrow> ustr \<Rightarrow> nat option \<Rightarrow> ustr \<Rightarrow> ustr" where
  "sub U r token before [] = []"
| "sub U r token before (c # t) =
     (case match_at U r before (c # t) of
        Some rest \<Rightarrow>
          if length rest < length (c # t) then token @ sub U r token (last_char before (consumed (c # t) rest)) rest
          else c # sub U r token (Some c) t
      | None \<Rightarrow> c # sub U r token (Some c) t)"
  by pat_completeness auto
termination
  by (relation "measure (\<lambda>(U, r, token, before, s). length s)") auto

section \<open>Patterns\<close>

definition dgt :: "unicode \<Rightarrow> rx" where "dgt U = Cls (is_digit U)"
definition chr :: "char \<Rightarrow> rx" where "chr c = Cls (\<lambda>x. x = of_char c)"
definition gap :: "unicode \<Rightarrow> rx" where "gap U = Opt (Cls (\<lambda>c. is_space_char U c \<or> c = of_char CHR ''-''))"
definition dgts :: "unicode \<Rightarrow> nat \<Rightarrow> nat \<Rightarrow> rx" where "dgts U m n = Rep (dgt U) m n"

fun seqs :: "rx list \<Rightarrow> rx" where
  "seqs [r] = r"
| "seqs (r # rs) = Seq r (seqs rs)"
| "seqs [] = Rep (Cls (\<lambda>_. False)) 0 0"

definition rx_rrn :: "unicode \<Rightarrow> rx" where "rx_rrn U = seqs [dgts U 6 6, gap U, dgts U 7 7]"

definition rx_email :: "unicode \<Rightarrow> rx" where
  "rx_email U =
     seqs [Plus (\<lambda>c. is_word U c \<or> one_of ''.+-'' c), chr CHR ''@'', Plus (\<lambda>c. is_word U c \<or> one_of ''-'' c), chr CHR ''.'',
           Plus (\<lambda>c. is_word U c \<or> one_of ''.-'' c)]"

definition rx_credit_card :: "unicode \<Rightarrow> rx" where
  "rx_credit_card U = seqs [Rep (Seq (dgt U) (Opt (Cls (one_of '' -'')))) 13 19, dgt U]"

definition rx_phone_kr :: "unicode \<Rightarrow> rx" where
  "rx_phone_kr U = seqs [chr CHR ''0'', chr CHR ''1'', Cls (one_of ''016789''), gap U, dgts U 3 4, gap U, dgts U 4 4]"

definition rx_phone_gen :: "unicode \<Rightarrow> rx" where
  "rx_phone_gen U = seqs [chr CHR ''0'', dgts U 1 2, gap U, dgts U 3 4, gap U, dgts U 4 4]"

definition rx_bank :: "unicode \<Rightarrow> rx" where
  "rx_bank U = seqs [dgts U 3 6, chr CHR ''-'', dgts U 2 6, chr CHR ''-'', dgts U 2 6, Opt (Seq (chr CHR ''-'') (dgts U 1 6))]"

definition rx_ipv4 :: "unicode \<Rightarrow> rx" where
  "rx_ipv4 U = seqs [Rep (Seq (dgts U 1 3) (chr CHR ''.'')) 3 3, dgts U 1 3]"

definition rx_passport :: "unicode \<Rightarrow> rx" where
  "rx_passport U = seqs [Rep (Cls is_upper) 1 2, dgts U 7 8]"

definition PII_PATTERNS :: "unicode \<Rightarrow> (rx \<times> string) list" where
  "PII_PATTERNS U =
     [(rx_rrn U, ''[RRN]''), (rx_email U, ''[EMAIL]''), (rx_credit_card U, ''[CARD]''), (rx_phone_kr U, ''[PHONE]''),
      (rx_phone_gen U, ''[PHONE]''), (rx_bank U, ''[ACCT]''), (rx_ipv4 U, ''[IP]''), (rx_passport U, ''[PASSPORT]'')]"

definition PII_SAFE_KEYS :: "string list" where
  "PII_SAFE_KEYS =
     [''session_id'', ''tenant_id'', ''request_id'', ''client_id'', ''trace_id'', ''span_id'', ''event'', ''level'', ''timestamp'', ''logger'',
      ''stage'', ''pipeline_stage'', ''policy_level'', ''latency_ms'', ''status_code'', ''path'', ''method'', ''model'', ''circuit_state'', ''severity'']"

definition mask_pii :: "unicode \<Rightarrow> bool \<Rightarrow> ustr \<Rightarrow> ustr" where
  "mask_pii U enabled text = (if enabled then fold (\<lambda>(r, token) s. sub U r (of_str token) None s) (PII_PATTERNS U) text else text)"

definition mask_item :: "unicode \<Rightarrow> pyval \<Rightarrow> pyval" where
  "mask_item U v = (case v of VStr s \<Rightarrow> VStr (mask_pii U True s) | _ \<Rightarrow> v)"

text \<open>The loop of \<open>mask_pii_dict\<close>; with masking off the record is returned as it is, as in \<open>pii_processor\<close> below.\<close>

fun mask_pii_dict :: "unicode \<Rightarrow> meta \<Rightarrow> meta" where
  "mask_pii_dict U [] = []"
| "mask_pii_dict U ((k, v) # d) =
     (k, if k \<in> set PII_SAFE_KEYS then v
         else (case v of
                 VStr s \<Rightarrow> VStr (mask_pii U True s)
               | VDict e \<Rightarrow> VDict (mask_pii_dict U e)
               | VList vs \<Rightarrow> VList (map (mask_item U) vs)
               | _ \<Rightarrow> v)) # mask_pii_dict U d"

definition pii_processor :: "unicode \<Rightarrow> bool \<Rightarrow> meta \<Rightarrow> meta" where
  "pii_processor U enabled event_dict = (if enabled then mask_pii_dict U event_dict else event_dict)"

section \<open>Bound values\<close>

text \<open>The values bound in a task, as \<open>structlog\<close> merges them into every record.\<close>

definition bind_contextvars :: "meta \<Rightarrow> meta \<Rightarrow> meta" where "bind_contextvars kvs ctx = dict_update ctx kvs"

definition unbind_contextvars :: "string list \<Rightarrow> meta \<Rightarrow> meta" where "unbind_contextvars ks ctx = fold dict_pop ks ctx"

definition given :: "string \<Rightarrow> ustr option \<Rightarrow> meta" where
  "given k v = (case v of None \<Rightarrow> [] | Some s \<Rightarrow> if s = [] then [] else [(k, VStr s)])"

text \<open>\<open>new_rid\<close> is the start of a random UUID.\<close>

definition bind_request_context ::
  "ustr \<Rightarrow> ustr option \<Rightarrow> ustr option \<Rightarrow> ustr option \<Rightarrow> ustr option \<Rightarrow> ustr option \<Rightarrow> meta \<Rightarrow> ustr \<times> meta" where
  "bind_request_context new_rid request_id tenant_id client_id path method ctx =
     (let rid = (case request_id of None \<Rightarrow> new_rid | Some r \<Rightarrow> if r = [] then new_rid else r)
      in (rid, bind_contextvars
                 ([(''request_id'', VStr rid)] @ given ''tenant_id'' tenant_id @ given ''client_id'' client_id @ given ''path'' path @
                  given ''method'' method) ctx))"

definition bind_session_context :: "ustr \<Rightarrow> ustr option \<Rightarrow> ustr option \<Rightarrow> meta \<Rightarrow> meta" where
  "bind_session_context session_id tenant_id client_id =
     bind_contextvars ([(''session_id'', VStr session_id)] @ given ''tenant_id'' tenant_id @ given ''client_id'' client_id)"

definition bind_pipeline_context :: "ustr \<Rightarrow> ustr option \<Rightarrow> meta \<Rightarrow> meta" where
  "bind_pipeline_context stage policy_level = bind_contextvars ([(''pipeline_stage'', VStr stage)] @ given ''policy_level'' policy_level)"

definition clear_request_context :: "meta \<Rightarrow> meta" where "clear_request_context ctx = []"

text \<open>A block with values bound for its duration; the block may raise, the keys are unbound in any case.\<close>

definition scoped_context :: "(string \<times> pyval) list \<Rightarrow> (meta \<Rightarrow> 'r \<times> meta) \<Rightarrow> meta \<Rightarrow> 'r \<times> meta" where
  "scoped_context kwargs block ctx =
     (let kvs = filter (\<lambda>(k, v). v \<noteq> VNone) kwargs
      in case block (bind_contextvars kvs ctx) of (r, ctx') \<Rightarrow> (r, unbind_contextvars (map fst kvs) ctx'))"

section \<open>What the matcher finds\<close>

text \<open>The language of an expression, for the statements about the matcher.\<close>

primrec lang :: "rx \<Rightarrow> ustr \<Rightarrow> bool" where
  "lang (Cls p) u = (\<exists>c. u = [c] \<and> p c)"
| "lang (Seq a b) u = (\<exists>x y. u = x @ y \<and> lang a x \<and> lang b y)"
| "lang (Rep r m n) u = (\<exists>xs. u = concat xs \<and> m \<le> length xs \<and> length xs \<le> n \<and> (\<forall>x\<in>set xs. lang r x))"
| "lang (Plus p) u = (u \<noteq> [] \<and> (\<forall>c\<in>set u. p c))"

lemma rep_lang:
  assumes f: "\<And>s v. v \<in> set (f s) \<longleftrightarrow> (\<exists>u. s = u @ v \<and> L u)"
  shows "v \<in> set (rep f m n s) \<longleftrightarrow> (\<exists>xs. s = concat xs @ v \<and> m \<le> length xs \<and> length xs \<le> n \<and> (\<forall>x\<in>set xs. L x))"
proof (induction n arbitrary: m s)
  case 0
  show ?case by auto
next
  case (Suc n)
  have split: "(\<exists>s'\<in>set (f s). Q s') \<longleftrightarrow> (\<exists>u s'. s = u @ s' \<and> L u \<and> Q s')" for Q using f by blast
  have "v \<in> set (rep f m (Suc n) s) \<longleftrightarrow> (\<exists>s'\<in>set (f s). v \<in> set (rep f (m - 1) n s')) \<or> m = 0 \<and> v = s"
    by auto
  also have "\<dots> \<longleftrightarrow>
      (\<exists>u s'. s = u @ s' \<and> L u \<and> (\<exists>xs. s' = concat xs @ v \<and> m - 1 \<le> length xs \<and> length xs \<le> n \<and> (\<forall>x\<in>set xs. L x))) \<or> m = 0 \<and> v = s"
    unfolding split Suc.IH ..
  also have "\<dots> \<longleftrightarrow> (\<exists>xs. s = concat xs @ v \<and> m \<le> length xs \<and> length xs \<le> Suc n \<and> (\<forall>x\<in>set xs. L x))" (is "?l \<longleftrightarrow> ?r")
  proof
    assume ?l
    then show ?r
    proof (elim disjE exE conjE)
      fix u s' xs
      assume "s = u @ s'" "L u" "s' = concat xs @ v" "m - 1 \<le> length xs" "length xs \<le> n" "\<forall>x\<in>set xs. L x"
      then show ?r by (intro exI [of _ "u # xs"]) auto
    next
      assume "m = 0" "v = s"
      then show ?r by (intro exI [of _ "[]"]) auto
    qed
  next
    assume ?r
    then obtain xs where xs: "s = concat xs @ v" "m \<le> length xs" "length xs \<le> Suc n" "\<forall>x\<in>set xs. L x" by blast
    show ?l
    proof (cases xs)
      case Nil
      with xs show ?thesis by simp
    next
      case (Cons y ys)
      with xs show ?thesis by (intro disjI1 exI [of _ y] exI [of _ "concat ys @ v"] conjI exI [of _ ys]) auto
    qed
  qed
  finally show ?case .
qed

lemma stars_lang: "v \<in> set (stars p s) \<longleftrightarrow> (\<exists>u. s = u @ v \<and> (\<forall>c\<in>set u. p c))"
proof (induction s)
  case (Cons c t)
  show ?case
  proof
    assume "v \<in> set (stars p (c # t))"
    then consider "p c" "\<exists>u. t = u @ v \<and> (\<forall>c\<in>set u. p c)" | "v = c # t" using Cons by (auto split: if_splits)
    then show "\<exists>u. c # t = u @ v \<and> (\<forall>c\<in>set u. p c)"
      by cases (metis append_Cons set_ConsD, metis append_Nil empty_iff empty_set)
  next
    assume "\<exists>u. c # t = u @ v \<and> (\<forall>c\<in>set u. p c)"
    then obtain u where u: "c # t = u @ v" "\<forall>c\<in>set u. p c" by blast
    show "v \<in> set (stars p (c # t))" using u Cons by (cases u) auto
  qed
qed simp

lemma ends_lang: "v \<in> set (ends r s) \<longleftrightarrow> (\<exists>u. s = u @ v \<and> lang r u)"
proof (induction r arbitrary: s v)
  case (Cls p)
  show ?case by (cases s) auto
next
  case (Seq a b)
  show ?case by (auto simp: Seq) (metis append.assoc)
next
  case (Rep r m n)
  then show ?case using rep_lang [of "ends r" "lang r"] by auto
next
  case (Plus p)
  show ?case
  proof (cases s)
    case (Cons c t)
    show ?thesis
    proof
      assume "v \<in> set (ends (Plus p) s)"
      then have "p c" "\<exists>u. t = u @ v \<and> (\<forall>c\<in>set u. p c)" using Cons by (auto simp: stars_lang split: if_splits)
      then obtain u where "t = u @ v" "\<forall>c\<in>set u. p c" by blast
      with \<open>p c\<close> Cons show "\<exists>u. s = u @ v \<and> lang (Plus p) u" by (intro exI [of _ "c # u"]) auto
    next
      assume "\<exists>u. s = u @ v \<and> lang (Plus p) u"
      then obtain u where "s = u @ v" "u \<noteq> []" "\<forall>c\<in>set u. p c" by auto
      with Cons show "v \<in> set (ends (Plus p) s)" by (cases u) (auto simp: stars_lang)
    qed
  qed auto
qed

lemma consumed_append [simp]: "consumed (u @ v) v = u"
  by (simp add: consumed_def)

text \<open>A position that is scanned and not replaced carries no match.\<close>

lemma match_at_complete:
  assumes "boundary U before (first_char (u @ v))" and "lang r u" and "boundary U (last_char before u) (first_char v)"
  shows "match_at U r before (u @ v) \<noteq> None"
proof -
  have "v \<in> set (ends r (u @ v))" using assms(2) ends_lang by blast
  then show ?thesis using assms by (auto simp: match_at_def find_None_iff)
qed

lemma match_at_sound:
  assumes "match_at U r before s = Some v"
  shows "\<exists>u. s = u @ v \<and> lang r u" and "boundary U before (first_char s)"
    and "boundary U (last_char before (consumed s v)) (first_char v)"
  using assms find_SomeD [of _ "ends r s" v] ends_lang [of v r s] by (auto simp: match_at_def split: if_splits)

definition has_match :: "unicode \<Rightarrow> rx \<Rightarrow> nat option \<Rightarrow> ustr \<Rightarrow> bool" where
  "has_match U r before s \<longleftrightarrow>
     (\<exists>a u b. s = a @ u @ b \<and> lang r u \<and> boundary U (last_char before a) (first_char (u @ b)) \<and>
        boundary U (last_char before (a @ u)) (first_char b))"

text \<open>
  Tokens are upper-case letters in brackets; the matches of an expression have no brackets and something else than such letters.
\<close>

definition bracketed :: "ustr \<Rightarrow> bool" where
  "bracketed token \<longleftrightarrow> (\<exists>w. token = 91 # w @ [93] \<and> (\<forall>c\<in>set w. is_upper c))"

definition apart :: "rx \<Rightarrow> bool" where
  "apart r \<longleftrightarrow> (\<forall>u. lang r u \<longrightarrow> 91 \<notin> set u \<and> 93 \<notin> set u \<and> (\<exists>c\<in>set u. \<not> is_upper c))"

lemma sub_plain_prefix:
  assumes "bracketed token"
  shows "sub U r token before s = x @ b \<Longrightarrow> 91 \<notin> set x \<Longrightarrow> \<exists>s'. s = x @ s' \<and> b = sub U r token (last_char before x) s'"
proof (induction x arbitrary: before s)
  case Nil
  then show ?case by (simp add: last_char_def)
next
  case (Cons d x)
  obtain w where token: "token = 91 # w" using assms by (auto simp: bracketed_def)
  show ?case
  proof (cases s)
    case Nil
    with Cons.prems(1) show ?thesis by simp
  next
    fix c t
    assume s: "s = c # t"
    have "sub U r token before s = c # sub U r token (Some c) t"
      using Cons.prems s token by (auto split: option.splits if_splits)
    with Cons.prems have "d = c" "sub U r token (Some c) t = x @ b" "91 \<notin> set x" by auto
    with Cons.IH [OF this(2,3)] obtain s' where "t = x @ s'" "b = sub U r token (last_char (Some c) x) s'" by blast
    then show ?thesis using s \<open>d = c\<close> by (intro exI [of _ s']) (auto simp: last_char_def)
  qed
qed

lemma sub_first_boundary:
  assumes "boundary U before (first_char (sub U r token before s))" and "bracketed token" "is_word U 91 = False"
  shows "boundary U before (first_char s)"
proof (cases s)
  case (Cons c t)
  show ?thesis
  proof (cases "match_at U r before (c # t)")
    case None
    with assms(1) Cons show ?thesis by (simp add: first_char_def)
  next
    case (Some v)
    then show ?thesis using match_at_sound(2) Cons by blast
  qed
qed (use assms in simp)

text \<open>
  A match in the text after a substitution is a match in the text before it, at a position that was scanned and kept.
\<close>

lemma sub_match_was_there:
  assumes token: "bracketed token" and core: "apart core" "lang core u" and r: "apart r" and "is_word U 91 = False"
  shows "sub U r token before s = a @ u @ b \<Longrightarrow> boundary U (last_char out a) (first_char (u @ b)) \<Longrightarrow>
    boundary U (last_char out (a @ u)) (first_char b) \<Longrightarrow> out = before \<or> s = [] \<or> boundary U before (first_char s) \<Longrightarrow>
    \<exists>a' b'. s = a' @ u @ b' \<and> boundary U (last_char before a') (first_char (u @ b')) \<and>
      boundary U (last_char before (a' @ u)) (first_char b') \<and> match_at U r (last_char before a') (u @ b') = None"
proof (induction "length s" arbitrary: s before a out rule: less_induct)
  case less
  have u: "u \<noteq> []" "91 \<notin> set u" "93 \<notin> set u" "\<exists>c\<in>set u. \<not> is_upper c" using core by (auto simp: apart_def)
  obtain c t where s: "s = c # t" using less.prems(1) u(1) by (cases s) auto
  show ?case
  proof (cases "match_at U r before s")
    case None
    show ?thesis
    proof (cases a)
      case Nil
      then obtain s' where s': "s = u @ s'" "b = sub U r token (last_char before u) s'"
        using sub_plain_prefix [OF token _ u(2), of U r before s b] less.prems(1) by auto
      have "boundary U before (first_char (u @ s'))"
        using less.prems(2,4) u(1) s' Nil by (cases u) (auto simp: last_char_def first_char_def)
      moreover have "boundary U (last_char before u) (first_char s')"
        using sub_first_boundary [OF _ token assms(5)] less.prems(3) s' Nil u(1) by (simp add: last_char_def)
      ultimately show ?thesis using s' None by (intro exI [of _ "[]"] exI [of _ s']) (simp add: last_char_def)
    next
      case (Cons d a2)
      then have sub: "d = c" "sub U r token (Some c) t = a2 @ u @ b" using less.prems(1) None s by auto
      have last: "last_char out (a @ x) = last_char (Some c) (a2 @ x)" for x using Cons sub(1) by (simp add: last_char_def)
      obtain a' b' where ab: "t = a' @ u @ b'" "boundary U (last_char (Some c) a') (first_char (u @ b'))"
        "boundary U (last_char (Some c) (a' @ u)) (first_char b')" "match_at U r (last_char (Some c) a') (u @ b') = None"
        using less.hyps [of t "Some c" a2 "Some c"] sub(2) less.prems(2,3) last [of "[]"] last [of u] s by auto
      have "last_char before ((c # a') @ x) = last_char (Some c) (a' @ x)" for x by (simp add: last_char_def)
      from this [of "[]"] this [of u] ab s show ?thesis by (intro exI [of _ "c # a'"] exI [of _ b']) simp
    qed
  next
    case (Some v)
    let ?q = "last_char before (consumed s v)"
    obtain x where x: "s = x @ v" "lang r x" using match_at_sound(1) [OF Some] by blast
    then have "x \<noteq> []" using r by (auto simp: apart_def)
    then have "length v < length s" using x(1) by simp
    then have out: "token @ sub U r token ?q v = a @ u @ b" using less.prems(1) Some s by auto
    obtain w where w: "token = 91 # w @ [93]" "\<forall>c\<in>set w. is_upper c" using token by (auto simp: bracketed_def)
    from out consider a2 where "a = token @ a2" "sub U r token ?q v = a2 @ u @ b"
      | z where "token = a @ z" "z \<noteq> []" "z @ sub U r token ?q v = u @ b"
    proof -
      from out obtain zs where "token = a @ zs \<and> zs @ sub U r token ?q v = u @ b \<or> token @ zs = a \<and> sub U r token ?q v = zs @ u @ b"
        unfolding append_eq_append_conv2 by blast
      then show thesis using that by (cases "zs = []") auto
    qed
    then show ?thesis
    proof cases
      case 1
      have last: "last_char out (a @ y) = last_char (Some 93) (a2 @ y)" for y using 1(1) w(1) by (simp add: last_char_def)
      obtain a' b' where ab: "v = a' @ u @ b'" "boundary U (last_char ?q a') (first_char (u @ b'))"
        "boundary U (last_char ?q (a' @ u)) (first_char b')" "match_at U r (last_char ?q a') (u @ b') = None"
        using less.hyps [of v ?q a2 "Some 93"] \<open>length v < length s\<close> 1(2) less.prems(2,3) last [of "[]"] last [of u] match_at_sound(3) [OF Some]
        by auto
      have "last_char before ((x @ a') @ y) = last_char ?q (a' @ y)" for y using \<open>x \<noteq> []\<close> x(1) by (simp add: last_char_def)
      from this [of "[]"] this [of u] ab x(1) show ?thesis by (intro exI [of _ "x @ a'"] exI [of _ b']) simp
    next
      case 2
      have "93 \<in> set z" using 2(1,2) w(1) by (metis append_is_Nil_conv last_appendR last_in_set last_ConsR list.distinct(1) last_snoc)
      then have "\<not> (\<exists>y. u = z @ y)" using u(3) by auto
      then obtain y where "z = u @ y" using 2(3) by (auto simp: append_eq_append_conv2)
      then have "set u \<subseteq> set token" using 2(1) by auto
      then have "\<forall>c\<in>set u. is_upper c" using u(2,3) w by auto
      then show ?thesis using u(4) by blast
    qed
  qed
qed

lemma sub_no_new_match:
  assumes "bracketed token" "apart core" "apart r" "is_word U 91 = False" and "has_match U core None (sub U r token None s)"
  shows "has_match U core None s"
proof -
  obtain a u b where "sub U r token None s = a @ u @ b" "lang core u" "boundary U (last_char None a) (first_char (u @ b))"
    "boundary U (last_char None (a @ u)) (first_char b)" using assms(5) unfolding has_match_def by blast
  from sub_match_was_there [OF assms(1,2) this(2) assms(3,4) this(1,3,4)] \<open>lang core u\<close> show ?thesis unfolding has_match_def by blast
qed

lemma sub_clears:
  assumes "bracketed token" "apart r" "is_word U 91 = False"
  shows "\<not> has_match U r None (sub U r token None s)"
proof
  assume "has_match U r None (sub U r token None s)"
  then obtain a u b where "sub U r token None s = a @ u @ b" "lang r u" "boundary U (last_char None a) (first_char (u @ b))"
    "boundary U (last_char None (a @ u)) (first_char b)" unfolding has_match_def by blast
  from sub_match_was_there [OF assms(1,2) this(2) assms(2,3) this(1,3,4)] obtain a' b' where
    "boundary U (last_char None a') (first_char (u @ b'))" "boundary U (last_char None (a' @ u)) (first_char b')"
    "match_at U r (last_char None a') (u @ b') = None" by blast
  moreover have "last_char None (a' @ u) = last_char (last_char None a') u" using \<open>lang r u\<close> assms(2) by (auto simp: last_char_def apart_def)
  ultimately show False using match_at_complete \<open>lang r u\<close> by metis
qed

section \<open>The patterns are apart from the tokens\<close>

text \<open>A digit is a word character, in Python as in Unicode, and characters beyond ASCII are not brackets.\<close>

lemma brackets:
  "\<not> is_digit U 91" "\<not> is_digit U 93" "\<not> is_word U 91" "\<not> is_word U 93" "\<not> is_space_char U 91" "\<not> is_space_char U 93" "\<not> is_upper 91" "\<not> is_upper 93"
  by (simp_all add: is_digit_def is_word_def is_space_char_def is_upper_def in_range_def)

lemma digit_not_upper: "is_digit U c \<Longrightarrow> \<not> is_upper c"
  by (auto simp: is_digit_def is_upper_def in_range_def)

text \<open>Every match is made of allowed characters, and contains a digit or an at sign.\<close>

primrec chars_ok :: "(nat \<Rightarrow> bool) \<Rightarrow> rx \<Rightarrow> bool" where
  "chars_ok P (Cls p) = (\<forall>c. p c \<longrightarrow> P c)"
| "chars_ok P (Seq a b) = (chars_ok P a \<and> chars_ok P b)"
| "chars_ok P (Rep r m n) = chars_ok P r"
| "chars_ok P (Plus p) = (\<forall>c. p c \<longrightarrow> P c)"

primrec must_have :: "(nat \<Rightarrow> bool) \<Rightarrow> rx \<Rightarrow> bool" where
  "must_have P (Cls p) = (\<forall>c. p c \<longrightarrow> P c)"
| "must_have P (Seq a b) = (must_have P a \<or> must_have P b)"
| "must_have P (Rep r m n) = (m > 0 \<and> must_have P r)"
| "must_have P (Plus p) = (\<forall>c. p c \<longrightarrow> P c)"

lemma chars_ok_lang: "chars_ok P r \<Longrightarrow> lang r u \<Longrightarrow> \<forall>c\<in>set u. P c"
  by (induction r arbitrary: u) fastforce+

lemma must_have_lang: "must_have P r \<Longrightarrow> lang r u \<Longrightarrow> \<exists>c\<in>set u. P c"
proof (induction r arbitrary: u)
  case (Rep r m n)
  then obtain xs where xs: "u = concat xs" "m \<le> length xs" "\<forall>x\<in>set xs. lang r x" by auto
  then obtain x where "x \<in> set xs" using Rep.prems(1) by (cases xs) auto
  with xs Rep show ?case by fastforce
next
  case (Plus p)
  then show ?case by (cases u) auto
qed fastforce+

lemma apartI: "chars_ok (\<lambda>c. c \<noteq> 91 \<and> c \<noteq> 93) r \<Longrightarrow> must_have (\<lambda>c. \<not> is_upper c) r \<Longrightarrow> apart r"
  using chars_ok_lang [of "\<lambda>c. c \<noteq> 91 \<and> c \<noteq> 93" r] must_have_lang [of "\<lambda>c. \<not> is_upper c" r] unfolding apart_def by blast

lemmas rx_defs = rx_rrn_def rx_email_def rx_credit_card_def rx_phone_kr_def rx_phone_gen_def rx_bank_def rx_ipv4_def rx_passport_def
  dgts_def dgt_def gap_def chr_def one_of_def of_str_def

lemma patterns_apart: "(r, token) \<in> set (PII_PATTERNS U) \<Longrightarrow> apart r"
proof (rule apartI)
  assume p: "(r, token) \<in> set (PII_PATTERNS U)"
  show "chars_ok (\<lambda>c. c \<noteq> 91 \<and> c \<noteq> 93) r"
    using p brackets by (auto simp: PII_PATTERNS_def rx_defs)
  show "must_have (\<lambda>c. \<not> is_upper c) r"
    using p digit_not_upper [of U] by (auto simp: PII_PATTERNS_def rx_defs is_upper_def in_range_def)
qed

lemma tokens_bracketed: "(r, token) \<in> set (PII_PATTERNS U) \<Longrightarrow> bracketed (of_str token)"
  by (auto simp: PII_PATTERNS_def bracketed_def of_str_def is_upper_def in_range_def intro: exI [of _ "map of_char (butlast (tl token))"])

lemma sub_unchanged: "\<not> has_match U r before s \<Longrightarrow> sub U r token before s = s"
proof (induction s arbitrary: before)
  case (Cons c t)
  have "match_at U r before (c # t) = None"
  proof (rule ccontr)
    assume "match_at U r before (c # t) \<noteq> None"
    then obtain v where v: "match_at U r before (c # t) = Some v" by blast
    from match_at_sound [OF v] obtain u where "c # t = u @ v" "lang r u" by blast
    with match_at_sound(2,3) [OF v] have "has_match U r before (c # t)"
      unfolding has_match_def by (intro exI [of _ "[]"] exI [of _ u] exI [of _ v]) (simp add: last_char_def)
    with Cons.prems show False by simp
  qed
  moreover have "\<not> has_match U r (Some c) t"
  proof
    assume "has_match U r (Some c) t"
    then obtain a u b where "t = a @ u @ b" "lang r u" "boundary U (last_char (Some c) a) (first_char (u @ b))"
      "boundary U (last_char (Some c) (a @ u)) (first_char b)" unfolding has_match_def by blast
    then have "has_match U r before (c # t)"
      unfolding has_match_def by - (rule exI [of _ "c # a"], rule exI [of _ u], rule exI [of _ b], auto simp: last_char_def split: if_splits)
    with Cons.prems show False by simp
  qed
  ultimately show ?case using Cons.IH by simp
qed simp

lemma subs_clear:
  assumes "set ps \<subseteq> set (PII_PATTERNS U)" and "(r, token) \<in> set (PII_PATTERNS U)"
    and "(r, token) \<in> set ps \<or> \<not> has_match U r None msg"
  shows "\<not> has_match U r None (fold (\<lambda>(r, token) s. sub U r (of_str token) None s) ps msg)"
  using assms(1,3)
proof (induction ps arbitrary: msg)
  case (Cons p ps)
  obtain r' token' where p: "p = (r', token')" by (cases p)
  with Cons.prems(1) have p': "(r', token') \<in> set (PII_PATTERNS U)" by simp
  note facts = tokens_bracketed [OF p'] patterns_apart [OF p']
  have "(r, token) \<in> set ps \<or> \<not> has_match U r None (sub U r' (of_str token') None msg)"
  proof (cases "(r, token) = (r', token')")
    case True
    then show ?thesis using sub_clears [OF facts] brackets(3) by simp
  next
    case False
    then show ?thesis
      using Cons.prems(2) p sub_no_new_match [OF facts(1) patterns_apart [OF assms(2)] facts(2)] brackets(3) by auto
  qed
  with Cons.IH [of "sub U r' (of_str token') None msg"] Cons.prems(1) show ?case by (simp add: p)
qed simp

lemma mask_pii_id: "(\<And>r token. (r, token) \<in> set (PII_PATTERNS U) \<Longrightarrow> \<not> has_match U r None msg) \<Longrightarrow> mask_pii U True msg = msg"
proof -
  assume none: "\<And>r token. (r, token) \<in> set (PII_PATTERNS U) \<Longrightarrow> \<not> has_match U r None msg"
  have "set ps \<subseteq> set (PII_PATTERNS U) \<Longrightarrow> fold (\<lambda>(r, token) s. sub U r (of_str token) None s) ps msg = msg" for ps
    by (induction ps) (auto simp: sub_unchanged none)
  then show ?thesis by (simp add: mask_pii_def)
qed

lemma mask_pii_clears: "(r, token) \<in> set (PII_PATTERNS U) \<Longrightarrow> \<not> has_match U r None (mask_pii U True msg)"
  using subs_clear [of "PII_PATTERNS U" U r token msg] by (simp add: mask_pii_def)

lemma mask_pii_idem: "mask_pii U True (mask_pii U True msg) = mask_pii U True msg"
  by (rule mask_pii_id) (rule mask_pii_clears)

text \<open>No character beyond ASCII counts.\<close>

definition ascii :: unicode where
  "ascii = \<lparr>un_digit = (\<lambda>_. False), un_word = (\<lambda>_. False), un_space = (\<lambda>_. False)\<rparr>"

section \<open>Properties\<close>

text \<open>
  C37. Masking is complete and changes nothing else. After it no part of the text between word boundaries matches any of the eight patterns, not even
  one that an earlier substitution could have formed; a text in which none matches is not changed; masking twice is masking once.
\<close>

theorem pii_masked:
  assumes "(r, token) \<in> set (PII_PATTERNS U)"
  shows "\<not> has_match U r None (mask_pii U True msg) \<and>
    ((\<forall>(r, token)\<in>set (PII_PATTERNS U). \<not> has_match U r None msg) \<longrightarrow> mask_pii U True msg = msg) \<and>
    mask_pii U True (mask_pii U True msg) = mask_pii U True msg"
  using mask_pii_clears [OF assms] mask_pii_idem mask_pii_id [of U msg] by blast

theorem pii_masked_witness:
  "mask_pii ascii True (of_str ''id 900101-1234567.'') = of_str ''id [RRN].'' \<and> \<not> has_match ascii (rx_rrn ascii) None (of_str ''id [RRN].'')"
proof -
  have mask: "mask_pii ascii True (of_str ''id 900101-1234567.'') = of_str ''id [RRN].''" by code_simp
  have "(rx_rrn ascii, ''[RRN]'') \<in> set (PII_PATTERNS ascii)" by (simp add: PII_PATTERNS_def)
  from pii_masked [OF this, of "of_str ''id 900101-1234567.''"] mask show ?thesis by simp
qed

text \<open>
  What is masked of a log record. Keys and structure stay; strings under other keys than the twenty safe ones are masked, in nested dictionaries and directly
  in lists; a value under a safe key is kept, and so is a dictionary inside a list. The message of a log call is under the safe key
  \<open>event\<close>: personal data in it is written as it is.
\<close>

theorem log_record_masked:
  assumes "pii_processor U True d = d'"
  shows "map fst d' = map fst d \<and>
    (\<forall>k v. dict_get d k = Some v \<longrightarrow> dict_get d' k = Some
       (if k \<in> set PII_SAFE_KEYS then v
        else (case v of VStr s \<Rightarrow> VStr (mask_pii U True s) | VDict e \<Rightarrow> VDict (pii_processor U True e) | VList vs \<Rightarrow> VList (map (mask_item U) vs) | _ \<Rightarrow> v))) \<and>
    (\<forall>s. dict_get d ''event'' = Some (VStr s) \<longrightarrow> dict_get d' ''event'' = Some (VStr s)) \<and>
    (\<forall>e. mask_item U (VDict e) = VDict e) \<and> pii_processor U True d' = d'"
proof -
  have d': "d' = mask_pii_dict U d" using assms by (simp add: pii_processor_def)
  have keys: "map fst (mask_pii_dict U d) = map fst d" by (induction U d rule: mask_pii_dict.induct) auto
  have get: "dict_get (mask_pii_dict U d) k = Some
       (if k \<in> set PII_SAFE_KEYS then v
        else (case v of VStr s \<Rightarrow> VStr (mask_pii U True s) | VDict e \<Rightarrow> VDict (mask_pii_dict U e) | VList vs \<Rightarrow> VList (map (mask_item U) vs) | _ \<Rightarrow> v))"
    if "dict_get d k = Some v" for k v
    using that by (induction d) (auto split: if_splits pyval.splits)
  have "mask_item U (mask_item U v) = mask_item U v" for v by (cases v) (simp_all add: mask_item_def mask_pii_idem)
  then have idem: "mask_pii_dict U (mask_pii_dict U d) = mask_pii_dict U d"
    by (induction U d rule: mask_pii_dict.induct) (auto simp: mask_pii_idem comp_def split: pyval.split)
  have p: "pii_processor U True e = mask_pii_dict U e" for e by (simp add: pii_processor_def)
  have event: "dict_get (mask_pii_dict U d) ''event'' = Some (VStr s)" if "dict_get d ''event'' = Some (VStr s)" for s
    using get [OF that] by (simp add: PII_SAFE_KEYS_def)
  show ?thesis unfolding d' p using keys get idem event by (simp add: mask_item_def del: split_paired_All)
qed

theorem log_record_masked_witness:
  "dict_get (pii_processor ascii True [(''event'', VStr (of_str ''010-1234-5678'')), (''note'', VStr (of_str ''010-1234-5678''))]) ''event'' =
     Some (VStr (of_str ''010-1234-5678''))"
  using log_record_masked [OF refl, of ascii "[(''event'', VStr (of_str ''010-1234-5678'')), (''note'', VStr (of_str ''010-1234-5678''))]",
      THEN conjunct2, THEN conjunct2, THEN conjunct1] by simp

lemma unbind_get: "dict_get (unbind_contextvars ks ctx) k = (if k \<in> set ks then None else dict_get ctx k)"
proof -
  have "dict_get (fold dict_pop ks ctx) k = (if k \<in> set ks then None else dict_get ctx k)" by (induction ks arbitrary: ctx) auto
  then show ?thesis by (simp add: unbind_contextvars_def)
qed

text \<open>
  A scope takes values of the scope around it away. Inside the block the given values are bound. After it the given keys are unbound and
  everything else is as the block left it. So a block that binds nothing leaves the values around it as they were exactly when
  none of its keys was bound there: a key that both scopes bind has no value for the rest of the outer one.
\<close>

theorem scope_unbinds:
  assumes "distinct (map fst kwargs)" and "kvs = filter (\<lambda>(k, v). v \<noteq> VNone) kwargs"
  shows "(\<forall>k v. (k, v) \<in> set kvs \<longrightarrow> dict_get (bind_contextvars kvs ctx) k = Some v) \<and>
    (\<forall>block r ctx1 ctx'. block (bind_contextvars kvs ctx) = (r, ctx1) \<and> scoped_context kwargs block ctx = (r, ctx') \<longrightarrow>
       (\<forall>k. dict_get ctx' k = (if k \<in> fst ` set kvs then None else dict_get ctx1 k))) \<and>
    (\<forall>r. dict_get (snd (scoped_context kwargs (\<lambda>c. (r, c)) ctx)) = dict_get ctx \<longleftrightarrow> (\<forall>k\<in>fst ` set kvs. dict_get ctx k = None))"
proof (intro conjI)
  have dist: "distinct (map fst kvs)" unfolding assms(2) by (rule distinct_map_filter [OF assms(1)])
  have get: "dict_get (bind_contextvars kvs ctx) k = (case dict_get kvs k of Some v \<Rightarrow> Some v | None \<Rightarrow> dict_get ctx k)" for k
    unfolding bind_contextvars_def by (rule dict_get_update [OF dist])
  show "\<forall>k v. (k, v) \<in> set kvs \<longrightarrow> dict_get (bind_contextvars kvs ctx) k = Some v" using dist by (simp add: get)
  have scope: "scoped_context kwargs block ctx = (case block (bind_contextvars kvs ctx) of (r, c) \<Rightarrow> (r, unbind_contextvars (map fst kvs) c))" for block :: "meta \<Rightarrow> 'q \<times> meta"
    by (simp add: scoped_context_def assms(2) Let_def)
  show "\<forall>block r ctx1 ctx'. block (bind_contextvars kvs ctx) = (r, ctx1) \<and> scoped_context kwargs block ctx = (r, ctx') \<longrightarrow>
       (\<forall>k. dict_get ctx' k = (if k \<in> fst ` set kvs then None else dict_get ctx1 k))"
    by (force simp: scope unbind_get)
  have "dict_get (unbind_contextvars (map fst kvs) (bind_contextvars kvs ctx)) k = (if k \<in> fst ` set kvs then None else dict_get ctx k)" for k
    using map_of_eq_None_iff [of kvs k] by (auto simp: unbind_get get split: option.split)
  then show "\<forall>r. dict_get (snd (scoped_context kwargs (\<lambda>c. (r, c)) ctx)) = dict_get ctx \<longleftrightarrow> (\<forall>k\<in>fst ` set kvs. dict_get ctx k = None)"
    by (auto simp: scope fun_eq_iff)
qed

theorem scope_unbinds_witness:
  "dict_get (snd (scoped_context [(''tenant_id'', VStr [98])] (\<lambda>c. ((), c)) [(''tenant_id'', VStr [97])])) \<noteq> dict_get [(''tenant_id'', VStr [97])]"
proof -
  have "distinct (map fst [(''tenant_id'', VStr [98])])" by simp
  from scope_unbinds [OF this refl, of "[(''tenant_id'', VStr [97])]", THEN conjunct2, THEN conjunct2, THEN spec, of "()"] show ?thesis by simp
qed

end
