(* ===== verification/Sample_Windows.thy ===== *)
theory Sample_Windows
  imports AgentOE_Prelude Complex_Main
begin

text \<open>
  Windows of samples and their percentiles: the in-process histogram of \<^verbatim>\<open>app/core/metrics.py\<close>. Samples are rationals. The ranks
  \<open>ceil(p * n)\<close> for the three percentiles are written over integers: for windows of at most 1000 samples the floating-point
  products round to the same ranks. The theory also holds the arithmetic of ranks and of counters that do not go below zero.
\<close>

section \<open>Rounding\<close>

text \<open>\<open>round(x, digits)\<close>: half to even.\<close>

definition round_even :: "rat \<Rightarrow> int" where
  "round_even x =
     (let f = \<lfloor>x\<rfloor>; r = x - of_int f
      in if r < 1 / 2 then f else if r > 1 / 2 then f + 1 else if even f then f else f + 1)"

definition round_to :: "nat \<Rightarrow> rat \<Rightarrow> rat" where
  "round_to digits x = of_int (round_even (x * 10 ^ digits)) / 10 ^ digits"

section \<open>Windows of samples\<close>

definition WINDOW_SIZE :: nat where "WINDOW_SIZE = 1000"

record histogram =
  hs_samples :: "rat list"
  hs_count_total :: int
  hs_sum_total :: rat

definition new_histogram :: histogram where
  "new_histogram = \<lparr>hs_samples = [], hs_count_total = 0, hs_sum_total = 0\<rparr>"

text \<open>A deque with a maximal length drops its first element when it is full.\<close>

definition observe :: "rat \<Rightarrow> histogram \<Rightarrow> histogram" where
  "observe value h =
     h\<lparr>hs_samples := last_n WINDOW_SIZE (hs_samples h @ [value]), hs_count_total := hs_count_total h + 1,
       hs_sum_total := hs_sum_total h + value\<rparr>"

text \<open>\<open>sorted_s[max(0, ceil(p * n) - 1)]\<close> for a percentile in hundredths.\<close>

definition rank_index :: "nat \<Rightarrow> nat \<Rightarrow> nat" where
  "rank_index pct n = (pct * n + 99) div 100 - 1"

definition percentile :: "nat \<Rightarrow> histogram \<Rightarrow> rat" where
  "percentile pct h = (if hs_samples h = [] then 0 else sort (hs_samples h) ! rank_index pct (length (hs_samples h)))"

record hist_stats =
  st_p50 :: rat
  st_p95 :: rat
  st_p99 :: rat
  st_avg :: rat
  st_max :: rat
  st_count :: int
  st_sum :: rat

definition hist_stats_of :: "histogram \<Rightarrow> hist_stats" where
  "hist_stats_of h =
     (if hs_samples h = []
      then \<lparr>st_p50 = 0, st_p95 = 0, st_p99 = 0, st_avg = 0, st_max = 0, st_count = hs_count_total h, st_sum = hs_sum_total h\<rparr>
      else (let sorted_s = sort (hs_samples h); n = length sorted_s
            in \<lparr>st_p50 = sorted_s ! rank_index 50 n, st_p95 = sorted_s ! rank_index 95 n, st_p99 = sorted_s ! rank_index 99 n,
                st_avg = hs_sum_total h / of_int (max (hs_count_total h) 1), st_max = last sorted_s,
                st_count = hs_count_total h, st_sum = hs_sum_total h\<rparr>))"

definition reset_window :: "histogram \<Rightarrow> histogram" where
  "reset_window h = h\<lparr>hs_samples := []\<rparr>"

section \<open>Ranks\<close>

lemma last_n_last_n_snoc: "0 < n \<Longrightarrow> last_n n (last_n n vs @ [v]) = last_n n (vs @ [v])"
proof -
  assume "0 < n"
  have "length vs - (length vs - n + (n - 1)) + (length vs - n) = length vs - (n - 1)" using \<open>0 < n\<close> by linarith
  then show ?thesis using \<open>0 < n\<close> by (simp add: last_n_append_ge) (simp add: last_n_def add.commute)
qed

lemma fold_observe:
  "fold observe vs new_histogram = \<lparr>hs_samples = last_n WINDOW_SIZE vs, hs_count_total = int (length vs), hs_sum_total = sum_list vs\<rparr>"
  by (induction vs rule: rev_induct) (simp_all add: observe_def last_n_last_n_snoc new_histogram_def WINDOW_SIZE_def)

lemma rank_index_bounds:
  assumes "0 < pct" "pct \<le> 100" "0 < n"
  shows "rank_index pct n < n" "pct * n \<le> 100 * (rank_index pct n + 1)" "100 * rank_index pct n < pct * n"
proof -
  define m where "m = pct * n"
  have pos: "0 < m" "m \<le> 100 * n" using assms by (simp_all add: m_def)
  have r: "rank_index pct n = (m + 99) div 100 - 1" by (simp add: rank_index_def m_def)
  have k: "1 \<le> (m + 99) div 100" using pos by linarith
  show "rank_index pct n < n" unfolding r using pos k assms(3) by linarith
  show "pct * n \<le> 100 * (rank_index pct n + 1)" unfolding r m_def [symmetric] using k by (simp add: mult.commute)
  show "100 * rank_index pct n < pct * n" unfolding r m_def [symmetric] using k pos by linarith
qed

lemma length_filter_sort: "length (filter P (sort xs)) = length (filter P xs)"
  by (metis filter_sort length_sort)

lemma length_filter_mono: "(\<And>x. P x \<Longrightarrow> Q x) \<Longrightarrow> length (filter P xs) \<le> length (filter Q xs)"
  by (induction xs) (auto intro: le_SucI)

lemma sorted_rank:
  fixes xs :: "'a :: linorder list"
  assumes "sorted xs" "i < length xs"
  shows "i + 1 \<le> length (filter (\<lambda>x. x \<le> xs ! i) xs)" "length (filter (\<lambda>x. x < xs ! i) xs) \<le> i"
proof -
  have "x \<le> xs ! i" if "x \<in> set (take (Suc i) xs)" for x
  proof -
    from that obtain k where "k \<le> i" "x = xs ! k" using assms(2) by (auto simp: in_set_conv_nth less_Suc_eq_le)
    then show ?thesis using sorted_nth_mono [OF assms(1) \<open>k \<le> i\<close> assms(2)] by simp
  qed
  then have low: "filter (\<lambda>x. x \<le> xs ! i) (take (Suc i) xs) = take (Suc i) xs" by (simp add: filter_id_conv)
  have "length (filter (\<lambda>x. x \<le> xs ! i) (take (Suc i) xs)) \<le> length (filter (\<lambda>x. x \<le> xs ! i) (take (Suc i) xs @ drop (Suc i) xs))"
    unfolding filter_append length_append by simp
  then show "i + 1 \<le> length (filter (\<lambda>x. x \<le> xs ! i) xs)" using low assms(2) unfolding append_take_drop_id by simp
  have "\<not> x < xs ! i" if "x \<in> set (drop i xs)" for x
  proof -
    from that obtain k where "k < length (drop i xs)" "x = drop i xs ! k" by (metis in_set_conv_nth)
    then have k: "i + k < length xs" "x = xs ! (i + k)" by simp_all
    then show ?thesis using sorted_nth_mono [OF assms(1) le_add1 k(1)] by simp
  qed
  then have "filter (\<lambda>x. x < xs ! i) (drop i xs) = []" by (simp add: filter_empty_conv)
  then have "length (filter (\<lambda>x. x < xs ! i) (take i xs @ drop i xs)) = length (filter (\<lambda>x. x < xs ! i) (take i xs))"
    unfolding filter_append by simp
  then show "length (filter (\<lambda>x. x < xs ! i) xs) \<le> i"
    using length_filter_le [of "\<lambda>x. x < xs ! i" "take i xs"] unfolding append_take_drop_id by simp
qed

text \<open>The nearest rank: at least the given share of the window is not above it, and less than that share is below.\<close>

lemma percentile_rank:
  assumes "w \<noteq> []" "0 < pct" "pct \<le> 100" and v: "v = sort w ! rank_index pct (length w)"
  shows "v \<in> set w" "pct * length w \<le> 100 * length (filter (\<lambda>x. x \<le> v) w)" "100 * length (filter (\<lambda>x. x < v) w) < pct * length w"
proof -
  have n: "0 < length w" using assms(1) by simp
  note b = rank_index_bounds [OF assms(2,3) n]
  have i: "rank_index pct (length w) < length (sort w)" using b(1) by simp
  note r = sorted_rank [OF sorted_sort i, folded v, unfolded length_filter_sort]
  show "v \<in> set w" using nth_mem [OF i] v by simp
  show "pct * length w \<le> 100 * length (filter (\<lambda>x. x \<le> v) w)" using order_trans [OF b(2) mult_le_mono2 [OF r(1)]] .
  show "100 * length (filter (\<lambda>x. x < v) w) < pct * length w" using le_less_trans [OF mult_le_mono2 [OF r(2)] b(3)] .
qed

lemma percentile_le:
  assumes "w \<noteq> []" "0 < pct" "pct \<le> 100" and "pct * length w \<le> 100 * length (filter (\<lambda>x. x \<le> M) w)"
  shows "sort w ! rank_index pct (length w) \<le> (M :: rat)"
proof (rule ccontr)
  let ?v = "sort w ! rank_index pct (length w)"
  assume "\<not> ?v \<le> M"
  then have "length (filter (\<lambda>x. x \<le> M) w) \<le> length (filter (\<lambda>x. x < ?v) w)" by (intro length_filter_mono) simp
  then have "100 * length (filter (\<lambda>x. x \<le> M) w) \<le> 100 * length (filter (\<lambda>x. x < ?v) w)" by simp
  with percentile_rank(3) [OF assms(1-3) refl] assms(4) show False by simp
qed

lemma rank_index_mono: "p \<le> q \<Longrightarrow> rank_index p n \<le> rank_index q n"
  unfolding rank_index_def by (intro diff_le_mono div_le_mono add_le_mono1 mult_le_mono1)

section \<open>Counters that stop at zero\<close>

definition reflected :: "rat list \<Rightarrow> rat" where
  "reflected ds = fold (\<lambda>d v. max 0 (v + d)) ds 0"

lemma reflected_snoc [simp]: "reflected (ds @ [d]) = max 0 (reflected ds + d)" by (simp add: reflected_def)

lemma reflected_nonneg: "reflected ds \<ge> 0"
  by (cases ds rule: rev_cases) (simp_all add: reflected_def)

lemma reflected_add: "max 0 (reflected ds + 1) = reflected ds + 1"
  using reflected_nonneg [of ds] by simp

text \<open>A counter that stops at zero is above the plain sum by the deepest point the sum has reached.\<close>

lemma reflected_eq: "reflected ds = sum_list ds - Min ((\<lambda>k. sum_list (take k ds)) ` {..length ds})"
proof (induction ds rule: rev_induct)
  case (snoc d ds)
  let ?P = "(\<lambda>k. sum_list (take k ds)) ` {..length ds}"
  have "(\<lambda>k. sum_list (take k (ds @ [d]))) ` {..length (ds @ [d])} = insert (sum_list (ds @ [d])) ((\<lambda>k. sum_list (take k (ds @ [d]))) ` {..length ds})"
    by (simp add: atMost_Suc)
  also have "(\<lambda>k. sum_list (take k (ds @ [d]))) ` {..length ds} = ?P" by (intro image_cong) simp_all
  finally have P: "(\<lambda>k. sum_list (take k (ds @ [d]))) ` {..length (ds @ [d])} = insert (sum_list ds + d) ?P" by simp
  have "Min (insert (sum_list ds + d) ?P) = min (sum_list ds + d) (Min ?P)" by (intro Min_insert) auto
  then have M: "Min ((\<lambda>k. sum_list (take k (ds @ [d]))) ` {..length (ds @ [d])}) = min (sum_list ds + d) (Min ?P)" unfolding P .
  have "max 0 (a - m + d) = a + d - min (a + d) m" for a m :: rat unfolding max_def min_def by auto
  from this [of "sum_list ds" "Min ?P"] show ?case unfolding M reflected_snoc snoc.IH by simp
qed (simp add: reflected_def)

end
