(* ===== verification/Metrics.thy ===== *)
theory Metrics
  imports Circuit_Breaker Sample_Windows
begin

text \<open>
  Metrics: \<^verbatim>\<open>app/core/metrics.py\<close>, \<^verbatim>\<open>app/infra/prometheus_client.py\<close> and \<^verbatim>\<open>app/api/v1/routers/metrics.py\<close>. Every recording goes to
  a store in the process and, when the Prometheus client library is installed, to that library; the calls on it
  are recorded in order. Floats are rationals, so sums do not round.
\<close>

section \<open>The store\<close>

text \<open>A \<open>defaultdict\<close>: looking a label up creates its entry.\<close>

definition dd_get :: "'v \<Rightarrow> (string \<times> 'v) list \<Rightarrow> string \<Rightarrow> 'v" where
  "dd_get dflt d l = (case dict_get d l of None \<Rightarrow> dflt | Some v \<Rightarrow> v)"

definition dd_touch :: "'v \<Rightarrow> string \<Rightarrow> (string \<times> 'v) list \<Rightarrow> (string \<times> 'v) list" where
  "dd_touch dflt l d = (case dict_get d l of None \<Rightarrow> dict_set l dflt d | Some _ \<Rightarrow> d)"

definition dd_upd :: "'v \<Rightarrow> string \<Rightarrow> ('v \<Rightarrow> 'v) \<Rightarrow> (string \<times> 'v) list \<Rightarrow> (string \<times> 'v) list" where
  "dd_upd dflt l f d = dict_set l (f (dd_get dflt d l)) d"

type_synonym counters = "(string \<times> rat) list"
type_synonym histograms = "(string \<times> histogram) list"

definition inc :: "string \<Rightarrow> rat \<Rightarrow> counters \<Rightarrow> counters" where "inc l amount = dd_upd 0 l (\<lambda>v. v + amount)"
definition gauge_set :: "string \<Rightarrow> rat \<Rightarrow> counters \<Rightarrow> counters" where "gauge_set l v = dd_upd 0 l (\<lambda>_. v)"
definition gauge_dec :: "string \<Rightarrow> rat \<Rightarrow> counters \<Rightarrow> counters" where "gauge_dec l amount = dd_upd 0 l (\<lambda>v. max 0 (v - amount))"
definition obs :: "string \<Rightarrow> rat \<Rightarrow> histograms \<Rightarrow> histograms" where "obs l v = dd_upd new_histogram l (observe v)"

text \<open>A call on the client library: the instrument, its labels, and what is done to it.\<close>

datatype prom_op = PInc rat | PDec rat | PSet rat | PObserve rat

record prom_call =
  pc_metric :: string
  pc_labels :: "(string \<times> string) list"
  pc_op :: prom_op

record metrics_store =
  ms_pipeline_calls :: counters
  ms_stt_calls :: counters
  ms_llm_calls :: counters
  ms_tts_calls :: counters
  ms_transfer_requests :: counters
  ms_policy_blocks :: counters
  ms_llm_quota_checks :: counters
  ms_llm_tokens_consumed :: counters
  ms_llm_cost_cents :: counters
  ms_jwks_lookups :: counters
  ms_pipeline_latency :: histograms
  ms_stt_latency :: histograms
  ms_llm_latency :: histograms
  ms_tts_latency :: histograms
  ms_jwks_refresh_duration_s :: histograms
  ms_active_sessions :: counters
  ms_circuit_breaker_state :: counters
  ms_ws_send_queue_depth :: counters
  ms_ws_drops :: counters
  ms_prom :: "prom_call list option"

definition new_store :: "bool \<Rightarrow> metrics_store" where
  "new_store prometheus_available =
     \<lparr>ms_pipeline_calls = [], ms_stt_calls = [], ms_llm_calls = [], ms_tts_calls = [], ms_transfer_requests = [], ms_policy_blocks = [],
      ms_llm_quota_checks = [], ms_llm_tokens_consumed = [], ms_llm_cost_cents = [], ms_jwks_lookups = [], ms_pipeline_latency = [],
      ms_stt_latency = [], ms_llm_latency = [], ms_tts_latency = [], ms_jwks_refresh_duration_s = [], ms_active_sessions = [],
      ms_circuit_breaker_state = [], ms_ws_send_queue_depth = [], ms_ws_drops = [],
      ms_prom = (if prometheus_available then Some [] else None)\<rparr>"

definition prom :: "string \<Rightarrow> (string \<times> string) list \<Rightarrow> prom_op \<Rightarrow> metrics_store \<Rightarrow> metrics_store" where
  "prom metric labels oper s =
     s\<lparr>ms_prom := map_option (\<lambda>cs. cs @ [\<lparr>pc_metric = metric, pc_labels = labels, pc_op = oper\<rparr>]) (ms_prom s)\<rparr>"

section \<open>Recording\<close>

abbreviation colon :: "string \<Rightarrow> string \<Rightarrow> string" where "colon a b \<equiv> a @ CHR '':'' # b"

definition status_of :: "bool \<Rightarrow> string" where
  "status_of success = (if success then ''success'' else ''error'')"

definition stage_ms :: "((histograms \<Rightarrow> histograms) \<Rightarrow> metrics_store \<Rightarrow> metrics_store) \<Rightarrow> string \<Rightarrow> string \<Rightarrow> rat \<Rightarrow> metrics_store \<Rightarrow> metrics_store" where
  "stage_ms upd metric tenant_id ms s =
     (if ms > 0 then prom metric [(''tenant'', tenant_id)] (PObserve ms) (upd (obs tenant_id ms) s) else s)"

definition record_pipeline_call :: "string \<Rightarrow> bool \<Rightarrow> rat \<Rightarrow> rat \<Rightarrow> rat \<Rightarrow> rat \<Rightarrow> bool \<Rightarrow> metrics_store \<Rightarrow> metrics_store" where
  "record_pipeline_call tenant_id success total_ms stt_ms llm_ms tts_ms degraded s =
     (let status = (if degraded then ''degraded'' else status_of success);
          s1 = ms_pipeline_latency_update (obs tenant_id total_ms) (ms_pipeline_calls_update (inc (colon tenant_id status) 1) s);
          s2 = prom ''agentoe_pipeline_latency_ms'' [(''tenant'', tenant_id)] (PObserve total_ms)
                 (prom ''agentoe_pipeline_calls_total'' [(''tenant'', tenant_id), (''status'', status)] (PInc 1) s1)
      in stage_ms ms_tts_latency_update ''agentoe_tts_latency_ms'' tenant_id tts_ms
           (stage_ms ms_llm_latency_update ''agentoe_llm_latency_ms'' tenant_id llm_ms
             (stage_ms ms_stt_latency_update ''agentoe_stt_latency_ms'' tenant_id stt_ms s2)))"

definition record_stt_call :: "string \<Rightarrow> bool \<Rightarrow> rat \<Rightarrow> metrics_store \<Rightarrow> metrics_store" where
  "record_stt_call tenant_id success duration_ms s =
     prom ''agentoe_stt_latency_ms'' [(''tenant'', tenant_id)] (PObserve duration_ms)
       (prom ''agentoe_stt_calls_total'' [(''tenant'', tenant_id), (''status'', status_of success)] (PInc 1)
         (ms_stt_latency_update (obs tenant_id duration_ms) (ms_stt_calls_update (inc (colon tenant_id (status_of success)) 1) s)))"

definition record_llm_call :: "string \<Rightarrow> bool \<Rightarrow> rat \<Rightarrow> metrics_store \<Rightarrow> metrics_store" where
  "record_llm_call tenant_id success duration_ms s =
     prom ''agentoe_llm_latency_ms'' [(''tenant'', tenant_id)] (PObserve duration_ms)
       (prom ''agentoe_llm_calls_total'' [(''tenant'', tenant_id), (''status'', status_of success)] (PInc 1)
         (ms_llm_latency_update (obs tenant_id duration_ms) (ms_llm_calls_update (inc (colon tenant_id (status_of success)) 1) s)))"

definition record_tts_call :: "string \<Rightarrow> bool \<Rightarrow> rat \<Rightarrow> metrics_store \<Rightarrow> metrics_store" where
  "record_tts_call tenant_id success duration_ms s =
     prom ''agentoe_tts_latency_ms'' [(''tenant'', tenant_id)] (PObserve duration_ms)
       (prom ''agentoe_tts_calls_total'' [(''tenant'', tenant_id), (''status'', status_of success)] (PInc 1)
         (ms_tts_latency_update (obs tenant_id duration_ms) (ms_tts_calls_update (inc (colon tenant_id (status_of success)) 1) s)))"

definition record_transfer_request :: "string \<Rightarrow> string \<Rightarrow> metrics_store \<Rightarrow> metrics_store" where
  "record_transfer_request tenant_id reason s =
     prom ''agentoe_transfer_requests_total'' [(''tenant'', tenant_id), (''reason'', reason)] (PInc 1)
       (ms_transfer_requests_update (inc (colon tenant_id reason) 1) s)"

definition record_policy_block :: "string \<Rightarrow> string \<Rightarrow> metrics_store \<Rightarrow> metrics_store" where
  "record_policy_block tenant_id level s =
     prom ''agentoe_policy_blocks_total'' [(''tenant'', tenant_id), (''level'', level)] (PInc 1)
       (ms_policy_blocks_update (inc (colon tenant_id level) 1) s)"

definition inc_active_sessions :: "string \<Rightarrow> metrics_store \<Rightarrow> metrics_store" where
  "inc_active_sessions tenant_id s =
     prom ''agentoe_active_sessions'' [(''tenant'', tenant_id)] (PInc 1) (ms_active_sessions_update (inc tenant_id 1) s)"

definition dec_active_sessions :: "string \<Rightarrow> metrics_store \<Rightarrow> metrics_store" where
  "dec_active_sessions tenant_id s =
     prom ''agentoe_active_sessions'' [(''tenant'', tenant_id)] (PDec 1) (ms_active_sessions_update (gauge_dec tenant_id 1) s)"

definition set_circuit_breaker_state :: "string \<Rightarrow> int \<Rightarrow> metrics_store \<Rightarrow> metrics_store" where
  "set_circuit_breaker_state svc state_value s =
     prom ''agentoe_circuit_breaker_state'' [(''service'', svc)] (PSet (of_int state_value))
       (ms_circuit_breaker_state_update (gauge_set svc (of_int state_value)) s)"

definition VALID_QUOTA_SCOPES :: "string list" where "VALID_QUOTA_SCOPES = [''tokens'', ''cost'', ''none'']"
definition VALID_QUOTA_RESULTS :: "string list" where "VALID_QUOTA_RESULTS = [''ok'', ''warn'', ''fallback'', ''reject'']"

definition quota_scope :: "string \<Rightarrow> string" where "quota_scope x = (if x \<in> set VALID_QUOTA_SCOPES then x else ''none'')"
definition quota_result :: "string \<Rightarrow> string" where "quota_result x = (if x \<in> set VALID_QUOTA_RESULTS then x else ''ok'')"

definition record_quota_check :: "string \<Rightarrow> string \<Rightarrow> string \<Rightarrow> metrics_store \<Rightarrow> metrics_store" where
  "record_quota_check tenant_id scope0 result0 s =
     (let scope = quota_scope scope0; result = quota_result result0
      in prom ''agentoe_llm_quota_checks_total'' [(''tenant'', tenant_id), (''scope'', scope), (''result'', result)] (PInc 1)
           (ms_llm_quota_checks_update (inc (colon tenant_id (colon scope result)) 1) s))"

definition record_llm_usage :: "string \<Rightarrow> string \<Rightarrow> int \<Rightarrow> rat \<Rightarrow> metrics_store \<Rightarrow> metrics_store" where
  "record_llm_usage tenant_id model tokens cost_cents s =
     (if tokens \<le> 0 \<and> cost_cents \<le> 0 then s
      else (let label = colon tenant_id model; ls = [(''tenant'', tenant_id), (''model'', model)];
                s1 = (if tokens > 0 then ms_llm_tokens_consumed_update (inc label (of_int tokens)) s else s);
                s2 = (if cost_cents > 0 then ms_llm_cost_cents_update (inc label cost_cents) s1 else s1);
                s3 = (if tokens > 0 then prom ''agentoe_llm_tokens_consumed_total'' ls (PInc (of_int tokens)) s2 else s2)
            in if cost_cents > 0 then prom ''agentoe_llm_cost_cents_total'' ls (PInc cost_cents) s3 else s3))"

definition VALID_JWKS_LOOKUP_RESULTS :: "string list" where
  "VALID_JWKS_LOOKUP_RESULTS = [''hit'', ''miss'', ''force_refresh'', ''fail'']"

definition record_jwks_lookup :: "string \<Rightarrow> metrics_store \<Rightarrow> metrics_store" where
  "record_jwks_lookup result s =
     (if result \<notin> set VALID_JWKS_LOOKUP_RESULTS then s
      else prom ''agentoe_jwks_lookups_total'' [(''result'', result)] (PInc 1) (ms_jwks_lookups_update (inc result 1) s))"

definition record_jwks_refresh :: "rat \<Rightarrow> bool \<Rightarrow> metrics_store \<Rightarrow> metrics_store" where
  "record_jwks_refresh duration_s success s =
     (let result = (if success then ''success'' else ''failure'')
      in prom ''agentoe_jwks_refresh_duration_seconds'' [(''result'', result)] (PObserve duration_s)
           (ms_jwks_refresh_duration_s_update (obs result duration_s) s))"

definition set_ws_queue_depth :: "string \<Rightarrow> int \<Rightarrow> metrics_store \<Rightarrow> metrics_store" where
  "set_ws_queue_depth tenant_id depth s =
     prom ''agentoe_ws_send_queue_depth'' [(''tenant'', tenant_id)] (PSet (of_int depth))
       (ms_ws_send_queue_depth_update (gauge_set tenant_id (of_int depth)) s)"

definition VALID_WS_DROP_KINDS :: "string list" where "VALID_WS_DROP_KINDS = [''audio'', ''event'', ''full'']"

definition record_ws_drop :: "string \<Rightarrow> string \<Rightarrow> metrics_store \<Rightarrow> metrics_store" where
  "record_ws_drop tenant_id kind s =
     (if kind \<notin> set VALID_WS_DROP_KINDS then s
      else prom ''agentoe_ws_drops_total'' [(''tenant'', tenant_id), (''kind'', kind)] (PInc 1)
             (ms_ws_drops_update (inc (colon tenant_id kind) 1) s))"

section \<open>Reading\<close>

record tenant_stats =
  ts_total :: rat
  ts_success :: rat
  ts_error :: rat
  ts_degraded :: rat
  ts_error_rate :: rat
  ts_pipeline_latency_ms :: hist_stats
  ts_stt_latency_ms :: hist_stats
  ts_llm_latency_ms :: hist_stats
  ts_tts_latency_ms :: hist_stats

text \<open>The tenants of the recorded calls. Python takes them from a set, in no fixed order.\<close>

definition tenants_of :: "metrics_store \<Rightarrow> string list" where
  "tenants_of s =
     (let ts = remdups (map (\<lambda>(k, _). hd (split_on CHR '':'' k)) (ms_pipeline_calls s)) in if ts = [] then [''_global''] else ts)"

text \<open>The look-ups create the entries they do not find.\<close>

definition touch_calls :: "string \<Rightarrow> metrics_store \<Rightarrow> metrics_store" where
  "touch_calls t =
     ms_pipeline_calls_update (\<lambda>d. dd_touch 0 (colon t ''degraded'') (dd_touch 0 (colon t ''error'') (dd_touch 0 (colon t ''success'') d)))"

definition touch_latency :: "string \<Rightarrow> metrics_store \<Rightarrow> metrics_store" where
  "touch_latency t s =
     ms_tts_latency_update (dd_touch new_histogram t) (ms_llm_latency_update (dd_touch new_histogram t)
       (ms_stt_latency_update (dd_touch new_histogram t) (ms_pipeline_latency_update (dd_touch new_histogram t) s)))"

definition latency :: "histograms \<Rightarrow> string \<Rightarrow> hist_stats" where
  "latency d t = hist_stats_of (dd_get new_histogram d t)"

definition tenant_stats_of :: "metrics_store \<Rightarrow> string \<Rightarrow> tenant_stats" where
  "tenant_stats_of s t =
     (let calls_success = dd_get 0 (ms_pipeline_calls s) (colon t ''success''); calls_error = dd_get 0 (ms_pipeline_calls s) (colon t ''error'');
          calls_degraded = dd_get 0 (ms_pipeline_calls s) (colon t ''degraded''); total = calls_success + calls_error + calls_degraded
      in \<lparr>ts_total = total, ts_success = calls_success, ts_error = calls_error, ts_degraded = calls_degraded,
          ts_error_rate = round_to 4 (calls_error / max total 1), ts_pipeline_latency_ms = latency (ms_pipeline_latency s) t,
          ts_stt_latency_ms = latency (ms_stt_latency s) t, ts_llm_latency_ms = latency (ms_llm_latency s) t,
          ts_tts_latency_ms = latency (ms_tts_latency s) t\<rparr>)"

definition get_pipeline_stats :: "string option \<Rightarrow> metrics_store \<Rightarrow> (string \<times> tenant_stats) list \<times> metrics_store" where
  "get_pipeline_stats tenant_id s =
     (let tenants = (case tenant_id of Some t \<Rightarrow> if t = [] then tenants_of s else [t] | None \<Rightarrow> tenants_of s)
      in fold (\<lambda>t (res, s'). (dict_set t (tenant_stats_of s' t) res, touch_latency t (touch_calls t s'))) tenants ([], s))"

text \<open>\<open>label.split(':', 1)\<close>; the assignment to two names raises when there is no colon.\<close>

definition split_once :: "string \<Rightarrow> string list" where
  "split_once label =
     (if CHR '':'' \<in> set label then [takeWhile (\<lambda>c. c \<noteq> CHR '':'') label, drop 1 (dropWhile (\<lambda>c. c \<noteq> CHR '':'') label)] else [label])"

fun transfer_rows :: "string option \<Rightarrow> counters \<Rightarrow> (string \<times> counters) list \<Rightarrow> pyexc + (string \<times> counters) list" where
  "transfer_rows tenant_id [] res = Inr res"
| "transfer_rows tenant_id ((label, v) # d) res =
     (case split_once label of
        [t, reason] \<Rightarrow>
          if tenant_id \<noteq> None \<and> tenant_id \<noteq> Some [] \<and> tenant_id \<noteq> Some t then transfer_rows tenant_id d res
          else transfer_rows tenant_id d (dict_set t (dict_set reason v (dd_get [] res t)) res)
      | _ \<Rightarrow> Inl ValueError)"

definition get_transfer_stats :: "string option \<Rightarrow> metrics_store \<Rightarrow> pyexc + (string \<times> counters) list" where
  "get_transfer_stats tenant_id s = transfer_rows tenant_id (ms_transfer_requests s) []"

definition get_active_sessions :: "metrics_store \<Rightarrow> counters" where
  "get_active_sessions s = ms_active_sessions s"

definition get_circuit_breaker_gauges :: "metrics_store \<Rightarrow> counters" where
  "get_circuit_breaker_gauges s = ms_circuit_breaker_state s"

definition CB_STATE_MAP :: "(string \<times> int) list" where
  "CB_STATE_MAP = [(''CLOSED'', 0), (''HALF_OPEN'', 1), (''OPEN'', 2)]"

definition sync_breakers :: "cb_status list \<Rightarrow> metrics_store \<Rightarrow> metrics_store" where
  "sync_breakers statuses =
     fold (\<lambda>cb. set_circuit_breaker_state (cbs_service cb) (case dict_get CB_STATE_MAP (cbs_state cb) of None \<Rightarrow> 0 | Some v \<Rightarrow> v)) statuses"

record all_metrics =
  am_pipeline :: "(string \<times> tenant_stats) list"
  am_transfers :: "(string \<times> counters) list"
  am_active_sessions :: counters
  am_circuit_breakers :: "cb_status list"

definition get_all_metrics :: "cb_registry \<Rightarrow> string option \<Rightarrow> metrics_store \<Rightarrow> (pyexc + all_metrics) \<times> metrics_store" where
  "get_all_metrics reg tenant_id s =
     (let cb_statuses = get_all_statuses reg
      in case get_pipeline_stats tenant_id (sync_breakers cb_statuses s) of (pipeline, s') \<Rightarrow>
           (case get_transfer_stats tenant_id s' of
              Inl e \<Rightarrow> (Inl e, s')
            | Inr transfers \<Rightarrow>
                (Inr \<lparr>am_pipeline = pipeline, am_transfers = transfers, am_active_sessions = get_active_sessions s',
                      am_circuit_breakers = cb_statuses\<rparr>, s')))"

section \<open>Snapshots for the dashboard\<close>

text \<open>A float as it comes from the Prometheus service: a number, not a number, or an infinity.\<close>

datatype pyfloat = Fin rat | NaN | Inf bool

record kpi =
  kp_ccu :: int
  kp_p95_ms :: pyfloat
  kp_p99_ms :: pyfloat
  kp_error_rate_pct :: pyfloat
  kp_slo_achieved_pct :: pyfloat
  kp_stt_p95_ms :: pyfloat
  kp_llm_p95_ms :: pyfloat
  kp_tts_p95_ms :: pyfloat
  kp_total_calls :: int
  kp_failed_calls :: int
  kp_active_tenants :: int

definition max_or_zero :: "rat list \<Rightarrow> rat" where
  "max_or_zero vals = (case vals of [] \<Rightarrow> 0 | v # vs \<Rightarrow> fold max vs v)"

text \<open>\<open>int(x)\<close> drops the fraction.\<close>

definition py_int :: "rat \<Rightarrow> int" where
  "py_int x = (if x < 0 then \<lceil>x\<rceil> else \<lfloor>x\<rfloor>)"

definition snapshot_touch :: "string list \<Rightarrow> metrics_store \<Rightarrow> metrics_store" where
  "snapshot_touch = fold (\<lambda>t s. touch_latency t (touch_calls t s))"

definition get_metrics_snapshot :: "metrics_store \<Rightarrow> kpi \<times> metrics_store" where
  "get_metrics_snapshot s =
     (let ccu = sum_list (map snd (ms_active_sessions s));
          all_tenants = tenants_of s;
          calls = (\<lambda>t st. dd_get 0 (ms_pipeline_calls s) (colon t st));
          total_calls = sum_list (map (\<lambda>t. calls t ''success'' + calls t ''error'' + calls t ''degraded'') all_tenants);
          error_calls = sum_list (map (\<lambda>t. calls t ''error'') all_tenants);
          worst = (\<lambda>d f. Fin (round_to 1 (max_or_zero (map (\<lambda>t. f (latency d t)) all_tenants))));
          error_rate = round_to 2 (error_calls / max total_calls 1 * 100)
      in (\<lparr>kp_ccu = py_int ccu, kp_p95_ms = worst (ms_pipeline_latency s) st_p95, kp_p99_ms = worst (ms_pipeline_latency s) st_p99,
            kp_error_rate_pct = Fin error_rate, kp_slo_achieved_pct = Fin (round_to 2 (max 0 (100 - error_rate))),
            kp_stt_p95_ms = worst (ms_stt_latency s) st_p95, kp_llm_p95_ms = worst (ms_llm_latency s) st_p95,
            kp_tts_p95_ms = worst (ms_tts_latency s) st_p95, kp_total_calls = py_int total_calls, kp_failed_calls = py_int error_calls,
            kp_active_tenants = int (length (filter (\<lambda>(_, v). v > 0) (ms_active_sessions s)))\<rparr>,
          snapshot_touch all_tenants s))"

text \<open>
  The client of the Prometheus service. A result has its value as a text that \<open>float\<close> reads, or is malformed in a way
  \<open>scalar_or_default\<close> catches, or in one it does not.
\<close>

datatype sample = Value pyfloat | Malformed | WrongType

datatype prom_reply = HttpError | HttpReply bool "sample list"

definition prom_query :: "(string \<Rightarrow> prom_reply) \<Rightarrow> string \<Rightarrow> sample list" where
  "prom_query http promql = (case http promql of HttpError \<Rightarrow> [] | HttpReply success rs \<Rightarrow> if success then rs else [])"

definition scalar_or_default :: "(string \<Rightarrow> prom_reply) \<Rightarrow> string \<Rightarrow> pyfloat \<Rightarrow> pyexc + pyfloat" where
  "scalar_or_default http promql dflt =
     (case prom_query http promql of
        [] \<Rightarrow> Inr dflt
      | r # _ \<Rightarrow> (case r of Value x \<Rightarrow> Inr x | Malformed \<Rightarrow> Inr dflt | WrongType \<Rightarrow> Inl (OtherException (of_str ''TypeError''))))"

definition quantile_query :: "string \<Rightarrow> string \<Rightarrow> string" where
  "quantile_query q hist = ''histogram_quantile('' @ q @ '', sum(rate('' @ hist @ ''_bucket[5m])) by (le))''"

definition Q_CCU :: string where "Q_CCU = ''sum(agentoe_active_sessions)''"
definition Q_TOTAL :: string where "Q_TOTAL = ''sum(agentoe_pipeline_calls_total)''"
definition Q_ERRORS :: string where "Q_ERRORS = ''sum(agentoe_pipeline_calls_total{status='error'})''"
definition Q_RATE :: string where
  "Q_RATE = ''sum(rate(agentoe_pipeline_calls_total{status='error'}[5m])) / (sum(rate(agentoe_pipeline_calls_total[5m])) > 0) * 100 or vector(0)''"
definition Q_TENANTS :: string where "Q_TENANTS = ''count(sum(agentoe_active_sessions) by (tenant) > 0) or vector(0)''"

definition SNAPSHOT_QUERIES :: "string list" where
  "SNAPSHOT_QUERIES =
     [Q_CCU, quantile_query ''0.95'' ''agentoe_pipeline_latency_ms'', quantile_query ''0.99'' ''agentoe_pipeline_latency_ms'', Q_RATE,
      quantile_query ''0.95'' ''agentoe_stt_latency_ms'', quantile_query ''0.95'' ''agentoe_llm_latency_ms'',
      quantile_query ''0.95'' ''agentoe_tts_latency_ms'', Q_TOTAL, Q_ERRORS, Q_TENANTS]"

fun round_float :: "nat \<Rightarrow> pyfloat \<Rightarrow> pyfloat" where
  "round_float n (Fin x) = Fin (round_to n x)"
| "round_float n x = x"

text \<open>\<open>max(0.0, x)\<close> keeps its first argument unless the second is greater.\<close>

fun floor_zero :: "pyfloat \<Rightarrow> pyfloat" where
  "floor_zero (Fin x) = Fin (max 0 x)"
| "floor_zero (Inf True) = Inf True"
| "floor_zero _ = Fin 0"

fun hundred_minus :: "pyfloat \<Rightarrow> pyfloat" where
  "hundred_minus (Fin x) = Fin (100 - x)"
| "hundred_minus NaN = NaN"
| "hundred_minus (Inf b) = Inf (\<not> b)"

fun int_of_float :: "pyfloat \<Rightarrow> pyexc + int" where
  "int_of_float (Fin x) = Inr (py_int x)"
| "int_of_float NaN = Inl ValueError"
| "int_of_float (Inf b) = Inl (OtherException (of_str ''OverflowError''))"

fun gather_all :: "(pyexc + 'a) list \<Rightarrow> pyexc + 'a list" where
  "gather_all [] = Inr []"
| "gather_all (r # rs) = (case r of Inl e \<Rightarrow> Inl e | Inr x \<Rightarrow> (case gather_all rs of Inl e \<Rightarrow> Inl e | Inr xs \<Rightarrow> Inr (x # xs)))"

definition kpi_of :: "pyfloat list \<Rightarrow> pyexc + kpi" where
  "kpi_of vs =
     (let rate = round_float 2 (floor_zero (vs ! 3)); r1 = (\<lambda>i. round_float 1 (vs ! i))
      in case gather_all (map (\<lambda>i. int_of_float (vs ! i)) [0, 7, 8, 9]) of
           Inr [n_ccu, n_calls, n_errors, n_active] \<Rightarrow>
             Inr \<lparr>kp_ccu = n_ccu, kp_p95_ms = r1 1, kp_p99_ms = r1 2, kp_error_rate_pct = rate,
                  kp_slo_achieved_pct = round_float 2 (floor_zero (hundred_minus rate)), kp_stt_p95_ms = r1 4, kp_llm_p95_ms = r1 5,
                  kp_tts_p95_ms = r1 6, kp_total_calls = n_calls, kp_failed_calls = n_errors, kp_active_tenants = n_active\<rparr>
         | Inr _ \<Rightarrow> Inl ValueError
         | Inl e \<Rightarrow> Inl e)"

text \<open>\<open>in_time\<close>: the client was there and the ten queries answered before their time limits.\<close>

definition get_metrics_snapshot_async :: "bool \<Rightarrow> (string \<Rightarrow> prom_reply) \<Rightarrow> metrics_store \<Rightarrow> kpi \<times> metrics_store" where
  "get_metrics_snapshot_async in_time http s =
     (if \<not> in_time then get_metrics_snapshot s
      else (case gather_all (map (\<lambda>q. scalar_or_default http q (Fin 0)) SNAPSHOT_QUERIES) of
              Inl e \<Rightarrow> get_metrics_snapshot s
            | Inr vs \<Rightarrow>
                if vs ! 0 = Fin 0 \<and> vs ! 1 = Fin 0 \<and> vs ! 7 = Fin 0 then get_metrics_snapshot s
                else (case kpi_of vs of Inl e \<Rightarrow> get_metrics_snapshot s | Inr k \<Rightarrow> (k, s))))"

section \<open>Endpoints\<close>

record budget_compliance =
  bc_stt_p95_ok :: bool
  bc_llm_p95_ok :: bool
  bc_tts_p95_ok :: bool
  bc_total_p95_ok :: bool

definition pipeline_metrics :: "string \<Rightarrow> metrics_store \<Rightarrow> (tenant_stats \<times> budget_compliance) option \<times> metrics_store" where
  "pipeline_metrics tenant_id s =
     (case get_pipeline_stats (Some tenant_id) s of (stats, s') \<Rightarrow>
        (map_option (\<lambda>ts. (ts, \<lparr>bc_stt_p95_ok = st_p95 (ts_stt_latency_ms ts) \<le> 500, bc_llm_p95_ok = st_p95 (ts_llm_latency_ms ts) \<le> 500,
                                bc_tts_p95_ok = st_p95 (ts_tts_latency_ms ts) \<le> 300, bc_total_p95_ok = st_p95 (ts_pipeline_latency_ms ts) \<le> 2500\<rparr>))
           (dict_get stats tenant_id), s'))"

definition session_metrics :: "string \<Rightarrow> metrics_store \<Rightarrow> int \<times> (string \<times> int) list" where
  "session_metrics tenant_id s =
     (let active = get_active_sessions s
      in (py_int (case dict_get active tenant_id of None \<Rightarrow> 0 | Some v \<Rightarrow> v), map (\<lambda>(t, v). (t, py_int v)) active))"

definition ai_metrics ::
  "cb_registry \<Rightarrow> string \<Rightarrow> metrics_store \<Rightarrow> (cb_status list \<times> (hist_stats \<times> hist_stats \<times> hist_stats) option) \<times> metrics_store" where
  "ai_metrics reg tenant_id s =
     (case get_pipeline_stats (Some tenant_id) s of (stats, s') \<Rightarrow>
        ((get_all_statuses reg,
          map_option (\<lambda>ts. (ts_stt_latency_ms ts, ts_llm_latency_ms ts, ts_tts_latency_ms ts)) (dict_get stats tenant_id)), s'))"

definition transfer_metrics :: "string \<Rightarrow> metrics_store \<Rightarrow> pyexc + (rat \<times> counters)" where
  "transfer_metrics tenant_id s =
     (case get_transfer_stats (Some tenant_id) s of
        Inl e \<Rightarrow> Inl e
      | Inr stats \<Rightarrow> (let mine = dd_get [] stats tenant_id in Inr (sum_list (map snd mine), mine)))"

definition metrics_summary :: "cb_registry \<Rightarrow> string \<Rightarrow> metrics_store \<Rightarrow> (pyexc + all_metrics) \<times> metrics_store" where
  "metrics_summary reg tenant_id = get_all_metrics reg (Some tenant_id)"

section \<open>Text exposition\<close>

text \<open>How Python writes numbers: a float, an integer, and a float with a fixed number of digits.\<close>

record num_format =
  nf_float :: "rat \<Rightarrow> string"
  nf_int :: "int \<Rightarrow> string"
  nf_fixed :: "nat \<Rightarrow> rat \<Rightarrow> string"

definition label_text :: "(string \<times> string) list \<Rightarrow> string" where
  "label_text labels = join '','' (map (\<lambda>(k, v). k @ ''=\"'' @ v @ ''\"'') labels)"

definition counter_line :: "num_format \<Rightarrow> int \<Rightarrow> string \<Rightarrow> (string \<times> string) list \<Rightarrow> rat \<Rightarrow> string" where
  "counter_line F ts_ms name labels v = name @ ''{'' @ label_text labels @ ''} '' @ nf_float F v @ '' '' @ nf_int F ts_ms"

definition plain_line :: "string \<Rightarrow> string \<Rightarrow> string \<Rightarrow> string \<Rightarrow> string" where
  "plain_line name key v val = name @ ''{'' @ key @ ''=\"'' @ v @ ''\"} '' @ val"

definition head_lines :: "string \<Rightarrow> string \<Rightarrow> string \<Rightarrow> string list" where
  "head_lines name help kind = [''# HELP '' @ name @ '' '' @ help, ''# TYPE '' @ name @ '' '' @ kind]"

text \<open>A label with two parts; where the code unpacks without a test, a label with one part raises.\<close>

definition two_part :: "num_format \<Rightarrow> int \<Rightarrow> string \<Rightarrow> string \<Rightarrow> string \<Rightarrow> string \<times> rat \<Rightarrow> pyexc + string" where
  "two_part F ts_ms name k1 k2 = (\<lambda>(label, v).
     case split_once label of [a, b] \<Rightarrow> Inr (counter_line F ts_ms name [(k1, a), (k2, b)] v) | _ \<Rightarrow> Inl ValueError)"

definition three_part :: "num_format \<Rightarrow> int \<Rightarrow> string \<times> rat \<Rightarrow> string list" where
  "three_part F ts_ms = (\<lambda>(label, v).
     case split_once label of
       [a, rest] \<Rightarrow> (case split_once rest of
                      [b, c] \<Rightarrow> [counter_line F ts_ms ''agentoe_llm_quota_checks_total'' [(''tenant'', a), (''scope'', b), (''result'', c)] v]
                    | _ \<Rightarrow> [])
     | _ \<Rightarrow> [])"

definition drop_line :: "num_format \<Rightarrow> int \<Rightarrow> string \<times> rat \<Rightarrow> string list" where
  "drop_line F ts_ms = (\<lambda>(label, v).
     case split_once label of
       [a, b] \<Rightarrow> [counter_line F ts_ms ''agentoe_ws_drops_total'' [(''tenant'', a), (''kind'', b)] v] | _ \<Rightarrow> [])"

definition summary_lines :: "num_format \<Rightarrow> int \<Rightarrow> string \<Rightarrow> string \<Rightarrow> nat \<Rightarrow> string \<times> histogram \<Rightarrow> string list" where
  "summary_lines F ts_ms name key digits = (\<lambda>(l, h).
     let st = hist_stats_of h
     in map (\<lambda>(q, v). counter_line F ts_ms name [(key, l), (''quantile'', q)] v) [(''0.5'', st_p50 st), (''0.95'', st_p95 st), (''0.99'', st_p99 st)] @
        [plain_line (name @ ''_count'') key l (nf_int F (st_count st)), plain_line (name @ ''_sum'') key l (nf_fixed F digits (st_sum st))])"

definition gauge_lines :: "num_format \<Rightarrow> string \<Rightarrow> string \<Rightarrow> counters \<Rightarrow> string list" where
  "gauge_lines F name key d = map (\<lambda>(l, v). plain_line name key l (nf_float F v)) d"

definition generate_prometheus_metrics :: "(prom_call list \<Rightarrow> string) \<Rightarrow> num_format \<Rightarrow> int \<Rightarrow> metrics_store \<Rightarrow> pyexc + string list" where
  "generate_prometheus_metrics generate_latest F ts_ms s =
     (case ms_prom s of
        Some calls \<Rightarrow> Inr [generate_latest calls]
      | None \<Rightarrow>
          (case gather_all (map (two_part F ts_ms ''agentoe_pipeline_calls_total'' ''tenant'' ''status'') (ms_pipeline_calls s)) of
             Inl e \<Rightarrow> Inl e
           | Inr calls \<Rightarrow>
          (case gather_all (map (two_part F ts_ms ''agentoe_llm_tokens_consumed_total'' ''tenant'' ''model'') (ms_llm_tokens_consumed s)) of
             Inl e \<Rightarrow> Inl e
           | Inr tokens \<Rightarrow>
          (case gather_all (map (two_part F ts_ms ''agentoe_llm_cost_cents_total'' ''tenant'' ''model'') (ms_llm_cost_cents s)) of
             Inl e \<Rightarrow> Inl e
           | Inr costs \<Rightarrow> Inr
          (head_lines ''agentoe_pipeline_calls_total'' ''Total AI pipeline calls'' ''counter'' @ calls @
           head_lines ''agentoe_pipeline_latency_ms'' ''Pipeline latency in milliseconds'' ''summary'' @
             concat (map (summary_lines F ts_ms ''agentoe_pipeline_latency_ms'' ''tenant'' 2) (ms_pipeline_latency s)) @
           head_lines ''agentoe_active_sessions'' ''Active WebSocket sessions on this Pod'' ''gauge'' @
             gauge_lines F ''agentoe_active_sessions'' ''tenant'' (ms_active_sessions s) @
           head_lines ''agentoe_circuit_breaker_state'' ''CB state (0=CLOSED,1=HALF_OPEN,2=OPEN)'' ''gauge'' @
             gauge_lines F ''agentoe_circuit_breaker_state'' ''service'' (ms_circuit_breaker_state s) @
           head_lines ''agentoe_llm_quota_checks_total'' ''LLM daily quota check results'' ''counter'' @
             concat (map (three_part F ts_ms) (ms_llm_quota_checks s)) @
           head_lines ''agentoe_llm_tokens_consumed_total'' ''Total LLM tokens consumed'' ''counter'' @ tokens @
           head_lines ''agentoe_llm_cost_cents_total'' ''Total LLM cost in cents'' ''counter'' @ costs @
           head_lines ''agentoe_jwks_lookups_total'' ''JWKS cache lookups by outcome'' ''counter'' @
             map (\<lambda>(r, v). counter_line F ts_ms ''agentoe_jwks_lookups_total'' [(''result'', r)] v) (ms_jwks_lookups s) @
           head_lines ''agentoe_jwks_refresh_duration_seconds'' ''JWKS refresh duration'' ''summary'' @
             concat (map (summary_lines F ts_ms ''agentoe_jwks_refresh_duration_seconds'' ''result'' 4) (ms_jwks_refresh_duration_s s)) @
           head_lines ''agentoe_ws_send_queue_depth'' ''WS send queue depth (this Pod)'' ''gauge'' @
             gauge_lines F ''agentoe_ws_send_queue_depth'' ''tenant'' (ms_ws_send_queue_depth s) @
           head_lines ''agentoe_ws_drops_total'' ''WS outbound drops by kind'' ''counter'' @
             concat (map (drop_line F ts_ms) (ms_ws_drops s)))))))"


section \<open>Sequences of recordings and reads\<close>

datatype access =
    PipelineCall string bool rat rat rat rat bool
  | SttCall string bool rat
  | LlmCall string bool rat
  | TtsCall string bool rat
  | TransferRequested string string
  | PolicyBlocked string string
  | SessionOpened string
  | SessionClosed string
  | BreakerState string int
  | QuotaChecked string string string
  | LlmUsed string string int rat
  | JwksLookup string
  | JwksRefresh rat bool
  | QueueDepth string int
  | WsDrop string string
  | ReadStats "string option"
  | ReadAll cb_registry "string option"
  | ReadSnapshot bool "string \<Rightarrow> prom_reply"

fun access_store :: "access \<Rightarrow> metrics_store \<Rightarrow> metrics_store" where
  "access_store (PipelineCall t ok tot stt llm tts deg) s = record_pipeline_call t ok tot stt llm tts deg s"
| "access_store (SttCall t ok ms) s = record_stt_call t ok ms s"
| "access_store (LlmCall t ok ms) s = record_llm_call t ok ms s"
| "access_store (TtsCall t ok ms) s = record_tts_call t ok ms s"
| "access_store (TransferRequested t reason) s = record_transfer_request t reason s"
| "access_store (PolicyBlocked t level) s = record_policy_block t level s"
| "access_store (SessionOpened t) s = inc_active_sessions t s"
| "access_store (SessionClosed t) s = dec_active_sessions t s"
| "access_store (BreakerState svc v) s = set_circuit_breaker_state svc v s"
| "access_store (QuotaChecked t scope result) s = record_quota_check t scope result s"
| "access_store (LlmUsed t model tokens cost) s = record_llm_usage t model tokens cost s"
| "access_store (JwksLookup result) s = record_jwks_lookup result s"
| "access_store (JwksRefresh d ok) s = record_jwks_refresh d ok s"
| "access_store (QueueDepth t n) s = set_ws_queue_depth t n s"
| "access_store (WsDrop t kind) s = record_ws_drop t kind s"
| "access_store (ReadStats t) s = snd (get_pipeline_stats t s)"
| "access_store (ReadAll reg t) s = snd (get_all_metrics reg t s)"
| "access_store (ReadSnapshot in_time http) s = snd (get_metrics_snapshot_async in_time http s)"

abbreviation accesses :: "access list \<Rightarrow> metrics_store \<Rightarrow> metrics_store" where
  "accesses xs s \<equiv> fold access_store xs s"

lemma dd_get_simps [simp]:
  "dd_get dflt (dd_upd dflt l f d) l' = (if l' = l then f (dd_get dflt d l) else dd_get dflt d l')"
  "dd_get dflt (dd_touch dflt l d) l' = dd_get dflt d l'"
  "dd_get dflt [] l = dflt"
  by (auto simp: dd_get_def dd_upd_def dd_touch_def split: option.split)

lemmas metric_ops = inc_def gauge_set_def gauge_dec_def obs_def prom_def


lemmas record_defs = record_pipeline_call_def record_stt_call_def record_llm_call_def record_tts_call_def record_transfer_request_def
  record_policy_block_def inc_active_sessions_def dec_active_sessions_def set_circuit_breaker_state_def record_quota_check_def
  record_llm_usage_def record_jwks_lookup_def record_jwks_refresh_def set_ws_queue_depth_def record_ws_drop_def

lemma prom_keeps [simp]:
  "ms_pipeline_calls (prom m ls oper s) = ms_pipeline_calls s" "ms_stt_calls (prom m ls oper s) = ms_stt_calls s"
  "ms_llm_calls (prom m ls oper s) = ms_llm_calls s" "ms_tts_calls (prom m ls oper s) = ms_tts_calls s"
  "ms_transfer_requests (prom m ls oper s) = ms_transfer_requests s" "ms_policy_blocks (prom m ls oper s) = ms_policy_blocks s"
  "ms_llm_quota_checks (prom m ls oper s) = ms_llm_quota_checks s" "ms_llm_tokens_consumed (prom m ls oper s) = ms_llm_tokens_consumed s"
  "ms_llm_cost_cents (prom m ls oper s) = ms_llm_cost_cents s" "ms_jwks_lookups (prom m ls oper s) = ms_jwks_lookups s"
  "ms_pipeline_latency (prom m ls oper s) = ms_pipeline_latency s" "ms_stt_latency (prom m ls oper s) = ms_stt_latency s"
  "ms_llm_latency (prom m ls oper s) = ms_llm_latency s" "ms_tts_latency (prom m ls oper s) = ms_tts_latency s"
  "ms_jwks_refresh_duration_s (prom m ls oper s) = ms_jwks_refresh_duration_s s" "ms_active_sessions (prom m ls oper s) = ms_active_sessions s"
  "ms_circuit_breaker_state (prom m ls oper s) = ms_circuit_breaker_state s" "ms_ws_send_queue_depth (prom m ls oper s) = ms_ws_send_queue_depth s"
  "ms_ws_drops (prom m ls oper s) = ms_ws_drops s"
  by (simp_all add: prom_def)

lemma get_pipeline_stats_store:
  "snd (get_pipeline_stats t s) = snapshot_touch (case t of Some t \<Rightarrow> if t = [] then tenants_of s else [t] | None \<Rightarrow> tenants_of s) s"
proof -
  have "snd (fold (\<lambda>t (res, s'). (dict_set t (tenant_stats_of s' t) res, touch_latency t (touch_calls t s'))) ts (res, s)) = snapshot_touch ts s" for ts res
    unfolding snapshot_touch_def by (induction ts arbitrary: res s) simp_all
  then show ?thesis by (simp add: get_pipeline_stats_def Let_def)
qed

lemma get_metrics_snapshot_store: "snd (get_metrics_snapshot s) = snapshot_touch (tenants_of s) s"
  by (simp add: get_metrics_snapshot_def Let_def)

lemma get_all_metrics_store: "snd (get_all_metrics reg t s) = snd (get_pipeline_stats t (sync_breakers (get_all_statuses reg) s))"
  by (simp add: get_all_metrics_def Let_def split: prod.split sum.split)

end
