(* ===== verification/Metrics_Agreement.thy ===== *)
theory Metrics_Agreement
  imports Metrics
begin

text \<open>
  The two records of \<^verbatim>\<open>app/core/metrics.py\<close>: what is in the store of the process and what the Prometheus client library was
  told, after any sequence of recordings and reads. The recorded calls are the reference, the store an implementation of it.
\<close>

section \<open>What the library was told\<close>

text \<open>What the client library was told about one instrument under the labels that join to \<open>l\<close>.\<close>

definition label_key :: "(string \<times> string) list \<Rightarrow> string" where
  "label_key ls = join '':'' (map snd ls)"

definition told :: "string \<Rightarrow> string \<Rightarrow> prom_call list \<Rightarrow> prom_op list" where
  "told metric l cs = map pc_op (filter (\<lambda>c. pc_metric c = metric \<and> label_key (pc_labels c) = l) cs)"

fun amount :: "prom_op \<Rightarrow> rat" where
  "amount (PInc a) = a"
| "amount (PDec a) = - a"
| "amount (PObserve v) = v"
| "amount (PSet v) = v"

definition COUNTERS :: "((metrics_store \<Rightarrow> counters) \<times> string) list" where
  "COUNTERS =
     [(ms_pipeline_calls, ''agentoe_pipeline_calls_total''), (ms_stt_calls, ''agentoe_stt_calls_total''), (ms_llm_calls, ''agentoe_llm_calls_total''),
      (ms_tts_calls, ''agentoe_tts_calls_total''), (ms_transfer_requests, ''agentoe_transfer_requests_total''),
      (ms_policy_blocks, ''agentoe_policy_blocks_total''), (ms_llm_quota_checks, ''agentoe_llm_quota_checks_total''),
      (ms_llm_tokens_consumed, ''agentoe_llm_tokens_consumed_total''), (ms_llm_cost_cents, ''agentoe_llm_cost_cents_total''),
      (ms_jwks_lookups, ''agentoe_jwks_lookups_total''), (ms_ws_drops, ''agentoe_ws_drops_total'')]"

definition HISTOGRAMS :: "((metrics_store \<Rightarrow> histograms) \<times> string) list" where
  "HISTOGRAMS =
     [(ms_pipeline_latency, ''agentoe_pipeline_latency_ms''), (ms_stt_latency, ''agentoe_stt_latency_ms''), (ms_llm_latency, ''agentoe_llm_latency_ms''),
      (ms_tts_latency, ''agentoe_tts_latency_ms''), (ms_jwks_refresh_duration_s, ''agentoe_jwks_refresh_duration_seconds'')]"

definition SETTINGS :: "((metrics_store \<Rightarrow> counters) \<times> string) list" where
  "SETTINGS = [(ms_circuit_breaker_state, ''agentoe_circuit_breaker_state''), (ms_ws_send_queue_depth, ''agentoe_ws_send_queue_depth'')]"

definition last_amount :: "prom_op list \<Rightarrow> rat" where
  "last_amount ops = (if ops = [] then 0 else amount (last ops))"

definition prom_calls :: "metrics_store \<Rightarrow> prom_call list" where
  "prom_calls s = (case ms_prom s of None \<Rightarrow> [] | Some cs \<Rightarrow> cs)"

definition has_prom :: "metrics_store \<Rightarrow> bool" where "has_prom s \<longleftrightarrow> ms_prom s \<noteq> None"

definition agree :: "metrics_store \<Rightarrow> bool" where
  "agree s \<longleftrightarrow> has_prom s \<and>
     (\<forall>(f, m)\<in>set COUNTERS. \<forall>l. dd_get 0 (f s) l = sum_list (map amount (told m l (prom_calls s)))) \<and>
     (\<forall>(f, m)\<in>set HISTOGRAMS. \<forall>l. dd_get new_histogram (f s) l = fold observe (map amount (told m l (prom_calls s))) new_histogram) \<and>
     (\<forall>(f, m)\<in>set SETTINGS. \<forall>l. dd_get 0 (f s) l = last_amount (told m l (prom_calls s))) \<and>
     (\<forall>l. dd_get 0 (ms_active_sessions s) l = reflected (map amount (told ''agentoe_active_sessions'' l (prom_calls s))))"

lemma told_simps [simp]:
  "told m l [] = []"
  "told m l (cs @ ds) = told m l cs @ told m l ds"
  "told m l (\<lparr>pc_metric = m', pc_labels = ls, pc_op = oper\<rparr> # cs) = (if m' = m \<and> label_key ls = l then oper # told m l cs else told m l cs)"
  by (simp_all add: told_def)

lemma last_amount_snoc [simp]: "last_amount (ops @ [oper]) = amount oper" by (simp add: last_amount_def)

lemma label_key_simps [simp]:
  "label_key [(a, x)] = x" "label_key [(a, x), (b, y)] = x @ CHR '':'' # y"
  "label_key [(a, x), (b, y), (c, z)] = x @ CHR '':'' # y @ CHR '':'' # z"
  by (simp_all add: label_key_def)

lemmas agree_defs = agree_def COUNTERS_def HISTOGRAMS_def SETTINGS_def

lemma prom_calls_prom [simp]:
  "has_prom s \<Longrightarrow> prom_calls (prom m ls oper s) = prom_calls s @ [\<lparr>pc_metric = m, pc_labels = ls, pc_op = oper\<rparr>]"
  "has_prom (prom m ls oper s) \<longleftrightarrow> has_prom s"
  by (auto simp: prom_calls_def prom_def has_prom_def)

lemma prom_calls_update [simp]:
  "prom_calls (ms_pipeline_calls_update u s) = prom_calls s" "prom_calls (ms_stt_calls_update u s) = prom_calls s"
  "prom_calls (ms_llm_calls_update u s) = prom_calls s" "prom_calls (ms_tts_calls_update u s) = prom_calls s"
  "prom_calls (ms_transfer_requests_update u s) = prom_calls s" "prom_calls (ms_policy_blocks_update u s) = prom_calls s"
  "prom_calls (ms_llm_quota_checks_update u s) = prom_calls s" "prom_calls (ms_llm_tokens_consumed_update u s) = prom_calls s"
  "prom_calls (ms_llm_cost_cents_update u s) = prom_calls s" "prom_calls (ms_jwks_lookups_update u s) = prom_calls s"
  "prom_calls (ms_pipeline_latency_update h s) = prom_calls s" "prom_calls (ms_stt_latency_update h s) = prom_calls s"
  "prom_calls (ms_llm_latency_update h s) = prom_calls s" "prom_calls (ms_tts_latency_update h s) = prom_calls s"
  "prom_calls (ms_jwks_refresh_duration_s_update h s) = prom_calls s" "prom_calls (ms_active_sessions_update u s) = prom_calls s"
  "prom_calls (ms_circuit_breaker_state_update u s) = prom_calls s" "prom_calls (ms_ws_send_queue_depth_update u s) = prom_calls s"
  "prom_calls (ms_ws_drops_update u s) = prom_calls s"
  by (simp_all add: prom_calls_def)

lemma has_prom_update [simp]:
  "has_prom (ms_pipeline_calls_update u s) = has_prom s" "has_prom (ms_stt_calls_update u s) = has_prom s"
  "has_prom (ms_llm_calls_update u s) = has_prom s" "has_prom (ms_tts_calls_update u s) = has_prom s"
  "has_prom (ms_transfer_requests_update u s) = has_prom s" "has_prom (ms_policy_blocks_update u s) = has_prom s"
  "has_prom (ms_llm_quota_checks_update u s) = has_prom s" "has_prom (ms_llm_tokens_consumed_update u s) = has_prom s"
  "has_prom (ms_llm_cost_cents_update u s) = has_prom s" "has_prom (ms_jwks_lookups_update u s) = has_prom s"
  "has_prom (ms_pipeline_latency_update h s) = has_prom s" "has_prom (ms_stt_latency_update h s) = has_prom s"
  "has_prom (ms_llm_latency_update h s) = has_prom s" "has_prom (ms_tts_latency_update h s) = has_prom s"
  "has_prom (ms_jwks_refresh_duration_s_update h s) = has_prom s" "has_prom (ms_active_sessions_update u s) = has_prom s"
  "has_prom (ms_circuit_breaker_state_update u s) = has_prom s" "has_prom (ms_ws_send_queue_depth_update u s) = has_prom s"
  "has_prom (ms_ws_drops_update u s) = has_prom s"
  by (simp_all add: has_prom_def)

text \<open>Reading keeps every value.\<close>

lemma agree_touch: "agree s \<Longrightarrow> agree (touch_latency t (touch_calls t s))"
  by (simp add: agree_defs touch_calls_def touch_latency_def)

lemma agree_snapshot_touch: "agree s \<Longrightarrow> agree (snapshot_touch ts s)"
  unfolding snapshot_touch_def by (induction ts arbitrary: s) (simp_all add: agree_touch)

lemma agree_set_breaker: "agree s \<Longrightarrow> agree (set_circuit_breaker_state svc v s)"
  by (simp add: agree_defs set_circuit_breaker_state_def gauge_set_def)

lemma agree_sync: "agree s \<Longrightarrow> agree (sync_breakers sts s)"
  unfolding sync_breakers_def by (induction sts arbitrary: s) (simp_all add: agree_set_breaker)

lemma agree_snapshot: "agree s \<Longrightarrow> agree (snd (get_metrics_snapshot_async in_time http s))"
  by (simp add: get_metrics_snapshot_async_def get_metrics_snapshot_store agree_snapshot_touch split: sum.split)

lemma agree_stt: "agree s \<Longrightarrow> agree (stage_ms ms_stt_latency_update ''agentoe_stt_latency_ms'' t ms s)"
  by (simp add: agree_defs stage_ms_def obs_def)

lemma agree_llm: "agree s \<Longrightarrow> agree (stage_ms ms_llm_latency_update ''agentoe_llm_latency_ms'' t ms s)"
  by (simp add: agree_defs stage_ms_def obs_def)

lemma agree_tts: "agree s \<Longrightarrow> agree (stage_ms ms_tts_latency_update ''agentoe_tts_latency_ms'' t ms s)"
  by (simp add: agree_defs stage_ms_def obs_def)

lemma agree_calls:
  "agree s \<Longrightarrow> agree (prom ''agentoe_pipeline_latency_ms'' [(''tenant'', t)] (PObserve tot)
    (prom ''agentoe_pipeline_calls_total'' [(''tenant'', t), (''status'', status)] (PInc 1)
      (ms_pipeline_latency_update (obs t tot) (ms_pipeline_calls_update (inc (colon t status) 1) s))))"
  by (simp add: agree_defs obs_def inc_def)

lemma agree_usage: "agree s \<Longrightarrow> agree (record_llm_usage t model tokens cost s)"
  by (cases "tokens > 0"; cases "cost > 0") (simp_all add: record_llm_usage_def Let_def agree_defs inc_def)

lemma agree_access:
  assumes "agree s"
  shows "agree (access_store a s)"
proof (cases a)
  case (PipelineCall t ok tot stt llm tts deg)
  then show ?thesis by (simp add: record_pipeline_call_def Let_def agree_tts agree_llm agree_stt agree_calls assms)
next
  case (ReadStats t)
  then show ?thesis using agree_snapshot_touch [OF assms] by (simp add: get_pipeline_stats_store)
next
  case (ReadAll reg t)
  then show ?thesis using agree_snapshot_touch [OF agree_sync [OF assms]] by (simp add: get_all_metrics_store get_pipeline_stats_store)
next
  case (ReadSnapshot in_time http)
  then show ?thesis using agree_snapshot [OF assms] by simp
next
  case (BreakerState svc v)
  then show ?thesis using agree_set_breaker [OF assms] by simp
next
  case (LlmUsed t model tokens cost)
  then show ?thesis using agree_usage [OF assms] by simp
next
  case (SessionOpened t)
  then show ?thesis using assms by (simp add: record_defs agree_defs inc_def reflected_add)
next
  case (SessionClosed t)
  then show ?thesis using assms by (simp add: record_defs agree_defs gauge_dec_def)
qed (use assms in \<open>simp add: record_defs agree_defs inc_def obs_def gauge_set_def Let_def\<close>)+

lemma agree_new: "agree (new_store True)"
  by (simp add: agree_defs new_store_def has_prom_def prom_calls_def told_def last_amount_def reflected_def)

lemma agree_accesses: "agree s \<Longrightarrow> agree (accesses xs s)"
  by (induction xs arbitrary: s) (simp_all add: agree_access)

section \<open>Properties\<close>

text \<open>
  C38. The two records agree. After any sequence of recordings and reads, every counter of the store is the sum of what the client library was
  told under the labels that join to its label, every histogram is the one that observes the same values in the same order, and
  the two set gauges hold the last value. The gauge of active sessions stops at zero while the library's goes below: it is
  the library's value raised by the deepest point that value ever reached, so one close too many makes the two differ for good.
\<close>

theorem metrics_agree:
  "let s = accesses xs (new_store True); cs = prom_calls s;
       walk = (\<lambda>l. map amount (told ''agentoe_active_sessions'' l cs))
   in (\<forall>(f, m)\<in>set COUNTERS. \<forall>l. dd_get 0 (f s) l = sum_list (map amount (told m l cs))) \<and>
      (\<forall>(f, m)\<in>set HISTOGRAMS. \<forall>l. dd_get new_histogram (f s) l = fold observe (map amount (told m l cs)) new_histogram) \<and>
      (\<forall>(f, m)\<in>set SETTINGS. \<forall>l. dd_get 0 (f s) l = last_amount (told m l cs)) \<and>
      (\<forall>l. dd_get 0 (ms_active_sessions s) l = sum_list (walk l) - Min ((\<lambda>k. sum_list (take k (walk l))) ` {..length (walk l)}))"
  using agree_accesses [OF agree_new, of xs] unfolding agree_def Let_def reflected_eq by blast

theorem metrics_agree_witness:
  "let s = accesses [SessionClosed ''a'', SessionOpened ''a''] (new_store True)
   in dd_get 0 (ms_active_sessions s) ''a'' = 1 \<and> sum_list (map amount (told ''agentoe_active_sessions'' ''a'' (prom_calls s))) = 0"
  using metrics_agree [of "[SessionClosed ''a'', SessionOpened ''a'']"]
  by (simp add: Let_def record_defs new_store_def metric_ops prom_calls_def told_def dd_upd_def dd_get_def amount.simps)

end
