(* ===== verification/Metrics_Reports.thy ===== *)
theory Metrics_Reports
  imports Metrics
begin

text \<open>
  What the reports of \<^verbatim>\<open>app/core/metrics.py\<close> say about the calls that were recorded: percentiles, the dashboard snapshot and its
  sources, and the text exposition.
\<close>

section \<open>Labels\<close>

lemma split_on_hd: "CHR '':'' \<notin> set t \<Longrightarrow> hd (split_on CHR '':'' (t @ CHR '':'' # x)) = t"
proof (induction t)
  case (Cons c t)
  then show ?case by (cases "split_on CHR '':'' (t @ CHR '':'' # x)") auto
qed simp

lemma hd_split_no_colon: "CHR '':'' \<notin> set (hd (split_on CHR '':'' k))"
  by (induction k) (auto split: list.split)

lemma colon_inject:
  assumes "CHR '':'' \<notin> set a" "CHR '':'' \<notin> set b"
  shows "colon a x = colon b y \<longleftrightarrow> a = b \<and> x = y"
  using append_sep_inject [OF assms] by blast

lemma split_once_colon: "CHR '':'' \<notin> set a \<Longrightarrow> split_once (colon a b) = [a, b]"
  by (induction a) (auto simp: split_once_def)

section \<open>The recorded calls\<close>

fun call_of :: "access \<Rightarrow> (string \<times> string) list" where
  "call_of (PipelineCall t ok tot stt llm tts deg) = [(t, if deg then ''degraded'' else status_of ok)]"
| "call_of _ = []"

definition calls_of :: "access list \<Rightarrow> (string \<times> string) list" where
  "calls_of xs = concat (map call_of xs)"

definition count_label :: "string \<Rightarrow> (string \<times> string) list \<Rightarrow> rat" where
  "count_label l cs = of_nat (length (filter (\<lambda>(t, st). colon t st = l) cs))"

lemma count_label_append: "count_label l (xs @ ys) = count_label l xs + count_label l ys"
  by (simp add: count_label_def)

text \<open>Reads and other recordings leave the calls as they are, up to entries that are zero.\<close>

definition same_calls :: "metrics_store \<Rightarrow> metrics_store \<Rightarrow> bool" where
  "same_calls s s' \<longleftrightarrow> (\<forall>l. dd_get 0 (ms_pipeline_calls s') l = dd_get 0 (ms_pipeline_calls s) l) \<and>
     fst ` set (ms_pipeline_calls s) \<subseteq> fst ` set (ms_pipeline_calls s')"

lemma same_calls_refl [simp]: "ms_pipeline_calls s' = ms_pipeline_calls s \<Longrightarrow> same_calls s s'"
  by (simp add: same_calls_def)

lemma same_calls_trans: "same_calls s s' \<Longrightarrow> same_calls s' s'' \<Longrightarrow> same_calls s s''"
  unfolding same_calls_def by (metis subset_trans)

lemma dd_touch_keys: "fst ` set d \<subseteq> fst ` set (dd_touch v l d)"
  by (auto simp: dd_touch_def dict_keys_set split: option.split)

lemma same_calls_touch: "same_calls s (touch_latency t (touch_calls t s))"
proof -
  have "fst ` set d \<subseteq> fst ` set (dd_touch v a (dd_touch v b (dd_touch v c d)))" for d v a b c
    using dd_touch_keys [of d v c] dd_touch_keys [of "dd_touch v c d" v b] dd_touch_keys [of "dd_touch v b (dd_touch v c d)" v a] by blast
  then show ?thesis by (simp add: same_calls_def touch_latency_def touch_calls_def)
qed

lemma same_calls_snapshot_touch: "same_calls s (snapshot_touch ts s)"
  unfolding snapshot_touch_def
proof (induction ts arbitrary: s)
  case (Cons t ts)
  show ?case using same_calls_trans [OF same_calls_touch [of s t] Cons.IH] by simp
qed simp

lemma set_breaker_calls [simp]: "ms_pipeline_calls (set_circuit_breaker_state svc v s) = ms_pipeline_calls s"
  by (simp add: set_circuit_breaker_state_def)

lemma sync_breakers_calls [simp]: "ms_pipeline_calls (sync_breakers sts s) = ms_pipeline_calls s"
  unfolding sync_breakers_def by (induction sts arbitrary: s) simp_all

lemma stage_ms_calls [simp]:
  "ms_pipeline_calls (stage_ms ms_stt_latency_update m t ms s) = ms_pipeline_calls s"
  "ms_pipeline_calls (stage_ms ms_llm_latency_update m t ms s) = ms_pipeline_calls s"
  "ms_pipeline_calls (stage_ms ms_tts_latency_update m t ms s) = ms_pipeline_calls s"
  by (simp_all add: stage_ms_def)

lemma other_access_calls: "call_of a = [] \<Longrightarrow> same_calls s (access_store a s)"
proof (cases a)
  case (ReadStats t)
  then show ?thesis by (simp add: get_pipeline_stats_store same_calls_snapshot_touch)
next
  case (ReadAll reg t)
  then show ?thesis
    using same_calls_trans [OF same_calls_refl [of "sync_breakers (get_all_statuses reg) s" s] same_calls_snapshot_touch]
    by (simp add: get_all_metrics_store get_pipeline_stats_store)
next
  case (ReadSnapshot in_time http)
  then show ?thesis by (simp add: get_metrics_snapshot_async_def get_metrics_snapshot_store same_calls_snapshot_touch split: sum.split)
qed (auto simp: record_defs Let_def)

text \<open>The counters of the calls, and the labels that are there.\<close>

lemma calls_value:
  "dd_get 0 (ms_pipeline_calls (accesses xs (new_store b))) l = count_label l (calls_of xs) \<and>
   (\<forall>(t, st)\<in>set (calls_of xs). colon t st \<in> fst ` set (ms_pipeline_calls (accesses xs (new_store b))))"
proof (induction xs rule: rev_induct)
  case Nil
  show ?case by (simp add: new_store_def calls_of_def count_label_def)
next
  case (snoc a xs)
  let ?s = "accesses xs (new_store b)"
  show ?case
  proof (cases "call_of a = []")
    case True
    have sc: "same_calls ?s (access_store a ?s)" by (rule other_access_calls [OF True])
    have e: "calls_of (xs @ [a]) = calls_of xs" using True by (simp add: calls_of_def)
    have "dd_get 0 (ms_pipeline_calls (access_store a ?s)) l = count_label l (calls_of xs)" using snoc sc by (simp add: same_calls_def)
    moreover have "\<forall>(t, st)\<in>set (calls_of xs). colon t st \<in> fst ` set (ms_pipeline_calls (access_store a ?s))"
    proof (intro ballI, clarify)
      fix t st assume "(t, st) \<in> set (calls_of xs)"
      with snoc have k: "colon t st \<in> fst ` set (ms_pipeline_calls ?s)" by (metis case_prodD)
      have "fst ` set (ms_pipeline_calls ?s) \<subseteq> fst ` set (ms_pipeline_calls (access_store a ?s))" using sc by (simp add: same_calls_def)
      from subsetD [OF this k] show "colon t st \<in> fst ` set (ms_pipeline_calls (access_store a ?s))" .
    qed
    ultimately show ?thesis by (simp add: e)
  next
    case False
    then obtain t ok tot stt llm tts deg where a: "a = PipelineCall t ok tot stt llm tts deg" by (cases a) auto
    then have "ms_pipeline_calls (access_store a ?s) = inc (colon t (if deg then ''degraded'' else status_of ok)) 1 (ms_pipeline_calls ?s)"
      by (simp add: record_pipeline_call_def Let_def)
    with snoc a show ?thesis
      by (auto simp: calls_of_def count_label_append inc_def dd_upd_def dict_keys_set) (auto simp: count_label_def dd_get_def)
  qed
qed

section \<open>Sums over the tenants\<close>

lemma label_tenant:
  assumes "colon t' st' = colon t st" "CHR '':'' \<notin> set t" "CHR '':'' \<notin> set st"
  shows "t' = t \<and> st' = st"
proof -
  have "CHR '':'' \<notin> set t'" using assms by (auto simp: append_eq_append_conv2 Cons_eq_append_conv append_eq_Cons_conv)
  then show ?thesis using assms colon_inject by blast
qed

lemma sum_indicator: "distinct ts \<Longrightarrow> (\<Sum>t\<leftarrow>ts. if t = a then 1 else 0) = (if a \<in> set ts then 1 else (0 :: rat))"
  by (induction ts) auto

definition plain_calls :: "string \<Rightarrow> (string \<times> string) list \<Rightarrow> nat" where
  "plain_calls st cs = length (filter (\<lambda>(t, st'). CHR '':'' \<notin> set t \<and> st' = st) cs)"

lemma sum_tenants:
  assumes "distinct ts" "\<forall>t\<in>set ts. CHR '':'' \<notin> set t" "CHR '':'' \<notin> set st"
    and "\<forall>(t, _)\<in>set cs. CHR '':'' \<notin> set t \<longrightarrow> t \<in> set ts"
  shows "(\<Sum>t\<leftarrow>ts. count_label (colon t st) cs) = of_nat (plain_calls st cs)"
  using assms(4)
proof (induction cs)
  case (Cons c cs)
  obtain t' st' where c: "c = (t', st')" by (cases c)
  have one: "(colon t' st' = colon t st) = (t = t' \<and> st' = st)" if "t \<in> set ts" for t
    using label_tenant [of t' st' t st] assms(2,3) that by blast
  have "(\<Sum>t\<leftarrow>ts. count_label (colon t st) (c # cs)) = (\<Sum>t\<leftarrow>ts. (if t = t' then (if st' = st then 1 else 0) else 0) + count_label (colon t st) cs)"
    by (intro arg_cong [where f = sum_list] map_cong refl) (simp add: count_label_def c one)
  also have "\<dots> = (\<Sum>t\<leftarrow>ts. if t = t' then (if st' = st then 1 else 0) else 0) + (\<Sum>t\<leftarrow>ts. count_label (colon t st) cs)"
    by (simp add: sum_list_addf)
  also have "(\<Sum>t\<leftarrow>ts. if t = t' then (if st' = st then 1 else 0) else (0 :: rat)) = (if t' \<in> set ts \<and> st' = st then 1 else 0)"
    using sum_indicator [OF assms(1), of t'] by (cases "st' = st") simp_all
  also have "t' \<in> set ts \<longleftrightarrow> CHR '':'' \<notin> set t'" using Cons.prems assms(2) c by auto
  finally show ?case using Cons by (simp add: plain_calls_def c)
qed (simp add: count_label_def plain_calls_def)

lemma calls_status: "(t, st) \<in> set (calls_of xs) \<Longrightarrow> st \<in> {''success'', ''error'', ''degraded''}"
proof -
  assume "(t, st) \<in> set (calls_of xs)"
  then obtain a where "(t, st) \<in> set (call_of a)" by (auto simp: calls_of_def)
  then show ?thesis by (cases a) (auto simp: status_of_def split: if_splits)
qed

lemma plain_calls_total:
  assumes "\<forall>(t, st)\<in>set cs. st \<in> {''success'', ''error'', ''degraded''}"
  shows "plain_calls ''success'' cs + plain_calls ''error'' cs + plain_calls ''degraded'' cs = length (filter (\<lambda>(t, _). CHR '':'' \<notin> set t) cs)"
  using assms by (induction cs) (auto simp: plain_calls_def)

lemma tenants_of_facts:
  "distinct (tenants_of s)" "\<forall>t\<in>set (tenants_of s). CHR '':'' \<notin> set t"
  "colon t st \<in> fst ` set (ms_pipeline_calls s) \<Longrightarrow> CHR '':'' \<notin> set t \<Longrightarrow> t \<in> set (tenants_of s)"
proof -
  show "distinct (tenants_of s)" by (simp add: tenants_of_def Let_def)
  show "\<forall>t\<in>set (tenants_of s). CHR '':'' \<notin> set t" by (auto simp: tenants_of_def Let_def hd_split_no_colon)
  assume a: "colon t st \<in> fst ` set (ms_pipeline_calls s)" "CHR '':'' \<notin> set t"
  then obtain v where "(colon t st, v) \<in> set (ms_pipeline_calls s)" by auto
  then have "hd (split_on CHR '':'' (colon t st)) \<in> (\<lambda>(k, _). hd (split_on CHR '':'' k)) ` set (ms_pipeline_calls s)" by force
  then show "t \<in> set (tenants_of s)" unfolding split_on_hd [OF a(2)] by (auto simp: tenants_of_def Let_def)
qed

lemma snapshot_sums:
  assumes "s = accesses xs (new_store b)" "CHR '':'' \<notin> set st"
  shows "(\<Sum>t\<leftarrow>tenants_of s. dd_get 0 (ms_pipeline_calls s) (colon t st)) = of_nat (plain_calls st (calls_of xs))"
proof -
  have "dd_get 0 (ms_pipeline_calls s) l = count_label l (calls_of xs)" for l using calls_value [of xs b l] assms(1) by simp
  moreover have "\<forall>(t, _)\<in>set (calls_of xs). CHR '':'' \<notin> set t \<longrightarrow> t \<in> set (tenants_of s)"
  proof (intro ballI, clarify)
    fix t st' assume "(t, st') \<in> set (calls_of xs)" "CHR '':'' \<notin> set t"
    moreover then have "colon t st' \<in> fst ` set (ms_pipeline_calls s)" using calls_value [of xs b] assms(1) by (metis case_prodD)
    ultimately show "t \<in> set (tenants_of s)" using tenants_of_facts(3) by blast
  qed
  ultimately show ?thesis using sum_tenants [OF tenants_of_facts(1,2) assms(2)] by simp
qed

section \<open>Worst tenants and pooled samples\<close>

lemma max_or_zero_max:
  assumes "vals \<noteq> []"
  shows "max_or_zero vals \<in> set vals" "v \<in> set vals \<Longrightarrow> v \<le> max_or_zero vals"
proof -
  have m: "fold max vs a \<in> insert a (set vs) \<and> (\<forall>v\<in>insert a (set vs). v \<le> fold max vs a)" for vs and a :: rat
  proof (induction vs arbitrary: a)
    case (Cons x vs)
    from Cons [of "max x a"] show ?case by (auto simp: max_def split: if_splits)
  qed simp
  obtain a vs where "vals = a # vs" using assms by (cases vals) auto
  with m [of vs a] show "max_or_zero vals \<in> set vals" "v \<in> set vals \<Longrightarrow> v \<le> max_or_zero vals" by (auto simp: max_or_zero_def)
qed

lemma pooled_share:
  assumes "\<forall>w\<in>set wss. pct * length w \<le> 100 * length (filter P w)"
  shows "pct * length (concat wss) \<le> 100 * length (filter P (concat wss))"
  using assms
proof (induction wss)
  case (Cons w wss)
  then have "pct * length w \<le> 100 * length (filter P w)" "pct * length (concat wss) \<le> 100 * length (filter P (concat wss))" by simp_all
  then show ?case by (simp add: distrib_left)
qed simp

lemma tenants_of_nonempty: "tenants_of s \<noteq> []"
  by (simp add: tenants_of_def Let_def)

definition pooled :: "histograms \<Rightarrow> string list \<Rightarrow> rat list" where
  "pooled d ts = concat (map (\<lambda>t. hs_samples (dd_get new_histogram d t)) ts)"

lemma pooled_le_worst:
  assumes "pooled d ts \<noteq> []" and "\<forall>t\<in>set ts. st_p95 (latency d t) \<le> M"
  shows "sort (pooled d ts) ! rank_index 95 (length (pooled d ts)) \<le> M"
proof (rule percentile_le [OF assms(1)])
  have "95 * length w \<le> 100 * length (filter (\<lambda>x. x \<le> M) w)" if t: "t \<in> set ts" and w: "w = hs_samples (dd_get new_histogram d t)" for t w
  proof (cases "w = []")
    case False
    let ?v = "sort w ! rank_index 95 (length w)"
    have "?v \<le> M" using assms(2) t w False by (auto simp: latency_def hist_stats_of_def Let_def)
    then have "length (filter (\<lambda>x. x \<le> ?v) w) \<le> length (filter (\<lambda>x. x \<le> M) w)" by (intro length_filter_mono) simp
    moreover have "95 * length w \<le> 100 * length (filter (\<lambda>x. x \<le> ?v) w)" by (rule percentile_rank(2) [OF False _ _ refl]) simp_all
    ultimately show ?thesis by linarith
  qed simp
  then show "95 * length (pooled d ts) \<le> 100 * length (filter (\<lambda>x. x \<le> M) (pooled d ts))"
    unfolding pooled_def by (intro pooled_share) auto
qed simp_all

section \<open>Labels with a colon\<close>

definition colons :: "counters \<Rightarrow> bool" where "colons d \<longleftrightarrow> (\<forall>l\<in>fst ` set d. CHR '':'' \<in> set l)"

lemma colons_inc [simp]: "colons (inc (colon a b) v d) \<longleftrightarrow> colons d"
  by (auto simp: colons_def inc_def dd_upd_def dict_keys_set)

lemma colons_touch: "colons d \<Longrightarrow> colons (dd_touch v (colon a b) d)"
proof -
  assume d: "colons d"
  have "fst ` set (dd_touch v (colon a b) d) \<subseteq> insert (colon a b) (fst ` set d)"
    by (simp add: dd_touch_def dict_keys_set subset_insertI split: option.split)
  with d show ?thesis unfolding colons_def by fastforce
qed

definition labels_ok :: "metrics_store \<Rightarrow> bool" where
  "labels_ok s \<longleftrightarrow> colons (ms_pipeline_calls s) \<and> colons (ms_llm_tokens_consumed s) \<and> colons (ms_llm_cost_cents s) \<and> colons (ms_transfer_requests s)"

lemma labels_ok_touch: "labels_ok s \<Longrightarrow> labels_ok (snapshot_touch ts s)"
  unfolding snapshot_touch_def
  by (induction ts arbitrary: s) (simp_all add: labels_ok_def touch_latency_def touch_calls_def colons_touch)

lemma labels_ok_cong:
  "ms_pipeline_calls s' = ms_pipeline_calls s \<Longrightarrow> ms_llm_tokens_consumed s' = ms_llm_tokens_consumed s \<Longrightarrow> ms_llm_cost_cents s' = ms_llm_cost_cents s \<Longrightarrow>
   ms_transfer_requests s' = ms_transfer_requests s \<Longrightarrow> labels_ok s' = labels_ok s"
  by (simp add: labels_ok_def)

lemma labels_ok_sync: "labels_ok s \<Longrightarrow> labels_ok (sync_breakers sts s)"
  unfolding sync_breakers_def by (induction sts arbitrary: s) (simp_all add: labels_ok_def set_circuit_breaker_state_def)

lemma labels_ok_access: "labels_ok s \<Longrightarrow> labels_ok (access_store a s)"
proof (cases a)
  case (ReadStats t)
  then show "labels_ok s \<Longrightarrow> ?thesis" by (simp add: get_pipeline_stats_store labels_ok_touch)
next
  case (ReadAll reg t)
  then show "labels_ok s \<Longrightarrow> ?thesis" by (simp add: get_all_metrics_store get_pipeline_stats_store labels_ok_touch labels_ok_sync)
next
  case (ReadSnapshot in_time http)
  then show "labels_ok s \<Longrightarrow> ?thesis"
    by (simp add: get_metrics_snapshot_async_def get_metrics_snapshot_store labels_ok_touch split: sum.split)
qed (auto simp: record_defs Let_def stage_ms_def labels_ok_def)

lemma labels_ok_accesses: "labels_ok (accesses xs (new_store b))"
proof -
  have "labels_ok s \<Longrightarrow> labels_ok (accesses xs s)" for s by (induction xs arbitrary: s) (simp_all add: labels_ok_access)
  moreover have "labels_ok (new_store b)" by (simp add: labels_ok_def new_store_def colons_def)
  ultimately show ?thesis by blast
qed

lemma gather_two_part: "colons d \<Longrightarrow> \<exists>ls. gather_all (map (two_part F ts name k1 k2) d) = Inr ls"
  by (induction d) (auto simp: colons_def two_part_def split_once_def)

lemma transfer_rows_total: "colons d \<Longrightarrow> \<exists>r. transfer_rows tenant d res = Inr r"
  by (induction d arbitrary: res) (auto simp: colons_def split_once_def)

section \<open>Properties\<close>



text \<open>
  The counts of the snapshot. After any sequence of recordings and reads the snapshot counts exactly the recorded calls, and the failed
  ones, of the tenants whose name has no colon; the calls of every other tenant are in no count. The error rate is that of the
  counted calls.
\<close>

theorem snapshot_counts:
  "let s = accesses xs (new_store b); k = fst (get_metrics_snapshot s);
       counted = filter (\<lambda>(t, _). CHR '':'' \<notin> set t) (calls_of xs); failed = filter (\<lambda>(_, st). st = ''error'') counted
   in kp_total_calls k = int (length counted) \<and> kp_failed_calls k = int (length failed) \<and>
      kp_error_rate_pct k = Fin (round_to 2 (of_nat (length failed) / max (of_nat (length counted)) 1 * 100))"
proof -
  let ?s = "accesses xs (new_store b)"
  let ?cs = "calls_of xs"
  let ?counted = "filter (\<lambda>(t, _). CHR '':'' \<notin> set t) ?cs"
  have sums: "(\<Sum>t\<leftarrow>tenants_of ?s. dd_get 0 (ms_pipeline_calls ?s) (colon t st)) = of_nat (plain_calls st ?cs)" if "CHR '':'' \<notin> set st" for st
    by (rule snapshot_sums [OF refl that])
  have failed: "plain_calls ''error'' ?cs = length (filter (\<lambda>(_, st). st = ''error'') ?counted)"
    unfolding plain_calls_def filter_filter by (rule arg_cong [where f = length], rule filter_cong) auto
  have all: "plain_calls ''success'' ?cs + plain_calls ''error'' ?cs + plain_calls ''degraded'' ?cs = length ?counted"
    by (rule plain_calls_total) (use calls_status in blast)
  have "(\<Sum>t\<leftarrow>tenants_of ?s. dd_get 0 (ms_pipeline_calls ?s) (colon t ''success'') + dd_get 0 (ms_pipeline_calls ?s) (colon t ''error'') +
      dd_get 0 (ms_pipeline_calls ?s) (colon t ''degraded'')) = of_nat (length ?counted)"
    by (simp add: sum_list_addf sums flip: all)
  moreover have "py_int (of_nat n) = int n" for n by (simp add: py_int_def)
  ultimately show ?thesis using sums [of "''error''"] failed by (simp add: get_metrics_snapshot_def Let_def)
qed

text \<open>
  The latency of the snapshot is the one of the worst tenant. The reported 95th percentile is the rounded maximum over the tenants; the 95th
  percentile of all their samples together is never above it, and may be far below.
\<close>

theorem snapshot_worst_tenant:
  assumes "pooled (ms_pipeline_latency s) (tenants_of s) \<noteq> []"
  shows "\<exists>M. kp_p95_ms (fst (get_metrics_snapshot s)) = Fin (round_to 1 M) \<and>
    (\<exists>t\<in>set (tenants_of s). M = st_p95 (latency (ms_pipeline_latency s) t)) \<and>
    sort (pooled (ms_pipeline_latency s) (tenants_of s)) ! rank_index 95 (length (pooled (ms_pipeline_latency s) (tenants_of s))) \<le> M"
proof -
  let ?vals = "map (\<lambda>t. st_p95 (latency (ms_pipeline_latency s) t)) (tenants_of s)"
  have "?vals \<noteq> []" using tenants_of_nonempty by simp
  note m = max_or_zero_max [OF this]
  have "kp_p95_ms (fst (get_metrics_snapshot s)) = Fin (round_to 1 (max_or_zero ?vals))" by (simp add: get_metrics_snapshot_def Let_def)
  moreover have "\<exists>t\<in>set (tenants_of s). max_or_zero ?vals = st_p95 (latency (ms_pipeline_latency s) t)" using m(1) by auto
  moreover have "\<forall>t\<in>set (tenants_of s). st_p95 (latency (ms_pipeline_latency s) t) \<le> max_or_zero ?vals" using m(2) by auto
  ultimately show ?thesis using pooled_le_worst [OF assms] by blast
qed

definition two_tenants :: metrics_store where
  "two_tenants = accesses (PipelineCall ''a'' True 100 0 0 0 False # replicate 19 (PipelineCall ''b'' True 1 0 0 0 False)) (new_store False)"

theorem snapshot_worst_tenant_witness:
  "kp_p95_ms (fst (get_metrics_snapshot two_tenants)) = Fin 100 \<and>
   sort (pooled (ms_pipeline_latency two_tenants) (tenants_of two_tenants)) ! 18 = 1 \<and>
   (\<exists>M. kp_p95_ms (fst (get_metrics_snapshot two_tenants)) = Fin (round_to 1 M) \<and> 1 \<le> M)"
proof -
  have p: "kp_p95_ms (fst (get_metrics_snapshot two_tenants)) = Fin 100" by code_simp
  have q: "sort (pooled (ms_pipeline_latency two_tenants) (tenants_of two_tenants)) ! 18 = 1" by code_simp
  have n: "length (pooled (ms_pipeline_latency two_tenants) (tenants_of two_tenants)) = 20" by code_simp
  then have "pooled (ms_pipeline_latency two_tenants) (tenants_of two_tenants) \<noteq> []" by auto
  from snapshot_worst_tenant [OF this] n q have "\<exists>M. kp_p95_ms (fst (get_metrics_snapshot two_tenants)) = Fin (round_to 1 M) \<and> 1 \<le> M"
    by (auto simp: rank_index_def)
  with p q show ?thesis by blast
qed

text \<open>
  Where a snapshot comes from. The values of the Prometheus service are taken when all ten queries answer and one of session count,
  latency and call count is not zero; a count that is no number, a wrong type and a timeout fall back to the store. A latency that is no
  number is passed on: over five minutes without a call \<open>histogram_quantile\<close> gives one, and it is written to the dashboard as \<open>NaN\<close>, which is not JSON.
\<close>

theorem idle_snapshot_nan:
  assumes "gather_all (map (\<lambda>q. scalar_or_default http q (Fin 0)) SNAPSHOT_QUERIES) = Inr vs"
  shows "(vs ! 1 = NaN \<and> vs ! 0 = Fin a \<and> vs ! 7 = Fin b \<and> vs ! 8 = Fin c \<and> vs ! 9 = Fin d \<longrightarrow>
      kp_p95_ms (fst (get_metrics_snapshot_async True http s)) = NaN \<and> kp_ccu (fst (get_metrics_snapshot_async True http s)) = py_int a) \<and>
    (NaN \<in> {vs ! 0, vs ! 7, vs ! 8, vs ! 9} \<longrightarrow> get_metrics_snapshot_async True http s = get_metrics_snapshot s) \<and>
    get_metrics_snapshot_async False http s = get_metrics_snapshot s"
proof (intro conjI impI)
  assume "vs ! 1 = NaN \<and> vs ! 0 = Fin a \<and> vs ! 7 = Fin b \<and> vs ! 8 = Fin c \<and> vs ! 9 = Fin d"
  then show "kp_p95_ms (fst (get_metrics_snapshot_async True http s)) = NaN" "kp_ccu (fst (get_metrics_snapshot_async True http s)) = py_int a"
    using assms by (simp_all add: get_metrics_snapshot_async_def kpi_of_def Let_def)
next
  assume nan: "NaN \<in> {vs ! 0, vs ! 7, vs ! 8, vs ! 9}"
  have "\<exists>e. gather_all (map (\<lambda>i. int_of_float (vs ! i)) [0, 7, 8, 9]) = Inl e"
    using nan by (auto split: sum.split)
  then have "\<exists>e. kpi_of vs = Inl e" by (auto simp: kpi_of_def Let_def)
  then show "get_metrics_snapshot_async True http s = get_metrics_snapshot s"
    using assms by (auto simp: get_metrics_snapshot_async_def)
qed (simp add: get_metrics_snapshot_async_def)

definition idle_http :: "string \<Rightarrow> prom_reply" where
  "idle_http q = HttpReply True [Value (if q \<in> {Q_CCU, Q_TOTAL, Q_ERRORS, Q_RATE, Q_TENANTS} then Fin 3 else NaN)]"

theorem idle_snapshot_nan_witness: "kp_p95_ms (fst (get_metrics_snapshot_async True idle_http (new_store False))) = NaN"
proof -
  have "gather_all (map (\<lambda>q. scalar_or_default idle_http q (Fin 0)) SNAPSHOT_QUERIES) = Inr [Fin 3, NaN, NaN, Fin 3, NaN, NaN, NaN, Fin 3, Fin 3, Fin 3]"
    by code_simp
  from idle_snapshot_nan [OF this, of 3 3 3 3 "new_store False"] show ?thesis by simp
qed

text \<open>
  The text exposition and the hand-over statistics never raise, whatever was recorded and read before. The labels of a quota line are right for
  a tenant without a colon; the line of a tenant \<open>a:b\<close> is attributed to the tenant \<open>a\<close>.
\<close>

theorem reports_never_raise:
  "(\<exists>lines. generate_prometheus_metrics g F ts_ms (accesses xs (new_store available)) = Inr lines) \<and>
   (\<exists>rows. get_transfer_stats tenant (accesses xs (new_store available)) = Inr rows) \<and>
   (CHR '':'' \<notin> set a \<and> CHR '':'' \<notin> set b \<longrightarrow>
      three_part F ts_ms (colon a (colon b r), v) =
        [counter_line F ts_ms ''agentoe_llm_quota_checks_total'' [(''tenant'', a), (''scope'', b), (''result'', r)] v] \<and>
      three_part F ts_ms (colon (colon a b) (colon scope r), v) =
        [counter_line F ts_ms ''agentoe_llm_quota_checks_total'' [(''tenant'', a), (''scope'', b), (''result'', colon scope r)] v])"
proof (intro conjI impI)
  let ?s = "accesses xs (new_store available)"
  have ok: "colons (ms_pipeline_calls ?s)" "colons (ms_llm_tokens_consumed ?s)" "colons (ms_llm_cost_cents ?s)" "colons (ms_transfer_requests ?s)"
    using labels_ok_accesses by (simp_all add: labels_ok_def)
  from gather_two_part [OF ok(1)] obtain l1 where l1:
    "gather_all (map (two_part F ts_ms ''agentoe_pipeline_calls_total'' ''tenant'' ''status'') (ms_pipeline_calls ?s)) = Inr l1" by blast
  from gather_two_part [OF ok(2)] obtain l2 where l2:
    "gather_all (map (two_part F ts_ms ''agentoe_llm_tokens_consumed_total'' ''tenant'' ''model'') (ms_llm_tokens_consumed ?s)) = Inr l2" by blast
  from gather_two_part [OF ok(3)] obtain l3 where l3:
    "gather_all (map (two_part F ts_ms ''agentoe_llm_cost_cents_total'' ''tenant'' ''model'') (ms_llm_cost_cents ?s)) = Inr l3" by blast
  show "\<exists>lines. generate_prometheus_metrics g F ts_ms ?s = Inr lines"
    by (cases "ms_prom ?s") (simp_all add: generate_prometheus_metrics_def l1 l2 l3)
  show "\<exists>rows. get_transfer_stats tenant ?s = Inr rows" unfolding get_transfer_stats_def by (rule transfer_rows_total [OF ok(4)])
  assume "CHR '':'' \<notin> set a \<and> CHR '':'' \<notin> set b"
  then show "three_part F ts_ms (colon a (colon b r), v) =
      [counter_line F ts_ms ''agentoe_llm_quota_checks_total'' [(''tenant'', a), (''scope'', b), (''result'', r)] v]"
    "three_part F ts_ms (colon (colon a b) (colon scope r), v) =
      [counter_line F ts_ms ''agentoe_llm_quota_checks_total'' [(''tenant'', a), (''scope'', b), (''result'', colon scope r)] v]"
    by (simp_all add: three_part_def split_once_colon)
qed

definition test_format :: num_format where
  "test_format = \<lparr>nf_float = (\<lambda>_. ''1.0''), nf_int = (\<lambda>_. ''7''), nf_fixed = (\<lambda>_ _. ''1.0'')\<rparr>"

theorem reports_never_raise_witness:
  "three_part test_format 7 (''kr:east:tokens:reject'', 1) =
     [''agentoe_llm_quota_checks_total{tenant=\"kr\",scope=\"east\",result=\"tokens:reject\"} 1.0 7'']"
  using reports_never_raise [of "\<lambda>_. []" test_format 7 "[]" False None "''kr''" "''east''" "''reject''" 1 "''tokens''"]
  by (simp add: counter_line_def label_text_def test_format_def)

end
