(* ===== verification/Http_Routers.thy ===== *)
theory Http_Routers
  imports Session_Repository Background_Work Portal_Auth
begin

text \<open>
  The remaining routers: sessions (\<^verbatim>\<open>app/api/v1/routers/sessions.py\<close>), tokens (\<open>auth.py\<close>), the audit listing (\<open>audit.py\<close>) and the
  probes (\<open>health.py\<close>), with the paged listing of \<^verbatim>\<open>app/repositories/session_repository.py\<close>. The caller's context comes from \<open>Tenant_Auth\<close>.
  The stored document also keeps scenario, caller and metadata, which no operation of the repository reads.
\<close>

section \<open>Requests\<close>

record CreateSessionRequest =
  cr_scenario_id :: string
  cr_caller_number :: "string option"
  cr_metadata :: meta

record SessionResponse =
  sr_session_id :: string
  sr_tenant_id :: string
  sr_scenario_id :: string
  sr_status :: string
  sr_ws_url :: string

text \<open>A character of a pattern's class: in one of the ranges of code points, or one of the single characters.\<close>

definition char_class :: "(nat \<times> nat) list \<Rightarrow> string \<Rightarrow> char \<Rightarrow> bool" where
  "char_class ranges singles c \<longleftrightarrow> list_ex (\<lambda>(lo, hi). of_char c \<in> {lo..hi}) ranges \<or> c \<in> set singles"

definition scenario_char :: "char \<Rightarrow> bool" where
  "scenario_char = char_class [(97, 122), (65, 90), (48, 57)] ''_-''"

definition caller_char :: "char \<Rightarrow> bool" where
  "caller_char = char_class [(48, 57), (9, 13), (133, 133), (160, 160)] ''+-() ''"

definition create_request_ok :: "CreateSessionRequest \<Rightarrow> bool" where
  "create_request_ok r \<longleftrightarrow>
     1 \<le> length (cr_scenario_id r) \<and> length (cr_scenario_id r) \<le> 64 \<and> list_all scenario_char (cr_scenario_id r) \<and>
     (case cr_caller_number r of None \<Rightarrow> True | Some n \<Rightarrow> length n \<le> 32 \<and> list_all caller_char n) \<and> length (cr_metadata r) \<le> 50"

datatype api_error = Unprocessable | Refused auth_error | Failed pyexc | AssertionError

text \<open>
  The collections as lists of documents, in the order they are stored. The database breaks ties of a sort as it likes: the two
  orders are parameters.
\<close>

record 'w session_index =
  ix_sessions :: "'w \<Rightarrow> session_doc list"
  ix_turns :: "'w \<Rightarrow> turn_doc list"
  ix_newest :: "session_doc list \<Rightarrow> session_doc list"
  ix_by_timestamp :: "turn_doc list \<Rightarrow> turn_doc list"

section \<open>Sessions\<close>

definition create_session ::
  "'w session_db \<Rightarrow> time \<Rightarrow> string \<Rightarrow> CreateSessionRequest \<Rightarrow> TenantContext \<Rightarrow> 'w \<Rightarrow> (api_error + SessionResponse) \<times> 'w" where
  "create_session S now uuid payload tenant w =
     (if \<not> create_request_ok payload then (Inl Unprocessable, w)
      else (let session_id = ''sess_'' @ uuid
            in case repo_create S now \<lparr>in_session_id = session_id, in_tenant_id = tn_tenant_id tenant, in_client_id = [], in_status = Some ''IDLE''\<rparr> w of
                 (Inl e, w1) \<Rightarrow> (Inl (Failed e), w1)
               | (Inr created, w1) \<Rightarrow>
                   (Inr \<lparr>sr_session_id = sd_session_id created, sr_tenant_id = sd_tenant_id created, sr_scenario_id = cr_scenario_id payload,
                         sr_status = sd_status created, sr_ws_url = ''wss://api.agentoe.io/ws/sessions/'' @ session_id\<rparr>, w1)))"

definition owned_session :: "'w session_db \<Rightarrow> string \<Rightarrow> TenantContext \<Rightarrow> 'w \<Rightarrow> api_error + session_doc" where
  "owned_session S session_id tenant w =
     (case get_by_id S session_id w of
        Inl e \<Rightarrow> Inl (Failed e)
      | Inr doc \<Rightarrow> (case assert_tenant_ownership (Some (sd_tenant_id doc)) tenant of Inl e \<Rightarrow> Inl (Refused e) | Inr _ \<Rightarrow> Inr doc))"

definition get_session :: "'w session_db \<Rightarrow> string \<Rightarrow> TenantContext \<Rightarrow> 'w \<Rightarrow> api_error + session_doc" where
  "get_session S session_id tenant w = owned_session S session_id tenant w"

definition session_match :: "string \<Rightarrow> string option \<Rightarrow> session_doc \<Rightarrow> bool" where
  "session_match tenant_id status d \<longleftrightarrow>
     sd_tenant_id d = tenant_id \<and> (case status of None \<Rightarrow> True | Some st \<Rightarrow> st = [] \<or> sd_status d = st)"

definition sessions_of_tenant ::
  "'w session_db \<Rightarrow> 'w session_index \<Rightarrow> string \<Rightarrow> string option \<Rightarrow> nat \<Rightarrow> nat \<Rightarrow> 'w \<Rightarrow> pyexc + (session_doc list \<times> nat)" where
  "sessions_of_tenant S I tenant_id status limit offset w =
     (if \<not> mongo_ok S w then Inl PyMongoError
      else (let found = filter (session_match tenant_id status) (ix_sessions I w)
            in Inr (take limit (drop offset (ix_newest I found)), length found)))"

definition status_filter_ok :: "string option \<Rightarrow> bool" where
  "status_filter_ok s \<longleftrightarrow>
     (case s of None \<Rightarrow> True | Some t \<Rightarrow> length t \<le> 32 \<and> list_all (char_class [(65, 90)] ''_'') t)"

definition list_sessions ::
  "'w session_db \<Rightarrow> 'w session_index \<Rightarrow> TenantContext \<Rightarrow> string option \<Rightarrow> int \<Rightarrow> int \<Rightarrow> 'w \<Rightarrow> api_error + (session_doc list \<times> nat)" where
  "list_sessions S I tenant status limit offset w =
     (if \<not> status_filter_ok status \<or> limit < 1 \<or> 100 < limit \<or> offset < 0 then Inl Unprocessable
      else (case sessions_of_tenant S I (tn_tenant_id tenant) status (nat limit) (nat offset) w of Inl e \<Rightarrow> Inl (Failed e) | Inr r \<Rightarrow> Inr r))"

definition end_session_api :: "'w session_db \<Rightarrow> time \<Rightarrow> string \<Rightarrow> TenantContext \<Rightarrow> 'w \<Rightarrow> (api_error + unit) \<times> 'w" where
  "end_session_api S now session_id tenant w =
     (case owned_session S session_id tenant w of
        Inl e \<Rightarrow> (Inl e, w)
      | Inr _ \<Rightarrow> (case repo_end_session S now session_id ''normal'' None w of (Inl e, w1) \<Rightarrow> (Inl (Failed e), w1) | (Inr _, w1) \<Rightarrow> (Inr (), w1)))"

text \<open>The first page comes as messages from the repository, the others as stored documents.\<close>

datatype turn_page = Messages "message list" | Documents "turn_doc list"

definition get_turns_with_offset :: "'w session_db \<Rightarrow> 'w session_index \<Rightarrow> string \<Rightarrow> nat \<Rightarrow> nat \<Rightarrow> 'w \<Rightarrow> pyexc + turn_doc list" where
  "get_turns_with_offset S I session_id limit offset w =
     (if \<not> mongo_ok S w then Inl PyMongoError
      else Inr (take limit (drop offset (ix_by_timestamp I (filter (\<lambda>t. td_session_id t = session_id) (ix_turns I w))))))"

definition get_session_turns ::
  "'w session_db \<Rightarrow> 'w session_index \<Rightarrow> string \<Rightarrow> TenantContext \<Rightarrow> int \<Rightarrow> int \<Rightarrow> 'w \<Rightarrow> api_error + turn_page" where
  "get_session_turns S I session_id tenant limit offset w =
     (if limit < 1 \<or> 200 < limit \<or> offset < 0 then Inl Unprocessable
      else (case owned_session S session_id tenant w of
              Inl e \<Rightarrow> Inl e
            | Inr _ \<Rightarrow>
                if offset = 0
                then (case get_recent_history S session_id (nat limit) w of Inl e \<Rightarrow> Inl (Failed e) | Inr ms \<Rightarrow> Inr (Messages ms))
                else (case get_turns_with_offset S I session_id (nat limit) (nat offset) w of Inl e \<Rightarrow> Inl (Failed e) | Inr ds \<Rightarrow> Inr (Documents ds))))"

definition page_count :: "turn_page \<Rightarrow> nat" where
  "page_count p = (case p of Messages ms \<Rightarrow> length ms | Documents ds \<Rightarrow> length ds)"

section \<open>Tokens\<close>

text \<open>A field of the JSON body: absent, a string, or another value that is true or not.\<close>

datatype json_field = Absent | Text string | Other bool

fun given_field :: "json_field \<Rightarrow> bool" where
  "given_field Absent = False"
| "given_field (Text s) = (s \<noteq> [])"
| "given_field (Other b) = b"

record token_response =
  tk_access_token :: string
  tk_expires_in :: int
  tk_tenant_id :: string

definition token_event :: "http_request \<Rightarrow> string \<Rightarrow> string \<Rightarrow> audit_event" where
  "token_event rq tenant_id client_id =
     \<lparr>ev_action = ''auth.token_issued'', ev_actor = None, ev_resource = Some (''tenant'', tenant_id), ev_before = None,
      ev_after = Some [(''client_id'', vstr client_id), (''roles'', VList [vstr ''operator''])], ev_request = Some rq,
      ev_event_type = Some ''auth_token_issued'', ev_session_id = None, ev_details = None\<rparr>"

definition get_token ::
  "auth_settings \<Rightarrow> (claims \<Rightarrow> string) \<Rightarrow> 'w audit_db \<Rightarrow> string option list \<Rightarrow> time \<Rightarrow> http_request \<Rightarrow> json_field \<Rightarrow> json_field \<Rightarrow> json_field \<Rightarrow> 'w
   \<Rightarrow> (api_error + token_response) \<times> 'w" where
  "get_token cfg encode A envs now rq tenant_id client_id client_secret w =
     (if \<not> (given_field tenant_id \<and> given_field client_id \<and> given_field client_secret)
      then (Inl (Refused (AuthenticationError ''tenant_id, client_id, client_secret required'')), w)
      else (case (tenant_id, client_id) of
              (Text t, Text c) \<Rightarrow>
                (Inr \<lparr>tk_access_token = create_access_token cfg encode now t c [''operator''] ''agentoe-api'' None, tk_expires_in = 3600, tk_tenant_id = t\<rparr>,
                 audit_emit A envs now (token_event rq t c) w)
            | _ \<Rightarrow> (Inl AssertionError, w)))"

section \<open>Audit listing\<close>

definition list_audit_events ::
  "'w audit_db \<Rightarrow> (audit_doc list \<Rightarrow> audit_doc list) \<Rightarrow> TenantContext \<Rightarrow> string option \<Rightarrow> string option \<Rightarrow> time option \<Rightarrow> time option \<Rightarrow> int \<Rightarrow> int \<Rightarrow> 'w
   \<Rightarrow> (api_error + (audit_doc list \<times> nat)) \<times> 'w" where
  "list_audit_events A order tenant session_id event_type from_dt to_dt limit offset w =
     (if limit < 1 \<or> 200 < limit \<or> offset < 0 then (Inl Unprocessable, w)
      else (case audit_query A order \<lparr>aq_tenant_id = tn_tenant_id tenant, aq_session_id = session_id, aq_event_type = event_type, aq_from = from_dt, aq_to = to_dt\<rparr>
                   (nat limit) (nat offset) w of
              (Inl e, w1) \<Rightarrow> (Inl (Failed e), w1) | (Inr r, w1) \<Rightarrow> (Inr r, w1)))"

section \<open>Probes\<close>

record probes =
  pb_startup_completed_at :: "time option"
  pb_manager :: shutdown_manager

definition mark_startup_complete :: "time \<Rightarrow> probes \<Rightarrow> probes" where
  "mark_startup_complete now p = p\<lparr>pb_startup_completed_at := Some now\<rparr>"

text \<open>A ping answers, or raises with a text.\<close>

definition check_service :: "string \<Rightarrow> string option \<Rightarrow> bool \<times> string" where
  "check_service name failure = (case failure of None \<Rightarrow> (True, ''ok'') | Some e \<Rightarrow> (False, name @ '': '' @ e))"

definition livez :: "probes \<Rightarrow> int" where "livez p = 200"

definition readyz :: "string option \<Rightarrow> string option \<Rightarrow> probes \<Rightarrow> int \<times> string \<times> (string \<times> string) list" where
  "readyz mongo redis p =
     (if sm_draining (pb_manager p) then (503, ''draining'', [])
      else (case (check_service ''mongo'' mongo, check_service ''redis'' redis) of
              ((m_up, mongo_msg), (r_up, redis_msg)) \<Rightarrow>
                (if m_up \<and> r_up then 200 else 503, if m_up \<and> r_up then ''ready'' else ''not_ready'',
                 [(''mongodb'', mongo_msg), (''redis'', redis_msg)])))"

definition startupz :: "probes \<Rightarrow> int" where
  "startupz p = (if pb_startup_completed_at p = None then 503 else 200)"

definition health_check :: "probes \<Rightarrow> int" where "health_check p = 200"

section \<open>Lemmas\<close>

lemma owned_session_iff:
  "owned_session S sid tenant w = Inr d \<longleftrightarrow> mongo_ok S w \<and> m_find_session S sid w = Some d \<and>
     (sd_tenant_id d = tn_tenant_id tenant \<or> set (tn_roles tenant) \<inter> set PLATFORM_ADMIN_ROLES \<noteq> {})"
  by (auto simp: owned_session_def get_by_id_def assert_tenant_ownership_def list_ex_iff split: option.splits sum.splits if_splits)

lemma own_tenant_reads:
  "mongo_ok S w \<Longrightarrow> m_find_session S sid w = Some d \<Longrightarrow> sd_tenant_id d = tn_tenant_id tenant \<Longrightarrow> get_session S sid tenant w = Inr d"
  by (simp add: get_session_def owned_session_iff)

lemma end_session_refused: "owned_session S sid tenant w = Inl e \<Longrightarrow> end_session_api S now sid tenant w = (Inl e, w)"
  by (simp add: end_session_api_def)

lemma end_session_effect:
  assumes "session_db_laws S" and "owned_session S sid tenant w = Inr d"
  shows "fst (end_session_api S now sid tenant w) = Inr () \<and>
    m_find_session S i (snd (end_session_api S now sid tenant w)) =
      (if i = sid then Some (d\<lparr>sd_status := ''ENDED'', sd_ended_at := Some now, sd_updated_at := now, sd_end_reason := Some ''normal''\<rparr>)
       else m_find_session S i w)"
proof -
  have d: "mongo_ok S w" "m_find_session S sid w = Some d" using assms(2) by (simp_all add: owned_session_iff)
  have "snd (end_session_api S now sid tenant w) = delete_session_state S sid None (snd (m_update_session S sid
      (\<lambda>d. d\<lparr>sd_status := ''ENDED'', sd_ended_at := Some now, sd_updated_at := now, sd_end_reason := Some ''normal''\<rparr>) w))"
    "fst (end_session_api S now sid tenant w) = Inr ()"
    using d(1) assms(2) by (simp_all add: end_session_api_def repo_end_session_def case_prod_unfold Let_def)
  then show ?thesis using d(2) by (simp add: delete_session_state_def mongo_session_rules [OF assms(1)])
qed

text \<open>The documented order of the repository's read: highest turn number first.\<close>

definition turn_laws :: "'w session_db \<Rightarrow> 'w session_index \<Rightarrow> bool" where
  "turn_laws S I \<longleftrightarrow>
     (\<forall>i n w. m_recent_turns S i n w = take n (rev (sort_key td_turn_index (filter (\<lambda>t. td_session_id t = i) (ix_turns I w)))))"

lemma take_rev_last_n: "rev (take n (rev xs)) = last_n n xs"
  by (simp add: last_n_def rev_take)

lemma nth_not_in_last_n: "distinct xs \<Longrightarrow> i + n < length xs \<Longrightarrow> xs ! i \<notin> set (last_n n xs)"
  by (auto simp: last_n_def in_set_conv_nth nth_eq_iff_index_eq)

lemma nth_not_in_page: "distinct xs \<Longrightarrow> i < m \<Longrightarrow> i < length xs \<Longrightarrow> xs ! i \<notin> set (take n (drop m xs))"
  by (auto simp: in_set_conv_nth nth_eq_iff_index_eq)

section \<open>Properties\<close>

text \<open>
  C24. Sessions are open to their tenant and the platform administrators only. A session is read, ended and replayed exactly when the caller's
  tenant owns it or a role is an administrator's; a refused call changes nothing; ending changes this one session, with the reason \<open>normal\<close>;
  a listing only has sessions of the caller's tenant.
\<close>

theorem session_api_guarded:
  assumes "session_db_laws S"
  shows "(get_session S sid tenant w = Inr d \<longleftrightarrow> mongo_ok S w \<and> m_find_session S sid w = Some d \<and>
      (sd_tenant_id d = tn_tenant_id tenant \<or> set (tn_roles tenant) \<inter> set PLATFORM_ADMIN_ROLES \<noteq> {})) \<and>
    (get_session S sid tenant w = Inl e \<longrightarrow> end_session_api S now sid tenant w = (Inl e, w)) \<and>
    (get_session S sid tenant w = Inr d \<longrightarrow> fst (end_session_api S now sid tenant w) = Inr () \<and>
       (\<forall>i. m_find_session S i (snd (end_session_api S now sid tenant w)) =
          (if i = sid then Some (d\<lparr>sd_status := ''ENDED'', sd_ended_at := Some now, sd_updated_at := now, sd_end_reason := Some ''normal''\<rparr>)
           else m_find_session S i w))) \<and>
    (get_session_turns S I sid tenant limit offset w = Inr page \<longrightarrow> (\<exists>d. get_session S sid tenant w = Inr d)) \<and>
    (list_sessions S I tenant status limit offset w = Inr (items, n) \<and> (\<forall>xs. mset (ix_newest I xs) = mset xs) \<longrightarrow>
       (\<forall>x\<in>set items. sd_tenant_id x = tn_tenant_id tenant) \<and> length items \<le> n)"
proof (intro conjI impI allI)
  show "get_session S sid tenant w = Inr d \<longleftrightarrow> mongo_ok S w \<and> m_find_session S sid w = Some d \<and>
      (sd_tenant_id d = tn_tenant_id tenant \<or> set (tn_roles tenant) \<inter> set PLATFORM_ADMIN_ROLES \<noteq> {})"
    unfolding get_session_def by (rule owned_session_iff)
  show "end_session_api S now sid tenant w = (Inl e, w)" if "get_session S sid tenant w = Inl e"
    using that by (simp add: get_session_def end_session_refused)
  show "fst (end_session_api S now sid tenant w) = Inr ()" if "get_session S sid tenant w = Inr d"
    using end_session_effect [OF assms] that by (simp add: get_session_def)
  show "m_find_session S i (snd (end_session_api S now sid tenant w)) =
      (if i = sid then Some (d\<lparr>sd_status := ''ENDED'', sd_ended_at := Some now, sd_updated_at := now, sd_end_reason := Some ''normal''\<rparr>)
       else m_find_session S i w)" if "get_session S sid tenant w = Inr d" for i
    using end_session_effect [OF assms, of sid tenant w d now i] that unfolding get_session_def by blast
  show "\<exists>d. get_session S sid tenant w = Inr d" if "get_session_turns S I sid tenant limit offset w = Inr page"
    using that by (auto simp: get_session_turns_def get_session_def split: if_splits sum.splits)
  assume a: "list_sessions S I tenant status limit offset w = Inr (items, n) \<and> (\<forall>xs. mset (ix_newest I xs) = mset xs)"
  let ?found = "filter (session_match (tn_tenant_id tenant) status) (ix_sessions I w)"
  from a have items: "items = take (nat limit) (drop (nat offset) (ix_newest I ?found))" "n = length ?found"
    by (auto simp: list_sessions_def sessions_of_tenant_def Let_def split: if_splits sum.splits)
  have perm: "set (ix_newest I ?found) = set ?found" "length (ix_newest I ?found) = length ?found"
    using a by (metis set_mset_mset, metis size_mset)
  have "set items \<subseteq> set ?found" unfolding items(1) perm(1) [symmetric] by (meson in_set_dropD in_set_takeD subsetI)
  then show "\<forall>x\<in>set items. sd_tenant_id x = tn_tenant_id tenant" by (auto simp: session_match_def)
  show "length items \<le> n" unfolding items perm(2) [symmetric] by simp
qed

definition demo_context :: "string \<Rightarrow> TenantContext" where
  "demo_context t = \<lparr>tn_tenant_id = t, tn_client_id = ''c'', tn_roles = [''operator''], tn_issuer = ''agentoe-api''\<rparr>"

definition demo_create :: CreateSessionRequest where
  "demo_create = \<lparr>cr_scenario_id = ''default'', cr_caller_number = None, cr_metadata = []\<rparr>"

theorem session_api_guarded_witness:
  "let w = snd (create_session mem_up 5 ''u1'' demo_create (demo_context ''acme'') empty_mem)
   in m_find_session mem_up ''sess_u1'' w \<noteq> None \<and> \<not> (\<exists>d. get_session mem_up ''sess_u1'' (demo_context ''globex'') w = Inr d)"
proof -
  let ?w = "snd (create_session mem_up 5 ''u1'' demo_create (demo_context ''acme'') empty_mem)"
  have find: "\<exists>d. m_find_session mem_up ''sess_u1'' ?w = Some d \<and> sd_tenant_id d = ''acme''"
    by (simp add: create_session_def repo_create_def create_request_ok_def demo_create_def demo_context_def mem_db_def empty_mem_def set_session_state_def
        scenario_char_def char_class_def Let_def)
  have "get_session mem_up ''sess_u1'' (demo_context ''globex'') ?w = Inr d \<longleftrightarrow> mongo_ok mem_up ?w \<and> m_find_session mem_up ''sess_u1'' ?w = Some d \<and>
      (sd_tenant_id d = tn_tenant_id (demo_context ''globex'') \<or> set (tn_roles (demo_context ''globex'')) \<inter> set PLATFORM_ADMIN_ROLES \<noteq> {})" for d
    by (rule session_api_guarded [OF mem_db_laws, THEN conjunct1])
  with find show ?thesis unfolding Let_def by (auto simp: demo_context_def PLATFORM_ADMIN_ROLES_def)
qed

text \<open>
  The pages of a replay do not add up. The first page is the newest \<open>limit\<close> turns, as two messages each; page \<open>k\<close> after it is taken
  from the start of the stored turns, as documents. Of a session with more turns than \<open>limit\<close>, the oldest are on no page. The stored turns have no field
  \<open>timestamp\<close> to sort by, so even the order is the database's choice.
\<close>

theorem turn_pages_miss:
  assumes "turn_laws S I" and "owned_session S sid tenant w = Inr d" and "1 \<le> limit" "limit \<le> 200"
    and ts: "ts = filter (\<lambda>t. td_session_id t = sid) (ix_turns I w)" and ordered: "sorted_wrt (<) (map td_turn_index ts)"
  shows "get_session_turns S I sid tenant limit 0 w = Inr (Messages (concat (map turn_messages (last_n (nat limit) ts)))) \<and>
    (\<forall>k>0. get_session_turns S I sid tenant limit (int k * limit) w =
       Inr (Documents (take (nat limit) (drop (k * nat limit) (ix_by_timestamp I ts))))) \<and>
    (ix_by_timestamp I ts = ts \<longrightarrow> (\<forall>i<nat limit. i + nat limit < length ts \<longrightarrow>
       ts ! i \<notin> set (last_n (nat limit) ts) \<and>
       (\<forall>k>0. \<exists>ds. get_session_turns S I sid tenant limit (int k * limit) w = Inr (Documents ds) \<and> ts ! i \<notin> set ds)))"
proof -
  have up: "mongo_ok S w" using assms(2) by (simp add: owned_session_iff)
  have "sorted (map td_turn_index ts)" using ordered by (simp add: strict_sorted_imp_sorted)
  then have sorted: "sort_key td_turn_index ts = ts" by (rule sort_key_id_if_sorted)
  have dist: "distinct ts" using ordered by (metis distinct_map strict_sorted_iff)
  have first: "get_session_turns S I sid tenant limit 0 w = Inr (Messages (concat (map turn_messages (last_n (nat limit) ts))))"
    using assms(1-4) up sorted by (simp add: get_session_turns_def get_recent_history_def turn_laws_def ts [symmetric] take_rev_last_n)
  have nat: "nat (int k * limit) = k * nat limit" for k using assms(3) by (simp add: nat_mult_distrib)
  have later: "get_session_turns S I sid tenant limit (int k * limit) w = Inr (Documents (take (nat limit) (drop (k * nat limit) (ix_by_timestamp I ts))))"
    if "k > 0" for k
  proof -
    have "\<not> int k * limit < 0" using assms(3) by (simp add: not_less)
    then show ?thesis using assms(2-4) up that by (simp add: get_session_turns_def get_turns_with_offset_def ts [symmetric] nat)
  qed
  have "ts ! i \<notin> set (take (nat limit) (drop (k * nat limit) ts))" if "i < nat limit" "i + nat limit < length ts" "k > 0" for i k
  proof (rule nth_not_in_page [OF dist])
    have "nat limit \<le> k * nat limit" using that(3) by simp
    then show "i < k * nat limit" "i < length ts" using that(1,2) by linarith+
  qed
  with first later nth_not_in_last_n [OF dist] show ?thesis by simp
qed

definition turn_no :: "nat \<Rightarrow> turn_doc" where
  "turn_no i = \<lparr>td_session_id = ''sess_u1'', td_turn_index = i, td_user_text = [i], td_ai_text = [i], td_policy_level = ''G1'', td_latency = [], td_created_at = int i\<rparr>"

definition three_turns :: mem_store where
  "three_turns = (snd (create_session mem_up 5 ''u1'' demo_create (demo_context ''acme'') empty_mem))\<lparr>mem_turns := [turn_no 2, turn_no 1, turn_no 0]\<rparr>"

definition mem_index :: "mem_store session_index" where
  "mem_index = \<lparr>ix_sessions = (\<lambda>_. []), ix_turns = (\<lambda>w. rev (mem_turns w)), ix_newest = id, ix_by_timestamp = id\<rparr>"

text \<open>A read that sorts, as the database does.\<close>

definition sorting_db :: "mem_store session_db" where
  "sorting_db = mem_up\<lparr>m_recent_turns := (\<lambda>i n w. take n (rev (sort_key td_turn_index (filter (\<lambda>t. td_session_id t = i) (rev (mem_turns w))))))\<rparr>"

theorem turn_pages_miss_witness:
  "get_session_turns sorting_db mem_index ''sess_u1'' (demo_context ''acme'') 1 0 three_turns = Inr (Messages (turn_messages (turn_no 2))) \<and>
   (\<forall>k>0. \<exists>ds. get_session_turns sorting_db mem_index ''sess_u1'' (demo_context ''acme'') 1 (int k * 1) three_turns = Inr (Documents ds) \<and> turn_no 0 \<notin> set ds)"
proof -
  let ?ts = "[turn_no 0, turn_no 1, turn_no 2]"
  have laws: "turn_laws sorting_db mem_index" by (simp add: turn_laws_def sorting_db_def mem_index_def)
  obtain d where own: "owned_session sorting_db ''sess_u1'' (demo_context ''acme'') three_turns = Inr d"
    by (simp add: owned_session_iff sorting_db_def three_turns_def create_session_def repo_create_def create_request_ok_def demo_create_def demo_context_def
        mem_db_def empty_mem_def set_session_state_def scenario_char_def char_class_def Let_def)
  have ts: "?ts = filter (\<lambda>t. td_session_id t = ''sess_u1'') (ix_turns mem_index three_turns)"
    by (simp add: mem_index_def three_turns_def turn_no_def)
  have ordered: "sorted_wrt (<) (map td_turn_index ?ts)" by (simp add: turn_no_def)
  have lim: "1 \<le> (1 :: int)" "(1 :: int) \<le> 200" by simp_all
  note t = turn_pages_miss [OF laws own lim ts ordered]
  have same: "ix_by_timestamp mem_index ?ts = ?ts" by (simp add: mem_index_def)
  have i: "0 < nat 1" "0 + nat 1 < length ?ts" by simp_all
  note later = t [THEN conjunct2, THEN conjunct2, THEN mp, OF same, THEN spec [of _ 0], THEN mp, OF i(1), THEN mp, OF i(2), THEN conjunct2]
  have "turn_no 0 = ?ts ! 0" by simp
  with t [THEN conjunct1] later show ?thesis by (simp add: last_n_def)
qed

text \<open>
  A token is given to anyone. Whatever non-empty secret is sent with a tenant and a client name, the answer is a token that makes its
  bearer an operator of that tenant, to whom every session of the tenant is open; the event is recorded for the tenant \<open>system\<close>.
\<close>

theorem token_for_anyone:
  assumes "\<And>c. \<exists>d. decode (encode c) = Some d \<and> same_identity d c" and "audit_laws A" and "t \<noteq> []" "c \<noteq> []" "secret \<noteq> []"
    and "header_or_empty rq ''X-Tenant-Id'' = []"
  shows "\<exists>token w'. get_token cfg encode A envs now rq0 (Text t) (Text c) (Text secret) w = (Inr \<lparr>tk_access_token = token, tk_expires_in = 3600, tk_tenant_id = t\<rparr>, w') \<and>
    (\<exists>ctx. get_current_tenant cfg decode rq token = Inr ctx \<and> tn_tenant_id ctx = t \<and> tn_roles ctx = [''operator''] \<and>
       (\<forall>S sid v d. mongo_ok S v \<and> m_find_session S sid v = Some d \<and> sd_tenant_id d = t \<longrightarrow> get_session S sid ctx v = Inr d)) \<and>
    (ad_mongo_ok A w \<longrightarrow> (\<exists>doc. ad_events A w' = ad_events A w @ [doc] \<and> dict_get (au_metadata doc) ''tenant_id'' = Some (vstr ''system'')))"
proof -
  let ?token = "create_access_token cfg encode now t c [''operator''] ''agentoe-api'' None"
  let ?w' = "audit_emit A envs now (token_event rq0 t c) w"
  let ?ctx = "\<lparr>tn_tenant_id = t, tn_client_id = c, tn_roles = [''operator''], tn_issuer = ''agentoe-api''\<rparr>"
  have answer: "get_token cfg encode A envs now rq0 (Text t) (Text c) (Text secret) w = (Inr \<lparr>tk_access_token = ?token, tk_expires_in = 3600, tk_tenant_id = t\<rparr>, ?w')"
    using assms(3-5) by (simp add: get_token_def)
  have "get_current_tenant cfg decode rq ?token = Inr ?ctx"
    using assms(1) [of "\<lparr>cl_iss = Some ''agentoe-api'', cl_sub = Some c, cl_tenant_id = Some t, cl_roles = Some [''operator''],
        cl_exp = now + JWT_EXPIRE_MINUTES cfg * 60000, cl_iat = now\<rparr>"] assms(3,4,6)
    by (auto simp: get_current_tenant_def create_access_token_def same_identity_def Let_def)
  moreover have "ad_events A ?w' = ad_events A w @ [audit_entry now (emit_args envs (token_event rq0 t c))]" if "ad_mongo_ok A w"
    using assms(2) that by (simp add: audit_emit_def audit_log_def audit_laws_def Let_def)
  moreover have "dict_get (au_metadata (audit_entry now (emit_args envs (token_event rq0 t c)))) ''tenant_id'' = Some (vstr ''system'')"
    by (simp add: audit_entry_def audit_metadata_def emit_args_def Let_def event_tenant_def token_event_def)
  ultimately show ?thesis using answer by (intro exI [of _ ?token], intro exI [of _ ?w']) (auto intro: own_tenant_reads)
qed

definition plain_request :: http_request where
  "plain_request = \<lparr>rq_method = ''POST'', rq_path = ''/api/v1/auth/token'', rq_header = Map.empty, rq_query = Map.empty, rq_client = None, rq_body = []\<rparr>"

definition plain_settings :: auth_settings where
  "plain_settings = \<lparr>ENFORCE_TENANT_HEADER_MATCH = True, JWT_EXPIRE_MINUTES = 60\<rparr>"

theorem token_for_anyone_witness:
  "\<exists>token w'. get_token plain_settings plain_encode (mem_audit True True) [] 0 plain_request (Text ''acme'') (Text ''me'') (Text ''guess'') ([], []) =
       (Inr \<lparr>tk_access_token = token, tk_expires_in = 3600, tk_tenant_id = ''acme''\<rparr>, w') \<and>
     (\<exists>ctx. get_current_tenant plain_settings plain_decode plain_request token = Inr ctx \<and> tn_tenant_id ctx = ''acme'' \<and> tn_roles ctx = [''operator''] \<and>
       (\<forall>(S :: mem_store session_db) sid v d. mongo_ok S v \<and> m_find_session S sid v = Some d \<and> sd_tenant_id d = ''acme'' \<longrightarrow> get_session S sid ctx v = Inr d)) \<and>
     (ad_mongo_ok (mem_audit True True) ([], []) \<longrightarrow>
       (\<exists>doc. ad_events (mem_audit True True) w' = ad_events (mem_audit True True) ([], []) @ [doc] \<and>
          dict_get (au_metadata doc) ''tenant_id'' = Some (vstr ''system'')))"
proof (rule token_for_anyone)
  show "\<exists>d. plain_decode (plain_encode c) = Some d \<and> same_identity d c" for c
    by (cases "cl_roles c") (simp_all add: plain_decode_def plain_encode_def unpack_pack_strings same_identity_def)
  show "audit_laws (mem_audit True True)" by (rule mem_audit_laws)
  show "header_or_empty plain_request ''X-Tenant-Id'' = []" by (simp add: header_or_empty_def plain_request_def)
qed simp_all

text \<open>
  The probes. A pod takes traffic exactly when it is not draining and both stores answer; once draining has begun it never does
  again, while the liveness probe and the old health endpoint keep answering 200 whatever happens.
\<close>

theorem readiness:
  "(fst (readyz mongo redis p) = 200 \<longleftrightarrow> \<not> sm_draining (pb_manager p) \<and> mongo = None \<and> redis = None) \<and>
   fst (readyz mongo redis p) \<in> {200, 503} \<and>
   fst (readyz mongo redis (p\<lparr>pb_manager := mark_draining now (pb_manager p)\<rparr>)) = 503 \<and>
   fst (readyz mongo redis (p\<lparr>pb_manager := snd (drain E announce timeout now (pb_manager p))\<rparr>)) = 503 \<and>
   livez p = 200 \<and> health_check p = 200 \<and>
   (startupz p = 200 \<longleftrightarrow> pb_startup_completed_at p \<noteq> None) \<and> startupz (mark_startup_complete now p) = 200"
proof -
  have "sm_draining (snd (drain E announce timeout now m))" for m
    by (auto simp: drain_def Let_def mark_draining_def split: option.split list.split prod.split)
  then show ?thesis
    by (auto simp: readyz_def check_service_def mark_draining_def livez_def health_check_def startupz_def mark_startup_complete_def split: option.split)
qed

end
