(* ===== verification/Http_Middleware.thy ===== *)
theory Http_Middleware
  imports Redis_Store Pii_Masking
begin

text \<open>
  The two outer middlewares: \<^verbatim>\<open>app/middleware/logging_middleware.py\<close>, which binds the context of a request for its log records, and
  \<^verbatim>\<open>app/middleware/http_metrics_middleware.py\<close>, which counts requests. The handler behind them is an argument: what it
  returns or raises, and the context it leaves. How a token's payload decodes is a parameter.
\<close>

section \<open>Logging\<close>

definition SKIP_ACCESS_LOG :: "string list" where "SKIP_ACCESS_LOG = [''/api/v1/health'', ''/metrics'']"
definition LOG_WS_PREFIX :: string where "LOG_WS_PREFIX = ''/api/v1/ws/''"

type_synonym payload_decoder = "string \<Rightarrow> (ustr option \<times> ustr option) option"

text \<open>\<open>decode\<close> takes the middle part of the token with its padding, and gives tenant and subject, or nothing when it raises.\<close>

definition extract_tenant_from_jwt :: "payload_decoder \<Rightarrow> string option \<Rightarrow> ustr option \<times> ustr option" where
  "extract_tenant_from_jwt decode authorization =
     (case authorization of
        None \<Rightarrow> (None, None)
      | Some a \<Rightarrow>
          if \<not> starts_with ''Bearer '' a then (None, None)
          else (let parts = split_on CHR ''.'' (drop 7 a)
                in if length parts \<noteq> 3 then (None, None)
                   else (case decode (parts ! 1 @ ''=='') of None \<Rightarrow> (None, None) | Some r \<Rightarrow> r)))"

record access_record =
  ar_level :: string
  ar_event :: string
  ar_status :: int
  ar_context :: meta

type_synonym handler = "meta \<Rightarrow> (pyexc + http_response) \<times> meta"

definition set_header :: "string \<Rightarrow> string \<Rightarrow> http_response \<Rightarrow> http_response" where
  "set_header k v r = r\<lparr>rs_headers := dict_set k v (rs_headers r)\<rparr>"

text \<open>The request id of the header, or the start of a random one.\<close>

definition request_id_of :: "string \<Rightarrow> http_request \<Rightarrow> string" where
  "request_id_of new_rid rq = (case rq_header rq ''X-Request-ID'' of None \<Rightarrow> new_rid | Some r \<Rightarrow> if r = [] then new_rid else r)"

definition request_context :: "payload_decoder \<Rightarrow> string \<Rightarrow> http_request \<Rightarrow> meta \<Rightarrow> meta" where
  "request_context decode new_rid rq ctx =
     (case extract_tenant_from_jwt decode (rq_header rq ''Authorization'') of (tenant_id, client_id) \<Rightarrow>
        snd (bind_request_context [] (Some (of_str (request_id_of new_rid rq))) tenant_id client_id
               (Some (of_str (rq_path rq))) (Some (of_str (rq_method rq))) ctx))"

definition logging_dispatch ::
  "payload_decoder \<Rightarrow> string \<Rightarrow> handler \<Rightarrow> http_request \<Rightarrow> meta \<Rightarrow> (pyexc + http_response) \<times> meta \<times> access_record list" where
  "logging_dispatch decode new_rid call_next rq ctx =
     (if starts_with LOG_WS_PREFIX (rq_path rq) then (case call_next ctx of (r, ctx') \<Rightarrow> (r, ctx', []))
      else (case call_next (request_context decode new_rid rq ctx) of
              (Inl e, ctx') \<Rightarrow>
                (Inl e, clear_request_context ctx',
                 if is_Exception e then [\<lparr>ar_level = ''error'', ar_event = ''Request failed with exception'', ar_status = 500, ar_context = ctx'\<rparr>] else [])
            | (Inr resp, ctx') \<Rightarrow>
                (Inr (set_header ''X-Request-ID'' (request_id_of new_rid rq) resp), clear_request_context ctx',
                 if rq_path rq \<in> set SKIP_ACCESS_LOG then []
                 else [\<lparr>ar_level = (if rs_status resp \<ge> 400 then ''warning'' else ''info''), ar_event = ''HTTP request completed'',
                        ar_status = rs_status resp, ar_context = ctx'\<rparr>])))"

section \<open>Request metrics\<close>

definition SKIP_PATHS :: "string list" where
  "SKIP_PATHS =
     [''/api/v1/livez'', ''/api/v1/readyz'', ''/api/v1/livez/drain'', ''/api/v1/metrics/prometheus'', ''/metrics'', ''/api/v1/health'']"

definition METRICS_WS_PREFIX :: string where "METRICS_WS_PREFIX = ''/api/v1/ws''"

text \<open>\<open>route\<close>: the template of the matched route once the handler has run, if there is one.\<close>

definition resolve_route_template :: "string option \<Rightarrow> string" where
  "resolve_route_template route = (case route of None \<Rightarrow> ''UNKNOWN'' | Some p \<Rightarrow> if p = [] then ''UNKNOWN'' else p)"

record http_sample =
  hp_method :: string
  hp_route :: string
  hp_status :: int
  hp_elapsed :: time

definition measured :: "bool \<Rightarrow> http_request \<Rightarrow> bool" where
  "measured prometheus_ok rq \<longleftrightarrow> \<not> (rq_path rq \<in> set SKIP_PATHS \<or> starts_with METRICS_WS_PREFIX (rq_path rq) \<or> \<not> prometheus_ok)"

text \<open>\<open>instrument_ok\<close>: the library takes the sample; what it raises is suppressed.\<close>

definition metrics_dispatch ::
  "bool \<Rightarrow> bool \<Rightarrow> (pyexc + http_response) \<Rightarrow> string option \<Rightarrow> time \<Rightarrow> http_request \<Rightarrow> http_sample list \<Rightarrow> (pyexc + http_response) \<times> http_sample list" where
  "metrics_dispatch prometheus_ok instrument_ok result route elapsed rq samples =
     (if \<not> measured prometheus_ok rq then (result, samples)
      else (result,
            if instrument_ok
            then samples @ [\<lparr>hp_method = rq_method rq, hp_route = resolve_route_template route,
                             hp_status = (case result of Inl _ \<Rightarrow> 500 | Inr resp \<Rightarrow> rs_status resp), hp_elapsed = elapsed\<rparr>]
            else samples))"

section \<open>Properties\<close>

text \<open>
  Requests do not leak into each other's logs. However a request other than a WebSocket one ends, its context is cleared; at most one record is
  written; with a handler that leaves the context alone, the record carries the request's id, path and method and the tenant its token claims, whose
  signature nobody has checked yet; and the answer carries the same id.
\<close>

theorem request_context_scoped:
  assumes "\<not> starts_with LOG_WS_PREFIX (rq_path rq)" and run: "logging_dispatch decode new_rid call_next rq ctx = (r, ctx', records)"
  shows "ctx' = [] \<and> length records \<le> 1 \<and>
    (r = Inr resp \<longrightarrow> dict_get (rs_headers resp) ''X-Request-ID'' = Some (request_id_of new_rid rq)) \<and>
    ((\<forall>c. snd (call_next c) = c) \<longrightarrow> (\<forall>a\<in>set records.
       dict_get (ar_context a) ''request_id'' = Some (VStr (of_str (request_id_of new_rid rq))) \<and>
       (\<forall>t u. extract_tenant_from_jwt decode (rq_header rq ''Authorization'') = (Some t, u) \<and> t \<noteq> [] \<longrightarrow>
          dict_get (ar_context a) ''tenant_id'' = Some (VStr t)))) \<and>
    (r = Inl CancelledError \<longrightarrow> records = [])"
proof -
  let ?c = "request_context decode new_rid rq ctx"
  obtain r0 c0 where h: "call_next ?c = (r0, c0)" by fastforce
  have rid: "dict_get ?c ''request_id'' = Some (VStr (of_str (request_id_of new_rid rq)))"
    by (auto simp: request_context_def bind_request_context_def bind_contextvars_def dict_get_update_last given_def of_str_def Let_def split: prod.split option.split)
  have tenant: "dict_get ?c ''tenant_id'' = Some (VStr t)"
    if "extract_tenant_from_jwt decode (rq_header rq ''Authorization'') = (Some t, u)" "t \<noteq> []" for t u
    using that by (auto simp: request_context_def bind_request_context_def bind_contextvars_def dict_get_update_last given_def Let_def split: option.split)
  show ?thesis
    using run assms(1) rid tenant h
    by (auto simp: logging_dispatch_def clear_request_context_def set_header_def is_Exception_def split: sum.splits if_splits)
       (metis snd_conv)+
qed

theorem request_context_scoped_witness:
  "\<exists>resp. logging_dispatch (\<lambda>_. Some (Some (of_str ''acme''), None)) ''r1'' (\<lambda>c. (Inr \<lparr>rs_status = 404, rs_headers = [], rs_body = []\<rparr>, c))
     \<lparr>rq_method = ''GET'', rq_path = ''/api/v1/sessions/'', rq_header = [''Authorization'' \<mapsto> ''Bearer a.b.c''], rq_query = Map.empty, rq_client = None, rq_body = []\<rparr>
     [(''tenant_id'', VStr (of_str ''other''))] = (Inr resp, [], [\<lparr>ar_level = ''warning'', ar_event = ''HTTP request completed'', ar_status = 404,
       ar_context = [(''tenant_id'', VStr (of_str ''acme'')), (''request_id'', VStr (of_str ''r1'')), (''path'', VStr (of_str ''/api/v1/sessions/'')),
         (''method'', VStr (of_str ''GET''))]\<rparr>]) \<and> dict_get (rs_headers resp) ''X-Request-ID'' = Some ''r1''"
proof -
  let ?rq = "\<lparr>rq_method = ''GET'', rq_path = ''/api/v1/sessions/'', rq_header = [''Authorization'' \<mapsto> ''Bearer a.b.c''], rq_query = Map.empty, rq_client = None, rq_body = []\<rparr>"
  let ?run = "logging_dispatch (\<lambda>_. Some (Some (of_str ''acme''), None)) ''r1'' (\<lambda>c. (Inr \<lparr>rs_status = 404, rs_headers = [], rs_body = []\<rparr>, c)) ?rq
     [(''tenant_id'', VStr (of_str ''other''))]"
  obtain resp records where run: "?run = (Inr resp, [], records)" and records: "records = [\<lparr>ar_level = ''warning'', ar_event = ''HTTP request completed'', ar_status = 404,
       ar_context = [(''tenant_id'', VStr (of_str ''acme'')), (''request_id'', VStr (of_str ''r1'')), (''path'', VStr (of_str ''/api/v1/sessions/'')),
         (''method'', VStr (of_str ''GET''))]\<rparr>]"
    by (simp add: logging_dispatch_def LOG_WS_PREFIX_def SKIP_ACCESS_LOG_def request_context_def bind_request_context_def bind_contextvars_def dict_update_def
        extract_tenant_from_jwt_def request_id_of_def clear_request_context_def given_def of_str_def Let_def)
  have "\<not> starts_with LOG_WS_PREFIX (rq_path ?rq)" by (simp add: LOG_WS_PREFIX_def)
  from request_context_scoped [OF this run, of resp] run records show ?thesis by (simp add: request_id_of_def)
qed

text \<open>
  Every measured request is counted once, with the template of its route or \<open>UNKNOWN\<close>, and with status 500 when the handler raised; probes, scrapes and
  WebSocket paths are not counted; the answer is never changed, even when recording fails.
\<close>

definition serve_all :: "bool \<Rightarrow> ((pyexc + http_response) \<times> string option \<times> time \<times> http_request) list \<Rightarrow> http_sample list" where
  "serve_all prometheus_ok reqs = fold (\<lambda>(result, route, elapsed, rq) ss. snd (metrics_dispatch prometheus_ok True result route elapsed rq ss)) reqs []"

theorem requests_counted:
  "length (filter (\<lambda>s. hp_route s = route \<and> hp_status s = st) (serve_all ok reqs)) =
     length (filter (\<lambda>(result, rt, _, rq). measured ok rq \<and> resolve_route_template rt = route \<and>
       (case result of Inl _ \<Rightarrow> 500 | Inr resp \<Rightarrow> rs_status resp) = st) reqs) \<and>
   length (serve_all ok reqs) = length (filter (\<lambda>(_, _, _, rq). measured ok rq) reqs) \<and>
   fst (metrics_dispatch ok instrument_ok result rt elapsed rq ss) = result"
proof -
  have "serve_all ok reqs = concat (map (\<lambda>(result, rt, el, rq). if measured ok rq
      then [\<lparr>hp_method = rq_method rq, hp_route = resolve_route_template rt,
             hp_status = (case result of Inl _ \<Rightarrow> 500 | Inr resp \<Rightarrow> rs_status resp), hp_elapsed = el\<rparr>] else []) reqs)"
    unfolding serve_all_def by (induction reqs rule: rev_induct) (auto simp: metrics_dispatch_def)
  then have all: "serve_all ok reqs = \<dots>" .
  show ?thesis unfolding all by (induction reqs) (auto simp: metrics_dispatch_def)
qed

end
