(* ===== verification/Mfa_Migration.thy ===== *)
theory Mfa_Migration
  imports Mfa_Secret
begin

text \<open>
  The migration of second-factor secrets to the key service, \<^verbatim>\<open>src/scripts/migrate_mfa_to_kms.py\<close>. The script has its own copies of the
  envelope helpers of the portal. It reads the users first and writes them one by one; what the portal does to the collection in between
  is an argument. A document's secret is missing, null or a text.
\<close>

section \<open>Envelopes\<close>

text \<open>Environment: the legacy key (hexadecimal, decoded) and the name of the new key.\<close>

text \<open>\<open>bytes.decode()\<close>: the secrets are ASCII; the bytes of anything else are taken not to be UTF-8, which raises.\<close>

definition decode_secret :: "bytes \<Rightarrow> ustr option" where
  "decode_secret bs = (if list_all (\<lambda>x. x < 128) bs then Some bs else None)"

definition decrypt_legacy :: "bytes option \<Rightarrow> mfa_crypto \<Rightarrow> ustr \<Rightarrow> ustr option" where
  "decrypt_legacy envelope_key C ciphertext =
     (case envelope_key of
        None \<Rightarrow> Option.bind (b64decode ciphertext) decode_secret
      | Some key_bytes \<Rightarrow>
          (let key = take 32 key_bytes
           in Option.bind (b64decode ciphertext)
                (\<lambda>raw. Option.bind (aes_decrypt C key (take 12 raw) (drop 12 raw)) decode_secret)))"

text \<open>\<open>data_key\<close> is the answer of the key service, \<open>nonce\<close> twelve random bytes; \<open>struct.pack\<close> raises beyond two bytes.\<close>

definition encrypt_kms :: "mfa_crypto \<Rightarrow> (bytes \<times> bytes) option \<Rightarrow> bytes \<Rightarrow> ustr \<Rightarrow> ustr option" where
  "encrypt_kms C data_key nonce secret =
     (case data_key of
        None \<Rightarrow> None
      | Some (plaintext_dek, encrypted_dek) \<Rightarrow>
          (case aes_encrypt C plaintext_dek nonce secret of
             None \<Rightarrow> None
           | Some ct \<Rightarrow>
               if length encrypted_dek \<ge> 65536 then None
               else Some (KMS_PREFIX @ b64encode ([length encrypted_dek div 256, length encrypted_dek mod 256] @ encrypted_dek @ nonce @ ct))))"

section \<open>The run\<close>

datatype stored_secret = Missing | Null | Stored ustr

record mig_user =
  mu_id :: string
  mu_username :: string
  mu_mfa_enabled :: bool
  mu_secret :: stored_secret
  mu_migrated_at :: "time option"

record mig_env =
  mg_envelope_key :: "bytes option"
  mg_kms_key_id :: string
  mg_crypto :: mfa_crypto
  mg_data_key :: "string \<Rightarrow> (bytes \<times> bytes) option"
  mg_nonce :: "string \<Rightarrow> bytes"
  mg_now :: time

definition selected :: "string option \<Rightarrow> mig_user \<Rightarrow> bool" where
  "selected target u \<longleftrightarrow>
     mu_mfa_enabled u \<and> (case mu_secret u of Missing \<Rightarrow> False | Null \<Rightarrow> True | Stored t \<Rightarrow> \<not> starts_with KMS_PREFIX t) \<and>
     (case target of None \<Rightarrow> True | Some n \<Rightarrow> n = [] \<or> mu_username u = n)"

record mig_counts =
  mc_ok :: nat
  mc_skip :: nat
  mc_err :: nat

datatype user_outcome = Converted ustr | Skipped | Errored | Aborted

text \<open>\<open>user.get("mfa_secret_enc", "")\<close> is \<open>None\<close> for a null; its \<open>startswith\<close> is called outside of every handler.\<close>

definition enc_of :: "stored_secret \<Rightarrow> ustr option" where
  "enc_of s = (case s of Missing \<Rightarrow> Some [] | Null \<Rightarrow> None | Stored t \<Rightarrow> Some t)"

definition convert_user :: "mig_env \<Rightarrow> mig_user \<Rightarrow> user_outcome" where
  "convert_user E u =
     (case enc_of (mu_secret u) of
        None \<Rightarrow> Aborted
      | Some enc_legacy \<Rightarrow>
          if starts_with KMS_PREFIX enc_legacy then Skipped
          else (case decrypt_legacy (mg_envelope_key E) (mg_crypto E) enc_legacy of
                  None \<Rightarrow> Errored
                | Some secret \<Rightarrow>
                    (case encrypt_kms (mg_crypto E) (mg_data_key E (mu_id u)) (mg_nonce E (mu_id u)) secret of
                       None \<Rightarrow> Errored | Some new_enc \<Rightarrow> Converted new_enc)))"

definition write_secret :: "mig_env \<Rightarrow> string \<Rightarrow> ustr \<Rightarrow> mig_user list \<Rightarrow> mig_user list" where
  "write_secret E uid new_enc =
     update_first (\<lambda>d. mu_id d = uid) (\<lambda>d. d\<lparr>mu_secret := Stored new_enc, mu_migrated_at := Some (mg_now E)\<rparr>)"

text \<open>The loop over the users read before; \<open>between\<close> is what happens to the collection before a user's turn. The result is \<open>None\<close> when the run aborts.\<close>

fun migrate_loop ::
  "mig_env \<Rightarrow> bool \<Rightarrow> (string \<Rightarrow> mig_user list \<Rightarrow> mig_user list) \<Rightarrow> mig_user list \<Rightarrow> mig_counts \<Rightarrow> mig_user list \<Rightarrow> mig_counts option \<times> mig_user list" where
  "migrate_loop E dry_run between [] n col = (Some n, col)"
| "migrate_loop E dry_run between (u # us) n col =
     (let col1 = between (mu_id u) col
      in case convert_user E u of
           Aborted \<Rightarrow> (None, col1)
         | Skipped \<Rightarrow> migrate_loop E dry_run between us (n\<lparr>mc_skip := mc_skip n + 1\<rparr>) col1
         | Errored \<Rightarrow> migrate_loop E dry_run between us (n\<lparr>mc_err := mc_err n + 1\<rparr>) col1
         | Converted new_enc \<Rightarrow>
             migrate_loop E dry_run between us (n\<lparr>mc_ok := mc_ok n + 1\<rparr>)
               (if dry_run then col1 else write_secret E (mu_id u) new_enc col1))"

datatype mig_result = NoKey | Crashed | Finished mig_counts

definition migrate ::
  "mig_env \<Rightarrow> bool \<Rightarrow> string option \<Rightarrow> (string \<Rightarrow> mig_user list \<Rightarrow> mig_user list) \<Rightarrow> mig_user list \<Rightarrow> mig_result \<times> mig_user list" where
  "migrate E dry_run target between col =
     (if mg_kms_key_id E = [] then (NoKey, col)
      else (case migrate_loop E dry_run between (filter (selected target) col) \<lparr>mc_ok = 0, mc_skip = 0, mc_err = 0\<rparr> col of
              (None, col') \<Rightarrow> (Crashed, col') | (Some n, col') \<Rightarrow> (Finished n, col')))"

section \<open>Lemmas\<close>

lemma decrypt_legacy_eq:
  "decrypt_legacy k C t = Option.bind (decrypt_mfa_secret_envkey \<lparr>PORTAL_MFA_ENVELOPE_KEY = k, PORTAL_KMS_KEY_ID = i\<rparr> C t) decode_secret"
  by (cases k; cases "b64decode t") (simp_all add: decrypt_legacy_def decrypt_mfa_secret_envkey_def Let_def)

lemma decrypt_legacy_ascii: "decrypt_legacy k C t = Some s \<Longrightarrow> \<forall>x\<in>set s. x < 256"
  by (auto simp: decrypt_legacy_eq [where i = "[]"] decode_secret_def list_all_iff split: bind_splits if_splits)

lemma encrypt_kms_eq:
  "length nonce = 12 \<Longrightarrow> encrypt_kms C (kms_generate C i) nonce secret = encrypt_with_kms \<lparr>PORTAL_MFA_ENVELOPE_KEY = k, PORTAL_KMS_KEY_ID = i\<rparr> C nonce secret"
  by (auto simp: encrypt_kms_def encrypt_with_kms_def pack_kms_payload_def split: option.split)

definition mig_laws :: "mig_env \<Rightarrow> bool" where
  "mig_laws E \<longleftrightarrow> crypto_laws (mg_crypto E) \<and>
     (\<forall>i p e. mg_data_key E i = Some (p, e) \<longrightarrow> kms_decrypt (mg_crypto E) e = Some p \<and> (\<forall>x\<in>set e. x < 256)) \<and>
     (\<forall>i. length (mg_nonce E i) = 12 \<and> (\<forall>x\<in>set (mg_nonce E i). x < 256))"

text \<open>What is written is read back by the portal, under any settings.\<close>

lemma converted_reads:
  assumes laws: "mig_laws E" and conv: "convert_user E u = Converted new"
  shows "\<exists>t secret. enc_of (mu_secret u) = Some t \<and> decrypt_legacy (mg_envelope_key E) (mg_crypto E) t = Some secret \<and>
    decrypt_mfa_secret cfg (mg_crypto E) new = Some secret \<and> starts_with KMS_PREFIX new"
proof -
  let ?C = "mg_crypto E" and ?n = "mg_nonce E (mu_id u)"
  obtain t secret where t: "enc_of (mu_secret u) = Some t" and dec: "decrypt_legacy (mg_envelope_key E) ?C t = Some secret"
    and enc: "encrypt_kms ?C (mg_data_key E (mu_id u)) ?n secret = Some new"
    using conv by (auto simp: convert_user_def split: if_splits option.splits)
  obtain p e ct where k: "mg_data_key E (mu_id u) = Some (p, e)" and ct: "aes_encrypt ?C p ?n secret = Some ct" and small: "length e < 65536"
    and new: "new = KMS_PREFIX @ b64encode ([length e div 256, length e mod 256] @ e @ ?n @ ct)"
    using enc by (auto simp: encrypt_kms_def split: option.splits if_splits)
  have c: "crypto_laws ?C" and n: "length ?n = 12" "\<forall>x\<in>set ?n. x < 256" and e: "kms_decrypt ?C e = Some p" "\<forall>x\<in>set e. x < 256"
    using laws k unfolding mig_laws_def by blast+
  note s = decrypt_legacy_ascii [OF dec]
  have pk: "pack_kms_payload e ?n ct = Some ([length e div 256, length e mod 256] @ e @ ?n @ ct)"
    using n(1) small by (simp add: pack_kms_payload_def)
  have "\<forall>x\<in>set ([length e div 256, length e mod 256] @ e @ ?n @ ct). x < 256"
    using crypto_rules(2) [OF c ct s] n e by (intro pack_bytes [OF pk]) auto
  from b64_roundtrip [OF this] have "decrypt_mfa_secret cfg ?C new = Some secret"
    using unpack_pack [OF pk] e crypto_rules(1) [OF c ct] new by (simp add: decrypt_mfa_secret_def starts_with_iff)
  then show ?thesis using t dec new by (auto simp: starts_with_iff)
qed

text \<open>What one user's turn does to a document of the collection.\<close>

definition rewritten :: "mig_env \<Rightarrow> mig_user \<Rightarrow> mig_user \<Rightarrow> mig_user" where
  "rewritten E u d =
     (case convert_user E u of
        Converted new_enc \<Rightarrow> d\<lparr>mu_secret := Stored new_enc, mu_migrated_at := Some (mg_now E)\<rparr>
      | _ \<Rightarrow> d)"

lemma rewritten_id [simp]: "mu_id (rewritten E u d) = mu_id d"
  by (simp add: rewritten_def split: user_outcome.split)

lemma write_secret_map:
  "distinct (map mu_id col) \<Longrightarrow>
   write_secret E i t col = map (\<lambda>d. if mu_id d = i then d\<lparr>mu_secret := Stored t, mu_migrated_at := Some (mg_now E)\<rparr> else d) col"
  unfolding write_secret_def
  by (induction col) (auto intro!: map_idI [symmetric] simp: image_iff)

lemma migrate_dry: "migrate_loop E True (\<lambda>_. id) us n col = (r, col') \<Longrightarrow> col' = col"
  by (induction us arbitrary: n) (auto simp: Let_def split: user_outcome.splits)

lemma migrate_loop_map:
  "migrate_loop E False (\<lambda>_. id) us n col = (Some n', col') \<Longrightarrow> distinct (map mu_id col) \<Longrightarrow>
   col' = map (\<lambda>d. fold (\<lambda>u d. if mu_id d = mu_id u then rewritten E u d else d) us d) col"
proof (induction us arbitrary: n col)
  case (Cons u us)
  let ?f = "\<lambda>d. if mu_id d = mu_id u then rewritten E u d else d"
  have ids: "mu_id \<circ> ?f = mu_id" by auto
  have step: "migrate_loop E False (\<lambda>_. id) us m (map ?f col) = (Some n', col') \<Longrightarrow> ?case" for m
    using Cons.IH [of m "map ?f col"] Cons.prems(2) ids by (simp add: id_def comp_def)
  have same: "map ?f col = col" if "\<forall>c. convert_user E u \<noteq> Converted c"
    using that by (auto simp: rewritten_def intro!: map_idI split: user_outcome.split)
  have written: "map ?f col = write_secret E (mu_id u) c col" if "convert_user E u = Converted c" for c
    using that write_secret_map [OF Cons.prems(2)] by (simp add: rewritten_def cong: if_cong)
  show ?case
  proof (cases "convert_user E u")
    case (Converted c)
    then show ?thesis using Cons.prems(1) step written [OF Converted] by (simp add: Let_def id_def)
  qed (use Cons.prems(1) step same in \<open>simp_all add: Let_def id_def\<close>)
qed simp

lemma fold_absent:
  "mu_id d \<notin> mu_id ` set us \<Longrightarrow> fold (\<lambda>u d. if mu_id d = mu_id u then rewritten E u d else d) us d = d"
  by (induction us) auto

lemma fold_own:
  "u \<in> set us \<Longrightarrow> distinct (map mu_id us) \<Longrightarrow>
   fold (\<lambda>u d. if mu_id d = mu_id u then rewritten E u d else d) us u = rewritten E u u"
proof (induction us)
  case (Cons v vs)
  show ?case
  proof (cases "v = u")
    case True
    then show ?thesis using Cons.prems fold_absent [of "rewritten E u u" vs E] by simp
  next
    case False
    then have "mu_id u \<noteq> mu_id v" using Cons.prems by (auto simp: image_iff)
    then show ?thesis using Cons False by simp
  qed
qed simp

lemma migrate_loop_counts:
  "migrate_loop E dry between us n col = (Some n', col') \<Longrightarrow>
   mc_ok n' = mc_ok n + length (filter (\<lambda>u. \<exists>c. convert_user E u = Converted c) us) \<and>
   mc_skip n' = mc_skip n + length (filter (\<lambda>u. convert_user E u = Skipped) us) \<and>
   mc_err n' = mc_err n + length (filter (\<lambda>u. convert_user E u = Errored) us)"
  by (induction us arbitrary: n col) (auto simp: Let_def split: user_outcome.splits)

lemma migrate_loop_aborts:
  "u \<in> set us \<Longrightarrow> convert_user E u = Aborted \<Longrightarrow> fst (migrate_loop E dry between us n col) = None"
  by (induction us arbitrary: n col) (auto simp: Let_def split: user_outcome.splits)

lemma null_aborts:
  assumes "mg_kms_key_id E \<noteq> []" and "selected target u" and "mu_secret u = Null" and "u \<in> set col"
  shows "fst (migrate E dry target between col) = Crashed"
proof -
  have "convert_user E u = Aborted" and "u \<in> set (filter (selected target) col)"
    using assms by (simp_all add: convert_user_def enc_of_def)
  from migrate_loop_aborts [OF this(2,1), of dry between "\<lparr>mc_ok = 0, mc_skip = 0, mc_err = 0\<rparr>" col]
  show ?thesis using assms(1) by (simp add: migrate_def case_prod_unfold)
qed

lemma selected_not_skipped: "selected target u \<Longrightarrow> convert_user E u \<noteq> Skipped"
  by (auto simp: selected_def convert_user_def enc_of_def split: stored_secret.splits option.splits)

lemma fold_selected:
  assumes "distinct (map mu_id col)" and "d \<in> set col"
  shows "fold (\<lambda>u d. if mu_id d = mu_id u then rewritten E u d else d) (filter P col) d = (if P d then rewritten E d d else d)"
proof (cases "P d")
  case True
  then show ?thesis using assms fold_own [of d "filter P col" E] by (simp add: distinct_map_filter)
next
  case False
  have "mu_id d \<notin> mu_id ` set (filter P col)"
    using False assms by (auto simp: distinct_map dest: inj_onD)
  then show ?thesis using fold_absent False by simp
qed

lemma converted_fate:
  assumes "mig_laws E" and "selected target u" and "convert_user E u = Converted new"
  shows "\<exists>t secret. mu_secret u = Stored t \<and> decrypt_legacy (mg_envelope_key E) (mg_crypto E) t = Some secret \<and>
      (\<forall>cfg. decrypt_mfa_secret cfg (mg_crypto E) new = Some secret)"
    and "\<not> selected any (rewritten E u u)"
proof -
  obtain t where t: "mu_secret u = Stored t"
    using assms(2,3) by (auto simp: selected_def convert_user_def enc_of_def split: stored_secret.splits)
  have reads: "decrypt_legacy (mg_envelope_key E) (mg_crypto E) t \<noteq> None \<and>
      decrypt_mfa_secret cfg (mg_crypto E) new = decrypt_legacy (mg_envelope_key E) (mg_crypto E) t" for cfg
    using converted_reads [OF assms(1,3), of cfg] t by (auto simp: enc_of_def)
  then show "\<exists>t secret. mu_secret u = Stored t \<and> decrypt_legacy (mg_envelope_key E) (mg_crypto E) t = Some secret \<and>
      (\<forall>cfg. decrypt_mfa_secret cfg (mg_crypto E) new = Some secret)"
    using t by auto
  show "\<not> selected any (rewritten E u u)"
    using converted_reads [OF assms(1,3)] assms(3) by (auto simp: rewritten_def selected_def)
qed

lemma migrate_rehearsal:
  "migrate_loop E False (\<lambda>_. id) us n col = (Some n', col') \<Longrightarrow> migrate_loop E True (\<lambda>_. id) us n col2 = (Some n', col2)"
  by (induction us arbitrary: n col) (auto simp: Let_def split: user_outcome.splits)

section \<open>Properties\<close>



definition mig_example :: mig_env where
  "mig_example = \<lparr>mg_envelope_key = None, mg_kms_key_id = ''alias/k'', mg_crypto = toy_crypto, mg_data_key = (\<lambda>_. Some ([1, 2, 3], [1, 2, 3])),
     mg_nonce = (\<lambda>_. replicate 12 7), mg_now = 9\<rparr>"

definition legacy_user :: "string \<Rightarrow> stored_secret \<Rightarrow> mig_user" where
  "legacy_user i s = \<lparr>mu_id = i, mu_username = i, mu_mfa_enabled = True, mu_secret = s, mu_migrated_at = None\<rparr>"

lemma mig_example_laws: "mig_laws mig_example"
  by (simp add: mig_laws_def mig_example_def crypto_laws_def toy_crypto_def)


text \<open>
  Two ways in which a run goes wrong. A user with a second factor whose stored secret is null passes the query and
  ends the whole run, whatever the others hold, where the script promises to skip only the user that fails. And a user who
  enrols again between the query and the user's turn loses the new factor: the write names only the document, so
  the secret read at the start comes back, sealed anew, and the codes of the new device are refused.
\<close>

theorem migration_hazards:
  assumes "mig_laws E" and "mg_kms_key_id E \<noteq> []" and "selected target u"
  shows "(mu_secret u = Null \<and> u \<in> set col \<longrightarrow> fst (migrate E dry target between col) = Crashed) \<and>
    (convert_user E u = Converted new \<longrightarrow>
       migrate E False target (\<lambda>_. map (\<lambda>d. d\<lparr>mu_secret := Stored enrolled\<rparr>)) [u] =
         (Finished \<lparr>mc_ok = 1, mc_skip = 0, mc_err = 0\<rparr>, [u\<lparr>mu_secret := Stored new, mu_migrated_at := Some (mg_now E)\<rparr>]) \<and>
       (\<exists>t secret. mu_secret u = Stored t \<and> decrypt_legacy (mg_envelope_key E) (mg_crypto E) t = Some secret \<and>
          decrypt_mfa_secret cfg (mg_crypto E) new = Some secret))"
proof (intro conjI impI)
  assume "mu_secret u = Null \<and> u \<in> set col"
  then show "fst (migrate E dry target between col) = Crashed" using null_aborts [OF assms(2,3)] by blast
next
  assume conv: "convert_user E u = Converted new"
  show "migrate E False target (\<lambda>_. map (\<lambda>d. d\<lparr>mu_secret := Stored enrolled\<rparr>)) [u] =
         (Finished \<lparr>mc_ok = 1, mc_skip = 0, mc_err = 0\<rparr>, [u\<lparr>mu_secret := Stored new, mu_migrated_at := Some (mg_now E)\<rparr>])"
    using assms(2,3) conv by (simp add: migrate_def Let_def write_secret_def)
  show "\<exists>t secret. mu_secret u = Stored t \<and> decrypt_legacy (mg_envelope_key E) (mg_crypto E) t = Some secret \<and>
          decrypt_mfa_secret cfg (mg_crypto E) new = Some secret"
    using converted_fate(1) [OF assms(1,3) conv] by blast
qed

theorem migration_hazards_witness:
  "fst (migrate mig_example True None (\<lambda>_. id)
     [legacy_user ''a'' (Stored (b64encode [65, 66])), legacy_user ''b'' Null]) = Crashed"
proof -
  have "mg_kms_key_id mig_example \<noteq> []" and sel: "selected None (legacy_user ''b'' Null)"
    by (simp_all add: mig_example_def selected_def legacy_user_def)
  from migration_hazards [OF mig_example_laws this, of "[legacy_user ''a'' (Stored (b64encode [65, 66])), legacy_user ''b'' Null]"]
  show ?thesis by (simp add: legacy_user_def)
qed

end
