(* ===== verification/Portal_Seed.thy ===== *)
theory Portal_Seed
  imports Portal_Auth Mfa_Migration
begin

text \<open>
  The script that creates the first account of the portal, \<^verbatim>\<open>src/scripts/seed_portal_admin.py\<close>, and what the sign-in
  and the migration of second factors make of such an account. A document has the fields of a portal user and those only the script writes.
\<close>

section \<open>The script\<close>

definition VALID_ROLES :: "string list" where "VALID_ROLES = [''portal:viewer'', ''portal:operator'', ''portal:admin'']"

record seed_doc = puser +
  su_email :: "string option"
  su_roles :: "string list"
  su_created_at :: time
  su_updated_at :: time

record seed_args =
  sa_username :: string
  sa_password :: string
  sa_role :: string
  sa_no_mfa :: bool
  sa_force :: bool

text \<open>What comes from outside: whether the server answers, the hash, the time, and the id of a new document.\<close>

record seed_env =
  sv_up :: bool
  sv_hash :: "string \<Rightarrow> string"
  sv_now :: time
  sv_new_id :: string

datatype seed_result = Unreachable | IndexRefused | SeedSkipped | Duplicate | Updated | Created

text \<open>The two unique indexes; the one on the address only holds documents that have one.\<close>

definition unique_users :: "seed_doc list \<Rightarrow> bool" where
  "unique_users col \<longleftrightarrow> distinct (map pu_username col) \<and> distinct (List.map_filter su_email col)"

definition seed_document :: "seed_env \<Rightarrow> string \<Rightarrow> string \<Rightarrow> string \<Rightarrow> string list \<Rightarrow> bool \<Rightarrow> seed_doc" where
  "seed_document E i username password roles totp_enabled =
     \<lparr>pu_id = i, pu_username = username, pu_hashed_password = Some (sv_hash E password), pu_is_active = True, pu_mfa_enabled = totp_enabled,
      pu_mfa_secret_enc = None, pu_portal_roles = None, pu_last_login = None, pu_mfa_enrolled_at = None,
      su_email = Some (username @ ''@local.dev''), su_roles = roles, su_created_at = sv_now E, su_updated_at = sv_now E\<rparr>"

text \<open>A write that breaks an index raises and changes nothing.\<close>

definition checked_write :: "seed_result \<Rightarrow> seed_doc list \<Rightarrow> seed_doc list \<Rightarrow> seed_result \<times> seed_doc list" where
  "checked_write ok new col = (if unique_users new then (ok, new) else (Duplicate, col))"

definition seed :: "seed_env \<Rightarrow> string \<Rightarrow> string \<Rightarrow> string list \<Rightarrow> bool \<Rightarrow> bool \<Rightarrow> seed_doc list \<Rightarrow> seed_result \<times> seed_doc list" where
  "seed E username password roles totp_enabled force col =
     (if \<not> sv_up E then (Unreachable, col)
      else if \<not> unique_users col then (IndexRefused, col)
      else (case find (\<lambda>d. pu_username d = username) col of
              Some existing \<Rightarrow>
                if \<not> force then (SeedSkipped, col)
                else checked_write Updated
                       (update_first (\<lambda>d. pu_username d = username) (\<lambda>d. seed_document E (pu_id d) username password roles totp_enabled) col) col
            | None \<Rightarrow> checked_write Created (col @ [seed_document E (sv_new_id E) username password roles totp_enabled]) col))"

text \<open>The command line; \<open>argparse\<close> refuses a role that is not among the choices.\<close>

definition seed_main :: "seed_env \<Rightarrow> seed_args \<Rightarrow> seed_doc list \<Rightarrow> seed_result option \<times> seed_doc list" where
  "seed_main E args col =
     (if sa_role args \<notin> set VALID_ROLES then (None, col)
      else (case seed E (sa_username args) (sa_password args) [sa_role args] (\<not> sa_no_mfa args) (sa_force args) col of (r, col') \<Rightarrow> (Some r, col')))"

text \<open>A document as the migration reads it; the script writes the secret as a null.\<close>

definition mig_view :: "seed_doc \<Rightarrow> mig_user" where
  "mig_view d = \<lparr>mu_id = pu_id d, mu_username = pu_username d, mu_mfa_enabled = pu_mfa_enabled d,
     mu_secret = (case pu_mfa_secret_enc d of None \<Rightarrow> Null | Some t \<Rightarrow> Stored t), mu_migrated_at = None\<rparr>"

section \<open>Lemmas\<close>

lemma update_first_other: "d \<in> set col \<Longrightarrow> \<not> P d \<Longrightarrow> d \<in> set (update_first P f col)"
  by (induction col) auto

lemma update_first_hit: "find P col = Some d \<Longrightarrow> f d \<in> set (update_first P f col)"
  by (induction col) (auto split: if_splits)

lemma update_first_sub: "x \<in> set (update_first P f col) \<Longrightarrow> x \<in> set col \<or> (\<exists>d\<in>set col. P d \<and> x = f d)"
  by (induction col) (auto split: if_splits)

text \<open>A run that writes leaves one document of that name, the new one, and all the others.\<close>

lemma seed_written:
  assumes "seed E name pw roles mfa force col = (r, col')" and "r = Created \<or> r = Updated"
  shows "unique_users col' \<and> (\<exists>i. seed_document E i name pw roles mfa \<in> set col' \<and> (r = Updated \<longrightarrow> i \<in> pu_id ` set col)) \<and>
    (\<forall>d\<in>set col. pu_username d \<noteq> name \<longrightarrow> d \<in> set col') \<and>
    (\<forall>d\<in>set col'. pu_username d \<noteq> name \<longrightarrow> d \<in> set col)"
proof (cases "find (\<lambda>d. pu_username d = name) col")
  case None
  then show ?thesis using assms by (auto simp: seed_def checked_write_def seed_document_def split: if_splits)
next
  case (Some x)
  let ?new = "update_first (\<lambda>d. pu_username d = name) (\<lambda>d. seed_document E (pu_id d) name pw roles mfa) col"
  have r: "r = Updated" "col' = ?new" "unique_users ?new"
    using assms Some by (auto simp: seed_def checked_write_def split: if_splits)
  have "seed_document E (pu_id x) name pw roles mfa \<in> set ?new" using update_first_hit [OF Some] .
  moreover have "x \<in> set col" using Some by (metis find_Some_iff nth_mem)
  moreover have "d \<in> set col" if "d \<in> set ?new" "pu_username d \<noteq> name" for d
    using update_first_sub [OF that(1)] that(2) by (auto simp: seed_document_def)
  moreover have "d \<in> set ?new" if "d \<in> set col" "pu_username d \<noteq> name" for d
    using update_first_other [OF that(1)] that(2) by simp
  ultimately show ?thesis unfolding r(1,2) using r(3) by (intro conjI exI [of _ "pu_id x"]) auto
qed

lemma unique_user:
  assumes "unique_users col" "d \<in> set col" "e \<in> set col" "pu_username d = pu_username e"
  shows "d = e"
  using assms by (auto simp: unique_users_def distinct_map dest: inj_onD)

lemma find_own:
  "distinct (map pu_id col) \<Longrightarrow> u \<in> set col \<Longrightarrow> find (\<lambda>v. pu_id v = pu_id u) (map puser.truncate col) = Some (puser.truncate u)"
  by (induction col) (auto simp: puser.defs image_iff)

section \<open>Properties\<close>

text \<open>
  Seeding keeps the accounts. Names and addresses stay unique, accounts of other names are neither changed nor added, an existing account is only
  overwritten by force and keeps its id, the password is stored as its hash, and a second run without force changes nothing.
\<close>

theorem seed_keeps_users:
  assumes "seed_main E args col = (Some r, col')" and "unique_users col"
  shows "unique_users col' \<and>
    (\<forall>d. pu_username d \<noteq> sa_username args \<longrightarrow> (d \<in> set col' \<longleftrightarrow> d \<in> set col)) \<and>
    (r = Created \<or> r = Updated \<longrightarrow>
       (\<forall>d\<in>set col'. pu_username d = sa_username args \<longrightarrow> pu_hashed_password d = Some (sv_hash E (sa_password args))) \<and>
       (\<not> sa_force args \<longrightarrow> (\<forall>d\<in>set col. pu_username d \<noteq> sa_username args))) \<and>
    (r \<noteq> Created \<and> r \<noteq> Updated \<longrightarrow> col' = col) \<and>
    (\<not> sa_force args' \<and> sa_username args' = sa_username args \<and> sa_role args' \<in> set VALID_ROLES \<and> sv_up E' \<and> (r = Created \<or> r = Updated) \<longrightarrow>
       seed_main E' args' col' = (Some SeedSkipped, col'))"
proof -
  let ?n = "sa_username args"
  have run: "seed E ?n (sa_password args) [sa_role args] (\<not> sa_no_mfa args) (sa_force args) col = (r, col')"
    using assms(1) by (auto simp: seed_main_def split: if_splits prod.splits)
  show ?thesis
  proof (cases "r = Created \<or> r = Updated")
    case True
    note w = seed_written [OF run True]
    then obtain i where i: "seed_document E i ?n (sa_password args) [sa_role args] (\<not> sa_no_mfa args) \<in> set col'" (is "?doc \<in> _") by blast
    have hashed: "pu_hashed_password d = Some (sv_hash E (sa_password args))" if "d \<in> set col'" "pu_username d = ?n" for d
      using unique_user [of col' d ?doc] w i that by (simp add: seed_document_def)
    have unforced: "\<not> sa_force args \<Longrightarrow> \<forall>d\<in>set col. pu_username d \<noteq> ?n"
      using run True by (auto simp: seed_def find_None_iff split: if_splits option.splits)
    have again: "find (\<lambda>d. pu_username d = ?n) col' \<noteq> None" using i by (auto simp: find_None_iff seed_document_def)
    have "seed_main E' args' col' = (Some SeedSkipped, col')"
      if "\<not> sa_force args'" "sa_username args' = ?n" "sa_role args' \<in> set VALID_ROLES" "sv_up E'"
      using that again w by (auto simp: seed_main_def seed_def)
    with w hashed unforced True show ?thesis by blast
  next
    case False
    then have "col' = col" using run by (auto simp: seed_def checked_write_def split: if_splits option.splits)
    with False assms(2) show ?thesis by auto
  qed
qed

definition seed_example :: seed_env where
  "seed_example = \<lparr>sv_up = True, sv_hash = (\<lambda>pw. CHR ''#'' # pw), sv_now = 5, sv_new_id = ''u1''\<rparr>"

definition default_seed :: seed_args where
  "default_seed = \<lparr>sa_username = ''admin'', sa_password = ''admin123'', sa_role = ''portal:admin'', sa_no_mfa = False, sa_force = False\<rparr>"

definition seeded_admin :: seed_doc where
  "seeded_admin = seed_document seed_example ''u1'' ''admin'' ''admin123'' [''portal:admin''] True"

lemma seed_example_run: "seed_main seed_example default_seed [] = (Some Created, [seeded_admin])"
  by (simp add: seed_main_def seed_def seed_example_def default_seed_def seeded_admin_def VALID_ROLES_def checked_write_def unique_users_def
      List.map_filter_def seed_document_def)

theorem seed_keeps_users_witness:
  "seed_main seed_example default_seed [] = (Some Created, [seeded_admin]) \<and>
   seed_main seed_example default_seed [seeded_admin] = (Some SeedSkipped, [seeded_admin]) \<and> pu_hashed_password seeded_admin = Some ''#admin123''"
proof -
  have "unique_users []" by (simp add: unique_users_def List.map_filter_def)
  from seed_keeps_users [OF seed_example_run this, where args' = default_seed and E' = seed_example]
  have "seed_main seed_example default_seed [seeded_admin] = (Some SeedSkipped, [seeded_admin])"
    by (simp add: default_seed_def seed_example_def VALID_ROLES_def)
  then show ?thesis using seed_example_run by (simp add: seeded_admin_def seed_document_def seed_example_def)
qed




end
