(* ===== verification/Stream_Endpoints.thy ===== *)
theory Stream_Endpoints
  imports Event_Stream Tenant_Auth Metrics
begin

text \<open>
  The endpoints of \<^verbatim>\<open>app/api/v1/routers/stream.py\<close>: who may open which stream, the refusal when every slot is taken, and the stream of
  metrics, which polls once a second. The queues and the slots are those of \<open>Event_Stream\<close>, the snapshot that of \<open>Metrics\<close>.
\<close>

section \<open>Opening a stream\<close>

definition HEARTBEAT_INTERVAL_MS :: time where "HEARTBEAT_INTERVAL_MS = 15000"

datatype stream_reply =
    StreamRefused auth_error
  | StreamBusy int int
  | ChannelStream string string
  | MetricsStream

text \<open>The status and the seconds after which to try again.\<close>

definition sse_503 :: "int \<Rightarrow> stream_reply" where "sse_503 retry_after = StreamBusy 503 retry_after"

definition open_channel ::
  "string list \<Rightarrow> string \<Rightarrow> string \<Rightarrow> TenantContext \<Rightarrow> sse_guard option \<Rightarrow> stream_reply \<times> sse_guard option" where
  "open_channel roles channel event_name ctx sem =
     (case require_portal_role roles ctx of
        Inl e \<Rightarrow> (StreamRefused e, sem)
      | Inr tenant \<Rightarrow>
          (case sse_streaming_response sem of
             (Busy503, sem') \<Rightarrow> (sse_503 30, sem')
           | (Accepted, sem') \<Rightarrow> (ChannelStream channel event_name, sem')))"

definition stream_sessions :: "TenantContext \<Rightarrow> sse_guard option \<Rightarrow> stream_reply \<times> sse_guard option" where
  "stream_sessions = open_channel [''portal:viewer'', ''portal:operator'', ''portal:admin''] CHANNEL_SESSIONS ''session.event''"

definition stream_audit :: "TenantContext \<Rightarrow> sse_guard option \<Rightarrow> stream_reply \<times> sse_guard option" where
  "stream_audit = open_channel [''portal:operator'', ''portal:admin''] CHANNEL_AUDIT ''audit.append''"

definition stream_alerts :: "TenantContext \<Rightarrow> sse_guard option \<Rightarrow> stream_reply \<times> sse_guard option" where
  "stream_alerts = open_channel [''portal:viewer'', ''portal:operator'', ''portal:admin''] CHANNEL_ALERTS ''alert.event''"

definition stream_metrics :: "TenantContext \<Rightarrow> sse_guard option \<Rightarrow> stream_reply \<times> sse_guard option" where
  "stream_metrics ctx sem =
     (case require_portal_role [''portal:viewer'', ''portal:operator'', ''portal:admin''] ctx of
        Inl e \<Rightarrow> (StreamRefused e, sem)
      | Inr tenant \<Rightarrow>
          (case sem of
             Some g \<Rightarrow>
               if sg_value g = 0 then (sse_503 30, sem)
               else (MetricsStream, Some (g\<lparr>sg_value := sg_value g - 1, sg_admitted := sg_admitted g + 1\<rparr>))
           | None \<Rightarrow> (MetricsStream, None)))"

section \<open>The stream of metrics\<close>

text \<open>A turn: whether the client has gone, and how the poll ends: with a snapshot, too late, or with an exception.\<close>

datatype poll = Polled bool "string \<Rightarrow> prom_reply" | PollTimeout | PollError

datatype metrics_frame = MetricsTick kpi string | MetricsHeartbeat

definition get_env :: "string option \<Rightarrow> string" where
  "get_env environment = (case environment of None \<Rightarrow> ''unknown'' | Some e \<Rightarrow> e)"

text \<open>The frames of the turns, and whether the generator has ended.\<close>

fun metrics_generate :: "string option \<Rightarrow> (bool \<times> poll) list \<Rightarrow> metrics_store \<Rightarrow> metrics_frame list \<times> bool \<times> metrics_store" where
  "metrics_generate env [] s = ([], False, s)"
| "metrics_generate env ((gone, p) # turns) s =
     (if gone then ([], True, s)
      else (let (frame, s1) =
                  (case p of
                     Polled in_time http \<Rightarrow>
                       (case get_metrics_snapshot_async in_time http s of (snapshot, s1) \<Rightarrow> (MetricsTick snapshot (get_env env), s1))
                   | PollTimeout \<Rightarrow> (MetricsHeartbeat, s)
                   | PollError \<Rightarrow> (MetricsHeartbeat, s));
                (frames, ended, s2) = metrics_generate env turns s1
            in (frame # frames, ended, s2)))"

section \<open>Lemmas\<close>

lemma portal_role_iff:
  "require_portal_role roles ctx = Inr t \<longleftrightarrow> t = ctx \<and> tn_issuer ctx = PORTAL_ISSUER \<and>
     (set (tn_roles ctx) \<inter> set PLATFORM_ADMIN_ROLES \<noteq> {} \<or> set (tn_roles ctx) \<inter> set roles \<noteq> {})"
  by (auto simp: require_portal_role_def list_ex_iff)

lemma portal_role_cases: "require_portal_role roles ctx = Inr ctx \<or> (\<exists>e. require_portal_role roles ctx = Inl e)"
  by (auto simp: require_portal_role_def)

lemma open_channel_iff:
  "fst (open_channel roles ch ev ctx sem) = ChannelStream ch ev \<longleftrightarrow>
   require_portal_role roles ctx = Inr ctx \<and> (\<forall>g. sem = Some g \<longrightarrow> sg_value g \<noteq> 0)"
  using portal_role_cases [of roles ctx]
  by (auto simp: open_channel_def sse_streaming_response_def sse_503_def split: option.splits if_splits)

lemma open_channel_frame:
  "fst (open_channel roles ch ev ctx sem) \<noteq> ChannelStream ch ev \<Longrightarrow> snd (open_channel roles ch ev ctx sem) = sem"
  by (auto simp: open_channel_def sse_streaming_response_def split: sum.splits option.splits)

lemma stream_metrics_as_channel:
  "stream_metrics ctx sem =
     (case open_channel [''portal:viewer'', ''portal:operator'', ''portal:admin''] ch ev ctx sem of
        (ChannelStream _ _, sem') \<Rightarrow> (MetricsStream, sem') | r \<Rightarrow> r)"
  by (auto simp: stream_metrics_def open_channel_def sse_streaming_response_def sse_503_def split: sum.split option.split)

lemma open_channel_roles:
  "tn_issuer ctx = tn_issuer ctx' \<Longrightarrow> tn_roles ctx = tn_roles ctx' \<Longrightarrow> open_channel roles ch ev ctx sem = open_channel roles ch ev ctx' sem"
  by (simp add: open_channel_def require_portal_role_def)

section \<open>Properties\<close>

text \<open>
  Who gets which stream. Only tokens of the portal open a stream, and only while a slot is free; the tail of the audit trail needs an operator,
  the others a viewer. A refused request takes no slot. The tenant of the caller plays no part: callers
  with the same roles get the same streams, with the events of all tenants.
\<close>

theorem streams_guarded:
  shows "(fst (stream_audit ctx sem) = ChannelStream CHANNEL_AUDIT ''audit.append'' \<longleftrightarrow>
       tn_issuer ctx = PORTAL_ISSUER \<and> (\<forall>g. sem = Some g \<longrightarrow> sg_value g \<noteq> 0) \<and>
       set (tn_roles ctx) \<inter> (set PLATFORM_ADMIN_ROLES \<union> {''portal:operator'', ''portal:admin''}) \<noteq> {}) \<and>
    (fst (stream_sessions ctx sem) = ChannelStream CHANNEL_SESSIONS ''session.event'' \<longleftrightarrow>
       tn_issuer ctx = PORTAL_ISSUER \<and> (\<forall>g. sem = Some g \<longrightarrow> sg_value g \<noteq> 0) \<and>
       set (tn_roles ctx) \<inter> (set PLATFORM_ADMIN_ROLES \<union> {''portal:viewer'', ''portal:operator'', ''portal:admin''}) \<noteq> {}) \<and>
    (fst (stream_metrics ctx sem) = MetricsStream \<longleftrightarrow> fst (stream_sessions ctx sem) = ChannelStream CHANNEL_SESSIONS ''session.event'') \<and>
    (fst (stream_alerts ctx sem) = ChannelStream CHANNEL_ALERTS ''alert.event'' \<longleftrightarrow>
       fst (stream_sessions ctx sem) = ChannelStream CHANNEL_SESSIONS ''session.event'') \<and>
    (fst (stream_audit ctx sem) \<noteq> ChannelStream CHANNEL_AUDIT ''audit.append'' \<longrightarrow> snd (stream_audit ctx sem) = sem) \<and>
    (fst (stream_metrics ctx sem) \<noteq> MetricsStream \<longrightarrow> snd (stream_metrics ctx sem) = sem) \<and>
    (tn_issuer ctx = tn_issuer ctx' \<and> tn_roles ctx = tn_roles ctx' \<longrightarrow>
       stream_audit ctx sem = stream_audit ctx' sem \<and> stream_sessions ctx sem = stream_sessions ctx' sem \<and>
       stream_alerts ctx sem = stream_alerts ctx' sem \<and> stream_metrics ctx sem = stream_metrics ctx' sem)"
proof -
  have metrics: "fst (stream_metrics ctx sem) = MetricsStream \<longleftrightarrow> fst (stream_sessions ctx sem) = ChannelStream CHANNEL_SESSIONS ''session.event''"
    unfolding stream_sessions_def open_channel_iff
    using portal_role_cases [of "[''portal:viewer'', ''portal:operator'', ''portal:admin'']" ctx]
    by (auto simp: stream_metrics_def sse_503_def split: option.splits)
  have idle: "fst (stream_metrics ctx sem) \<noteq> MetricsStream \<longrightarrow> snd (stream_metrics ctx sem) = sem"
    by (auto simp: stream_metrics_def split: sum.splits option.splits)
  have same: "stream_audit ctx sem = stream_audit ctx' sem \<and> stream_sessions ctx sem = stream_sessions ctx' sem \<and>
       stream_alerts ctx sem = stream_alerts ctx' sem \<and> stream_metrics ctx sem = stream_metrics ctx' sem"
    if "tn_issuer ctx = tn_issuer ctx' \<and> tn_roles ctx = tn_roles ctx'"
    using that open_channel_roles [of ctx ctx']
    by (simp add: stream_audit_def stream_sessions_def stream_alerts_def stream_metrics_as_channel [of _ _ CHANNEL_ALERTS "''x''"])
  show ?thesis
    using metrics idle same open_channel_frame [of _ CHANNEL_AUDIT "''audit.append''" ctx sem]
    unfolding stream_audit_def stream_sessions_def stream_alerts_def open_channel_iff portal_role_iff by auto
qed

text \<open>
  The stream of metrics does not break. While the client is there every turn sends exactly one frame, a snapshot with the environment, or a sign of life when the poll
  was late or failed; no failure ends the stream, only the client does, and then nothing more is sent.
\<close>

theorem metrics_stream_lives:
  shows "length (fst (metrics_generate env turns s)) = length (takeWhile (\<lambda>t. \<not> fst t) turns) \<and>
    (fst (snd (metrics_generate env turns s)) \<longleftrightarrow> (\<exists>t\<in>set turns. fst t)) \<and>
    (k < length (fst (metrics_generate env turns s)) \<longrightarrow>
       (fst (metrics_generate env turns s) ! k = MetricsHeartbeat \<longleftrightarrow> snd (turns ! k) = PollTimeout \<or> snd (turns ! k) = PollError))"
proof (induction turns arbitrary: s k)
  case (Cons t turns)
  obtain gone p where t: "t = (gone, p)" by fastforce
  show ?case
  proof (cases gone)
    case False
    obtain frame s1 where f: "(case p of
                     Polled in_time http \<Rightarrow>
                       (case get_metrics_snapshot_async in_time http s of (snapshot, s1) \<Rightarrow> (MetricsTick snapshot (get_env env), s1))
                   | PollTimeout \<Rightarrow> (MetricsHeartbeat, s)
                   | PollError \<Rightarrow> (MetricsHeartbeat, s)) = (frame, s1)" by fastforce
    then have beat: "frame = MetricsHeartbeat \<longleftrightarrow> p = PollTimeout \<or> p = PollError" by (auto split: poll.splits prod.splits)
    have step: "metrics_generate env (t # turns) s =
        (frame # fst (metrics_generate env turns s1), fst (snd (metrics_generate env turns s1)), snd (snd (metrics_generate env turns s1)))"
      using False f t by (simp add: case_prod_unfold Let_def)
    show ?thesis using Cons.IH [of s1 "k - 1"] beat False t unfolding step by (cases k) auto
  qed (simp add: t)
qed simp

end
