(* ===== verification/Sipp_Report.thy ===== *)
theory Sipp_Report
  imports Redis_Store Json_Text Sample_Windows
begin

text \<open>
  The report on load tests with real calls, \<^verbatim>\<open>src/services/freeswitch/scripts/parse_sipp_results.py\<close>: reading the statistics of a
  run, its percentiles, and the verdict on the service levels. The rows of the file are those of the CSV reader. Floats are
  rationals. What \<open>float()\<close> makes of the call rate, which is only printed, is an argument. The layout of the text report is left out.
\<close>

section \<open>Statistics of a run\<close>

definition RTD_BUCKETS_MS :: "int list" where "RTD_BUCKETS_MS = [50, 100, 150, 200, 300, 500, 750, 1000, 2000, 5000]"
definition DEFAULT_SLO_P95_MS :: rat where "DEFAULT_SLO_P95_MS = 500"
definition DEFAULT_SLO_SUCCESS_PCT :: rat where "DEFAULT_SLO_SUCCESS_PCT = 999 / 10"
definition SLO_TARGET_SUCCESS :: rat where "SLO_TARGET_SUCCESS = 999 / 1000"
definition ERROR_BUDGET_WARN_PCT :: rat where "ERROR_BUDGET_WARN_PCT = 80"
definition BURN_RATE_PAGE_THRESHOLD :: rat where "BURN_RATE_PAGE_THRESHOLD = 144 / 10"

record SippStats =
  run_id :: string
  total_calls :: int
  successful_calls :: int
  failed_calls :: int
  retransmissions :: int
  rtd_counts :: "int list"
  call_rate :: rat
  duration_ms :: int

definition success_pct :: "SippStats \<Rightarrow> rat" where
  "success_pct s = (if total_calls s = 0 then 0 else of_int (successful_calls s) / of_int (total_calls s) * 100)"

definition error_rate :: "SippStats \<Rightarrow> rat" where
  "error_rate s = (if total_calls s = 0 then 0 else of_int (failed_calls s) / of_int (total_calls s))"

definition burn_rate :: "SippStats \<Rightarrow> rat" where
  "burn_rate s =
     (if error_rate s = 0 then 0
      else (let allowed_error_rate = 1 - SLO_TARGET_SUCCESS in error_rate s / allowed_error_rate))"

definition error_budget_consumed_pct :: "SippStats \<Rightarrow> rat" where
  "error_budget_consumed_pct s = min (burn_rate s * 100 / (144 / 10) * ERROR_BUDGET_WARN_PCT) 100"

text \<open>The loop over the buckets, from the \<open>i\<close>-th on.\<close>

fun percentile_scan :: "rat \<Rightarrow> nat \<Rightarrow> int \<Rightarrow> int \<Rightarrow> int list \<Rightarrow> rat" where
  "percentile_scan target i cumulative prev_upper [] = of_int (last RTD_BUCKETS_MS)"
| "percentile_scan target i cumulative prev_upper (n # counts) =
     (let cumulative' = cumulative + n;
          upper = (if i < length RTD_BUCKETS_MS then RTD_BUCKETS_MS ! i else last RTD_BUCKETS_MS)
      in if of_int cumulative' \<ge> target
         then (if n = 0 then of_int upper
               else (let position_in_bucket = (target - of_int (cumulative' - n)) / of_int n
                     in round_to 1 (of_int prev_upper + position_in_bucket * of_int (upper - prev_upper))))
         else percentile_scan target (i + 1) cumulative' upper counts)"

definition percentile_ms :: "rat \<Rightarrow> SippStats \<Rightarrow> rat option" where
  "percentile_ms pct s =
     (if rtd_counts s = [] \<or> successful_calls s = 0 then None
      else Some (percentile_scan (pct / 100 * of_int (successful_calls s)) 0 0 0 (rtd_counts s)))"

section \<open>Reading the file\<close>

definition norm :: "string \<Rightarrow> string" where "norm h = map lower_char (strip h)"

definition index_where :: "('a \<Rightarrow> bool) \<Rightarrow> 'a list \<Rightarrow> nat option" where
  "index_where P xs = (let n = length (takeWhile (\<lambda>x. \<not> P x) xs) in if n < length xs then Some n else None)"

fun find_column :: "string list \<Rightarrow> string list \<Rightarrow> nat option" where
  "find_column header [] = None"
| "find_column header (name # candidates) =
     (case index_where (\<lambda>h. norm h = map lower_char name) header of
        Some i \<Rightarrow> Some i | None \<Rightarrow> find_column header candidates)"

text \<open>\<open>int(text)\<close>: a sign, digits, single underscores between digits, at most 4300 digits.\<close>

definition dec_digit :: "char \<Rightarrow> bool" where "dec_digit c \<longleftrightarrow> 48 \<le> (of_char c :: nat) \<and> (of_char c :: nat) \<le> 57"

fun int_digits :: "int \<Rightarrow> string \<Rightarrow> int option" where
  "int_digits acc [] = Some acc"
| "int_digits acc (c # cs) =
     (if dec_digit c then int_digits (10 * acc + (int (of_char c) - 48)) cs
      else if c = CHR ''_'' \<and> cs \<noteq> [] \<and> dec_digit (hd cs) then int_digits acc cs
      else None)"

definition unsigned_text :: "string \<Rightarrow> int option" where
  "unsigned_text t =
     (if t \<noteq> [] \<and> dec_digit (hd t) \<and> length (filter dec_digit t) \<le> 4300 then int_digits 0 t else None)"

definition int_text :: "string \<Rightarrow> int option" where
  "int_text t =
     (case strip t of
        [] \<Rightarrow> None
      | c # cs \<Rightarrow>
          if c = CHR ''-'' then map_option uminus (unsigned_text cs)
          else if c = CHR ''+'' then unsigned_text cs
          else unsigned_text (c # cs))"

text \<open>\<open>int(cell.strip() or "0")\<close> with the handler; a column that is not there or lies beyond the row counts nothing.\<close>

definition int_cell :: "string \<Rightarrow> int" where
  "int_cell cell = (let t = strip cell in case int_text (if t = [] then ''0'' else t) of Some n \<Rightarrow> n | None \<Rightarrow> 0)"

definition cell_int :: "string list \<Rightarrow> nat option \<Rightarrow> int" where
  "cell_int row col_idx = (case col_idx of None \<Rightarrow> 0 | Some i \<Rightarrow> if i \<ge> length row then 0 else int_cell (row ! i))"

definition cell_float :: "(string \<Rightarrow> rat option) \<Rightarrow> string list \<Rightarrow> nat option \<Rightarrow> rat" where
  "cell_float float_text row col_idx =
     (case col_idx of
        None \<Rightarrow> 0
      | Some i \<Rightarrow>
          if i \<ge> length row then 0
          else (let t = strip (row ! i) in case float_text (if t = [] then ''0'' else t) of Some x \<Rightarrow> x | None \<Rightarrow> 0))"

definition bucket_label :: "int \<Rightarrow> string" where "bucket_label bucket_ms = map char_of (decimal (nat bucket_ms)) @ ''ms''"

definition bucket_column :: "string list \<Rightarrow> int \<Rightarrow> nat option" where
  "bucket_column header bucket_ms =
     (case index_where (\<lambda>h. contains ''responsetime'' (norm h) \<and> contains (bucket_label bucket_ms) (norm h)) header of
        Some i \<Rightarrow> Some i
      | None \<Rightarrow> index_where (\<lambda>h. contains ''rtd'' (norm h) \<and> contains (bucket_label bucket_ms) (norm h)) header)"

definition rtd_indices :: "string list \<Rightarrow> nat list" where
  "rtd_indices header =
     filter (\<lambda>i. contains ''responsetime'' (norm (header ! i)) \<or> contains ''rtd_nb_pkt'' (norm (header ! i))) [0..<length header]"

definition pad_zero :: "int list \<Rightarrow> int list" where
  "pad_zero counts = counts @ replicate (length RTD_BUCKETS_MS - length counts) 0"

definition parse_rtd_columns :: "string list \<Rightarrow> string list \<Rightarrow> int list" where
  "parse_rtd_columns header row =
     (let counts = map (\<lambda>bucket_ms. cell_int row (bucket_column header bucket_ms)) RTD_BUCKETS_MS
      in if list_all (\<lambda>c. c = 0) counts
         then pad_zero (map (\<lambda>i. cell_int row (Some i)) (take (length RTD_BUCKETS_MS) (rtd_indices header)))
         else counts)"

datatype sipp_error = StatsMissing | StatsEmpty

definition blank_row :: "string list \<Rightarrow> bool" where "blank_row row \<longleftrightarrow> list_all (\<lambda>cell. strip cell = []) row"

definition stats_of :: "(string \<Rightarrow> rat option) \<Rightarrow> string \<Rightarrow> string list \<Rightarrow> string list \<Rightarrow> SippStats" where
  "stats_of float_text rid header last_row =
     (let created = cell_int last_row (find_column header [''TotalCallCreated'', ''Total Call Created'', ''CallsCreated'']);
          successful = cell_int last_row (find_column header [''SuccessfulCall'', ''Successful call'', ''CallsSuccessful'', ''SuccessfulCalls'']);
          failed = cell_int last_row (find_column header [''FailedCall'', ''Failed call'', ''CallsFailed'', ''FailedCalls''])
      in \<lparr>run_id = rid,
          total_calls = (if created = 0 then successful + failed else created),
          successful_calls = successful,
          failed_calls = failed,
          retransmissions = cell_int last_row (find_column header [''Retransmissions'', ''Retrans'', ''NbOfRetrans'']),
          rtd_counts = parse_rtd_columns header last_row,
          call_rate = cell_float float_text last_row (find_column header [''CallRate'', ''Call rate'', ''CurrentCallRate'']),
          duration_ms = cell_int last_row (find_column header [''ElapsedTime(P)'', ''ElapsedTime'', ''TestDuration''])\<rparr>)"

text \<open>\<open>rows\<close> is \<open>None\<close> when the file does not exist.\<close>

definition parse_stats_csv :: "(string \<Rightarrow> rat option) \<Rightarrow> string \<Rightarrow> string list list option \<Rightarrow> sipp_error + SippStats" where
  "parse_stats_csv float_text rid rows =
     (case rows of
        None \<Rightarrow> Inl StatsMissing
      | Some rs \<Rightarrow>
          (case rs of
             [] \<Rightarrow> Inl StatsEmpty
           | header # body \<Rightarrow>
               (case filter (\<lambda>row. \<not> blank_row row) body of
                  [] \<Rightarrow> Inl StatsEmpty
                | r # rest \<Rightarrow> Inr (stats_of float_text rid header (last (r # rest))))))"

section \<open>The verdict\<close>

record slo_checks =
  ck_success_rate :: bool
  ck_p95_latency :: bool
  ck_burn_rate :: bool
  ck_error_budget :: bool

record slo_metrics =
  sm_total_calls :: rat
  sm_successful_calls :: rat
  sm_failed_calls :: rat
  sm_success_pct :: rat
  sm_error_rate :: rat
  sm_p50_ms :: rat
  sm_p95_ms :: rat
  sm_p99_ms :: rat
  sm_burn_rate :: rat
  sm_error_budget_consumed :: rat
  sm_avg_call_rate :: rat
  sm_retransmissions :: rat

datatype slo_warning = RetransmissionWarning rat | BurnRateWarning rat

record SloResult =
  slo_passed :: bool
  slo_check :: slo_checks
  slo_metric :: slo_metrics
  slo_warnings :: "slo_warning list"

definition or_zero :: "rat option \<Rightarrow> rat" where "or_zero x = (case x of None \<Rightarrow> 0 | Some v \<Rightarrow> v)"

definition evaluate_slo :: "SippStats \<Rightarrow> rat \<Rightarrow> rat \<Rightarrow> SloResult" where
  "evaluate_slo s slo_p95_ms slo_success_pct =
     (let p50 = or_zero (percentile_ms 50 s); p95 = or_zero (percentile_ms 95 s); p99 = or_zero (percentile_ms 99 s);
          checks = \<lparr>ck_success_rate = success_pct s \<ge> slo_success_pct, ck_p95_latency = p95 \<le> slo_p95_ms,
            ck_burn_rate = burn_rate s < BURN_RATE_PAGE_THRESHOLD, ck_error_budget = error_budget_consumed_pct s < ERROR_BUDGET_WARN_PCT\<rparr>;
          retx_pct = of_int (retransmissions s) / of_int (max (total_calls s) 1) * 100
      in \<lparr>slo_passed = (ck_success_rate checks \<and> ck_p95_latency checks \<and> ck_burn_rate checks \<and> ck_error_budget checks),
          slo_check = checks,
          slo_metric =
            \<lparr>sm_total_calls = of_int (total_calls s), sm_successful_calls = of_int (successful_calls s),
             sm_failed_calls = of_int (failed_calls s), sm_success_pct = round_to 3 (success_pct s),
             sm_error_rate = round_to 3 (error_rate s * 100), sm_p50_ms = p50, sm_p95_ms = p95, sm_p99_ms = p99,
             sm_burn_rate = round_to 2 (burn_rate s), sm_error_budget_consumed = round_to 1 (error_budget_consumed_pct s),
             sm_avg_call_rate = round_to 2 (call_rate s), sm_retransmissions = of_int (retransmissions s)\<rparr>,
          slo_warnings =
            (if retransmissions s > 0 \<and> retx_pct > 1 then [RetransmissionWarning retx_pct] else []) @
            (if burn_rate s \<ge> BURN_RATE_PAGE_THRESHOLD then [BurnRateWarning (burn_rate s)] else [])\<rparr>)"

record sipp_args =
  arg_slo_p95 :: rat
  arg_slo_success :: rat
  arg_run_id :: string
  arg_json :: bool
  arg_fail_on_slo_breach :: bool

datatype sipp_output = ParseFailed sipp_error | JsonReport SippStats SloResult | TextReport SippStats SloResult

definition sipp_main :: "(string \<Rightarrow> rat option) \<Rightarrow> sipp_args \<Rightarrow> string list list option \<Rightarrow> int \<times> sipp_output" where
  "sipp_main float_text args rows =
     (case parse_stats_csv float_text (arg_run_id args) rows of
        Inl e \<Rightarrow> (2, ParseFailed e)
      | Inr s \<Rightarrow>
          (let result = evaluate_slo s (arg_slo_p95 args) (arg_slo_success args)
           in (if arg_fail_on_slo_breach args \<and> \<not> slo_passed result then 1 else 0,
               if arg_json args then JsonReport s result else TextReport s result)))"


section \<open>Lemmas\<close>

lemma burn_rate_eq: "burn_rate s = error_rate s * 1000"
  by (simp add: burn_rate_def SLO_TARGET_SUCCESS_def)

lemma budget_iff: "error_budget_consumed_pct s < ERROR_BUDGET_WARN_PCT \<longleftrightarrow> error_rate s < 144 / 1000000"
  by (auto simp: error_budget_consumed_pct_def ERROR_BUDGET_WARN_PCT_def burn_rate_eq min_def)

lemma burn_iff: "burn_rate s < BURN_RATE_PAGE_THRESHOLD \<longleftrightarrow> error_rate s < 144 / 10000"
  by (auto simp: burn_rate_eq BURN_RATE_PAGE_THRESHOLD_def)

lemma passed_iff:
  "slo_passed (evaluate_slo s p95 pct) \<longleftrightarrow>
   pct \<le> success_pct s \<and> or_zero (percentile_ms 95 s) \<le> p95 \<and> error_rate s < 144 / 1000000"
  unfolding evaluate_slo_def by (auto simp: Let_def burn_iff budget_iff)

definition bucket_upper :: "nat \<Rightarrow> rat" where
  "bucket_upper i = of_int (if i < length RTD_BUCKETS_MS then RTD_BUCKETS_MS ! i else last RTD_BUCKETS_MS)"

definition bucket_lower :: "nat \<Rightarrow> rat" where
  "bucket_lower i = (if i = 0 then 0 else bucket_upper (i - 1))"

lemma bucket_lower_Suc [simp]: "bucket_lower (Suc i) = bucket_upper i"
  by (simp add: bucket_lower_def)

lemma bucket_order: "i < 10 \<Longrightarrow> bucket_lower i < bucket_upper i"
  by (auto simp: bucket_lower_def bucket_upper_def RTD_BUCKETS_MS_def less_Suc_eq numeral_eq_Suc)

lemma bucket_upper_le: "bucket_upper i \<le> 5000"
proof (cases "i < 10")
  case True
  then show ?thesis by (auto simp: bucket_upper_def RTD_BUCKETS_MS_def less_Suc_eq numeral_eq_Suc)
qed (simp add: bucket_upper_def RTD_BUCKETS_MS_def)

lemma round_even_mono: "x \<le> y \<Longrightarrow> round_even x \<le> round_even y"
proof (cases "\<lfloor>x\<rfloor> = \<lfloor>y\<rfloor>")
  case True
  assume "x \<le> y"
  then show ?thesis using True by (auto simp: round_even_def Let_def)
next
  case False
  assume "x \<le> y"
  then have "\<lfloor>x\<rfloor> + 1 \<le> \<lfloor>y\<rfloor>" using False floor_mono [of x y] by linarith
  moreover have "round_even x \<le> \<lfloor>x\<rfloor> + 1" "\<lfloor>y\<rfloor> \<le> round_even y" by (auto simp: round_even_def Let_def)
  ultimately show ?thesis by linarith
qed

lemma round_to_mono: "x \<le> y \<Longrightarrow> round_to d x \<le> round_to d y"
  unfolding round_to_def by (intro divide_right_mono) (auto intro: round_even_mono mult_right_mono)

lemma round_to_int: "round_to d (of_int n) = of_int n"
proof -
  have "(of_int n :: rat) * 10 ^ d = of_int (n * 10 ^ d)" by simp
  then have "round_even (of_int n * 10 ^ d) = n * 10 ^ d" unfolding round_even_def Let_def by (simp only: floor_of_int) simp
  then show ?thesis by (simp add: round_to_def)
qed

lemma inside: "0 < a \<Longrightarrow> l < l + a" "a \<le> 1 * (u - l) \<Longrightarrow> l + a \<le> (u :: rat)"
  by simp_all

text \<open>The bucket in which a rank falls, and the value that is interpolated in it.\<close>

lemma percentile_scan_bucket:
  "of_int c < target \<Longrightarrow> \<forall>n\<in>set ns. 0 \<le> n \<Longrightarrow> i + length ns \<le> 10 \<Longrightarrow> of_int prev = bucket_lower i \<Longrightarrow>
   (of_int (c + sum_list ns) < target \<and> percentile_scan target i c prev ns = 5000) \<or>
   (\<exists>k<length ns. of_int (c + sum_list (take k ns)) < target \<and> target \<le> of_int (c + sum_list (take (Suc k) ns)) \<and>
      (\<exists>x. percentile_scan target i c prev ns = round_to 1 x \<and> bucket_lower (i + k) < x \<and> x \<le> bucket_upper (i + k)))"
proof (induction ns arbitrary: i c prev)
  case Nil
  then show ?case by (simp add: RTD_BUCKETS_MS_def)
next
  case (Cons n ns)
  let ?u = "if i < length RTD_BUCKETS_MS then RTD_BUCKETS_MS ! i else last RTD_BUCKETS_MS"
  have u: "of_int ?u = bucket_upper i" by (simp add: bucket_upper_def)
  show ?case
  proof (cases "target \<le> of_int (c + n)")
    case True
    have n: "0 < n" using True Cons.prems(1) by simp
    let ?q = "(target - of_int c) / of_int n" and ?x = "of_int prev + (target - of_int c) / of_int n * of_int (?u - prev)"
    have scan: "percentile_scan target i c prev (n # ns) = round_to 1 ?x" using True n by (simp add: Let_def)
    have q: "0 < ?q" "?q \<le> 1" using n True Cons.prems(1) by (simp_all add: field_simps)
    have w: "bucket_lower i < bucket_upper i" using Cons.prems(3) by (intro bucket_order) simp
    have x: "?x = bucket_lower i + ?q * (bucket_upper i - bucket_lower i)" using u Cons.prems(4) by (simp only: of_int_diff)
    have "?q * (bucket_upper i - bucket_lower i) \<le> 1 * (bucket_upper i - bucket_lower i)"
      using q w by (intro mult_right_mono) simp_all
    moreover have "0 < ?q * (bucket_upper i - bucket_lower i)" using q(1) w by (intro mult_pos_pos) simp_all
    ultimately have "bucket_lower i < ?x \<and> ?x \<le> bucket_upper i" unfolding x by (intro conjI inside)
    then have "percentile_scan target i c prev (n # ns) = round_to 1 ?x \<and> bucket_lower (i + 0) < ?x \<and> ?x \<le> bucket_upper (i + 0)"
      using scan by simp
    with True Cons.prems(1) show ?thesis by (intro disjI2 exI [of _ "0::nat"]) auto
  next
    case False
    have scan: "percentile_scan target i c prev (n # ns) = percentile_scan target (Suc i) (c + n) ?u ns"
      using False by (simp add: Let_def)
    have "of_int (c + n) < target" "\<forall>n\<in>set ns. 0 \<le> n" "Suc i + length ns \<le> 10" "of_int ?u = bucket_lower (Suc i)"
      using False Cons.prems u by simp_all
    from Cons.IH [OF this] show ?thesis
    proof (elim disjE exE conjE)
      fix k x
      assume "k < length ns" "of_int (c + n + sum_list (take k ns)) < target" "target \<le> of_int (c + n + sum_list (take (Suc k) ns))"
        "percentile_scan target (Suc i) (c + n) ?u ns = round_to 1 x" "bucket_lower (Suc i + k) < x" "x \<le> bucket_upper (Suc i + k)"
      then show "?thesis"
        unfolding scan by (intro disjI2 exI [of _ "Suc k"] conjI exI [of _ x]) (simp_all add: algebra_simps)
    qed (simp add: scan algebra_simps del: percentile_scan.simps)
  qed
qed


lemma bucket_lower_mono: "bucket_lower i \<le> bucket_lower (i + k)"
proof (induction k)
  case (Suc k)
  have "bucket_lower (i + k) \<le> bucket_upper (i + k)"
    using bucket_order [of "i + k"] by (cases "i + k < 10") (auto simp: bucket_lower_def bucket_upper_def RTD_BUCKETS_MS_def nth_Cons split: nat.split)
  with Suc show ?case by simp
qed simp

lemma percentile_scan_lower:
  assumes "of_int c < target" "\<forall>n\<in>set ns. 0 \<le> n" "i + length ns \<le> 10" "of_int prev = bucket_lower i" "x \<le> bucket_lower i"
  shows "round_to 1 x \<le> percentile_scan target i c prev ns"
  using percentile_scan_bucket [OF assms(1-4)]
proof (elim disjE exE conjE)
  assume "percentile_scan target i c prev ns = 5000"
  moreover have "x \<le> 5000" using assms(5) bucket_upper_le [of "i - 1"] by (auto simp: bucket_lower_def split: if_splits)
  ultimately show ?thesis using round_to_mono [of x 5000 1] round_to_int [of 1 5000] by simp
next
  fix k y
  assume "percentile_scan target i c prev ns = round_to 1 y" "bucket_lower (i + k) < y"
  then show ?thesis using assms(5) bucket_lower_mono [of i k] by (auto intro: round_to_mono)
qed

lemma percentile_scan_mono:
  "of_int c < target \<Longrightarrow> target \<le> target' \<Longrightarrow> \<forall>n\<in>set ns. 0 \<le> n \<Longrightarrow> i + length ns \<le> 10 \<Longrightarrow> of_int prev = bucket_lower i \<Longrightarrow>
   percentile_scan target i c prev ns \<le> percentile_scan target' i c prev ns"
proof (induction ns arbitrary: i c prev)
  case (Cons n ns)
  let ?u = "if i < length RTD_BUCKETS_MS then RTD_BUCKETS_MS ! i else last RTD_BUCKETS_MS"
  let ?x = "\<lambda>t. of_int prev + (t - of_int c) / of_int n * of_int (?u - prev)"
  have u: "of_int ?u = bucket_lower (Suc i)" by (simp add: bucket_upper_def)
  have w: "0 \<le> (of_int (?u - prev) :: rat)"
    using bucket_order [of i] Cons.prems(4,5) u by (simp only: of_int_diff) simp
  have later: "percentile_scan t i c prev (n # ns) = percentile_scan t (Suc i) (c + n) ?u ns" if "of_int (c + n) < t" for t
    using that by (simp add: Let_def)
  have here: "percentile_scan t i c prev (n # ns) = round_to 1 (?x t)" if "t \<le> of_int (c + n)" "of_int c < t" for t
    using that by (auto simp: Let_def)
  consider "target' \<le> of_int (c + n)" | "target \<le> of_int (c + n)" "of_int (c + n) < target'" | "of_int (c + n) < target" by linarith
  then show ?case
  proof cases
    case 1
    then have n: "0 < n" using Cons.prems(1,2) by simp
    have "?x target \<le> ?x target'"
      using n w Cons.prems(2) by (intro add_left_mono mult_right_mono divide_right_mono) simp_all
    then show ?thesis using here 1 Cons.prems(1,2) round_to_mono by simp
  next
    case 2
    then have n: "0 < n" using Cons.prems(1) by simp
    have "(target - of_int c) / of_int n * of_int (?u - prev) \<le> 1 * of_int (?u - prev)"
      using n 2(1) w by (intro mult_right_mono) (simp_all add: field_simps)
    then have "?x target \<le> bucket_lower (Suc i)" unfolding of_int_diff u by (rule inside(2))
    then show ?thesis
      using percentile_scan_lower [OF 2(2) _ _ u] Cons.prems here [OF 2(1)] later [OF 2(2)] by simp
  next
    case 3
    then show ?thesis using Cons.IH [OF 3 Cons.prems(2) _ _ u] Cons.prems later [of target] later [of target'] by simp
  qed
qed simp

lemma percentile_ordered:
  assumes "\<forall>n\<in>set (rtd_counts s). 0 \<le> n" "length (rtd_counts s) \<le> 10" "0 \<le> successful_calls s" "0 < p" "p \<le> q"
  shows "or_zero (percentile_ms p s) \<le> or_zero (percentile_ms q s)"
proof (cases "rtd_counts s = [] \<or> successful_calls s = 0")
  case False
  then have pos: "0 < (of_int (successful_calls s) :: rat)" using assms(3) by simp
  then have t: "0 < p / 100 * of_int (successful_calls s)" "p / 100 * of_int (successful_calls s) \<le> q / 100 * of_int (successful_calls s)"
    using assms(4,5) by (auto intro!: mult_right_mono)
  show ?thesis
    using percentile_scan_mono [of 0 _ _ "rtd_counts s" 0 0, OF _ t(2)] t(1) assms(1,2) False
    by (simp add: percentile_ms_def or_zero_def bucket_lower_def)
qed (auto simp: percentile_ms_def or_zero_def)

lemma label_overlap: "contains (bucket_label 150) h \<or> contains (bucket_label 750) h \<longrightarrow> contains (bucket_label 50) h"
proof -
  have "bucket_label 150 = ''1'' @ bucket_label 50" "bucket_label 750 = ''7'' @ bucket_label 50" by code_simp+
  then show ?thesis unfolding contains_iff by (metis append_assoc)
qed

lemma snoc_Cons_last: "xs @ [r] = y # ys \<Longrightarrow> last (y # ys) = r"
  by (metis last_snoc)

lemma parse_rtd_length: "length (parse_rtd_columns header row) = 10"
  by (simp add: parse_rtd_columns_def pad_zero_def Let_def RTD_BUCKETS_MS_def)

lemma stats_of_buckets: "length (rtd_counts (stats_of fl rid header r)) = 10"
  unfolding stats_of_def Let_def by (simp add: parse_rtd_length)

section \<open>Properties\<close>

text \<open>
  The verdict on a run. A run passes exactly when enough calls succeeded, the estimated 95th percentile is within the limit, and fewer
  than 0.0144 percent of the calls failed. So the check of the error budget decides alone: it implies the check of the burn rate, a hundred times
  weaker, and a single failure among at most 6944 calls fails the run whatever level of success was asked for.
\<close>

theorem slo_verdict:
  shows "(slo_passed (evaluate_slo s p95 pct) \<longleftrightarrow>
     pct \<le> success_pct s \<and> or_zero (percentile_ms 95 s) \<le> p95 \<and> error_rate s < 144 / 1000000) \<and>
    (ck_error_budget (slo_check (evaluate_slo s p95 pct)) \<longrightarrow> ck_burn_rate (slo_check (evaluate_slo s p95 pct))) \<and>
    (0 < failed_calls s \<and> 0 < total_calls s \<and> total_calls s \<le> 6944 \<longrightarrow> \<not> slo_passed (evaluate_slo s p95 pct))"
proof (intro conjI impI)
  show "slo_passed (evaluate_slo s p95 pct) \<longleftrightarrow>
     pct \<le> success_pct s \<and> or_zero (percentile_ms 95 s) \<le> p95 \<and> error_rate s < 144 / 1000000" by (rule passed_iff)
  show "ck_burn_rate (slo_check (evaluate_slo s p95 pct))" if "ck_error_budget (slo_check (evaluate_slo s p95 pct))"
    using that by (simp add: evaluate_slo_def Let_def burn_iff budget_iff)
  assume few: "0 < failed_calls s \<and> 0 < total_calls s \<and> total_calls s \<le> 6944"
  then have "(1::rat) / 6944 \<le> of_int (failed_calls s) / of_int (total_calls s)" by (intro frac_le) simp_all
  moreover have "144 / 1000000 \<le> (1::rat) / 6944" by simp
  ultimately have "144 / 1000000 \<le> of_int (failed_calls s) / (of_int (total_calls s) :: rat)" by (rule order_trans [rotated])
  then have "144 / 1000000 \<le> error_rate s" using few unfolding error_rate_def by (subst if_not_P) simp_all
  then show "\<not> slo_passed (evaluate_slo s p95 pct)" by (simp add: passed_iff)
qed

definition one_failure :: SippStats where
  "one_failure = \<lparr>run_id = [], total_calls = 5000, successful_calls = 4999, failed_calls = 1, retransmissions = 0,
     rtd_counts = [4999, 0, 0, 0, 0, 0, 0, 0, 0, 0], call_rate = 10, duration_ms = 500000\<rparr>"

theorem slo_verdict_witness:
  "DEFAULT_SLO_SUCCESS_PCT \<le> success_pct one_failure \<and>
   \<not> slo_passed (evaluate_slo one_failure DEFAULT_SLO_P95_MS DEFAULT_SLO_SUCCESS_PCT)"
proof -
  have "0 < failed_calls one_failure \<and> 0 < total_calls one_failure \<and> total_calls one_failure \<le> 6944"
    and "DEFAULT_SLO_SUCCESS_PCT \<le> success_pct one_failure"
    by (simp_all add: one_failure_def success_pct_def DEFAULT_SLO_SUCCESS_PCT_def)
  then show ?thesis using slo_verdict [of one_failure DEFAULT_SLO_P95_MS DEFAULT_SLO_SUCCESS_PCT] by blast
qed



text \<open>
  Reading the statistics. It fails only for a file that is missing or has no row that is not blank after its header; then the exit code is 2. Otherwise the
  last such row alone counts, whatever cells are missing or malformed; there are ten buckets; and the exit code is 1 exactly when a breach is to fail the
  run and there is one. A column for 150 or 750 milliseconds is also taken for one of 50 milliseconds, whose label is part of theirs.
\<close>

theorem stats_parsed:
  shows "(parse_stats_csv fl rid rows = Inl StatsMissing \<longleftrightarrow> rows = None) \<and>
    (parse_stats_csv fl rid rows = Inl StatsEmpty \<longleftrightarrow> (\<exists>rs. rows = Some rs \<and> list_all blank_row (drop 1 rs))) \<and>
    (parse_stats_csv fl rid rows = Inr s \<longrightarrow> length (rtd_counts s) = 10) \<and>
    (\<not> blank_row r \<and> list_all blank_row blanks \<longrightarrow>
       parse_stats_csv fl rid (Some (header # body @ r # blanks)) = Inr (stats_of fl rid header r)) \<and>
    (fst (sipp_main fl args rows) =
       (case parse_stats_csv fl (arg_run_id args) rows of
          Inl _ \<Rightarrow> 2
        | Inr s \<Rightarrow> if arg_fail_on_slo_breach args \<and> \<not> slo_passed (evaluate_slo s (arg_slo_p95 args) (arg_slo_success args)) then 1 else 0)) \<and>
    (contains (bucket_label 150) h \<or> contains (bucket_label 750) h \<longrightarrow> contains (bucket_label 50) h)"
proof (intro conjI)
  have empty: "(\<forall>x\<in>set body. blank_row x) \<longleftrightarrow> filter (\<lambda>row. \<not> blank_row row) body = []" for body by (simp add: filter_empty_conv)
  show "parse_stats_csv fl rid rows = Inl StatsEmpty \<longleftrightarrow> (\<exists>rs. rows = Some rs \<and> list_all blank_row (drop 1 rs))"
    unfolding parse_stats_csv_def list_all_iff by (auto simp: empty split: option.split list.split)
  show "\<not> blank_row r \<and> list_all blank_row blanks \<longrightarrow>
       parse_stats_csv fl rid (Some (header # body @ r # blanks)) = Inr (stats_of fl rid header r)"
    by (auto simp: parse_stats_csv_def list_all_iff empty dest: snoc_Cons_last split: list.split)
  show "contains (bucket_label 150) h \<or> contains (bucket_label 750) h \<longrightarrow> contains (bucket_label 50) h"
    by (rule label_overlap)
  show "parse_stats_csv fl rid rows = Inl StatsMissing \<longleftrightarrow> rows = None"
    by (auto simp: parse_stats_csv_def split: option.split list.split)
  show "parse_stats_csv fl rid rows = Inr s \<longrightarrow> length (rtd_counts s) = 10"
    using stats_of_buckets by (auto simp: parse_stats_csv_def split: option.splits list.splits)
  show "fst (sipp_main fl args rows) =
       (case parse_stats_csv fl (arg_run_id args) rows of
          Inl _ \<Rightarrow> 2
        | Inr s \<Rightarrow> if arg_fail_on_slo_breach args \<and> \<not> slo_passed (evaluate_slo s (arg_slo_p95 args) (arg_slo_success args)) then 1 else 0)"
    by (simp add: sipp_main_def Let_def split: sum.split)
qed


theorem stats_parsed_witness:
  "\<exists>s. parse_stats_csv (\<lambda>_. None) [] (Some [[''SuccessfulCall'', ''FailedCall''], [''1'', ''0''], ['' 7'', ''x''], [''  '']]) = Inr s \<and>
     total_calls s = 7 \<and> length (rtd_counts s) = 10"
proof -
  let ?header = "[''SuccessfulCall'', ''FailedCall'']" and ?r = "['' 7'', ''x'']"
  have "\<not> blank_row ?r \<and> list_all blank_row [[''  '']]" by code_simp
  then have ok: "parse_stats_csv (\<lambda>_. None) [] (Some (?header # [[''1'', ''0'']] @ ?r # [[''  '']])) = Inr (stats_of (\<lambda>_. None) [] ?header ?r)"
    using stats_parsed [where r = ?r and header = ?header and body = "[[''1'', ''0'']]" and blanks = "[[''  '']]" and fl = "\<lambda>_. None" and rid = "[]"] by blast
  have "total_calls (stats_of (\<lambda>_. None) [] ?header ?r) = 7" unfolding stats_of_def Let_def SippStats.simps by code_simp
  then show ?thesis using ok stats_of_buckets by auto
qed

end
