(* ===== verification/Spec2Isabelle.thy ===== *)
theory Spec2Isabelle
  imports Policy_Gate Circuit_Breaker Session_Repository Transfer_Service Quota AI_Pipeline
    Call_Orchestrator WS_Backpressure Callbot_Graph Idempotency Kill_Switch Traffic_Limits Gateway Grpc_Stream Portal_Auth
    Connectors Scenario_Repository Event_Stream Managed_Documents Admin_Config Background_Work Pii_Masking
    Metrics_Agreement Metrics_Reports Http_Routers Http_Middleware Portal_Seed Stream_Endpoints Sipp_Report
begin

text \<open>
  \<^bold>\<open>AgentOE: a verification library of the voice-bot backend.\<close>

  AgentOE answers telephone calls with a bot. A media gateway streams the caller's audio over a WebSocket or gRPC; the backend
  under \<^verbatim>\<open>src/services/backend/app\<close> keeps a session per call, turns audio into text, asks a language model, speaks the answer, and hands the call to
  a human when the caller, the policy or repeated failures ask for it. A second engine runs scenarios that tenants draw as
  graphs. Around the calls stand the limits on traffic, the emergency stop, the operators' portal with its sign-in, the audit trail and live events,
  and the metrics. The library models that backend from the source, as functions on explicit state, and three scripts that
  belong to it. File names below are relative to \<^verbatim>\<open>src/services/backend/app\<close>.

  \<^bold>\<open>Foundations.\<close>

  \<^item> \<open>AgentOE_Prelude\<close>: Python values, exceptions, slices, ordered dictionaries, splitting and joining; the result type \<open>io\<close> (an exception or a value, with the state left
    behind); the interface locales \<open>guarded_machine\<close>, \<open>bounded_buffer\<close> and \<open>effect_frame\<close>.
  \<^item> \<open>Base64_Codec\<close>, \<open>Json_Text\<close>: the parts of Python's \<^verbatim>\<open>base64\<close> and \<^verbatim>\<open>json\<close> that are used. \<open>Redis_Store\<close>: Redis commands, requests and responses.
  \<^item> \<open>Session_Frame\<close>: the locale \<open>session_frame\<close>, what a session may do to the stores.
  \<^item> \<open>Sample_Windows\<close>: rounding, the sliding histogram of \<^verbatim>\<open>core/metrics.py\<close> and its ranks.

  \<^bold>\<open>Calls.\<close>

  \<^item> \<open>Session_FSM\<close>: \<^verbatim>\<open>domain/session_fsm.py\<close>. States, overlay events, transition table, event history, snapshots.
  \<^item> \<open>Policy_Gate\<close>: \<^verbatim>\<open>domain/policy_gate.py\<close>. The five levels and their handlers.
  \<^item> \<open>Circuit_Breaker\<close>: \<^verbatim>\<open>domain/circuit_breaker.py\<close>. Each section under the lock is one step; calls overlap by interleaving entries and exits.
  \<^item> \<open>Session_Repository\<close>: \<^verbatim>\<open>core/redis_client.py\<close> (keys, hot state, lease) and \<^verbatim>\<open>repositories/session_repository.py\<close>.
  \<^item> \<open>Transfer_Service\<close>: \<^verbatim>\<open>services/transfer_service.py\<close>. A hand-over with its dispatches, retries and fallbacks.
  \<^item> \<open>Quota\<close>: \<^verbatim>\<open>core/quota.py\<close> and the prices of \<^verbatim>\<open>services/llm_service.py\<close>.
  \<^item> \<open>AI_Services\<close>: \<^verbatim>\<open>core/timeouts.py\<close>, \<^verbatim>\<open>services/stt_service.py\<close>, \<^verbatim>\<open>services/tts_service.py\<close>, \<^verbatim>\<open>services/llm_service.py\<close>.
  \<^item> \<open>AI_Pipeline\<close>: \<^verbatim>\<open>services/ai_pipeline.py\<close>, one turn through the three vendors and the gate.
  \<^item> \<open>Call_Orchestrator\<close>: \<^verbatim>\<open>services/call_session_orchestrator.py\<close>, the session of one call and its restoration.
  \<^item> \<open>WS_Backpressure\<close>: \<^verbatim>\<open>core/ws_backpressure.py\<close>, the bounded send queue.
  \<^item> \<open>Gateway\<close>: \<^verbatim>\<open>api/v1/routers/vbgw.py\<close>, a WebSocket connection from the handshake to its end.
  \<^item> \<open>Grpc_Stream\<close>: \<^verbatim>\<open>grpc_server/voicebot_service.py\<close>, a stream of the bridge.

  \<^bold>\<open>Scenarios.\<close>

  \<^item> \<open>Scenario_DSL\<close>: \<^verbatim>\<open>agentic/scenario_dsl.py\<close>, scenarios and their validation.
  \<^item> \<open>Agentic_Nodes\<close>: \<^verbatim>\<open>agentic/state.py\<close> and \<^verbatim>\<open>agentic/nodes/\<close>, the state of a conversation and the node functions.
  \<^item> \<open>Callbot_Graph\<close>: \<^verbatim>\<open>agentic/scenario_compiler.py\<close>, \<^verbatim>\<open>agentic/callbot_graph.py\<close>, \<^verbatim>\<open>agentic/router.py\<close>.
  \<^item> \<open>Scenario_Repository\<close>: \<^verbatim>\<open>repositories/scenario_repository.py\<close> and \<^verbatim>\<open>api/v1/routers/scenarios.py\<close>.

  \<^bold>\<open>Requests and tenants.\<close>

  \<^item> \<open>Idempotency\<close>: \<^verbatim>\<open>core/idempotency.py\<close> and its middleware. \<open>Kill_Switch\<close>: \<^verbatim>\<open>domain/kill_switch.py\<close>, its cache, middleware and router.
  \<^item> \<open>Traffic_Limits\<close>: the middlewares for rate limiting and admission.
  \<^item> \<open>Tenant_Auth\<close>: \<^verbatim>\<open>core/jwks_cache.py\<close>, \<^verbatim>\<open>core/auth.py\<close> and the middleware for the portal's cookies.
  \<^item> \<open>Http_Routers\<close>: \<^verbatim>\<open>api/v1/routers/\<close> with \<^verbatim>\<open>sessions.py\<close>, \<^verbatim>\<open>auth.py\<close>, \<^verbatim>\<open>audit.py\<close> and \<^verbatim>\<open>health.py\<close>.
  \<^item> \<open>Http_Middleware\<close>: \<^verbatim>\<open>middleware/logging_middleware.py\<close> and \<^verbatim>\<open>middleware/http_metrics_middleware.py\<close>.
  \<^item> \<open>Connectors\<close>: \<^verbatim>\<open>connectors/\<close>, calls to the tenants' systems and the masking of what they return.
  \<^item> \<open>Managed_Documents\<close>: the repositories and routers of tenants, policies and connectors, with the locale \<open>document_repository\<close>. \<open>Admin_Config\<close>: the rest of \<^verbatim>\<open>api/v1/routers/admin.py\<close>.

  \<^bold>\<open>Operation.\<close>

  \<^item> \<open>Mfa_Secret\<close>, \<open>Portal_Session\<close>, \<open>Portal_Auth\<close>: \<^verbatim>\<open>domain/portal_session.py\<close>, \<^verbatim>\<open>api/v1/routers/auth_portal.py\<close> and the payloads of \<^verbatim>\<open>infra/kms_client.py\<close>.
    \<open>Mfa_Migration\<close>: \<^verbatim>\<open>src/scripts/migrate_mfa_to_kms.py\<close>, which moves stored secrets to the key service.
    \<open>Portal_Seed\<close>: \<^verbatim>\<open>src/scripts/seed_portal_admin.py\<close>, the first account.
  \<^item> \<open>Audit_Log\<close>: \<^verbatim>\<open>domain/audit_emitter.py\<close>, \<^verbatim>\<open>repositories/audit_repository.py\<close>. \<open>Event_Stream\<close>: \<^verbatim>\<open>domain/sse_broadcaster.py\<close>, and with \<open>Stream_Endpoints\<close> \<^verbatim>\<open>api/v1/routers/stream.py\<close>.
  \<^item> \<open>Background_Work\<close>: \<^verbatim>\<open>workers/am_poller.py\<close>, \<^verbatim>\<open>infra/alertmanager_client.py\<close>, \<^verbatim>\<open>core/graceful_shutdown.py\<close>.
  \<^item> \<open>Pii_Masking\<close>: \<^verbatim>\<open>core/logging.py\<close>, its patterns on a backtracking matcher.
  \<^item> \<open>Metrics\<close>, \<open>Metrics_Agreement\<close>, \<open>Metrics_Reports\<close>: \<^verbatim>\<open>core/metrics.py\<close>, \<^verbatim>\<open>infra/prometheus_client.py\<close>, \<^verbatim>\<open>api/v1/routers/metrics.py\<close>.
  \<^item> \<open>Sipp_Report\<close>: \<^verbatim>\<open>src/services/freeswitch/scripts/parse_sipp_results.py\<close>, the verdict on load tests.

  The endpoints call the orchestrator, which calls the pipeline, the hand-over service and the repository; the pipeline calls the vendors, which run inside
  breakers and charge the quota; all of them move the same machine. The graph runtime compiles stored scenarios into the nodes.
  The migration reads and writes what the portal's sign-in reads. The theories import each other the same way.

  \<^bold>\<open>Interfaces.\<close> \<open>guarded_machine\<close>, histories of a machine that only moves along a table, is interpreted on the session machine. \<open>bounded_buffer\<close>, a buffer that
  never exceeds its capacity, is interpreted on the send queue, the window of the conversation, the cache of graphs and the queues of the event stream. \<open>effect_frame\<close>, a
  reflexive and transitive relation that every step keeps, is interpreted on the pipeline, the orchestrator, the hand-over and both
  endpoints; \<open>session_frame\<close> extends it with the repository calls of one session, and both endpoints take from it that a session touches
  only its own records. \<open>document_repository\<close> is interpreted on the three repositories of managed documents.

  \<^bold>\<open>What is shown.\<close> The claims, by number. Calls, C1 to C13: in every reachable session the event history is a run of the transition table, across
  snapshots; a connection cleans up however it ends, one connection serves a session, and a reconnect after an orderly end locks the session out; a call stays consistent
  under any inputs, what a turn can end in, ending once, a turn that survives its vendors; every outcome of a
  hand-over; the cached session agrees with the stored one and an ended one is not restored; a turn reaches the bridge unchanged. Protection, C14 to C19: the breaker's counters
  under any interleaving and when it opens; a request with a key is handled once; when the emergency stop holds; the rate limit to the request; the send queue's bound. Scenarios, C20 to C22 and C32: the
  validator accepts exactly the well-formed graphs, no valid scenario compiles, the cache is transparent; versions.
  Tenants and portal, C23 to C31: who reads what; secrets read back, and their migration; the trail; refresh tokens work once; the second
  factor, and why a seeded account never gets in; masking. Operation, C33 to C40: subscribers do not disturb each other; the stream of alerts; who reads connectors; the drain ends; no
  pattern survives in a masked text; the two records of the metrics agree; percentiles of the dashboard and of load tests. The theories hold further theorems
  of the same kind that have no number, among them those about faults that the modelling showed.

  \<^bold>\<open>Parameters.\<close> Vendors, CTI connector, tools, LangGraph, ciphers, hashes, the key service, Redis, MongoDB and Prometheus are arguments of the definitions. Where a theorem
  relies on them it says so by a named law: \<open>session_db_laws\<close>, \<open>counter_laws\<close>, \<open>redis_laws\<close>, \<open>kill_laws\<close>, \<open>limit_laws\<close>, \<open>audit_laws\<close>, \<open>portal_laws\<close>, \<open>scenario_laws\<close>, \<open>doc_laws\<close>, \<open>admin_laws\<close>,
  \<open>config_laws\<close>, \<open>turn_laws\<close> and \<open>poller_laws\<close> state what reads return after writes; \<open>gateway_laws\<close> and \<open>stream_laws\<close> collect those of an endpoint; \<open>hash_laws\<close>, \<open>jwt_laws\<close>, \<open>crypto_laws\<close> and
  \<open>mig_laws\<close> that what is sealed opens again. \<open>no_outage\<close> and \<open>always_up\<close> say that no call fails, \<open>versions_immutable\<close> that a published version is not edited, \<open>never_cancelled\<close>
  that no task is cancelled. Each is instantiated by an in-memory store or a concrete function in a witness. Times are readings handed in as
  arguments; what other tasks do between two steps is an argument or an interleaving.

  \<^bold>\<open>Termination.\<close> No fuel is used. Loops are structural, or end by a measure: the attempts left of a hand-over and of a tool call, the one change of model of the language
  service, the nodes not yet reached in the validator, the time left of a drain, the rest of a text in the masking.

  \<^bold>\<open>Conventions.\<close> Python integers are \<^typ>\<open>int\<close>; floats that only carry durations are milliseconds, costs are integers in a fine unit and confidences thousandths, so that
  rounding is exact; the floats of metrics and load tests are rationals, with NaN apart. Metrics are recorded in the other components only where the
  contract depends on them; log lines are left out.

  \<^bold>\<open>Not modelled.\<close> \<^verbatim>\<open>main.py\<close>, \<^verbatim>\<open>core/config.py\<close> and \<^verbatim>\<open>core/database.py\<close> beyond the settings the components read: wiring of the process. \<^verbatim>\<open>grpc_server/server.py\<close>: starting and stopping. The HTTP
  side of the clients of the key service and of Prometheus, and range queries: they are parameters. The
  dead-letter stream, which nothing reads. Generated stubs, the smoke client, the test stub, the mock service \<^verbatim>\<open>src/services/ops-api\<close> with its random data, the operations portal, the gateways in Go and C++, deployment.
\<close>

end
